(* ===== verification/Prelude.thy ===== *)
theory Prelude
  imports Main "HOL-Library.Multiset" "HOL-Library.AList"
begin

text \<open>
  Shared base of the development: the error values the services throw, the state-and-error
  actions every asynchronous method is translated to, the combinators that mirror
  \<open>await\<close>, \<open>throw\<close>, \<open>try/catch\<close>, \<open>Promise.all\<close> and \<open>transaction\<close>, the invariant rules for
  them, and generic list lemmas.
\<close>

named_theorems run_simps \<open>equations that execute an action on a state\<close>
named_theorems keeps_rules \<open>rules that show that an action keeps an invariant\<close>

section \<open>Errors\<close>

text \<open>
  The NestJS exceptions with their message, Prisma's known request errors with their code,
  the lock manager's own error class, plain JavaScript errors, and errors of an HTTP client with the
  status code and the error texts of the response they carry.
\<close>

datatype exn =
    BadRequest string
  | Forbidden string
  | NotFound string
  | Conflict string
  | Unauthorized string
  | ServiceUnavailable string
  | TooManyRequests string
  | PrismaError string
  | PayloadTooLarge string
  | RemoteError string "int option" "string list"
  | FieldLockLeaseError
  | JsError string

section \<open>Actions: an async method as a function on the state\<close>

type_synonym ('s, 'a) act = "'s \<Rightarrow> (exn + 'a) \<times> 's"

definition ret :: "'a \<Rightarrow> ('s, 'a) act" where
  "ret a = (\<lambda>s. (Inr a, s))"

definition throw :: "exn \<Rightarrow> ('s, 'a) act" where
  "throw e = (\<lambda>s. (Inl e, s))"

definition andThen :: "('s, 'a) act \<Rightarrow> ('a \<Rightarrow> ('s, 'b) act) \<Rightarrow> ('s, 'b) act" where
  "andThen m f = (\<lambda>s. case m s of (Inl e, t) \<Rightarrow> (Inl e, t) | (Inr a, t) \<Rightarrow> f a t)"

definition gets :: "('s \<Rightarrow> 'a) \<Rightarrow> ('s, 'a) act" where
  "gets f = (\<lambda>s. (Inr (f s), s))"

definition modify :: "('s \<Rightarrow> 's) \<Rightarrow> ('s, unit) act" where
  "modify f = (\<lambda>s. (Inr (), f s))"

definition ensure :: "bool \<Rightarrow> exn \<Rightarrow> ('s, unit) act" where
  "ensure c e = (if c then ret () else throw e)"

definition whenever :: "bool \<Rightarrow> ('s, unit) act \<Rightarrow> ('s, unit) act" where
  "whenever c m = (if c then m else ret ())"

definition catching :: "('s, 'a) act \<Rightarrow> (exn \<Rightarrow> ('s, 'a) act) \<Rightarrow> ('s, 'a) act" where
  "catching m h = (\<lambda>s. case m s of (Inl e, t) \<Rightarrow> h e t | (Inr a, t) \<Rightarrow> (Inr a, t))"

text \<open>A database transaction: an error undoes every write made inside it.\<close>

definition transaction :: "('s, 'a) act \<Rightarrow> ('s, 'a) act" where
  "transaction m = (\<lambda>s. case m s of (Inl e, t) \<Rightarrow> (Inl e, s) | (Inr a, t) \<Rightarrow> (Inr a, t))"

text \<open>
  \<open>Promise.all (xs.map f)\<close>: every promise is started, whether or not another one rejects;
  the first rejection is the result.
\<close>

fun promiseAll :: "'x list \<Rightarrow> ('x \<Rightarrow> ('s, 'b) act) \<Rightarrow> ('s, unit) act" where
  "promiseAll [] f = ret ()"
| "promiseAll (x # xs) f = (\<lambda>s. case f x s of (r, t) \<Rightarrow>
     (case promiseAll xs f t of (r', u) \<Rightarrow>
       ((case r of Inl e \<Rightarrow> Inl e | Inr _ \<Rightarrow> r'), u)))"

text \<open>\<open>for (const x of xs) await f(x)\<close>: stops at the first error.\<close>

fun forEach :: "'x list \<Rightarrow> ('x \<Rightarrow> ('s, 'b) act) \<Rightarrow> ('s, unit) act" where
  "forEach [] f = ret ()"
| "forEach (x # xs) f = andThen (f x) (\<lambda>_. forEach xs f)"

text \<open>The same loop, keeping the results that are not \<open>undefined\<close>.\<close>

fun collectEach :: "'x list \<Rightarrow> ('x \<Rightarrow> ('s, 'b option) act) \<Rightarrow> ('s, 'b list) act" where
  "collectEach [] f = ret []"
| "collectEach (x # xs) f = andThen (f x) (\<lambda>r. andThen (collectEach xs f) (\<lambda>rs.
     ret (case r of None \<Rightarrow> rs | Some b \<Rightarrow> b # rs)))"

lemma ret_run [run_simps]: "ret a s = (Inr a, s)"
  by (simp add: ret_def)

lemma throw_run [run_simps]: "throw e s = (Inl e, s)"
  by (simp add: throw_def)

lemma gets_run [run_simps]: "gets f s = (Inr (f s), s)"
  by (simp add: gets_def)

lemma modify_run [run_simps]: "modify f s = (Inr (), f s)"
  by (simp add: modify_def)

lemma ensure_run [run_simps]: "ensure c e s = (if c then (Inr (), s) else (Inl e, s))"
  by (simp add: ensure_def run_simps)

lemma whenever_run [run_simps]: "whenever c m s = (if c then m s else (Inr (), s))"
  by (simp add: whenever_def run_simps)

lemma andThen_run [run_simps]:
  "andThen m f s = (case m s of (Inl e, t) \<Rightarrow> (Inl e, t) | (Inr a, t) \<Rightarrow> f a t)"
  by (simp add: andThen_def)

lemma catching_run [run_simps]:
  "catching m h s = (case m s of (Inl e, t) \<Rightarrow> h e t | (Inr a, t) \<Rightarrow> (Inr a, t))"
  by (simp add: catching_def)

lemma transaction_run [run_simps]:
  "transaction m s = (case m s of (Inl e, t) \<Rightarrow> (Inl e, s) | (Inr a, t) \<Rightarrow> (Inr a, t))"
  by (simp add: transaction_def)

lemma andThen_Inr:
  "andThen m f s = (Inr b, u) \<longleftrightarrow> (\<exists>a t. m s = (Inr a, t) \<and> f a t = (Inr b, u))"
  by (auto simp: andThen_def split: prod.splits sum.splits)

lemma andThen_Inl:
  "andThen m f s = (Inl e, u) \<longleftrightarrow>
     m s = (Inl e, u) \<or> (\<exists>a t. m s = (Inr a, t) \<and> f a t = (Inl e, u))"
  by (auto simp: andThen_def split: prod.splits sum.splits)

lemma transaction_Inr: "transaction m s = (Inr a, t) \<longleftrightarrow> m s = (Inr a, t)"
  by (auto simp: transaction_def split: prod.splits sum.splits)

lemma transaction_Inl: "transaction m s = (Inl e, t) \<Longrightarrow> t = s"
  by (auto simp: transaction_def split: prod.splits sum.splits)

lemma ret_Inr: "ret a s = (Inr b, t) \<longleftrightarrow> b = a \<and> t = s"
  by (auto simp: ret_def)

lemma throw_Inr: "throw e s = (Inr b, t) \<longleftrightarrow> False"
  by (simp add: throw_def)

lemma gets_Inr: "gets f s = (Inr b, t) \<longleftrightarrow> b = f s \<and> t = s"
  by (auto simp: gets_def)

lemma modify_Inr: "modify f s = (Inr b, t) \<longleftrightarrow> t = f s"
  by (auto simp: modify_def)

lemma ensure_Inr: "ensure c e s = (Inr b, t) \<longleftrightarrow> c \<and> t = s"
  by (auto simp: ensure_def ret_def throw_def)

lemma catching_Inr:
  "catching m h s = (Inr a, t) \<longleftrightarrow>
     m s = (Inr a, t) \<or> (\<exists>e u. m s = (Inl e, u) \<and> h e u = (Inr a, t))"
  by (auto simp: catching_def split: prod.splits sum.splits)

text \<open>Inversion of a successful run, one equivalence per combinator.\<close>

lemmas success_iffs = andThen_Inr transaction_Inr ret_Inr throw_Inr gets_Inr modify_Inr ensure_Inr

section \<open>Invariants of actions\<close>

text \<open>\<open>keeps I m\<close>: whatever \<open>m\<close> returns or throws, it leaves a state with \<open>I\<close>.\<close>

definition keeps :: "('s \<Rightarrow> bool) \<Rightarrow> ('s, 'a) act \<Rightarrow> bool" where
  "keeps I m \<longleftrightarrow> (\<forall>s. I s \<longrightarrow> I (snd (m s)))"

lemma keepsI: "(\<And>s. I s \<Longrightarrow> I (snd (m s))) \<Longrightarrow> keeps I m"
  by (simp add: keeps_def)

lemma keepsD: "keeps I m \<Longrightarrow> I s \<Longrightarrow> I (snd (m s))"
  by (simp add: keeps_def)

lemma keeps_run: "keeps I m \<Longrightarrow> I s \<Longrightarrow> m s = (r, t) \<Longrightarrow> I t"
  using keepsD [of I m s] by simp

lemma keeps_ret [keeps_rules]: "keeps I (ret a)"
  by (simp add: keeps_def ret_def)

lemma keeps_throw [keeps_rules]: "keeps I (throw e)"
  by (simp add: keeps_def throw_def)

lemma keeps_gets [keeps_rules]: "keeps I (gets f)"
  by (simp add: keeps_def gets_def)

lemma keeps_ensure [keeps_rules]: "keeps I (ensure c e)"
  by (simp add: keeps_def ensure_def ret_def throw_def)

lemma keeps_modify: "(\<And>s. I s \<Longrightarrow> I (f s)) \<Longrightarrow> keeps I (modify f)"
  by (simp add: keeps_def modify_def)

lemma keeps_whenever [keeps_rules]: "keeps I m \<Longrightarrow> keeps I (whenever c m)"
  by (simp add: whenever_def keeps_ret)

lemma keeps_andThen [keeps_rules]:
  "keeps I m \<Longrightarrow> (\<And>a. keeps I (f a)) \<Longrightarrow> keeps I (andThen m f)"
  by (fastforce simp: keeps_def andThen_def split: prod.splits sum.splits
      dest: spec)

lemma keeps_catching [keeps_rules]:
  "keeps I m \<Longrightarrow> (\<And>e. keeps I (h e)) \<Longrightarrow> keeps I (catching m h)"
  by (fastforce simp: keeps_def catching_def split: prod.splits sum.splits
      dest: spec)

lemma keeps_transaction [keeps_rules]: "keeps I m \<Longrightarrow> keeps I (transaction m)"
  by (fastforce simp: keeps_def transaction_def split: prod.splits sum.splits
      dest: spec)

lemma keeps_promiseAll_list: "(\<And>x. x \<in> set xs \<Longrightarrow> keeps I (f x)) \<Longrightarrow> keeps I (promiseAll xs f)"
proof (induction xs)
  case (Cons x xs)
  then have f: "keeps I (f x)" and xs: "keeps I (promiseAll xs f)" by auto
  show ?case
    by (rule keepsI) (auto split: prod.split intro: keeps_run [OF xs keeps_run [OF f]])
qed (simp add: keeps_ret)

lemma keeps_promiseAll [keeps_rules]: "(\<And>x. keeps I (f x)) \<Longrightarrow> keeps I (promiseAll xs f)"
  by (rule keeps_promiseAll_list)

lemma keeps_forEach_list: "(\<And>x. x \<in> set xs \<Longrightarrow> keeps I (f x)) \<Longrightarrow> keeps I (forEach xs f)"
  by (induction xs) (auto intro: keeps_ret keeps_andThen)

lemma keeps_forEach [keeps_rules]: "(\<And>x. keeps I (f x)) \<Longrightarrow> keeps I (forEach xs f)"
  by (rule keeps_forEach_list)

lemma keeps_collectEach [keeps_rules]: "(\<And>x. keeps I (f x)) \<Longrightarrow> keeps I (collectEach xs f)"
  by (induction xs) (auto intro!: keeps_ret keeps_andThen)

lemma keeps_if [keeps_rules]: "keeps I m \<Longrightarrow> keeps I m' \<Longrightarrow> keeps I (if c then m else m')"
  by simp

lemma keeps_option [keeps_rules]:
  "keeps I m \<Longrightarrow> (\<And>a. keeps I (f a)) \<Longrightarrow>
   keeps I (case x of None \<Rightarrow> m | Some a \<Rightarrow> f a)"
  by (cases x) auto

lemma keeps_prod [keeps_rules]:
  "(\<And>a b. keeps I (f a b)) \<Longrightarrow> keeps I (case x of (a, b) \<Rightarrow> f a b)"
  by (cases x) auto

lemma keeps_sum [keeps_rules]:
  "(\<And>a. keeps I (f a)) \<Longrightarrow> (\<And>b. keeps I (g b)) \<Longrightarrow> keeps I (case x of Inl a \<Rightarrow> f a | Inr b \<Rightarrow> g b)"
  by (cases x) auto

text \<open>\<open>reads m\<close>: the action never changes the state.\<close>

definition reads :: "('s, 'a) act \<Rightarrow> bool" where
  "reads m \<longleftrightarrow> (\<forall>s. snd (m s) = s)"

lemma readsD: "reads m \<Longrightarrow> m s = (r, t) \<Longrightarrow> t = s"
  by (auto simp: reads_def dest: spec [of _ s])

lemma reads_keeps: "reads m \<Longrightarrow> keeps I m"
  by (simp add: reads_def keeps_def)

lemma reads_iff_keeps: "reads m \<longleftrightarrow> (\<forall>s. keeps (\<lambda>t. t = s) m)"
  by (auto simp: reads_def keeps_def)

text \<open>An action that only reads before it goes on.\<close>

lemma reads_then:
  "reads m \<Longrightarrow> I w \<Longrightarrow> (\<And>a. m w = (Inr a, w) \<Longrightarrow> I (snd (f a w))) \<Longrightarrow> I (snd (andThen m f w))"
  by (cases "m w") (auto simp: andThen_run split: sum.split dest: readsD)

lemma andThen_ends:
  "I (snd (m w)) \<Longrightarrow> (\<And>a t. m w = (Inr a, t) \<Longrightarrow> I (snd (f a t))) \<Longrightarrow> I (snd (andThen m f w))"
  by (cases "m w") (auto simp: andThen_run split: sum.split)

section \<open>Lists\<close>

lemma filter_map_update:
  "(\<And>x. x \<in> set xs \<Longrightarrow> P (if Q x then f x else x) = P x) \<Longrightarrow>
   filter P (map (\<lambda>x. if Q x then f x else x) xs) =
   map (\<lambda>x. if Q x then f x else x) (filter P xs)"
  by (induction xs) auto

lemma find_SomeD: "List.find P xs = Some x \<Longrightarrow> x \<in> set xs \<and> P x"
  by (induction xs) (auto split: if_splits)

lemma find_None_iff_all: "List.find P xs = None \<longleftrightarrow> (\<forall>x\<in>set xs. \<not> P x)"
  by (induction xs) auto

lemma find_unique:
  "distinct (map k xs) \<Longrightarrow> x \<in> set xs \<Longrightarrow> List.find (\<lambda>y. k y = k x) xs = Some x"
  by (induction xs) (auto simp: image_iff)

lemma filter_key_unique:
  "distinct (map k xs) \<Longrightarrow> x \<in> set xs \<Longrightarrow> filter (\<lambda>y. k y = k x) xs = [x]"
  by (induction xs) (auto simp: filter_empty_conv image_iff)

lemma distinct_map_filterI: "distinct (map k xs) \<Longrightarrow> distinct (map k (filter P xs))"
  by (induction xs) auto

lemma length_filter_all: "length (filter P xs) = length xs \<longleftrightarrow> (\<forall>x\<in>set xs. P x)"
proof (induction xs)
  case (Cons x xs)
  have "length (filter P xs) < Suc (length xs)" by (simp add: le_imp_less_Suc)
  with Cons show ?case by (cases "P x") (simp_all only: filter.simps list.size if_True if_False, auto)
qed simp

lemma map_key_update:
  "(\<And>x. k (f x) = k x) \<Longrightarrow> map k (map (\<lambda>x. if Q x then f x else x) xs) = map k xs"
  by simp

lemma find_appended: "List.find P xs = None \<Longrightarrow> P x \<Longrightarrow> List.find P (xs @ [x]) = Some x"
  by (induction xs) (auto split: if_splits)

lemma find_append: "List.find P (xs @ ys) = (case List.find P xs of None \<Rightarrow> List.find P ys | Some x \<Rightarrow> Some x)"
  by (induction xs) auto

lemma find_False: "List.find (\<lambda>_. False) xs = None"
  by (induction xs) simp_all

text \<open>\<open>s.split(c)\<close>: the pieces between the separators, empty ones included.\<close>

fun splitOn :: "char \<Rightarrow> string \<Rightarrow> string list" where
  "splitOn c [] = [[]]"
| "splitOn c (x # xs) = (if x = c then [] # splitOn c xs
     else (case splitOn c xs of [] \<Rightarrow> [[x]] | y # ys \<Rightarrow> (x # y) # ys))"

lemma splitOn_fresh: "c \<notin> set s \<Longrightarrow> splitOn c s = [s]"
  by (induction s) auto

lemma splitOn_append: "c \<notin> set a \<Longrightarrow> splitOn c (a @ c # s) = a # splitOn c s"
  by (induction a) auto

lemma splitOn_nonempty: "splitOn c s \<noteq> []"
  by (induction s) (auto split: list.split)

lemma splitOn_single: "splitOn c s = [a] \<Longrightarrow> s = a \<and> c \<notin> set a"
proof (induction s arbitrary: a)
  case (Cons x s)
  then show ?case using splitOn_nonempty [of c s] by (auto split: list.splits if_splits)
qed auto

lemma splitOn_pair:
  "splitOn c s = [a, b] \<longleftrightarrow> s = a @ c # b \<and> c \<notin> set a \<and> c \<notin> set b"
proof
  show "splitOn c s = [a, b] \<Longrightarrow> s = a @ c # b \<and> c \<notin> set a \<and> c \<notin> set b"
  proof (induction s arbitrary: a)
    case (Cons x s)
    show ?case
    proof (cases "x = c")
      case True
      then show ?thesis using Cons.prems splitOn_single [of c s b] by auto
    next
      case False
      then obtain y where "a = x # y" "splitOn c s = [y, b]"
        using Cons.prems splitOn_nonempty [of c s] by (auto split: list.splits)
      then show ?thesis using Cons.IH [of y] False by auto
    qed
  qed auto
qed (simp add: splitOn_append splitOn_fresh)

text \<open>A character range of a regular expression.\<close>

definition between :: "char \<Rightarrow> char \<Rightarrow> char \<Rightarrow> bool" where
  "between lo hi c \<longleftrightarrow> (of_char lo :: nat) \<le> of_char c \<and> (of_char c :: nat) \<le> of_char hi"

lemma find_filter: "(\<And>x. Q x \<Longrightarrow> P x) \<Longrightarrow> List.find Q (filter P xs) = List.find Q xs"
  by (induction xs) auto

end
