(* ===== verification/Schema.thy ===== *)
theory Schema
  imports Prelude
begin

text \<open>
  The data every service shares: the rows of \<open>backend/prisma/schema.prisma\<close>, the live sockets
  and their rooms, the field-lock leases, the clock, the supply of \<open>randomUUID\<close> values and the
  log of Socket.IO broadcasts, gathered in one \<open>world\<close>; and the Prisma calls the services make
  (\<open>findFirst\<close>, \<open>count\<close>, \<open>create\<close>, \<open>update\<close>, \<open>updateMany\<close>, \<open>delete\<close>, \<open>deleteMany\<close>) as actions on
  it, with the documented error codes: P2025 for a record that is not there, P2002 for a
  violated unique constraint. A table is the list of its rows in insertion order; no property
  relies on the order where the code gives no \<open>orderBy\<close>.
\<close>

section \<open>Enumerations\<close>

datatype member_role = ADMIN | MEMBER | OWNER
datatype account_status = ACTIVE | PENDING_ACCOUNT | DISABLED
datatype project_status = P_IN_PROGRESS | P_REVIEW | P_COMPLETED
datatype task_status = TODO | IN_PROGRESS | REVIEW | COMPLETED
datatype task_priority = LOW | MEDIUM | HIGH
datatype block_status = NOT_STARTED | B_IN_PROGRESS | B_COMPLETED
datatype checklist_section = MANDATORY | BONUS | SUPPLEMENTAL
datatype relationship_status = PENDING_APPROVAL | ACCEPTED | BLOCKED
datatype machine_action = A_CREATE | A_UPDATE | A_DELETE

section \<open>Rows\<close>

type_synonym ident = string
type_synonym millis = int

record user_row =
  u_id :: ident
  u_email :: string
  u_username :: string
  u_firstName :: "string option"
  u_lastName :: "string option"
  u_avatarUrl :: "string option"
  u_campus :: "string option"
  u_status :: account_status
  u_updatedAt :: millis

record member_row =
  pm_userId :: ident
  pm_projectId :: ident
  pm_role :: member_role
  pm_createdAt :: millis

record project_row =
  p_id :: ident
  p_name :: string
  p_description :: "string option"
  p_status :: project_status
  p_deadline :: "millis option"
  p_isArchived :: bool
  p_updatedAt :: millis

record task_row =
  t_id :: ident
  t_projectId :: ident
  t_title :: string
  t_status :: task_status
  t_categoryId :: "ident option"
  t_rank :: int
  t_priority :: task_priority
  t_startAt :: "millis option"
  t_endAt :: "millis option"
  t_description :: "string option"
  t_notes :: "string option"
  t_onCalendar :: bool

record task_assignee_row =
  ta_userId :: ident
  ta_taskId :: ident

record category_row =
  c_id :: ident
  c_name :: string
  c_color :: int
  c_projectId :: ident

record event_row =
  e_id :: ident
  e_projectId :: ident
  e_title :: string
  e_startAt :: millis
  e_endAt :: millis
  e_categoryId :: "ident option"
  e_description :: "string option"
  e_notes :: "string option"

record calendar_assignee_row =
  ca_userId :: ident
  ca_calId :: ident

record block_row =
  b_id :: ident
  b_projectId :: ident
  b_title :: string
  b_description :: "string option"
  b_icon :: "string option"
  b_color :: "int option"
  b_status :: block_status
  b_notes :: "string option"
  b_createdAt :: millis

record block_item_row =
  bi_id :: ident
  bi_blockId :: ident
  bi_label :: string
  bi_isChecked :: bool
  bi_order :: int

record checklist_row =
  ci_id :: ident
  ci_projectId :: ident
  ci_label :: string
  ci_isChecked :: bool
  ci_order :: int
  ci_section :: checklist_section

record message_row =
  cm_id :: ident
  cm_userId :: "ident option"
  cm_projectId :: ident
  cm_content :: string
  cm_createdAt :: millis

record read_state_row =
  rs_userId :: ident
  rs_projectId :: ident
  rs_lastReadAt :: millis
  rs_lastReadMessageId :: "ident option"

record notification_row =
  n_id :: ident
  n_userId :: ident
  n_message :: string
  n_isRead :: bool
  n_link :: "string option"
  n_createdAt :: millis

record relationship_row =
  ur_requesterId :: ident
  ur_addresseeId :: ident
  ur_status :: relationship_status

record audit_row =
  au_id :: ident
  au_tokenId :: ident
  au_projectId :: ident
  au_taskId :: ident
  au_action :: machine_action

section \<open>What responses and broadcasts carry\<close>

record user_ref =
  ref_id :: ident
  ref_username :: string
  ref_avatarUrl :: "string option"

definition userRefOf :: "user_row \<Rightarrow> user_ref" where
  "userRefOf u = \<lparr>ref_id = u_id u, ref_username = u_username u, ref_avatarUrl = u_avatarUrl u\<rparr>"

record task_view =
  tv_task :: task_row
  tv_category :: "category_row option"
  tv_assignees :: "user_ref list"

record project_view =
  pv_project :: project_row
  pv_role :: member_role
  pv_progress :: int
  pv_memberCount :: nat

record chat_view =
  cv_message :: message_row
  cv_author :: "user_ref option"

record field_lock =
  l_userId :: ident
  l_username :: string
  l_avatarUrl :: "string option"
  l_projectId :: ident
  l_socketId :: ident
  l_expiresAt :: millis

record field_lock_lease = field_lock +
  l_token :: string

datatype payload =
    P_task task_view
  | P_taskDeleted ident ident
  | P_taskMoved ident ident task_status int
  | P_taskUpdated ident ident task_view
  | P_project project_view
  | P_projectDeleted ident
  | P_member member_row
  | P_memberRemoved ident ident
  | P_roleChanged ident ident member_role
  | P_checklist checklist_row
  | P_block block_row
  | P_blockItem block_item_row
  | P_message chat_view
  | P_chatRead ident millis "ident option"
  | P_notification notification_row
  | P_notificationDeleted ident
  | P_relationship relationship_row
  | P_text string
  | P_locked string field_lock
  | P_unlocked string
  | P_empty

record emission =
  em_room :: string
  em_except :: "string option"
  em_event :: string
  em_payload :: payload
  em_sockets :: "ident list"

record socket =
  sk_id :: ident
  sk_userId :: "ident option"
  sk_sessionId :: "ident option"
  sk_username :: string
  sk_avatarUrl :: "string option"
  sk_connected :: bool
  sk_ready :: bool
  sk_rooms :: "string list"
  sk_sessionKey :: "string option"

section \<open>The world\<close>

record world =
  users :: "user_row list"
  members :: "member_row list"
  projects :: "project_row list"
  tasks :: "task_row list"
  taskAssignees :: "task_assignee_row list"
  taskCategories :: "category_row list"
  calEvents :: "event_row list"
  calCategories :: "category_row list"
  calAssignees :: "calendar_assignee_row list"
  blocks :: "block_row list"
  blockItems :: "block_item_row list"
  checklist :: "checklist_row list"
  messages :: "message_row list"
  readStates :: "read_state_row list"
  notifications :: "notification_row list"
  relationships :: "relationship_row list"
  audits :: "audit_row list"
  leases :: "(string \<times> field_lock_lease) list"
  sockets :: "socket list"
  sessionSockets :: "(string \<times> ident list) list"
  outbox :: "emission list"
  clock :: millis
  uuids :: "nat \<Rightarrow> ident"

definition emptyWorld :: world where
  "emptyWorld = \<lparr>users = [], members = [], projects = [], tasks = [], taskAssignees = [],
     taskCategories = [], calEvents = [], calCategories = [], calAssignees = [], blocks = [],
     blockItems = [], checklist = [], messages = [], readStates = [], notifications = [],
     relationships = [], audits = [], leases = [], sockets = [], sessionSockets = [],
     outbox = [], clock = 0, uuids = (\<lambda>n. ''id'' @ replicate n (CHR ''0''))\<rparr>"

type_synonym 'a service = "(world, 'a) act"

section \<open>Prisma calls\<close>

definition findFirst :: "(world \<Rightarrow> 'r list) \<Rightarrow> ('r \<Rightarrow> bool) \<Rightarrow> 'r option service" where
  "findFirst sel P = gets (\<lambda>w. List.find P (sel w))"

definition findMany :: "(world \<Rightarrow> 'r list) \<Rightarrow> ('r \<Rightarrow> bool) \<Rightarrow> 'r list service" where
  "findMany sel P = gets (\<lambda>w. filter P (sel w))"

definition countRows :: "(world \<Rightarrow> 'r list) \<Rightarrow> ('r \<Rightarrow> bool) \<Rightarrow> nat service" where
  "countRows sel P = gets (\<lambda>w. length (filter P (sel w)))"

definition findOrThrow :: "(world \<Rightarrow> 'r list) \<Rightarrow> ('r \<Rightarrow> bool) \<Rightarrow> 'r service" where
  "findOrThrow sel P = (\<lambda>w. case List.find P (sel w) of
     None \<Rightarrow> (Inl (PrismaError ''P2025''), w) | Some r \<Rightarrow> (Inr r, w))"

type_synonym 'r table_update = "('r list \<Rightarrow> 'r list) \<Rightarrow> world \<Rightarrow> world"

definition insertUnique ::
  "(world \<Rightarrow> 'r list) \<Rightarrow> 'r table_update \<Rightarrow> ('r \<Rightarrow> bool) \<Rightarrow> 'r \<Rightarrow> 'r service" where
  "insertUnique sel upd clash r = (\<lambda>w. if list_ex clash (sel w)
     then (Inl (PrismaError ''P2002''), w) else (Inr r, upd (\<lambda>rs. rs @ [r]) w))"

definition updateMany :: "'r table_update \<Rightarrow> ('r \<Rightarrow> bool) \<Rightarrow> ('r \<Rightarrow> 'r) \<Rightarrow> unit service" where
  "updateMany upd P f = modify (upd (map (\<lambda>r. if P r then f r else r)))"

definition deleteMany :: "'r table_update \<Rightarrow> ('r \<Rightarrow> bool) \<Rightarrow> unit service" where
  "deleteMany upd P = modify (upd (filter (\<lambda>r. \<not> P r)))"

definition updateOne ::
  "(world \<Rightarrow> 'r list) \<Rightarrow> 'r table_update \<Rightarrow> ('r \<Rightarrow> bool) \<Rightarrow> ('r \<Rightarrow> 'r) \<Rightarrow> 'r service" where
  "updateOne sel upd P f = (\<lambda>w. case List.find P (sel w) of
     None \<Rightarrow> (Inl (PrismaError ''P2025''), w)
   | Some r \<Rightarrow> (Inr (f r), upd (map (\<lambda>r. if P r then f r else r)) w))"

definition deleteOne ::
  "(world \<Rightarrow> 'r list) \<Rightarrow> 'r table_update \<Rightarrow> ('r \<Rightarrow> bool) \<Rightarrow> 'r service" where
  "deleteOne sel upd P = (\<lambda>w. case List.find P (sel w) of
     None \<Rightarrow> (Inl (PrismaError ''P2025''), w)
   | Some r \<Rightarrow> (Inr r, upd (filter (\<lambda>r. \<not> P r)) w))"

definition nextUuid :: "ident service" where
  "nextUuid = (\<lambda>w. (Inr (uuids w 0), w\<lparr>uuids := \<lambda>n. uuids w (Suc n)\<rparr>))"

definition dateNow :: "millis service" where
  "dateNow = gets clock"

text \<open>\<open>create\<close> with the schema's \<open>@default(uuid())\<close> primary key.\<close>

definition createRow ::
  "(world \<Rightarrow> 'r list) \<Rightarrow> 'r table_update \<Rightarrow> ('r \<Rightarrow> ident) \<Rightarrow> (ident \<Rightarrow> 'r) \<Rightarrow> 'r service" where
  "createRow sel upd key mk =
     andThen nextUuid (\<lambda>i. insertUnique sel upd (\<lambda>r. key r = i) (mk i))"

lemmas prisma_defs = findFirst_def findMany_def countRows_def findOrThrow_def insertUnique_def
  updateMany_def deleteMany_def updateOne_def deleteOne_def nextUuid_def dateNow_def createRow_def

lemma prisma_run [run_simps]:
  "findFirst sel P w = (Inr (List.find P (sel w)), w)"
  "findMany sel P w = (Inr (filter P (sel w)), w)"
  "countRows sel P w = (Inr (length (filter P (sel w))), w)"
  "findOrThrow sel P w = (case List.find P (sel w) of
     None \<Rightarrow> (Inl (PrismaError ''P2025''), w) | Some r \<Rightarrow> (Inr r, w))"
  "insertUnique sel upd clash r w = (if list_ex clash (sel w)
     then (Inl (PrismaError ''P2002''), w) else (Inr r, upd (\<lambda>rs. rs @ [r]) w))"
  "updateMany upd P f w = (Inr (), upd (map (\<lambda>r. if P r then f r else r)) w)"
  "deleteMany upd P w = (Inr (), upd (filter (\<lambda>r. \<not> P r)) w)"
  "updateOne sel upd P f w = (case List.find P (sel w) of
     None \<Rightarrow> (Inl (PrismaError ''P2025''), w)
   | Some r \<Rightarrow> (Inr (f r), upd (map (\<lambda>r. if P r then f r else r)) w))"
  "deleteOne sel upd P w = (case List.find P (sel w) of
     None \<Rightarrow> (Inl (PrismaError ''P2025''), w)
   | Some r \<Rightarrow> (Inr r, upd (filter (\<lambda>r. \<not> P r)) w))"
  "nextUuid w = (Inr (uuids w 0), w\<lparr>uuids := \<lambda>n. uuids w (Suc n)\<rparr>)"
  "dateNow w = (Inr (clock w), w)"
  by (simp_all add: prisma_defs run_simps)

lemma createRow_run [run_simps]:
  "createRow sel upd key mk w =
     insertUnique sel upd (\<lambda>r. key r = uuids w 0) (mk (uuids w 0))
       (w\<lparr>uuids := \<lambda>n. uuids w (Suc n)\<rparr>)"
  by (simp add: createRow_def run_simps)

lemma prisma_Inr:
  "findFirst sel P w = (Inr x, t) \<longleftrightarrow> x = List.find P (sel w) \<and> t = w"
  "findMany sel P w = (Inr xs, t) \<longleftrightarrow> xs = filter P (sel w) \<and> t = w"
  "countRows sel P w = (Inr n, t) \<longleftrightarrow> n = length (filter P (sel w)) \<and> t = w"
  "findOrThrow sel P w = (Inr r, t) \<longleftrightarrow> List.find P (sel w) = Some r \<and> t = w"
  "insertUnique sel upd clash r0 w = (Inr r, t) \<longleftrightarrow>
     \<not> list_ex clash (sel w) \<and> r = r0 \<and> t = upd (\<lambda>rs. rs @ [r0]) w"
  "updateMany upd P f w = (Inr u, t) \<longleftrightarrow> t = upd (map (\<lambda>r. if P r then f r else r)) w"
  "deleteMany upd P w = (Inr u, t) \<longleftrightarrow> t = upd (filter (\<lambda>r. \<not> P r)) w"
  "updateOne sel upd P f w = (Inr r, t) \<longleftrightarrow>
     (\<exists>r0. List.find P (sel w) = Some r0 \<and> r = f r0 \<and>
        t = upd (map (\<lambda>r. if P r then f r else r)) w)"
  "deleteOne sel upd P w = (Inr r, t) \<longleftrightarrow>
     List.find P (sel w) = Some r \<and> t = upd (filter (\<lambda>r. \<not> P r)) w"
  "nextUuid w = (Inr i, t) \<longleftrightarrow> i = uuids w 0 \<and> t = w\<lparr>uuids := \<lambda>n. uuids w (Suc n)\<rparr>"
  "dateNow w = (Inr now, t) \<longleftrightarrow> now = clock w \<and> t = w"
  by (auto simp: run_simps split: option.splits)

lemma keeps_prisma_reads [keeps_rules]:
  "keeps I (findFirst sel P)" "keeps I (findMany sel P)" "keeps I (countRows sel P)"
  "keeps I (findOrThrow sel P)" "keeps I dateNow"
  by (auto simp: keeps_def run_simps split: option.splits)

lemma reads_prisma:
  "reads (findFirst sel P)" "reads (findMany sel P)" "reads (countRows sel P)"
  "reads (findOrThrow sel P)" "reads dateNow"
  by (auto simp: reads_def run_simps split: option.splits)

lemma keeps_insertUnique:
  "(\<And>w. I w \<Longrightarrow> I (upd (\<lambda>rs. rs @ [r]) w)) \<Longrightarrow> keeps I (insertUnique sel upd clash r)"
  by (auto simp: keeps_def run_simps)

lemma keeps_nextUuid:
  "(\<And>w f. I w \<Longrightarrow> I (w\<lparr>uuids := f\<rparr>)) \<Longrightarrow> keeps I nextUuid"
  by (auto simp: keeps_def run_simps)

lemma keeps_createRow:
  "(\<And>w f. I w \<Longrightarrow> I (w\<lparr>uuids := f\<rparr>)) \<Longrightarrow> (\<And>w i. I w \<Longrightarrow> I (upd (\<lambda>rs. rs @ [mk i]) w)) \<Longrightarrow>
   keeps I (createRow sel upd key mk)"
  unfolding createRow_def by (intro keeps_rules keeps_nextUuid keeps_insertUnique) auto

lemma keeps_updateMany:
  "(\<And>w. I w \<Longrightarrow> I (upd (map (\<lambda>r. if P r then f r else r)) w)) \<Longrightarrow> keeps I (updateMany upd P f)"
  by (auto simp: keeps_def run_simps)

lemma keeps_deleteMany:
  "(\<And>w. I w \<Longrightarrow> I (upd (filter (\<lambda>r. \<not> P r)) w)) \<Longrightarrow> keeps I (deleteMany upd P)"
  by (auto simp: keeps_def run_simps)

lemma keeps_updateOne:
  "(\<And>w. I w \<Longrightarrow> I (upd (map (\<lambda>r. if P r then f r else r)) w)) \<Longrightarrow>
   keeps I (updateOne sel upd P f)"
  by (auto simp: keeps_def run_simps split: option.splits)

lemma keeps_deleteOne:
  "(\<And>w. I w \<Longrightarrow> I (upd (filter (\<lambda>r. \<not> P r)) w)) \<Longrightarrow> keeps I (deleteOne sel upd P)"
  by (auto simp: keeps_def run_simps split: option.splits)

text \<open>The writes; each leaves one goal, that the invariant survives that write.\<close>

lemmas keeps_writes = keeps_insertUnique keeps_nextUuid keeps_createRow keeps_updateMany
  keeps_deleteMany keeps_updateOne keeps_deleteOne keeps_modify

end
