(* ===== verification/Realtime.thy ===== *)
theory Realtime
  imports Schema
begin

text \<open>
  \<open>RealtimeService\<close>'s broadcasts and rooms (\<open>backend/src/realtime/realtime.service.ts\<close>) and
  \<open>NotificationsService\<close> (\<open>backend/src/notifications/notifications.service.ts\<close>). Socket.IO is
  modelled by what the code relies on: a broadcast reaches the sockets that are in the target
  room, minus those in an excepted room, at the moment it is sent. Each broadcast is appended to
  \<open>outbox\<close> with the sockets it reached.
\<close>

section \<open>Rooms and broadcasts\<close>

definition projectRoom :: "ident \<Rightarrow> string" where
  "projectRoom pid = ''project:'' @ pid"

definition userRoom :: "ident \<Rightarrow> string" where
  "userRoom uid = ''user:'' @ uid"

lemma projectRoom_eq [simp]: "projectRoom p = projectRoom q \<longleftrightarrow> p = q"
  by (simp add: projectRoom_def)

lemma userRoom_eq [simp]: "userRoom p = userRoom q \<longleftrightarrow> p = q"
  by (simp add: userRoom_def)

lemma rooms_differ [simp]: "projectRoom p \<noteq> userRoom u" "userRoom u \<noteq> projectRoom p"
  by (simp_all add: projectRoom_def userRoom_def)

definition roomSockets :: "world \<Rightarrow> string \<Rightarrow> string option \<Rightarrow> ident list" where
  "roomSockets w room except = map sk_id (filter (\<lambda>s.
     room \<in> set (sk_rooms s) \<and>
     (case except of None \<Rightarrow> True | Some r \<Rightarrow> r \<notin> set (sk_rooms s))) (sockets w))"

definition broadcast :: "string \<Rightarrow> string option \<Rightarrow> string \<Rightarrow> payload \<Rightarrow> unit service" where
  "broadcast room except event payload = modify (\<lambda>w. w\<lparr>outbox := outbox w @
     [\<lparr>em_room = room, em_except = except, em_event = event, em_payload = payload,
       em_sockets = roomSockets w room except\<rparr>]\<rparr>)"

definition emitToProject :: "ident \<Rightarrow> string \<Rightarrow> payload \<Rightarrow> ident option \<Rightarrow> unit service" where
  "emitToProject projectId event payload excludeUserId =
     broadcast (projectRoom projectId)
       (case excludeUserId of None \<Rightarrow> None
        | Some u \<Rightarrow> if u = [] then None else Some (userRoom u)) event payload"

definition emitToUser :: "ident \<Rightarrow> string \<Rightarrow> payload \<Rightarrow> unit service" where
  "emitToUser userId event payload = broadcast (userRoom userId) None event payload"

definition isUserOnline :: "world \<Rightarrow> ident \<Rightarrow> bool" where
  "isUserOnline w userId = list_ex (\<lambda>s. userRoom userId \<in> set (sk_rooms s)) (sockets w)"

definition joinProjectRoom :: "ident \<Rightarrow> ident \<Rightarrow> unit service" where
  "joinProjectRoom userId projectId = modify (sockets_update (map (\<lambda>s.
     if userRoom userId \<in> set (sk_rooms s)
     then s\<lparr>sk_rooms := List.insert (projectRoom projectId) (sk_rooms s)\<rparr> else s)))"

definition leaveProjectRoom :: "ident \<Rightarrow> ident \<Rightarrow> unit service" where
  "leaveProjectRoom userId projectId = modify (sockets_update (map (\<lambda>s.
     if userRoom userId \<in> set (sk_rooms s)
     then s\<lparr>sk_rooms := removeAll (projectRoom projectId) (sk_rooms s)\<rparr> else s)))"

lemma realtime_run [run_simps]:
  "broadcast room except event pl w = (Inr (), w\<lparr>outbox := outbox w @
     [\<lparr>em_room = room, em_except = except, em_event = event, em_payload = pl,
       em_sockets = roomSockets w room except\<rparr>]\<rparr>)"
  "joinProjectRoom u p w = (Inr (), sockets_update (map (\<lambda>s.
     if userRoom u \<in> set (sk_rooms s)
     then s\<lparr>sk_rooms := List.insert (projectRoom p) (sk_rooms s)\<rparr> else s)) w)"
  "leaveProjectRoom u p w = (Inr (), sockets_update (map (\<lambda>s.
     if userRoom u \<in> set (sk_rooms s)
     then s\<lparr>sk_rooms := removeAll (projectRoom p) (sk_rooms s)\<rparr> else s)) w)"
  by (simp_all add: broadcast_def joinProjectRoom_def leaveProjectRoom_def run_simps)

lemma keeps_broadcast:
  "(\<And>w ems. I w \<Longrightarrow> I (w\<lparr>outbox := ems\<rparr>)) \<Longrightarrow> keeps I (broadcast room except event pl)"
  by (simp add: keeps_def run_simps)

lemma keeps_emit:
  "(\<And>w ems. I w \<Longrightarrow> I (w\<lparr>outbox := ems\<rparr>)) \<Longrightarrow> keeps I (emitToProject p event pl x)"
  "(\<And>w ems. I w \<Longrightarrow> I (w\<lparr>outbox := ems\<rparr>)) \<Longrightarrow> keeps I (emitToUser u event pl)"
  by (simp_all add: emitToProject_def emitToUser_def keeps_broadcast)

lemma keeps_rooms:
  "(\<And>w f. I w \<Longrightarrow> I (sockets_update f w)) \<Longrightarrow> keeps I (joinProjectRoom u p)"
  "(\<And>w f. I w \<Longrightarrow> I (sockets_update f w)) \<Longrightarrow> keeps I (leaveProjectRoom u p)"
  by (simp_all add: keeps_def run_simps)

section \<open>Notifications\<close>

text \<open>
  \<open>create\<close>: the row's \<open>userId\<close> is a foreign key, so a user that is not there is P2003.
\<close>

definition notification_create :: "ident \<Rightarrow> string \<Rightarrow> string option \<Rightarrow> notification_row service" where
  "notification_create userId message link =
     andThen (gets (\<lambda>w. list_ex (\<lambda>u. u_id u = userId) (users w))) (\<lambda>known.
     andThen (ensure known (PrismaError ''P2003'')) (\<lambda>_.
     andThen dateNow (\<lambda>now.
     andThen (createRow notifications notifications_update n_id (\<lambda>i.
       \<lparr>n_id = i, n_userId = userId, n_message = message, n_isRead = False, n_link = link,
        n_createdAt = now\<rparr>)) (\<lambda>notification.
     andThen (emitToUser userId ''notification:new'' (P_notification notification)) (\<lambda>_.
     ret notification)))))"

definition notification_findAllByUser :: "ident \<Rightarrow> notification_row list service" where
  "notification_findAllByUser userId =
     andThen (findMany notifications (\<lambda>n. n_userId n = userId)) (\<lambda>ns.
     ret (sort_key (\<lambda>n. - n_createdAt n) ns))"

definition notification_findOwnedOrThrow :: "ident \<Rightarrow> ident \<Rightarrow> notification_row service" where
  "notification_findOwnedOrThrow i userId =
     andThen (findFirst notifications (\<lambda>n. n_id n = i \<and> n_userId n = userId)) (\<lambda>found.
     case found of None \<Rightarrow> throw (NotFound ''Notification not found'') | Some n \<Rightarrow> ret n)"

text \<open>
  \<open>isRecordNotFoundError\<close>: Prisma's P2025. Handlers that read before they write take a
  parameter \<open>gap\<close>, what other requests do to the world between the two awaits.
\<close>

definition isRecordNotFoundError :: "exn \<Rightarrow> bool" where
  "isRecordNotFoundError e \<longleftrightarrow> e = PrismaError ''P2025''"

definition notification_markAsRead ::
  "(world \<Rightarrow> world) \<Rightarrow> ident \<Rightarrow> ident \<Rightarrow> notification_row service" where
  "notification_markAsRead gap i userId =
     andThen (notification_findOwnedOrThrow i userId) (\<lambda>_.
     andThen (modify gap) (\<lambda>_.
     andThen (catching
       (updateOne notifications notifications_update (\<lambda>n. n_id n = i)
         (\<lambda>n. n\<lparr>n_isRead := True\<rparr>))
       (\<lambda>e. if isRecordNotFoundError e then throw (NotFound ''Notification not found'')
            else throw e)) (\<lambda>updated.
     andThen (emitToUser userId ''notification:read'' (P_notification updated)) (\<lambda>_.
     ret updated))))"

definition notification_markAllAsRead :: "ident \<Rightarrow> nat service" where
  "notification_markAllAsRead userId =
     andThen (countRows notifications (\<lambda>n. n_userId n = userId \<and> \<not> n_isRead n)) (\<lambda>result.
     andThen (updateMany notifications_update (\<lambda>n. n_userId n = userId \<and> \<not> n_isRead n)
       (\<lambda>n. n\<lparr>n_isRead := True\<rparr>)) (\<lambda>_.
     andThen (emitToUser userId ''notification:read-all'' P_empty) (\<lambda>_.
     ret result)))"

definition notification_remove ::
  "(world \<Rightarrow> world) \<Rightarrow> ident \<Rightarrow> ident \<Rightarrow> notification_row service" where
  "notification_remove gap i userId =
     andThen (notification_findOwnedOrThrow i userId) (\<lambda>existingNotification.
     andThen (modify gap) (\<lambda>_.
     andThen (catching
       (deleteOne notifications notifications_update (\<lambda>n. n_id n = i))
       (\<lambda>e. if isRecordNotFoundError e then ret existingNotification else throw e)) (\<lambda>deleted.
     andThen (emitToUser userId ''notification:deleted''
       (P_notificationDeleted (n_id deleted))) (\<lambda>_.
     ret deleted))))"

definition notification_removeAll :: "ident \<Rightarrow> nat service" where
  "notification_removeAll userId =
     andThen (countRows notifications (\<lambda>n. n_userId n = userId)) (\<lambda>result.
     andThen (deleteMany notifications_update (\<lambda>n. n_userId n = userId)) (\<lambda>_.
     andThen (emitToUser userId ''notification:deleted-all'' P_empty) (\<lambda>_.
     ret result)))"

lemma keeps_notification_create:
  assumes "\<And>w ems. I w \<Longrightarrow> I (w\<lparr>outbox := ems\<rparr>)"
    and "\<And>w f. I w \<Longrightarrow> I (w\<lparr>uuids := f\<rparr>)"
    and "\<And>w f. I w \<Longrightarrow> I (notifications_update f w)"
  shows "keeps I (notification_create u msg link)"
  unfolding notification_create_def
  by (intro keeps_rules keeps_emit keeps_createRow assms)

text \<open>
  A state predicate no notification, broadcast or uuid draw can change: every handler that
  only notifies keeps it.
\<close>

definition quiet :: "(world \<Rightarrow> bool) \<Rightarrow> bool" where
  "quiet I \<longleftrightarrow> (\<forall>w ems. I w \<longrightarrow> I (w\<lparr>outbox := ems\<rparr>)) \<and>
     (\<forall>w f. I w \<longrightarrow> I (w\<lparr>uuids := f\<rparr>)) \<and> (\<forall>w f. I w \<longrightarrow> I (notifications_update f w)) \<and>
     (\<forall>w f. I w \<longrightarrow> I (sockets_update f w))"

lemma quietI:
  assumes "\<And>w ems. I w \<Longrightarrow> I (w\<lparr>outbox := ems\<rparr>)"
    and "\<And>w f. I w \<Longrightarrow> I (w\<lparr>uuids := f\<rparr>)"
    and "\<And>w f. I w \<Longrightarrow> I (notifications_update f w)"
    and "\<And>w f. I w \<Longrightarrow> I (sockets_update f w)"
  shows "quiet I"
  using assms by (simp add: quiet_def)

lemma quiet_keeps:
  assumes "quiet I"
  shows "keeps I (notification_create u msg link)" "keeps I (emitToProject p event pl x)"
    "keeps I (emitToUser u event pl)" "keeps I (joinProjectRoom u p)"
    "keeps I (leaveProjectRoom u p)" "keeps I nextUuid"
  using assms unfolding quiet_def
  by (auto intro!: keeps_notification_create keeps_emit keeps_rooms keeps_nextUuid)

section \<open>Batches of notifications\<close>

text \<open>What a recipient reads of a notification.\<close>

definition noteKey :: "notification_row \<Rightarrow> ident \<times> string \<times> string option" where
  "noteKey n = (n_userId n, n_message n, n_link n)"

lemma notification_create_Inr:
  "notification_create u msg link w = (Inr n, t) \<Longrightarrow>
   notifications t = notifications w @ [n] \<and> noteKey n = (u, msg, link)"
  by (auto simp: notification_create_def run_simps emitToUser_def noteKey_def split: if_splits)

text \<open>A batch that succeeds has told every recipient, in order, and nobody else.\<close>

lemma notify_each:
  "promiseAll xs (\<lambda>x. notification_create (uf x) (mf x) (lf x)) w = (Inr (), t) \<Longrightarrow>
   map noteKey (notifications t) =
     map noteKey (notifications w) @ map (\<lambda>x. (uf x, mf x, lf x)) xs"
proof (induction xs arbitrary: w)
  case (Cons x xs)
  obtain n v where n: "notification_create (uf x) (mf x) (lf x) w = (Inr n, v)"
    and v: "promiseAll xs (\<lambda>x. notification_create (uf x) (mf x) (lf x)) v = (Inr (), t)"
    using Cons.prems by (auto split: prod.splits sum.splits)
  show ?case using notification_create_Inr [OF n] Cons.IH [OF v] by simp
qed (simp add: ret_run)

section \<open>Properties of notifications\<close>

lemma findOwned_Inr:
  "notification_findOwnedOrThrow i u w = (Inr n, t) \<longleftrightarrow>
     List.find (\<lambda>n. n_id n = i \<and> n_userId n = u) (notifications w) = Some n \<and> t = w"
  by (auto simp: notification_findOwnedOrThrow_def run_simps split: option.splits)

lemma findOwned_run [run_simps]:
  "notification_findOwnedOrThrow i u w =
     (case List.find (\<lambda>n. n_id n = i \<and> n_userId n = u) (notifications w) of
        None \<Rightarrow> (Inl (NotFound ''Notification not found''), w) | Some n \<Rightarrow> (Inr n, w))"
  by (auto simp: notification_findOwnedOrThrow_def run_simps split: option.splits)

definition ownsNotification :: "world \<Rightarrow> ident \<Rightarrow> ident \<Rightarrow> bool" where
  "ownsNotification w i u = list_ex (\<lambda>n. n_id n = i \<and> n_userId n = u) (notifications w)"

lemma ownsNotification_find:
  "ownsNotification w i u \<longleftrightarrow>
     List.find (\<lambda>n. n_id n = i \<and> n_userId n = u) (notifications w) \<noteq> None"
  by (simp add: ownsNotification_def find_None_iff_all list_ex_iff)

lemma filter_id_if_absent: "List.find P xs = None \<Longrightarrow> filter (\<lambda>x. \<not> P x) xs = xs"
  by (simp add: find_None_iff_all)

lemma map_id_if_absent: "List.find P xs = None \<Longrightarrow> map (\<lambda>x. if P x then f x else x) xs = xs"
  by (rule map_idI) (auto simp: find_None_iff_all)

lemma notification_remove_owned:
  assumes "ownsNotification w i u"
  shows "\<exists>n v. notification_remove gap i u w = (Inr n, v) \<and>
     notifications v = filter (\<lambda>n. n_id n \<noteq> i) (notifications (gap w))"
proof -
  obtain n where "List.find (\<lambda>n. n_id n = i \<and> n_userId n = u) (notifications w) = Some n"
    using assms by (auto simp: ownsNotification_find)
  then show ?thesis
    by (cases "List.find (\<lambda>n. n_id n = i) (notifications (gap w))")
      (simp_all add: notification_remove_def run_simps emitToUser_def isRecordNotFoundError_def
        filter_id_if_absent)
qed

lemma notification_markAsRead_owned:
  assumes "ownsNotification w i u"
  shows "\<exists>r v. notification_markAsRead gap i u w = (r, v) \<and>
     ((\<exists>n. r = Inr n) \<longleftrightarrow> (\<exists>n\<in>set (notifications (gap w)). n_id n = i)) \<and>
     (\<forall>e. r = Inl e \<longrightarrow> e = NotFound ''Notification not found'') \<and>
     notifications v = map (\<lambda>n. if n_id n = i then n\<lparr>n_isRead := True\<rparr> else n) (notifications (gap w))"
proof -
  obtain n where n: "List.find (\<lambda>n. n_id n = i \<and> n_userId n = u) (notifications w) = Some n"
    using assms by (auto simp: ownsNotification_find)
  show ?thesis
  proof (cases "List.find (\<lambda>n. n_id n = i) (notifications (gap w))")
    case None
    then show ?thesis
      using n map_id_if_absent [OF None, of "\<lambda>n. n\<lparr>n_isRead := True\<rparr>"]
      by (simp add: notification_markAsRead_def run_simps emitToUser_def isRecordNotFoundError_def)
        (simp add: find_None_iff_all)
  next
    case (Some m)
    then show ?thesis
      using n find_SomeD [OF Some] by (auto simp: notification_markAsRead_def run_simps emitToUser_def)
  qed
qed

text \<open>C11 A notification is its owner's alone and a race never surfaces as a database error: for
  anyone else marking it read or deleting it answers not found and changes nothing; for the
  owner, whatever other requests did since the check, deleting succeeds and the row is gone,
  and marking succeeds exactly when the row is still there, changing only its read flag.\<close>

theorem notifications_owner_scoped:
  shows "(\<not> ownsNotification w i u \<longrightarrow>
       notification_markAsRead gap i u w = (Inl (NotFound ''Notification not found''), w) \<and>
       notification_remove gap i u w = (Inl (NotFound ''Notification not found''), w)) \<and>
     (ownsNotification w i u \<longrightarrow>
       (\<exists>n v. notification_remove gap i u w = (Inr n, v) \<and>
          notifications v = filter (\<lambda>n. n_id n \<noteq> i) (notifications (gap w))) \<and>
       (\<exists>r v. notification_markAsRead gap i u w = (r, v) \<and>
          ((\<exists>n. r = Inr n) \<longleftrightarrow> (\<exists>n\<in>set (notifications (gap w)). n_id n = i)) \<and>
          (\<forall>e. r = Inl e \<longrightarrow> e = NotFound ''Notification not found'') \<and>
          notifications v =
            map (\<lambda>n. if n_id n = i then n\<lparr>n_isRead := True\<rparr> else n) (notifications (gap w))))"
proof (intro conjI impI)
  assume "\<not> ownsNotification w i u"
  then show "notification_markAsRead gap i u w = (Inl (NotFound ''Notification not found''), w)"
    "notification_remove gap i u w = (Inl (NotFound ''Notification not found''), w)"
    by (simp_all add: notification_markAsRead_def notification_remove_def run_simps ownsNotification_find)
qed (fact notification_remove_owned notification_markAsRead_owned)+

text \<open>The owner deletes a notification that another tab deletes meanwhile: the deletion succeeds.\<close>

theorem notifications_owner_scoped_witness:
  "\<exists>n v. notification_remove (notifications_update (\<lambda>_. [])) ''n'' ''u'' (emptyWorld\<lparr>notifications :=
       [\<lparr>n_id = ''n'', n_userId = ''u'', n_message = [], n_isRead = False, n_link = None,
         n_createdAt = 0\<rparr>]\<rparr>) = (Inr n, v) \<and> notifications v = []"
proof -
  let ?w = "emptyWorld\<lparr>notifications := [\<lparr>n_id = ''n'', n_userId = ''u'', n_message = [],
     n_isRead = False, n_link = None, n_createdAt = 0\<rparr>]\<rparr>"
  have "ownsNotification ?w ''n'' ''u''" by (simp add: ownsNotification_def)
  then show ?thesis
    using notifications_owner_scoped [of ?w "''n''" "''u''" "notifications_update (\<lambda>_. [])"] by auto
qed

end
