(* ===== verification/Access.thy ===== *)
theory Access
  imports Realtime
begin

text \<open>
  \<open>ProjectsService.assertMembership\<close>, the guard every project-scoped handler awaits first, and
  the \<open>access_guard\<close> locale: what a guard promises (it only reads, it passes exactly for the
  allowed callers, it answers the others with one fixed error) and what a handler built on it
  gets (no effect and that error for everyone else).
\<close>

definition isMember :: "world \<Rightarrow> ident \<Rightarrow> ident \<Rightarrow> bool" where
  "isMember w projectId userId \<longleftrightarrow>
     list_ex (\<lambda>m. pm_projectId m = projectId \<and> pm_userId m = userId) (members w)"

definition roleOf :: "world \<Rightarrow> ident \<Rightarrow> ident \<Rightarrow> member_role option" where
  "roleOf w projectId userId = map_option pm_role
     (List.find (\<lambda>m. pm_projectId m = projectId \<and> pm_userId m = userId) (members w))"

definition projectNotFound :: exn where
  "projectNotFound = NotFound ''Project not found''"

definition assertMembership :: "ident \<Rightarrow> ident \<Rightarrow> member_row service" where
  "assertMembership projectId userId =
     andThen (findFirst members (\<lambda>m. pm_projectId m = projectId \<and> pm_userId m = userId))
       (\<lambda>found. case found of None \<Rightarrow> throw projectNotFound | Some m \<Rightarrow> ret m)"

lemma assertMembership_run [run_simps]:
  "assertMembership p u w =
     (case List.find (\<lambda>m. pm_projectId m = p \<and> pm_userId m = u) (members w) of
        None \<Rightarrow> (Inl projectNotFound, w) | Some m \<Rightarrow> (Inr m, w))"
  by (auto simp: assertMembership_def run_simps split: option.splits)

lemma assertMembership_Inr:
  "assertMembership p u w = (Inr m, t) \<longleftrightarrow>
     List.find (\<lambda>m. pm_projectId m = p \<and> pm_userId m = u) (members w) = Some m \<and> t = w"
  by (auto simp: run_simps split: option.splits)

lemma isMember_iff_find:
  "isMember w p u \<longleftrightarrow>
     (\<exists>m. List.find (\<lambda>m. pm_projectId m = p \<and> pm_userId m = u) (members w) = Some m)"
proof -
  have "isMember w p u \<longleftrightarrow>
      List.find (\<lambda>m. pm_projectId m = p \<and> pm_userId m = u) (members w) \<noteq> None"
    by (simp add: find_None_iff_all isMember_def list_ex_iff)
  then show ?thesis by auto
qed

lemma isMember_roleOf: "isMember w p u \<longleftrightarrow> roleOf w p u \<noteq> None"
  by (auto simp: isMember_iff_find roleOf_def)

section \<open>Guards\<close>

locale access_guard =
  fixes guard :: "'k \<Rightarrow> 'a service"
    and allowed :: "world \<Rightarrow> 'k \<Rightarrow> bool"
    and denied :: "world \<Rightarrow> 'k \<Rightarrow> exn"
  assumes guard_reads: "reads (guard k)"
    and guard_denies: "\<not> allowed w k \<Longrightarrow> guard k w = (Inl (denied w k), w)"
    and guard_passes: "allowed w k \<Longrightarrow> \<exists>a. guard k w = (Inr a, w)"
begin

lemma handler_denied: "\<not> allowed w k \<Longrightarrow> andThen (guard k) f w = (Inl (denied w k), w)"
  by (simp add: run_simps guard_denies)

lemma handler_allowed: "andThen (guard k) f w = (Inr b, t) \<Longrightarrow> allowed w k"
  using guard_denies [of w k] by (cases "allowed w k") (auto simp: run_simps)

lemma handler_runs: "allowed w k \<Longrightarrow> \<exists>a. guard k w = (Inr a, w) \<and> andThen (guard k) f w = f a w"
  using guard_passes [of w k] by (auto simp: run_simps)

lemma guard_success: "guard k w = (Inr a, t) \<Longrightarrow> allowed w k \<and> t = w"
  using guard_denies [of w k] guard_passes [of w k] by (cases "allowed w k") auto

lemma guard_keeps: "keeps I (guard k)"
  by (rule reads_keeps [OF guard_reads])

end

interpretation membership: access_guard
  "\<lambda>(p, u). assertMembership p u" "\<lambda>w (p, u). isMember w p u" "\<lambda>_ _. projectNotFound"
  by unfold_locales
     (auto simp: run_simps reads_def isMember_iff_find split: option.splits)

lemma keeps_assertMembership [keeps_rules]: "keeps I (assertMembership p u)"
  using membership.guard_keeps [of I "(p, u)"] by simp

lemma nonmember_denied:
  "\<not> isMember w p u \<Longrightarrow> andThen (assertMembership p u) f w = (Inl projectNotFound, w)"
  using membership.handler_denied [of w "(p, u)" f] by simp

lemma nonmember_throws:
  "\<not> isMember w p u \<Longrightarrow> assertMembership p u w = (Inl projectNotFound, w)"
  using membership.guard_denies [of w "(p, u)"] by simp

text \<open>
  A resource guard: membership of the project first, then a lookup of the resource inside that
  project, so that an id of another project is not found.
\<close>

definition resourceGuard ::
  "(world \<Rightarrow> 'r list) \<Rightarrow> ('r \<Rightarrow> ident) \<Rightarrow> ('r \<Rightarrow> ident) \<Rightarrow> exn \<Rightarrow>
   ident \<times> ident \<times> ident \<Rightarrow> 'r service" where
  "resourceGuard sel key owner missing = (\<lambda>(i, p, u).
     andThen (assertMembership p u) (\<lambda>_.
     andThen (findFirst sel (\<lambda>r. key r = i \<and> owner r = p)) (\<lambda>found.
     case found of None \<Rightarrow> throw missing | Some r \<Rightarrow> ret r)))"

definition resourceAllowed ::
  "(world \<Rightarrow> 'r list) \<Rightarrow> ('r \<Rightarrow> ident) \<Rightarrow> ('r \<Rightarrow> ident) \<Rightarrow> world \<Rightarrow> ident \<times> ident \<times> ident \<Rightarrow> bool" where
  "resourceAllowed sel key owner = (\<lambda>w (i, p, u).
     isMember w p u \<and> (\<exists>r\<in>set (sel w). key r = i \<and> owner r = p))"

lemma resourceGuard_is_guard:
  "access_guard (resourceGuard sel key owner missing) (resourceAllowed sel key owner)
     (\<lambda>w (i, p, u). if isMember w p u then missing else projectNotFound)"
proof (unfold_locales, goal_cases)
  case (1 k)
  then show ?case
    by (auto simp: resourceGuard_def reads_def run_simps split: prod.splits option.splits)
next
  case (2 w k)
  then show ?case
    by (auto simp: resourceGuard_def resourceAllowed_def run_simps isMember_iff_find
      find_None_iff_all [symmetric] Bex_def split: prod.splits option.splits dest: find_SomeD)
next
  case (3 w k)
  obtain i p u where k: "k = (i, p, u)" by (cases k) auto
  have "List.find (\<lambda>r. key r = i \<and> owner r = p) (sel w) \<noteq> None"
    using 3 by (auto simp: find_None_iff_all resourceAllowed_def k)
  with 3 show ?case
    by (auto simp: resourceGuard_def resourceAllowed_def k run_simps isMember_iff_find)
qed

lemma resourceGuard_Inr:
  "resourceGuard sel key owner missing (i, p, u) w = (Inr r, t) \<Longrightarrow>
   t = w \<and> isMember w p u \<and> r \<in> set (sel w) \<and> key r = i \<and> owner r = p"
  by (auto simp: resourceGuard_def run_simps isMember_iff_find dest: find_SomeD
      split: option.splits)

end
