(* ===== verification/Tasks.thy ===== *)
theory Tasks
  imports Access
begin

text \<open>
  \<open>TasksService\<close> (\<open>backend/src/tasks/tasks.service.ts\<close>) and \<open>TaskAssigneeService\<close>
  (\<open>backend/src/tasks/task-assignees.service.ts\<close>). The bodies of the serializable transactions
  (\<open>createTaskTx\<close>, \<open>moveTaskTx\<close>, \<open>removeTaskTx\<close>, \<open>replaceAssigneesInTransaction\<close>) are definitions
  of their own. The handlers take \<open>gap\<close>, the effect of other requests between the checks a
  handler makes before its transaction opens and the transaction itself. \<open>TaskRanks\<close> has the
  theorems about ranks.
\<close>

datatype task_actor = User ident | Machine ident

record create_task_dto =
  ctd_title :: string
  ctd_categoryId :: ident
  ctd_status :: task_status
  ctd_priority :: task_priority
  ctd_rank :: int
  ctd_startAt :: "millis option"
  ctd_endAt :: "millis option"
  ctd_description :: "string option"
  ctd_notes :: "string option"
  ctd_onCalendar :: bool
  ctd_assigneeIds :: "ident list option"

record update_task_dto =
  utd_title :: "string option"
  utd_categoryId :: "ident option"
  utd_status :: "task_status option"
  utd_priority :: "task_priority option"
  utd_rank :: "int option"
  utd_startAt :: "millis option"
  utd_endAt :: "millis option"
  utd_description :: "string option"
  utd_notes :: "string option"
  utd_onCalendar :: "bool option"
  utd_assigneeIds :: "ident list option"

fun statusLabels :: "task_status \<Rightarrow> string" where
  "statusLabels TODO = ''To Do''"
| "statusLabels IN_PROGRESS = ''In Progress''"
| "statusLabels REVIEW = ''Review''"
| "statusLabels COMPLETED = ''Completed''"

fun statusIndex :: "task_status \<Rightarrow> nat" where
  "statusIndex TODO = 0"
| "statusIndex IN_PROGRESS = 1"
| "statusIndex REVIEW = 2"
| "statusIndex COMPLETED = 3"

section \<open>Reads\<close>

definition usersById :: "world \<Rightarrow> ident list \<Rightarrow> user_ref list" where
  "usersById w ids = List.map_filter (\<lambda>i.
     map_option userRefOf (List.find (\<lambda>u. u_id u = i) (users w))) ids"

definition taskAssigneeIds :: "world \<Rightarrow> ident \<Rightarrow> ident list" where
  "taskAssigneeIds w taskId = map ta_userId (filter (\<lambda>a. ta_taskId a = taskId) (taskAssignees w))"

definition mapTask :: "world \<Rightarrow> task_row \<Rightarrow> task_view" where
  "mapTask w task =
     \<lparr>tv_task = task,
      tv_category = (case t_categoryId task of None \<Rightarrow> None
        | Some c \<Rightarrow> List.find (\<lambda>r. c_id r = c) (taskCategories w)),
      tv_assignees = usersById w (taskAssigneeIds w (t_id task))\<rparr>"

definition taskNotFound :: exn where
  "taskNotFound = NotFound ''Task not found''"

definition task_findAllForProject :: "ident \<Rightarrow> nat option \<Rightarrow> task_view list service" where
  "task_findAllForProject projectId limit =
     andThen (findMany tasks (\<lambda>t. t_projectId t = projectId)) (\<lambda>rows.
     gets (\<lambda>w. map (mapTask w)
       ((case limit of None \<Rightarrow> (\<lambda>xs. xs) | Some n \<Rightarrow> take n)
         (sort_key (\<lambda>t. statusIndex (t_status t)) (sort_key t_rank rows)))))"

definition task_findAll :: "ident \<Rightarrow> ident \<Rightarrow> task_view list service" where
  "task_findAll projectId userId =
     andThen (assertMembership projectId userId) (\<lambda>_. task_findAllForProject projectId None)"

definition task_findByIdForProject :: "ident \<Rightarrow> ident \<Rightarrow> task_view service" where
  "task_findByIdForProject i projectId =
     andThen (findFirst tasks (\<lambda>t. t_id t = i \<and> t_projectId t = projectId)) (\<lambda>found.
     case found of None \<Rightarrow> throw taskNotFound | Some t \<Rightarrow> gets (\<lambda>w. mapTask w t))"

definition task_findById :: "ident \<Rightarrow> ident \<Rightarrow> ident \<Rightarrow> task_view service" where
  "task_findById i projectId userId =
     andThen (assertMembership projectId userId) (\<lambda>_. task_findByIdForProject i projectId)"

section \<open>Checks\<close>

definition task_assertValidDateRange :: "millis option \<Rightarrow> millis option \<Rightarrow> unit service" where
  "task_assertValidDateRange startAt endAt =
     (case startAt of None \<Rightarrow> ret () | Some s \<Rightarrow>
       (case endAt of None \<Rightarrow> ret () | Some e \<Rightarrow>
         (if e < s then throw (BadRequest ''endAt must not be before startAt'') else ret ())))"

definition task_assertCategoryBelongsToProject :: "ident \<Rightarrow> ident \<Rightarrow> unit service" where
  "task_assertCategoryBelongsToProject projectId categoryId =
     andThen (findFirst taskCategories (\<lambda>c. c_id c = categoryId \<and> c_projectId c = projectId))
       (\<lambda>category. ensure (category \<noteq> None)
         (BadRequest ''categoryId does not belong to this project''))"

definition notAllMembers :: exn where
  "notAllMembers = BadRequest ''assigneeIds must all be members of this project''"

definition assertAssigneesAreProjectMembers :: "ident \<Rightarrow> ident list \<Rightarrow> unit service" where
  "assertAssigneesAreProjectMembers projectId userIds =
     (if userIds = [] then ret ()
      else andThen (countRows members
             (\<lambda>m. pm_projectId m = projectId \<and> pm_userId m \<in> set userIds)) (\<lambda>memberCount.
           ensure (memberCount = length userIds) notAllMembers))"

section \<open>Assignees\<close>

definition replaceAssigneesInTransaction :: "ident \<Rightarrow> ident \<Rightarrow> ident list \<Rightarrow> unit service" where
  "replaceAssigneesInTransaction taskId projectId userIds =
     andThen (assertAssigneesAreProjectMembers projectId userIds) (\<lambda>_.
     andThen (deleteMany taskAssignees_update (\<lambda>a. ta_taskId a = taskId)) (\<lambda>_.
     forEach userIds (\<lambda>userId. insertUnique taskAssignees taskAssignees_update
       (\<lambda>a. ta_userId a = userId \<and> ta_taskId a = taskId)
       \<lparr>ta_userId = userId, ta_taskId = taskId\<rparr>)))"

definition replaceAssignees :: "ident \<Rightarrow> ident \<Rightarrow> ident list \<Rightarrow> unit service" where
  "replaceAssignees taskId projectId userIds =
     transaction (replaceAssigneesInTransaction taskId projectId userIds)"

section \<open>Audit and notifications\<close>

definition recordMachineAction ::
  "task_actor \<Rightarrow> ident \<Rightarrow> ident \<Rightarrow> machine_action \<Rightarrow> unit service" where
  "recordMachineAction actor projectId taskId action =
     (case actor of User _ \<Rightarrow> ret ()
      | Machine tokenId \<Rightarrow> andThen (createRow audits audits_update au_id (\<lambda>i.
          \<lparr>au_id = i, au_tokenId = tokenId, au_projectId = projectId, au_taskId = taskId,
           au_action = action\<rparr>)) (\<lambda>_. ret ()))"

fun actingUserId :: "task_actor \<Rightarrow> ident option" where
  "actingUserId (User u) = Some u"
| "actingUserId (Machine _) = None"

definition dquote :: "string \<Rightarrow> string" where
  "dquote s = [CHR 0x22] @ s @ [CHR 0x22]"

definition kanbanLink :: "ident \<Rightarrow> string option" where
  "kanbanLink projectId = Some (''/'' @ projectId @ ''/kanban'')"

definition notifyEach ::
  "ident \<Rightarrow> ident list \<Rightarrow> (string \<Rightarrow> string) \<Rightarrow> string option \<Rightarrow> unit service" where
  "notifyEach projectId recipients messageFor link =
     (if recipients = [] then ret ()
      else andThen (findOrThrow projects (\<lambda>p. p_id p = projectId)) (\<lambda>project.
           promiseAll recipients (\<lambda>u.
             notification_create u (messageFor (p_name project)) link)))"

definition notifyStatusChange ::
  "ident \<Rightarrow> ident list \<Rightarrow> ident option \<Rightarrow> string \<Rightarrow> task_status \<Rightarrow> unit service" where
  "notifyStatusChange projectId assignees acting taskTitle nextStatus =
     notifyEach projectId (filter (\<lambda>a. Some a \<noteq> acting) assignees)
       (\<lambda>name. ''Task '' @ dquote taskTitle @ '' moved to '' @ statusLabels nextStatus @
          '' in '' @ dquote name)
       (kanbanLink projectId)"

definition notifyNewTaskAssignees ::
  "ident \<Rightarrow> ident list \<Rightarrow> ident list \<Rightarrow> ident option \<Rightarrow> string \<Rightarrow> unit service" where
  "notifyNewTaskAssignees projectId previousIds newIds acting taskTitle =
     notifyEach projectId (filter (\<lambda>a. a \<notin> set previousIds \<and> Some a \<noteq> acting) newIds)
       (\<lambda>name. ''You were assigned to '' @ dquote taskTitle @ '' in '' @ dquote name)
       (kanbanLink projectId)"

definition notifyRemovedTaskAssignees ::
  "ident \<Rightarrow> ident list \<Rightarrow> ident list \<Rightarrow> ident option \<Rightarrow> string \<Rightarrow> unit service" where
  "notifyRemovedTaskAssignees projectId previousIds newIds acting taskTitle =
     notifyEach projectId (filter (\<lambda>a. a \<notin> set newIds \<and> Some a \<noteq> acting) previousIds)
       (\<lambda>name. ''You were removed from '' @ dquote taskTitle @ '' in '' @ dquote name)
       (kanbanLink projectId)"

section \<open>Ranks\<close>

definition closeRankGap :: "ident \<Rightarrow> task_status \<Rightarrow> int \<Rightarrow> unit service" where
  "closeRankGap projectId status vacatedRank =
     updateMany tasks_update
       (\<lambda>t. t_projectId t = projectId \<and> t_status t = status \<and> t_rank t > vacatedRank)
       (\<lambda>t. t\<lparr>t_rank := t_rank t - 1\<rparr>)"

definition openRankSlot ::
  "ident \<Rightarrow> task_status \<Rightarrow> int option \<Rightarrow> ident option \<Rightarrow> int service" where
  "openRankSlot projectId status wantedRank excludeId =
     (let exclude = (\<lambda>t. case excludeId of None \<Rightarrow> True | Some i \<Rightarrow> t_id t \<noteq> i) in
      andThen (countRows tasks
        (\<lambda>t. t_projectId t = projectId \<and> t_status t = status \<and> exclude t)) (\<lambda>columnLength.
      let rank = (case wantedRank of None \<Rightarrow> int columnLength
                  | Some r \<Rightarrow> min (max r 0) (int columnLength)) in
      andThen (updateMany tasks_update
        (\<lambda>t. t_projectId t = projectId \<and> t_status t = status \<and> t_rank t \<ge> rank \<and> exclude t)
        (\<lambda>t. t\<lparr>t_rank := t_rank t + 1\<rparr>)) (\<lambda>_.
      ret rank)))"

section \<open>Create\<close>

definition newTaskRow :: "ident \<Rightarrow> create_task_dto \<Rightarrow> int \<Rightarrow> ident \<Rightarrow> task_row" where
  "newTaskRow projectId dto rank i =
     \<lparr>t_id = i, t_projectId = projectId, t_title = ctd_title dto, t_status = ctd_status dto,
      t_categoryId = Some (ctd_categoryId dto), t_rank = rank, t_priority = ctd_priority dto,
      t_startAt = ctd_startAt dto, t_endAt = ctd_endAt dto,
      t_description = ctd_description dto, t_notes = ctd_notes dto,
      t_onCalendar = ctd_onCalendar dto\<rparr>"

definition machineAssignees :: "task_actor \<Rightarrow> ident \<Rightarrow> ident \<Rightarrow> ident list option \<Rightarrow> unit service" where
  "machineAssignees actor taskId projectId assigneeIds =
     (case actor of User _ \<Rightarrow> ret ()
      | Machine _ \<Rightarrow> (case assigneeIds of None \<Rightarrow> ret ()
          | Some ids \<Rightarrow> replaceAssigneesInTransaction taskId projectId ids))"

definition createTaskTx :: "ident \<Rightarrow> create_task_dto \<Rightarrow> task_actor \<Rightarrow> task_row service" where
  "createTaskTx projectId dto actor =
     andThen (openRankSlot projectId (ctd_status dto) (Some (ctd_rank dto)) None) (\<lambda>rank.
     andThen (createRow tasks tasks_update t_id (newTaskRow projectId dto rank)) (\<lambda>created.
     andThen (machineAssignees actor (t_id created) projectId (ctd_assigneeIds dto)) (\<lambda>_.
     andThen (recordMachineAction actor projectId (t_id created) A_CREATE) (\<lambda>_.
     ret created))))"

definition task_createAs ::
  "(world \<Rightarrow> world) \<Rightarrow> ident \<Rightarrow> create_task_dto \<Rightarrow> task_actor \<Rightarrow> task_view service" where
  "task_createAs gap projectId dto actor =
     andThen (case actor of User u \<Rightarrow> andThen (assertMembership projectId u) (\<lambda>_. ret ())
              | Machine _ \<Rightarrow> ret ()) (\<lambda>_.
     andThen (task_assertValidDateRange (ctd_startAt dto) (ctd_endAt dto)) (\<lambda>_.
     andThen (task_assertCategoryBelongsToProject projectId (ctd_categoryId dto)) (\<lambda>_.
     andThen (case ctd_assigneeIds dto of None \<Rightarrow> ret ()
              | Some ids \<Rightarrow> assertAssigneesAreProjectMembers projectId ids) (\<lambda>_.
     andThen (modify gap) (\<lambda>_.
     andThen (transaction (createTaskTx projectId dto actor)) (\<lambda>task.
     andThen (case ctd_assigneeIds dto of None \<Rightarrow> ret ()
        | Some ids \<Rightarrow>
            andThen (case actor of User _ \<Rightarrow> replaceAssignees (t_id task) projectId ids
                     | Machine _ \<Rightarrow> ret ()) (\<lambda>_.
            notifyNewTaskAssignees projectId [] ids (actingUserId actor) (ctd_title dto))) (\<lambda>_.
     andThen (task_findByIdForProject (t_id task) projectId) (\<lambda>created.
     andThen (emitToProject projectId ''task:created'' (P_task created) None) (\<lambda>_.
     ret created)))))))))"

section \<open>Update\<close>

definition orElse :: "'a option \<Rightarrow> 'a \<Rightarrow> 'a" where
  "orElse x d = (case x of None \<Rightarrow> d | Some a \<Rightarrow> a)"

definition orKeep :: "'a option \<Rightarrow> 'a option \<Rightarrow> 'a option" where
  "orKeep x d = (case x of None \<Rightarrow> d | Some a \<Rightarrow> Some a)"

text \<open>\<open>taskFields\<close>: what a PATCH writes besides status and rank.\<close>

definition applyTaskFields :: "update_task_dto \<Rightarrow> task_row \<Rightarrow> task_row" where
  "applyTaskFields dto t = t\<lparr>
     t_title := orElse (utd_title dto) (t_title t),
     t_categoryId := orKeep (utd_categoryId dto) (t_categoryId t),
     t_priority := orElse (utd_priority dto) (t_priority t),
     t_startAt := orKeep (utd_startAt dto) (t_startAt t),
     t_endAt := orKeep (utd_endAt dto) (t_endAt t),
     t_description := orKeep (utd_description dto) (t_description t),
     t_notes := orKeep (utd_notes dto) (t_notes t),
     t_onCalendar := orElse (utd_onCalendar dto) (t_onCalendar t)\<rparr>"

definition moveTaskTx ::
  "ident \<Rightarrow> ident \<Rightarrow> task_status option \<Rightarrow> int option \<Rightarrow> update_task_dto \<Rightarrow> task_actor \<Rightarrow>
   ident list option \<Rightarrow> (int \<times> task_status) service" where
  "moveTaskTx i projectId requestedStatus wantedRank dto actor assigneeIds =
     andThen (findOrThrow tasks (\<lambda>t. t_id t = i)) (\<lambda>current.
     let targetStatus = orElse requestedStatus (t_status current) in
     andThen (closeRankGap projectId (t_status current) (t_rank current)) (\<lambda>_.
     andThen (openRankSlot projectId targetStatus wantedRank (Some i)) (\<lambda>nextRank.
     andThen (updateOne tasks tasks_update (\<lambda>t. t_id t = i)
       (\<lambda>t. (applyTaskFields dto t)\<lparr>t_status := targetStatus, t_rank := nextRank\<rparr>)) (\<lambda>_.
     andThen (machineAssignees actor i projectId assigneeIds) (\<lambda>_.
     andThen (recordMachineAction actor projectId i A_UPDATE) (\<lambda>_.
     ret (nextRank, targetStatus)))))))"

definition moveTask ::
  "ident \<Rightarrow> ident \<Rightarrow> task_status option \<Rightarrow> int option \<Rightarrow> update_task_dto \<Rightarrow> task_actor \<Rightarrow>
   ident list option \<Rightarrow> unit service" where
  "moveTask i projectId requestedStatus wantedRank dto actor assigneeIds =
     andThen (transaction
       (moveTaskTx i projectId requestedStatus wantedRank dto actor assigneeIds))
       (\<lambda>(nextRank, targetStatus).
     emitToProject projectId ''task:moved''
       (P_taskMoved i projectId targetStatus nextRank) None)"

definition updateTaskTx ::
  "ident \<Rightarrow> ident \<Rightarrow> update_task_dto \<Rightarrow> task_actor \<Rightarrow> ident list option \<Rightarrow> unit service" where
  "updateTaskTx i projectId dto actor assigneeIds =
     andThen (updateOne tasks tasks_update (\<lambda>t. t_id t = i) (applyTaskFields dto)) (\<lambda>_.
     andThen (machineAssignees actor i projectId assigneeIds) (\<lambda>_.
     recordMachineAction actor projectId i A_UPDATE))"

definition isMoving :: "update_task_dto \<Rightarrow> task_row \<Rightarrow> bool" where
  "isMoving dto existing \<longleftrightarrow>
     (utd_status dto \<noteq> None \<and> utd_status dto \<noteq> Some (t_status existing)) \<or>
     (utd_rank dto \<noteq> None \<and> utd_rank dto \<noteq> Some (t_rank existing))"

definition task_updateAs ::
  "(world \<Rightarrow> world) \<Rightarrow> ident \<Rightarrow> update_task_dto \<Rightarrow> ident \<Rightarrow> task_actor \<Rightarrow> task_view service" where
  "task_updateAs gap i dto projectId actor =
     andThen (case actor of User u \<Rightarrow> task_findById i projectId u
              | Machine _ \<Rightarrow> task_findByIdForProject i projectId) (\<lambda>existingView.
     let existing = tv_task existingView;
         assignees = map ref_id (tv_assignees existingView);
         acting = actingUserId actor;
         title = orElse (utd_title dto) (t_title existing) in
     andThen (task_assertValidDateRange (orKeep (utd_startAt dto) (t_startAt existing))
       (orKeep (utd_endAt dto) (t_endAt existing))) (\<lambda>_.
     andThen (case utd_categoryId dto of None \<Rightarrow> ret ()
              | Some c \<Rightarrow> task_assertCategoryBelongsToProject projectId c) (\<lambda>_.
     andThen (case utd_assigneeIds dto of None \<Rightarrow> ret ()
              | Some ids \<Rightarrow> assertAssigneesAreProjectMembers projectId ids) (\<lambda>_.
     andThen (modify gap) (\<lambda>_.
     andThen (if isMoving dto existing
       then andThen (moveTask i projectId (utd_status dto) (utd_rank dto) dto actor
              (utd_assigneeIds dto)) (\<lambda>_.
            whenever (utd_status dto \<noteq> None \<and> utd_status dto \<noteq> Some (t_status existing))
              (notifyStatusChange projectId assignees acting title
                (orElse (utd_status dto) (t_status existing))))
       else (case actor of
          Machine _ \<Rightarrow> transaction (updateTaskTx i projectId dto actor (utd_assigneeIds dto))
        | User _ \<Rightarrow> andThen (updateOne tasks tasks_update (\<lambda>t. t_id t = i)
            (applyTaskFields dto)) (\<lambda>_. ret ()))) (\<lambda>_.
     andThen (case utd_assigneeIds dto of None \<Rightarrow> ret ()
        | Some ids \<Rightarrow>
            andThen (case actor of User _ \<Rightarrow> replaceAssignees i projectId ids
                     | Machine _ \<Rightarrow> ret ()) (\<lambda>_.
            promiseAll [notifyNewTaskAssignees projectId assignees ids acting title,
              notifyRemovedTaskAssignees projectId assignees ids acting title] (\<lambda>m. m))) (\<lambda>_.
     andThen (task_findByIdForProject i projectId) (\<lambda>updated.
     andThen (emitToProject projectId ''task:updated''
       (P_taskUpdated i projectId updated) None) (\<lambda>_.
     ret updated)))))))))"

section \<open>Delete\<close>

definition deleteTaskRow :: "ident \<Rightarrow> task_view service" where
  "deleteTaskRow i = (\<lambda>w. case List.find (\<lambda>t. t_id t = i) (tasks w) of
     None \<Rightarrow> (Inl (PrismaError ''P2025''), w)
   | Some t \<Rightarrow> (Inr (mapTask w t), w\<lparr>tasks := filter (\<lambda>t. t_id t \<noteq> i) (tasks w),
       taskAssignees := filter (\<lambda>a. ta_taskId a \<noteq> i) (taskAssignees w)\<rparr>))"

definition removeTaskTx :: "ident \<Rightarrow> ident \<Rightarrow> task_actor \<Rightarrow> task_view service" where
  "removeTaskTx i projectId actor =
     andThen (deleteTaskRow i) (\<lambda>deleted.
     andThen (closeRankGap projectId (t_status (tv_task deleted)) (t_rank (tv_task deleted))) (\<lambda>_.
     andThen (recordMachineAction actor projectId i A_DELETE) (\<lambda>_.
     ret deleted)))"

definition task_removeAs ::
  "(world \<Rightarrow> world) \<Rightarrow> ident \<Rightarrow> ident \<Rightarrow> task_actor \<Rightarrow> task_view service" where
  "task_removeAs gap i projectId actor =
     andThen (case actor of User u \<Rightarrow> task_findById i projectId u
              | Machine _ \<Rightarrow> task_findByIdForProject i projectId) (\<lambda>_.
     andThen (modify gap) (\<lambda>_.
     andThen (transaction (removeTaskTx i projectId actor)) (\<lambda>task.
     andThen (emitToProject projectId ''task:deleted'' (P_taskDeleted i projectId) None) (\<lambda>_.
     ret task))))"

section \<open>The public entry points\<close>

definition task_create :: "(world \<Rightarrow> world) \<Rightarrow> ident \<Rightarrow> create_task_dto \<Rightarrow> ident \<Rightarrow> task_view service" where
  "task_create gap projectId dto userId = task_createAs gap projectId dto (User userId)"

definition task_createForMachine ::
  "(world \<Rightarrow> world) \<Rightarrow> ident \<Rightarrow> create_task_dto \<Rightarrow> ident \<Rightarrow> task_view service" where
  "task_createForMachine gap projectId dto tokenId = task_createAs gap projectId dto (Machine tokenId)"

definition task_update ::
  "(world \<Rightarrow> world) \<Rightarrow> ident \<Rightarrow> update_task_dto \<Rightarrow> ident \<Rightarrow> ident \<Rightarrow> task_view service" where
  "task_update gap i dto projectId userId = task_updateAs gap i dto projectId (User userId)"

definition task_updateForMachine ::
  "(world \<Rightarrow> world) \<Rightarrow> ident \<Rightarrow> update_task_dto \<Rightarrow> ident \<Rightarrow> ident \<Rightarrow> task_view service" where
  "task_updateForMachine gap i dto projectId tokenId =
     task_updateAs gap i dto projectId (Machine tokenId)"

definition task_remove :: "(world \<Rightarrow> world) \<Rightarrow> ident \<Rightarrow> ident \<Rightarrow> ident \<Rightarrow> task_view service" where
  "task_remove gap i projectId userId = task_removeAs gap i projectId (User userId)"

definition task_removeForMachine :: "(world \<Rightarrow> world) \<Rightarrow> ident \<Rightarrow> ident \<Rightarrow> ident \<Rightarrow> task_view service" where
  "task_removeForMachine gap i projectId tokenId = task_removeAs gap i projectId (Machine tokenId)"

section \<open>Lemmas\<close>

lemma task_findByIdForProject_run [run_simps]:
  "task_findByIdForProject i p w =
     (case List.find (\<lambda>t. t_id t = i \<and> t_projectId t = p) (tasks w) of
        None \<Rightarrow> (Inl taskNotFound, w) | Some t \<Rightarrow> (Inr (mapTask w t), w))"
  by (auto simp: task_findByIdForProject_def run_simps split: option.splits)

lemma keeps_task_reads [keeps_rules]:
  "keeps I (task_findByIdForProject i p)" "keeps I (task_findById i p u)"
  "keeps I (task_assertValidDateRange s e)" "keeps I (task_assertCategoryBelongsToProject p c)"
  "keeps I (assertAssigneesAreProjectMembers p ids)"
  unfolding task_findByIdForProject_def task_findById_def task_assertValidDateRange_def
    task_assertCategoryBelongsToProject_def assertAssigneesAreProjectMembers_def
  by (intro keeps_rules)+

text \<open>A predicate on the task rows alone survives everything that does not write them.\<close>

definition onTasks :: "(task_row list \<Rightarrow> bool) \<Rightarrow> world \<Rightarrow> bool" where
  "onTasks Q w \<longleftrightarrow> Q (tasks w)"

lemma onTasks_simps [simp]:
  "onTasks Q (w\<lparr>outbox := a\<rparr>) = onTasks Q w" "onTasks Q (w\<lparr>uuids := b\<rparr>) = onTasks Q w"
  "onTasks Q (notifications_update c w) = onTasks Q w"
  "onTasks Q (sockets_update d w) = onTasks Q w"
  "onTasks Q (taskAssignees_update e w) = onTasks Q w"
  "onTasks Q (audits_update g w) = onTasks Q w"
  by (simp_all add: onTasks_def)

lemma quiet_onTasks: "quiet (onTasks Q)"
  by (rule quietI) simp_all

lemma keeps_onTasks_quiet [keeps_rules]:
  "keeps (onTasks Q) (notification_create u msg link)"
  "keeps (onTasks Q) (emitToProject p event pl x)"
  by (rule quiet_keeps [OF quiet_onTasks])+

lemma keeps_onTasks_aux [keeps_rules]:
  "keeps (onTasks Q) (replaceAssigneesInTransaction i p ids)"
  "keeps (onTasks Q) (machineAssignees actor i p idso)"
  "keeps (onTasks Q) (recordMachineAction actor p i a)"
  "keeps (onTasks Q) (notifyEach p us f link)"
proof -
  show r: "keeps (onTasks Q) (replaceAssigneesInTransaction i p ids)" for i p ids
    unfolding replaceAssigneesInTransaction_def
    by (intro keeps_rules keeps_writes) simp_all
  then show "keeps (onTasks Q) (machineAssignees actor i p idso)"
    by (auto simp: machineAssignees_def keeps_ret split: task_actor.split option.split)
  show "keeps (onTasks Q) (recordMachineAction actor p i a)"
    unfolding recordMachineAction_def
    by (cases actor) (auto intro!: keeps_rules keeps_writes)
  show "keeps (onTasks Q) (notifyEach p us f link)"
    unfolding notifyEach_def by (intro keeps_rules)
qed

end
