(* ===== verification/TaskRanks.thy ===== *)
theory TaskRanks
  imports Tasks
begin

text \<open>
  The rank discipline of the board. The abstract view of a column is the list of its task ids
  in rank order; \<open>insertAt\<close> and deletion by id are the abstract operations. \<open>ranked\<close> is the
  refinement relation between a column's rows and such a list: the ranks are exactly
  0..n-1 and the row of rank k carries the k-th id. Each transaction of \<open>Tasks\<close> is shown to
  implement the abstract operation.
\<close>

section \<open>The abstract board\<close>

definition insertAt :: "nat \<Rightarrow> 'a \<Rightarrow> 'a list \<Rightarrow> 'a list" where
  "insertAt k x xs = take k xs @ x # drop k xs"

definition without :: "'a \<Rightarrow> 'a list \<Rightarrow> 'a list" where
  "without x xs = filter (\<lambda>y. y \<noteq> x) xs"

definition clampIndex :: "int option \<Rightarrow> nat \<Rightarrow> nat" where
  "clampIndex wanted n =
     (case wanted of None \<Rightarrow> n | Some r \<Rightarrow> nat (min (max r 0) (int n)))"

type_synonym board = "task_status \<Rightarrow> ident list"

definition boardInsert :: "task_status \<Rightarrow> int option \<Rightarrow> ident \<Rightarrow> board \<Rightarrow> board" where
  "boardInsert st wanted i b = b(st := insertAt (clampIndex wanted (length (b st))) i (b st))"

definition boardRemove :: "ident \<Rightarrow> board \<Rightarrow> board" where
  "boardRemove i b = (\<lambda>st. without i (b st))"

definition boardMove :: "task_status \<Rightarrow> int option \<Rightarrow> ident \<Rightarrow> board \<Rightarrow> board" where
  "boardMove st wanted i b = boardInsert st wanted i (boardRemove i b)"

lemma clampIndex_le: "clampIndex wanted n \<le> n"
  by (auto simp: clampIndex_def split: option.split)

lemma set_insertAt: "set (insertAt k x xs) = insert x (set xs)"
proof -
  have "set (take k xs) \<union> set (drop k xs) = set xs"
    by (metis append_take_drop_id set_append)
  then show ?thesis by (auto simp: insertAt_def)
qed

lemma length_insertAt: "length (insertAt k x xs) = Suc (length xs)"
  by (simp add: insertAt_def)

lemma distinct_insertAt: "x \<notin> set xs \<Longrightarrow> distinct xs \<Longrightarrow> distinct (insertAt k x xs)"
  by (auto simp: insertAt_def set_take_disj_set_drop_if_distinct dest: in_set_takeD in_set_dropD)

lemma nth_insertAt: "k \<le> length xs \<Longrightarrow> insertAt k x xs ! k = x"
  by (simp add: insertAt_def nth_append)

lemma without_id: "x \<notin> set xs \<Longrightarrow> without x xs = xs"
  by (auto simp: without_def filter_id_conv)

lemma without_append: "without x (xs @ ys) = without x xs @ without x ys"
  by (simp add: without_def)

lemma set_without [simp]: "set (without x xs) = set xs - {x}"
  by (auto simp: without_def)

lemma distinct_without: "distinct xs \<Longrightarrow> distinct (without x xs)"
  by (simp add: without_def)

lemma without_split:
  assumes "distinct xs" and "x \<in> set xs"
  shows "\<exists>ys zs. xs = ys @ x # zs \<and> x \<notin> set (ys @ zs) \<and> without x xs = ys @ zs"
proof -
  obtain ys zs where xs: "xs = ys @ x # zs" using assms(2) by (meson split_list)
  then have "x \<notin> set (ys @ zs)" using assms(1) by simp
  moreover from this have "without x xs = ys @ zs"
    using without_id [of x ys] without_id [of x zs] by (simp add: xs without_def)
  ultimately show ?thesis using xs by blast
qed

section \<open>Ranked lists of slots\<close>

definition slots :: "ident list \<Rightarrow> (int \<times> ident) list" where
  "slots ids = zip (map int [0..<length ids]) ids"

lemma map_fst_slots: "map fst (slots ids) = map int [0..<length ids]"
  by (simp add: slots_def)

lemma map_snd_slots: "map snd (slots ids) = ids"
  by (simp add: slots_def)

lemma length_slots [simp]: "length (slots ids) = length ids"
  by (simp add: slots_def)

lemma slots_nth: "k < length ids \<Longrightarrow> slots ids ! k = (int k, ids ! k)"
  by (simp add: slots_def)

lemma slots_append:
  "slots (xs @ ys) = slots xs @ map (\<lambda>(r, i). (r + int (length xs), i)) (slots ys)"
  by (rule nth_equalityI) (auto simp: slots_nth nth_append)

lemma slots_Cons: "slots (x # xs) = (0, x) # map (\<lambda>(r, i). (r + 1, i)) (slots xs)"
  using slots_append [of "[x]" xs] by (simp add: slots_def)

lemma slots_bound: "(r, i) \<in> set (slots ids) \<Longrightarrow> 0 \<le> r \<and> r < int (length ids) \<and> i \<in> set ids"
  by (auto simp: in_set_conv_nth slots_nth)

lemma slots_without: "m \<notin> set ids \<Longrightarrow> filter (\<lambda>p. snd p \<noteq> m) (slots ids) = slots ids"
  using slots_bound [of _ _ ids] by (auto simp: filter_id_conv)

lemma slots_shift_without:
  "m \<notin> set ids \<Longrightarrow> filter (\<lambda>p. snd p \<noteq> m) (map (\<lambda>(r, i). (h r, i)) (slots ids)) =
   map (\<lambda>(r, i). (h r, i)) (slots ids)"
  using slots_bound [of _ _ ids] by (auto simp: filter_id_conv)

lemma slots_close:
  assumes "m \<notin> set (xs @ ys)"
  shows "map (\<lambda>(r, i). (if r > int (length xs) then r - 1 else r, i))
           (filter (\<lambda>p. snd p \<noteq> m) (slots (xs @ m # ys))) = slots (xs @ ys)"
proof -
  let ?f = "\<lambda>(r, i). (if r > int (length xs) then r - 1 else r, i :: ident)"
  let ?tail = "map (\<lambda>(r, i). (r + 1 + int (length xs), i)) (slots ys)"
  have "slots (xs @ m # ys) = slots xs @ (int (length xs), m) # ?tail"
    by (simp add: slots_append slots_Cons case_prod_unfold)
  then have "filter (\<lambda>p. snd p \<noteq> m) (slots (xs @ m # ys)) = slots xs @ ?tail"
    using assms slots_without [of m xs]
      slots_shift_without [of m ys "\<lambda>r. r + 1 + int (length xs)"] by simp
  moreover have "map ?f (slots xs) = slots xs"
    using slots_bound [of _ _ xs] by (intro map_idI) fastforce
  moreover have "map ?f ?tail = map (\<lambda>(r, i). (r + int (length xs), i)) (slots ys)"
    using slots_bound [of _ _ ys] by (auto intro!: map_cong)
  ultimately show ?thesis by (simp add: slots_append)
qed

lemma slots_open:
  assumes "k \<le> length ids"
  shows "mset (slots (insertAt k m ids)) =
    add_mset (int k, m) (mset (map (\<lambda>(r, i). (if r \<ge> int k then r + 1 else r, i)) (slots ids)))"
proof -
  let ?xs = "take k ids" and ?ys = "drop k ids"
  let ?f = "\<lambda>(r, i). (if r \<ge> int k then r + 1 else r, i :: ident)"
  have len: "length ?xs = k" using assms by simp
  have a: "map ?f (slots ?xs) = slots ?xs"
    using slots_bound [of _ _ ?xs] len by (intro map_idI) fastforce
  have b: "map ?f (map (\<lambda>(r, i). (r + int k, i)) (slots ?ys)) =
      map (\<lambda>(r, i). (r + 1 + int k, i)) (slots ?ys)"
    using slots_bound [of _ _ ?ys] by (auto intro!: map_cong)
  have "slots ids = slots ?xs @ map (\<lambda>(r, i). (r + int k, i)) (slots ?ys)"
    using slots_append [of ?xs ?ys] len by simp
  then have "map ?f (slots ids) = slots ?xs @ map (\<lambda>(r, i). (r + 1 + int k, i)) (slots ?ys)"
    by (simp only: map_append a b)
  moreover have "slots (insertAt k m ids) =
      slots ?xs @ (int k, m) # map (\<lambda>(r, i). (r + 1 + int k, i)) (slots ?ys)"
    using len by (simp add: insertAt_def slots_append slots_Cons case_prod_unfold)
  ultimately show ?thesis by simp
qed

section \<open>Columns of the table\<close>

definition inColumn :: "ident \<Rightarrow> task_status \<Rightarrow> task_row \<Rightarrow> bool" where
  "inColumn p st t \<longleftrightarrow> t_projectId t = p \<and> t_status t = st"

definition columnOf :: "task_row list \<Rightarrow> ident \<Rightarrow> task_status \<Rightarrow> task_row list" where
  "columnOf ts p st = filter (inColumn p st) ts"

definition columnIds :: "task_row list \<Rightarrow> ident \<Rightarrow> task_status \<Rightarrow> ident list" where
  "columnIds ts p st = map t_id (sort_key t_rank (columnOf ts p st))"

definition slot :: "task_row \<Rightarrow> int \<times> ident" where
  "slot t = (t_rank t, t_id t)"

definition ranked :: "task_row list \<Rightarrow> ident list \<Rightarrow> bool" where
  "ranked col ids \<longleftrightarrow> mset (map slot col) = mset (slots ids)"

text \<open>Dense: the ranks of a column are 0..n-1, each once.\<close>

definition dense :: "task_row list \<Rightarrow> bool" where
  "dense col \<longleftrightarrow> sort (map t_rank col) = map int [0..<length col]"

definition ranksDense :: "task_row list \<Rightarrow> bool" where
  "ranksDense ts \<longleftrightarrow> distinct (map t_id ts) \<and> (\<forall>p st. dense (columnOf ts p st))"

lemma ranked_length: "ranked col ids \<Longrightarrow> length col = length ids"
  unfolding ranked_def by (metis length_map length_slots size_mset)

lemma sorted_ints: "sorted (map int [0..<n])"
  by (simp add: sorted_map sorted_wrt_upt)

lemma sort_key_unique:
  assumes "mset xs = mset ys" and "inj_on f (set xs)" and "sorted (map f ys)"
  shows "sort_key f xs = ys"
  by (rule sort_key_inj_key_eq [OF assms])

lemma ranked_sorted:
  assumes "ranked col ids"
  shows "map slot (sort_key t_rank col) = slots ids"
proof -
  let ?s = "map slot (sort_key t_rank col)"
  have m: "mset ?s = mset (slots ids)" using assms by (simp add: ranked_def)
  have "inj_on fst (set (slots ids))" by (auto simp: inj_on_def in_set_conv_nth slots_nth)
  then have inj: "inj_on fst (set ?s)" using m by (metis set_mset_mset)
  have "sorted (map fst (slots ids))" by (simp add: map_fst_slots sorted_ints)
  then have "sort_key fst ?s = slots ids" by (rule sort_key_unique [OF m inj])
  moreover have "sorted (map fst ?s)" by (simp add: slot_def o_def)
  then have "sort_key fst ?s = ?s" by (rule sort_key_id_if_sorted)
  ultimately show ?thesis by simp
qed

lemma ranked_dense: "ranked col ids \<Longrightarrow> dense col \<and> map t_id (sort_key t_rank col) = ids"
proof -
  assume r: "ranked col ids"
  have s: "map slot (sort_key t_rank col) = slots ids" by (rule ranked_sorted [OF r])
  have "map fst (map slot (sort_key t_rank col)) = map int [0..<length col]"
    by (simp only: s map_fst_slots ranked_length [OF r])
  then have "map t_rank (sort_key t_rank col) = map int [0..<length col]"
    by (simp add: slot_def o_def)
  moreover have "sort (map t_rank col) = map t_rank (sort_key t_rank col)"
    by (rule properties_for_sort) simp_all
  moreover have "map snd (map slot (sort_key t_rank col)) = ids"
    by (simp only: s map_snd_slots)
  ultimately show ?thesis by (simp add: dense_def slot_def o_def)
qed

lemma dense_ranked: "dense col \<Longrightarrow> ranked col (map t_id (sort_key t_rank col))"
proof -
  assume d: "dense col"
  let ?s = "sort_key t_rank col"
  have "sort (map t_rank col) = map t_rank ?s"
    by (rule properties_for_sort) simp_all
  then have "map t_rank ?s = map int [0..<length col]" using d by (simp add: dense_def)
  then have "t_rank (?s ! k) = int k" if "k < length col" for k
    using that by (metis (no_types, lifting) nth_map length_map length_sort nth_upt length_upt
        diff_zero add_0)
  then have "map slot ?s = slots (map t_id ?s)"
    by (intro nth_equalityI) (auto simp: slots_nth slot_def)
  then show ?thesis
    unfolding ranked_def by (metis mset_map mset_sort)
qed

lemma ranked_iff: "ranked col ids \<longleftrightarrow> dense col \<and> map t_id (sort_key t_rank col) = ids"
  using ranked_dense dense_ranked by blast

lemma ranked_set: "ranked col ids \<Longrightarrow> t_id ` set col = set ids"
  by (drule ranked_dense) (metis image_set set_sort)

section \<open>What each row update does to a column\<close>

text \<open>
  \<open>othersOf\<close>: a column without one task; \<open>closed\<close> and \<open>opened\<close>: the rows after \<open>closeRankGap\<close>
  and after the shift of \<open>openRankSlot\<close>.
\<close>

definition othersOf :: "task_row list \<Rightarrow> ident \<Rightarrow> task_status \<Rightarrow> ident \<Rightarrow> task_row list" where
  "othersOf ts p st i = filter (\<lambda>t. t_id t \<noteq> i) (columnOf ts p st)"

definition closed :: "ident \<Rightarrow> task_status \<Rightarrow> int \<Rightarrow> task_row list \<Rightarrow> task_row list" where
  "closed p st r = map (\<lambda>t. if t_projectId t = p \<and> t_status t = st \<and> t_rank t > r
     then t\<lparr>t_rank := t_rank t - 1\<rparr> else t)"

definition opened :: "ident \<Rightarrow> task_status \<Rightarrow> int \<Rightarrow> (task_row \<Rightarrow> bool) \<Rightarrow> task_row list \<Rightarrow> task_row list" where
  "opened p st k exclude = map (\<lambda>t. if t_projectId t = p \<and> t_status t = st \<and> t_rank t \<ge> k \<and> exclude t
     then t\<lparr>t_rank := t_rank t + 1\<rparr> else t)"

lemma closed_ids [simp]: "map t_id (closed p st r ts) = map t_id ts"
  by (simp add: closed_def)

lemma opened_ids [simp]: "map t_id (opened p st k ex ts) = map t_id ts"
  by (simp add: opened_def)

lemma columnOf_closed: "columnOf (closed p st r ts) q s = closed p st r (columnOf ts q s)"
  unfolding columnOf_def closed_def by (rule filter_map_update) (simp add: inColumn_def)

lemma columnOf_opened: "columnOf (opened p st k ex ts) q s = opened p st k ex (columnOf ts q s)"
  unfolding columnOf_def opened_def by (rule filter_map_update) (simp add: inColumn_def)

lemma column_other:
  assumes "\<And>t. t \<in> set col \<Longrightarrow> inColumn q s t" and "(q, s) \<noteq> (p, st)"
  shows "closed p st r col = col" "opened p st k ex col = col"
  using assms unfolding closed_def opened_def
  by (auto intro!: map_idI simp: inColumn_def)

lemma in_columnOf: "t \<in> set (columnOf ts p st) \<Longrightarrow> inColumn p st t"
  by (simp add: columnOf_def)

lemma othersOf_other:
  "(q, s) \<noteq> (p, st) \<Longrightarrow> othersOf (closed p st r ts) q s i = othersOf ts q s i"
  "(q, s) \<noteq> (p, st) \<Longrightarrow> othersOf (opened p st k ex ts) q s i = othersOf ts q s i"
  unfolding othersOf_def columnOf_closed columnOf_opened
  by (subst column_other [OF in_columnOf]; simp)+

lemma othersOf_closed: "othersOf (closed p st r ts) q s i = closed p st r (othersOf ts q s i)"
  unfolding othersOf_def columnOf_closed unfolding closed_def by (rule filter_map_update) simp

lemma othersOf_opened: "othersOf (opened p st k ex ts) q s i = opened p st k ex (othersOf ts q s i)"
  unfolding othersOf_def columnOf_opened unfolding opened_def by (rule filter_map_update) simp

lemma slot_closed:
  "(\<And>t. t \<in> set col \<Longrightarrow> inColumn p st t) \<Longrightarrow>
   map slot (closed p st r col) = map (\<lambda>(k, i). (if k > r then k - 1 else k, i)) (map slot col)"
  by (auto simp: closed_def slot_def inColumn_def)

lemma slot_opened:
  "(\<And>t. t \<in> set col \<Longrightarrow> inColumn p st t \<and> ex t) \<Longrightarrow>
   map slot (opened p st r ex col) = map (\<lambda>(k, i). (if k \<ge> r then k + 1 else k, i)) (map slot col)"
  by (auto simp: opened_def slot_def inColumn_def)

lemma in_othersOf: "t \<in> set (othersOf ts p st i) \<Longrightarrow> inColumn p st t \<and> t_id t \<noteq> i"
  by (simp add: othersOf_def columnOf_def)

lemma ranked_others_same:
  "ranked (columnOf ts p st) ids \<Longrightarrow> i \<notin> set ids \<Longrightarrow>
   othersOf ts p st i = columnOf ts p st \<and> without i ids = ids"
  by (auto simp: othersOf_def filter_id_conv without_id dest: ranked_set)

text \<open>Closing the gap a task leaves makes the rest of its column ranked again.\<close>

lemma ranked_closed:
  assumes "ranked (columnOf ts p st) ids" and "distinct ids"
    and "t \<in> set (columnOf ts p st)" and "t_id t = i"
  shows "ranked (othersOf (closed p st (t_rank t) ts) p st i) (without i ids)"
proof -
  let ?col = "columnOf ts p st" and ?r = "t_rank t"
  have m: "mset (map slot ?col) = mset (slots ids)" using assms(1) by (simp add: ranked_def)
  have "slot t \<in> set (slots ids)" using assms(3) m by (metis image_eqI set_map set_mset_mset)
  then obtain k where "k < length ids" "slots ids ! k = slot t"
    by (metis in_set_conv_nth length_slots)
  then have k: "k < length ids" "?r = int k" "ids ! k = i"
    using assms(4) by (simp_all add: slots_nth slot_def)
  have split: "ids = take k ids @ i # drop (Suc k) ids" using id_take_nth_drop k by metis
  have fresh: "i \<notin> set (take k ids @ drop (Suc k) ids)"
    using assms(2) by (subst (asm) split) auto
  have w: "without i ids = take k ids @ drop (Suc k) ids"
    using fresh without_id [of i "take k ids"] without_id [of i "drop (Suc k) ids"]
    by (subst split) (simp add: without_def)
  have "map slot (othersOf ts p st i) = filter (\<lambda>s. snd s \<noteq> i) (map slot ?col)"
    by (simp add: othersOf_def filter_map o_def slot_def)
  then have "mset (map slot (othersOf ts p st i)) = mset (filter (\<lambda>s. snd s \<noteq> i) (slots ids))"
    by (metis m mset_filter)
  moreover have "map slot (closed p st ?r (othersOf ts p st i)) =
      map (\<lambda>(k, j). (if k > ?r then k - 1 else k, j)) (map slot (othersOf ts p st i))"
    by (rule slot_closed) (simp add: in_othersOf)
  ultimately have "mset (map slot (closed p st ?r (othersOf ts p st i))) =
      mset (map (\<lambda>(k, j). (if k > ?r then k - 1 else k, j)) (filter (\<lambda>s. snd s \<noteq> i) (slots ids)))"
    by (simp only: mset_map)
  also have "\<dots> = mset (slots (without i ids))"
    using slots_close [OF fresh] k(1) by (simp add: w k(2) flip: split)
  finally show ?thesis by (simp add: ranked_def othersOf_closed)
qed

text \<open>Opening a slot and putting a task into it makes the column ranked.\<close>

lemma ranked_opened:
  assumes "ranked (othersOf ts p st i) ids" and "k \<le> length ids"
    and "\<And>t. t \<in> set (othersOf ts p st i) \<Longrightarrow> ex t"
    and "mset col = add_mset r (mset (othersOf (opened p st (int k) ex ts) p st i))"
    and "slot r = (int k, i)"
  shows "ranked col (insertAt k i ids)"
proof -
  have m: "mset (map slot (othersOf ts p st i)) = mset (slots ids)"
    using assms(1) by (simp add: ranked_def)
  have s: "map slot (opened p st (int k) ex (othersOf ts p st i)) =
      map (\<lambda>(r, j). (if r \<ge> int k then r + 1 else r, j)) (map slot (othersOf ts p st i))"
    by (rule slot_opened) (simp add: in_othersOf assms(3))
  have "mset (map slot col) =
      add_mset (int k, i) (mset (map slot (opened p st (int k) ex (othersOf ts p st i))))"
    using assms(4,5) by (simp add: othersOf_opened)
  also have "\<dots> = add_mset (int k, i)
      (mset (map (\<lambda>(r, j). (if r \<ge> int k then r + 1 else r, j)) (slots ids)))"
    using m by (simp only: s mset_map)
  also have "\<dots> = mset (slots (insertAt k i ids))" by (simp add: slots_open assms(2))
  finally show ?thesis by (simp add: ranked_def)
qed

section \<open>The transactions on the task table\<close>

lemma same_tasks: "(\<And>Q. keeps (onTasks Q) m) \<Longrightarrow> m w = (r, w') \<Longrightarrow> tasks w' = tasks w"
  using keeps_run [of "onTasks (\<lambda>ts. ts = tasks w)" m w r w'] by (simp add: onTasks_def)

lemma closeRankGap_run [run_simps]:
  "closeRankGap p st r w = (Inr (), tasks_update (closed p st r) w)"
  by (simp add: closeRankGap_def closed_def run_simps)

definition excluding :: "ident option \<Rightarrow> task_row \<Rightarrow> bool" where
  "excluding excludeId t \<longleftrightarrow> (case excludeId of None \<Rightarrow> True | Some i \<Rightarrow> t_id t \<noteq> i)"

lemma openRankSlot_run [run_simps]:
  "openRankSlot p st wanted x w =
     (let k = int (clampIndex wanted (length (filter (excluding x) (columnOf (tasks w) p st))))
      in (Inr k, tasks_update (opened p st k (excluding x)) w))"
proof -
  have "filter (\<lambda>t. t_projectId t = p \<and> t_status t = st \<and>
      (case x of None \<Rightarrow> True | Some i \<Rightarrow> t_id t \<noteq> i)) (tasks w) =
      filter (excluding x) (columnOf (tasks w) p st)"
    by (simp add: columnOf_def excluding_def inColumn_def conj_commute conj_left_commute)
  then show ?thesis
    by (simp add: openRankSlot_def opened_def run_simps Let_def clampIndex_def excluding_def
        split: option.split)
qed

lemma clampIndex_int: "int (clampIndex (Some r) n) = min (max r 0) (int n)"
  by (simp add: clampIndex_def)

lemma createTaskTx_tasks:
  assumes "createTaskTx p dto actor w = (Inr row, w')"
  defines "k \<equiv> int (clampIndex (Some (ctd_rank dto)) (length (columnOf (tasks w) p (ctd_status dto))))"
  shows "row = newTaskRow p dto k (t_id row) \<and> t_id row \<notin> set (map t_id (tasks w)) \<and>
     tasks w' = opened p (ctd_status dto) k (\<lambda>_. True) (tasks w) @ [row]"
proof -
  have ex: "excluding None = (\<lambda>_. True)" by (auto simp: excluding_def fun_eq_iff)
  obtain rank w1 w2 a w3 b where o: "openRankSlot p (ctd_status dto) (Some (ctd_rank dto)) None w = (Inr rank, w1)"
    and c: "createRow tasks tasks_update t_id (newTaskRow p dto rank) w1 = (Inr row, w2)"
    and m: "machineAssignees actor (t_id row) p (ctd_assigneeIds dto) w2 = (Inr a, w3)"
    and r: "recordMachineAction actor p (t_id row) A_CREATE w3 = (Inr b, w')"
    using assms(1) unfolding createTaskTx_def by (auto simp: andThen_Inr ret_Inr)
  have "tasks w' = tasks w2"
    using same_tasks [OF keeps_onTasks_aux(2) m] same_tasks [OF keeps_onTasks_aux(3) r] by simp
  moreover have "rank = k" and w1: "tasks w1 = opened p (ctd_status dto) k (\<lambda>_. True) (tasks w)"
    using o by (auto simp: run_simps ex k_def Let_def)
  moreover have "row = newTaskRow p dto k (t_id row)" "t_id row \<notin> set (map t_id (tasks w1))"
    "tasks w2 = tasks w1 @ [row]"
    using c \<open>rank = k\<close> by (auto simp: run_simps newTaskRow_def list_ex_iff split: if_splits)
  ultimately show ?thesis by (simp add: opened_ids [unfolded list.set_map])
qed

lemma moveTaskTx_tasks:
  assumes "moveTaskTx i p so wanted dto actor ids w = (Inr (k, target), w')"
  shows "\<exists>t. List.find (\<lambda>t. t_id t = i) (tasks w) = Some t \<and> target = orElse so (t_status t) \<and>
     (let ts = closed p (t_status t) (t_rank t) (tasks w);
          ex = (\<lambda>t. t_id t \<noteq> i) in
      k = int (clampIndex wanted (length (othersOf ts p target i))) \<and>
      tasks w' = map (\<lambda>t. if t_id t = i
        then (applyTaskFields dto t)\<lparr>t_status := target, t_rank := k\<rparr> else t)
        (opened p target k ex ts))"
proof -
  have ex: "excluding (Some i) = (\<lambda>t. t_id t \<noteq> i)" by (auto simp: excluding_def fun_eq_iff)
  obtain t w0 w1 c w2 a w3 b where t: "findOrThrow tasks (\<lambda>t. t_id t = i) w = (Inr t, w)"
    and cl: "closeRankGap p (t_status t) (t_rank t) w = (Inr (), w0)"
    and o: "openRankSlot p target wanted (Some i) w0 = (Inr k, w1)"
    and u: "updateOne tasks tasks_update (\<lambda>t. t_id t = i)
       (\<lambda>t. (applyTaskFields dto t)\<lparr>t_status := target, t_rank := k\<rparr>) w1 = (Inr c, w2)"
    and m: "machineAssignees actor i p ids w2 = (Inr a, w3)"
    and r: "recordMachineAction actor p i A_UPDATE w3 = (Inr b, w')"
    and target: "target = orElse so (t_status t)"
    using assms unfolding moveTaskTx_def by (auto simp: andThen_Inr ret_Inr Let_def prisma_Inr)
  have "tasks w' = tasks w2"
    using same_tasks [OF keeps_onTasks_aux(2) m] same_tasks [OF keeps_onTasks_aux(3) r] by simp
  moreover have w0: "tasks w0 = closed p (t_status t) (t_rank t) (tasks w)"
    using cl by (auto simp: run_simps)
  moreover have "k = int (clampIndex wanted (length (othersOf (tasks w0) p target i)))"
    and "tasks w1 = opened p target k (\<lambda>t. t_id t \<noteq> i) (tasks w0)"
    using o by (auto simp: run_simps ex Let_def othersOf_def)
  moreover have "tasks w2 = map (\<lambda>t. if t_id t = i
      then (applyTaskFields dto t)\<lparr>t_status := target, t_rank := k\<rparr> else t) (tasks w1)"
    using u by (auto simp: run_simps split: option.splits)
  ultimately show ?thesis using t target by (auto simp: Let_def prisma_Inr)
qed

lemma removeTaskTx_tasks:
  assumes "removeTaskTx i p actor w = (Inr v, w')"
  shows "\<exists>t. List.find (\<lambda>t. t_id t = i) (tasks w) = Some t \<and>
     tasks w' = closed p (t_status t) (t_rank t) (filter (\<lambda>t. t_id t \<noteq> i) (tasks w))"
proof -
  obtain d w1 w2 b where d: "deleteTaskRow i w = (Inr d, w1)"
    and c: "closeRankGap p (t_status (tv_task d)) (t_rank (tv_task d)) w1 = (Inr (), w2)"
    and r: "recordMachineAction actor p i A_DELETE w2 = (Inr b, w')"
    using assms unfolding removeTaskTx_def by (auto simp: andThen_Inr ret_Inr)
  have "tasks w' = tasks w2" by (rule same_tasks [OF keeps_onTasks_aux(3) r])
  moreover have "List.find (\<lambda>t. t_id t = i) (tasks w) = Some (tv_task d)"
    and "tasks w1 = filter (\<lambda>t. t_id t \<noteq> i) (tasks w)"
    using d by (auto simp: deleteTaskRow_def mapTask_def split: option.splits)
  ultimately show ?thesis using c by (auto simp: run_simps)
qed

lemma updateTaskTx_tasks:
  "snd (updateTaskTx i p dto actor ids w) = w' \<Longrightarrow>
   tasks w' = tasks w \<or> tasks w' = map (\<lambda>t. if t_id t = i then applyTaskFields dto t else t) (tasks w)"
proof -
  assume w': "snd (updateTaskTx i p dto actor ids w) = w'"
  let ?Q = "\<lambda>ts. ts = tasks w \<or> ts = map (\<lambda>t. if t_id t = i then applyTaskFields dto t else t) (tasks w)"
  have tail: "keeps (onTasks ?Q) (andThen (machineAssignees actor i p ids)
      (\<lambda>_. recordMachineAction actor p i A_UPDATE))"
    by (intro keeps_rules)
  show ?thesis
  proof (cases "updateOne tasks tasks_update (\<lambda>t. t_id t = i) (applyTaskFields dto) w")
    case (Pair r w1)
    have "onTasks ?Q w1" using Pair by (auto simp: run_simps onTasks_def split: option.splits)
    moreover have "w' = w1 \<or> w' = snd (andThen (machineAssignees actor i p ids)
      (\<lambda>_. recordMachineAction actor p i A_UPDATE) w1)"
      using w' Pair unfolding updateTaskTx_def
      by (cases r) (auto simp: andThen_run)
    ultimately show ?thesis using keepsD [OF tail] by (auto simp: onTasks_def)
  qed
qed

section \<open>The transactions implement the board\<close>

definition boardOf :: "task_row list \<Rightarrow> ident \<Rightarrow> board" where
  "boardOf ts p = (\<lambda>st. columnIds ts p st)"

definition represents :: "task_row list \<Rightarrow> ident \<Rightarrow> board \<Rightarrow> bool" where
  "represents ts p b \<longleftrightarrow> (\<forall>st. ranked (columnOf ts p st) (b st))"

lemma represents_iff:
  "represents ts p b \<longleftrightarrow> (\<forall>st. dense (columnOf ts p st)) \<and> boardOf ts p = b"
  by (auto simp: represents_def ranked_iff boardOf_def columnIds_def fun_eq_iff)

lemma ranksDense_iff:
  "ranksDense ts \<longleftrightarrow> distinct (map t_id ts) \<and> (\<forall>p. represents ts p (boardOf ts p))"
  by (auto simp: ranksDense_def represents_iff)

lemma ranksDenseD: "ranksDense ts \<Longrightarrow> ranked (columnOf ts p st) (boardOf ts p st)"
  by (simp add: ranksDense_iff represents_def)

lemma set_boardOf: "set (boardOf ts p st) = t_id ` set (columnOf ts p st)"
  by (simp add: boardOf_def columnIds_def)

lemma distinct_boardOf: "ranksDense ts \<Longrightarrow> distinct (boardOf ts p st)"
  unfolding ranksDense_def boardOf_def columnIds_def columnOf_def
  by (metis distinct_map_filterI mset_eq_imp_distinct_iff mset_map mset_sort)

lemma length_boardOf: "length (boardOf ts p st) = length (columnOf ts p st)"
  by (simp add: boardOf_def columnIds_def)

lemma same_id: "ranksDense ts \<Longrightarrow> t \<in> set ts \<Longrightarrow> u \<in> set ts \<Longrightarrow> t_id t = t_id u \<Longrightarrow> t = u"
  unfolding ranksDense_def by (meson inj_on_def distinct_map)

text \<open>A new state of project \<open>p\<close>'s board, with every other project's columns as they were.\<close>

definition newBoard :: "task_row list \<Rightarrow> task_row list \<Rightarrow> ident \<Rightarrow> board \<Rightarrow> bool" where
  "newBoard ts ts' p b \<longleftrightarrow> ranksDense ts' \<and> boardOf ts' p = b \<and>
     (\<forall>q. q \<noteq> p \<longrightarrow> boardOf ts' q = boardOf ts q)"

lemma newBoardI:
  assumes "ranksDense ts" and "distinct (map t_id ts')" and "\<And>st. ranked (columnOf ts' p st) (b st)"
    and "\<And>q st. q \<noteq> p \<Longrightarrow> columnOf ts' q st = columnOf ts q st"
  shows "newBoard ts ts' p b"
proof -
  have p: "represents ts' p b" by (simp add: represents_def assms(3))
  have q: "represents ts' q (boardOf ts q)" if "q \<noteq> p" for q
    using assms(1,4) that by (simp add: represents_def ranksDenseD)
  have "represents ts' q (boardOf ts' q)" for q
    using p q [of q] by (cases "q = p") (simp_all add: represents_iff)
  then show ?thesis
    using assms(2) p q by (simp add: newBoard_def ranksDense_iff represents_iff)
qed

lemma columnOf_append: "columnOf (xs @ ys) q s = columnOf xs q s @ columnOf ys q s"
  by (simp add: columnOf_def)

lemma columnOf_Cons:
  "columnOf (t # ts) q s = (if inColumn q s t then t # columnOf ts q s else columnOf ts q s)"
  by (simp add: columnOf_def)

lemma columnOf_one: "columnOf [t] q s = (if inColumn q s t then [t] else [])"
  by (simp add: columnOf_def)

lemma columnOf_other:
  "(q, s) \<noteq> (p, st) \<Longrightarrow> columnOf (closed p st r ts) q s = columnOf ts q s"
  "(q, s) \<noteq> (p, st) \<Longrightarrow> columnOf (opened p st k ex ts) q s = columnOf ts q s"
  unfolding columnOf_closed columnOf_opened by (rule column_other, auto dest: in_columnOf)+

lemma create_board:
  assumes "ranksDense ts" and "t_id row \<notin> set (map t_id ts)"
    and "t_projectId row = p" "t_status row = st"
    and "t_rank row = int (clampIndex wanted (length (columnOf ts p st)))"
    and "ts' = opened p st (t_rank row) (\<lambda>_. True) ts @ [row]"
  shows "newBoard ts ts' p (boardInsert st wanted (t_id row) (boardOf ts p))"
proof (rule newBoardI [OF assms(1)])
  show "distinct (map t_id ts')"
    using assms(1,2) by (simp add: assms(6) ranksDense_def del: set_map)
  fix q s
  show "columnOf ts' q s = columnOf ts q s" if "q \<noteq> p"
    using that assms(3) by (simp add: assms(6) columnOf_append columnOf_one columnOf_other inColumn_def)
next
  fix s
  let ?i = "t_id row" and ?k = "clampIndex wanted (length (boardOf ts p st))"
  have k: "t_rank row = int ?k" by (simp add: assms(5) length_boardOf)
  have col: "columnOf ts' p s = opened p st (int ?k) (\<lambda>_. True) (columnOf ts p s) @ (if s = st then [row] else [])"
    using assms(3,4) by (simp add: assms(6) k columnOf_append columnOf_one columnOf_opened inColumn_def)
  have fresh: "?i \<notin> set (boardOf ts p s)"
    using assms(2) by (auto simp: set_boardOf columnOf_def)
  have oth: "othersOf ts p s ?i = columnOf ts p s"
    using ranked_others_same [OF ranksDenseD [OF assms(1)] fresh] by simp
  show "ranked (columnOf ts' p s) (boardInsert st wanted ?i (boardOf ts p) s)"
  proof (cases "s = st")
    case True
    have "ranked (columnOf ts' p st) (insertAt ?k ?i (boardOf ts p st))"
      by (rule ranked_opened [where ex = "\<lambda>_. True" and ts = ts and r = row and p = p and st = st])
        (use oth col True assms(1) in \<open>simp_all add: ranksDenseD clampIndex_le slot_def k othersOf_opened\<close>)
    then show ?thesis by (simp add: boardInsert_def True)
  next
    case False
    then have "columnOf ts' p s = columnOf ts p s"
      using assms(4) by (simp add: assms(6) columnOf_append columnOf_one columnOf_other inColumn_def)
    then show ?thesis using False by (simp add: boardInsert_def ranksDenseD assms(1))
  qed
qed

lemma map_one_column:
  assumes "distinct (map t_id ts)" and "u \<in> set ts" and "t_id u = i"
    and "t_id (f u) = i" and "t_projectId (f u) = p" and "t_projectId u = p"
  defines "ts' \<equiv> map (\<lambda>t. if t_id t = i then f t else t) ts"
  shows "mset (columnOf ts' p s) =
      (if s = t_status (f u) then {#f u#} else {#}) + mset (othersOf ts p s i)"
    and "q \<noteq> p \<Longrightarrow> columnOf ts' q s = columnOf ts q s"
proof -
  obtain xs ys where ts: "ts = xs @ u # ys" using assms(2) by (meson split_list)
  have fresh: "\<forall>t\<in>set (xs @ ys). t_id t \<noteq> i" using assms(1,3) by (auto simp: ts image_iff)
  have ts': "ts' = xs @ f u # ys"
    using fresh assms(3) by (auto simp: ts'_def ts intro!: map_idI)
  have keep: "othersOf zs p s i = columnOf zs p s" if "\<forall>t\<in>set zs. t_id t \<noteq> i" for zs
    using that by (auto simp: othersOf_def columnOf_def intro!: filter_cong)
  have "othersOf ts p s i = othersOf xs p s i @ othersOf ys p s i"
    using assms(3) by (simp add: ts othersOf_def columnOf_def)
  then have oth: "othersOf ts p s i = columnOf xs p s @ columnOf ys p s"
    using fresh by (simp add: keep)
  show "mset (columnOf ts' p s) =
      (if s = t_status (f u) then {#f u#} else {#}) + mset (othersOf ts p s i)"
    using assms(5) by (simp add: oth ts' columnOf_append columnOf_Cons inColumn_def)
  show "columnOf ts' q s = columnOf ts q s" if "q \<noteq> p"
    using that assms(5,6) by (simp add: ts ts' columnOf_append columnOf_Cons inColumn_def)
qed

text \<open>The columns once the gap of task \<open>t\<close> is closed, \<open>t\<close> left out.\<close>

lemma ranked_gone:
  assumes "ranksDense ts" and "t \<in> set ts" and "t_projectId t = p"
  shows "ranked (othersOf (closed p (t_status t) (t_rank t) ts) p st (t_id t))
     (boardRemove (t_id t) (boardOf ts p) st)"
proof (cases "st = t_status t")
  case True
  then have "t \<in> set (columnOf ts p st)" using assms by (simp add: columnOf_def inColumn_def)
  from ranked_closed [OF ranksDenseD [OF assms(1)] distinct_boardOf [OF assms(1)] this refl]
  show ?thesis by (simp add: True boardRemove_def)
next
  case False
  have "t_id t \<notin> set (boardOf ts p st)"
    using False same_id [OF assms(1,2)] by (auto simp: set_boardOf columnOf_def inColumn_def)
  from ranked_others_same [OF ranksDenseD [OF assms(1)] this] False
  show ?thesis using ranksDenseD [OF assms(1)] by (simp add: boardRemove_def othersOf_other)
qed

lemma remove_board:
  assumes "ranksDense ts" and "t \<in> set ts" and "t_projectId t = p"
    and "ts' = closed p (t_status t) (t_rank t) (filter (\<lambda>u. t_id u \<noteq> t_id t) ts)"
  shows "newBoard ts ts' p (boardRemove (t_id t) (boardOf ts p))"
proof (rule newBoardI [OF assms(1)])
  have f: "columnOf (filter (\<lambda>u. t_id u \<noteq> t_id t) ts) q s = othersOf ts q s (t_id t)" for q s
    by (simp add: othersOf_def columnOf_def conj_commute)
  show "distinct (map t_id ts')"
    using assms(1) by (simp add: assms(4) ranksDense_def distinct_map_filterI del: set_map)
  show "ranked (columnOf ts' p st) (boardRemove (t_id t) (boardOf ts p) st)" for st
    using ranked_gone [OF assms(1-3)] by (simp add: assms(4) columnOf_closed f othersOf_closed)
  fix q st
  assume q: "q \<noteq> p"
  then have "columnOf ts' q st = othersOf ts q st (t_id t)"
    by (simp add: assms(4) columnOf_other f)
  moreover have "t_id t \<notin> set (boardOf ts q st)"
    using q assms(3) same_id [OF assms(1,2)] by (auto simp: set_boardOf columnOf_def inColumn_def)
  ultimately show "columnOf ts' q st = columnOf ts q st"
    using ranked_others_same [OF ranksDenseD [OF assms(1)]] by simp
qed

lemma opened_map: "t \<in> set ts \<Longrightarrow> \<not> ex t \<Longrightarrow> t \<in> set (opened p st k ex ts)"
  by (force simp: opened_def)

lemma closed_self: "t \<in> set ts \<Longrightarrow> t \<in> set (closed p st (t_rank t) ts)"
  by (force simp: closed_def)

lemma move_board:
  fixes target :: task_status and wanted :: "int option"
  assumes dense: "ranksDense ts" and t: "t \<in> set ts" "t_id t = i" "t_projectId t = p"
    and f: "\<And>u. t_id (f u) = t_id u" "\<And>u. t_projectId (f u) = t_projectId u"
  defines "ts1 \<equiv> closed p (t_status t) (t_rank t) ts"
  defines "k \<equiv> int (clampIndex wanted (length (othersOf ts1 p target i)))"
  assumes ts': "ts' = map (\<lambda>u. if t_id u = i then (f u)\<lparr>t_status := target, t_rank := k\<rparr> else u)
     (opened p target k (\<lambda>u. t_id u \<noteq> i) ts1)"
  shows "newBoard ts ts' p (boardMove target wanted i (boardOf ts p))"
    and "k = int (clampIndex wanted (length (without i (boardOf ts p target))))"
proof -
  let ?b = "boardRemove i (boardOf ts p)" and ?g = "\<lambda>u. (f u)\<lparr>t_status := target, t_rank := k\<rparr>"
  let ?ts2 = "opened p target k (\<lambda>u. t_id u \<noteq> i) ts1"
  have gone: "ranked (othersOf ts1 p st i) (?b st)" for st
    using ranked_gone [OF dense t(1,3)] by (simp add: ts1_def t(2))
  have len: "length (othersOf ts1 p target i) = length (?b target)"
    using gone by (rule ranked_length)
  then show kb: "k = int (clampIndex wanted (length (without i (boardOf ts p target))))"
    by (simp add: k_def boardRemove_def)
  have t2: "t \<in> set ?ts2" using t by (simp add: opened_map closed_self ts1_def)
  have ids: "map t_id ?ts2 = map t_id ts" by (simp add: ts1_def del: set_map)
  have dist: "distinct (map t_id ?ts2)" using dense unfolding ids by (simp add: ranksDense_def)
  have ts'': "ts' = map (\<lambda>u. if t_id u = i then ?g u else u) ?ts2" by (simp add: ts')
  note cols = map_one_column [OF dist t2 t(2), of ?g p, folded ts'', simplified, OF _ _ t(3)]
  show "newBoard ts ts' p (boardMove target wanted i (boardOf ts p))"
  proof (rule newBoardI [OF dense])
    have "t_id \<circ> (\<lambda>u. if t_id u = i then ?g u else u) = t_id" by (auto simp: fun_eq_iff f(1))
    then have "map t_id ts' = map t_id ?ts2" by (simp add: ts' del: opened_ids)
    then show "distinct (map t_id ts')" using dist by simp
    show "columnOf ts' q st = columnOf ts q st" if "q \<noteq> p" for q st
      using that cols(2) t f by (simp add: columnOf_other ts1_def)
    show "ranked (columnOf ts' p st) (boardMove target wanted i (boardOf ts p) st)" for st
    proof (cases "st = target")
      case True
      have "ranked (columnOf ts' p target)
          (insertAt (clampIndex wanted (length (?b target))) i (?b target))"
        by (rule ranked_opened [where ts = ts1 and p = p and st = target and r = "?g t"
              and ex = "\<lambda>u. t_id u \<noteq> i"])
          (use cols(1) [of target] t f gone kb len in
            \<open>simp_all add: clampIndex_le slot_def k_def boardRemove_def in_othersOf\<close>)
      then show ?thesis by (simp add: True boardMove_def boardInsert_def)
    next
      case False
      have "mset (columnOf ts' p st) = mset (othersOf ts1 p st i)"
        using False cols(1) [of st] t f by (simp add: othersOf_other)
      with gone [of st] have "ranked (columnOf ts' p st) (?b st)"
        by (simp add: ranked_def)
      then show ?thesis by (simp add: False boardMove_def boardInsert_def)
    qed
  qed
qed

end
