(* ===== verification/TaskStore.thy ===== *)
theory TaskStore
  imports TaskRanks
begin

text \<open>
  The interface of a store of ranked tasks: it answers the board events one at a time, keeps an
  invariant, and its abstract board changes exactly as the event says. The server's task table
  is one such store (this theory: its steps are the serializable transactions of \<open>Tasks\<close>), the
  browser's reducer is another (\<open>TaskBoard\<close>). The handlers are shown to keep the invariant
  whatever runs between their checks and their transaction.
\<close>

section \<open>Board events\<close>

datatype board_event =
    Inserted task_status int ident
  | Moved task_status int ident
  | Removed ident
  | Edited ident

fun applyEvent :: "board_event \<Rightarrow> board \<Rightarrow> board" where
  "applyEvent (Inserted st k i) b = boardInsert st (Some k) i b"
| "applyEvent (Moved st k i) b = boardMove st (Some k) i b"
| "applyEvent (Removed i) b = boardRemove i b"
| "applyEvent (Edited i) b = b"

fun runs :: "('s \<Rightarrow> 'e \<Rightarrow> 's \<Rightarrow> bool) \<Rightarrow> 's \<Rightarrow> 'e list \<Rightarrow> 's \<Rightarrow> bool" where
  "runs step s [] s' \<longleftrightarrow> s' = s"
| "runs step s (e # es) s' \<longleftrightarrow> (\<exists>m. step s e m \<and> runs step m es s')"

locale board_store =
  fixes inv :: "'s \<Rightarrow> bool"
    and view :: "'s \<Rightarrow> board"
    and step :: "'s \<Rightarrow> board_event \<Rightarrow> 's \<Rightarrow> bool"
  assumes step_inv: "inv s \<Longrightarrow> step s e s' \<Longrightarrow> inv s'"
    and step_view: "inv s \<Longrightarrow> step s e s' \<Longrightarrow> view s' = applyEvent e (view s)"
begin

lemma runs_inv: "runs step s es s' \<Longrightarrow> inv s \<Longrightarrow> inv s'"
  by (induction es arbitrary: s) (auto dest: step_inv)

lemma runs_view: "runs step s es s' \<Longrightarrow> inv s \<Longrightarrow> view s' = fold applyEvent es (view s)"
proof (induction es arbitrary: s)
  case (Cons e es)
  then obtain m where "step s e m" "runs step m es s'" by auto
  then show ?case using Cons.IH [of m] Cons.prems(2) step_inv step_view by simp
qed simp

end

text \<open>
  A source announces only events that make sense on its board: an insertion of a new id, a
  move of an id that is there. A sink can answer each such event, an insertion only when it is at
  the end of the column. A sink that starts with the board of a source and is told its
  events shows the same board after each of them.
\<close>

definition onBoard :: "ident \<Rightarrow> board \<Rightarrow> bool" where
  "onBoard i b \<longleftrightarrow> (\<exists>st. i \<in> set (b st))"

fun wellPosed :: "board \<Rightarrow> board_event \<Rightarrow> bool" where
  "wellPosed b (Inserted st k i) \<longleftrightarrow> \<not> onBoard i b"
| "wellPosed b (Moved st k i) \<longleftrightarrow> onBoard i b"
| "wellPosed b (Removed i) \<longleftrightarrow> True"
| "wellPosed b (Edited i) \<longleftrightarrow> True"

fun appends :: "board \<Rightarrow> board_event \<Rightarrow> bool" where
  "appends b (Inserted st k i) \<longleftrightarrow> k = int (length (b st))"
| "appends b (Moved st k i) \<longleftrightarrow> True"
| "appends b (Removed i) \<longleftrightarrow> True"
| "appends b (Edited i) \<longleftrightarrow> True"

fun allAppend :: "board \<Rightarrow> board_event list \<Rightarrow> bool" where
  "allAppend b [] \<longleftrightarrow> True"
| "allAppend b (e # es) \<longleftrightarrow> appends b e \<and> allAppend (applyEvent e b) es"

locale board_source = board_store +
  assumes step_posed: "inv s \<Longrightarrow> step s e s' \<Longrightarrow> wellPosed (view s) e"

locale board_sink = board_store +
  assumes step_total: "inv s \<Longrightarrow> wellPosed (view s) e \<Longrightarrow> appends (view s) e \<Longrightarrow> \<exists>s'. step s e s'"

locale board_pair =
  server: board_source sinv sview sstep + client: board_sink cinv cview cstep
  for sinv :: "'s \<Rightarrow> bool" and sview sstep and cinv :: "'c \<Rightarrow> bool" and cview cstep
begin

lemma in_sync:
  assumes "runs sstep s es s'" and "runs cstep c es c'" and "sinv s" and "cinv c"
    and "cview c = sview s"
  shows "cview c' = sview s'"
  using assms by (simp add: server.runs_view client.runs_view)

lemma client_follows:
  "runs sstep s es s' \<Longrightarrow> sinv s \<Longrightarrow> cinv c \<Longrightarrow> cview c = sview s \<Longrightarrow> allAppend (sview s) es \<Longrightarrow>
   \<exists>c'. runs cstep c es c'"
proof (induction es arbitrary: s c)
  case Nil
  have "runs cstep c [] c" by simp
  then show ?case by blast
next
  case (Cons e es)
  from Cons.prems(1) obtain m where m: "sstep s e m" "runs sstep m es s'" by auto
  obtain d where d: "cstep c e d"
    using client.step_total [OF Cons.prems(3)] server.step_posed [OF Cons.prems(2) m(1)] Cons.prems(4,5)
    by auto
  have "cview d = sview m"
    using server.step_view [OF Cons.prems(2) m(1)] client.step_view [OF Cons.prems(3) d]
      Cons.prems(4) by simp
  then have "\<exists>c'. runs cstep d es c'"
    using Cons.IH [OF m(2) server.step_inv [OF Cons.prems(2) m(1)]
      client.step_inv [OF Cons.prems(3) d]] Cons.prems(5)
      server.step_view [OF Cons.prems(2) m(1)] by simp
  then show ?case using d by auto
qed

end

section \<open>The transactions\<close>

lemma clampIndex_Some [simp]: "clampIndex (Some (int (clampIndex x n))) n = clampIndex x n"
  by (auto simp: clampIndex_def split: option.split)

lemma applyTaskFields_simps [simp]:
  "t_id (applyTaskFields dto t) = t_id t" "t_projectId (applyTaskFields dto t) = t_projectId t"
  "t_status (applyTaskFields dto t) = t_status t" "t_rank (applyTaskFields dto t) = t_rank t"
  by (simp_all add: applyTaskFields_def)

text \<open>\<open>createTaskTx\<close> is \<open>boardInsert\<close> at the clamped rank.\<close>

lemma createTaskTx_board:
  assumes "createTaskTx p dto actor w = (Inr row, w')" and "ranksDense (tasks w)"
  shows "newBoard (tasks w) (tasks w') p
     (boardInsert (ctd_status dto) (Some (ctd_rank dto)) (t_id row) (boardOf (tasks w) p))"
    and "t_rank row = int (clampIndex (Some (ctd_rank dto))
      (length (boardOf (tasks w) p (ctd_status dto))))"
proof -
  note tx = createTaskTx_tasks [OF assms(1)]
  have r: "t_projectId row = p" "t_status row = ctd_status dto"
    "t_rank row = int (clampIndex (Some (ctd_rank dto)) (length (columnOf (tasks w) p (ctd_status dto))))"
    using tx by (auto simp: newTaskRow_def dest: arg_cong [where f = t_projectId]
        arg_cong [where f = t_status] arg_cong [where f = t_rank])
  show "t_rank row = int (clampIndex (Some (ctd_rank dto))
      (length (boardOf (tasks w) p (ctd_status dto))))"
    by (simp add: r(3) length_boardOf)
  show "newBoard (tasks w) (tasks w') p
     (boardInsert (ctd_status dto) (Some (ctd_rank dto)) (t_id row) (boardOf (tasks w) p))"
    using tx r by (intro create_board [OF assms(2)]) auto
qed

text \<open>\<open>moveTaskTx\<close> is \<open>boardMove\<close>, and the rank it reports is the index in the target column.\<close>

lemma moveTaskTx_board:
  assumes "moveTaskTx i p so wanted dto actor ids w = (Inr (k, target), w')"
    and "ranksDense (tasks w)" and "\<forall>t\<in>set (tasks w). t_id t = i \<longrightarrow> t_projectId t = p"
  shows "newBoard (tasks w) (tasks w') p (boardMove target wanted i (boardOf (tasks w) p))"
    and "k = int (clampIndex wanted (length (without i (boardOf (tasks w) p target))))"
proof -
  obtain t where t: "List.find (\<lambda>t. t_id t = i) (tasks w) = Some t"
    and k: "k = int (clampIndex wanted
      (length (othersOf (closed p (t_status t) (t_rank t) (tasks w)) p target i)))"
    and ts': "tasks w' = map (\<lambda>t. if t_id t = i
        then (applyTaskFields dto t)\<lparr>t_status := target, t_rank := k\<rparr> else t)
        (opened p target k (\<lambda>t. t_id t \<noteq> i) (closed p (t_status t) (t_rank t) (tasks w)))"
    using moveTaskTx_tasks [OF assms(1)] by (auto simp: Let_def)
  have tt: "t \<in> set (tasks w)" "t_id t = i" "t_projectId t = p"
    using find_SomeD [OF t] assms(3) by auto
  note m = move_board [OF assms(2) tt, of "applyTaskFields dto" "tasks w'" wanted target,
      folded k, OF _ _ ts']
  show "newBoard (tasks w) (tasks w') p (boardMove target wanted i (boardOf (tasks w) p))"
    "k = int (clampIndex wanted (length (without i (boardOf (tasks w) p target))))"
    by (rule m; simp)+
qed

lemma removeTaskTx_board:
  assumes "removeTaskTx i p actor w = (Inr v, w')"
    and "ranksDense (tasks w)" and "\<forall>t\<in>set (tasks w). t_id t = i \<longrightarrow> t_projectId t = p"
  shows "newBoard (tasks w) (tasks w') p (boardRemove i (boardOf (tasks w) p))"
proof -
  obtain t where t: "List.find (\<lambda>t. t_id t = i) (tasks w) = Some t"
    and ts': "tasks w' = closed p (t_status t) (t_rank t) (filter (\<lambda>t. t_id t \<noteq> i) (tasks w))"
    using removeTaskTx_tasks [OF assms(1)] by auto
  have tt: "t \<in> set (tasks w)" "t_id t = i" "t_projectId t = p"
    using find_SomeD [OF t] assms(3) by auto
  show ?thesis
    using remove_board [OF assms(2) tt(1,3), of "tasks w'"] ts' by (simp add: tt(2))
qed

text \<open>An edit of the other fields leaves every board as it is.\<close>

lemma edit_columnOf:
  "columnOf (map (\<lambda>t. if t_id t = i then applyTaskFields dto t else t) ts) p st =
   map (\<lambda>t. if t_id t = i then applyTaskFields dto t else t) (columnOf ts p st)"
  unfolding columnOf_def by (rule filter_map_update) (simp add: inColumn_def)

lemma edit_board:
  assumes "ranksDense ts" and "ts' = map (\<lambda>t. if t_id t = i then applyTaskFields dto t else t) ts"
  shows "ranksDense ts' \<and> boardOf ts' = boardOf ts"
proof -
  have s: "map slot (map (\<lambda>t. if t_id t = i then applyTaskFields dto t else t) col) = map slot col"
    for col by (simp add: slot_def)
  have "ranked (columnOf ts' p st) (boardOf ts p st)" for p st
    using ranksDenseD [OF assms(1), of p st] unfolding ranked_def assms(2) edit_columnOf s .
  then have "represents ts' p (boardOf ts p)" for p by (simp add: represents_def)
  moreover have "map t_id ts' = map t_id ts" by (simp add: assms(2))
  ultimately show ?thesis
    using assms(1) by (metis ext ranksDense_iff represents_iff)
qed

section \<open>The server as a store\<close>

definition taskBelongs :: "ident \<Rightarrow> ident \<Rightarrow> task_row list \<Rightarrow> bool" where
  "taskBelongs i p ts \<longleftrightarrow> (\<forall>t\<in>set ts. t_id t = i \<longrightarrow> t_projectId t = p)"

inductive serverStep :: "ident \<Rightarrow> world \<Rightarrow> board_event \<Rightarrow> world \<Rightarrow> bool" for p where
  created: "createTaskTx p dto actor w = (Inr row, w') \<Longrightarrow>
     serverStep p w (Inserted (t_status row) (t_rank row) (t_id row)) w'"
| moved: "moveTaskTx i p so wanted dto actor ids w = (Inr (k, st), w') \<Longrightarrow>
     taskBelongs i p (tasks w) \<Longrightarrow> serverStep p w (Moved st k i) w'"
| removed: "removeTaskTx i p actor w = (Inr v, w') \<Longrightarrow> taskBelongs i p (tasks w) \<Longrightarrow>
     serverStep p w (Removed i) w'"
| edited: "updateTaskTx i p dto actor ids w = (r, w') \<Longrightarrow> serverStep p w (Edited i) w'"

inductive_cases serverStep_elims:
  "serverStep p w (Inserted st k i) w'" "serverStep p w (Moved st k i) w'"
  "serverStep p w (Removed i) w'" "serverStep p w (Edited i) w'"

lemma boardInsert_clamped:
  "k = int (clampIndex x (length (b st))) \<Longrightarrow> boardInsert st (Some k) i b = boardInsert st x i b"
  by (simp add: boardInsert_def)

lemma serverStep_newBoard:
  assumes "serverStep p w e w'" and "ranksDense (tasks w)"
  shows "newBoard (tasks w) (tasks w') p (applyEvent e (boardOf (tasks w) p))"
  using assms
proof cases
  case (created dto actor row)
  have "t_status row = ctd_status dto"
    using createTaskTx_tasks [OF created(2)] by (auto simp: newTaskRow_def dest: arg_cong [where f = t_status])
  then show ?thesis
    using createTaskTx_board [OF created(2) assms(2)] by (simp add: created(1) boardInsert_clamped)
next
  case (moved i so wanted dto actor ids k st)
  then have "\<forall>t\<in>set (tasks w). t_id t = i \<longrightarrow> t_projectId t = p" by (simp add: taskBelongs_def)
  note m = moveTaskTx_board [OF moved(2) assms(2) this]
  have "boardMove st (Some k) i (boardOf (tasks w) p) = boardMove st wanted i (boardOf (tasks w) p)"
    unfolding boardMove_def by (rule boardInsert_clamped) (simp add: m(2) boardRemove_def)
  then show ?thesis using m(1) by (simp add: moved(1))
next
  case (removed i actor v)
  then show ?thesis using removeTaskTx_board [OF removed(2) assms(2)] by (simp add: taskBelongs_def)
next
  case (edited i dto actor ids r)
  then have "tasks w' = tasks w \<or>
      tasks w' = map (\<lambda>t. if t_id t = i then applyTaskFields dto t else t) (tasks w)"
    using updateTaskTx_tasks [of i p dto actor ids w w'] by simp
  then show ?thesis
    using edit_board [OF assms(2)] assms(2) by (auto simp: edited(1) newBoard_def)
qed

lemma onBoard_iff:
  "onBoard i (boardOf ts p) \<longleftrightarrow> (\<exists>t\<in>set ts. t_id t = i \<and> t_projectId t = p)"
  by (auto simp: onBoard_def set_boardOf columnOf_def inColumn_def)

lemma serverStep_posed:
  assumes "serverStep p w e w'"
  shows "wellPosed (boardOf (tasks w) p) e"
  using assms
proof cases
  case (created dto actor row)
  have "t_id row \<notin> set (map t_id (tasks w))"
    using createTaskTx_tasks [OF created(2)] by blast
  then have "t_id t \<noteq> t_id row" if "t \<in> set (tasks w)" for t
    using that by (auto simp: image_iff)
  then show ?thesis by (simp add: created(1) onBoard_iff)
next
  case (moved i so wanted dto actor ids k st)
  then show ?thesis
    using moveTaskTx_tasks [OF moved(2)] moved(3)
    by (auto simp: onBoard_iff taskBelongs_def dest!: find_SomeD)
qed simp_all

interpretation server: board_source
  "\<lambda>w. ranksDense (tasks w)" "\<lambda>w. boardOf (tasks w) p" "serverStep p" for p
  by unfold_locales (auto simp: newBoard_def dest: serverStep_newBoard serverStep_posed)

section \<open>The handlers\<close>

text \<open>
  What may run between a handler's checks and its transaction: anything that keeps the ranks
  dense and never hands a task's id to another project.
\<close>

definition benign :: "(world \<Rightarrow> world) \<Rightarrow> bool" where
  "benign gap \<longleftrightarrow> (\<forall>w. ranksDense (tasks w) \<longrightarrow> ranksDense (tasks (gap w)) \<and>
     (\<forall>t\<in>set (tasks w). taskBelongs (t_id t) (t_projectId t) (tasks (gap w))))"

definition soundFor :: "ident \<Rightarrow> ident \<Rightarrow> task_row list \<Rightarrow> bool" where
  "soundFor i p ts \<longleftrightarrow> ranksDense ts \<and> taskBelongs i p ts"

lemma keeps_transactionI:
  "(\<And>w a w'. I w \<Longrightarrow> m w = (Inr a, w') \<Longrightarrow> I w') \<Longrightarrow> keeps I (transaction m)"
  by (rule keepsI) (auto simp: transaction_def split: prod.splits sum.splits)

lemma newBoard_sound: "newBoard ts ts' p b \<Longrightarrow> ranksDense ts'"
  by (simp add: newBoard_def)

lemma taskBelongs_map:
  "(\<And>t. t_id (f t) = t_id t \<and> t_projectId (f t) = t_projectId t) \<Longrightarrow>
   taskBelongs i p (map f ts) = taskBelongs i p ts"
  by (simp add: taskBelongs_def)

lemma taskBelongs_shift [simp]:
  "taskBelongs i p (opened q st k ex ts) = taskBelongs i p ts"
  "taskBelongs i p (closed q st r ts) = taskBelongs i p ts"
  by (simp_all add: opened_def closed_def taskBelongs_map)

lemma taskBelongs_filter: "taskBelongs i p ts \<Longrightarrow> taskBelongs i p (filter P ts)"
  by (simp add: taskBelongs_def)

lemma sound_move: "keeps (onTasks (soundFor i p)) (transaction (moveTaskTx i p so wanted dto actor ids))"
proof (rule keeps_transactionI, goal_cases)
  case (1 w a w')
  obtain k st where a: "a = (k, st)" by (cases a)
  have s: "ranksDense (tasks w)" "taskBelongs i p (tasks w)"
    using 1(1) by (simp_all add: onTasks_def soundFor_def)
  have m: "moveTaskTx i p so wanted dto actor ids w = (Inr (k, st), w')" using 1(2) a by simp
  have "ranksDense (tasks w')"
    using newBoard_sound [OF moveTaskTx_board(1) [OF m s(1)]] s(2) by (simp add: taskBelongs_def)
  moreover have "taskBelongs i p (tasks w')"
    using moveTaskTx_tasks [OF m] s(2) by (auto simp: Let_def taskBelongs_map)
  ultimately show ?case by (simp add: onTasks_def soundFor_def)
qed

lemma sound_edit: "soundFor i p ts \<Longrightarrow>
  soundFor i p (map (\<lambda>t. if t_id t = j then applyTaskFields dto t else t) ts)"
  using edit_board [OF _ refl, of ts j dto] by (simp add: soundFor_def taskBelongs_map)

lemma sound_updateTx: "keeps (onTasks (soundFor i p)) (transaction (updateTaskTx i p dto actor ids))"
proof (intro keeps_transaction keepsI)
  fix w
  show "onTasks (soundFor i p) w \<Longrightarrow> onTasks (soundFor i p) (snd (updateTaskTx i p dto actor ids w))"
    using updateTaskTx_tasks [OF refl, of i p dto actor ids w] sound_edit
    by (auto simp: onTasks_def)
qed

lemma sound_updateOne:
  "keeps (onTasks (soundFor i p)) (updateOne tasks tasks_update (\<lambda>t. t_id t = i) (applyTaskFields dto))"
  using sound_edit by (intro keeps_updateOne) (simp add: onTasks_def)

lemma reads_task_checks:
  "reads (task_assertValidDateRange s e)" "reads (task_assertCategoryBelongsToProject p c)"
  "reads (assertAssigneesAreProjectMembers p ids)" "reads (assertMembership p u)"
  "reads (task_findByIdForProject i p)" "reads (task_findById i p u)" "reads (ret a)"
  by (auto simp: reads_iff_keeps intro!: keeps_rules)

lemma find_belongs:
  assumes "ranksDense ts" and "List.find (\<lambda>t. t_id t = i \<and> t_projectId t = p) ts = Some t"
  shows "t \<in> set ts" "t_id t = i" "t_projectId t = p"
  using find_SomeD [OF assms(2)] by simp_all

lemma keeps_moveTask [keeps_rules]:
  "keeps (onTasks (soundFor i p)) (moveTask i p so wanted dto actor ids)"
  unfolding moveTask_def
  by (intro keeps_andThen sound_move) (auto split: prod.split intro!: keeps_rules)

lemma keeps_replaceAssignees [keeps_rules]:
  "keeps (onTasks Q) (replaceAssignees i p ids)"
  unfolding replaceAssignees_def by (intro keeps_rules)

lemma keeps_task_notices [keeps_rules]:
  "keeps (onTasks Q) (notifyStatusChange p as u title st)"
  "keeps (onTasks Q) (notifyNewTaskAssignees p as bs u title)"
  "keeps (onTasks Q) (notifyRemovedTaskAssignees p as bs u title)"
  unfolding notifyStatusChange_def notifyNewTaskAssignees_def notifyRemovedTaskAssignees_def
  by (intro keeps_rules)+

lemma createTx_dense: "keeps (onTasks ranksDense) (transaction (createTaskTx p dto actor))"
proof (rule keeps_transactionI)
  fix w row w'
  show "onTasks ranksDense w \<Longrightarrow> createTaskTx p dto actor w = (Inr row, w') \<Longrightarrow> onTasks ranksDense w'"
    using newBoard_sound [OF createTaskTx_board(1)] by (simp add: onTasks_def)
qed

lemma task_create_dense:
  assumes "benign gap"
  shows "keeps (onTasks ranksDense) (task_createAs gap p dto actor)"
proof -
  have g: "keeps (onTasks ranksDense) (modify gap)"
    using assms by (intro keeps_modify) (simp add: onTasks_def benign_def)
  have a: "keeps (onTasks ranksDense) (case actor of
       User u \<Rightarrow> andThen (assertMembership p u) (\<lambda>_. ret ()) | Machine _ \<Rightarrow> ret ())"
    "keeps (onTasks ranksDense) (case actor of
       User _ \<Rightarrow> replaceAssignees i p ids | Machine _ \<Rightarrow> ret ())" for i ids
    by (cases actor; simp; intro keeps_rules)+
  show ?thesis
    unfolding task_createAs_def by (intro keeps_rules a g createTx_dense)
qed

text \<open>Past the gap, the task a handler looked up still belongs to the project if it exists.\<close>

lemma gap_sound:
  "benign gap \<Longrightarrow> ranksDense (tasks w) \<Longrightarrow> t \<in> set (tasks w) \<Longrightarrow>
   onTasks (soundFor (t_id t) (t_projectId t)) (gap w)"
  by (simp add: benign_def onTasks_def soundFor_def)

lemma gap_then:
  assumes "benign gap" and "ranksDense (tasks w)" and "t \<in> set (tasks w)"
    and "keeps (onTasks (soundFor (t_id t) (t_projectId t))) m"
  shows "ranksDense (tasks (snd (andThen (modify gap) (\<lambda>_. m) w)))"
  using keepsD [OF assms(4) gap_sound [OF assms(1-3)]]
  by (simp add: andThen_run modify_run onTasks_def soundFor_def)

definition lookupTask :: "ident \<Rightarrow> ident \<Rightarrow> task_actor \<Rightarrow> task_view service" where
  "lookupTask i p actor = (case actor of User u \<Rightarrow> task_findById i p u
     | Machine _ \<Rightarrow> task_findByIdForProject i p)"

lemma lookupTask_reads: "reads (lookupTask i p actor)"
  by (cases actor) (simp_all add: lookupTask_def reads_task_checks)

lemma lookupTask_found:
  "lookupTask i p actor w = (Inr v, w') \<Longrightarrow> tv_task v \<in> set (tasks w) \<and>
   t_id (tv_task v) = i \<and> t_projectId (tv_task v) = p"
  by (cases actor)
     (auto simp: lookupTask_def task_findById_def run_simps mapTask_def dest!: find_SomeD
       split: option.splits prod.splits sum.splits)

lemma task_remove_dense:
  assumes "benign gap" and "ranksDense (tasks w)"
  shows "ranksDense (tasks (snd (task_removeAs gap i p actor w)))"
  unfolding task_removeAs_def lookupTask_def [symmetric]
proof (rule reads_then [OF lookupTask_reads, where I = "\<lambda>w. ranksDense (tasks w)"])
  show "ranksDense (tasks w)" by fact
next
  fix v
  assume "lookupTask i p actor w = (Inr v, w)"
  then have v: "tv_task v \<in> set (tasks w)" "t_id (tv_task v) = i" "t_projectId (tv_task v) = p"
    using lookupTask_found by blast+
  have "keeps (onTasks (soundFor i p)) (transaction (removeTaskTx i p actor))"
  proof (rule keeps_transactionI)
    fix w v w'
    assume s: "onTasks (soundFor i p) w" and r: "removeTaskTx i p actor w = (Inr v, w')"
    have "ranksDense (tasks w')"
      using newBoard_sound [OF removeTaskTx_board [OF r]] s
      by (simp add: onTasks_def soundFor_def taskBelongs_def)
    moreover have "taskBelongs i p (tasks w')"
      using removeTaskTx_tasks [OF r] s by (auto simp: onTasks_def soundFor_def taskBelongs_filter)
    ultimately show "onTasks (soundFor i p) w'" by (simp add: onTasks_def soundFor_def)
  qed
  then have k: "keeps (onTasks (soundFor i p)) (andThen (transaction (removeTaskTx i p actor)) (\<lambda>task.
      andThen (emitToProject p ''task:deleted'' (P_taskDeleted i p) None) (\<lambda>_. ret task)))"
    by (rule keeps_andThen) (intro keeps_rules)
  show "ranksDense (tasks (snd (andThen (modify gap) (\<lambda>_. andThen (transaction (removeTaskTx i p actor))
      (\<lambda>task. andThen (emitToProject p ''task:deleted'' (P_taskDeleted i p) None)
        (\<lambda>_. ret task))) w)))"
    by (rule gap_then [OF assms v(1)]) (simp add: v k)
qed

lemma task_update_dense:
  assumes "benign gap" and "ranksDense (tasks w)"
  shows "ranksDense (tasks (snd (task_updateAs gap i dto p actor w)))"
  unfolding task_updateAs_def lookupTask_def [symmetric] Let_def
proof (rule reads_then [OF lookupTask_reads, where I = "\<lambda>w. ranksDense (tasks w)"],
    rule assms(2), goal_cases)
  case (1 v)
  then have v: "tv_task v \<in> set (tasks w)" "t_id (tv_task v) = i" "t_projectId (tv_task v) = p"
    using lookupTask_found by blast+
  have c: "reads (case utd_categoryId dto of None \<Rightarrow> ret ()
      | Some c \<Rightarrow> task_assertCategoryBelongsToProject p c)"
    "reads (case utd_assigneeIds dto of None \<Rightarrow> ret ()
      | Some ids \<Rightarrow> assertAssigneesAreProjectMembers p ids)"
    by (simp_all split: option.split add: reads_task_checks)
  have u: "keeps (onTasks (soundFor i p)) (case actor of
       Machine _ \<Rightarrow> transaction (updateTaskTx i p dto actor ids)
     | User _ \<Rightarrow> andThen (updateOne tasks tasks_update (\<lambda>t. t_id t = i) (applyTaskFields dto))
         (\<lambda>_. ret ()))" for ids
    by (cases actor) (simp_all add: sound_updateTx keeps_andThen sound_updateOne keeps_ret)
  have r: "keeps (onTasks (soundFor i p)) (case actor of
       User _ \<Rightarrow> replaceAssignees i p ids | Machine _ \<Rightarrow> ret ())" for ids
    by (cases actor) (simp_all add: keeps_replaceAssignees keeps_ret)
  have n: "keeps (onTasks (soundFor i p)) (promiseAll [notifyNewTaskAssignees p as bs x y,
      notifyRemovedTaskAssignees p as bs x y] (\<lambda>m. m))" for as bs x y
    by (rule keeps_promiseAll_list) (auto intro: keeps_task_notices)
  note k = u r n keeps_moveTask keeps_task_notices keeps_onTasks_quiet keeps_task_reads
    keeps_andThen keeps_if keeps_option keeps_whenever keeps_ret
  show ?case
    apply (rule reads_then [where I = "\<lambda>w. ranksDense (tasks w)"], rule reads_task_checks, rule assms(2))
    apply (rule reads_then [where I = "\<lambda>w. ranksDense (tasks w)"], rule c, rule assms(2))
    apply (rule reads_then [where I = "\<lambda>w. ranksDense (tasks w)"], rule c, rule assms(2))
    apply (rule gap_then [OF assms v(1)])
    apply (simp only: v)
    apply (intro k)
    done
qed

section \<open>Properties\<close>

text \<open>C1 Every serializable transaction of the task service (create, move, delete, edit) turns a
  table with dense ranks into one with dense ranks, changes the project's board exactly as its
  event says (insertion at the clamped rank, move, removal, nothing) and leaves the columns of
  every other project as they are.\<close>

theorem transactions_refine_board:
  assumes "serverStep p w e w'" and "ranksDense (tasks w)"
  shows "ranksDense (tasks w') \<and> boardOf (tasks w') p = applyEvent e (boardOf (tasks w) p) \<and>
     (\<forall>q. q \<noteq> p \<longrightarrow> boardOf (tasks w') q = boardOf (tasks w) q)"
  using serverStep_newBoard [OF assms] by (simp add: newBoard_def)

definition sampleTaskDto :: create_task_dto where
  "sampleTaskDto = \<lparr>ctd_title = ''Parser'', ctd_categoryId = ''cat'', ctd_status = REVIEW,
     ctd_priority = HIGH, ctd_rank = 5, ctd_startAt = None, ctd_endAt = None,
     ctd_description = None, ctd_notes = None, ctd_onCalendar = False, ctd_assigneeIds = None\<rparr>"

lemma ranksDense_empty: "ranksDense (tasks emptyWorld)"
  by (simp add: ranksDense_def dense_def columnOf_def emptyWorld_def)

lemma sample_create:
  "\<exists>w'. createTaskTx ''p'' sampleTaskDto (User ''u'') emptyWorld =
     (Inr (newTaskRow ''p'' sampleTaskDto 0 ''id''), w')"
  by (simp add: createTaskTx_def openRankSlot_run run_simps emptyWorld_def columnOf_def clampIndex_def
      sampleTaskDto_def machineAssignees_def recordMachineAction_def newTaskRow_def Let_def opened_def)

theorem transactions_refine_board_witness:
  "\<exists>w' :: world. ranksDense (tasks w') \<and> boardOf (tasks w') ''p'' REVIEW = [''id'']"
proof -
  obtain w' where c: "createTaskTx ''p'' sampleTaskDto (User ''u'') emptyWorld =
     (Inr (newTaskRow ''p'' sampleTaskDto 0 ''id''), w')" using sample_create by blast
  note s = transactions_refine_board [OF serverStep.created [OF c] ranksDense_empty]
  have "boardOf (tasks emptyWorld) ''p'' = (\<lambda>_. [])"
    by (simp add: boardOf_def columnIds_def columnOf_def emptyWorld_def fun_eq_iff)
  then show ?thesis
    using s by (intro exI [of _ w'])
      (simp add: newTaskRow_def sampleTaskDto_def boardInsert_def insertAt_def clampIndex_def)
qed

text \<open>C2 The task handlers (create, update, delete; for a member or a machine token) keep every
  column's ranks dense, whether they succeed or throw, and whatever well-behaved requests run
  between their checks and their transaction.\<close>

theorem task_handlers_keep_ranks_dense:
  assumes "benign gap" and "ranksDense (tasks w)"
  shows "ranksDense (tasks (snd (task_createAs gap p dto actor w))) \<and>
     ranksDense (tasks (snd (task_updateAs gap i edto p actor w))) \<and>
     ranksDense (tasks (snd (task_removeAs gap i p actor w)))"
  using keepsD [OF task_create_dense [OF assms(1)], of w] task_update_dense [OF assms]
    task_remove_dense [OF assms] assms(2) by (simp add: onTasks_def)

lemma benign_id: "benign (\<lambda>w. w)"
proof -
  have "taskBelongs (t_id t) (t_projectId t) (tasks w)" if "ranksDense (tasks w)" "t \<in> set (tasks w)"
    for w t using same_id [OF that(1)] that(2) by (auto simp: taskBelongs_def)
  then show ?thesis by (auto simp: benign_def)
qed

theorem task_handlers_keep_ranks_dense_witness:
  "ranksDense (tasks (snd (task_createAs (\<lambda>w. w) ''p'' sampleTaskDto (Machine ''m'') emptyWorld)))"
  using task_handlers_keep_ranks_dense [OF benign_id ranksDense_empty] by blast

text \<open>The index that \<open>task:moved\<close> broadcasts is where the card ends up: after a successful move
  the card is at position \<open>k\<close> of the target column, and \<open>k\<close> is the requested rank clamped to the
  column (its end when no rank was asked for).\<close>

lemma moved_rank_is_index:
  assumes "moveTaskTx i p so wanted dto actor ids w = (Inr (k, target), w')"
    and "ranksDense (tasks w)" and "taskBelongs i p (tasks w)"
  shows "0 \<le> k \<and> boardOf (tasks w') p target ! nat k = i \<and>
     k = int (clampIndex wanted (length (without i (boardOf (tasks w) p target))))"
proof -
  have "\<forall>t\<in>set (tasks w). t_id t = i \<longrightarrow> t_projectId t = p" using assms(3) by (simp add: taskBelongs_def)
  note m = moveTaskTx_board [OF assms(1,2) this]
  then show ?thesis
    by (simp add: newBoard_def boardMove_def boardInsert_def boardRemove_def nth_insertAt clampIndex_le)
qed

definition sampleMoveDto :: update_task_dto where
  "sampleMoveDto = \<lparr>utd_title = None, utd_categoryId = None, utd_status = Some COMPLETED,
     utd_priority = None, utd_rank = Some 0, utd_startAt = None, utd_endAt = None,
     utd_description = None, utd_notes = None, utd_onCalendar = None, utd_assigneeIds = None\<rparr>"

definition oneTaskWorld :: world where
  "oneTaskWorld = emptyWorld\<lparr>tasks := [newTaskRow ''p'' sampleTaskDto 0 ''t'']\<rparr>"

lemma oneTask_dense: "ranksDense (tasks oneTaskWorld)"
  by (auto simp: ranksDense_def dense_def columnOf_def oneTaskWorld_def newTaskRow_def)

lemma moved_rank_is_index_sample:
  "\<exists>w'. moveTaskTx ''t'' ''p'' (Some COMPLETED) (Some 3) sampleMoveDto (User ''u'') None oneTaskWorld =
       (Inr (0, COMPLETED), w') \<and> boardOf (tasks w') ''p'' COMPLETED ! 0 = ''t''"
proof -
  have "\<exists>w'. moveTaskTx ''t'' ''p'' (Some COMPLETED) (Some 3) sampleMoveDto (User ''u'') None oneTaskWorld =
       (Inr (0, COMPLETED), w')"
    by (simp add: moveTaskTx_def run_simps oneTaskWorld_def newTaskRow_def sampleTaskDto_def
        openRankSlot_run Let_def columnOf_def closed_def opened_def excluding_def clampIndex_def
        inColumn_def machineAssignees_def recordMachineAction_def orElse_def)
  then obtain w' where m: "moveTaskTx ''t'' ''p'' (Some COMPLETED) (Some 3) sampleMoveDto (User ''u'')
       None oneTaskWorld = (Inr (0, COMPLETED), w')" by blast
  have "taskBelongs ''t'' ''p'' (tasks oneTaskWorld)"
    by (simp add: taskBelongs_def oneTaskWorld_def newTaskRow_def)
  from moved_rank_is_index [OF m oneTask_dense this] m show ?thesis by auto
qed

end
