(* ===== verification/TaskBoard.thy ===== *)
theory TaskBoard
  imports TaskStore
begin

text \<open>
  The board in the browser: \<open>frontend/src/lib/tasksReducer.ts\<close>. A client task is the task row of
  the response with its assignees. JavaScript's \<open>sort\<close> is stable, so sorting by \<open>byRank\<close> is
  \<open>sort_key\<close>; a \<open>Map\<close> filled by \<open>forEach\<close> keeps the last entry of a key, so it is \<open>map_of\<close> of
  the reversed list. The reducer is shown to be a board store of its own, and to show the
  server's board whenever it replays the server's events.
\<close>

record client_task =
  ct_row :: task_row
  ct_assignees :: "user_ref list"

text \<open>\<open>Partial<Task>\<close>: \<open>None\<close> is a field that is not in the object.\<close>

record task_changes =
  tch_id :: "ident option"
  tch_projectId :: "ident option"
  tch_title :: "string option"
  tch_status :: "task_status option"
  tch_categoryId :: "ident option option"
  tch_rank :: "int option"
  tch_priority :: "task_priority option"
  tch_startAt :: "millis option option"
  tch_endAt :: "millis option option"
  tch_description :: "string option option"
  tch_notes :: "string option option"
  tch_onCalendar :: "bool option"
  tch_assignees :: "user_ref list option"

definition spreadChanges :: "client_task \<Rightarrow> task_changes \<Rightarrow> client_task" where
  "spreadChanges task c = (let t = ct_row task in
     task\<lparr>ct_row := t\<lparr>
       t_id := orElse (tch_id c) (t_id t),
       t_projectId := orElse (tch_projectId c) (t_projectId t),
       t_title := orElse (tch_title c) (t_title t),
       t_status := orElse (tch_status c) (t_status t),
       t_categoryId := orElse (tch_categoryId c) (t_categoryId t),
       t_rank := orElse (tch_rank c) (t_rank t),
       t_priority := orElse (tch_priority c) (t_priority t),
       t_startAt := orElse (tch_startAt c) (t_startAt t),
       t_endAt := orElse (tch_endAt c) (t_endAt t),
       t_description := orElse (tch_description c) (t_description t),
       t_notes := orElse (tch_notes c) (t_notes t),
       t_onCalendar := orElse (tch_onCalendar c) (t_onCalendar t)\<rparr>,
      ct_assignees := orElse (tch_assignees c) (ct_assignees task)\<rparr>)"

datatype tasks_action =
    Tasks_loaded "client_task list"
  | Task_created client_task
  | Task_updated ident task_changes
  | Task_moved ident task_status int
  | Task_deleted ident

abbreviation ct_id :: "client_task \<Rightarrow> ident" where "ct_id t \<equiv> t_id (ct_row t)"
abbreviation ct_status :: "client_task \<Rightarrow> task_status" where "ct_status t \<equiv> t_status (ct_row t)"
abbreviation ct_rank :: "client_task \<Rightarrow> int" where "ct_rank t \<equiv> t_rank (ct_row t)"

definition selectColumnTasks :: "client_task list \<Rightarrow> task_status \<Rightarrow> client_task list" where
  "selectColumnTasks ts status = sort_key ct_rank (filter (\<lambda>task. ct_status task = status) ts)"

definition positions :: "client_task list \<Rightarrow> (ident \<times> int) list" where
  "positions column = map (\<lambda>(index, task). (ct_id task, int index)) (enumerate 0 column)"

definition setRank :: "int \<Rightarrow> client_task \<Rightarrow> client_task" where
  "setRank r task = task\<lparr>ct_row := (ct_row task)\<lparr>t_rank := r\<rparr>\<rparr>"

definition reindexStatus :: "client_task list \<Rightarrow> task_status \<Rightarrow> client_task list" where
  "reindexStatus ts status =
     (let column = sort_key ct_rank (filter (\<lambda>task. ct_status task = status) ts);
          new_ranks = map_of (rev (positions column)) in
      map (\<lambda>task. case new_ranks (ct_id task) of
          None \<Rightarrow> task
        | Some new_rank \<Rightarrow> if ct_rank task = new_rank then task else setRank new_rank task) ts)"

definition moveInBoard :: "client_task list \<Rightarrow> client_task \<Rightarrow> task_status \<Rightarrow> int \<Rightarrow> client_task list" where
  "moveInBoard state moved toStatus toIndex =
     (let from_status = ct_status moved;
          destination0 = sort_key ct_rank
            (filter (\<lambda>task. ct_status task = toStatus \<and> ct_id task \<noteq> ct_id moved) state);
          insert_index = nat (max 0 (min toIndex (int (length destination0))));
          destination = take insert_index destination0 @ moved # drop insert_index destination0;
          source = (if from_status = toStatus then []
            else sort_key ct_rank
              (filter (\<lambda>task. ct_status task = from_status \<and> ct_id task \<noteq> ct_id moved) state));
          new_positions = map_of (rev
            (map (\<lambda>(i, r). (i, (toStatus, r))) (positions destination) @
             map (\<lambda>(i, r). (i, (from_status, r))) (positions source))) in
      map (\<lambda>task. case new_positions (ct_id task) of
          None \<Rightarrow> task
        | Some (status, rank) \<Rightarrow>
            if ct_status task = status \<and> ct_rank task = rank then task
            else task\<lparr>ct_row := (ct_row task)\<lparr>t_status := status, t_rank := rank\<rparr>\<rparr>) state)"

fun tasksReducer :: "client_task list \<Rightarrow> tasks_action \<Rightarrow> client_task list" where
  "tasksReducer state (Tasks_loaded ts) = ts"
| "tasksReducer state (Task_created task) =
     (if list_ex (\<lambda>t. ct_id t = ct_id task) state then state
      else reindexStatus (state @ [task]) (ct_status task))"
| "tasksReducer state (Task_updated taskId changes) =
     (case List.find (\<lambda>t. ct_id t = taskId) state of
        None \<Rightarrow> state
      | Some existing \<Rightarrow>
          (let next = map (\<lambda>t. if ct_id t = taskId then spreadChanges t changes else t) state in
           case tch_status changes of
             None \<Rightarrow> next
           | Some new_status \<Rightarrow>
               if new_status \<noteq> ct_status existing
               then reindexStatus (reindexStatus next (ct_status existing)) new_status
               else next))"
| "tasksReducer state (Task_moved taskId toStatus toIndex) =
     (case List.find (\<lambda>t. ct_id t = taskId) state of
        None \<Rightarrow> state
      | Some moved \<Rightarrow> moveInBoard state moved toStatus toIndex)"
| "tasksReducer state (Task_deleted taskId) =
     (case List.find (\<lambda>t. ct_id t = taskId) state of
        None \<Rightarrow> state
      | Some existing \<Rightarrow>
          reindexStatus (filter (\<lambda>t. ct_id t \<noteq> taskId) state) (ct_status existing))"

section \<open>Boards as placements\<close>

text \<open>A board that holds each of its ids once, all of them among \<open>I\<close>.\<close>

definition boardOn :: "ident set \<Rightarrow> board \<Rightarrow> bool" where
  "boardOn I b \<longleftrightarrow> (\<forall>st. distinct (b st) \<and> set (b st) \<subseteq> I) \<and>
     (\<forall>st st' i. i \<in> set (b st) \<longrightarrow> i \<in> set (b st') \<longrightarrow> st = st')"

lemma boardOn_remove: "boardOn I b \<Longrightarrow> boardOn (I - {i}) (boardRemove i b)"
  by (fastforce simp: boardOn_def boardRemove_def distinct_without)

lemma boardOn_insert:
  assumes "boardOn I b" and "i \<notin> I"
  shows "boardOn (insert i I) (boardInsert st x i b)"
proof -
  have n: "i \<notin> set (b s)" for s using assms by (auto simp: boardOn_def)
  show ?thesis
    using assms n unfolding boardOn_def boardInsert_def
    by (simp add: set_insertAt distinct_insertAt) blast
qed

lemma boardOn_mono: "boardOn I b \<Longrightarrow> I \<subseteq> J \<Longrightarrow> boardOn J b"
  by (fastforce simp: boardOn_def)

lemma boardOn_move:
  assumes "boardOn I b" and "i \<in> I"
  shows "boardOn I (boardMove st x i b)"
  using boardOn_insert [OF boardOn_remove [OF assms(1)], of i i st x] assms(2)
  by (simp add: boardMove_def insert_absorb)

lemma boardOf_on:
  assumes "ranksDense ts"
  shows "boardOn (set (map t_id ts)) (boardOf ts p)"
proof -
  have "st = st'" if "i \<in> set (boardOf ts p st)" "i \<in> set (boardOf ts p st')" for i st st'
  proof -
    from that obtain t u where "t \<in> set ts" "t_id t = i" "t_status t = st"
      "u \<in> set ts" "t_id u = i" "t_status u = st'"
      by (auto simp: set_boardOf columnOf_def inColumn_def)
    then show ?thesis using same_id [OF assms, of t u] by simp
  qed
  moreover have "set (boardOf ts p st) \<subseteq> set (map t_id ts)" for st
    by (auto simp: set_boardOf columnOf_def)
  ultimately show ?thesis using distinct_boardOf [OF assms] unfolding boardOn_def by blast
qed

definition placed :: "board \<Rightarrow> task_row \<Rightarrow> bool" where
  "placed b t \<longleftrightarrow> (\<exists>k < length (b (t_status t)). b (t_status t) ! k = t_id t \<and> t_rank t = int k)"

lemma placed_slot: "placed b t \<Longrightarrow> slot t \<in> set (slots (b (t_status t)))"
  by (auto simp: placed_def slot_def in_set_conv_nth slots_nth)

lemma slot_placed: "slot t \<in> set (slots (b (t_status t))) \<Longrightarrow> placed b t"
  by (auto simp: placed_def slot_def in_set_conv_nth slots_nth)

text \<open>Rows that sit where a board puts them represent that board.\<close>

lemma placed_represents:
  assumes "distinct (map t_id ts)" and "\<forall>t\<in>set ts. t_projectId t = p \<and> placed b t"
    and "boardOn (set (map t_id ts)) b"
  shows "represents ts p b"
proof -
  have "ranked (columnOf ts p st) (b st)" for st
  proof -
    have inj: "inj_on t_id (set ts)" using assms(1) by (simp add: distinct_map)
    have "distinct (map t_id (columnOf ts p st))"
      using assms(1) unfolding columnOf_def by (rule distinct_map_filterI)
    then have d1: "distinct (map slot (columnOf ts p st))"
      by (auto simp: distinct_map slot_def inj_on_def)
    have "distinct (map snd (slots (b st)))" using assms(3) by (simp add: map_snd_slots boardOn_def)
    then have d2: "distinct (slots (b st))" using distinct_map by blast
    have "slot t \<in> set (slots (b st))" if "t \<in> set (columnOf ts p st)" for t
      using that assms(2) placed_slot [of b t] by (auto simp: columnOf_def inColumn_def)
    moreover have "s \<in> slot ` set (columnOf ts p st)" if s: "s \<in> set (slots (b st))" for s
    proof -
      obtain r i where ri: "s = (r, i)" by (cases s)
      then have "i \<in> set (b st)" using s slots_bound by blast
      then obtain t where t: "t \<in> set ts" "t_id t = i"
        using assms(3) unfolding boardOn_def by (metis (no_types) imageE list.set_map subsetD)
      then have "i \<in> set (b (t_status t))" using assms(2) unfolding placed_def by (metis nth_mem)
      then have st: "t_status t = st"
        using \<open>i \<in> set (b st)\<close> assms(3) unfolding boardOn_def by blast
      have "slot t \<in> set (slots (b st))" using placed_slot [of b t] assms(2) t st by auto
      then have "slot t = s"
        using s d2 t(2) \<open>distinct (map snd (slots (b st)))\<close>
        unfolding distinct_map inj_on_def by (metis ri slot_def snd_conv)
      then show ?thesis using t st assms(2) by (auto simp: columnOf_def inColumn_def)
    qed
    ultimately have "set (map slot (columnOf ts p st)) = set (slots (b st))" by auto
    then show ?thesis using d1 d2 unfolding ranked_def by (metis set_eq_iff_mset_eq_distinct)
  qed
  then show ?thesis by (simp add: represents_def)
qed

lemma dense_placed: "ranksDense ts \<Longrightarrow> t \<in> set ts \<Longrightarrow> t_projectId t = p \<Longrightarrow> placed (boardOf ts p) t"
proof (rule slot_placed)
  assume d: "ranksDense ts" and t: "t \<in> set ts" "t_projectId t = p"
  then have "slot t \<in> set (map slot (columnOf ts p (t_status t)))"
    by (simp add: columnOf_def inColumn_def)
  then show "slot t \<in> set (slots (boardOf ts p (t_status t)))"
    using ranksDenseD [OF d, of p "t_status t"] unfolding ranked_def by (metis set_mset_mset)
qed

section \<open>The reducer's columns\<close>

definition rows :: "client_task list \<Rightarrow> task_row list" where
  "rows state = map ct_row state"

definition clientInv :: "ident \<Rightarrow> client_task list \<Rightarrow> bool" where
  "clientInv p state \<longleftrightarrow> ranksDense (rows state) \<and> (\<forall>t\<in>set state. t_projectId (ct_row t) = p)"

lemma map_insort_key: "map f (insort_key (\<lambda>x. k (f x)) x xs) = insort_key k (f x) (map f xs)"
  by (induction xs) auto

lemma map_sort_key: "map f (sort_key (\<lambda>x. k (f x)) xs) = sort_key k (map f xs)"
  by (induction xs) (simp_all add: map_insort_key)

lemma selectColumn_ids:
  assumes "\<forall>t\<in>set state. t_projectId (ct_row t) = p"
  shows "map ct_id (selectColumnTasks state st) = boardOf (rows state) p st"
proof -
  have "columnOf (rows state) p st = map ct_row (filter (\<lambda>t. ct_status t = st) state)"
    using assms by (simp add: columnOf_def rows_def filter_map inColumn_def o_def cong: filter_cong)
  then have "boardOf (rows state) p st =
      map t_id (map ct_row (sort_key ct_rank (filter (\<lambda>t. ct_status t = st) state)))"
    by (simp only: boardOf_def columnIds_def map_sort_key)
  then show ?thesis by (simp add: selectColumnTasks_def)
qed

lemma positions_set: "(i, r) \<in> set (positions col) \<longleftrightarrow>
  (\<exists>k < length col. i = ct_id (col ! k) \<and> r = int k)"
  unfolding in_set_conv_nth by (auto simp: positions_def nth_enumerate_eq)

lemma fst_positions [simp]: "map fst (positions col) = map ct_id col"
  by (rule nth_equalityI) (simp_all add: positions_def nth_enumerate_eq)

lemma map_of_rev_iff:
  "distinct (map fst ps) \<Longrightarrow> map_of (rev ps) i = Some x \<longleftrightarrow> (i, x) \<in> set ps"
  by (subst map_of_eq_Some_iff) (simp_all flip: rev_map)

lemma map_of_rev_None: "map_of (rev ps) i = None \<longleftrightarrow> i \<notin> fst ` set ps"
  by (simp add: map_of_eq_None_iff)

lemma selectColumn_set: "set (selectColumnTasks state st) = {t \<in> set state. ct_status t = st}"
  by (auto simp: selectColumnTasks_def)

lemma selectColumn_distinct:
  "distinct (map ct_id state) \<Longrightarrow> distinct (map ct_id (selectColumnTasks state st))"
  by (auto simp: selectColumnTasks_def distinct_map intro: inj_on_subset)

definition reindexed :: "client_task list \<Rightarrow> task_status \<Rightarrow> client_task \<Rightarrow> client_task" where
  "reindexed state st task = (case map_of (rev (positions (selectColumnTasks state st))) (ct_id task) of
      None \<Rightarrow> task
    | Some new_rank \<Rightarrow> if ct_rank task = new_rank then task else setRank new_rank task)"

lemma reindexStatus_map: "reindexStatus state st = map (reindexed state st) state"
  by (simp add: reindexStatus_def reindexed_def selectColumnTasks_def Let_def)

lemma reindexed_same [simp]:
  "ct_id (reindexed state st t) = ct_id t" "t_projectId (ct_row (reindexed state st t)) = t_projectId (ct_row t)"
  "ct_status (reindexed state st t) = ct_status t"
  by (auto simp: reindexed_def setRank_def split: option.split)

lemma reindexed_placed:
  assumes "distinct (map ct_id state)" and "t \<in> set state"
    and "map ct_id (selectColumnTasks state st) = b st"
    and "ct_status t \<noteq> st \<Longrightarrow> placed b (ct_row t)"
  shows "placed b (ct_row (reindexed state st t))"
proof -
  let ?col = "selectColumnTasks state st"
  note d = selectColumn_distinct [OF assms(1), of st]
  show ?thesis
  proof (cases "ct_status t = st")
    case True
    then have "t \<in> set ?col" using assms(2) by (simp add: selectColumn_set)
    then obtain k where k: "k < length ?col" "?col ! k = t" by (meson in_set_conv_nth)
    then have "map_of (rev (positions ?col)) (ct_id t) = Some (int k)"
      using d by (subst map_of_rev_iff) (auto simp: positions_set)
    then have "ct_rank (reindexed state st t) = int k" by (simp add: reindexed_def setRank_def)
    then show ?thesis
      using k True by (auto simp: placed_def simp flip: assms(3))
  next
    case False
    then have "t \<notin> set ?col" by (simp add: selectColumn_set)
    then have "ct_id t \<notin> ct_id ` set ?col"
      using assms(1,2) by (auto simp: selectColumn_set distinct_map inj_on_def)
    then have "map_of (rev (positions ?col)) (ct_id t) = None"
      unfolding map_of_rev_None by (metis fst_positions list.set_map)
    then show ?thesis using assms(4) False by (simp add: reindexed_def)
  qed
qed

lemma clientInvI:
  assumes "distinct (map ct_id s)" and "\<forall>t\<in>set s. t_projectId (ct_row t) = p"
    and "represents (rows s) p b"
  shows "clientInv p s \<and> boardOf (rows s) p = b"
proof -
  have "represents (rows s) q (\<lambda>_. [])" if "q \<noteq> p" for q
    using that assms(2) by (auto simp: represents_def ranked_def slots_def columnOf_def
        inColumn_def rows_def filter_empty_conv)
  then have "\<forall>q. represents (rows s) q (boardOf (rows s) q)"
    using assms(3) by (metis represents_iff)
  moreover have "map t_id (rows s) = map ct_id s" by (simp add: rows_def)
  ultimately have "ranksDense (rows s)" using assms(1) unfolding ranksDense_iff by metis
  then show ?thesis using assms(2,3) by (simp add: clientInv_def represents_iff)
qed

text \<open>Rewriting every card in place, each to where a board puts it.\<close>

lemma client_map:
  assumes "distinct (map ct_id state)" and "boardOn (set (map ct_id state)) b"
    and "\<And>t. t \<in> set state \<Longrightarrow> ct_id (g t) = ct_id t"
    and "\<And>t. t \<in> set state \<Longrightarrow> t_projectId (ct_row (g t)) = p \<and> placed b (ct_row (g t))"
  shows "clientInv p (map g state) \<and> boardOf (rows (map g state)) p = b"
proof -
  have ids: "map ct_id (map g state) = map ct_id state" using assms(3) by simp
  moreover have rows: "map t_id (rows (map g state)) = map ct_id (map g state)"
    by (simp add: rows_def)
  ultimately have "represents (rows (map g state)) p b"
    using assms(1,2,4) by (intro placed_represents) (simp_all only: rows_def list.set_map, auto)
  then show ?thesis
    using assms(1,4) ids by (intro clientInvI) (simp_all only: list.set_map, auto)
qed

lemma reindex_board:
  assumes "distinct (map ct_id state)" and "\<forall>t\<in>set state. t_projectId (ct_row t) = p"
    and "boardOn (set (map ct_id state)) b"
    and "map ct_id (selectColumnTasks state st) = b st"
    and "\<forall>t\<in>set state. ct_status t \<noteq> st \<longrightarrow> placed b (ct_row t)"
  shows "clientInv p (reindexStatus state st)" and "boardOf (rows (reindexStatus state st)) p = b"
proof -
  have "clientInv p (reindexStatus state st) \<and> boardOf (rows (reindexStatus state st)) p = b"
    unfolding reindexStatus_map
    using assms(2,5) reindexed_placed [where b = b and st = st, OF assms(1) _ assms(4)]
    by (intro client_map [OF assms(1,3)]) auto
  then show "clientInv p (reindexStatus state st)" "boardOf (rows (reindexStatus state st)) p = b"
    by simp_all
qed

section \<open>The reducer implements the board events\<close>

lemma clientInvD:
  assumes "clientInv p state"
  shows "distinct (map ct_id state)" "\<forall>t\<in>set state. t_projectId (ct_row t) = p"
    "boardOn (set (map ct_id state)) (boardOf (rows state) p)"
    "\<forall>t\<in>set state. placed (boardOf (rows state) p) (ct_row t)"
    "map ct_id (selectColumnTasks state st) = boardOf (rows state) p st"
proof -
  have d: "ranksDense (rows state)" and p: "\<forall>t\<in>set state. t_projectId (ct_row t) = p"
    using assms by (simp_all add: clientInv_def)
  have ids: "map t_id (rows state) = map ct_id state" by (simp add: rows_def)
  show "distinct (map ct_id state)" using d ids by (simp add: ranksDense_def)
  show "\<forall>t\<in>set state. t_projectId (ct_row t) = p" by (rule p)
  show "boardOn (set (map ct_id state)) (boardOf (rows state) p)"
    using boardOf_on [OF d] unfolding ids .
  show "\<forall>t\<in>set state. placed (boardOf (rows state) p) (ct_row t)"
    using dense_placed [OF d] p by (simp add: rows_def)
  show "map ct_id (selectColumnTasks state st) = boardOf (rows state) p st"
    by (rule selectColumn_ids [OF p])
qed

lemma onBoard_client:
  "clientInv p state \<Longrightarrow> onBoard i (boardOf (rows state) p) \<longleftrightarrow> i \<in> set (map ct_id state)"
  by (auto simp: onBoard_iff clientInv_def rows_def)

lemma placed_remove:
  assumes "placed b t" and "t_id t \<noteq> i" and "i \<notin> set (b (t_status t))"
  shows "placed (boardRemove i b) t"
  using assms by (simp add: placed_def boardRemove_def without_id)

lemma client_delete:
  assumes "clientInv p state"
  shows "clientInv p (tasksReducer state (Task_deleted i))"
    and "boardOf (rows (tasksReducer state (Task_deleted i))) p =
      boardRemove i (boardOf (rows state) p)"
proof -
  let ?b = "boardOf (rows state) p" and ?s = "filter (\<lambda>t. ct_id t \<noteq> i) state"
  note inv = clientInvD [OF assms]
  have both: "clientInv p (tasksReducer state (Task_deleted i)) \<and>
      boardOf (rows (tasksReducer state (Task_deleted i))) p = boardRemove i ?b"
  proof (cases "List.find (\<lambda>t. ct_id t = i) state")
    case None
    then have "i \<notin> set (map ct_id state)" by (auto simp: find_None_iff_all)
    then have "\<not> onBoard i ?b" using onBoard_client [OF assms] by simp
    then have "boardRemove i ?b = ?b" by (auto simp: boardRemove_def onBoard_def without_id)
    then show ?thesis using assms None by simp
  next
    case (Some existing)
    then have e: "existing \<in> set state" "ct_id existing = i" by (auto dest: find_SomeD)
    have only: "i \<notin> set (?b st)" if "st \<noteq> ct_status existing" for st
    proof
      assume "i \<in> set (?b st)"
      moreover have "i \<in> set (?b (ct_status existing))"
        using inv(4) e unfolding placed_def by (metis nth_mem)
      ultimately show False using inv(3) that unfolding boardOn_def by blast
    qed
    have col: "map ct_id (selectColumnTasks ?s st) = boardRemove i ?b st" for st
    proof -
      have "selectColumnTasks ?s st = filter (\<lambda>t. ct_id t \<noteq> i) (selectColumnTasks state st)"
        by (simp add: selectColumnTasks_def filter_sort conj_commute)
      then have "map ct_id (selectColumnTasks ?s st) = without i (map ct_id (selectColumnTasks state st))"
        by (simp add: without_def filter_map o_def)
      then show ?thesis by (simp add: inv(5) boardRemove_def)
    qed
    have on: "boardOn (set (map ct_id ?s)) (boardRemove i ?b)"
      by (rule boardOn_mono [OF boardOn_remove [OF inv(3)]]) auto
    have "\<forall>t\<in>set ?s. ct_status t \<noteq> ct_status existing \<longrightarrow> placed (boardRemove i ?b) (ct_row t)"
      using inv(4) only by (auto intro: placed_remove)
    note r = reindex_board [OF distinct_map_filterI [OF inv(1)] _ on col this, of p]
    show ?thesis using r inv(2) Some by simp
  qed
  then show "clientInv p (tasksReducer state (Task_deleted i))"
    "boardOf (rows (tasksReducer state (Task_deleted i))) p = boardRemove i ?b" by simp_all
qed

text \<open>
  A created card is appended and the column sorted by rank, so it lands behind the card that
  has its rank: one place after the slot the server opened, unless it is the last.
\<close>

lemma sort_key_append_one:
  assumes "sort_key f xs = ys @ zs" and "\<forall>y\<in>set ys. f y \<le> f x" and "\<forall>z\<in>set zs. f x < f z"
  shows "sort_key f (xs @ [x]) = ys @ x # zs"
proof (rule properties_for_sort_key)
  have "mset xs = mset (ys @ zs)" by (metis assms(1) mset_sort)
  then show "mset (ys @ x # zs) = mset (xs @ [x])" by simp
  have "sorted (map f (ys @ zs))" by (metis assms(1) sorted_sort_key)
  then show "sorted (map f (ys @ x # zs))"
    using assms(2,3) by (auto simp: sorted_append less_imp_le)
  fix k
  have "filter (\<lambda>y. f y = f k) xs = filter (\<lambda>y. f y = f k) (ys @ zs)"
    by (metis assms(1) sort_key_stable)
  moreover have "filter (\<lambda>y. f y = f k) zs = []" if "f k = f x"
    using assms(3) that by (auto simp: filter_empty_conv)
  ultimately show "filter (\<lambda>y. f k = f y) (ys @ x # zs) = filter (\<lambda>y. f k = f y) (xs @ [x])"
    by (auto simp: eq_commute [of "f k"])
qed

lemma selectColumn_rank:
  assumes "clientInv p state" and "k < length (selectColumnTasks state st)"
  shows "ct_rank (selectColumnTasks state st ! k) = int k"
proof -
  let ?S = "selectColumnTasks state st" and ?b = "boardOf (rows state) p"
  note inv = clientInvD [OF assms(1)]
  have b: "?b st = map ct_id ?S" by (simp add: inv(5))
  have S: "?S ! k \<in> set ?S" using assms(2) by simp
  then have m: "?S ! k \<in> set state" "ct_status (?S ! k) = st" by (simp_all add: selectColumn_set)
  then obtain j where j: "j < length (?b st)" "?b st ! j = ct_id (?S ! k)" "ct_rank (?S ! k) = int j"
    using bspec [OF inv(4) m(1)] unfolding placed_def m(2) by blast
  have "distinct (?b st)" using inv(3) by (simp add: boardOn_def)
  moreover have "?b st ! k = ct_id (?S ! k)" "k < length (?b st)" using assms(2) by (simp_all add: b)
  ultimately have "j = k" using j(1,2) by (metis nth_eq_iff_index_eq)
  with j show ?thesis by simp
qed

lemma client_create:
  assumes "clientInv p state" and "ct_id task \<notin> set (map ct_id state)"
    and "t_projectId (ct_row task) = p" and "0 \<le> ct_rank task"
  shows "clientInv p (tasksReducer state (Task_created task))"
    and "boardOf (rows (tasksReducer state (Task_created task))) p =
      boardInsert (ct_status task) (Some (ct_rank task + 1)) (ct_id task) (boardOf (rows state) p)"
proof -
  let ?b = "boardOf (rows state) p" and ?st = "ct_status task" and ?s = "state @ [task]"
  let ?S = "selectColumnTasks state ?st"
  let ?m = "clampIndex (Some (ct_rank task + 1)) (length ?S)"
  let ?b' = "boardInsert ?st (Some (ct_rank task + 1)) (ct_id task) ?b"
  note inv = clientInvD [OF assms(1)]
  have m: "int ?m = min (ct_rank task + 1) (int (length ?S))"
    using assms(4) by (simp add: clampIndex_def)
  have lo: "\<forall>y\<in>set (take ?m ?S). ct_rank y \<le> ct_rank task"
    using selectColumn_rank [OF assms(1), of _ ?st] m by (auto simp: in_set_conv_nth)
  have hi: "\<forall>z\<in>set (drop ?m ?S). ct_rank task < ct_rank z"
    using selectColumn_rank [OF assms(1), of _ ?st] m by (auto simp: in_set_conv_nth)
  have sorted: "sort_key ct_rank (filter (\<lambda>t. ct_status t = ?st) state) = take ?m ?S @ drop ?m ?S"
    by (simp add: selectColumnTasks_def)
  have "selectColumnTasks ?s ?st = take ?m ?S @ task # drop ?m ?S"
    using sort_key_append_one [OF sorted lo hi] by (simp add: selectColumnTasks_def)
  then have col: "map ct_id (selectColumnTasks ?s ?st) = ?b' ?st"
    using inv(5) [of ?st, symmetric]
    by (simp add: boardInsert_def insertAt_def take_map drop_map)
  have fresh: "ct_id task \<notin> set (?b st)" for st
    using inv(3) assms(2) unfolding boardOn_def by blast
  have "\<forall>t\<in>set ?s. ct_status t \<noteq> ?st \<longrightarrow> placed ?b' (ct_row t)"
    using inv(4) by (auto simp: placed_def boardInsert_def)
  moreover have "boardOn (set (map ct_id ?s)) ?b'"
    using boardOn_insert [OF inv(3) assms(2)] by simp
  moreover have "distinct (map ct_id ?s)" "\<forall>t\<in>set ?s. t_projectId (ct_row t) = p"
    using inv(1,2) assms(2,3) by auto
  ultimately have r: "clientInv p (reindexStatus ?s ?st)" "boardOf (rows (reindexStatus ?s ?st)) p = ?b'"
    using reindex_board [of ?s p ?b' ?st] col by blast+
  have "\<not> list_ex (\<lambda>t. ct_id t = ct_id task) state"
    using assms(2) by (auto simp: list_ex_iff image_iff)
  then show "clientInv p (tasksReducer state (Task_created task))"
    "boardOf (rows (tasksReducer state (Task_created task))) p = ?b'"
    using r by simp_all
qed

text \<open>A move splices the card into its destination and reindexes both columns.\<close>

definition movePositions ::
  "client_task list \<Rightarrow> client_task \<Rightarrow> task_status \<Rightarrow> int \<Rightarrow> (ident \<times> task_status \<times> int) list" where
  "movePositions state moved toStatus toIndex =
     (let from_status = ct_status moved;
          destination0 = filter (\<lambda>t. ct_id t \<noteq> ct_id moved) (selectColumnTasks state toStatus);
          source0 = filter (\<lambda>t. ct_id t \<noteq> ct_id moved) (selectColumnTasks state from_status) in
      map (\<lambda>(i, r). (i, (toStatus, r)))
        (positions (insertAt (clampIndex (Some toIndex) (length destination0)) moved destination0)) @
      map (\<lambda>(i, r). (i, (from_status, r)))
        (positions (if from_status = toStatus then [] else source0)))"

definition movedTask :: "client_task list \<Rightarrow> client_task \<Rightarrow> task_status \<Rightarrow> int \<Rightarrow> client_task \<Rightarrow> client_task" where
  "movedTask state moved toStatus toIndex task =
     (case map_of (rev (movePositions state moved toStatus toIndex)) (ct_id task) of
        None \<Rightarrow> task
      | Some (status, rank) \<Rightarrow>
          if ct_status task = status \<and> ct_rank task = rank then task
          else task\<lparr>ct_row := (ct_row task)\<lparr>t_status := status, t_rank := rank\<rparr>\<rparr>)"

lemma moveInBoard_map:
  "moveInBoard state moved toStatus toIndex = map (movedTask state moved toStatus toIndex) state"
proof -
  have c: "nat (max 0 (min k (int n))) = clampIndex (Some k) n" for k n
    by (auto simp: clampIndex_def)
  have f: "sort_key ct_rank (filter (\<lambda>task. ct_status task = st \<and> ct_id task \<noteq> i) state) =
      filter (\<lambda>t. ct_id t \<noteq> i) (selectColumnTasks state st)" for st i
    by (simp add: selectColumnTasks_def filter_sort conj_commute)
  show ?thesis
    unfolding moveInBoard_def Let_def c f
    by (simp add: movedTask_def movePositions_def insertAt_def Let_def if_distrib [where f = positions]
        cong: if_cong)
qed

lemma movedTask_same [simp]:
  "ct_id (movedTask state moved st k t) = ct_id t"
  "t_projectId (ct_row (movedTask state moved st k t)) = t_projectId (ct_row t)"
  by (auto simp: movedTask_def split: option.split prod.split)

text \<open>The entries of the position map are the slots of the two columns after the move.\<close>

lemma positions_slots: "(j, r) \<in> set (positions col) \<longleftrightarrow> (r, j) \<in> set (slots (map ct_id col))"
  unfolding positions_set by (auto simp: in_set_conv_nth slots_nth)

lemma map_insertAt: "map f (insertAt k x xs) = insertAt k (f x) (map f xs)"
  by (simp add: insertAt_def take_map drop_map)

lemma movePositions_set:
  fixes st :: task_status and k :: int
  assumes "clientInv p state" and "moved \<in> set state"
  defines "b' \<equiv> boardMove st (Some k) (ct_id moved) (boardOf (rows state) p)"
  shows "(j, s, r) \<in> set (movePositions state moved st k) \<longleftrightarrow>
     (s = st \<or> s = ct_status moved) \<and> (r, j) \<in> set (slots (b' s))"
    and "map fst (movePositions state moved st k) =
     b' st @ (if ct_status moved = st then [] else b' (ct_status moved))"
proof -
  let ?b = "boardOf (rows state) p" and ?i = "ct_id moved" and ?from = "ct_status moved"
  let ?others = "\<lambda>s. filter (\<lambda>t. ct_id t \<noteq> ?i) (selectColumnTasks state s)"
  let ?dest = "insertAt (clampIndex (Some k) (length (?others st))) moved (?others st)"
  note inv = clientInvD [OF assms(1)]
  have oth: "map ct_id (?others s) = without ?i (?b s)" for s
    by (simp add: without_def filter_map o_def flip: inv(5))
  have len: "length (?others s) = length (without ?i (?b s))" for s
    unfolding oth [symmetric] by simp
  have dest: "map ct_id ?dest = b' st"
    unfolding b'_def boardMove_def boardInsert_def boardRemove_def len map_insertAt oth by simp
  have src: "map ct_id (?others ?from) = b' ?from" if "?from \<noteq> st"
    using that unfolding oth by (simp add: b'_def boardMove_def boardInsert_def boardRemove_def)
  have mem: "(j, s, r) \<in> set (map (\<lambda>(i, r). (i, (s0, r))) ps) \<longleftrightarrow> s = s0 \<and> (j, r) \<in> set ps"
    for j s r s0 and ps :: "(ident \<times> int) list" by auto
  have fst: "map fst (map (\<lambda>(i, r). (i, (s0, r))) ps) = map fst ps"
    for s0 :: task_status and ps :: "(ident \<times> int) list" by (simp add: o_def case_prod_unfold)
  have none: "positions [] = []" by (simp add: positions_def)
  have mp: "movePositions state moved st k = map (\<lambda>(i, r). (i, (st, r))) (positions ?dest) @
      map (\<lambda>(i, r). (i, (?from, r))) (positions (if ?from = st then [] else ?others ?from))"
    by (simp add: movePositions_def Let_def)
  show "(j, s, r) \<in> set (movePositions state moved st k) \<longleftrightarrow>
     (s = st \<or> s = ?from) \<and> (r, j) \<in> set (slots (b' s))"
  proof (cases "?from = st")
    case True
    then show ?thesis unfolding mp set_append Un_iff mem positions_slots dest by (auto simp: none slots_def)
  next
    case False
    show ?thesis
      unfolding mp set_append Un_iff mem if_not_P [OF False] positions_slots dest src [OF False] by auto
  qed
  show "map fst (movePositions state moved st k) = b' st @ (if ?from = st then [] else b' ?from)"
    unfolding mp map_append fst fst_positions dest using src by auto
qed

lemma client_move:
  assumes "clientInv p state" and "i \<in> set (map ct_id state)"
  shows "clientInv p (tasksReducer state (Task_moved i st k))"
    and "boardOf (rows (tasksReducer state (Task_moved i st k))) p =
      boardMove st (Some k) i (boardOf (rows state) p)"
proof -
  let ?b = "boardOf (rows state) p" and ?b' = "boardMove st (Some k) i (boardOf (rows state) p)"
  note inv = clientInvD [OF assms(1)]
  obtain moved where f: "List.find (\<lambda>t. ct_id t = i) state = Some moved"
    using assms(2) by (cases "List.find (\<lambda>t. ct_id t = i) state") (auto simp: find_None_iff_all)
  then have m: "moved \<in> set state" "ct_id moved = i" by (auto dest: find_SomeD)
  let ?pos = "movePositions state moved st k" and ?g = "movedTask state moved st k"
  let ?s = "map ?g state"
  note ps = movePositions_set(1) [OF assms(1) m(1), where st = st and k = k, unfolded m(2)]
  have on: "boardOn (set (map ct_id state)) ?b'" by (rule boardOn_move [OF inv(3) assms(2)])
  have dist: "distinct (map fst ?pos)"
    using on movePositions_set(2) [OF assms(1) m(1), of st k, unfolded m(2)]
    unfolding boardOn_def by (auto simp del: distinct_map)
  have "placed ?b' (ct_row (?g t))" if t: "t \<in> set state" for t
  proof (cases "map_of (rev ?pos) (ct_id t)")
    case (Some sr)
    obtain s r where sr: "sr = (s, r)" by (cases sr)
    have "(ct_id t, s, r) \<in> set ?pos" using Some sr dist by (simp add: map_of_rev_iff)
    then have "(r, ct_id t) \<in> set (slots (?b' s))" by (simp add: ps)
    moreover have "ct_status (?g t) = s" "ct_rank (?g t) = r"
      using Some by (auto simp: movedTask_def sr)
    ultimately show ?thesis by (intro slot_placed) (simp add: slot_def)
  next
    case None
    then have g: "?g t = t" by (simp add: movedTask_def)
    have "ct_id t \<notin> set (map fst ?pos)" using None unfolding map_of_rev_None by simp
    then have no: "ct_id t \<notin> set (?b' st)" "ct_status moved \<noteq> st \<Longrightarrow> ct_id t \<notin> set (?b' (ct_status moved))"
      using movePositions_set(2) [OF assms(1) m(1), of st k, unfolded m(2)] by (auto simp del: set_map)
    have pt: "placed ?b (ct_row t)" using inv(4) t by blast
    then have in_b: "ct_id t \<in> set (?b (ct_status t))" unfolding placed_def by (metis nth_mem)
    have ne: "ct_id t \<noteq> i" using no(1) by (auto simp: boardMove_def boardInsert_def set_insertAt)
    have gone: "ct_status t \<noteq> s" if "ct_id t \<notin> set (?b' s)" for s
      using that in_b ne by (auto simp: boardMove_def boardInsert_def set_insertAt boardRemove_def
          split: if_splits)
    have "ct_status t \<noteq> st" "ct_status t \<noteq> ct_status moved"
      using gone no by (cases "ct_status moved = st"; blast)+
    moreover have "i \<notin> set (?b (ct_status t))"
      using in_b inv(3,4) m calculation(2) unfolding boardOn_def placed_def by (metis nth_mem)
    ultimately show ?thesis
      using placed_remove [OF pt] ne by (simp add: g boardMove_def boardInsert_def placed_def)
  qed
  then have "clientInv p ?s \<and> boardOf (rows ?s) p = ?b'"
    using inv(2) by (intro client_map [OF inv(1) on]) auto
  then show "clientInv p (tasksReducer state (Task_moved i st k))"
    "boardOf (rows (tasksReducer state (Task_moved i st k))) p = ?b'"
    using f by (simp_all add: moveInBoard_map)
qed

section \<open>The browser as a store\<close>

text \<open>
  The reducer's answers to board events. The card of \<open>Inserted\<close> is any card with the event's
  id, column and rank (the other fields do not matter to the board); an \<open>Edited\<close> response
  carries the status and rank its task has, as \<open>task:updated\<close> does.
\<close>

inductive clientStep :: "ident \<Rightarrow> client_task list \<Rightarrow> board_event \<Rightarrow> client_task list \<Rightarrow> bool" for p where
  created: "ct_id task \<notin> set (map ct_id state) \<Longrightarrow> t_projectId (ct_row task) = p \<Longrightarrow>
     ct_rank task = int (length (selectColumnTasks state (ct_status task))) \<Longrightarrow>
     clientStep p state (Inserted (ct_status task) (ct_rank task) (ct_id task))
       (tasksReducer state (Task_created task))"
| moved: "i \<in> set (map ct_id state) \<Longrightarrow>
     clientStep p state (Moved st k i) (tasksReducer state (Task_moved i st k))"
| deleted: "clientStep p state (Removed i) (tasksReducer state (Task_deleted i))"
| edited: "tch_id c \<in> {None, Some i} \<Longrightarrow> tch_projectId c \<in> {None, Some p} \<Longrightarrow>
     \<forall>t\<in>set state. ct_id t = i \<longrightarrow>
       tch_status c \<in> {None, Some (ct_status t)} \<and> tch_rank c \<in> {None, Some (ct_rank t)} \<Longrightarrow>
     clientStep p state (Edited i) (tasksReducer state (Task_updated i c))"

lemma spread_same:
  assumes "tch_id c \<in> {None, Some (ct_id t)}" and "tch_projectId c \<in> {None, Some (t_projectId (ct_row t))}"
    and "tch_status c \<in> {None, Some (ct_status t)}" and "tch_rank c \<in> {None, Some (ct_rank t)}"
  shows "ct_id (spreadChanges t c) = ct_id t" "ct_status (spreadChanges t c) = ct_status t"
    "ct_rank (spreadChanges t c) = ct_rank t"
    "t_projectId (ct_row (spreadChanges t c)) = t_projectId (ct_row t)"
  using assms by (auto simp: spreadChanges_def Let_def orElse_def)

lemma client_edit:
  assumes "clientInv p state" and k: "tch_id c \<in> {None, Some i}" "tch_projectId c \<in> {None, Some p}"
    and c: "\<forall>t\<in>set state. ct_id t = i \<longrightarrow>
     tch_status c \<in> {None, Some (ct_status t)} \<and> tch_rank c \<in> {None, Some (ct_rank t)}"
  shows "clientInv p (tasksReducer state (Task_updated i c))"
    and "boardOf (rows (tasksReducer state (Task_updated i c))) p = boardOf (rows state) p"
proof -
  note inv = clientInvD [OF assms(1)]
  let ?f = "\<lambda>t. if ct_id t = i then spreadChanges t c else t"
  have same: "ct_id (?f t) = ct_id t \<and> ct_status (?f t) = ct_status t \<and> ct_rank (?f t) = ct_rank t \<and>
      t_projectId (ct_row (?f t)) = t_projectId (ct_row t)" if "t \<in> set state" for t
    using c k inv(2) that spread_same [of c t] by auto
  have m: "clientInv p (map ?f state) \<and> boardOf (rows (map ?f state)) p = boardOf (rows state) p"
  proof (rule client_map [OF inv(1,3)])
    fix t assume t: "t \<in> set state"
    show "ct_id (?f t) = ct_id t" using same [OF t] by blast
    show "t_projectId (ct_row (?f t)) = p \<and> placed (boardOf (rows state) p) (ct_row (?f t))"
      using inv(2,4) same [OF t] t unfolding placed_def by metis
  qed
  have "tasksReducer state (Task_updated i c) = state \<or>
      tasksReducer state (Task_updated i c) = map ?f state"
    using c by (auto simp: Let_def split: option.split dest!: find_SomeD)
  then show "clientInv p (tasksReducer state (Task_updated i c))"
    "boardOf (rows (tasksReducer state (Task_updated i c))) p = boardOf (rows state) p"
    using m assms(1) by auto
qed

lemma boardInsert_beyond:
  "boardInsert st (Some (int (length (b st)) + 1)) i b = boardInsert st (Some (int (length (b st)))) i b"
  by (simp add: boardInsert_def clampIndex_def)

lemma clientStep_sound:
  assumes "clientStep p state e state'" and "clientInv p state"
  shows "clientInv p state' \<and> boardOf (rows state') p = applyEvent e (boardOf (rows state) p)"
  using assms
proof cases
  case (created task)
  have n: "ct_rank task = int (length (boardOf (rows state) p (ct_status task)))"
    by (simp add: created(5) flip: clientInvD(5) [OF assms(2)])
  show ?thesis
    using client_create [OF assms(2) created(3,4)] n boardInsert_beyond [of "ct_status task" "boardOf (rows state) p"]
    by (simp add: created(1,2))
qed (use client_move client_delete client_edit assms(2) in auto)

lemma clientStep_total:
  assumes "clientInv p state" and "wellPosed (boardOf (rows state) p) e"
    and "appends (boardOf (rows state) p) e"
  shows "\<exists>state'. clientStep p state e state'"
proof (cases e)
  case (Inserted st k i)
  define task where "task = \<lparr>ct_row = \<lparr>t_id = i, t_projectId = p, t_title = [], t_status = st,
     t_categoryId = None, t_rank = k, t_priority = LOW, t_startAt = None, t_endAt = None,
     t_description = None, t_notes = None, t_onCalendar = False\<rparr>, ct_assignees = []\<rparr>"
  have "i \<notin> set (map ct_id state)" using assms(1,2) by (simp add: Inserted onBoard_client)
  moreover have "k = int (length (selectColumnTasks state st))"
    using assms(3) length_map [of ct_id "selectColumnTasks state st"]
    by (simp add: Inserted clientInvD(5) [OF assms(1)])
  ultimately show ?thesis
    using clientStep.created [of task state p] by (auto simp: task_def Inserted)
next
  case (Moved st k i)
  then have "i \<in> set (map ct_id state)" using assms(1,2) by (simp add: onBoard_client)
  then show ?thesis using clientStep.moved [of i state p st k] Moved by blast
next
  case (Removed i)
  then show ?thesis by (auto intro: clientStep.deleted)
next
  case (Edited i)
  define c where "c = \<lparr>tch_id = None, tch_projectId = None, tch_title = None, tch_status = None, tch_categoryId = None, tch_rank = None,
     tch_priority = None, tch_startAt = None, tch_endAt = None, tch_description = None,
     tch_notes = None, tch_onCalendar = None, tch_assignees = None\<rparr>"
  show ?thesis using clientStep.edited [of c i p state] by (auto simp: c_def Edited)
qed

interpretation client: board_sink "clientInv p" "\<lambda>s. boardOf (rows s) p" "clientStep p" for p
  by unfold_locales (auto dest: clientStep_sound clientStep_total)

interpretation boards: board_pair
  "\<lambda>w. ranksDense (tasks w)" "\<lambda>w. boardOf (tasks w) p" "serverStep p"
  "clientInv p" "\<lambda>s. boardOf (rows s) p" "clientStep p" for p
  by unfold_locales

section \<open>Properties\<close>


lemma clientInv_Nil: "clientInv p []"
  by (simp add: clientInv_def ranksDense_def dense_def columnOf_def rows_def)


lemma boardInsert_eq_iff:
  assumes "i \<notin> set (b st)" and "0 \<le> k" and "k \<le> int (length (b st))"
  shows "boardInsert st (Some (k + 1)) i b = boardInsert st (Some k) i b \<longleftrightarrow> k = int (length (b st))"
proof
  assume eq: "boardInsert st (Some (k + 1)) i b = boardInsert st (Some k) i b"
  show "k = int (length (b st))"
  proof (rule ccontr)
    assume "k \<noteq> int (length (b st))"
    then have k: "k < int (length (b st))" using assms(3) by simp
    have "boardInsert st (Some k) i b st ! nat k = i"
      using assms(2,3) by (simp add: boardInsert_def clampIndex_def insertAt_def nth_append)
    moreover have "boardInsert st (Some (k + 1)) i b st ! nat k = b st ! nat k"
      using assms(2) k by (simp add: boardInsert_def clampIndex_def insertAt_def nth_append nat_add_distrib)
    ultimately have "b st ! nat k = i" by (simp add: eq)
    moreover have "nat k < length (b st)" using assms(2) k by linarith
    ultimately show False using assms(1) nth_mem by blast
  qed
qed (simp add: boardInsert_def clampIndex_def)

text \<open>A task broadcast as created at rank \<open>r\<close> (at most the length of its column) is shown by
  the browser at index \<open>r + 1\<close>, while the server put it at index \<open>r\<close>: the two boards agree
  exactly when the task was created at the end of its column.\<close>

lemma created_card_lands_one_late:
  assumes "clientInv p s" and "ct_id task \<notin> set (map ct_id s)" and "t_projectId (ct_row task) = p"
    and "0 \<le> ct_rank task" and "ct_rank task \<le> int (length (selectColumnTasks s (ct_status task)))"
  shows "boardOf (rows (tasksReducer s (Task_created task))) p =
       boardInsert (ct_status task) (Some (ct_rank task + 1)) (ct_id task) (boardOf (rows s) p) \<and>
     (boardOf (rows (tasksReducer s (Task_created task))) p =
       boardInsert (ct_status task) (Some (ct_rank task)) (ct_id task) (boardOf (rows s) p) \<longleftrightarrow>
       ct_rank task = int (length (selectColumnTasks s (ct_status task))))"
proof -
  have len: "length (selectColumnTasks s st) = length (boardOf (rows s) p st)" for st
    unfolding clientInvD(5) [OF assms(1), symmetric] by simp
  have "\<not> onBoard (ct_id task) (boardOf (rows s) p)" using onBoard_client [OF assms(1)] assms(2) by simp
  then have "ct_id task \<notin> set (boardOf (rows s) p (ct_status task))" by (auto simp: onBoard_def)
  from boardInsert_eq_iff [where b = "boardOf (rows s) p", OF this assms(4)] assms(5) show ?thesis
    by (simp add: client_create(2) [OF assms(1-4)] len del: tasksReducer.simps)
qed

definition sampleCard :: "ident \<Rightarrow> task_status \<Rightarrow> int \<Rightarrow> client_task" where
  "sampleCard i st r = \<lparr>ct_row = \<lparr>t_id = i, t_projectId = ''p'', t_title = ''Card'', t_status = st,
     t_categoryId = None, t_rank = r, t_priority = LOW, t_startAt = None, t_endAt = None,
     t_description = None, t_notes = None, t_onCalendar = False\<rparr>, ct_assignees = []\<rparr>"

definition sampleBoard :: "client_task list" where
  "sampleBoard = [sampleCard ''a'' TODO 0, sampleCard ''b'' TODO 1]"

lemma sampleBoard_inv: "clientInv ''p'' sampleBoard"
  by (auto simp: clientInv_def sampleBoard_def sampleCard_def rows_def ranksDense_def dense_def
      columnOf_def inColumn_def)

lemma created_card_lands_one_late_sample:
  "map ct_id (selectColumnTasks (tasksReducer sampleBoard (Task_created (sampleCard ''n'' TODO 0))) TODO) =
     [''a'', ''n'', ''b''] \<and>
   boardOf (rows (tasksReducer sampleBoard (Task_created (sampleCard ''n'' TODO 0)))) ''p'' \<noteq>
   boardInsert TODO (Some 0) ''n'' (boardOf (rows sampleBoard) ''p'')"
proof -
  have c: "ct_id (sampleCard ''n'' TODO 0) \<notin> set (map ct_id sampleBoard)"
    "t_projectId (ct_row (sampleCard ''n'' TODO 0)) = ''p''" "ct_rank (sampleCard ''n'' TODO 0) = 0"
    "ct_id (sampleCard ''n'' TODO 0) = ''n''" "ct_status (sampleCard ''n'' TODO 0) = TODO"
    by (simp_all add: sampleBoard_def sampleCard_def)
  have n: "length (selectColumnTasks sampleBoard TODO) = 2"
    by (simp add: selectColumnTasks_def sampleBoard_def sampleCard_def)
  have "map ct_id (selectColumnTasks (tasksReducer sampleBoard (Task_created (sampleCard ''n'' TODO 0))) TODO) =
      [''a'', ''n'', ''b'']"
    by (simp add: sampleBoard_def sampleCard_def selectColumnTasks_def reindexStatus_def positions_def
        setRank_def)
  then show ?thesis
    using created_card_lands_one_late [OF sampleBoard_inv c(1,2)]
    by (simp add: c n del: tasksReducer.simps) metis
qed

lemma without_middle: "i \<notin> set (ys @ zs) \<Longrightarrow> without i (ys @ i # zs) = ys @ zs"
  using without_id [of i ys] without_id [of i zs] by (simp add: without_def)

lemma without_insertAt: "i \<notin> set xs \<Longrightarrow> without i (insertAt k i xs) = xs"
  unfolding insertAt_def by (subst without_middle) simp_all

text \<open>The rollback of a delete the server refused: deleting a card, creating it again and moving
  it to the status and rank it had restores the board exactly.\<close>

lemma failed_delete_rollback:
  assumes "clientInv p s" and "t \<in> set s"
  shows "boardOf (rows (tasksReducer (tasksReducer (tasksReducer s (Task_deleted (ct_id t)))
       (Task_created t)) (Task_moved (ct_id t) (ct_status t) (ct_rank t)))) p = boardOf (rows s) p"
proof -
  let ?b = "boardOf (rows s) p" and ?i = "ct_id t" and ?st = "ct_status t" and ?r = "ct_rank t"
  let ?s1 = "tasksReducer s (Task_deleted ?i)" and ?s2 = "tasksReducer (tasksReducer s (Task_deleted ?i)) (Task_created t)"
  note inv = clientInvD [OF assms(1)]
  obtain k where k: "k < length (?b ?st)" "?b ?st ! k = ?i" "?r = int k"
    using inv(4) assms(2) unfolding placed_def by blast
  note d = client_delete [OF assms(1), of ?i]
  have no: "\<not> onBoard ?i (boardRemove ?i ?b)" by (simp add: onBoard_def boardRemove_def)
  then have fresh: "?i \<notin> set (map ct_id ?s1)" using onBoard_client [OF d(1), of ?i] d(2) by simp
  have p: "t_projectId (ct_row t) = p" using inv(2) assms(2) by blast
  note c = client_create [OF d(1) fresh p]
  have "onBoard ?i (boardOf (rows ?s2) p)"
    using c(2) k(3) by (auto simp: onBoard_def boardInsert_def set_insertAt)
  then have "?i \<in> set (map ct_id ?s2)" using onBoard_client [OF c(1)] k(3) by simp
  note m = client_move(2) [OF c(1) this, of ?st ?r]
  have rm: "boardRemove ?i (boardInsert ?st x ?i (boardRemove ?i ?b)) = boardRemove ?i ?b" for x
    by (auto simp: boardRemove_def boardInsert_def fun_eq_iff without_insertAt without_id)
  have only: "?i \<notin> set (?b st)" if "st \<noteq> ?st" for st
    using inv(3) k that unfolding boardOn_def by (metis nth_mem)
  have dist: "distinct (?b ?st)" using inv(3) by (simp add: boardOn_def)
  have s: "?b ?st = take k (?b ?st) @ ?i # drop (Suc k) (?b ?st)" using id_take_nth_drop k by metis
  then have "?i \<notin> set (take k (?b ?st) @ drop (Suc k) (?b ?st))"
    using dist by (metis distinct.simps(2) distinct_append distinct_remove1 not_distinct_conv_prefix
        Un_iff disjoint_iff list.set_intros(1) set_append)
  then have w: "without ?i (?b ?st) = take k (?b ?st) @ drop (Suc k) (?b ?st)"
    by (subst s, subst without_middle) simp_all
  have "insertAt k ?i (without ?i (?b ?st)) = ?b ?st"
    using s k(1) by (simp add: w insertAt_def)
  moreover have "k \<le> length (without ?i (?b ?st))" using k(1) by (simp add: w)
  ultimately have "insertAt (clampIndex (Some ?r) (length (without ?i (?b ?st)))) ?i (without ?i (?b ?st)) = ?b ?st"
    by (simp add: k(3) clampIndex_def)
  then have "boardInsert ?st (Some ?r) ?i (boardRemove ?i ?b) = ?b"
    using only by (auto simp: boardInsert_def boardRemove_def fun_eq_iff without_id)
  then show ?thesis using m c(2) d(2) k(3) by (simp add: boardMove_def rm del: tasksReducer.simps)
qed

lemma boardMove_again: "boardMove st x i (boardMove st x i b) = boardMove st x i b"
proof -
  have "boardRemove i (boardInsert st x i (boardRemove i b)) = boardRemove i b"
    by (auto simp: boardRemove_def boardInsert_def fun_eq_iff without_insertAt without_id)
  then show ?thesis by (simp add: boardMove_def)
qed

lemma placed_unique:
  assumes "boardOn I b" and "placed b t" and "(r, t_id t) \<in> set (slots (b s))"
  shows "t_status t = s \<and> t_rank t = r"
proof -
  obtain k where k: "k < length (b (t_status t))" "b (t_status t) ! k = t_id t" "t_rank t = int k"
    using assms(2) unfolding placed_def by blast
  obtain j where j: "j < length (b s)" "b s ! j = t_id t" "r = int j"
    using assms(3) by (auto simp: in_set_conv_nth slots_nth)
  have "t_id t \<in> set (b (t_status t))" "t_id t \<in> set (b s)" using k j by (metis nth_mem)+
  then have s: "t_status t = s" using assms(1) unfolding boardOn_def by blast
  moreover have "distinct (b s)" using assms(1) by (simp add: boardOn_def)
  ultimately show ?thesis using k j by (metis nth_eq_iff_index_eq)
qed

text \<open>Moves are idempotent: dispatching the same \<open>task_moved\<close> a second time (the server's echo
  of a local drag) changes no card at all.\<close>

lemma task_moved_idempotent:
  assumes "clientInv p s"
  shows "tasksReducer (tasksReducer s (Task_moved i st k)) (Task_moved i st k) =
     tasksReducer s (Task_moved i st k)"
proof (cases "i \<in> set (map ct_id s)")
  case False
  then have "List.find (\<lambda>t. ct_id t = i) s = None" by (auto simp: find_None_iff_all)
  then show ?thesis by simp
next
  case True
  define s1 where "s1 = tasksReducer s (Task_moved i st k)"
  let ?b = "boardMove st (Some k) i (boardOf (rows s) p)"
  have inv: "clientInv p s1" and b: "boardOf (rows s1) p = ?b"
    using client_move [OF assms True] by (simp_all add: s1_def)
  note i1 = clientInvD [OF inv, unfolded b]
  have "onBoard i ?b" by (auto simp: onBoard_def boardMove_def boardInsert_def set_insertAt)
  then have "i \<in> set (map ct_id s1)" using onBoard_client [OF inv] b by simp
  then obtain moved where m: "List.find (\<lambda>t. ct_id t = i) s1 = Some moved"
    by (cases "List.find (\<lambda>t. ct_id t = i) s1") (auto simp: find_None_iff_all)
  then have mv: "moved \<in> set s1" "ct_id moved = i" by (auto dest: find_SomeD)
  have "movedTask s1 moved st k t = t" if t: "t \<in> set s1" for t
  proof (cases "map_of (rev (movePositions s1 moved st k)) (ct_id t)")
    case (Some sr)
    obtain q r where sr: "sr = (q, r)" by (cases sr)
    have "(ct_id t, q, r) \<in> set (movePositions s1 moved st k)"
      using map_of_SomeD [OF Some] by (simp add: sr)
    then have "(r, ct_id t) \<in> set (slots (?b q))"
      using movePositions_set(1) [OF inv mv(1), of "ct_id t" q r st k, unfolded mv(2) b boardMove_again] by blast
    from placed_unique [OF i1(3) _ this] i1(4) t have "ct_status t = q \<and> ct_rank t = r" by blast
    then show ?thesis using Some by (simp add: movedTask_def sr)
  qed (simp add: movedTask_def)
  then have "moveInBoard s1 moved st k = s1" by (simp add: moveInBoard_map map_idI)
  then have "tasksReducer s1 (Task_moved i st k) = s1" using m by simp
  then show ?thesis by (simp only: s1_def)
qed

lemma task_moved_idempotent_sample:
  "tasksReducer (tasksReducer sampleBoard (Task_moved ''b'' TODO 0)) (Task_moved ''b'' TODO 0) =
   tasksReducer sampleBoard (Task_moved ''b'' TODO 0)"
  by (rule task_moved_idempotent [OF sampleBoard_inv])

lemma failed_delete_rollback_sample:
  "boardOf (rows (tasksReducer (tasksReducer (tasksReducer sampleBoard (Task_deleted ''a''))
     (Task_created (sampleCard ''a'' TODO 0))) (Task_moved ''a'' TODO 0))) ''p'' =
   boardOf (rows sampleBoard) ''p''"
  using failed_delete_rollback [OF sampleBoard_inv, of "sampleCard ''a'' TODO 0"]
  by (simp add: sampleBoard_def sampleCard_def del: tasksReducer.simps)

end
