(* ===== verification/Coordinator.thy ===== *)
theory Coordinator
  imports Prelude
begin

text \<open>
  The locks behind \<open>withProject\<close> and \<open>withProjectResource\<close>
  (\<open>backend/src/realtime/field-lock-manager.ts\<close>): \<open>ProjectCoordinator\<close>, a readers-writer lock
  with a queue of waiters, and \<open>KeyedCoordinator\<close>, a chain of promises per key. A caller is a
  ticket number that stands for the \<open>resolve\<close> callback of its promise; \<open>granted\<close> logs the
  promises in the order they resolve, \<open>holding\<close> the tickets whose release has not been called.
\<close>

section \<open>ProjectCoordinator\<close>

datatype lock_mode = Shared | Exclusive

record coordinator =
  readerCount :: int
  writerActive :: bool
  waiters :: "(lock_mode \<times> nat) list"
  granted :: "(lock_mode \<times> nat) list"
  holding :: "(lock_mode \<times> nat) list"

definition newCoordinator :: coordinator where
  "newCoordinator = \<lparr>readerCount = 0, writerActive = False, waiters = [], granted = [], holding = []\<rparr>"

definition resolveWaiter :: "lock_mode \<times> nat \<Rightarrow> coordinator \<Rightarrow> coordinator" where
  "resolveWaiter w c = c\<lparr>granted := granted c @ [w], holding := holding c @ [w]\<rparr>"

definition enqueue :: "lock_mode \<times> nat \<Rightarrow> coordinator \<Rightarrow> coordinator" where
  "enqueue w c = c\<lparr>waiters := waiters c @ [w]\<rparr>"

definition acquireShared :: "nat \<Rightarrow> coordinator \<Rightarrow> coordinator" where
  "acquireShared t c =
     (if \<not> writerActive c \<and> \<not> list_ex (\<lambda>w. fst w = Exclusive) (waiters c)
      then resolveWaiter (Shared, t) (c\<lparr>readerCount := readerCount c + 1\<rparr>)
      else enqueue (Shared, t) c)"

definition acquireExclusive :: "nat \<Rightarrow> coordinator \<Rightarrow> coordinator" where
  "acquireExclusive t c =
     (if \<not> writerActive c \<and> readerCount c = 0 \<and> waiters c = []
      then resolveWaiter (Exclusive, t) (c\<lparr>writerActive := True\<rparr>)
      else enqueue (Exclusive, t) c)"

definition isIdle :: "coordinator \<Rightarrow> bool" where
  "isIdle c \<longleftrightarrow> \<not> writerActive c \<and> readerCount c = 0 \<and> waiters c = []"

fun drainShared :: "(lock_mode \<times> nat) list \<Rightarrow> coordinator \<Rightarrow> coordinator" where
  "drainShared ((Shared, t) # ws) c =
     drainShared ws (resolveWaiter (Shared, t) (c\<lparr>readerCount := readerCount c + 1, waiters := ws\<rparr>))"
| "drainShared ws c = c"

definition drain :: "coordinator \<Rightarrow> coordinator" where
  "drain c = (if writerActive c \<or> readerCount c > 0 then c
     else case waiters c of
       [] \<Rightarrow> c
     | (Exclusive, t) # ws \<Rightarrow> resolveWaiter (Exclusive, t) (c\<lparr>waiters := ws, writerActive := True\<rparr>)
     | (Shared, t) # ws \<Rightarrow> drainShared (waiters c) c)"

definition releaseShared :: "nat \<Rightarrow> coordinator \<Rightarrow> coordinator" where
  "releaseShared t c = drain (c\<lparr>readerCount := readerCount c - 1,
     holding := remove1 (Shared, t) (holding c)\<rparr>)"

definition releaseExclusive :: "nat \<Rightarrow> coordinator \<Rightarrow> coordinator" where
  "releaseExclusive t c = drain (c\<lparr>writerActive := False,
     holding := remove1 (Exclusive, t) (holding c)\<rparr>)"

text \<open>What callers may do: ask for the lock, and call the release they were given, once.\<close>

inductive lockStep :: "coordinator \<Rightarrow> coordinator \<Rightarrow> bool" where
  askShared: "lockStep c (acquireShared t c)"
| askExclusive: "lockStep c (acquireExclusive t c)"
| doneShared: "(Shared, t) \<in> set (holding c) \<Longrightarrow> lockStep c (releaseShared t c)"
| doneExclusive: "(Exclusive, t) \<in> set (holding c) \<Longrightarrow> lockStep c (releaseExclusive t c)"

inductive lockReachable :: "coordinator \<Rightarrow> bool" where
  start: "lockReachable newCoordinator"
| step: "lockReachable c \<Longrightarrow> lockStep c d \<Longrightarrow> lockReachable d"

section \<open>Its invariant\<close>

definition readersOf :: "coordinator \<Rightarrow> (lock_mode \<times> nat) list" where
  "readersOf c = filter (\<lambda>w. fst w = Shared) (holding c)"

definition writersOf :: "coordinator \<Rightarrow> (lock_mode \<times> nat) list" where
  "writersOf c = filter (\<lambda>w. fst w = Exclusive) (holding c)"

text \<open>
  The counters are the holders; a writer excludes readers; nobody waits while the lock is free;
  while readers hold it the first waiter is a writer.
\<close>

definition lockInv :: "coordinator \<Rightarrow> bool" where
  "lockInv c \<longleftrightarrow> readerCount c = int (length (readersOf c)) \<and>
     length (writersOf c) = (if writerActive c then 1 else 0) \<and>
     (writerActive c \<longrightarrow> readerCount c = 0) \<and>
     (\<not> writerActive c \<and> readerCount c = 0 \<longrightarrow> waiters c = []) \<and>
     (\<not> writerActive c \<and> waiters c \<noteq> [] \<longrightarrow> fst (hd (waiters c)) = Exclusive)"

text \<open>The part of the invariant that holds in the middle of a release.\<close>

definition countsInv :: "coordinator \<Rightarrow> bool" where
  "countsInv c \<longleftrightarrow> readerCount c = int (length (readersOf c)) \<and>
     length (writersOf c) = (if writerActive c then 1 else 0)"

lemma resolve_simps [simp]:
  "readerCount (resolveWaiter w c) = readerCount c" "writerActive (resolveWaiter w c) = writerActive c"
  "waiters (resolveWaiter w c) = waiters c" "granted (resolveWaiter w c) = granted c @ [w]"
  "holding (resolveWaiter w c) = holding c @ [w]"
  by (simp_all add: resolveWaiter_def)

lemma drainShared_spec:
  "\<exists>k. waiters (drainShared ws (c\<lparr>waiters := ws\<rparr>)) = drop k ws \<and>
     granted (drainShared ws (c\<lparr>waiters := ws\<rparr>)) = granted c @ take k ws \<and>
     holding (drainShared ws (c\<lparr>waiters := ws\<rparr>)) = holding c @ take k ws \<and>
     writerActive (drainShared ws (c\<lparr>waiters := ws\<rparr>)) = writerActive c \<and>
     readerCount (drainShared ws (c\<lparr>waiters := ws\<rparr>)) = readerCount c + int (length (take k ws)) \<and>
     (\<forall>w\<in>set (take k ws). fst w = Shared) \<and> k \<le> length ws \<and>
     (drop k ws \<noteq> [] \<longrightarrow> fst (hd (drop k ws)) = Exclusive)"
proof (induction ws arbitrary: c)
  case Nil
  then show ?case by simp
next
  case (Cons w ws)
  obtain m t where w: "w = (m, t)" by (cases w)
  show ?case
  proof (cases m)
    case Shared
    let ?d = "resolveWaiter (Shared, t) (c\<lparr>readerCount := readerCount c + 1\<rparr>)"
    have d: "resolveWaiter (Shared, t) (c\<lparr>readerCount := readerCount c + 1, waiters := ws\<rparr>) =
        ?d\<lparr>waiters := ws\<rparr>" by (simp add: resolveWaiter_def)
    obtain k where k: "waiters (drainShared ws (?d\<lparr>waiters := ws\<rparr>)) = drop k ws"
      "granted (drainShared ws (?d\<lparr>waiters := ws\<rparr>)) = granted ?d @ take k ws"
      "holding (drainShared ws (?d\<lparr>waiters := ws\<rparr>)) = holding ?d @ take k ws"
      "writerActive (drainShared ws (?d\<lparr>waiters := ws\<rparr>)) = writerActive ?d"
      "readerCount (drainShared ws (?d\<lparr>waiters := ws\<rparr>)) = readerCount ?d + int (length (take k ws))"
      "\<forall>w\<in>set (take k ws). fst w = Shared" "k \<le> length ws"
      "drop k ws \<noteq> [] \<longrightarrow> fst (hd (drop k ws)) = Exclusive"
      using Cons.IH [of ?d] by blast
    show ?thesis
      by (rule exI [of _ "Suc k"]) (use k in \<open>simp add: w Shared d\<close>)
  next
    case Exclusive
    then show ?thesis by (intro exI [of _ 0]) (simp add: w)
  qed
qed

lemma drain_shared:
  assumes "waiters c = (Shared, t) # ws"
  obtains k where "0 < k" "k \<le> length (waiters c)"
    "waiters (drainShared (waiters c) c) = drop k (waiters c)"
    "granted (drainShared (waiters c) c) = granted c @ take k (waiters c)"
    "holding (drainShared (waiters c) c) = holding c @ take k (waiters c)"
    "writerActive (drainShared (waiters c) c) = writerActive c"
    "readerCount (drainShared (waiters c) c) = readerCount c + int k"
    "\<forall>w\<in>set (take k (waiters c)). fst w = Shared"
    "drop k (waiters c) \<noteq> [] \<longrightarrow> fst (hd (drop k (waiters c))) = Exclusive"
proof -
  have "c\<lparr>waiters := waiters c\<rparr> = c" by simp
  then obtain k where k: "waiters (drainShared (waiters c) c) = drop k (waiters c)"
    "granted (drainShared (waiters c) c) = granted c @ take k (waiters c)"
    "holding (drainShared (waiters c) c) = holding c @ take k (waiters c)"
    "writerActive (drainShared (waiters c) c) = writerActive c"
    "readerCount (drainShared (waiters c) c) = readerCount c + int (length (take k (waiters c)))"
    "\<forall>w\<in>set (take k (waiters c)). fst w = Shared" "k \<le> length (waiters c)"
    "drop k (waiters c) \<noteq> [] \<longrightarrow> fst (hd (drop k (waiters c))) = Exclusive"
    using drainShared_spec [of "waiters c" c] by metis
  have "k \<noteq> 0"
  proof
    assume "k = 0"
    then show False using k(8) assms by simp
  qed
  then show ?thesis using that [of k] k by simp
qed

lemma drain_fifo:
  "\<exists>k \<le> length (waiters c). waiters (drain c) = drop k (waiters c) \<and>
     granted (drain c) = granted c @ take k (waiters c) \<and>
     holding (drain c) = holding c @ take k (waiters c)"
proof (cases "writerActive c \<or> readerCount c > 0 \<or> waiters c = []")
  case True
  then show ?thesis by (intro exI [of _ 0]) (auto simp: drain_def)
next
  case False
  then obtain m t ws where w: "waiters c = (m, t) # ws" by (metis list.exhaust prod.exhaust)
  show ?thesis
  proof (cases m)
    case Shared
    then have "drain c = drainShared (waiters c) c" using False w by (simp add: drain_def)
    then show ?thesis using drain_shared [of c t ws] w Shared by metis
  next
    case Exclusive
    then show ?thesis using False w by (intro exI [of _ 1]) (simp add: drain_def)
  qed
qed

lemma drain_inv:
  assumes "countsInv c" and "\<not> writerActive c"
    and "readerCount c > 0 \<Longrightarrow> waiters c \<noteq> [] \<Longrightarrow> fst (hd (waiters c)) = Exclusive"
  shows "lockInv (drain c)"
proof -
  have counts: "readerCount c = int (length (readersOf c))" "writersOf c = []"
    using assms(1,2) by (simp_all add: countsInv_def)
  show ?thesis
  proof (cases "readerCount c > 0 \<or> waiters c = []")
    case True
    then have "drain c = c" by (auto simp: drain_def)
    then show ?thesis using True assms counts by (auto simp: lockInv_def)
  next
    case False
    then obtain m t ws where w: "waiters c = (m, t) # ws" by (metis list.exhaust prod.exhaust)
    have zero: "readerCount c = 0" using False counts by simp
    show ?thesis
    proof (cases m)
      case Shared
      then have d: "drain c = drainShared (waiters c) c" using False assms(2) w by (simp add: drain_def)
      obtain k where k: "0 < k" "k \<le> length (waiters c)"
        "waiters (drain c) = drop k (waiters c)" "holding (drain c) = holding c @ take k (waiters c)"
        "writerActive (drain c) = writerActive c" "readerCount (drain c) = readerCount c + int k"
        "\<forall>w\<in>set (take k (waiters c)). fst w = Shared"
        "drop k (waiters c) \<noteq> [] \<longrightarrow> fst (hd (drop k (waiters c))) = Exclusive"
        using drain_shared [of c t ws] w Shared unfolding d by metis
      have "readersOf (drain c) = readersOf c @ take k (waiters c)"
        using k(7) by (simp add: readersOf_def k(4) filter_id_conv)
      moreover have "writersOf (drain c) = []"
        using k(7) counts(2) by (auto simp: writersOf_def k(4) filter_empty_conv)
      ultimately show ?thesis
        using k assms(2) counts(1) zero by (simp add: lockInv_def)
    next
      case Exclusive
      then have d: "drain c = resolveWaiter (Exclusive, t) (c\<lparr>waiters := ws, writerActive := True\<rparr>)"
        using False assms(2) w by (simp add: drain_def)
      show ?thesis
        using counts zero by (simp add: d lockInv_def readersOf_def writersOf_def)
    qed
  qed
qed

lemma length_filter_remove1:
  "x \<in> set xs \<Longrightarrow> length (filter P (remove1 x xs)) = length (filter P xs) - (if P x then 1 else 0)"
  by (simp add: filter_remove1 length_remove1)

lemma lockStep_inv:
  assumes "lockStep c d" and "lockInv c"
  shows "lockInv d"
  using assms(1)
proof cases
  case (askShared t)
  then show ?thesis
    using assms(2) by (auto simp: acquireShared_def enqueue_def lockInv_def readersOf_def writersOf_def
        list_ex_iff hd_append)
next
  case (askExclusive t)
  then show ?thesis
    using assms(2) by (auto simp: acquireExclusive_def enqueue_def lockInv_def readersOf_def writersOf_def
        hd_append)
next
  case (doneShared t)
  let ?c = "c\<lparr>readerCount := readerCount c - 1, holding := remove1 (Shared, t) (holding c)\<rparr>"
  have "(Shared, t) \<in> set (readersOf c)" using doneShared(2) by (simp add: readersOf_def)
  then have pos: "length (readersOf c) > 0" by (metis length_pos_if_in_set)
  then have nw: "\<not> writerActive c" using assms(2) by (auto simp: lockInv_def)
  have "length (readersOf ?c) = length (readersOf c) - 1" "length (writersOf ?c) = length (writersOf c)"
    using doneShared(2) by (simp_all add: readersOf_def writersOf_def length_filter_remove1)
  then have "countsInv ?c"
    using assms(2) pos by (simp add: countsInv_def lockInv_def of_nat_diff Suc_leI)
  then have "lockInv (drain ?c)"
    by (rule drain_inv) (use nw assms(2) in \<open>auto simp: lockInv_def\<close>)
  then show ?thesis unfolding doneShared(1) releaseShared_def .
next
  case (doneExclusive t)
  let ?c = "c\<lparr>writerActive := False, holding := remove1 (Exclusive, t) (holding c)\<rparr>"
  have "(Exclusive, t) \<in> set (writersOf c)" using doneExclusive(2) by (simp add: writersOf_def)
  then have w: "writerActive c" "length (writersOf c) = 1"
    using assms(2) by (auto simp: lockInv_def split: if_splits)
  have "countsInv ?c"
    using assms(2) w doneExclusive(2)
    by (simp add: countsInv_def lockInv_def readersOf_def writersOf_def length_filter_remove1)
  then have "lockInv (drain ?c)"
    by (rule drain_inv) (use w assms(2) in \<open>auto simp: lockInv_def\<close>)
  then show ?thesis unfolding doneExclusive(1) releaseExclusive_def .
qed

lemma reachable_inv: "lockReachable c \<Longrightarrow> lockInv c"
proof (induction rule: lockReachable.induct)
  case start
  then show ?case by (simp add: lockInv_def newCoordinator_def readersOf_def writersOf_def)
qed (rule lockStep_inv)

section \<open>KeyedCoordinator\<close>

text \<open>
  \<open>tails\<close> maps a key to its last promise. A promise of the chain is the list of tickets whose
  release it waits for: \<open>previous.then(() => current)\<close> is the previous list with the new ticket
  at its end, and \<open>Promise.resolve()\<close> is the empty list.
\<close>

record keyed =
  tails :: "string \<Rightarrow> nat list option"
  issued :: "(nat \<times> string \<times> nat list) list"
  finished :: "nat list"

definition newKeyed :: keyed where
  "newKeyed = \<lparr>tails = (\<lambda>_. None), issued = [], finished = []\<rparr>"

definition previousTail :: "keyed \<Rightarrow> string \<Rightarrow> nat list" where
  "previousTail s key = (case tails s key of None \<Rightarrow> [] | Some p \<Rightarrow> p)"

definition keyedAcquire :: "nat \<Rightarrow> string \<Rightarrow> keyed \<Rightarrow> keyed" where
  "keyedAcquire t key s =
     (let previous = previousTail s key;
          tail = previous @ [t] in
      s\<lparr>tails := (tails s)(key := Some tail), issued := issued s @ [(t, key, previous)]\<rparr>)"

definition keyedRelease :: "nat \<times> string \<times> nat list \<Rightarrow> keyed \<Rightarrow> keyed" where
  "keyedRelease ticket s = (case ticket of (t, key, previous) \<Rightarrow>
     (let s1 = s\<lparr>finished := t # finished s\<rparr> in
      if tails s1 key = Some (previous @ [t]) then s1\<lparr>tails := (tails s1)(key := None)\<rparr> else s1))"

text \<open>The operation of a ticket runs once \<open>await previous\<close> is over and until its release.\<close>

definition running :: "keyed \<Rightarrow> nat \<times> string \<times> nat list \<Rightarrow> bool" where
  "running s ticket = (case ticket of (t, key, previous) \<Rightarrow>
     ticket \<in> set (issued s) \<and> list_all (\<lambda>p. p \<in> set (finished s)) previous \<and> t \<notin> set (finished s))"

inductive keyedStep :: "keyed \<Rightarrow> keyed \<Rightarrow> bool" where
  ask: "t \<notin> fst ` set (issued s) \<Longrightarrow> keyedStep s (keyedAcquire t key s)"
| finish: "running s ticket \<Longrightarrow> keyedStep s (keyedRelease ticket s)"

inductive keyedReachable :: "keyed \<Rightarrow> bool" where
  start: "keyedReachable newKeyed"
| step: "keyedReachable s \<Longrightarrow> keyedStep s s' \<Longrightarrow> keyedReachable s'"

definition pending :: "keyed \<Rightarrow> string \<Rightarrow> nat set" where
  "pending s key = {t. (\<exists>ps. (t, key, ps) \<in> set (issued s)) \<and> t \<notin> set (finished s)}"

definition keyedInv :: "keyed \<Rightarrow> bool" where
  "keyedInv s \<longleftrightarrow> distinct (map fst (issued s)) \<and> set (finished s) \<subseteq> fst ` set (issued s) \<and>
     (\<forall>key. pending s key \<subseteq> (case tails s key of None \<Rightarrow> {} | Some p \<Rightarrow> set p)) \<and>
     (\<forall>i j t key ps u qs. i < j \<longrightarrow> j < length (issued s) \<longrightarrow> issued s ! i = (t, key, ps) \<longrightarrow>
        issued s ! j = (u, key, qs) \<longrightarrow> t \<notin> set (finished s) \<longrightarrow> t \<in> set qs)"

lemma keyedInv_new: "keyedInv newKeyed"
  by (simp add: keyedInv_def newKeyed_def pending_def)

lemma keyedInvD:
  assumes "keyedInv s"
  shows "distinct (map fst (issued s))" "set (finished s) \<subseteq> fst ` set (issued s)"
    "pending s key \<subseteq> (case tails s key of None \<Rightarrow> {} | Some p \<Rightarrow> set p)"
    "i < j \<Longrightarrow> j < length (issued s) \<Longrightarrow> issued s ! i = (t, key, ps) \<Longrightarrow>
       issued s ! j = (u, key, qs) \<Longrightarrow> t \<notin> set (finished s) \<Longrightarrow> t \<in> set qs"
  using assms unfolding keyedInv_def by blast+

lemma keyedInvI:
  assumes "distinct (map fst (issued s))" and "set (finished s) \<subseteq> fst ` set (issued s)"
    and "\<And>key. pending s key \<subseteq> (case tails s key of None \<Rightarrow> {} | Some p \<Rightarrow> set p)"
    and "\<And>i j t key ps u qs. i < j \<Longrightarrow> j < length (issued s) \<Longrightarrow> issued s ! i = (t, key, ps) \<Longrightarrow>
       issued s ! j = (u, key, qs) \<Longrightarrow> t \<notin> set (finished s) \<Longrightarrow> t \<in> set qs"
  shows "keyedInv s"
  unfolding keyedInv_def using assms by blast

lemma keyedAcquire_inv:
  assumes "keyedInv s" and "t \<notin> fst ` set (issued s)"
  shows "keyedInv (keyedAcquire t key s)"
proof -
  let ?previous = "previousTail s key" and ?s = "keyedAcquire t key s"
  have iss: "issued ?s = issued s @ [(t, key, ?previous)]" and rel: "finished ?s = finished s"
    and tl: "tails ?s = (tails s)(key := Some (?previous @ [t]))"
    by (simp_all add: keyedAcquire_def Let_def)
  have fresh: "t \<notin> set (finished s)" using keyedInvD(2) [OF assms(1)] assms(2) by blast
  have pend: "pending ?s k = (if k = key then insert t (pending s k) else pending s k)" for k
    using fresh by (auto simp: pending_def iss rel)
  have old: "pending s key \<subseteq> set ?previous"
    using keyedInvD(3) [OF assms(1), of key] by (cases "tails s key") (auto simp: previousTail_def)
  show ?thesis
  proof (rule keyedInvI)
    show "distinct (map fst (issued ?s))"
      using keyedInvD(1) [OF assms(1)] assms(2) by (simp add: iss)
    show "set (finished ?s) \<subseteq> fst ` set (issued ?s)"
      using keyedInvD(2) [OF assms(1)] by (auto simp: iss rel)
    show "pending ?s k \<subseteq> (case tails ?s k of None \<Rightarrow> {} | Some p \<Rightarrow> set p)" for k
      using keyedInvD(3) [OF assms(1), of k] old by (cases "k = key") (auto simp: pend tl)
  next
    fix i j u k ps v qs
    assume ij: "i < j" "j < length (issued ?s)" and u: "issued ?s ! i = (u, k, ps)" "u \<notin> set (finished ?s)"
      and v: "issued ?s ! j = (v, k, qs)"
    show "u \<in> set qs"
    proof (cases "j < length (issued s)")
      case True
      then show ?thesis
        using keyedInvD(4) [OF assms(1) ij(1) True, of u k ps v qs] ij u v by (simp add: iss rel nth_append)
    next
      case False
      then have j: "j = length (issued s)" using ij(2) by (simp add: iss)
      have "(t, key, ?previous) = (v, k, qs)" using v unfolding iss j by (simp only: nth_append_length)
      then have kv: "k = key" "qs = ?previous" by (metis prod.inject)+
      have "(u, k, ps) \<in> set (issued s)" using ij(1) u(1) j by (metis iss nth_append nth_mem)
      then have "u \<in> pending s key" using u(2) kv(1) by (auto simp: pending_def rel)
      then show ?thesis using old kv(2) by blast
    qed
  qed
qed

lemma keyedRelease_inv:
  assumes "keyedInv s" and "running s (t, key, ps)"
  shows "keyedInv (keyedRelease (t, key, ps) s)"
proof -
  let ?s = "keyedRelease (t, key, ps) s"
  have run: "(t, key, ps) \<in> set (issued s)" "\<forall>p\<in>set ps. p \<in> set (finished s)" "t \<notin> set (finished s)"
    using assms(2) by (auto simp: running_def list_all_iff)
  have iss: "issued ?s = issued s" and rel: "finished ?s = t # finished s"
    and tl: "tails ?s = (if tails s key = Some (ps @ [t]) then (tails s)(key := None) else tails s)"
    by (simp_all add: keyedRelease_def Let_def)
  have pend: "pending ?s k = pending s k - {t}" for k by (auto simp: pending_def iss rel)
  have none: "pending s key - {t} = {}" if "tails s key = Some (ps @ [t])"
    using keyedInvD(3) [OF assms(1), of key] that run(2) by (auto simp: pending_def)
  show ?thesis
  proof (rule keyedInvI)
    show "distinct (map fst (issued ?s))" using keyedInvD(1) [OF assms(1)] by (simp add: iss)
    have "t \<in> fst ` set (issued s)" using run(1) by force
    then show "set (finished ?s) \<subseteq> fst ` set (issued ?s)"
      using keyedInvD(2) [OF assms(1)] by (simp add: iss rel)
    show "pending ?s k \<subseteq> (case tails ?s k of None \<Rightarrow> {} | Some p \<Rightarrow> set p)" for k
      using keyedInvD(3) [OF assms(1), of k] none by (cases "k = key") (auto simp: pend tl)
    show "u \<in> set qs" if "i < j" "j < length (issued ?s)" "issued ?s ! i = (u, k, rs)"
      "issued ?s ! j = (v, k, qs)" "u \<notin> set (finished ?s)" for i j u k rs v qs
      using keyedInvD(4) [OF assms(1), of i j u k rs v qs] that by (simp add: iss rel)
  qed
qed

lemma keyedStep_inv: "keyedStep s s' \<Longrightarrow> keyedInv s \<Longrightarrow> keyedInv s'"
  by (induction rule: keyedStep.induct) (auto intro: keyedAcquire_inv keyedRelease_inv)

lemma keyedReachable_inv: "keyedReachable s \<Longrightarrow> keyedInv s"
  by (induction rule: keyedReachable.induct) (auto intro: keyedInv_new keyedStep_inv)

text \<open>Every promise waits only for tickets issued earlier for the same key.\<close>

definition keyedChain :: "keyed \<Rightarrow> bool" where
  "keyedChain s \<longleftrightarrow>
     (\<forall>key p t. tails s key = Some p \<longrightarrow> t \<in> set p \<longrightarrow> (\<exists>ps. (t, key, ps) \<in> set (issued s))) \<and>
     (\<forall>j u key qs t. j < length (issued s) \<longrightarrow> issued s ! j = (u, key, qs) \<longrightarrow> t \<in> set qs \<longrightarrow>
        (\<exists>i ps. i < j \<and> issued s ! i = (t, key, ps)))"

lemma keyedStep_chain:
  assumes "keyedStep s s'" and "keyedChain s"
  shows "keyedChain s'"
  using assms(1)
proof cases
  case (ask t key)
  let ?previous = "previousTail s key"
  have iss: "issued s' = issued s @ [(t, key, ?previous)]"
    and tl: "tails s' = (tails s)(key := Some (?previous @ [t]))"
    by (simp_all add: ask(1) keyedAcquire_def Let_def)
  have t1: "\<exists>ps. (u, k, ps) \<in> set (issued s)" if "tails s k = Some p" "u \<in> set p" for k p u
    using assms(2) that unfolding keyedChain_def by blast
  have prev: "\<exists>ps. (u, key, ps) \<in> set (issued s)" if "u \<in> set ?previous" for u
    using that t1 [of key] by (cases "tails s key") (auto simp: previousTail_def)
  have "\<exists>ps. (u, k, ps) \<in> set (issued s')" if "tails s' k = Some p" "u \<in> set p" for k p u
    using that t1 [of k p u] prev [of u] by (auto simp: tl iss split: if_splits) blast+
  moreover have "\<exists>i ps. i < j \<and> issued s' ! i = (u, k, ps)"
    if jl: "j < length (issued s')" and jv: "issued s' ! j = (v, k, qs)" and uq: "u \<in> set qs" for j v k qs u
  proof (cases "j < length (issued s)")
    case True
    then have "issued s ! j = (v, k, qs)" using jv by (simp add: iss nth_append)
    then obtain i ps where "i < j" "issued s ! i = (u, k, ps)"
      using assms(2) True uq unfolding keyedChain_def by blast
    then show ?thesis using True by (metis iss nth_append order_less_trans)
  next
    case False
    then have j: "j = length (issued s)" using jl by (simp add: iss)
    have "(t, key, ?previous) = (v, k, qs)" using jv unfolding iss j by (simp only: nth_append_length)
    then have "k = key" "u \<in> set ?previous" using uq by (metis prod.inject)+
    then obtain ps where "(u, k, ps) \<in> set (issued s)" using prev by blast
    then obtain i where "i < length (issued s)" "issued s ! i = (u, k, ps)" by (meson in_set_conv_nth)
    then show ?thesis using j by (metis iss nth_append)
  qed
  ultimately show ?thesis unfolding keyedChain_def by blast
next
  case (finish ticket)
  obtain t key ps where tk: "ticket = (t, key, ps)" by (cases ticket)
  have iss: "issued s' = issued s"
    and tl: "tails s' = (if tails s key = Some (ps @ [t]) then (tails s)(key := None) else tails s)"
    by (simp_all add: finish(1) keyedRelease_def tk Let_def)
  have "tails s' k = Some p \<Longrightarrow> tails s k = Some p" for k p by (auto simp: tl split: if_splits)
  then show ?thesis using assms(2) unfolding keyedChain_def iss by blast
qed

lemma keyedReachable_chain: "keyedReachable s \<Longrightarrow> keyedChain s"
proof (induction rule: keyedReachable.induct)
  case start
  then show ?case by (simp add: keyedChain_def newKeyed_def)
qed (rule keyedStep_chain)

lemma holding_split: "length (holding c) = length (readersOf c) + length (writersOf c)"
proof -
  have e: "(m = Exclusive) = (m \<noteq> Shared)" for m by (cases m) simp_all
  show ?thesis
    unfolding readersOf_def writersOf_def e by (rule sum_length_filter_compl [symmetric])
qed

section \<open>Properties\<close>

text \<open>The project lock excludes: in every reachable state a caller with exclusive access (a
  membership change) is the only holder, so no field operation runs beside it.\<close>

lemma exclusive_holder_alone:
  assumes "lockReachable c" and "(Exclusive, t) \<in> set (holding c)"
  shows "holding c = [(Exclusive, t)]"
proof -
  note inv = reachable_inv [OF assms(1)]
  have "(Exclusive, t) \<in> set (writersOf c)" using assms(2) by (simp add: writersOf_def)
  then have "writerActive c" using inv by (auto simp: lockInv_def split: if_splits)
  then have "length (holding c) = 1" unfolding holding_split using inv by (auto simp: lockInv_def)
  then show ?thesis using assms(2) by (auto simp: length_Suc_conv)
qed

definition sampleQueue :: coordinator where
  "sampleQueue = acquireShared 7 (acquireExclusive 5 (acquireShared 3 newCoordinator))"

lemma sampleQueue_run:
  "sampleQueue = \<lparr>readerCount = 1, writerActive = False, waiters = [(Exclusive, 5), (Shared, 7)],
     granted = [(Shared, 3)], holding = [(Shared, 3)]\<rparr>"
  "releaseShared 3 sampleQueue = \<lparr>readerCount = 0, writerActive = True, waiters = [(Shared, 7)],
     granted = [(Shared, 3), (Exclusive, 5)], holding = [(Exclusive, 5)]\<rparr>"
  by (simp_all add: sampleQueue_def acquireShared_def acquireExclusive_def newCoordinator_def
      resolveWaiter_def enqueue_def releaseShared_def drain_def)

lemma sampleQueue_reachable: "lockReachable sampleQueue"
  unfolding sampleQueue_def
  by (intro lockReachable.step [OF _ askShared] lockReachable.step [OF _ askExclusive] lockReachable.start)

lemma sampleQueue_step: "lockStep sampleQueue (releaseShared 3 sampleQueue)"
  by (rule doneShared) (simp add: sampleQueue_run)

lemma exclusive_holder_alone_sample: "holding (releaseShared 3 sampleQueue) = [(Exclusive, 5)]"
  by (rule exclusive_holder_alone [OF lockReachable.step [OF sampleQueue_reachable sampleQueue_step]])
     (subst sampleQueue_run(2), simp)

text \<open>C4 The project lock is fair and loses no waiter: while callers wait, every step grants
  exactly a prefix of the queue in order of arrival and a newcomer goes to its end; and after
  every step nobody waits for a lock that nobody holds.\<close>

theorem project_lock_fair:
  assumes "lockReachable c" and "lockStep c d"
  shows "(waiters c \<noteq> [] \<longrightarrow> (\<exists>k new. granted d = granted c @ take k (waiters c) \<and>
       waiters d = drop k (waiters c) @ new)) \<and>
     (holding d = [] \<longrightarrow> waiters d = [])"
proof
  have inv: "lockInv c" "lockInv d"
    using reachable_inv [OF assms(1)] lockStep_inv [OF assms(2)] by auto
  show "holding d = [] \<longrightarrow> waiters d = []"
  proof
    assume "holding d = []"
    then have "readersOf d = []" "writersOf d = []" by (simp_all add: readersOf_def writersOf_def)
    then show "waiters d = []" using inv(2) by (simp add: lockInv_def split: if_splits)
  qed
  show "waiters c \<noteq> [] \<longrightarrow> (\<exists>k new. granted d = granted c @ take k (waiters c) \<and>
       waiters d = drop k (waiters c) @ new)"
  proof
    assume w: "waiters c \<noteq> []"
    let ?G = "\<exists>k new. granted d = granted c @ take k (waiters c) \<and> waiters d = drop k (waiters c) @ new"
    have queued: ?G if "d = enqueue x c" for x
      by (rule exI [of _ 0], rule exI [of _ "[x]"]) (simp add: that enqueue_def)
    have drained: ?G if d: "d = drain c'" "waiters c' = waiters c" "granted c' = granted c" for c'
    proof -
      obtain k where "waiters (drain c') = drop k (waiters c')"
        "granted (drain c') = granted c' @ take k (waiters c')" using drain_fifo [of c'] by blast
      then show ?thesis using d by (intro exI [of _ k] exI [of _ "[]"]) simp
    qed
    from assms(2) show ?G
    proof cases
      case (askShared t)
      have "writerActive c \<or> list_ex (\<lambda>w. fst w = Exclusive) (waiters c)"
        using inv(1) w by (cases "waiters c") (auto simp: lockInv_def)
      then show ?thesis using queued [of "(Shared, t)"] by (auto simp: askShared acquireShared_def)
    next
      case (askExclusive t)
      then show ?thesis using queued [of "(Exclusive, t)"] w by (simp add: acquireExclusive_def)
    next
      case (doneShared t)
      show ?thesis
        by (rule drained [of "c\<lparr>readerCount := readerCount c - 1, holding := remove1 (Shared, t) (holding c)\<rparr>"])
          (simp_all add: doneShared(1) releaseShared_def)
    next
      case (doneExclusive t)
      show ?thesis
        by (rule drained [of "c\<lparr>writerActive := False, holding := remove1 (Exclusive, t) (holding c)\<rparr>"])
          (simp_all add: doneExclusive(1) releaseExclusive_def)
    qed
  qed
qed

theorem project_lock_fair_witness:
  "\<exists>k new. granted (releaseShared 3 sampleQueue) = granted sampleQueue @ take k (waiters sampleQueue) \<and>
     waiters (releaseShared 3 sampleQueue) = drop k (waiters sampleQueue) @ new"
  using project_lock_fair [OF sampleQueue_reachable sampleQueue_step] by (simp add: sampleQueue_run)

text \<open>Per key, the operations of \<open>KeyedCoordinator.run\<close> are serialised and none is lost: at most
  one ticket of a key runs at a time, and while some ticket of the key is pending, one is running.\<close>

lemma keyed_serialised:
  assumes "keyedReachable s"
  shows "(running s (t, key, ps) \<longrightarrow> running s (u, key, qs) \<longrightarrow> t = u) \<and>
     (pending s key \<noteq> {} \<longrightarrow> (\<exists>v rs. running s (v, key, rs)))"
proof
  have inv: "keyedInv s" and chain: "keyedChain s"
    using keyedReachable_inv [OF assms] keyedReachable_chain [OF assms] by simp_all
  have order: False if ij: "i < j" "j < length (issued s)"
    and a: "issued s ! i = (a, key, as)" "a \<notin> set (finished s)"
    and b: "issued s ! j = (b, key, bs)" "\<forall>p\<in>set bs. p \<in> set (finished s)" for i j a as b bs
  proof -
    have "a \<in> set bs" using inv ij a b(1) unfolding keyedInv_def by blast
    then show False using a(2) b(2) by blast
  qed
  show "running s (t, key, ps) \<longrightarrow> running s (u, key, qs) \<longrightarrow> t = u"
  proof (intro impI)
    assume r: "running s (t, key, ps)" "running s (u, key, qs)"
    then obtain i j where i: "i < length (issued s)" "issued s ! i = (t, key, ps)"
      and j: "j < length (issued s)" "issued s ! j = (u, key, qs)"
      unfolding running_def by (auto simp: in_set_conv_nth)
    have free: "t \<notin> set (finished s)" "u \<notin> set (finished s)" "\<forall>p\<in>set ps. p \<in> set (finished s)"
      "\<forall>p\<in>set qs. p \<in> set (finished s)"
      using r by (auto simp: running_def list_all_iff)
    consider "i < j" | "j < i" | "i = j" by linarith
    then show "t = u"
    proof cases
      case 1
      then show ?thesis using order [OF 1 j(1) i(2) free(1) j(2) free(4)] by blast
    next
      case 2
      then show ?thesis using order [OF 2 i(1) j(2) free(2) i(2) free(3)] by blast
    next
      case 3
      then show ?thesis using i j by simp
    qed
  qed
  show "pending s key \<noteq> {} \<longrightarrow> (\<exists>v rs. running s (v, key, rs))"
  proof
    assume "pending s key \<noteq> {}"
    then obtain a as where a: "(a, key, as) \<in> set (issued s)" "a \<notin> set (finished s)"
      by (auto simp: pending_def)
    let ?P = "\<lambda>i. i < length (issued s) \<and> (\<exists>v rs. issued s ! i = (v, key, rs) \<and> v \<notin> set (finished s))"
    obtain i0 where "?P i0" using a by (metis in_set_conv_nth)
    define m where "m = (LEAST i. ?P i)"
    have m: "?P m" and least: "\<And>i. ?P i \<Longrightarrow> m \<le> i"
      using LeastI [of ?P, OF \<open>?P i0\<close>] Least_le [of ?P] unfolding m_def by blast+
    then obtain v rs where v: "m < length (issued s)" "issued s ! m = (v, key, rs)" "v \<notin> set (finished s)"
      by blast
    have "p \<in> set (finished s)" if pr: "p \<in> set rs" for p
    proof (rule ccontr)
      assume "p \<notin> set (finished s)"
      moreover obtain i qs where "i < m" "issued s ! i = (p, key, qs)"
        using chain v(1,2) pr unfolding keyedChain_def by blast
      ultimately have "?P i" using v(1) by auto
      then show False using least \<open>i < m\<close> by fastforce
    qed
    then have "running s (v, key, rs)"
      using v unfolding running_def by (auto simp: list_all_iff) (metis nth_mem)
    then show "\<exists>v rs. running s (v, key, rs)" by blast
  qed
qed

lemma keyed_serialised_sample:
  "\<exists>v rs. running (keyedAcquire 1 ''k'' newKeyed) (v, ''k'', rs)"
proof -
  have "keyedReachable (keyedAcquire 1 ''k'' newKeyed)"
    by (rule keyedReachable.step [OF keyedReachable.start ask]) (simp add: newKeyed_def)
  moreover have "pending (keyedAcquire 1 ''k'' newKeyed) ''k'' \<noteq> {}"
    by (auto simp: pending_def keyedAcquire_def newKeyed_def Let_def)
  ultimately show ?thesis using keyed_serialised by blast
qed

end
