(* ===== verification/FieldLocks.thy ===== *)
theory FieldLocks
  imports Realtime
begin

text \<open>
  \<open>FieldLockManager\<close> (\<open>backend/src/realtime/field-lock-manager.ts\<close>): the leases are the world's
  \<open>leases\<close>, an association list in the insertion order of the JavaScript \<open>Map\<close>. An operation run
  by \<open>withProject\<close> or \<open>withProjectResource\<close> first waits for the locks of \<open>Coordinator\<close>; \<open>wait\<close> is
  what other requests do meanwhile, after which the operation runs. Tokens and ids are
  strings, so \<open>timingSafeEqual\<close> is equality.
\<close>

definition FIELD_LOCK_TTL_MS :: millis where
  "FIELD_LOCK_TTL_MS = 30000"

definition withProject :: "(world \<Rightarrow> world) \<Rightarrow> 'a service \<Rightarrow> 'a service" where
  "withProject wait operation = andThen (modify wait) (\<lambda>_. operation)"

definition withProjectResource :: "(world \<Rightarrow> world) \<Rightarrow> 'a service \<Rightarrow> 'a service" where
  "withProjectResource wait operation = andThen (modify wait) (\<lambda>_. operation)"

definition toPublicLock :: "field_lock_lease \<Rightarrow> field_lock" where
  "toPublicLock lease = \<lparr>l_userId = l_userId lease, l_username = l_username lease,
     l_avatarUrl = l_avatarUrl lease, l_projectId = l_projectId lease,
     l_socketId = l_socketId lease, l_expiresAt = l_expiresAt lease\<rparr>"

definition tokensMatch :: "string \<Rightarrow> string \<Rightarrow> bool" where
  "tokensMatch expected actual \<longleftrightarrow> length expected = length actual \<and> expected = actual"

type_synonym released_lock = "string \<times> field_lock"

definition leaseAt :: "world \<Rightarrow> string \<Rightarrow> field_lock_lease option" where
  "leaseAt w key = map_of (leases w) key"

definition setLease :: "string \<Rightarrow> field_lock_lease \<Rightarrow> unit service" where
  "setLease key lease = modify (leases_update (AList.update key lease))"

definition removeLease :: "string \<Rightarrow> unit service" where
  "removeLease key = modify (leases_update (AList.delete key))"

definition emitFieldUnlock :: "released_lock \<Rightarrow> unit service" where
  "emitFieldUnlock released = (case released of (key, lock) \<Rightarrow>
     broadcast (projectRoom (l_projectId lock)) None ''field:unlocked'' (P_unlocked key))"

text \<open>The expiration handler the gateway registers: it broadcasts the unlock.\<close>

definition expirationHandler :: "released_lock option \<Rightarrow> unit service" where
  "expirationHandler released = (case released of None \<Rightarrow> ret () | Some r \<Rightarrow> emitFieldUnlock r)"

section \<open>Operations\<close>

record acquire_input =
  ai_key :: string
  ai_userId :: ident
  ai_username :: string
  ai_avatarUrl :: "string option"
  ai_projectId :: ident
  ai_socketId :: ident

record acquire_result =
  ar_acquired :: bool
  ar_lock :: "field_lock option"
  ar_token :: "string option"

definition releaseResource :: "string \<Rightarrow> released_lock option service" where
  "releaseResource key =
     andThen (gets (\<lambda>w. leaseAt w key)) (\<lambda>found.
     case found of None \<Rightarrow> ret None
     | Some lease \<Rightarrow> andThen (removeLease key) (\<lambda>_. ret (Some (key, toPublicLock lease))))"

definition releaseIfExpired :: "string \<Rightarrow> bool service" where
  "releaseIfExpired key =
     andThen (gets (\<lambda>w. leaseAt w key)) (\<lambda>found.
     andThen dateNow (\<lambda>now.
     case found of None \<Rightarrow> ret False
     | Some lease \<Rightarrow>
         if l_expiresAt lease > now then ret False
         else andThen (releaseResource key) (\<lambda>released.
              andThen (expirationHandler released) (\<lambda>_. ret True))))"

definition acquire :: "acquire_input \<Rightarrow> acquire_result service" where
  "acquire input =
     andThen (releaseIfExpired (ai_key input)) (\<lambda>_.
     andThen (gets (\<lambda>w. leaseAt w (ai_key input))) (\<lambda>existing.
     andThen dateNow (\<lambda>now.
     case existing of
       Some e \<Rightarrow>
         if l_socketId e \<noteq> ai_socketId input
         then ret \<lparr>ar_acquired = False, ar_lock = Some (toPublicLock e), ar_token = None\<rparr>
         else (let renewed = e\<lparr>l_expiresAt := now + FIELD_LOCK_TTL_MS\<rparr> in
           andThen (setLease (ai_key input) renewed) (\<lambda>_.
           ret \<lparr>ar_acquired = True, ar_lock = Some (toPublicLock renewed), ar_token = Some (l_token e)\<rparr>))
     | None \<Rightarrow>
         andThen nextUuid (\<lambda>uuid.
         let lease = \<lparr>l_userId = ai_userId input, l_username = ai_username input,
               l_avatarUrl = ai_avatarUrl input, l_projectId = ai_projectId input,
               l_socketId = ai_socketId input, l_expiresAt = now + FIELD_LOCK_TTL_MS,
               l_token = uuid\<rparr> in
         andThen (setLease (ai_key input) lease) (\<lambda>_.
         ret \<lparr>ar_acquired = True, ar_lock = Some (toPublicLock lease), ar_token = Some uuid\<rparr>)))))"

definition renew :: "string \<Rightarrow> ident \<Rightarrow> string \<Rightarrow> field_lock option service" where
  "renew key socketId tok =
     andThen (gets (\<lambda>w. leaseAt w key)) (\<lambda>found.
     andThen dateNow (\<lambda>now.
     case found of None \<Rightarrow> ret None
     | Some lease \<Rightarrow>
         if l_socketId lease \<noteq> socketId \<or> \<not> tokensMatch (l_token lease) tok then ret None
         else if l_expiresAt lease \<le> now
         then andThen (releaseResource key) (\<lambda>released.
              andThen (expirationHandler released) (\<lambda>_. ret None))
         else (let renewed = lease\<lparr>l_expiresAt := now + FIELD_LOCK_TTL_MS\<rparr> in
              andThen (setLease key renewed) (\<lambda>_. ret (Some (toPublicLock renewed))))))"

definition getLock :: "string \<Rightarrow> field_lock option service" where
  "getLock key =
     andThen (releaseIfExpired key) (\<lambda>_.
     gets (\<lambda>w. map_option toPublicLock (leaseAt w key)))"

definition release :: "string \<Rightarrow> ident \<Rightarrow> released_lock option service" where
  "release key socketId =
     andThen (gets (\<lambda>w. leaseAt w key)) (\<lambda>found.
     case found of None \<Rightarrow> ret None
     | Some lease \<Rightarrow>
         if l_socketId lease \<noteq> socketId then ret None
         else andThen (removeLease key) (\<lambda>_. ret (Some (key, toPublicLock lease))))"

definition releaseUserInProject :: "ident \<Rightarrow> ident \<Rightarrow> released_lock list service" where
  "releaseUserInProject userId projectId =
     (let mine = (\<lambda>(key, lease). l_userId lease = userId \<and> l_projectId lease = projectId) in
      andThen (gets (\<lambda>w. filter mine (leases w))) (\<lambda>found.
      andThen (modify (leases_update (filter (\<lambda>entry. \<not> mine entry)))) (\<lambda>_.
      ret (map (\<lambda>(key, lease). (key, toPublicLock lease)) found))))"

definition releaseSocket :: "(world \<Rightarrow> world) \<Rightarrow> ident \<Rightarrow> released_lock list service" where
  "releaseSocket wait socketId =
     andThen (gets (\<lambda>w. filter (\<lambda>(key, lease). l_socketId lease = socketId) (leases w))) (\<lambda>found.
     collectEach found (\<lambda>(key, lease). withProjectResource wait (release key socketId)))"

definition leaseValid :: "field_lock_lease \<Rightarrow> string option \<Rightarrow> millis \<Rightarrow> bool" where
  "leaseValid lease tok now \<longleftrightarrow>
     (case tok of None \<Rightarrow> False | Some t \<Rightarrow> tokensMatch (l_token lease) t) \<and> l_expiresAt lease > now"

text \<open>
  What \<open>authorize\<close> leaves in a variable of the caller for \<open>operation\<close> is passed as its argument.
\<close>

definition withValidatedLease ::
  "(world \<Rightarrow> world) \<Rightarrow> ident \<Rightarrow> string \<Rightarrow> ident \<Rightarrow> string option \<Rightarrow> 'b service \<Rightarrow>
   ('b \<Rightarrow> 'a service) \<Rightarrow> 'a service" where
  "withValidatedLease wait projectId key userId tok authorize operation =
     withProjectResource wait (
       andThen (gets (\<lambda>w. leaseAt w key)) (\<lambda>found.
       andThen dateNow (\<lambda>now.
       case found of None \<Rightarrow> throw FieldLockLeaseError
       | Some lease \<Rightarrow>
           if l_userId lease \<noteq> userId \<or> l_projectId lease \<noteq> projectId \<or> \<not> leaseValid lease tok now
           then andThen (whenever (l_expiresAt lease \<le> now)
                  (andThen (releaseResource key) expirationHandler)) (\<lambda>_.
                throw FieldLockLeaseError)
           else andThen authorize (\<lambda>authorized.
                andThen (gets (\<lambda>w. leaseAt w key)) (\<lambda>current.
                andThen dateNow (\<lambda>later.
                case current of None \<Rightarrow> throw FieldLockLeaseError
                | Some c \<Rightarrow> if leaseValid c tok later then operation authorized
                            else throw FieldLockLeaseError))))))"

definition assertLeaseOwnerIfLocked ::
  "ident \<Rightarrow> string \<Rightarrow> ident \<Rightarrow> string option \<Rightarrow> unit service" where
  "assertLeaseOwnerIfLocked projectId key userId tok =
     andThen (gets (\<lambda>w. leaseAt w key)) (\<lambda>found.
     case found of None \<Rightarrow> ret ()
     | Some lease \<Rightarrow>
         andThen (releaseIfExpired key) (\<lambda>wasExpired.
         if wasExpired then ret ()
         else ensure (l_userId lease = userId \<and> l_projectId lease = projectId \<and>
           (case tok of None \<Rightarrow> False | Some t \<Rightarrow> tokensMatch (l_token lease) t))
           FieldLockLeaseError))"

definition releaseExpiredLeases :: "(world \<Rightarrow> world) \<Rightarrow> unit service" where
  "releaseExpiredLeases wait =
     andThen dateNow (\<lambda>now.
     andThen (gets (\<lambda>w. filter (\<lambda>(key, lease). l_expiresAt lease \<le> now) (leases w))) (\<lambda>expired.
     forEach expired (\<lambda>(key, lease).
       andThen (withProjectResource wait (
         andThen (gets (\<lambda>w. leaseAt w key)) (\<lambda>current.
         andThen dateNow (\<lambda>now'.
         case current of None \<Rightarrow> ret None
         | Some c \<Rightarrow> if l_expiresAt c > now' then ret None else releaseResource key)))) (\<lambda>released.
       expirationHandler released))))"

section \<open>Lemmas\<close>

lemma leaseAt_simps [simp]:
  "leaseAt (leases_update (AList.delete k) w) k' = (if k' = k then None else leaseAt w k')"
  "leaseAt (leases_update (AList.update k l) w) k' = (if k' = k then Some l else leaseAt w k')"
  "leaseAt (w\<lparr>outbox := ems\<rparr>) k' = leaseAt w k'" "leaseAt (w\<lparr>uuids := f\<rparr>) k' = leaseAt w k'"
  by (simp_all add: leaseAt_def delete_conv update_conv')

lemma lease_writes_run [run_simps]:
  "setLease key l w = (Inr (), leases_update (AList.update key l) w)"
  "removeLease key w = (Inr (), leases_update (AList.delete key) w)"
  "withProjectResource wait m w = m (wait w)" "withProject wait n w = n (wait w)"
  by (simp_all add: setLease_def removeLease_def withProjectResource_def withProject_def run_simps)

definition unlockEmission :: "world \<Rightarrow> released_lock \<Rightarrow> emission" where
  "unlockEmission w released = (case released of (key, l) \<Rightarrow>
     \<lparr>em_room = projectRoom (l_projectId l), em_except = None, em_event = ''field:unlocked'',
      em_payload = P_unlocked key, em_sockets = roomSockets w (projectRoom (l_projectId l)) None\<rparr>)"

definition dropLease :: "string \<Rightarrow> world \<Rightarrow> world" where
  "dropLease key w = leases_update (AList.delete key) w"

text \<open>A lease that expires: dropped, and its unlock broadcast.\<close>

definition expireLease :: "string \<Rightarrow> field_lock_lease \<Rightarrow> world \<Rightarrow> world" where
  "expireLease key l w = (dropLease key w)
     \<lparr>outbox := outbox w @ [unlockEmission w (key, toPublicLock l)]\<rparr>"

lemma dropLease_simps [simp]:
  "leaseAt (dropLease k w) k' = (if k' = k then None else leaseAt w k')"
  "leaseAt (expireLease k l w) k' = (if k' = k then None else leaseAt w k')"
  "clock (dropLease k w) = clock w" "clock (expireLease k l w) = clock w"
  "uuids (dropLease k w) = uuids w" "uuids (expireLease k l w) = uuids w"
  by (simp_all add: dropLease_def expireLease_def)

lemma releaseResource_run [run_simps]:
  "releaseResource key w = (case leaseAt w key of None \<Rightarrow> (Inr None, w)
     | Some l \<Rightarrow> (Inr (Some (key, toPublicLock l)), dropLease key w))"
  by (simp add: releaseResource_def run_simps dropLease_def split: option.split)

lemma expirationHandler_run:
  "expirationHandler (Some (key, toPublicLock l)) (dropLease key w) = (Inr (), expireLease key l w)"
  by (simp add: expirationHandler_def emitFieldUnlock_def run_simps expireLease_def dropLease_def
      unlockEmission_def roomSockets_def)

lemma releaseIfExpired_run [run_simps]:
  "releaseIfExpired key w = (case leaseAt w key of None \<Rightarrow> (Inr False, w)
     | Some l \<Rightarrow> if l_expiresAt l > clock w then (Inr False, w) else (Inr True, expireLease key l w))"
  by (simp add: releaseIfExpired_def run_simps expirationHandler_run split: option.split)

lemma release_run [run_simps]:
  "release key s w = (case leaseAt w key of None \<Rightarrow> (Inr None, w)
     | Some l \<Rightarrow> if l_socketId l = s then (Inr (Some (key, toPublicLock l)), dropLease key w)
                 else (Inr None, w))"
  by (simp add: release_def run_simps dropLease_def split: option.split)

lemma renew_run [run_simps]:
  "renew key s tok w = (case leaseAt w key of None \<Rightarrow> (Inr None, w)
     | Some l \<Rightarrow>
        if l_socketId l \<noteq> s \<or> l_token l \<noteq> tok then (Inr None, w)
        else if l_expiresAt l \<le> clock w then (Inr None, expireLease key l w)
        else (Inr (Some (toPublicLock (l\<lparr>l_expiresAt := clock w + FIELD_LOCK_TTL_MS\<rparr>))),
              leases_update (AList.update key (l\<lparr>l_expiresAt := clock w + FIELD_LOCK_TTL_MS\<rparr>)) w))"
  by (auto simp: renew_def run_simps expirationHandler_run tokensMatch_def Let_def split: option.split)

lemma getLock_run [run_simps]:
  "getLock key w = (case leaseAt w key of None \<Rightarrow> (Inr None, w)
     | Some l \<Rightarrow> if l_expiresAt l > clock w then (Inr (Some (toPublicLock l)), w)
                 else (Inr None, expireLease key l w))"
  by (simp add: getLock_def run_simps split: option.split)

lemma acquire_live:
  assumes "leaseAt w (ai_key i) = Some l" and "l_expiresAt l > clock w"
  shows "acquire i w = (if l_socketId l \<noteq> ai_socketId i
     then (Inr \<lparr>ar_acquired = False, ar_lock = Some (toPublicLock l), ar_token = None\<rparr>, w)
     else (Inr \<lparr>ar_acquired = True, ar_lock = Some (toPublicLock (l\<lparr>l_expiresAt := clock w + FIELD_LOCK_TTL_MS\<rparr>)),
             ar_token = Some (l_token l)\<rparr>,
           leases_update (AList.update (ai_key i) (l\<lparr>l_expiresAt := clock w + FIELD_LOCK_TTL_MS\<rparr>)) w))"
  using assms by (simp add: acquire_def run_simps Let_def)

definition newLease :: "acquire_input \<Rightarrow> world \<Rightarrow> field_lock_lease" where
  "newLease i w = \<lparr>l_userId = ai_userId i, l_username = ai_username i, l_avatarUrl = ai_avatarUrl i,
     l_projectId = ai_projectId i, l_socketId = ai_socketId i,
     l_expiresAt = clock w + FIELD_LOCK_TTL_MS, l_token = uuids w 0\<rparr>"

lemma acquire_free:
  assumes "\<forall>l. leaseAt w (ai_key i) = Some l \<longrightarrow> l_expiresAt l \<le> clock w"
  shows "\<exists>v. acquire i w = (Inr \<lparr>ar_acquired = True, ar_lock = Some (toPublicLock (newLease i w)),
       ar_token = Some (uuids w 0)\<rparr>, v) \<and>
     (\<forall>k. leaseAt v k = (if k = ai_key i then Some (newLease i w) else leaseAt w k))"
  using assms
  by (auto simp: acquire_def run_simps Let_def newLease_def toPublicLock_def split: option.split)

text \<open>An operation on one key leaves the leases of the other keys alone.\<close>

lemma other_keys:
  "k \<noteq> ai_key i \<Longrightarrow> leaseAt (snd (acquire i w)) k = leaseAt w k"
  "k \<noteq> key \<Longrightarrow> leaseAt (snd (renew key s tok w)) k = leaseAt w k"
  "k \<noteq> key \<Longrightarrow> leaseAt (snd (release key s w)) k = leaseAt w k"
  "k \<noteq> key \<Longrightarrow> leaseAt (snd (getLock key w)) k = leaseAt w k"
proof -
  show "k \<noteq> ai_key i \<Longrightarrow> leaseAt (snd (acquire i w)) k = leaseAt w k"
  proof (cases "\<exists>l. leaseAt w (ai_key i) = Some l \<and> l_expiresAt l > clock w")
    case True
    then show "k \<noteq> ai_key i \<Longrightarrow> ?thesis" by (auto simp: acquire_live)
  next
    case False
    then have "\<forall>l. leaseAt w (ai_key i) = Some l \<longrightarrow> l_expiresAt l \<le> clock w" by force
    from acquire_free [OF this] show "k \<noteq> ai_key i \<Longrightarrow> ?thesis" by auto
  qed
qed (auto simp: run_simps split: option.split)

text \<open>The table: one lease per key, none that outlives the TTL.\<close>

definition leaseTable :: "world \<Rightarrow> bool" where
  "leaseTable w \<longleftrightarrow> distinct (map fst (leases w)) \<and>
     (\<forall>k l. leaseAt w k = Some l \<longrightarrow> l_expiresAt l \<le> clock w + FIELD_LOCK_TTL_MS)"

lemma leaseTable_drop: "leaseTable w \<Longrightarrow> leaseTable (dropLease k w)"
  by (auto simp: leaseTable_def) (simp add: dropLease_def distinct_delete)

lemma leaseTable_expire: "leaseTable w \<Longrightarrow> leaseTable (expireLease k l w)"
  using leaseTable_drop [of w k] by (simp add: leaseTable_def expireLease_def)

lemma leaseTable_set:
  "leaseTable w \<Longrightarrow> l_expiresAt l \<le> clock w + FIELD_LOCK_TTL_MS \<Longrightarrow>
   leaseTable (leases_update (AList.update k l) w)"
  by (simp add: leaseTable_def distinct_update)

lemma leaseTable_uuids [simp]: "leaseTable (w\<lparr>uuids := f\<rparr>) = leaseTable w"
  by (simp add: leaseTable_def)

lemma leaseTable_ops [keeps_rules]:
  "keeps leaseTable (renew key s tok)" "keeps leaseTable (release key s)"
  "keeps leaseTable (getLock key)" "keeps leaseTable (releaseResource key)"
  "keeps leaseTable (releaseIfExpired key)"
  by (auto intro!: keepsI simp: run_simps leaseTable_drop leaseTable_expire leaseTable_set
      split: option.split)

lemma leaseTable_setLease:
  "leaseTable w \<Longrightarrow> l_expiresAt l \<le> clock w + FIELD_LOCK_TTL_MS \<Longrightarrow> leaseTable (snd (setLease k l w))"
  by (simp add: run_simps leaseTable_set)

lemma leaseTable_acquire [keeps_rules]: "keeps leaseTable (acquire i)"
proof (rule keepsI)
  fix w
  assume w: "leaseTable w"
  have "\<exists>b v. releaseIfExpired (ai_key i) w = (Inr b, v)"
    by (auto simp: run_simps split: option.split)
  then obtain b v where r: "releaseIfExpired (ai_key i) w = (Inr b, v)" by blast
  then have v: "leaseTable v" using keeps_run [OF leaseTable_ops(5) w] by blast
  show "leaseTable (snd (acquire i w))"
    using v by (auto simp: acquire_def andThen_run r gets_run prisma_run ret_run lease_writes_run Let_def
        leaseTable_set split: option.split)
qed

section \<open>Properties\<close>

text \<open>C5 A live lease cannot be taken over: while the lease of a key has not expired, another socket
  that tries to acquire it is refused, is shown the holder without the token and changes
  nothing; nothing another socket does (acquire, renew, release, query, on any key) changes it.\<close>

theorem live_lease_not_stolen:
  assumes "leaseAt w key = Some l" and "clock w < l_expiresAt l" and "s \<noteq> l_socketId l"
  shows "(ai_socketId i = s \<longrightarrow> ai_key i = key \<longrightarrow> acquire i w =
       (Inr \<lparr>ar_acquired = False, ar_lock = Some (toPublicLock l), ar_token = None\<rparr>, w)) \<and>
     (ai_socketId i = s \<longrightarrow> leaseAt (snd (acquire i w)) key = Some l) \<and>
     leaseAt (snd (renew k s tok w)) key = Some l \<and>
     leaseAt (snd (release k s w)) key = Some l \<and> leaseAt (snd (getLock k w)) key = Some l"
proof (intro conjI impI)
  show "acquire i w = (Inr \<lparr>ar_acquired = False, ar_lock = Some (toPublicLock l), ar_token = None\<rparr>, w)"
    if "ai_socketId i = s" "ai_key i = key"
    using acquire_live [of w i l] assms that by simp
  then show "leaseAt (snd (acquire i w)) key = Some l" if "ai_socketId i = s"
    using that assms(1) other_keys(1) [of key i w] by (cases "key = ai_key i") auto
  show "leaseAt (snd (renew k s tok w)) key = Some l"
    using assms other_keys(2) [of key k s tok w] by (cases "key = k") (auto simp: run_simps)
  show "leaseAt (snd (release k s w)) key = Some l"
    using assms other_keys(3) [of key k s w] by (cases "key = k") (auto simp: run_simps)
  show "leaseAt (snd (getLock k w)) key = Some l"
    using assms other_keys(4) [of key k w] by (cases "key = k") (auto simp: run_simps)
qed

definition sampleLease :: field_lock_lease where
  "sampleLease = \<lparr>l_userId = ''u'', l_username = ''ann'', l_avatarUrl = None, l_projectId = ''p'',
     l_socketId = ''s1'', l_expiresAt = 30000, l_token = ''tok''\<rparr>"

definition lockedWorld :: world where
  "lockedWorld = emptyWorld\<lparr>leases := [(''checklist-item:1'', sampleLease)]\<rparr>"

definition sampleInput :: acquire_input where
  "sampleInput = \<lparr>ai_key = ''checklist-item:1'', ai_userId = ''u'', ai_username = ''ann'',
     ai_avatarUrl = None, ai_projectId = ''p'', ai_socketId = ''s2''\<rparr>"

lemma lockedWorld_lease:
  "leaseAt lockedWorld ''checklist-item:1'' = Some sampleLease" "clock lockedWorld = 0"
  by (simp_all add: lockedWorld_def leaseAt_def emptyWorld_def)

theorem live_lease_not_stolen_witness:
  "acquire sampleInput lockedWorld =
     (Inr \<lparr>ar_acquired = False, ar_lock = Some (toPublicLock sampleLease), ar_token = None\<rparr>, lockedWorld)"
  using live_lease_not_stolen [OF lockedWorld_lease(1), of "''s2''" sampleInput]
  by (simp add: lockedWorld_lease(2) sampleLease_def sampleInput_def)

lemma withValidatedLease_Inr:
  assumes "withValidatedLease wait p key u tok authorize operation w = (Inr a, w')"
  shows "\<exists>t l0 x v l. tok = Some t \<and> leaseAt (wait w) key = Some l0 \<and> l_userId l0 = u \<and>
     l_projectId l0 = p \<and> l_token l0 = t \<and> clock (wait w) < l_expiresAt l0 \<and>
     authorize (wait w) = (Inr x, v) \<and> leaseAt v key = Some l \<and> l_token l = t \<and>
     clock v < l_expiresAt l \<and> operation x v = (Inr a, w')"
  using assms
  by (auto simp: withValidatedLease_def run_simps leaseValid_def tokensMatch_def
      split: option.splits if_splits sum.splits prod.splits)

lemma keeps_leases:
  assumes "\<And>w f. I w \<Longrightarrow> I (leases_update f w)" and "\<And>w ems. I w \<Longrightarrow> I (w\<lparr>outbox := ems\<rparr>)"
  shows "keeps I (releaseResource key)" "keeps I (expirationHandler r)" "keeps I (releaseIfExpired key)"
    "keeps I (assertLeaseOwnerIfLocked p key u tok)" "keeps I (emitFieldUnlock rl)"
proof -
  show e: "keeps I (emitFieldUnlock rl)" for rl
    unfolding emitFieldUnlock_def by (cases rl) (simp add: keeps_broadcast assms(2))
  show r: "keeps I (releaseResource key)"
    unfolding releaseResource_def removeLease_def by (intro keeps_rules keeps_modify assms(1))
  show x: "keeps I (expirationHandler r)" for r
    unfolding expirationHandler_def by (intro keeps_rules e)
  show i: "keeps I (releaseIfExpired key)"
    unfolding releaseIfExpired_def by (intro keeps_rules r x)
  show "keeps I (assertLeaseOwnerIfLocked p key u tok)"
    unfolding assertLeaseOwnerIfLocked_def by (intro keeps_rules i)
qed

lemma keeps_withLock:
  assumes "\<And>w. I w \<Longrightarrow> I (wait w)"
  shows "keeps I m \<Longrightarrow> keeps I (withProject wait m)"
    and "keeps I m \<Longrightarrow> keeps I (withProjectResource wait m)"
  unfolding withProject_def withProjectResource_def by (auto intro!: keeps_rules keeps_modify assms)

lemma keeps_withValidatedLease:
  assumes "\<And>w. I w \<Longrightarrow> I (wait w)"
    and "\<And>w f. I w \<Longrightarrow> I (leases_update f w)" and "\<And>w ems. I w \<Longrightarrow> I (w\<lparr>outbox := ems\<rparr>)"
    and "keeps I authorize" and "\<And>x. keeps I (operation x)"
  shows "keeps I (withValidatedLease wait p key u tok authorize operation)"
  unfolding withValidatedLease_def
  by (intro keeps_rules keeps_withLock keeps_leases assms)

text \<open>C6 A guarded write happens only under its lease: if \<open>withValidatedLease\<close> returns, the operation
  ran in a state where the key's lease has the caller's token and has not expired, even when
  other requests ran while it waited and while it authorised; and on entry the lease was the
  caller's, in that project.\<close>

theorem validated_write_holds_lease:
  assumes "withValidatedLease wait p key u tok authorize operation w = (Inr a, w')"
  shows "\<exists>t l0 x v l. tok = Some t \<and> leaseAt (wait w) key = Some l0 \<and> l_userId l0 = u \<and>
     l_projectId l0 = p \<and> l_token l0 = t \<and> clock (wait w) < l_expiresAt l0 \<and>
     authorize (wait w) = (Inr x, v) \<and> leaseAt v key = Some l \<and> l_token l = t \<and>
     clock v < l_expiresAt l \<and> operation x v = (Inr a, w')"
  by (rule withValidatedLease_Inr [OF assms])

theorem validated_write_holds_lease_witness:
  "\<exists>l. leaseAt lockedWorld ''checklist-item:1'' = Some l \<and> l_token l = ''tok''"
proof -
  have "withValidatedLease (\<lambda>w. w) ''p'' ''checklist-item:1'' ''u'' (Some ''tok'') (ret ()) (\<lambda>_. ret (7::nat))
      lockedWorld = (Inr 7, lockedWorld)"
    by (simp add: withValidatedLease_def run_simps lockedWorld_lease leaseValid_def tokensMatch_def
        sampleLease_def)
  from validated_write_holds_lease [OF this] show ?thesis by auto
qed

text \<open>The sweep, one entry of the snapshot at a time.\<close>

definition sweepEntry :: "(world \<Rightarrow> world) \<Rightarrow> string \<times> field_lock_lease \<Rightarrow> unit service" where
  "sweepEntry wait = (\<lambda>(key, lease).
     andThen (withProjectResource wait (
       andThen (gets (\<lambda>w. leaseAt w key)) (\<lambda>current.
       andThen dateNow (\<lambda>now'.
       case current of None \<Rightarrow> ret None
       | Some c \<Rightarrow> if l_expiresAt c > now' then ret None else releaseResource key)))) (\<lambda>released.
     expirationHandler released))"

lemma sweepEntry_run:
  "sweepEntry wait (key, lease) w = (let v = wait w in case leaseAt v key of None \<Rightarrow> (Inr (), v)
     | Some c \<Rightarrow> if l_expiresAt c > clock v then (Inr (), v) else (Inr (), expireLease key c v))"
  by (auto simp: sweepEntry_def run_simps Let_def expirationHandler_run
      expirationHandler_def [of None] split: option.split)

lemma sweep_all:
  assumes "distinct (map fst es)" and "\<forall>(k, l)\<in>set es. leaseAt w k = Some l \<and> l_expiresAt l \<le> clock w"
  shows "\<exists>v. forEach es (sweepEntry (\<lambda>w. w)) w = (Inr (), v) \<and> clock v = clock w \<and>
     sockets v = sockets w \<and> (\<forall>k. leaseAt v k = (if k \<in> fst ` set es then None else leaseAt w k)) \<and>
     outbox v = outbox w @ map (\<lambda>(k, l). unlockEmission w (k, toPublicLock l)) es"
  using assms
proof (induction es arbitrary: w)
  case Nil
  then show ?case by (simp add: ret_run)
next
  case (Cons e es)
  obtain k l where e: "e = (k, l)" by (cases e)
  let ?w = "expireLease k l w"
  have one: "sweepEntry (\<lambda>w. w) e w = (Inr (), ?w)" using Cons.prems(2) by (simp add: e sweepEntry_run)
  have "\<forall>(k', l')\<in>set es. leaseAt ?w k' = Some l' \<and> l_expiresAt l' \<le> clock ?w"
  proof clarify
    fix k' l'
    assume m: "(k', l') \<in> set es"
    then have "k' \<in> fst ` set es" by (rule image_eqI [rotated]) simp
    then have "k' \<noteq> k" using Cons.prems(1) by (auto simp: e)
    then show "leaseAt ?w k' = Some l' \<and> l_expiresAt l' \<le> clock ?w" using Cons.prems(2) m by auto
  qed
  then obtain v where v: "forEach es (sweepEntry (\<lambda>w. w)) ?w = (Inr (), v)" "clock v = clock ?w"
    "sockets v = sockets ?w" "\<forall>k'. leaseAt v k' = (if k' \<in> fst ` set es then None else leaseAt ?w k')"
    "outbox v = outbox ?w @ map (\<lambda>(k, l). unlockEmission ?w (k, toPublicLock l)) es"
    using Cons.IH [of ?w] Cons.prems(1) by auto
  have out: "outbox ?w = outbox w @ [unlockEmission w (k, toPublicLock l)]"
    and sk: "sockets ?w = sockets w" by (simp_all add: expireLease_def dropLease_def)
  have same: "unlockEmission ?w = unlockEmission w"
    by (simp add: fun_eq_iff unlockEmission_def roomSockets_def sk)
  show ?case
    by (rule exI [of _ v]) (use v one out sk same in \<open>auto simp: andThen_run e\<close>)
qed

text \<open>The expiry sweep drops exactly the expired leases and tells each project: afterwards a
  key is locked iff its lease was still live, with the lease it had, and one
  \<open>field:unlocked\<close> per expired lease went to that lease's project room.\<close>

lemma sweep_drops_exactly_expired:
  assumes "distinct (map fst (leases w))"
  shows "\<exists>v. releaseExpiredLeases (\<lambda>w. w) w = (Inr (), v) \<and>
     (\<forall>k. leaseAt v k = (case leaseAt w k of None \<Rightarrow> None
        | Some l \<Rightarrow> if l_expiresAt l \<le> clock w then None else Some l)) \<and>
     outbox v = outbox w @ map (\<lambda>(k, l). unlockEmission w (k, toPublicLock l))
       (filter (\<lambda>(k, l). l_expiresAt l \<le> clock w) (leases w))"
proof -
  let ?es = "filter (\<lambda>(k, l). l_expiresAt l \<le> clock w) (leases w)"
  have at: "leaseAt w k = Some l \<longleftrightarrow> (k, l) \<in> set (leases w)" for k l
    using assms by (simp add: leaseAt_def)
  have d: "distinct (map fst ?es)" using assms by (rule distinct_map_filterI)
  have "\<forall>(k, l)\<in>set ?es. leaseAt w k = Some l \<and> l_expiresAt l \<le> clock w" by (auto simp: at)
  from sweep_all [OF d this] obtain v where v: "forEach ?es (sweepEntry (\<lambda>w. w)) w = (Inr (), v)"
    "\<forall>k. leaseAt v k = (if k \<in> fst ` set ?es then None else leaseAt w k)"
    "outbox v = outbox w @ map (\<lambda>(k, l). unlockEmission w (k, toPublicLock l)) ?es" by blast
  have "k \<in> fst ` set ?es \<longleftrightarrow> (\<exists>l. leaseAt w k = Some l \<and> l_expiresAt l \<le> clock w)" for k
    by (force simp: at)
  then have "leaseAt v k = (case leaseAt w k of None \<Rightarrow> None
      | Some l \<Rightarrow> if l_expiresAt l \<le> clock w then None else Some l)" for k
    using v(2) by (auto split: option.split)
  moreover have "releaseExpiredLeases (\<lambda>w. w) w = (Inr (), v)"
    using v(1) by (simp add: releaseExpiredLeases_def run_simps sweepEntry_def [symmetric])
  ultimately show ?thesis using v(3) by blast
qed

lemma sweep_drops_exactly_expired_sample:
  "\<exists>v. releaseExpiredLeases (\<lambda>w. w) (lockedWorld\<lparr>clock := 30000\<rparr>) = (Inr (), v) \<and>
     leaseAt v ''checklist-item:1'' = None"
proof -
  have "distinct (map fst (leases (lockedWorld\<lparr>clock := 30000\<rparr>)))" by (simp add: lockedWorld_def)
  moreover have "leaseAt (lockedWorld\<lparr>clock := 30000\<rparr>) ''checklist-item:1'' = Some sampleLease"
    by (simp add: lockedWorld_def leaseAt_def)
  ultimately show ?thesis
    using sweep_drops_exactly_expired [of "lockedWorld\<lparr>clock := 30000\<rparr>"]
    by (auto simp: sampleLease_def)
qed

text \<open>The lease table stays well formed: every operation of the manager leaves one lease per key
  and no lease that runs longer than the TTL from now, so a crashed editor's lock is free at
  most 30 seconds after its last renewal.\<close>

lemma lease_table_invariant:
  assumes "leaseTable w"
  shows "leaseTable (snd (acquire i w)) \<and> leaseTable (snd (renew key s tok w)) \<and>
     leaseTable (snd (release key s w)) \<and> leaseTable (snd (getLock key w)) \<and>
     leaseTable (snd (releaseResource key w)) \<and> leaseTable (snd (releaseUserInProject u p w)) \<and>
     leaseTable (snd (releaseSocket (\<lambda>w. w) s w)) \<and> leaseTable (snd (releaseExpiredLeases (\<lambda>w. w) w)) \<and>
     leaseTable (snd (assertLeaseOwnerIfLocked p key u tko w))"
proof (intro conjI)
  have user: "leaseTable (leases_update (filter P) w)" for P
  proof -
    have d: "distinct (map fst (leases w))" using assms by (simp add: leaseTable_def)
    then have "distinct (map fst (filter P (leases w)))" by (rule distinct_map_filterI)
    then have "leaseAt (leases_update (filter P) w) k = Some l \<Longrightarrow> leaseAt w k = Some l" for k l
      using d by (auto simp: leaseAt_def)
    then show ?thesis using assms \<open>distinct (map fst (filter P (leases w)))\<close>
      by (auto simp: leaseTable_def)
  qed
  show "leaseTable (snd (releaseUserInProject u p w))"
    using user by (simp add: releaseUserInProject_def run_simps Let_def)
  have "keeps leaseTable (releaseSocket (\<lambda>w. w) s)"
    unfolding releaseSocket_def withProjectResource_def
    by (intro keeps_rules keeps_collectEach) (auto split: prod.split intro!: keeps_rules keeps_modify)
  then show "leaseTable (snd (releaseSocket (\<lambda>w. w) s w))" using assms by (rule keepsD)
  have "keeps leaseTable (sweepEntry (\<lambda>w. w) e)" for e
    by (cases e) (auto intro!: keepsI simp: sweepEntry_run Let_def leaseTable_expire split: option.split)
  then have "keeps leaseTable (releaseExpiredLeases (\<lambda>w. w))"
    unfolding releaseExpiredLeases_def sweepEntry_def [symmetric] by (intro keeps_rules)
  then show "leaseTable (snd (releaseExpiredLeases (\<lambda>w. w) w))" using assms by (rule keepsD)
  show "leaseTable (snd (assertLeaseOwnerIfLocked p key u tko w))"
    using assms by (auto simp: assertLeaseOwnerIfLocked_def run_simps leaseTable_expire split: option.split)
qed (rule keepsD [where I = leaseTable and s = w, OF _ assms], rule keeps_rules)+

lemma lease_table_invariant_sample: "leaseTable (snd (acquire sampleInput lockedWorld))"
proof -
  have "leaseTable lockedWorld"
    by (auto simp: leaseTable_def lockedWorld_def leaseAt_def sampleLease_def FIELD_LOCK_TTL_MS_def
        emptyWorld_def)
  from lease_table_invariant [OF this] show ?thesis by blast
qed

end
