(* ===== verification/Gateway.thy ===== *)
theory Gateway
  imports FieldLocks Access
begin

text \<open>
  \<open>RealtimeGateway\<close> (\<open>backend/src/realtime/realtime.gateway.ts\<close>): admission of a socket, the cap on
  the sockets of a session, the rooms a socket joins, and the four field-lock messages.
  \<open>wait\<close> is what other requests do while a message waits for a project lock, \<open>gap\<close> what they do
  between the checks of a message and its last step. The auth service that redeems tickets is
  the parameter \<open>consume\<close>; timers are modelled by the step each of them takes.
\<close>

definition maximumSocketsPerSession :: nat where
  "maximumSocketsPerSession = 5"

section \<open>Sockets\<close>

definition socketOf :: "world \<Rightarrow> ident \<Rightarrow> socket option" where
  "socketOf w i = List.find (\<lambda>s. sk_id s = i) (sockets w)"

definition onSocket :: "ident \<Rightarrow> (socket \<Rightarrow> socket) \<Rightarrow> unit service" where
  "onSocket i f = modify (sockets_update (map (\<lambda>s. if sk_id s = i then f s else s)))"

definition isConnected :: "world \<Rightarrow> ident \<Rightarrow> bool" where
  "isConnected w i = (case socketOf w i of None \<Rightarrow> False | Some s \<Rightarrow> sk_connected s)"

definition inRoom :: "world \<Rightarrow> ident \<Rightarrow> string \<Rightarrow> bool" where
  "inRoom w i room = (case socketOf w i of None \<Rightarrow> False | Some s \<Rightarrow> room \<in> set (sk_rooms s))"

definition socketUser :: "world \<Rightarrow> ident \<Rightarrow> ident option" where
  "socketUser w i = (case socketOf w i of None \<Rightarrow> None | Some s \<Rightarrow> sk_userId s)"

definition joinRoom :: "ident \<Rightarrow> string \<Rightarrow> unit service" where
  "joinRoom i room = onSocket i (\<lambda>s. s\<lparr>sk_rooms := List.insert room (sk_rooms s)\<rparr>)"

text \<open>\<open>client.disconnect(true)\<close>, called only while connected: the socket leaves every room.\<close>

definition disconnectSocket :: "ident \<Rightarrow> unit service" where
  "disconnectSocket i =
     andThen (gets (\<lambda>w. isConnected w i)) (\<lambda>connected.
     whenever connected (onSocket i (\<lambda>s. s\<lparr>sk_connected := False, sk_rooms := []\<rparr>)))"

section \<open>Admission\<close>

record admission =
  ad_sub :: ident
  ad_sid :: ident
  ad_username :: string
  ad_avatarUrl :: "string option"

definition ticketChar :: "char \<Rightarrow> bool" where
  "ticketChar c \<longleftrightarrow> between (CHR ''A'') (CHR ''Z'') c \<or> between (CHR ''a'') (CHR ''z'') c \<or>
     between (CHR ''0'') (CHR ''9'') c \<or> c = CHR ''_'' \<or> c = CHR ''-''"

definition webSocketTicketPattern :: "string \<Rightarrow> bool" where
  "webSocketTicketPattern t \<longleftrightarrow> length t = 43 \<and> list_all ticketChar t"

definition authenticate ::
  "(string \<Rightarrow> exn + admission) \<Rightarrow> ident \<Rightarrow> string option \<Rightarrow> bool service" where
  "authenticate consume i ticket =
     (case ticket of None \<Rightarrow> ret False
      | Some t \<Rightarrow>
          if \<not> webSocketTicketPattern t then ret False
          else (case consume t of Inl e \<Rightarrow> ret False
                | Inr a \<Rightarrow> andThen (onSocket i (\<lambda>s. s\<lparr>sk_userId := Some (ad_sub a),
                    sk_sessionId := Some (ad_sid a), sk_username := ad_username a,
                    sk_avatarUrl := ad_avatarUrl a\<rparr>)) (\<lambda>_. ret True)))"

text \<open>The subject and session of an admitted socket; JavaScript's \<open>!x\<close> also rejects empty strings.\<close>

definition sessionOf :: "world \<Rightarrow> ident \<Rightarrow> (ident \<times> ident) option" where
  "sessionOf w i = (case socketOf w i of None \<Rightarrow> None | Some s \<Rightarrow>
     (case (sk_userId s, sk_sessionId s) of
        (Some u, Some sid) \<Rightarrow> if u = [] \<or> sid = [] then None else Some (u, sid)
      | _ \<Rightarrow> None))"

definition sessionKey :: "ident \<times> ident \<Rightarrow> string" where
  "sessionKey k = (case k of (u, sid) \<Rightarrow> u @ '':'' @ sid)"

definition socketsOfSession :: "world \<Rightarrow> string \<Rightarrow> ident list" where
  "socketsOfSession w key = (case map_of (sessionSockets w) key of None \<Rightarrow> [] | Some xs \<Rightarrow> xs)"

definition registerSessionSocket :: "ident \<Rightarrow> bool service" where
  "registerSessionSocket i =
     andThen (gets (\<lambda>w. sessionOf w i)) (\<lambda>session.
     case session of None \<Rightarrow> ret False
     | Some k \<Rightarrow>
         let key = sessionKey k in
         andThen (gets (\<lambda>w. socketsOfSession w key)) (\<lambda>existing.
         if length existing \<ge> maximumSocketsPerSession then ret False
         else andThen (modify (sessionSockets_update (AList.update key (List.insert i existing)))) (\<lambda>_.
              andThen (onSocket i (\<lambda>s. s\<lparr>sk_sessionKey := Some key\<rparr>)) (\<lambda>_.
              ret True))))"

definition unregisterSessionSocket :: "ident \<Rightarrow> unit service" where
  "unregisterSessionSocket i =
     andThen (gets (\<lambda>w. case socketOf w i of None \<Rightarrow> None | Some s \<Rightarrow> sk_sessionKey s)) (\<lambda>key.
     case key of None \<Rightarrow> ret ()
     | Some k \<Rightarrow>
         andThen (gets (\<lambda>w. map_of (sessionSockets w) k)) (\<lambda>existing.
         andThen (case existing of None \<Rightarrow> ret ()
            | Some xs \<Rightarrow> modify (sessionSockets_update (
                if removeAll i xs = [] then AList.delete k
                else AList.update k (removeAll i xs)))) (\<lambda>_.
         onSocket i (\<lambda>s. s\<lparr>sk_sessionKey := None\<rparr>))))"

section \<open>Connection\<close>

definition isCurrentProjectMember :: "ident \<Rightarrow> ident \<Rightarrow> bool service" where
  "isCurrentProjectMember userId projectId =
     andThen (countRows members (\<lambda>m. pm_userId m = userId \<and> pm_projectId m = projectId)) (\<lambda>n.
     ret (n = 1))"

text \<open>The loop over the memberships; it stops with \<open>False\<close> when the client is gone.\<close>

fun joinProjectRooms ::
  "(world \<Rightarrow> world) \<Rightarrow> ident \<Rightarrow> ident \<Rightarrow> ident list \<Rightarrow> bool service" where
  "joinProjectRooms wait i subject [] = ret True"
| "joinProjectRooms wait i subject (p # ps) =
     andThen (gets (\<lambda>w. isConnected w i)) (\<lambda>connected.
     if \<not> connected then ret False
     else andThen (withProject wait (
            andThen (gets (\<lambda>w. isConnected w i)) (\<lambda>connected.
            if \<not> connected then ret ()
            else andThen (isCurrentProjectMember subject p) (\<lambda>current.
                 andThen (gets (\<lambda>w. isConnected w i)) (\<lambda>connected.
                 whenever (current \<and> connected) (joinRoom i (projectRoom p))))))) (\<lambda>_.
          joinProjectRooms wait i subject ps))"

definition joinRooms :: "(world \<Rightarrow> world) \<Rightarrow> ident \<Rightarrow> bool service" where
  "joinRooms wait i =
     andThen (gets (\<lambda>w. sessionOf w i)) (\<lambda>session.
     case session of None \<Rightarrow> ret False
     | Some (subject, sid) \<Rightarrow>
         andThen (joinRoom i (userRoom subject)) (\<lambda>_.
         andThen (gets (\<lambda>w. isConnected w i)) (\<lambda>connected.
         if \<not> connected then ret False
         else andThen (findMany members (\<lambda>m. pm_userId m = subject)) (\<lambda>memberships.
              andThen (joinProjectRooms wait i subject (map pm_projectId memberships)) (\<lambda>joined.
              if \<not> joined then ret False else gets (\<lambda>w. isConnected w i))))))"

definition handleConnection :: "(world \<Rightarrow> world) \<Rightarrow> ident \<Rightarrow> unit service" where
  "handleConnection wait i =
     andThen (registerSessionSocket i) (\<lambda>registered.
     if \<not> registered
     then andThen (onSocket i (\<lambda>s. s\<lparr>sk_ready := False\<rparr>)) (\<lambda>_. disconnectSocket i)
     else andThen (catching (joinRooms wait i) (\<lambda>_. ret False)) (\<lambda>ready.
          andThen (onSocket i (\<lambda>s. s\<lparr>sk_ready := ready\<rparr>)) (\<lambda>_.
          whenever (\<not> ready)
            (andThen (unregisterSessionSocket i) (\<lambda>_. disconnectSocket i)))))"

definition handleDisconnect :: "(world \<Rightarrow> world) \<Rightarrow> ident \<Rightarrow> unit service" where
  "handleDisconnect wait i =
     andThen (unregisterSessionSocket i) (\<lambda>_.
     andThen (releaseSocket wait i) (\<lambda>released.
     forEach released emitFieldUnlock))"

text \<open>One tick of the session revalidation timer, with the auth service's answer, and the end of
  the socket's lifetime.\<close>

definition revalidationTick :: "exn + bool \<Rightarrow> ident \<Rightarrow> unit service" where
  "revalidationTick answer i =
     andThen (gets (\<lambda>w. isConnected w i)) (\<lambda>connected.
     if \<not> connected then ret ()
     else (case answer of Inl e \<Rightarrow> disconnectSocket i
           | Inr active \<Rightarrow> if active then ret () else disconnectSocket i))"

definition lifetimeTick :: "ident \<Rightarrow> unit service" where
  "lifetimeTick i = disconnectSocket i"

section \<open>Lockable keys\<close>

definition checklistItemProject :: "world \<Rightarrow> ident \<Rightarrow> ident option" where
  "checklistItemProject w i = map_option ci_projectId (List.find (\<lambda>r. ci_id r = i) (checklist w))"

definition discoveryBlockProject :: "world \<Rightarrow> ident \<Rightarrow> ident option" where
  "discoveryBlockProject w i = map_option b_projectId (List.find (\<lambda>r. b_id r = i) (blocks w))"

definition keyPrefixValidators :: "string \<Rightarrow> (world \<Rightarrow> ident \<Rightarrow> ident option) option" where
  "keyPrefixValidators = [''checklist-item'' \<mapsto> checklistItemProject,
     ''discovery-block'' \<mapsto> discoveryBlockProject]"

definition keyBelongsToProject :: "string \<Rightarrow> ident \<Rightarrow> bool service" where
  "keyBelongsToProject key projectId =
     (case splitOn (CHR '':'') key of
        [prefix, i] \<Rightarrow>
          if prefix = [] \<or> i = [] then ret False
          else (case keyPrefixValidators prefix of None \<Rightarrow> ret False
                | Some validator \<Rightarrow> gets (\<lambda>w. validator w i = Some projectId))
      | _ \<Rightarrow> ret False)"

section \<open>Messages\<close>

definition waitUntilReady :: "ident \<Rightarrow> bool service" where
  "waitUntilReady i = gets (\<lambda>w. case socketOf w i of None \<Rightarrow> False
     | Some s \<Rightarrow> sk_ready s \<and> sk_connected s)"

definition userIdOf :: "world \<Rightarrow> ident \<Rightarrow> ident" where
  "userIdOf w i = (case socketUser w i of None \<Rightarrow> [] | Some u \<Rightarrow> u)"

definition notAcquired :: acquire_result where
  "notAcquired = \<lparr>ar_acquired = False, ar_lock = None, ar_token = None\<rparr>"

definition acquireLock :: "ident \<Rightarrow> ident \<Rightarrow> string \<Rightarrow> acquire_result service" where
  "acquireLock i projectId key =
     andThen (gets (\<lambda>w. socketOf w i)) (\<lambda>found.
     case found of None \<Rightarrow> ret notAcquired
     | Some s \<Rightarrow> acquire \<lparr>ai_key = key, ai_userId = (case sk_userId s of None \<Rightarrow> [] | Some u \<Rightarrow> u),
         ai_username = sk_username s, ai_avatarUrl = sk_avatarUrl s, ai_projectId = projectId,
         ai_socketId = i\<rparr>)"

definition handleFieldLock ::
  "(world \<Rightarrow> world) \<Rightarrow> (world \<Rightarrow> world) \<Rightarrow> ident \<Rightarrow> ident \<Rightarrow> string \<Rightarrow> acquire_result service" where
  "handleFieldLock wait gap i projectId key =
     andThen (waitUntilReady i) (\<lambda>ready.
     if \<not> ready then ret notAcquired
     else andThen (gets (\<lambda>w. userIdOf w i)) (\<lambda>userId.
          andThen (withProjectResource wait (
            andThen (gets (\<lambda>w. isConnected w i \<and> inRoom w i (projectRoom projectId))) (\<lambda>here.
            if \<not> here then ret notAcquired
            else andThen (isCurrentProjectMember userId projectId) (\<lambda>isCurrentMember.
                 andThen (keyBelongsToProject key projectId) (\<lambda>belongs.
                 andThen (modify gap) (\<lambda>_.
                 andThen (gets (\<lambda>w. isConnected w i)) (\<lambda>connected.
                 if \<not> connected \<or> \<not> isCurrentMember \<or> \<not> belongs then ret notAcquired
                 else acquireLock i projectId key))))))) (\<lambda>result.
          andThen (case ar_lock result of
              Some l \<Rightarrow> whenever (ar_acquired result)
                (broadcast (projectRoom projectId) None ''field:locked'' (P_locked key l))
            | None \<Rightarrow> ret ()) (\<lambda>_.
          ret result))))"

text \<open>The check the other three messages share.\<close>

definition mayTouch :: "ident \<Rightarrow> ident \<Rightarrow> string \<Rightarrow> bool service" where
  "mayTouch i projectId key =
     andThen (gets (\<lambda>w. isConnected w i \<and> inRoom w i (projectRoom projectId))) (\<lambda>here.
     if \<not> here then ret False
     else andThen (gets (\<lambda>w. userIdOf w i)) (\<lambda>userId.
          andThen (isCurrentProjectMember userId projectId) (\<lambda>isCurrentMember.
          if \<not> isCurrentMember then ret False
          else keyBelongsToProject key projectId)))"

definition handleFieldUnlock ::
  "(world \<Rightarrow> world) \<Rightarrow> ident \<Rightarrow> ident \<Rightarrow> string \<Rightarrow> unit service" where
  "handleFieldUnlock wait i projectId key =
     andThen (waitUntilReady i) (\<lambda>ready.
     if \<not> ready then ret ()
     else andThen (withProjectResource wait (
            andThen (mayTouch i projectId key) (\<lambda>ok.
            if \<not> ok then ret None else release key i))) (\<lambda>released.
          case released of None \<Rightarrow> ret () | Some r \<Rightarrow> emitFieldUnlock r))"

definition handleFieldRenew ::
  "(world \<Rightarrow> world) \<Rightarrow> ident \<Rightarrow> ident \<Rightarrow> string \<Rightarrow> string \<Rightarrow> bool service" where
  "handleFieldRenew wait i projectId key leaseToken =
     andThen (waitUntilReady i) (\<lambda>ready.
     if \<not> ready then ret False
     else withProjectResource wait (
            andThen (mayTouch i projectId key) (\<lambda>ok.
            if \<not> ok then ret False
            else andThen (renew key i leaseToken) (\<lambda>renewed. ret (renewed \<noteq> None)))))"

definition handleFieldQuery ::
  "(world \<Rightarrow> world) \<Rightarrow> ident \<Rightarrow> ident \<Rightarrow> string \<Rightarrow> field_lock option service" where
  "handleFieldQuery wait i projectId key =
     andThen (waitUntilReady i) (\<lambda>ready.
     if \<not> ready then ret None
     else withProjectResource wait (
            andThen (mayTouch i projectId key) (\<lambda>ok.
            if \<not> ok then ret None else getLock key)))"

section \<open>Lemmas\<close>

lemma gateway_reads_run [run_simps]:
  "isCurrentProjectMember u p w =
     (Inr (length (filter (\<lambda>m. pm_userId m = u \<and> pm_projectId m = p) (members w)) = 1), w)"
  "waitUntilReady i w = (Inr (case socketOf w i of None \<Rightarrow> False
     | Some s \<Rightarrow> sk_ready s \<and> sk_connected s), w)"
  "onSocket i f w = (Inr (), sockets_update (map (\<lambda>s. if sk_id s = i then f s else s)) w)"
  by (simp_all add: isCurrentProjectMember_def waitUntilReady_def onSocket_def run_simps)

lemma keyBelongs_reads: "reads (keyBelongsToProject key p)"
  unfolding keyBelongsToProject_def
  by (auto simp: reads_def run_simps split: list.split option.split)

lemma keyBelongs_run:
  "\<exists>b. keyBelongsToProject key p w = (Inr b, w)"
  unfolding keyBelongsToProject_def by (auto simp: run_simps split: list.split option.split)

lemma keyBelongs_iff:
  "keyBelongsToProject key p w = (Inr True, w) \<longleftrightarrow>
     (\<exists>i. i \<noteq> [] \<and> CHR '':'' \<notin> set i \<and>
       (key = ''checklist-item'' @ CHR '':'' # i \<and> checklistItemProject w i = Some p \<or>
        key = ''discovery-block'' @ CHR '':'' # i \<and> discoveryBlockProject w i = Some p))"
  (is "?L = ?R")
proof
  assume ?L
  then obtain prefix i where s: "splitOn (CHR '':'') key = [prefix, i]" "prefix \<noteq> []" "i \<noteq> []"
    and v: "\<exists>v. keyPrefixValidators prefix = Some v \<and> v w i = Some p"
    unfolding keyBelongsToProject_def
    by (auto simp: run_simps split: list.splits if_splits option.splits)
  then show ?R
    unfolding splitOn_pair keyPrefixValidators_def by (intro exI [of _ i]) (auto split: if_splits)
next
  assume ?R
  then obtain i prefix where i: "i \<noteq> []" "CHR '':'' \<notin> set i" "key = prefix @ CHR '':'' # i"
    and v: "prefix = ''checklist-item'' \<and> checklistItemProject w i = Some p \<or>
      prefix = ''discovery-block'' \<and> discoveryBlockProject w i = Some p" by blast
  then have "splitOn (CHR '':'') key = [prefix, i]" by (auto simp: splitOn_pair)
  then show ?L
    using v i(1) by (auto simp: keyBelongsToProject_def run_simps keyPrefixValidators_def)
qed

section \<open>The sockets of a session\<close>

definition sessionsOk :: "world \<Rightarrow> bool" where
  "sessionsOk w \<longleftrightarrow> distinct (map fst (sessionSockets w)) \<and>
     (\<forall>k xs. map_of (sessionSockets w) k = Some xs \<longrightarrow>
        distinct xs \<and> xs \<noteq> [] \<and> length xs \<le> maximumSocketsPerSession)"

lemma sessionsOk_simps [simp]:
  "sessionsOk (sockets_update f w) = sessionsOk w" "sessionsOk (leases_update g w) = sessionsOk w"
  "sessionsOk (w\<lparr>outbox := ems\<rparr>) = sessionsOk w" "sessionsOk (dropLease k w) = sessionsOk w"
  "sessionsOk (expireLease k l w) = sessionsOk w"
  by (simp_all add: sessionsOk_def dropLease_def expireLease_def)

lemma sessionsOk_set:
  "sessionsOk w \<Longrightarrow> distinct xs \<Longrightarrow> xs \<noteq> [] \<Longrightarrow> length xs \<le> maximumSocketsPerSession \<Longrightarrow>
   sessionsOk (sessionSockets_update (AList.update k xs) w)"
  by (simp add: sessionsOk_def update_conv' distinct_update)

lemma sessionsOk_at:
  "sessionsOk w \<Longrightarrow> distinct (socketsOfSession w k)"
  "sessionsOk w \<Longrightarrow> map_of (sessionSockets w) k = Some xs \<Longrightarrow>
     distinct xs \<and> length xs \<le> maximumSocketsPerSession"
  by (auto simp: sessionsOk_def socketsOfSession_def split: option.split)

lemma sessionsOk_add:
  assumes "sessionsOk w" and "length (socketsOfSession w k) < maximumSocketsPerSession"
  shows "sessionsOk (sessionSockets_update (AList.update k (List.insert i (socketsOfSession w k))) w)"
proof (rule sessionsOk_set [OF assms(1)])
  show "distinct (List.insert i (socketsOfSession w k))" using sessionsOk_at(1) [OF assms(1)] by simp
  show "List.insert i (socketsOfSession w k) \<noteq> []" by (auto simp: List.insert_def)
  show "length (List.insert i (socketsOfSession w k)) \<le> maximumSocketsPerSession"
    using assms(2) by (simp add: List.insert_def)
qed

lemma keeps_register: "keeps sessionsOk (registerSessionSocket i)"
proof (rule keepsI)
  fix w
  assume w: "sessionsOk w"
  have "sessionsOk (sessionSockets_update (AList.update k (List.insert i (socketsOfSession w k))) w)"
    if "\<not> maximumSocketsPerSession \<le> length (socketsOfSession w k)" for k
    using sessionsOk_add [OF w, of k i] that by simp
  then show "sessionsOk (snd (registerSessionSocket i w))"
    using w by (auto simp: registerSessionSocket_def run_simps Let_def split: option.split)
qed

lemma keeps_unregister: "keeps sessionsOk (unregisterSessionSocket i)"
proof (rule keepsI)
  fix w
  assume w: "sessionsOk w"
  have del: "sessionsOk (sessionSockets_update (AList.delete k) w)" for k
    using w by (auto simp: sessionsOk_def delete_conv' distinct_delete)
  have upd: "sessionsOk (sessionSockets_update (AList.update k (removeAll i xs)) w)"
    if "map_of (sessionSockets w) k = Some xs" "removeAll i xs \<noteq> []" for k xs
  proof (rule sessionsOk_set [OF w])
    show "distinct (removeAll i xs)" "removeAll i xs \<noteq> []"
      using sessionsOk_at(2) [OF w that(1)] that(2) by (simp_all add: distinct_removeAll)
    show "length (removeAll i xs) \<le> maximumSocketsPerSession"
      using sessionsOk_at(2) [OF w that(1)] length_removeAll_less_eq [of i xs] by linarith
  qed
  show "sessionsOk (snd (unregisterSessionSocket i w))"
    using w del upd by (auto simp: unregisterSessionSocket_def run_simps split: option.split)
qed

lemma keeps_sockets:
  "keeps sessionsOk (onSocket i f)" "keeps sessionsOk (joinRoom i room)" "keeps sessionsOk (disconnectSocket i)"
  by (auto intro!: keepsI simp: joinRoom_def disconnectSocket_def run_simps)

lemma keeps_wait:
  "(\<And>w. I w \<Longrightarrow> I (wait w)) \<Longrightarrow> keeps I m \<Longrightarrow> keeps I (withProject wait m)"
  "(\<And>w. I w \<Longrightarrow> I (wait w)) \<Longrightarrow> keeps I n \<Longrightarrow> keeps I (withProjectResource wait n)"
  by (simp_all add: withProject_def withProjectResource_def keeps_andThen keeps_modify)

lemma keeps_joinProjectRooms:
  "(\<And>w. sessionsOk w \<Longrightarrow> sessionsOk (wait w)) \<Longrightarrow> keeps sessionsOk (joinProjectRooms wait i u ps)"
proof (induction ps)
  case (Cons p ps)
  then show ?case
    unfolding joinProjectRooms.simps isCurrentProjectMember_def
    by (intro keeps_rules keeps_wait keeps_sockets) auto
qed (simp add: keeps_ret)

lemma keeps_joinRooms:
  "(\<And>w. sessionsOk w \<Longrightarrow> sessionsOk (wait w)) \<Longrightarrow> keeps sessionsOk (joinRooms wait i)"
  unfolding joinRooms_def by (intro keeps_rules keeps_sockets keeps_joinProjectRooms) simp

lemma keeps_handleConnection:
  assumes "\<And>w. sessionsOk w \<Longrightarrow> sessionsOk (wait w)"
  shows "keeps sessionsOk (handleConnection wait i)"
  unfolding handleConnection_def
  by (intro keeps_rules keeps_register keeps_unregister keeps_sockets keeps_joinRooms assms)

lemma keeps_lock_effects:
  "keeps sessionsOk (release key i)" "keeps sessionsOk (emitFieldUnlock x)"
proof -
  show "keeps sessionsOk (release key i)"
    by (auto intro!: keepsI simp: run_simps split: option.split)
  show "keeps sessionsOk (emitFieldUnlock x)"
    by (cases x) (simp add: keeps_def emitFieldUnlock_def run_simps)
qed

lemma keeps_handleDisconnect:
  assumes "\<And>w. sessionsOk w \<Longrightarrow> sessionsOk (wait w)"
  shows "keeps sessionsOk (handleDisconnect wait i)"
  unfolding handleDisconnect_def releaseSocket_def
  by (intro keeps_rules keeps_unregister keeps_wait keeps_lock_effects assms)

section \<open>Properties\<close>

text \<open>A session never has more than five sockets: connecting and disconnecting keep every
  session's socket set duplicate-free, nonempty and at most five, whatever runs in between; and
  a connection of a session that has five is refused without touching the table.\<close>

lemma session_socket_cap:
  assumes "sessionsOk w" and "\<And>w. sessionsOk w \<Longrightarrow> sessionsOk (wait w)"
  shows "sessionsOk (snd (handleConnection wait i w)) \<and> sessionsOk (snd (handleDisconnect wait i w)) \<and>
     (\<forall>k. sessionOf w i = Some k \<longrightarrow> length (socketsOfSession w (sessionKey k)) = 5 \<longrightarrow>
        registerSessionSocket i w = (Inr False, w))"
proof (intro conjI)
  show "sessionsOk (snd (handleConnection wait i w))" "sessionsOk (snd (handleDisconnect wait i w))"
    using keepsD [OF keeps_handleConnection [of wait, OF assms(2)] assms(1)]
      keepsD [OF keeps_handleDisconnect [of wait, OF assms(2)] assms(1)] by simp_all
  show "\<forall>k. sessionOf w i = Some k \<longrightarrow> length (socketsOfSession w (sessionKey k)) = 5 \<longrightarrow>
      registerSessionSocket i w = (Inr False, w)"
    by (simp add: registerSessionSocket_def run_simps Let_def maximumSocketsPerSession_def)
qed

definition sampleSocket :: "ident \<Rightarrow> socket" where
  "sampleSocket i = \<lparr>sk_id = i, sk_userId = Some ''u'', sk_sessionId = Some ''s'', sk_username = ''ann'',
     sk_avatarUrl = None, sk_connected = True, sk_ready = True,
     sk_rooms = [''user:u'', ''project:p''], sk_sessionKey = None\<rparr>"

definition crowdedWorld :: world where
  "crowdedWorld = emptyWorld\<lparr>sockets := [sampleSocket ''x''],
     sessionSockets := [(''u:s'', [''1'', ''2'', ''3'', ''4'', ''5''])]\<rparr>"

lemma session_socket_cap_sample: "registerSessionSocket ''x'' crowdedWorld = (Inr False, crowdedWorld)"
proof -
  have "sessionsOk crowdedWorld"
    by (auto simp: sessionsOk_def crowdedWorld_def maximumSocketsPerSession_def split: if_splits)
  moreover have "sessionOf crowdedWorld ''x'' = Some (''u'', ''s'')"
    by (simp add: sessionOf_def socketOf_def crowdedWorld_def sampleSocket_def)
  moreover have "length (socketsOfSession crowdedWorld (sessionKey (''u'', ''s''))) = 5"
    by (simp add: socketsOfSession_def crowdedWorld_def sessionKey_def)
  ultimately show ?thesis using session_socket_cap [of crowdedWorld "\<lambda>w. w" "''x''"] by blast
qed

text \<open>A key opens at most one resource: the gateway accepts a key for a project iff it is a known
  prefix, one colon and the id of such a resource of that very project; in particular an id
  of another project or a suffixed variant of a key is refused.\<close>

lemma lockable_key_is_canonical:
  "keyBelongsToProject key p w = (Inr True, w) \<longleftrightarrow>
     (\<exists>i. i \<noteq> [] \<and> CHR '':'' \<notin> set i \<and>
       (key = ''checklist-item:'' @ i \<and> checklistItemProject w i = Some p \<or>
        key = ''discovery-block:'' @ i \<and> discoveryBlockProject w i = Some p))"
  unfolding keyBelongs_iff by simp

lemma acquireLock_acquired:
  assumes "acquireLock i p key w = (Inr r, v)" and "ar_acquired r"
  shows "(\<exists>l. leaseAt v key = Some l \<and> l_socketId l = i \<and>
       l_expiresAt l = clock w + FIELD_LOCK_TTL_MS \<and> ar_token r = Some (l_token l)) \<and> clock v = clock w"
proof -
  obtain s where s: "socketOf w i = Some s"
    using assms by (auto simp: acquireLock_def run_simps notAcquired_def split: option.splits)
  define inp where "inp = \<lparr>ai_key = key, ai_userId = (case sk_userId s of None \<Rightarrow> [] | Some u \<Rightarrow> u),
     ai_username = sk_username s, ai_avatarUrl = sk_avatarUrl s, ai_projectId = p, ai_socketId = i\<rparr>"
  have k: "ai_key inp = key" "ai_socketId inp = i" by (simp_all add: inp_def)
  have a: "acquire inp w = (Inr r, v)"
    using assms(1) s by (simp add: acquireLock_def run_simps inp_def)
  show ?thesis
  proof (cases "\<exists>l. leaseAt w key = Some l \<and> l_expiresAt l > clock w")
    case True
    then show ?thesis using a assms(2) acquire_live [of w inp] k by (auto split: if_splits)
  next
    case False
    then have "\<forall>l. leaseAt w (ai_key inp) = Some l \<longrightarrow> l_expiresAt l \<le> clock w" using k by force
    note f = acquire_free [OF this]
    have "clock v = clock w"
      using a by (auto simp: acquire_def run_simps Let_def split: option.splits if_splits)
    then show ?thesis using f a k by (auto simp: newLease_def)
  qed
qed

text \<open>C7 A lock is granted only to a live member: when \<open>field:lock\<close> answers locked, the socket was
  ready and connected, in the project's room, its user held exactly one membership row of the
  project and the key named a resource of it (all under the project lock), it was still
  connected at the end, the lease is that socket's with a full TTL and the answer carries its
  token.\<close>

theorem field_lock_granted_to_member:
  assumes "handleFieldLock wait gap i p key w = (Inr r, w')" and "ar_acquired r"
  shows "(\<exists>s. socketOf w i = Some s \<and> sk_ready s \<and> sk_connected s) \<and>
     isConnected (wait w) i \<and> inRoom (wait w) i (projectRoom p) \<and>
     length (filter (\<lambda>m. pm_userId m = userIdOf w i \<and> pm_projectId m = p) (members (wait w))) = 1 \<and>
     keyBelongsToProject key p (wait w) = (Inr True, wait w) \<and> isConnected (gap (wait w)) i \<and>
     (\<exists>l. leaseAt w' key = Some l \<and> l_socketId l = i \<and>
        l_expiresAt l = clock (gap (wait w)) + FIELD_LOCK_TTL_MS \<and> ar_token r = Some (l_token l))"
proof -
  let ?v = "wait w"
  obtain b where b: "keyBelongsToProject key p ?v = (Inr b, ?v)" using keyBelongs_run by blast
  obtain s where s: "socketOf w i = Some s" "sk_ready s" "sk_connected s"
    using assms by (auto simp: handleFieldLock_def run_simps notAcquired_def split: option.splits if_splits)
  have no: "\<not> ar_acquired notAcquired" by (simp add: notAcquired_def)
  have c: "isConnected ?v i \<and> inRoom ?v i (projectRoom p)"
    using assms s no by (auto simp: handleFieldLock_def run_simps split: option.splits if_splits)
  have d: "length (filter (\<lambda>m. pm_userId m = userIdOf w i \<and> pm_projectId m = p) (members ?v)) = 1 \<and>
      b \<and> isConnected (gap ?v) i"
    using assms s no c b by (auto simp: handleFieldLock_def run_simps split: option.splits if_splits)
  obtain u where u: "acquireLock i p key (gap ?v) = (Inr r, u)" and same: "leases w' = leases u"
    using assms s c d b
    by (auto simp: handleFieldLock_def run_simps split: option.splits if_splits sum.splits prod.splits)
  have "leaseAt w' key = leaseAt u key" by (simp add: leaseAt_def same)
  then show ?thesis using acquireLock_acquired [OF u assms(2)] s c d b by auto
qed

definition memberWorld :: world where
  "memberWorld = emptyWorld\<lparr>sockets := [sampleSocket ''x''],
     members := [\<lparr>pm_userId = ''u'', pm_projectId = ''p'', pm_role = MEMBER, pm_createdAt = 0\<rparr>],
     checklist := [\<lparr>ci_id = ''7'', ci_projectId = ''p'', ci_label = ''Norm'', ci_isChecked = False,
       ci_order = 0, ci_section = MANDATORY\<rparr>]\<rparr>"

theorem field_lock_granted_to_member_witness:
  "\<exists>r w' l. handleFieldLock (\<lambda>w. w) (\<lambda>w. w) ''x'' ''p'' ''checklist-item:7'' memberWorld = (Inr r, w') \<and>
     leaseAt w' ''checklist-item:7'' = Some l \<and> l_socketId l = ''x'' \<and> ar_token r = Some (l_token l)"
proof -
  have k: "keyBelongsToProject ''checklist-item:7'' ''p'' memberWorld = (Inr True, memberWorld)"
    by (simp add: keyBelongsToProject_def run_simps keyPrefixValidators_def checklistItemProject_def
        memberWorld_def)
  have "\<exists>r w'. handleFieldLock (\<lambda>w. w) (\<lambda>w. w) ''x'' ''p'' ''checklist-item:7'' memberWorld = (Inr r, w') \<and>
      ar_acquired r"
    by (simp add: handleFieldLock_def run_simps k)
       (simp add: memberWorld_def socketOf_def sampleSocket_def isConnected_def inRoom_def
        projectRoom_def userIdOf_def socketUser_def emptyWorld_def acquireLock_def acquire_def
        leaseAt_def run_simps Let_def)
  then obtain r w' where "handleFieldLock (\<lambda>w. w) (\<lambda>w. w) ''x'' ''p'' ''checklist-item:7'' memberWorld = (Inr r, w')"
    "ar_acquired r" by blast
  from field_lock_granted_to_member [OF this] this(1) show ?thesis by blast
qed

lemma find_update:
  "(\<And>s. sk_id (f s) = sk_id s) \<Longrightarrow>
   List.find (\<lambda>s. sk_id s = i) (map (\<lambda>s. if sk_id s = i then f s else s) ss) =
   map_option f (List.find (\<lambda>s. sk_id s = i) ss)"
  by (induction ss) auto

definition roomJoined :: "ident \<Rightarrow> string \<Rightarrow> world \<Rightarrow> world" where
  "roomJoined i room = sockets_update (map (\<lambda>s. if sk_id s = i
     then s\<lparr>sk_rooms := List.insert room (sk_rooms s)\<rparr> else s))"

lemma roomJoined_simps [simp]:
  "members (roomJoined i room w) = members w"
  "isConnected (roomJoined i room w) i = isConnected w i"
  "isConnected w i \<Longrightarrow> inRoom (roomJoined i room w) i r \<longleftrightarrow> r = room \<or> inRoom w i r"
  by (auto simp: roomJoined_def isConnected_def inRoom_def socketOf_def find_update split: option.splits)

lemma joinRoom_run [run_simps]: "joinRoom i room w = (Inr (), roomJoined i room w)"
  by (simp add: joinRoom_def roomJoined_def run_simps)

lemma joinProjectRooms_all:
  assumes "isConnected w i"
    and "\<forall>p\<in>set ps. length (filter (\<lambda>m. pm_userId m = u \<and> pm_projectId m = p) (members w)) = 1"
  shows "\<exists>v. joinProjectRooms (\<lambda>w. w) i u ps w = (Inr True, v) \<and> isConnected v i \<and>
     (\<forall>r. inRoom v i r \<longleftrightarrow> inRoom w i r \<or> r \<in> projectRoom ` set ps)"
  using assms
proof (induction ps arbitrary: w)
  case Nil
  then show ?case by (simp add: ret_run)
next
  case (Cons p ps)
  let ?w = "roomJoined i (projectRoom p) w"
  have "joinProjectRooms (\<lambda>w. w) i u (p # ps) w = joinProjectRooms (\<lambda>w. w) i u ps ?w"
    using Cons.prems by (simp add: run_simps)
  moreover obtain v where "joinProjectRooms (\<lambda>w. w) i u ps ?w = (Inr True, v)" "isConnected v i"
    "\<forall>r. inRoom v i r \<longleftrightarrow> inRoom ?w i r \<or> r \<in> projectRoom ` set ps"
    using Cons.IH [of ?w] Cons.prems by auto
  ultimately show ?case using Cons.prems(1) by auto
qed

lemma membership_rows_unique:
  assumes "distinct (map (\<lambda>m. (pm_userId m, pm_projectId m)) ms)" and "m \<in> set ms"
  shows "length (filter (\<lambda>x. pm_userId x = pm_userId m \<and> pm_projectId x = pm_projectId m) ms) = 1"
  using filter_key_unique [OF assms] by (simp add: prod_eq_iff [symmetric])

text \<open>A connecting socket joins exactly its rooms: with one row per membership, admission ends with
  the socket in its user's room and in the rooms of precisely the projects its user is a member
  of (and those it was in), so it receives no other project's broadcasts.\<close>

lemma connection_joins_member_rooms:
  assumes "sessionOf w i = Some (u, sid)" and "isConnected w i"
    and "distinct (map (\<lambda>m. (pm_userId m, pm_projectId m)) (members w))"
  shows "\<exists>v. joinRooms (\<lambda>w. w) i w = (Inr True, v) \<and>
     (\<forall>r. inRoom v i r \<longleftrightarrow> inRoom w i r \<or> r = userRoom u \<or> (\<exists>p. r = projectRoom p \<and> isMember w p u))"
proof -
  let ?w = "roomJoined i (userRoom u) w"
  let ?ps = "map pm_projectId (filter (\<lambda>m. pm_userId m = u) (members w))"
  have one: "\<forall>p\<in>set ?ps. length (filter (\<lambda>m. pm_userId m = u \<and> pm_projectId m = p) (members ?w)) = 1"
    using membership_rows_unique [OF assms(3)] by auto
  have "isConnected ?w i" using assms(2) by simp
  from joinProjectRooms_all [OF this one] obtain v where v:
    "joinProjectRooms (\<lambda>w. w) i u ?ps ?w = (Inr True, v)" "isConnected v i"
    "\<forall>r. inRoom v i r \<longleftrightarrow> inRoom ?w i r \<or> r \<in> projectRoom ` set ?ps" by blast
  have "isMember w p u \<longleftrightarrow> p \<in> set ?ps" for p
    by (auto simp: isMember_def list_ex_iff image_iff)
  then have "inRoom v i r \<longleftrightarrow> inRoom w i r \<or> r = userRoom u \<or> (\<exists>p. r = projectRoom p \<and> isMember w p u)" for r
    using v(3) assms(2) by (auto simp del: set_map)
  moreover have "joinRooms (\<lambda>w. w) i w = (Inr True, v)"
    using assms(1,2) v(1,2) by (simp add: joinRooms_def run_simps)
  ultimately show ?thesis by blast
qed

lemma connection_joins_member_rooms_sample:
  "\<exists>v. joinRooms (\<lambda>w. w) ''x'' memberWorld = (Inr True, v) \<and> inRoom v ''x'' ''project:p''"
proof -
  have s: "sessionOf memberWorld ''x'' = Some (''u'', ''s'')" "isConnected memberWorld ''x''"
    by (simp_all add: sessionOf_def socketOf_def memberWorld_def sampleSocket_def isConnected_def)
  have "distinct (map (\<lambda>m. (pm_userId m, pm_projectId m)) (members memberWorld))"
    by (simp add: memberWorld_def)
  moreover have "isMember memberWorld ''p'' ''u''" by (simp add: isMember_def memberWorld_def)
  ultimately show ?thesis
    using connection_joins_member_rooms [OF s] by (auto simp: projectRoom_def)
qed

end
