(* ===== verification/JsNumber.thy ===== *)
theory JsNumber
  imports Complex_Main
begin

text \<open>
  The part of JavaScript's number arithmetic the progress computations use: division,
  multiplication and addition of doubles, each an exact rational result rounded to 53
  significant bits (ties to even), and \<open>Math.round\<close>. Every value here lies in
  \<open>[0, 2^53)\<close>, so only the scaling up to a 53-bit significand is needed; 1100 doublings are
  more than the smallest positive double needs, and \<open>norm_exp_range\<close> says so.
\<close>

definition round_half_even :: "rat \<Rightarrow> int" where
  "round_half_even x = (let f = \<lfloor>x\<rfloor>; d = x - of_int f in
     if d < 1 / 2 then f else if d > 1 / 2 then f + 1 else if even f then f else f + 1)"

fun norm_exp :: "nat \<Rightarrow> rat \<Rightarrow> nat" where
  "norm_exp 0 y = 0"
| "norm_exp (Suc n) y = (if y < 2 ^ 52 then Suc (norm_exp n (2 * y)) else 0)"

definition double :: "rat \<Rightarrow> rat" where
  "double x = (if x \<le> 0 then 0
     else let k = norm_exp 1100 x in of_int (round_half_even (x * 2 ^ k)) / 2 ^ k)"

definition js_div :: "rat \<Rightarrow> rat \<Rightarrow> rat" where
  "js_div x y = double (x / y)"

definition js_mult :: "rat \<Rightarrow> rat \<Rightarrow> rat" where
  "js_mult x y = double (x * y)"

definition js_add :: "rat \<Rightarrow> rat \<Rightarrow> rat" where
  "js_add x y = double (x + y)"

definition math_round :: "rat \<Rightarrow> int" where
  "math_round x = \<lfloor>x + 1 / 2\<rfloor>"

section \<open>Rounding error\<close>

lemma round_half_even_error: "\<bar>of_int (round_half_even x) - x\<bar> \<le> 1 / 2"
proof -
  have "of_int \<lfloor>x\<rfloor> \<le> x" "x < of_int \<lfloor>x\<rfloor> + 1" by linarith+
  then show ?thesis
    by (auto simp: round_half_even_def Let_def abs_le_iff)
qed

lemma norm_exp_range:
  "0 < y \<Longrightarrow> y < 2 ^ 53 \<Longrightarrow> 2 ^ 52 \<le> y * 2 ^ n \<Longrightarrow>
   2 ^ 52 \<le> y * 2 ^ norm_exp n y \<and> y * 2 ^ norm_exp n y < 2 ^ 53"
proof (induction n arbitrary: y)
  case 0
  then show ?case by simp
next
  case (Suc n)
  show ?case
  proof (cases "y < 2 ^ 52")
    case True
    have "2 ^ 52 \<le> (2 * y) * 2 ^ norm_exp n (2 * y) \<and>
          (2 * y) * 2 ^ norm_exp n (2 * y) < 2 ^ 53"
      using Suc.prems True by (intro Suc.IH) (auto simp: algebra_simps)
    with True show ?thesis by (simp add: algebra_simps)
  next
    case False
    with Suc.prems show ?thesis by simp
  qed
qed

lemma double_bounds:
  assumes "x < 2 ^ 53" "1 / 1000 \<le> x"
  shows "double x \<le> x * (1 + 1 / 2 ^ 53)" and "x * (1 - 1 / 2 ^ 53) \<le> double x"
proof -
  define k where "k = norm_exp 1100 x"
  define y where "y = x * 2 ^ k"
  have pos: "0 < x" using assms(2) by linarith
  have "(2::rat) ^ 52 \<le> 1 / 1000 * 2 ^ 62" by simp
  also have "\<dots> \<le> x * 2 ^ 1100"
    using assms(2) by (intro mult_mono power_increasing) auto
  finally have y: "2 ^ 52 \<le> y"
    using norm_exp_range [OF pos assms(1)] unfolding y_def k_def by blast
  have d: "double x = of_int (round_half_even y) / 2 ^ k"
    using pos by (simp add: double_def Let_def y_def k_def)
  have "\<bar>of_int (round_half_even y) - y\<bar> \<le> 1 / 2"
    by (rule round_half_even_error)
  then have e: "of_int (round_half_even y) \<le> y + 1 / 2" "y - 1 / 2 \<le> of_int (round_half_even y)"
    by linarith+
  have s: "1 / 2 \<le> y * (1 / 2 ^ 53)" using y by simp
  have up: "of_int (round_half_even y) \<le> y * (1 + 1 / 2 ^ 53)"
    using e(1) s by (simp only: distrib_left mult_1_right)
  have lo: "y * (1 - 1 / 2 ^ 53) \<le> of_int (round_half_even y)"
    using e(2) s by (simp only: right_diff_distrib mult_1_right)
  have x: "x = y / 2 ^ k" by (simp add: y_def)
  have up': "double x \<le> y * (1 + 1 / 2 ^ 53) / 2 ^ k"
    unfolding d using up by (rule divide_right_mono) simp
  have lo': "y * (1 - 1 / 2 ^ 53) / 2 ^ k \<le> double x"
    unfolding d using lo by (rule divide_right_mono) simp
  show "double x \<le> x * (1 + 1 / 2 ^ 53)"
    using up' by (simp only: x times_divide_eq_left)
  show "x * (1 - 1 / 2 ^ 53) \<le> double x"
    using lo' by (simp only: x times_divide_eq_left)
qed

lemma double_nonneg: "0 \<le> double x"
proof (cases "x \<le> 0")
  case True
  then show ?thesis by (simp add: double_def)
next
  case False
  have "0 \<le> round_half_even (x * 2 ^ norm_exp 1100 x)"
  proof -
    have "0 \<le> x * 2 ^ norm_exp 1100 x" using False by simp
    then have "0 \<le> \<lfloor>x * 2 ^ norm_exp 1100 x\<rfloor>" by simp
    then show ?thesis by (simp add: round_half_even_def Let_def)
  qed
  with False show ?thesis by (simp add: double_def Let_def)
qed

text \<open>Small integers are representable: rounding leaves them alone.\<close>

lemma round_half_even_int: "round_half_even (of_int z) = z"
  by (simp add: round_half_even_def)

lemma double_of_nat: "double (of_nat n) = of_nat n"
proof (cases "n = 0")
  case True
  then show ?thesis by (simp add: double_def)
next
  case False
  have "of_nat n * 2 ^ norm_exp 1100 (of_nat n) =
        (of_int (int n * 2 ^ norm_exp 1100 (of_nat n)) :: rat)"
    by simp
  then have "round_half_even (of_nat n * 2 ^ norm_exp 1100 (of_nat n)) =
      int n * 2 ^ norm_exp 1100 (of_nat n)"
    by (metis round_half_even_int)
  with False show ?thesis by (simp add: double_def Let_def)
qed

section \<open>Percentages\<close>

text \<open>
  \<open>Math.round((checked / items.length) * 100)\<close>, the computation four functions of the repository
  share.
\<close>

definition percent_of :: "nat \<Rightarrow> nat \<Rightarrow> int" where
  "percent_of c n = math_round (js_mult (js_div (of_nat c) (of_nat n)) 100)"

lemma percent_of_nonneg: "0 \<le> percent_of c n"
proof -
  have "0 \<le> js_mult (js_div (of_nat c) (of_nat n)) 100"
    by (simp add: js_mult_def double_nonneg)
  then have "0 \<le> js_mult (js_div (of_nat c) (of_nat n)) 100 + 1 / 2" by linarith
  then show ?thesis by (simp add: percent_of_def math_round_def)
qed

lemma percent_of_zero [simp]: "percent_of 0 n = 0"
proof -
  have "\<lfloor>(1 / 2 :: rat)\<rfloor> = 0" by (simp add: floor_eq_iff)
  then show ?thesis by (simp add: percent_of_def js_div_def js_mult_def double_def math_round_def)
qed

lemma percent_of_all: "0 < n \<Longrightarrow> percent_of n n = 100"
proof -
  assume "0 < n"
  have "js_div (of_nat n) (of_nat n) = 1"
    using \<open>0 < n\<close> double_of_nat [of 1] by (simp add: js_div_def)
  then have "js_mult (js_div (of_nat n) (of_nat n)) 100 = 100"
    using double_of_nat [of 100] by (simp add: js_mult_def)
  then show ?thesis
    by (simp add: percent_of_def math_round_def floor_eq_iff)
qed

lemma js_percent_upper:
  assumes "1 / 200 \<le> (q::rat)" "q \<le> 1"
  shows "js_mult (double q) 100 \<le> q * 100 * (1 + 1 / 2 ^ 53) * (1 + 1 / 2 ^ 53)"
proof -
  have d: "double q \<le> q * (1 + 1 / 2 ^ 53)" "q * (1 - 1 / 2 ^ 53) \<le> double q"
    using double_bounds [of q] assms by auto
  have "1 / 400 \<le> q * (1 - 1 / 2 ^ 53)" using assms(1) by simp
  with d(2) have lo: "1 / 400 \<le> double q" by linarith
  have "q * (1 + 1 / 2 ^ 53) \<le> 2" using assms(2) by simp
  with d(1) have hi: "double q \<le> 2" by linarith
  have "double (double q * 100) \<le> double q * 100 * (1 + 1 / 2 ^ 53)"
    using lo hi by (intro double_bounds(1)) auto
  also have "\<dots> \<le> q * (1 + 1 / 2 ^ 53) * 100 * (1 + 1 / 2 ^ 53)"
    using d(1) by (intro mult_right_mono) auto
  finally show ?thesis by (simp add: js_mult_def mult_ac)
qed

text \<open>Below 200 items the rounded percentage never reaches 100 before the last item.\<close>

lemma percent_of_below_100:
  assumes "c < n" "n < 200"
  shows "percent_of c n < 100"
proof (cases "c = 0")
  case True
  then show ?thesis by simp
next
  case False
  let ?q = "of_nat c / of_nat n :: rat"
  have lo: "1 / 200 \<le> ?q"
  proof -
    have "n \<le> 200 * c" using assms False by linarith
    then have "of_nat n \<le> (200 :: rat) * of_nat c"
      by (metis of_nat_le_iff of_nat_mult of_nat_numeral)
    then show ?thesis using assms by (simp add: field_simps)
  qed
  have hi: "?q \<le> 198 / 199"
  proof -
    have "199 * c \<le> 198 * n" using assms by linarith
    then have "(199::rat) * of_nat c \<le> 198 * of_nat n"
      by (metis of_nat_le_iff of_nat_mult of_nat_numeral)
    then show ?thesis using assms by (simp add: field_simps)
  qed
  have "js_mult (double ?q) 100 \<le> ?q * 100 * (1 + 1 / 2 ^ 53) * (1 + 1 / 2 ^ 53)"
  proof (rule js_percent_upper)
    show "1 / 200 \<le> ?q" by (rule lo)
    show "?q \<le> 1" using hi by linarith
  qed
  also have "\<dots> \<le> 198 / 199 * 100 * (1 + 1 / 2 ^ 53) * (1 + 1 / 2 ^ 53)"
    using hi by (intro mult_right_mono) auto
  also have "\<dots> < 99 + 1 / 2" by simp
  finally have "js_mult (double ?q) 100 + 1 / 2 < 100" by simp
  then show ?thesis
    unfolding percent_of_def math_round_def js_div_def by linarith
qed

lemma percent_of_eq_100:
  "0 < n \<Longrightarrow> c \<le> n \<Longrightarrow> n < 200 \<Longrightarrow> 100 \<le> percent_of c n \<longleftrightarrow> c = n"
  using percent_of_below_100 [of c n] percent_of_all [of n] by (cases "c = n") auto

lemma percent_of_le_100: "c \<le> n \<Longrightarrow> n < 200 \<Longrightarrow> percent_of c n \<le> 100"
  using percent_of_below_100 [of c n] percent_of_all [of n] by (cases "c = n"; cases "n = 0") auto

end
