(* ===== verification/Progress.thy ===== *)
theory Progress
  imports Schema JsNumber
begin

text \<open>
  The progress and status computations: \<open>computeProjectProgress\<close>
  (\<open>backend/src/projects/projects.service.ts\<close>), \<open>computeSectionPercent\<close>
  (\<open>backend/src/evaluation-checklist-items/\<close>), \<open>computeDiscoveryBlockStatus\<close>
  (\<open>backend/src/discovery-blocks/\<close>) and their frontend counterpart
  \<open>computeEvaluationChecklistProgress\<close> (\<open>frontend/src/lib/evaluationChecklistProgress.ts\<close>),
  all over the double arithmetic of \<open>JsNumber\<close>. The lemmas relate the two sides: below 200
  items a section the rounded and the exact notion of "complete" agree.
\<close>

type_synonym check = "checklist_section \<times> bool"

definition computeSectionPercent :: "bool list \<Rightarrow> int" where
  "computeSectionPercent items = (if items = [] then 0
     else percent_of (length (filter (\<lambda>c. c) items)) (length items))"

definition sectionItems :: "checklist_section \<Rightarrow> check list \<Rightarrow> bool list" where
  "sectionItems sec items = map snd (filter (\<lambda>item. fst item = sec) items)"

definition addWeighted :: "rat \<Rightarrow> int \<Rightarrow> rat" where
  "addWeighted acc percent = js_add acc (js_mult (js_div (of_int percent) 100) 25)"

definition computeProjectProgress :: "check list \<Rightarrow> int" where
  "computeProjectProgress items =
     (let mandatoryPercent = computeSectionPercent (sectionItems MANDATORY items);
          bonusPercent = computeSectionPercent (sectionItems BONUS items);
          supplementalPercent = computeSectionPercent (sectionItems SUPPLEMENTAL items);
          mandatoryComplete = (mandatoryPercent \<ge> 100);
          bonusComplete = (bonusPercent \<ge> 100);
          overallPercent =
            (if mandatoryComplete
             then (if bonusComplete
                   then addWeighted (addWeighted (of_int mandatoryPercent) bonusPercent)
                          supplementalPercent
                   else addWeighted (of_int mandatoryPercent) bonusPercent)
             else of_int mandatoryPercent)
      in min (math_round overallPercent) 100)"

definition computeDiscoveryBlockStatus :: "bool list \<Rightarrow> block_status" where
  "computeDiscoveryBlockStatus items =
     (let checkedCount = length (filter (\<lambda>c. c = True) items) in
      if items = [] \<or> checkedCount = 0 then NOT_STARTED
      else if checkedCount = length items then B_COMPLETED
      else B_IN_PROGRESS)"

section \<open>The frontend's gated progress\<close>

record checklist_progress =
  currentValue :: nat
  completeAt :: nat
  percent :: int

definition allChecked :: "bool list \<Rightarrow> bool" where
  "allChecked items \<longleftrightarrow> 0 < length items \<and> list_all (\<lambda>c. c) items"

definition computeEvaluationChecklistProgress :: "check list \<Rightarrow> checklist_progress" where
  "computeEvaluationChecklistProgress items =
     (let mandatoryItems = sectionItems MANDATORY items;
          bonusItems = sectionItems BONUS items;
          supplementalItems = sectionItems SUPPLEMENTAL items;
          checked = (\<lambda>xs. length (filter (\<lambda>c. c) xs));
          p0 = of_int (computeSectionPercent mandatoryItems);
          p1 = addWeighted p0 (computeSectionPercent bonusItems);
          p2 = addWeighted p1 (computeSectionPercent supplementalItems)
      in if allChecked mandatoryItems
         then if allChecked bonusItems
              then \<lparr>currentValue = checked mandatoryItems + checked bonusItems +
                      checked supplementalItems,
                    completeAt = length mandatoryItems + length bonusItems +
                      length supplementalItems,
                    percent = math_round p2\<rparr>
              else \<lparr>currentValue = checked mandatoryItems + checked bonusItems,
                    completeAt = length mandatoryItems + length bonusItems,
                    percent = math_round p1\<rparr>
         else \<lparr>currentValue = checked mandatoryItems, completeAt = length mandatoryItems,
               percent = math_round p0\<rparr>)"

definition getEvaluationChecklistReadinessTier :: "int \<Rightarrow> checklist_section" where
  "getEvaluationChecklistReadinessTier p =
     (if p > 125 then SUPPLEMENTAL else if p > 100 then BONUS else MANDATORY)"

section \<open>Lemmas\<close>

lemma math_round_int [simp]: "math_round (of_int z) = z"
proof -
  have "\<lfloor>of_int z + 1 / 2 :: rat\<rfloor> = z" by (simp add: floor_eq_iff)
  then show ?thesis by (simp add: math_round_def)
qed

lemma math_round_mono: "x \<le> y \<Longrightarrow> math_round x \<le> math_round y"
  unfolding math_round_def by (intro floor_mono) simp

lemma checked_le_length: "length (filter (\<lambda>c. c) items) \<le> length items"
  by simp

lemma allChecked_iff:
  "allChecked items \<longleftrightarrow> 0 < length items \<and> length (filter (\<lambda>c. c) items) = length items"
  by (simp add: allChecked_def list_all_iff length_filter_all)

lemma computeSectionPercent_nonneg: "0 \<le> computeSectionPercent items"
  by (simp add: computeSectionPercent_def percent_of_nonneg)

lemma computeSectionPercent_complete:
  "length items < 200 \<Longrightarrow> 100 \<le> computeSectionPercent items \<longleftrightarrow> allChecked items"
  by (auto simp: computeSectionPercent_def allChecked_iff percent_of_eq_100)

lemma computeSectionPercent_le: "length items < 200 \<Longrightarrow> computeSectionPercent items \<le> 100"
  by (simp add: computeSectionPercent_def percent_of_le_100)

text \<open>Rounding to nearest never falls below a nonnegative integer that the exact value reaches.\<close>

lemma double_ge_100: "100 \<le> x \<Longrightarrow> x < 2 ^ 53 \<Longrightarrow> 100 * (1 - 1 / 2 ^ 53) \<le> double x"
proof -
  assume x: "100 \<le> x" "x < 2 ^ 53"
  have "100 * (1 - 1 / 2 ^ 53) \<le> x * (1 - 1 / 2 ^ 53)"
    using x(1) by (intro mult_right_mono) auto
  also have "\<dots> \<le> double x" using x by (intro double_bounds(2)) auto
  finally show ?thesis .
qed

lemma weight_bounds:
  assumes "0 \<le> p" "p \<le> 100"
  shows "0 \<le> js_mult (js_div (of_int p) 100) 25" "js_mult (js_div (of_int p) 100) 25 \<le> 100"
proof -
  show "0 \<le> js_mult (js_div (of_int p) 100) 25" by (simp add: js_mult_def double_nonneg)
  show "js_mult (js_div (of_int p) 100) 25 \<le> 100"
  proof (cases "p = 0")
    case True
    then show ?thesis by (simp add: js_mult_def js_div_def double_def)
  next
    case False
    let ?q = "of_int p / 100 :: rat"
    have q: "1 / 100 \<le> ?q" "?q \<le> 1" using assms False by auto
    have "double ?q \<le> ?q * (1 + 1 / 2 ^ 53)" "?q * (1 - 1 / 2 ^ 53) \<le> double ?q"
      using double_bounds [of ?q] q by auto
    moreover have "?q * (1 + 1 / 2 ^ 53) \<le> 1 * (1 + 1 / 2 ^ 53)"
      using q(2) by (intro mult_right_mono) auto
    moreover have "1 / 100 * (1 - 1 / 2 ^ 53) \<le> ?q * (1 - 1 / 2 ^ 53)"
      using q(1) by (intro mult_right_mono) auto
    ultimately have d: "double ?q \<le> 2" "1 / 200 \<le> double ?q" by simp_all
    have "double (double ?q * 25) \<le> double ?q * 25 * (1 + 1 / 2 ^ 53)"
      using d by (intro double_bounds(1)) auto
    also have "\<dots> \<le> 2 * 25 * (1 + 1 / 2 ^ 53)"
      using d(1) by (intro mult_right_mono) auto
    also have "\<dots> \<le> 100" by simp
    finally show ?thesis by (simp add: js_mult_def js_div_def)
  qed
qed

lemma addWeighted_ge:
  assumes "99 + 9 / 10 \<le> acc" "acc \<le> 1000" "0 \<le> p" "p \<le> 100"
  shows "acc * (1 - 1 / 2 ^ 53) \<le> addWeighted acc p" "addWeighted acc p \<le> 2000"
proof -
  let ?x = "acc + js_mult (js_div (of_int p) 100) 25"
  have x: "acc \<le> ?x" "?x \<le> 1100" using weight_bounds [OF assms(3,4)] assms(2) by auto
  have d: "?x * (1 - 1 / 2 ^ 53) \<le> double ?x" "double ?x \<le> ?x * (1 + 1 / 2 ^ 53)"
    using double_bounds [of ?x] x assms(1) by auto
  have "acc * (1 - 1 / 2 ^ 53) \<le> ?x * (1 - 1 / 2 ^ 53)"
    using x(1) by (intro mult_right_mono) auto
  with d(1) show "acc * (1 - 1 / 2 ^ 53) \<le> addWeighted acc p"
    by (simp add: addWeighted_def js_add_def)
  have "?x * (1 + 1 / 2 ^ 53) \<le> 1100 * (1 + 1 / 2 ^ 53)"
    using x(2) by (intro mult_right_mono) auto
  also have "\<dots> \<le> 2000" by simp
  finally show "addWeighted acc p \<le> 2000"
    using d(2) by (simp add: addWeighted_def js_add_def)
qed

lemma round_weighted_ge_100:
  assumes "0 \<le> b" "b \<le> 100" "0 \<le> s" "s \<le> 100"
  shows "100 \<le> math_round (addWeighted 100 b)"
    and "100 \<le> math_round (addWeighted (addWeighted 100 b) s)"
proof -
  have u: "100 * (1 - 1 / 2 ^ 53) \<le> addWeighted 100 b" "addWeighted 100 b \<le> 101 * 10"
  proof -
    show "100 * (1 - 1 / 2 ^ 53) \<le> addWeighted 100 b"
      using addWeighted_ge(1) [of 100 b] assms by simp
    let ?x = "100 + js_mult (js_div (of_int b) 100) 25"
    have x: "100 \<le> ?x" "?x \<le> 200" using weight_bounds [OF assms(1,2)] by auto
    have "double ?x \<le> ?x * (1 + 1 / 2 ^ 53)" using double_bounds(1) [of ?x] x by auto
    also have "\<dots> \<le> 200 * (1 + 1 / 2 ^ 53)" using x(2) by (intro mult_right_mono) auto
    also have "\<dots> \<le> 101 * 10" by simp
    finally show "addWeighted 100 b \<le> 101 * 10" by (simp add: addWeighted_def js_add_def)
  qed
  have h: "99 + 1 / 2 \<le> x \<Longrightarrow> 100 \<le> math_round x" for x
    unfolding math_round_def by linarith
  from u(1) have "99 + 9 / 10 \<le> addWeighted 100 b" by (rule order_trans [rotated]) simp
  then show "100 \<le> math_round (addWeighted 100 b)" by (intro h) linarith
  have nn: "0 \<le> s" "s \<le> 100" using assms by auto
  let ?y = "addWeighted 100 b + js_mult (js_div (of_int s) 100) 25"
  have y: "99 + 9 / 10 \<le> ?y" "?y \<le> 2000"
    using \<open>99 + 9 / 10 \<le> addWeighted 100 b\<close> u(2) weight_bounds [OF nn] by linarith+
  have "(99 + 9 / 10) * (1 - 1 / 2 ^ 53) \<le> ?y * (1 - 1 / 2 ^ 53)"
    using y(1) by (intro mult_right_mono) auto
  also have "\<dots> \<le> double ?y" using y by (intro double_bounds(2)) auto
  finally have "(99 + 9 / 10) * (1 - 1 / 2 ^ 53) \<le> addWeighted (addWeighted 100 b) s"
    by (simp add: addWeighted_def [of "addWeighted 100 b"] js_add_def)
  moreover have "99 + 1 / 2 \<le> (99 + 9 / 10) * (1 - 1 / 2 ^ 53 :: rat)" by simp
  ultimately show "100 \<le> math_round (addWeighted (addWeighted 100 b) s)"
    by (intro h) linarith
qed

lemma progress_agrees:
  assumes "\<And>sec. length (sectionItems sec items) < 200"
  shows "computeProjectProgress items = min (percent (computeEvaluationChecklistProgress items)) 100 \<and>
     computeProjectProgress items = computeSectionPercent (sectionItems MANDATORY items)"
proof -
  let ?m = "computeSectionPercent (sectionItems MANDATORY items)"
  let ?b = "computeSectionPercent (sectionItems BONUS items)"
  let ?s = "computeSectionPercent (sectionItems SUPPLEMENTAL items)"
  note le = computeSectionPercent_le [OF assms] and nn = computeSectionPercent_nonneg
  note complete = computeSectionPercent_complete [OF assms]
  note r = round_weighted_ge_100 [OF nn le nn le]
  show ?thesis
  proof (cases "100 \<le> ?m")
    case True
    then have "?m = 100" using le [of MANDATORY] by simp
    then show ?thesis
      using r(1) [of BONUS] r(2) [of BONUS SUPPLEMENTAL] complete [of MANDATORY] complete [of BONUS]
      by (auto simp: computeProjectProgress_def computeEvaluationChecklistProgress_def Let_def min_def)
  next
    case False
    then show ?thesis
      using complete [of MANDATORY]
      by (auto simp: computeProjectProgress_def computeEvaluationChecklistProgress_def Let_def min_def)
  qed
qed

section \<open>Property\<close>

text \<open>C10 The project page and the checklist page agree: while no section has 200 items or more (the
  service caps a section at 50), the progress the server reports is the browser's gated score cut
  at 100, which is the percentage of the mandatory section alone.\<close>

theorem server_and_browser_progress_agree:
  assumes "\<And>sec. length (sectionItems sec items) < 200"
  shows "computeProjectProgress items = min (percent (computeEvaluationChecklistProgress items)) 100 \<and>
     computeProjectProgress items = computeSectionPercent (sectionItems MANDATORY items)"
  using assms by (rule progress_agrees)

theorem server_and_browser_progress_agree_witness:
  "computeProjectProgress [(MANDATORY, True), (BONUS, True), (SUPPLEMENTAL, False)] = 100"
proof -
  let ?items = "[(MANDATORY, True), (BONUS, True), (SUPPLEMENTAL, False)]"
  have "length (sectionItems sec ?items) < 200" for sec by (simp add: sectionItems_def)
  from server_and_browser_progress_agree [OF this] show ?thesis
    by (simp add: sectionItems_def computeSectionPercent_def percent_of_all)
qed

end
