(* ===== verification/Tables.thy ===== *)
theory Tables
  imports Schema
begin

text \<open>
  The interface of a database table: a selector and an update of one field of the world, with the
  laws every handler relies on (an update is read back, two updates compose, drawing ids does
  not disturb a table). What \<open>create\<close>, \<open>update\<close>, \<open>delete\<close> and a loop of \<open>create\<close>s do to
  a table is proved once from the laws; every table of the world is an interpretation.
\<close>

lemma map_map2_fst:
  "length xs = length ys \<Longrightarrow> (\<And>x y. g (f x y) = h x) \<Longrightarrow> map g (map2 f xs ys) = map h xs"
  by (induction xs ys rule: list_induct2) auto

locale table =
  fixes sel :: "world \<Rightarrow> 'r list"
    and upd :: "('r list \<Rightarrow> 'r list) \<Rightarrow> world \<Rightarrow> world"
  assumes sel_upd: "sel (upd f w) = f (sel w)"
    and upd_upd: "upd f (upd g w) = upd (\<lambda>rs. f (g rs)) w"
    and upd_same: "upd (\<lambda>rs. rs) w = w"
    and sel_uuids: "sel (w\<lparr>uuids := u\<rparr>) = sel w"
    and upd_uuids: "upd f (w\<lparr>uuids := u\<rparr>) = (upd f w)\<lparr>uuids := u\<rparr>"
    and uuids_upd: "uuids (upd f w) = uuids w"
begin

lemma createRow_Inr:
  "createRow sel upd key mk w = (Inr r, t) \<longleftrightarrow>
     r = mk (uuids w 0) \<and> (\<forall>x\<in>set (sel w). key x \<noteq> uuids w 0) \<and>
     t = (upd (\<lambda>rs. rs @ [r]) w)\<lparr>uuids := \<lambda>n. uuids w (Suc n)\<rparr>"
  by (auto simp: createRow_run prisma_Inr sel_uuids upd_uuids list_ex_iff)

lemma createEach_Inr:
  "forEach xs (\<lambda>x. createRow sel upd key (mk x)) w = (Inr u, t) \<Longrightarrow>
   t = (upd (\<lambda>rs. rs @ map2 mk xs (map (uuids w) [0..<length xs])) w)
     \<lparr>uuids := \<lambda>n. uuids w (n + length xs)\<rparr>"
proof (induction xs arbitrary: w)
  case Nil
  then show ?case by (simp add: success_iffs upd_same)
next
  case (Cons x xs)
  let ?r = "mk x (uuids w 0)"
  let ?w = "(upd (\<lambda>rs. rs @ [?r]) w)\<lparr>uuids := \<lambda>n. uuids w (Suc n)\<rparr>"
  have "forEach xs (\<lambda>x. createRow sel upd key (mk x)) ?w = (Inr u, t)"
    using Cons.prems by (auto simp: success_iffs createRow_Inr)
  from Cons.IH [OF this]
  have t: "t = upd (\<lambda>rs. rs @ map2 mk xs (map (\<lambda>n. uuids w (Suc n)) [0..<length xs])) ?w
      \<lparr>uuids := \<lambda>n. uuids w (Suc (n + length xs))\<rparr>" by simp
  have "map (uuids w) [0..<length (x # xs)] =
      uuids w 0 # map (\<lambda>n. uuids w (Suc n)) [0..<length xs]"
    by (simp only: list.size map_upt_Suc Suc_eq_plus1 [symmetric])
      (simp add: map_upt_Suc del: upt_Suc)
  then show ?case unfolding t by (simp add: upd_uuids upd_upd del: upt_Suc)
qed

lemma updateOne_absent:
  "\<not> (\<exists>r\<in>set (sel w). P r) \<Longrightarrow> updateOne sel upd P f w = (Inl (PrismaError ''P2025''), w)"
  by (simp add: run_simps find_None_iff_all [THEN iffD2])

lemma deleteOne_absent:
  "\<not> (\<exists>r\<in>set (sel w). P r) \<Longrightarrow> deleteOne sel upd P w = (Inl (PrismaError ''P2025''), w)"
  by (simp add: run_simps find_None_iff_all [THEN iffD2])

end

section \<open>Capped creation\<close>

text \<open>
  Count, refuse at the cap, create: the serializable transaction three services share. A group
  is what the cap counts over: a project, a section of a project, a block. \<open>requireRow\<close> is the
  database's check that the row a new record points to exists: P2003 for a foreign key, P2025
  for a \<open>connect\<close>.
\<close>

definition requireRow :: "(world \<Rightarrow> 'p list) \<Rightarrow> ('p \<Rightarrow> bool) \<Rightarrow> string \<Rightarrow> unit service" where
  "requireRow sel P code =
     andThen (gets (\<lambda>w. list_ex P (sel w))) (\<lambda>known. ensure known (PrismaError code))"

lemma requireRow_run [run_simps]:
  "requireRow sel P code w = (if list_ex P (sel w) then Inr () else Inl (PrismaError code), w)"
  by (simp add: requireRow_def run_simps)

lemma requireRow_Inr: "requireRow sel P code w = (Inr u, t) \<longleftrightarrow> list_ex P (sel w) \<and> t = w"
  by (auto simp: run_simps)

lemma reads_requireRow: "reads (requireRow sel P code)"
  by (simp add: reads_def run_simps)

lemma keeps_requireRow [keeps_rules]: "keeps I (requireRow sel P code)"
  by (simp add: keeps_def run_simps)

definition createCapped ::
  "(world \<Rightarrow> 'r list) \<Rightarrow> 'r table_update \<Rightarrow> ('r \<Rightarrow> bool) \<Rightarrow> nat \<Rightarrow> exn \<Rightarrow> unit service \<Rightarrow>
   ('r \<Rightarrow> ident) \<Rightarrow> (ident \<Rightarrow> 'r) \<Rightarrow> 'r service" where
  "createCapped sel upd inGroup cap refusal attached key mk =
     transaction (
       andThen (countRows sel inGroup) (\<lambda>existingCount.
       andThen (ensure (existingCount < cap) refusal) (\<lambda>_.
       andThen attached (\<lambda>_.
       createRow sel upd key mk))))"

locale capped = table sel upd for sel :: "world \<Rightarrow> 'r list" and upd +
  fixes group :: "'r \<Rightarrow> 'g"
    and cap :: nat
begin

definition withinCap :: "world \<Rightarrow> bool" where
  "withinCap w \<longleftrightarrow> (\<forall>g. length (filter (\<lambda>r. group r = g) (sel w)) \<le> cap)"

lemma withinCapD: "withinCap w \<Longrightarrow> length (filter (\<lambda>r. group r = g) (sel w)) \<le> cap"
  by (simp add: withinCap_def)

lemma withinCap_cong: "sel w' = sel w \<Longrightarrow> withinCap w' = withinCap w"
  by (simp add: withinCap_def)

lemma createCapped_refuses:
  assumes "cap \<le> length (filter inGroup (sel w))"
  shows "createCapped sel upd inGroup cap refusal attached key mk w = (Inl refusal, w)"
  using assms by (simp add: createCapped_def run_simps)

lemma createCapped_Inr:
  assumes "reads attached"
  shows "createCapped sel upd inGroup cap refusal attached key mk w = (Inr r, t) \<longleftrightarrow>
     length (filter inGroup (sel w)) < cap \<and> (\<exists>u. attached w = (Inr u, w)) \<and>
     createRow sel upd key mk w = (Inr r, t)"
proof -
  obtain q where "attached w = (q, w)"
    using assms by (cases "attached w") (auto dest: readsD)
  then show ?thesis by (auto simp: createCapped_def success_iffs prisma_Inr)
qed

lemma createCapped_keeps:
  assumes "\<And>i. group (mk i) = g" and "\<And>r. inGroup r \<longleftrightarrow> group r = g" and "reads attached"
  shows "keeps withinCap (createCapped sel upd inGroup cap refusal attached key mk)"
proof (rule keepsI)
  fix w assume w: "withinCap w"
  have inGroup: "inGroup = (\<lambda>r. group r = g)" using assms(2) by (simp add: fun_eq_iff)
  obtain r t where r: "createCapped sel upd inGroup cap refusal attached key mk w = (r, t)" by force
  show "withinCap (snd (createCapped sel upd inGroup cap refusal attached key mk w))"
  proof (cases r)
    case (Inl e)
    then show ?thesis using r w unfolding createCapped_def by (auto dest!: transaction_Inl)
  next
    case (Inr a)
    then have n: "length (filter (\<lambda>r. group r = g) (sel w)) < cap"
      and c: "createRow sel upd key mk w = (Inr a, t)"
      using r unfolding inGroup by (auto simp: createCapped_Inr [OF assms(3)])
    have "sel t = sel w @ [mk (uuids w 0)]"
      using c by (auto simp: createRow_Inr sel_uuids sel_upd)
    then show ?thesis using n w assms(1) r by (auto simp: withinCap_def)
  qed
qed

lemma updateOne_keeps:
  "(\<And>r. group (f r) = group r) \<Longrightarrow> keeps withinCap (updateOne sel upd P f)"
proof (rule keeps_updateOne)
  fix w
  assume f: "\<And>r. group (f r) = group r" and w: "withinCap w"
  have "length (filter (\<lambda>r. group r = g) (map (\<lambda>r. if P r then f r else r) rs)) =
      length (filter (\<lambda>r. group r = g) rs)" for g rs
    using f by (induction rs) auto
  then show "withinCap (upd (map (\<lambda>r. if P r then f r else r)) w)"
    using w by (simp add: withinCap_def sel_upd)
qed

lemma filter_withinCap: "withinCap w \<Longrightarrow> withinCap (upd (filter P) w)"
proof -
  assume w: "withinCap w"
  have "length (filter Q (filter P rs)) \<le> length (filter Q rs)" for Q rs
    by (induction rs) auto
  then show ?thesis using w order_trans unfolding withinCap_def sel_upd by blast
qed

lemma deleteOne_keeps: "keeps withinCap (deleteOne sel upd P)"
  by (rule keeps_deleteOne) (rule filter_withinCap)

end

section \<open>The tables of the world\<close>


interpretation users: table users users_update by unfold_locales simp_all
interpretation members: table members members_update by unfold_locales simp_all
interpretation projects: table projects projects_update by unfold_locales simp_all
interpretation tasks: table tasks tasks_update by unfold_locales simp_all
interpretation taskCategories: table taskCategories taskCategories_update by unfold_locales simp_all
interpretation calEvents: table calEvents calEvents_update by unfold_locales simp_all
interpretation calCategories: table calCategories calCategories_update by unfold_locales simp_all
interpretation blocks: table blocks blocks_update by unfold_locales simp_all
interpretation blockItems: table blockItems blockItems_update by unfold_locales simp_all
interpretation checklist: table checklist checklist_update by unfold_locales simp_all
interpretation messages: table messages messages_update by unfold_locales simp_all
interpretation readStates: table readStates readStates_update by unfold_locales simp_all
interpretation notifications: table notifications notifications_update by unfold_locales simp_all
interpretation relationships: table relationships relationships_update by unfold_locales simp_all

end
