(* ===== verification/Projects.thy ===== *)
theory Projects
  imports Access Progress Tables
begin

text \<open>
  \<open>ProjectsService\<close> (\<open>backend/src/projects/projects.service.ts\<close>) with the default categories and
  blocks every new project gets. \<open>assertMembership\<close> is in \<open>Access\<close>. The handlers that read before
  they write take what other requests do in between as their argument \<open>gap\<close>.
\<close>

section \<open>Request bodies\<close>

record create_project_dto =
  cpd_name :: string
  cpd_description :: "string option"
  cpd_deadline :: "millis option"
  cpd_status :: "project_status option"
  cpd_isArchived :: "bool option"

record update_project_dto =
  upd_deadline :: "millis option"
  upd_status :: "project_status option"
  upd_isArchived :: "bool option"

text \<open>
  \<open>description\<close> is \<open>None\<close> when the field is absent, \<open>Some None\<close> for an explicit null.
\<close>

record update_project_details_dto =
  udd_name :: string
  udd_description :: "string option option"
  udd_updatedAt :: millis

section \<open>Defaults\<close>

definition maxProjectsPerUser :: nat where
  "maxProjectsPerUser = 1024"

definition DEFAULT_CALENDAR_CATEGORIES :: "(string \<times> int) list" where
  "DEFAULT_CALENDAR_CATEGORIES =
     [(''Eval'', 1), (''Dev'', 3), (''Deadline'', 5), (''Review'', 2), (''Meeting'', 6),
      (''Other'', 7), (''Unavailabilities'', 4)]"

definition DEFAULT_TASK_CATEGORIES :: "(string \<times> int) list" where
  "DEFAULT_TASK_CATEGORIES =
     [(''Planning'', 0), (''Development'', 1), (''Testing'', 2), (''Backend'', 3),
      (''Frontend'', 4), (''DevOps'', 5), (''Parsing'', 6), (''Documentation'', 7)]"

definition DEFAULT_DISCOVERY_BLOCKS :: "(string \<times> string \<times> int \<times> string list) list" where
  "DEFAULT_DISCOVERY_BLOCKS =
     [(''PDF Project Understanding'', ''search'', 0,
        [''Read the subject PDF fully'', ''List every mandatory requirement'']),
      (''Constraints'', ''layers'', 1,
        [''Identify technical constraints (allowed libs, languages)'',
         ''Identify norm/style constraints'']),
      (''Questions'', ''palette'', 2,
        [''List open questions for the team'', ''List questions to ask evaluators'']),
      (''Roadmap'', ''link'', 3,
        [''Draft a rough milestone plan'', ''Assign first tasks to teammates'']),
      (''Resources'', ''notebook'', 4,
        [''Collect useful docs/links'', ''Bookmark similar past projects'']),
      (''Concepts'', ''wheel'', 5,
        [''List unfamiliar concepts to learn'', ''Find a resource for each concept''])]"

fun projectStatusLabels :: "project_status \<Rightarrow> string" where
  "projectStatusLabels P_IN_PROGRESS = ''In Progress''"
| "projectStatusLabels P_REVIEW = ''Review''"
| "projectStatusLabels P_COMPLETED = ''Completed''"

section \<open>Reads\<close>

definition projectChecks :: "world \<Rightarrow> ident \<Rightarrow> check list" where
  "projectChecks w projectId = map (\<lambda>i. (ci_section i, ci_isChecked i))
     (filter (\<lambda>i. ci_projectId i = projectId) (checklist w))"

definition memberCount :: "world \<Rightarrow> ident \<Rightarrow> nat" where
  "memberCount w projectId = length (filter (\<lambda>m. pm_projectId m = projectId) (members w))"

definition projectView :: "world \<Rightarrow> project_row \<Rightarrow> member_role \<Rightarrow> project_view" where
  "projectView w project role =
     \<lparr>pv_project = project, pv_role = role,
      pv_progress = computeProjectProgress (projectChecks w (p_id project)),
      pv_memberCount = memberCount w (p_id project)\<rparr>"

definition project_findAll :: "ident \<Rightarrow> project_view list service" where
  "project_findAll userId = gets (\<lambda>w.
     map (\<lambda>project. projectView w project (the (roleOf w (p_id project) userId)))
       (filter (\<lambda>project. isMember w (p_id project) userId) (projects w)))"

definition project_findById :: "ident \<Rightarrow> ident \<Rightarrow> project_view service" where
  "project_findById i userId =
     andThen (assertMembership i userId) (\<lambda>member.
     andThen (findFirst projects (\<lambda>p. p_id p = i)) (\<lambda>found.
     case found of None \<Rightarrow> throw projectNotFound
     | Some project \<Rightarrow> gets (\<lambda>w. projectView w project (pm_role member))))"

definition findProjectForUser :: "ident \<Rightarrow> ident \<Rightarrow> project_view service" where
  "findProjectForUser i userId =
     andThen (gets (\<lambda>w. isMember w i userId)) (\<lambda>mine.
     andThen (findFirst projects (\<lambda>p. p_id p = i \<and> mine)) (\<lambda>found.
     case found of None \<Rightarrow> throw projectNotFound
     | Some project \<Rightarrow> gets (\<lambda>w. projectView w project (the (roleOf w i userId)))))"

section \<open>Create\<close>

definition seedCategories ::
  "(world \<Rightarrow> category_row list) \<Rightarrow> category_row table_update \<Rightarrow> ident \<Rightarrow>
   (string \<times> int) list \<Rightarrow> unit service" where
  "seedCategories sel upd projectId categories = forEach categories (\<lambda>(name, color).
     createRow sel upd c_id (\<lambda>i.
       \<lparr>c_id = i, c_name = name, c_color = color, c_projectId = projectId\<rparr>))"

text \<open>The loop over the default blocks, each created with its items.\<close>

definition seedBlockList :: "ident \<Rightarrow> (string \<times> string \<times> int \<times> string list) list \<Rightarrow> unit service" where
  "seedBlockList projectId defaults = forEach defaults (\<lambda>(title, icon, color, items).
     andThen dateNow (\<lambda>now.
     andThen (createRow blocks blocks_update b_id (\<lambda>i.
       \<lparr>b_id = i, b_projectId = projectId, b_title = title, b_description = None,
        b_icon = Some icon, b_color = Some color,
        b_status = computeDiscoveryBlockStatus (map (\<lambda>_. False) items),
        b_notes = None, b_createdAt = now\<rparr>)) (\<lambda>block.
     forEach (enumerate 0 items) (\<lambda>(index, label).
       createRow blockItems blockItems_update bi_id (\<lambda>i.
         \<lparr>bi_id = i, bi_blockId = b_id block, bi_label = label, bi_isChecked = False,
          bi_order = int index\<rparr>)))))"

definition createMember :: "ident \<Rightarrow> ident \<Rightarrow> member_role \<Rightarrow> member_row service" where
  "createMember projectId userId role =
     andThen dateNow (\<lambda>now.
     insertUnique members members_update
       (\<lambda>m. pm_userId m = userId \<and> pm_projectId m = projectId)
       \<lparr>pm_userId = userId, pm_projectId = projectId, pm_role = role, pm_createdAt = now\<rparr>)"

definition tooManyProjects :: exn where
  "tooManyProjects = BadRequest ''You've reached the maximum of 1024 projects.''"

definition project_create :: "create_project_dto \<Rightarrow> ident \<Rightarrow> project_view service" where
  "project_create dto userId =
     andThen (transaction (
       andThen (countRows members (\<lambda>m. pm_userId m = userId)) (\<lambda>membershipCount.
       andThen (ensure (membershipCount < maxProjectsPerUser) tooManyProjects) (\<lambda>_.
       andThen dateNow (\<lambda>now.
       andThen (createRow projects projects_update p_id (\<lambda>i.
         \<lparr>p_id = i, p_name = cpd_name dto, p_description = cpd_description dto,
          p_status = (case cpd_status dto of None \<Rightarrow> P_IN_PROGRESS | Some s \<Rightarrow> s),
          p_deadline = cpd_deadline dto,
          p_isArchived = (case cpd_isArchived dto of None \<Rightarrow> False | Some b \<Rightarrow> b),
          p_updatedAt = now\<rparr>)) (\<lambda>project.
       andThen (createMember (p_id project) userId OWNER) (\<lambda>_.
       andThen (seedCategories calCategories calCategories_update (p_id project)
         DEFAULT_CALENDAR_CATEGORIES) (\<lambda>_.
       andThen (seedCategories taskCategories taskCategories_update (p_id project)
         DEFAULT_TASK_CATEGORIES) (\<lambda>_.
       andThen (seedBlockList (p_id project) DEFAULT_DISCOVERY_BLOCKS) (\<lambda>_.
       findProjectForUser (p_id project) userId)))))))))) (\<lambda>project.
     andThen (joinProjectRoom userId (p_id (pv_project project))) (\<lambda>_.
     ret project))"

section \<open>Delete\<close>

text \<open>
  The \<open>onDelete: Cascade\<close> relations of the schema that hang off a project, directly or through
  its tasks, events and blocks.
\<close>

definition cascadeDeleteProject :: "ident \<Rightarrow> world \<Rightarrow> world" where
  "cascadeDeleteProject i w =
     (let taskIds = map t_id (filter (\<lambda>t. t_projectId t = i) (tasks w));
          eventIds = map e_id (filter (\<lambda>e. e_projectId e = i) (calEvents w));
          blockIds = map b_id (filter (\<lambda>b. b_projectId b = i) (blocks w))
      in w\<lparr>projects := filter (\<lambda>p. p_id p \<noteq> i) (projects w),
           members := filter (\<lambda>m. pm_projectId m \<noteq> i) (members w),
           tasks := filter (\<lambda>t. t_projectId t \<noteq> i) (tasks w),
           taskAssignees := filter (\<lambda>a. ta_taskId a \<notin> set taskIds) (taskAssignees w),
           taskCategories := filter (\<lambda>c. c_projectId c \<noteq> i) (taskCategories w),
           calEvents := filter (\<lambda>e. e_projectId e \<noteq> i) (calEvents w),
           calAssignees := filter (\<lambda>a. ca_calId a \<notin> set eventIds) (calAssignees w),
           calCategories := filter (\<lambda>c. c_projectId c \<noteq> i) (calCategories w),
           blocks := filter (\<lambda>b. b_projectId b \<noteq> i) (blocks w),
           blockItems := filter (\<lambda>x. bi_blockId x \<notin> set blockIds) (blockItems w),
           checklist := filter (\<lambda>x. ci_projectId x \<noteq> i) (checklist w),
           messages := filter (\<lambda>m. cm_projectId m \<noteq> i) (messages w),
           readStates := filter (\<lambda>r. rs_projectId r \<noteq> i) (readStates w)\<rparr>)"

definition deleteProjectRow :: "ident \<Rightarrow> project_row service" where
  "deleteProjectRow i = (\<lambda>w. case List.find (\<lambda>p. p_id p = i) (projects w) of
     None \<Rightarrow> (Inl (PrismaError ''P2025''), w)
   | Some p \<Rightarrow> (Inr p, cascadeDeleteProject i w))"

definition project_remove :: "(world \<Rightarrow> world) \<Rightarrow> ident \<Rightarrow> ident \<Rightarrow> unit service" where
  "project_remove gap i userId =
     andThen (assertMembership i userId) (\<lambda>member.
     andThen (ensure (pm_role member = OWNER)
       (Forbidden ''Only the project owner can delete this project'')) (\<lambda>_.
     andThen (modify gap) (\<lambda>_.
     andThen (deleteProjectRow i) (\<lambda>_.
     emitToProject i ''project:deleted'' (P_projectDeleted i) (Some userId)))))"

section \<open>Update\<close>

definition quoted :: "string \<Rightarrow> string" where
  "quoted s = [CHR 0x22] @ s @ [CHR 0x22]"

definition possessive :: string where
  "possessive = CHR 0x27 # ''s''"

definition settingsLink :: "ident \<Rightarrow> string option" where
  "settingsLink i = Some (''/'' @ i @ ''/project-settings'')"

definition lifecycleMessages :: "string \<Rightarrow> project_row \<Rightarrow> project_row \<Rightarrow> string list" where
  "lifecycleMessages actor previous updated =
     (if p_status updated \<noteq> p_status previous
      then [if p_status updated = P_COMPLETED
            then actor @ '' marked '' @ quoted (p_name updated) @ '' as finished''
            else if p_status previous = P_COMPLETED \<and> p_status updated = P_IN_PROGRESS
            then actor @ '' marked '' @ quoted (p_name updated) @ '' as unfinished''
            else actor @ '' changed '' @ quoted (p_name updated) @ possessive @ '' status to '' @
              projectStatusLabels (p_status updated)]
      else []) @
     (if p_isArchived updated \<noteq> p_isArchived previous
      then [if p_isArchived updated
            then actor @ '' archived '' @ quoted (p_name updated)
            else actor @ '' unarchived '' @ quoted (p_name updated)]
      else [])"

definition otherMembers :: "ident \<Rightarrow> ident list \<Rightarrow> ident list service" where
  "otherMembers projectId excluded =
     andThen (findMany members (\<lambda>m. pm_projectId m = projectId \<and> pm_userId m \<notin> set excluded))
       (\<lambda>ms. ret (map pm_userId ms))"

definition notifyLifecycleChange ::
  "ident \<Rightarrow> ident \<Rightarrow> project_row \<Rightarrow> project_row \<Rightarrow> unit service" where
  "notifyLifecycleChange i userId previous updated =
     (if p_status updated = p_status previous \<and> p_isArchived updated = p_isArchived previous
      then ret ()
      else andThen (findOrThrow users (\<lambda>u. u_id u = userId)) (\<lambda>actor.
           andThen (otherMembers i [userId]) (\<lambda>others.
           promiseAll (List.product others (lifecycleMessages (u_username actor) previous updated))
             (\<lambda>(other, message). notification_create other message (settingsLink i)))))"

definition requireProjectAdmin :: "member_row \<Rightarrow> unit service" where
  "requireProjectAdmin member = ensure (pm_role member = OWNER \<or> pm_role member = ADMIN)
     (Forbidden ''Only the project owner or admin can update this project'')"

definition applyProjectDto :: "update_project_dto \<Rightarrow> millis \<Rightarrow> project_row \<Rightarrow> project_row" where
  "applyProjectDto dto now p = p\<lparr>
     p_deadline := (case upd_deadline dto of None \<Rightarrow> p_deadline p | Some d \<Rightarrow> Some d),
     p_status := (case upd_status dto of None \<Rightarrow> p_status p | Some s \<Rightarrow> s),
     p_isArchived := (case upd_isArchived dto of None \<Rightarrow> p_isArchived p | Some b \<Rightarrow> b),
     p_updatedAt := now\<rparr>"

definition project_update ::
  "(world \<Rightarrow> world) \<Rightarrow> ident \<Rightarrow> update_project_dto \<Rightarrow> ident \<Rightarrow> project_view service" where
  "project_update gap i dto userId =
     andThen (assertMembership i userId) (\<lambda>member.
     andThen (requireProjectAdmin member) (\<lambda>_.
     andThen (findOrThrow projects (\<lambda>p. p_id p = i)) (\<lambda>previousProject.
     andThen (modify gap) (\<lambda>_.
     andThen dateNow (\<lambda>now.
     andThen (updateOne projects projects_update (\<lambda>p. p_id p = i) (applyProjectDto dto now))
       (\<lambda>updatedProject.
     andThen (gets (\<lambda>w. projectView w updatedProject (pm_role member))) (\<lambda>result.
     andThen (emitToProject i ''project:updated'' (P_project result) None) (\<lambda>_.
     andThen (notifyLifecycleChange i userId previousProject updatedProject) (\<lambda>_.
     ret result)))))))))"

definition staleProject :: exn where
  "staleProject =
     Conflict ''This project was updated by someone else. Reload and try again.''"

definition applyProjectDetails :: "update_project_details_dto \<Rightarrow> millis \<Rightarrow> project_row \<Rightarrow> project_row" where
  "applyProjectDetails dto now p = p\<lparr>
     p_name := udd_name dto,
     p_description := (case udd_description dto of None \<Rightarrow> p_description p | Some d \<Rightarrow> d),
     p_updatedAt := now\<rparr>"

definition notifyDetailsChange :: "ident \<Rightarrow> ident \<Rightarrow> project_row \<Rightarrow> project_row \<Rightarrow> unit service" where
  "notifyDetailsChange i userId previous updated =
     whenever (p_name updated \<noteq> p_name previous \<or> p_description updated \<noteq> p_description previous)
       (andThen (findOrThrow users (\<lambda>u. u_id u = userId)) (\<lambda>actor.
        andThen (otherMembers i [userId]) (\<lambda>others.
        promiseAll others (\<lambda>other. notification_create other
          (u_username actor @ '' updated '' @ quoted (p_name updated) @ possessive @ '' details'')
          (settingsLink i)))))"

definition project_updateDetails ::
  "(world \<Rightarrow> world) \<Rightarrow> ident \<Rightarrow> update_project_details_dto \<Rightarrow> ident \<Rightarrow> project_view service" where
  "project_updateDetails gap i dto userId =
     andThen (assertMembership i userId) (\<lambda>member.
     andThen (requireProjectAdmin member) (\<lambda>_.
     andThen (findOrThrow projects (\<lambda>p. p_id p = i)) (\<lambda>previousProject.
     andThen (modify gap) (\<lambda>_.
     andThen dateNow (\<lambda>now.
     andThen (catching
       (updateOne projects projects_update
         (\<lambda>p. p_id p = i \<and> p_updatedAt p = udd_updatedAt dto) (applyProjectDetails dto now))
       (\<lambda>e. if isRecordNotFoundError e then throw staleProject else throw e)) (\<lambda>updatedProject.
     andThen (gets (\<lambda>w. projectView w updatedProject (pm_role member))) (\<lambda>result.
     andThen (notifyDetailsChange i userId previousProject updatedProject) (\<lambda>_.
     andThen (emitToProject i ''project:updated'' (P_project result) None) (\<lambda>_.
     ret result)))))))))"

end
