(* ===== verification/Members.thy ===== *)
theory Members
  imports Gateway Projects
begin

text \<open>
  \<open>ProjectMembersService\<close> (\<open>backend/src/project-members/project-members.service.ts\<close>). Every handler
  runs under the project's exclusive lock; \<open>wait\<close> is what other requests do while it waits for
  it. A response's \<open>user\<close> selection (id, username, avatar, campus) is determined by the row's user
  id, so a member row stands for it.
\<close>

datatype new_role = To_admin | To_member

fun roleFor :: "new_role \<Rightarrow> member_role" where
  "roleFor To_admin = ADMIN"
| "roleFor To_member = MEMBER"

definition assertOwnerRequiredForAdminTarget ::
  "member_role \<Rightarrow> member_role \<Rightarrow> string \<Rightarrow> unit service" where
  "assertOwnerRequiredForAdminTarget targetRole requesterRole action =
     ensure (\<not> (targetRole = ADMIN \<and> requesterRole \<noteq> OWNER))
       (Forbidden (''Only the project owner can '' @ action))"

definition isOwnerOrAdmin :: "member_row \<Rightarrow> bool" where
  "isOwnerOrAdmin m \<longleftrightarrow> pm_role m = OWNER \<or> pm_role m = ADMIN"

definition addMember :: "(world \<Rightarrow> world) \<Rightarrow> ident \<Rightarrow> string \<Rightarrow> ident \<Rightarrow> member_row service" where
  "addMember wait projectId username requestingUserId = withProject wait (
     andThen (assertMembership projectId requestingUserId) (\<lambda>requester.
     andThen (ensure (isOwnerOrAdmin requester)
       (Forbidden ''Only project owner or admins can add members'')) (\<lambda>_.
     andThen (findFirst users (\<lambda>u. u_username u = username)) (\<lambda>found.
     case found of None \<Rightarrow> throw (NotFound ''User not found'')
     | Some user \<Rightarrow>
         andThen (findFirst members (\<lambda>m. pm_userId m = u_id user \<and> pm_projectId m = projectId))
           (\<lambda>existingMember.
         andThen (ensure (existingMember = None)
           (BadRequest ''User is already a member of this project'')) (\<lambda>_.
         andThen (createMember projectId (u_id user) MEMBER) (\<lambda>member.
         andThen (findOrThrow projects (\<lambda>p. p_id p = projectId)) (\<lambda>project.
         andThen (otherMembers projectId [u_id user, requestingUserId]) (\<lambda>others.
         andThen (promiseAll
             (map (\<lambda>other. (other, u_username user @ '' was added to '' @ quoted (p_name project))) others @
              [(u_id user, ''You were added to '' @ quoted (p_name project))])
             (\<lambda>(recipient, message). notification_create recipient message (settingsLink projectId)))
           (\<lambda>_.
         andThen (joinProjectRoom (u_id user) projectId) (\<lambda>_.
         andThen (emitToProject projectId ''project:member-added'' (P_member member) None) (\<lambda>_.
         ret member))))))))))))"

definition member_findAll :: "ident \<Rightarrow> ident \<Rightarrow> member_row list service" where
  "member_findAll projectId requestingUserId =
     andThen (assertMembership projectId requestingUserId) (\<lambda>_.
     andThen (findMany members (\<lambda>m. pm_projectId m = projectId)) (\<lambda>ms.
     ret (sort_key pm_createdAt ms)))"

text \<open>The rows of a user's assignments inside one project.\<close>

definition deleteAssignments :: "ident \<Rightarrow> ident \<Rightarrow> unit service" where
  "deleteAssignments userId projectId = modify (\<lambda>w.
     let taskIds = map t_id (filter (\<lambda>t. t_projectId t = projectId) (tasks w));
         eventIds = map e_id (filter (\<lambda>e. e_projectId e = projectId) (calEvents w)) in
     w\<lparr>taskAssignees := filter (\<lambda>a. \<not> (ta_userId a = userId \<and> ta_taskId a \<in> set taskIds)) (taskAssignees w),
       calAssignees := filter (\<lambda>a. \<not> (ca_userId a = userId \<and> ca_calId a \<in> set eventIds)) (calAssignees w)\<rparr>)"

text \<open>\<open>checkRemoval\<close> is the part of \<open>removeMember\<close> before its first write, \<open>performRemoval\<close> the rest.\<close>

definition checkRemoval :: "ident \<Rightarrow> ident \<Rightarrow> ident \<Rightarrow> member_row service" where
  "checkRemoval projectId userId requestingUserId =
     andThen (assertMembership projectId requestingUserId) (\<lambda>requester.
     let isSelfRemoval = (requestingUserId = userId) in
     andThen (ensure (isSelfRemoval \<or> isOwnerOrAdmin requester)
       (Forbidden ''Only the project owner or admin can remove members'')) (\<lambda>_.
     andThen (if isSelfRemoval then ret requester else assertMembership projectId userId) (\<lambda>memberToRemove.
     andThen (ensure (pm_role memberToRemove \<noteq> OWNER) (Forbidden ''Cannot remove the project owner'')) (\<lambda>_.
     andThen (whenever (\<not> isSelfRemoval)
       (assertOwnerRequiredForAdminTarget (pm_role memberToRemove) (pm_role requester) ''remove an admin'')) (\<lambda>_.
     ret memberToRemove)))))"

definition performRemoval :: "ident \<Rightarrow> ident \<Rightarrow> ident \<Rightarrow> member_row service" where
  "performRemoval projectId userId requestingUserId =
     (let isSelfRemoval = (requestingUserId = userId) in
     andThen (deleteOne members members_update (\<lambda>m. pm_userId m = userId \<and> pm_projectId m = projectId)) (\<lambda>removed.
     andThen (deleteAssignments userId projectId) (\<lambda>_.
     andThen (findOrThrow projects (\<lambda>p. p_id p = projectId)) (\<lambda>project.
     andThen (findOrThrow users (\<lambda>u. u_id u = userId)) (\<lambda>removedUser.
     andThen (otherMembers projectId [requestingUserId]) (\<lambda>remainingMembers.
     andThen (promiseAll remainingMembers (\<lambda>m. notification_create m
         (if isSelfRemoval then u_username removedUser @ '' left '' @ quoted (p_name project)
          else u_username removedUser @ '' was removed from '' @ quoted (p_name project))
         (settingsLink projectId))) (\<lambda>_.
     andThen (if isSelfRemoval then ret ()
       else andThen (notification_create userId
              (''You were removed from '' @ quoted (p_name project)) None) (\<lambda>_. ret ())) (\<lambda>_.
     andThen (emitToProject projectId ''project:member-removed'' (P_memberRemoved userId projectId)
       (Some requestingUserId)) (\<lambda>_.
     andThen (leaveProjectRoom userId projectId) (\<lambda>_.
     andThen (releaseUserInProject userId projectId) (\<lambda>released.
     andThen (forEach released emitFieldUnlock) (\<lambda>_.
     ret removed))))))))))))"

definition removeMember :: "(world \<Rightarrow> world) \<Rightarrow> ident \<Rightarrow> ident \<Rightarrow> ident \<Rightarrow> member_row service" where
  "removeMember wait projectId userId requestingUserId = withProject wait (
     andThen (checkRemoval projectId userId requestingUserId) (\<lambda>_.
     performRemoval projectId userId requestingUserId))"

text \<open>\<open>updateMemberRole\<close>, split the same way.\<close>

definition checkRoleChange :: "ident \<Rightarrow> ident \<Rightarrow> new_role \<Rightarrow> ident \<Rightarrow> member_row service" where
  "checkRoleChange projectId userId newRole requestingUserId =
     andThen (assertMembership projectId requestingUserId) (\<lambda>requester.
     andThen (ensure (isOwnerOrAdmin requester)
       (Forbidden ''Only the project owner and admin can change member roles'')) (\<lambda>_.
     andThen (assertMembership projectId userId) (\<lambda>memberToUpdate.
     andThen (ensure (pm_role memberToUpdate \<noteq> OWNER)
       (Forbidden (''Cannot change the project owner'' @ possessive @ '' role''))) (\<lambda>_.
     andThen (whenever (newRole = To_member)
       (assertOwnerRequiredForAdminTarget (pm_role memberToUpdate) (pm_role requester) ''demote admins'')) (\<lambda>_.
     andThen (ensure (pm_role memberToUpdate \<noteq> roleFor newRole)
       (BadRequest ''Member already has this role'')) (\<lambda>_.
     ret memberToUpdate))))))"

definition performRoleChange :: "ident \<Rightarrow> ident \<Rightarrow> new_role \<Rightarrow> ident \<Rightarrow> member_row service" where
  "performRoleChange projectId userId newRole requestingUserId =
     andThen (updateOne members members_update
       (\<lambda>m. pm_userId m = userId \<and> pm_projectId m = projectId)
       (\<lambda>m. m\<lparr>pm_role := roleFor newRole\<rparr>)) (\<lambda>updated.
     andThen (findOrThrow users (\<lambda>u. u_id u = userId)) (\<lambda>user.
     andThen (findOrThrow projects (\<lambda>p. p_id p = projectId)) (\<lambda>project.
     andThen (otherMembers projectId [userId, requestingUserId]) (\<lambda>others.
     let roleChangeAction = (case newRole of To_admin \<Rightarrow> ''promoted to ADMIN''
           | To_member \<Rightarrow> ''demoted to MEMBER'') in
     andThen (promiseAll
         (map (\<lambda>other. (other, u_username user @ '' was '' @ roleChangeAction @ '' in '' @ quoted (p_name project))) others @
          [(userId, ''You were '' @ roleChangeAction @ '' in '' @ quoted (p_name project))])
         (\<lambda>(recipient, message). notification_create recipient message (settingsLink projectId))) (\<lambda>_.
     andThen (emitToProject projectId ''project:member-role-changed''
       (P_roleChanged userId projectId (roleFor newRole)) None) (\<lambda>_.
     ret updated))))))"

definition updateMemberRole ::
  "(world \<Rightarrow> world) \<Rightarrow> ident \<Rightarrow> ident \<Rightarrow> new_role \<Rightarrow> ident \<Rightarrow> member_row service" where
  "updateMemberRole wait projectId userId newRole requestingUserId = withProject wait (
     andThen (checkRoleChange projectId userId newRole requestingUserId) (\<lambda>_.
     performRoleChange projectId userId newRole requestingUserId))"

section \<open>Who may do what\<close>

definition mayRemove :: "world \<Rightarrow> ident \<times> ident \<times> ident \<Rightarrow> bool" where
  "mayRemove w = (\<lambda>(p, u, r). case (roleOf w p r, roleOf w p u) of
     (Some requester, Some target) \<Rightarrow> target \<noteq> OWNER \<and>
       (r = u \<or> requester = OWNER \<or> requester = ADMIN \<and> target = MEMBER)
   | _ \<Rightarrow> False)"

definition removalDenied :: "world \<Rightarrow> ident \<times> ident \<times> ident \<Rightarrow> exn" where
  "removalDenied w = (\<lambda>(p, u, r). case roleOf w p r of None \<Rightarrow> projectNotFound
   | Some requester \<Rightarrow>
       if r \<noteq> u \<and> requester = MEMBER
       then Forbidden ''Only the project owner or admin can remove members''
       else (case roleOf w p u of None \<Rightarrow> projectNotFound
         | Some target \<Rightarrow> if target = OWNER then Forbidden ''Cannot remove the project owner''
             else Forbidden ''Only the project owner can remove an admin''))"

definition mayChangeRole :: "world \<Rightarrow> ident \<times> ident \<times> new_role \<times> ident \<Rightarrow> bool" where
  "mayChangeRole w = (\<lambda>(p, u, new, r). case (roleOf w p r, roleOf w p u) of
     (Some requester, Some target) \<Rightarrow> target \<noteq> OWNER \<and> target \<noteq> roleFor new \<and>
       (requester = OWNER \<or> requester = ADMIN \<and> new = To_admin)
   | _ \<Rightarrow> False)"

definition roleChangeDenied :: "world \<Rightarrow> ident \<times> ident \<times> new_role \<times> ident \<Rightarrow> exn" where
  "roleChangeDenied w = (\<lambda>(p, u, new, r). case roleOf w p r of None \<Rightarrow> projectNotFound
   | Some requester \<Rightarrow>
       if requester = MEMBER
       then Forbidden ''Only the project owner and admin can change member roles''
       else (case roleOf w p u of None \<Rightarrow> projectNotFound
         | Some target \<Rightarrow>
             if target = OWNER then Forbidden (''Cannot change the project owner'' @ possessive @ '' role'')
             else if new = To_member \<and> target = ADMIN \<and> requester \<noteq> OWNER
             then Forbidden ''Only the project owner can demote admins''
             else BadRequest ''Member already has this role''))"

lemma not_plain_member: "isOwnerOrAdmin m \<longleftrightarrow> pm_role m \<noteq> MEMBER"
  by (cases "pm_role m") (simp_all add: isOwnerOrAdmin_def)

lemma assertOwnerRequired_run [run_simps]:
  "assertOwnerRequiredForAdminTarget t r a w = (if t = ADMIN \<and> r \<noteq> OWNER
     then (Inl (Forbidden (''Only the project owner can '' @ a)), w) else (Inr (), w))"
  by (simp add: assertOwnerRequiredForAdminTarget_def run_simps)

interpretation removal: access_guard
  "\<lambda>(p, u, r). checkRemoval p u r" mayRemove removalDenied
proof (unfold_locales, goal_cases)
  case (1 k)
  then show ?case
    by (auto simp: reads_def checkRemoval_def run_simps Let_def split: option.splits prod.splits)
next
  case (2 w k)
  obtain p u r where k: "k = (p, u, r)" by (cases k)
  show ?case
    using 2 unfolding k mayRemove_def removalDenied_def checkRemoval_def
    by (auto simp: run_simps Let_def roleOf_def not_plain_member split: option.splits if_splits)
       (metis member_role.exhaust)+
next
  case (3 w k)
  obtain p u r where k: "k = (p, u, r)" by (cases k)
  show ?case
    using 3 unfolding k mayRemove_def checkRemoval_def
    by (auto simp: run_simps Let_def roleOf_def not_plain_member split: option.splits if_splits)
qed

interpretation role_change: access_guard
  "\<lambda>(p, u, new, r). checkRoleChange p u new r" mayChangeRole roleChangeDenied
proof (unfold_locales, goal_cases)
  case (1 k)
  then show ?case
    by (auto simp: reads_def checkRoleChange_def run_simps Let_def split: option.splits prod.splits)
next
  case (2 w k)
  obtain p u new r where k: "k = (p, u, new, r)" by (cases k)
  show ?case
    using 2 unfolding k mayChangeRole_def roleChangeDenied_def checkRoleChange_def
    by (cases new) (auto simp: run_simps roleOf_def not_plain_member split: option.splits if_splits,
      (metis member_role.exhaust)+)
next
  case (3 w k)
  obtain p u new r where k: "k = (p, u, new, r)" by (cases k)
  show ?case
    using 3 unfolding k mayChangeRole_def checkRoleChange_def
    by (cases new) (auto simp: run_simps roleOf_def not_plain_member split: option.splits if_splits)
qed

section \<open>Lemmas\<close>

definition onMembers :: "(member_row list \<Rightarrow> bool) \<Rightarrow> world \<Rightarrow> bool" where
  "onMembers Q w \<longleftrightarrow> Q (members w)"

lemma onMembers_simps [simp]:
  "onMembers Q (w\<lparr>outbox := a\<rparr>) = onMembers Q w" "onMembers Q (w\<lparr>uuids := b\<rparr>) = onMembers Q w"
  "onMembers Q (notifications_update c w) = onMembers Q w"
  "onMembers Q (sockets_update d w) = onMembers Q w" "onMembers Q (leases_update e w) = onMembers Q w"
  by (simp_all add: onMembers_def)

lemma quiet_onMembers: "quiet (onMembers Q)"
  by (rule quietI) simp_all

lemma keeps_onMembers [keeps_rules]:
  "keeps (onMembers Q) (notification_create u msg link)" "keeps (onMembers Q) (emitToProject p event pl x)"
  "keeps (onMembers Q) (joinProjectRoom u p)" "keeps (onMembers Q) (leaveProjectRoom u p)"
  "keeps (onMembers Q) (otherMembers p xs)" "keeps (onMembers Q) (emitFieldUnlock r)"
  "keeps (onMembers Q) (releaseUserInProject u p)" "keeps (onMembers Q) (deleteAssignments u p)"
proof -
  show "keeps (onMembers Q) (otherMembers p xs)" unfolding otherMembers_def by (intro keeps_rules)
  show "keeps (onMembers Q) (emitFieldUnlock r)"
    by (cases r) (simp add: emitFieldUnlock_def keeps_broadcast)
  show "keeps (onMembers Q) (releaseUserInProject u p)"
    unfolding releaseUserInProject_def Let_def by (intro keeps_rules keeps_modify) simp
  show "keeps (onMembers Q) (deleteAssignments u p)"
    by (auto simp: deleteAssignments_def keeps_def run_simps Let_def onMembers_def)
qed (rule quiet_keeps [OF quiet_onMembers])+

definition ownerRows :: "member_row list \<Rightarrow> member_row list" where
  "ownerRows ms = filter (\<lambda>m. pm_role m = OWNER) ms"

definition memberKeysUnique :: "world \<Rightarrow> bool" where
  "memberKeysUnique w \<longleftrightarrow> distinct (map (\<lambda>m. (pm_projectId m, pm_userId m)) (members w))"

lemma member_row_is:
  assumes "memberKeysUnique w"
    and "List.find (\<lambda>m. pm_projectId m = p \<and> pm_userId m = u) (members w) = Some t"
    and "m \<in> set (members w)" "pm_projectId m = p" "pm_userId m = u"
  shows "m = t"
proof -
  have "t \<in> set (members w)" "pm_projectId t = p" "pm_userId t = u" using find_SomeD [OF assms(2)] by auto
  then show ?thesis
    using assms(1,3-5) unfolding memberKeysUnique_def distinct_map inj_on_def by auto
qed

lemma reads_checks:
  "reads (assertMembership p u)" "reads (ensure c e)" "reads (ret a)" "reads (whenever b (ensure c e))"
  "reads (assertOwnerRequiredForAdminTarget r s a)" "reads (whenever b (assertOwnerRequiredForAdminTarget r s a))"
  by (auto simp: reads_iff_keeps assertOwnerRequiredForAdminTarget_def intro!: keeps_rules)

lemma addMember_owners:
  "ownerRows (members (snd (addMember wait p name r w))) = ownerRows (members (wait w))"
proof -
  let ?I = "onMembers (\<lambda>ms. ownerRows ms = ownerRows (members (wait w)))"
  have c: "keeps ?I (createMember p u MEMBER)" for u
    unfolding createMember_def
    by (intro keeps_rules keeps_insertUnique) (simp add: onMembers_def ownerRows_def)
  have "keeps ?I (addMember (\<lambda>w. w) p name r)"
    unfolding addMember_def withProject_def by (intro keeps_rules keeps_modify c) simp
  then have "?I (snd (addMember (\<lambda>w. w) p name r (wait w)))"
    by (rule keepsD) (simp add: onMembers_def)
  then show ?thesis by (simp add: addMember_def withProject_def run_simps onMembers_def)
qed

lemma roleOf_owner_rows:
  assumes "memberKeysUnique w" and "roleOf w p u = Some role" and "role \<noteq> OWNER"
    and "m \<in> set (members w)" "pm_projectId m = p" "pm_userId m = u"
  shows "pm_role m \<noteq> OWNER"
proof -
  obtain t where "List.find (\<lambda>m. pm_projectId m = p \<and> pm_userId m = u) (members w) = Some t" "pm_role t = role"
    using assms(2) by (auto simp: roleOf_def)
  then show ?thesis using member_row_is [OF assms(1) _ assms(4-6)] assms(3) by blast
qed

text \<open>What the two writes keep: the owner rows, and that the target is not an owner.\<close>

definition ownersAre :: "member_row list \<Rightarrow> ident \<Rightarrow> ident \<Rightarrow> member_row list \<Rightarrow> bool" where
  "ownersAre rows p u ms \<longleftrightarrow> ownerRows ms = rows \<and>
     (\<forall>m\<in>set ms. pm_userId m = u \<and> pm_projectId m = p \<longrightarrow> pm_role m \<noteq> OWNER)"

lemma ownersAre_delete:
  "ownersAre rows p u ms \<Longrightarrow>
   ownersAre rows p u (filter (\<lambda>m. \<not> (pm_userId m = u \<and> pm_projectId m = p)) ms)"
  by (auto simp: ownersAre_def ownerRows_def intro!: filter_cong)

definition setRole :: "ident \<Rightarrow> ident \<Rightarrow> member_role \<Rightarrow> member_row \<Rightarrow> member_row" where
  "setRole p u new m = (if pm_userId m = u \<and> pm_projectId m = p then m\<lparr>pm_role := new\<rparr> else m)"

lemma setRole_owner:
  "new \<noteq> OWNER \<Longrightarrow> (pm_userId m = u \<and> pm_projectId m = p \<longrightarrow> pm_role m \<noteq> OWNER) \<Longrightarrow>
   (pm_role (setRole p u new m) = OWNER \<longleftrightarrow> pm_role m = OWNER) \<and> (pm_role m = OWNER \<longrightarrow> setRole p u new m = m) \<and>
   pm_userId (setRole p u new m) = pm_userId m \<and> pm_projectId (setRole p u new m) = pm_projectId m"
  by (simp add: setRole_def)

lemma ownersAre_update:
  assumes "ownersAre rows p u ms" and "new \<noteq> OWNER"
  shows "ownersAre rows p u (map (setRole p u new) ms)"
proof -
  have s: "(pm_role (setRole p u new m) = OWNER \<longleftrightarrow> pm_role m = OWNER) \<and>
      (pm_role m = OWNER \<longrightarrow> setRole p u new m = m) \<and>
      pm_userId (setRole p u new m) = pm_userId m \<and> pm_projectId (setRole p u new m) = pm_projectId m"
    if "m \<in> set ms" for m
    using assms that by (intro setRole_owner) (auto simp: ownersAre_def)
  have "filter (\<lambda>m. pm_role m = OWNER) (map (setRole p u new) ms) = filter (\<lambda>m. pm_role m = OWNER) ms"
    using s by (induction ms) auto
  then show ?thesis using assms(1) s unfolding ownersAre_def ownerRows_def by simp
qed

lemma performRemoval_owners: "keeps (onMembers (ownersAre rows p u)) (performRemoval p u r)"
proof -
  have d: "keeps (onMembers (ownersAre rows p u))
      (deleteOne members members_update (\<lambda>m. pm_userId m = u \<and> pm_projectId m = p))"
    by (rule keeps_deleteOne) (use ownersAre_delete in \<open>simp add: onMembers_def\<close>)
  show ?thesis unfolding performRemoval_def Let_def by (intro keeps_rules d)
qed

lemma performRoleChange_owners: "keeps (onMembers (ownersAre rows p u)) (performRoleChange p u new r)"
proof -
  have n: "roleFor new \<noteq> OWNER" by (cases new) simp_all
  have d: "keeps (onMembers (ownersAre rows p u)) (updateOne members members_update
      (\<lambda>m. pm_userId m = u \<and> pm_projectId m = p) (\<lambda>m. m\<lparr>pm_role := roleFor new\<rparr>))"
    by (rule keeps_updateOne)
      (use ownersAre_update [OF _ n] in \<open>simp add: onMembers_def setRole_def [abs_def]\<close>)
  show ?thesis unfolding performRoleChange_def Let_def by (intro keeps_rules d)
qed

lemma guarded_owners:
  assumes "memberKeysUnique v" and "reads guard"
    and "\<And>a. guard v = (Inr a, v) \<Longrightarrow> \<exists>role. roleOf v p u = Some role \<and> role \<noteq> OWNER"
    and "keeps (onMembers (ownersAre (ownerRows (members v)) p u)) m"
  shows "ownerRows (members (snd (andThen guard (\<lambda>_. m) v))) = ownerRows (members v)"
proof (rule reads_then [OF assms(2), where I = "\<lambda>w. ownerRows (members w) = ownerRows (members v)"])
  fix a
  assume "guard v = (Inr a, v)"
  then obtain role where "roleOf v p u = Some role" "role \<noteq> OWNER" using assms(3) by blast
  then have "onMembers (ownersAre (ownerRows (members v)) p u) v"
    using roleOf_owner_rows [OF assms(1)] by (auto simp: onMembers_def ownersAre_def)
  from keepsD [OF assms(4) this]
  show "ownerRows (members (snd (m v))) = ownerRows (members v)" by (simp add: onMembers_def ownersAre_def)
qed simp

lemma removeMember_owners:
  assumes "memberKeysUnique (wait w)"
  shows "ownerRows (members (snd (removeMember wait p u r w))) = ownerRows (members (wait w))"
proof -
  have "reads (checkRemoval p u r)" using removal.guard_reads [of "(p, u, r)"] by simp
  moreover have "\<exists>role. roleOf (wait w) p u = Some role \<and> role \<noteq> OWNER"
    if "checkRemoval p u r (wait w) = (Inr a, wait w)" for a
    using removal.guard_success [of "(p, u, r)" "wait w" a "wait w"] that
    by (auto simp: mayRemove_def split: option.splits)
  ultimately show ?thesis
    using guarded_owners [OF assms _ _ performRemoval_owners, of "checkRemoval p u r" p u r]
    by (simp add: removeMember_def withProject_def run_simps(7) andThen_run [of "modify wait"] modify_run)
qed

lemma updateMemberRole_owners:
  assumes "memberKeysUnique (wait w)"
  shows "ownerRows (members (snd (updateMemberRole wait p u new r w))) = ownerRows (members (wait w))"
proof -
  have "reads (checkRoleChange p u new r)" using role_change.guard_reads [of "(p, u, new, r)"] by simp
  moreover have "\<exists>role. roleOf (wait w) p u = Some role \<and> role \<noteq> OWNER"
    if "checkRoleChange p u new r (wait w) = (Inr a, wait w)" for a
    using role_change.guard_success [of "(p, u, new, r)" "wait w" a "wait w"] that
    by (auto simp: mayChangeRole_def split: option.splits)
  ultimately show ?thesis
    using guarded_owners [OF assms _ _ performRoleChange_owners, of "checkRoleChange p u new r" p u new r]
    by (simp add: updateMemberRole_def withProject_def andThen_run [of "modify wait"] modify_run)
qed

section \<open>Properties\<close>

text \<open>A project's owner is untouchable: adding a member, removing one or changing a role, by
  anyone and whatever the outcome, leaves the OWNER rows of all projects exactly as they were
  when the project lock was obtained.\<close>

lemma owner_rows_never_change:
  assumes "memberKeysUnique (wait w)"
  shows "ownerRows (members (snd (addMember wait p name r w))) = ownerRows (members (wait w)) \<and>
     ownerRows (members (snd (removeMember wait p u r w))) = ownerRows (members (wait w)) \<and>
     ownerRows (members (snd (updateMemberRole wait p u new r w))) = ownerRows (members (wait w))"
  using addMember_owners [of wait p name r w] removeMember_owners [where wait = wait and w = w, OF assms]
    updateMemberRole_owners [where wait = wait and w = w, OF assms] by simp

text \<open>C8 Who may remove or re-rank whom: a removal goes ahead exactly when the target is not the owner
  and the caller is the target, the owner, or an admin removing a plain member; a role change
  exactly when it changes the role of a non-owner and the caller is the owner, or an admin who
  promotes. Everyone else gets the documented refusal and nothing is written.\<close>

theorem membership_authority:
  shows "(\<not> mayRemove (wait w) (p, u, r) \<longrightarrow>
       removeMember wait p u r w = (Inl (removalDenied (wait w) (p, u, r)), wait w)) \<and>
     (mayRemove (wait w) (p, u, r) \<longrightarrow> removeMember wait p u r w = performRemoval p u r (wait w)) \<and>
     (\<not> mayChangeRole (wait w) (p, u, new, r) \<longrightarrow>
       updateMemberRole wait p u new r w = (Inl (roleChangeDenied (wait w) (p, u, new, r)), wait w)) \<and>
     (mayChangeRole (wait w) (p, u, new, r) \<longrightarrow>
       updateMemberRole wait p u new r w = performRoleChange p u new r (wait w))"
proof -
  have "removeMember wait p u r w = andThen (checkRemoval p u r) (\<lambda>_. performRemoval p u r) (wait w)"
    "updateMemberRole wait p u new r w =
       andThen (checkRoleChange p u new r) (\<lambda>_. performRoleChange p u new r) (wait w)"
    by (simp_all add: removeMember_def updateMemberRole_def withProject_def andThen_run modify_run)
  then show ?thesis
    using removal.handler_denied [of "wait w" "(p, u, r)"] removal.handler_runs [of "wait w" "(p, u, r)"]
      role_change.handler_denied [of "wait w" "(p, u, new, r)"]
      role_change.handler_runs [of "wait w" "(p, u, new, r)"] by (auto split: prod.splits)
qed

lemma memberWorld_unique: "memberKeysUnique memberWorld"
  by (simp add: memberKeysUnique_def memberWorld_def)

lemma owner_rows_never_change_sample:
  "ownerRows (members (snd (removeMember (\<lambda>w. w) ''p'' ''u'' ''u'' memberWorld))) =
   ownerRows (members memberWorld)"
  using owner_rows_never_change [of "\<lambda>w. w" memberWorld, OF memberWorld_unique] by blast

theorem membership_authority_witness:
  "removeMember (\<lambda>w. w) ''p'' ''other'' ''u'' memberWorld =
     (Inl (Forbidden ''Only the project owner or admin can remove members''), memberWorld)"
proof -
  have "\<not> mayRemove memberWorld (''p'', ''other'', ''u'')"
    "removalDenied memberWorld (''p'', ''other'', ''u'') =
       Forbidden ''Only the project owner or admin can remove members''"
    by (simp_all add: mayRemove_def removalDenied_def roleOf_def memberWorld_def)
  then show ?thesis using membership_authority [of "\<lambda>w. w" memberWorld] by metis
qed

text \<open>What a removal must leave behind.\<close>

definition assignedIn :: "world \<Rightarrow> ident \<Rightarrow> ident \<Rightarrow> bool" where
  "assignedIn w u p \<longleftrightarrow>
     (\<exists>t\<in>set (tasks w). t_projectId t = p \<and> (\<exists>a\<in>set (taskAssignees w). ta_userId a = u \<and> ta_taskId a = t_id t)) \<or>
     (\<exists>e\<in>set (calEvents w). e_projectId e = p \<and> (\<exists>a\<in>set (calAssignees w). ca_userId a = u \<and> ca_calId a = e_id e))"

definition goneFrom :: "ident \<Rightarrow> ident \<Rightarrow> world \<Rightarrow> bool" where
  "goneFrom u p w \<longleftrightarrow> \<not> isMember w p u \<and> \<not> assignedIn w u p"

lemma goneFrom_simps [simp]:
  "goneFrom u p (w\<lparr>outbox := a\<rparr>) = goneFrom u p w" "goneFrom u p (w\<lparr>uuids := b\<rparr>) = goneFrom u p w"
  "goneFrom u p (notifications_update c w) = goneFrom u p w"
  "goneFrom u p (sockets_update d w) = goneFrom u p w" "goneFrom u p (leases_update e w) = goneFrom u p w"
  by (simp_all add: goneFrom_def isMember_def assignedIn_def)

lemma quiet_goneFrom: "quiet (goneFrom u p)"
  by (rule quietI) simp_all

lemma deleteAssignments_gone:
  "\<not> isMember w p u \<Longrightarrow> goneFrom u p (snd (deleteAssignments u p w))"
  by (auto simp: goneFrom_def isMember_def assignedIn_def deleteAssignments_def run_simps Let_def)

lemma deleteMember_gone:
  "deleteOne members members_update (\<lambda>m. pm_userId m = u \<and> pm_projectId m = p) w = (Inr m, w') \<Longrightarrow>
   \<not> isMember w' p u"
  by (auto simp: run_simps isMember_def list_ex_iff split: option.splits)

definition silentIn :: "ident \<Rightarrow> ident \<Rightarrow> world \<Rightarrow> bool" where
  "silentIn u p w \<longleftrightarrow> (\<forall>s\<in>set (sockets w). userRoom u \<in> set (sk_rooms s) \<longrightarrow>
       projectRoom p \<notin> set (sk_rooms s)) \<and>
     (\<forall>(k, l)\<in>set (leases w). \<not> (l_userId l = u \<and> l_projectId l = p))"

text \<open>C9 Removal leaves no trace: after a successful removal the user is not a member of the project,
  is assigned to none of its tasks and events, none of the user's sockets is in the project's
  room and the user holds no field lock in it.\<close>

theorem removal_leaves_no_trace:
  assumes "removeMember wait p u r w = (Inr m, w')"
  shows "\<not> isMember w' p u \<and> \<not> assignedIn w' u p \<and> silentIn u p w'"
proof -
  obtain v where "performRemoval p u r v = (Inr m, w')"
    using assms by (auto simp: removeMember_def withProject_def andThen_Inr)
  then obtain w1 w2 w2a w2b w3 w4 w5 w6 w7 w8 a1 a2 a3 a4 a5 a6 a7 a8 a9 rel where
    d: "deleteOne members members_update (\<lambda>m. pm_userId m = u \<and> pm_projectId m = p) v = (Inr m, w1)"
    and w2: "deleteAssignments u p w1 = (Inr a1, w2)"
    and mid: "findOrThrow projects (\<lambda>q. p_id q = p) w2 = (Inr a2, w2a)"
      "findOrThrow users (\<lambda>x. u_id x = u) w2a = (Inr a3, w2b)" "otherMembers p [r] w2b = (Inr a4, w3)"
    and n1: "promiseAll a4 (\<lambda>x. notification_create x
         (if r = u then u_username a3 @ '' left '' @ quoted (p_name a2)
          else u_username a3 @ '' was removed from '' @ quoted (p_name a2))
         (settingsLink p)) w3 = (Inr a5, w4)"
    and n2: "(if r = u then ret () else andThen (notification_create u
         (''You were removed from '' @ quoted (p_name a2)) None) (\<lambda>_. ret ())) w4 = (Inr a6, w5)"
    and em: "emitToProject p ''project:member-removed'' (P_memberRemoved u p) (Some r) w5 = (Inr a7, w6)"
    and lv: "leaveProjectRoom u p w6 = (Inr a8, w7)"
    and rl: "releaseUserInProject u p w7 = (Inr rel, w8)"
    and un: "forEach rel emitFieldUnlock w8 = (Inr a9, w')"
    unfolding performRemoval_def Let_def
    by (auto simp only: andThen_Inr ret_Inr)
  have g: "keeps (goneFrom u p) (notification_create x msg link)" for x msg link
    by (rule quiet_keeps [OF quiet_goneFrom])
  have "goneFrom u p w2" using deleteAssignments_gone [OF deleteMember_gone [OF d]] w2 by simp
  moreover have "w3 = w2" using mid by (simp add: otherMembers_def success_iffs prisma_Inr)
  moreover have all: "keeps (goneFrom u p) (promiseAll xs (\<lambda>x. notification_create x msg link))"
    for xs msg link by (intro keeps_promiseAll g)
  ultimately have "goneFrom u p w4" using keeps_run [OF all _ n1] by simp
  then have "goneFrom u p w5" using n2 keeps_run [OF g] by (auto simp: success_iffs split: if_splits)
  then have "goneFrom u p w6" using keeps_run [OF quiet_keeps(2) [OF quiet_goneFrom] _ em] by blast
  then have g8: "goneFrom u p w8"
    using lv rl by (auto simp: run_simps releaseUserInProject_def Let_def)
  have s8: "silentIn u p w8"
    using lv rl by (auto simp: run_simps releaseUserInProject_def Let_def silentIn_def)
  have "keeps (\<lambda>w. goneFrom u p w \<and> silentIn u p w) (emitFieldUnlock x)" for x
    by (cases x) (simp add: emitFieldUnlock_def keeps_broadcast silentIn_def)
  then have fin: "keeps (\<lambda>w. goneFrom u p w \<and> silentIn u p w) (forEach rel emitFieldUnlock)"
    by (intro keeps_forEach)
  have "goneFrom u p w' \<and> silentIn u p w'" using keepsD [OF fin, of w8] g8 s8 by (simp add: un)
  then show ?thesis by (simp add: goneFrom_def)
qed

definition leavingWorld :: world where
  "leavingWorld = memberWorld\<lparr>users := [\<lparr>u_id = ''u'', u_email = ''u@x.fr'', u_username = ''ann'',
       u_firstName = None, u_lastName = None, u_avatarUrl = None, u_campus = None, u_status = ACTIVE,
       u_updatedAt = 0\<rparr>],
     projects := [\<lparr>p_id = ''p'', p_name = ''Minishell'', p_description = None, p_status = P_IN_PROGRESS,
       p_deadline = None, p_isArchived = False, p_updatedAt = 0\<rparr>]\<rparr>"

theorem removal_leaves_no_trace_witness:
  "\<exists>m w'. removeMember (\<lambda>w. w) ''p'' ''u'' ''u'' leavingWorld = (Inr m, w') \<and> silentIn ''u'' ''p'' w'"
proof -
  have "\<exists>m w'. removeMember (\<lambda>w. w) ''p'' ''u'' ''u'' leavingWorld = (Inr m, w')"
    by (simp add: removeMember_def checkRemoval_def performRemoval_def withProject_def run_simps
        leavingWorld_def memberWorld_def isOwnerOrAdmin_def Let_def deleteAssignments_def
        otherMembers_def emitToProject_def releaseUserInProject_def emptyWorld_def)
  then show ?thesis using removal_leaves_no_trace [of "\<lambda>w. w"] by blast
qed

end
