(* ===== verification/ProjectLife.thy ===== *)
theory ProjectLife
  imports Projects
begin

text \<open>
  The life of a project: what \<open>create\<close> seeds, what \<open>remove\<close> leaves behind, and the
  version check of \<open>updateDetails\<close>. The lemmas invert a successful run of each handler and
  follow the tables through the transaction with the laws of \<open>Tables\<close>.
\<close>

section \<open>What creation seeds\<close>

lemma seedCategories_Inr:
  assumes "table sel upd" and "seedCategories sel upd p cs w = (Inr u, t)"
  shows "\<exists>rs f. t = (upd (\<lambda>xs. xs @ rs) w)\<lparr>uuids := f\<rparr> \<and>
     map (\<lambda>c. (c_name c, c_color c)) rs = cs \<and> (\<forall>c\<in>set rs. c_projectId c = p)"
proof -
  let ?mk = "\<lambda>(name, color) i. \<lparr>c_id = i, c_name = name, c_color = color, c_projectId = p\<rparr>"
  have "(\<lambda>(name, color). createRow sel upd c_id (\<lambda>i. ?mk (name, color) i)) =
      (\<lambda>x. createRow sel upd c_id (?mk x))" by auto
  then have e: "forEach cs (\<lambda>x. createRow sel upd c_id (?mk x)) w = (Inr u, t)"
    using assms(2) unfolding seedCategories_def by simp
  let ?rs = "map2 ?mk cs (map (uuids w) [0..<length cs])"
  have "map (\<lambda>c. (c_name c, c_color c)) ?rs = map (\<lambda>x. x) cs"
    by (rule map_map2_fst) auto
  then have "map (\<lambda>c. (c_name c, c_color c)) ?rs = cs" by simp
  moreover have "\<forall>c\<in>set ?rs. c_projectId c = p" by auto
  ultimately show ?thesis
    using table.createEach_Inr [OF assms(1) e] by blast
qed

definition blockItemsOf :: "block_row \<Rightarrow> string list \<Rightarrow> (ident \<times> string \<times> int \<times> bool) list" where
  "blockItemsOf b labels = map (\<lambda>(k, l). (b_id b, l, int k, False)) (enumerate 0 labels)"

definition seededBlock :: "ident \<Rightarrow> string \<times> string \<times> int \<times> string list \<Rightarrow> block_row \<Rightarrow> bool" where
  "seededBlock p d b = (case d of (title, icon, color, labels) \<Rightarrow>
     b_projectId b = p \<and> b_title b = title \<and> b_description b = None \<and> b_icon b = Some icon \<and>
     b_color b = Some color \<and> b_status b = NOT_STARTED \<and> b_notes b = None)"

abbreviation itemFields :: "block_item_row \<Rightarrow> ident \<times> string \<times> int \<times> bool" where
  "itemFields x \<equiv> (bi_blockId x, bi_label x, bi_order x, bi_isChecked x)"

lemma unchecked_not_started: "computeDiscoveryBlockStatus (map (\<lambda>_. False) items) = NOT_STARTED"
  by (simp add: computeDiscoveryBlockStatus_def filter_map comp_def)

lemma seedBlockList_Inr:
  "seedBlockList p ds w = (Inr u, t) \<Longrightarrow>
   \<exists>bs xs f. t = w\<lparr>blocks := blocks w @ bs, blockItems := blockItems w @ xs, uuids := f\<rparr> \<and>
     list_all2 (seededBlock p) ds bs \<and>
     map itemFields xs = concat (map2 (\<lambda>(_, _, _, labels) b. blockItemsOf b labels) ds bs)"
proof (induction ds arbitrary: w)
  case Nil
  then have "t = w" by (simp add: seedBlockList_def success_iffs)
  then have "t = w\<lparr>blocks := blocks w @ [], blockItems := blockItems w @ [], uuids := uuids w\<rparr>" by simp
  then show ?case by fastforce
next
  case (Cons d ds)
  obtain title icon color labels where d: "d = (title, icon, color, labels)" by (cases d) auto
  let ?mk = "\<lambda>b (k, l) i. \<lparr>bi_id = i, bi_blockId = b_id b, bi_label = l, bi_isChecked = False,
    bi_order = int k\<rparr> :: block_item_row"
  have eta: "(\<lambda>(k, l). createRow blockItems blockItems_update bi_id (\<lambda>i. ?mk b (k, l) i)) =
      (\<lambda>x. createRow blockItems blockItems_update bi_id (?mk b x))" for b by auto
  obtain b w1 w2 where
    b: "createRow blocks blocks_update b_id (\<lambda>i. \<lparr>b_id = i, b_projectId = p, b_title = title,
        b_description = None, b_icon = Some icon, b_color = Some color,
        b_status = NOT_STARTED, b_notes = None, b_createdAt = clock w\<rparr>) w = (Inr b, w1)"
    and items: "forEach (enumerate 0 labels)
        (\<lambda>x. createRow blockItems blockItems_update bi_id (?mk b x)) w1 = (Inr (), w2)"
    and rest: "seedBlockList p ds w2 = (Inr u, t)"
    using Cons.prems
    by (auto simp: seedBlockList_def d success_iffs prisma_Inr eta [simplified] unchecked_not_started)
  let ?rows = "map2 (?mk b) (enumerate 0 labels) (map (uuids w1) [0..<length (enumerate 0 labels)])"
  have w1: "w1 = w\<lparr>blocks := blocks w @ [b], uuids := \<lambda>n. uuids w (Suc n)\<rparr>"
    and sb: "seededBlock p d b"
    using b by (auto simp: blocks.createRow_Inr seededBlock_def d)
  have w2: "w2 = w\<lparr>blocks := blocks w @ [b], blockItems := blockItems w @ ?rows,
      uuids := \<lambda>n. uuids w1 (n + length (enumerate 0 labels))\<rparr>"
    using blockItems.createEach_Inr [OF items] by (simp add: w1)
  have rows: "map itemFields ?rows = blockItemsOf b labels"
    unfolding blockItemsOf_def by (rule map_map2_fst) auto
  obtain bs xs f where
    t: "t = w2\<lparr>blocks := blocks w2 @ bs, blockItems := blockItems w2 @ xs, uuids := f\<rparr>"
    and bs: "list_all2 (seededBlock p) ds bs"
    and xs: "map itemFields xs = concat (map2 (\<lambda>(_, _, _, labels) b. blockItemsOf b labels) ds bs)"
    using Cons.IH [OF rest] by blast
  have "t = w\<lparr>blocks := blocks w @ b # bs, blockItems := blockItems w @ ?rows @ xs, uuids := f\<rparr>"
    unfolding t w2 by simp
  moreover have "map itemFields (?rows @ xs) =
      concat (map2 (\<lambda>(_, _, _, labels) b. blockItemsOf b labels) (d # ds) (b # bs))"
    using rows xs by (simp add: d)
  moreover have "list_all2 (seededBlock p) (d # ds) (b # bs)" using sb bs by simp
  ultimately show ?case by (intro exI [of _ "b # bs"] exI [of _ "?rows @ xs"] exI [of _ f] conjI)
qed

section \<open>Creation\<close>

definition projectRow :: "create_project_dto \<Rightarrow> millis \<Rightarrow> ident \<Rightarrow> project_row" where
  "projectRow dto now i = \<lparr>p_id = i, p_name = cpd_name dto, p_description = cpd_description dto,
     p_status = (case cpd_status dto of None \<Rightarrow> P_IN_PROGRESS | Some s \<Rightarrow> s),
     p_deadline = cpd_deadline dto,
     p_isArchived = (case cpd_isArchived dto of None \<Rightarrow> False | Some b \<Rightarrow> b),
     p_updatedAt = now\<rparr>"

definition membershipCount :: "world \<Rightarrow> ident \<Rightarrow> nat" where
  "membershipCount w u = length (filter (\<lambda>m. pm_userId m = u) (members w))"

lemma createMember_Inr:
  "createMember p u r w = (Inr m, t) \<longleftrightarrow>
     \<not> isMember w p u \<and> m = \<lparr>pm_userId = u, pm_projectId = p, pm_role = r, pm_createdAt = clock w\<rparr> \<and>
     t = w\<lparr>members := members w @ [m]\<rparr>"
  by (auto simp: createMember_def success_iffs prisma_Inr isMember_def list_ex_iff)

lemma findProjectForUser_Inr:
  "findProjectForUser i u w = (Inr v, t) \<Longrightarrow>
   t = w \<and> isMember w i u \<and> List.find (\<lambda>p. p_id p = i) (projects w) = Some (pv_project v) \<and>
   v = projectView w (pv_project v) (the (roleOf w i u))"
  by (cases "isMember w i u"; cases "List.find (\<lambda>p. p_id p = i) (projects w)")
    (auto simp: findProjectForUser_def success_iffs prisma_Inr projectView_def find_False dest: find_SomeD)

text \<open>The rows a new project \<open>i\<close> of user \<open>u\<close> comes with, and the creator's sockets in its room.\<close>

definition seededProject :: "create_project_dto \<Rightarrow> ident \<Rightarrow> world \<Rightarrow> ident \<Rightarrow> world \<Rightarrow> bool" where
  "seededProject dto u w i w' \<longleftrightarrow>
     projects w' = projects w @ [projectRow dto (clock w) i] \<and>
     members w' = members w @
       [\<lparr>pm_userId = u, pm_projectId = i, pm_role = OWNER, pm_createdAt = clock w\<rparr>] \<and>
     (\<exists>cs ts bs xs.
       calCategories w' = calCategories w @ cs \<and> taskCategories w' = taskCategories w @ ts \<and>
       map (\<lambda>c. (c_name c, c_color c)) cs = DEFAULT_CALENDAR_CATEGORIES \<and>
       map (\<lambda>c. (c_name c, c_color c)) ts = DEFAULT_TASK_CATEGORIES \<and>
       (\<forall>c\<in>set (cs @ ts). c_projectId c = i) \<and>
       blocks w' = blocks w @ bs \<and> list_all2 (seededBlock i) DEFAULT_DISCOVERY_BLOCKS bs \<and>
       blockItems w' = blockItems w @ xs \<and> map itemFields xs =
         concat (map2 (\<lambda>(_, _, _, labels) b. blockItemsOf b labels) DEFAULT_DISCOVERY_BLOCKS bs)) \<and>
     tasks w' = tasks w \<and> checklist w' = checklist w \<and>
     (\<forall>s\<in>set (sockets w'). userRoom u \<in> set (sk_rooms s) \<longrightarrow> projectRoom i \<in> set (sk_rooms s))"

lemma project_create_tx_Inr:
  assumes "project_create dto u w = (Inr v, w')"
  shows "\<exists>i. i \<notin> p_id ` set (projects w) \<and> seededProject dto u w i w' \<and>
     v = projectView w' (projectRow dto (clock w) i) (the (roleOf w' i u))"
proof -
  obtain p w1 m w2 w3 w4 w5 w6 where
    p: "createRow projects projects_update p_id (projectRow dto (clock w)) w = (Inr p, w1)"
    and m: "createMember (p_id p) u OWNER w1 = (Inr m, w2)"
    and cs: "seedCategories calCategories calCategories_update (p_id p) DEFAULT_CALENDAR_CATEGORIES w2 = (Inr (), w3)"
    and ts: "seedCategories taskCategories taskCategories_update (p_id p) DEFAULT_TASK_CATEGORIES w3 = (Inr (), w4)"
    and bs: "seedBlockList (p_id p) DEFAULT_DISCOVERY_BLOCKS w4 = (Inr (), w5)"
    and f: "findProjectForUser (p_id p) u w5 = (Inr v, w6)"
    and "joinProjectRoom u (p_id (pv_project v)) w6 = (Inr (), w')"
    using assms unfolding project_create_def projectRow_def [abs_def]
    by (auto simp: success_iffs prisma_Inr membershipCount_def maxProjectsPerUser_def)
  then have w': "joinProjectRoom u (p_id (pv_project v)) w5 = (Inr (), w')"
    using findProjectForUser_Inr [OF f] by simp
  have p': "p = projectRow dto (clock w) (p_id p)" "p_id p \<notin> p_id ` set (projects w)"
    "w1 = w\<lparr>projects := projects w @ [p], uuids := \<lambda>n. uuids w (Suc n)\<rparr>"
    using p by (auto simp: projects.createRow_Inr projectRow_def)
  have m': "w2 = w1\<lparr>members := members w1 @
      [\<lparr>pm_userId = u, pm_projectId = p_id p, pm_role = OWNER, pm_createdAt = clock w1\<rparr>]\<rparr>"
    using m by (auto simp: createMember_Inr)
  obtain cs' f1 where cs': "w3 = (calCategories_update (\<lambda>xs. xs @ cs') w2)\<lparr>uuids := f1\<rparr>"
    "map (\<lambda>c. (c_name c, c_color c)) cs' = DEFAULT_CALENDAR_CATEGORIES" "\<forall>c\<in>set cs'. c_projectId c = p_id p"
    using seedCategories_Inr [OF calCategories.table_axioms cs] by blast
  obtain ts' f2 where ts': "w4 = (taskCategories_update (\<lambda>xs. xs @ ts') w3)\<lparr>uuids := f2\<rparr>"
    "map (\<lambda>c. (c_name c, c_color c)) ts' = DEFAULT_TASK_CATEGORIES" "\<forall>c\<in>set ts'. c_projectId c = p_id p"
    using seedCategories_Inr [OF taskCategories.table_axioms ts] by blast
  obtain bs' xs f3 where bs': "w5 = w4\<lparr>blocks := blocks w4 @ bs', blockItems := blockItems w4 @ xs, uuids := f3\<rparr>"
    "list_all2 (seededBlock (p_id p)) DEFAULT_DISCOVERY_BLOCKS bs'"
    "map itemFields xs = concat (map2 (\<lambda>(_, _, _, labels) b. blockItemsOf b labels) DEFAULT_DISCOVERY_BLOCKS bs')"
    using seedBlockList_Inr [OF bs] by blast
  have "List.find (\<lambda>q. p_id q = p_id p) (projects w5) = Some p"
    unfolding bs' ts' cs' m' p'(3) using p'(2)
    by (simp, intro find_appended) (auto simp: find_None_iff_all image_iff)
  then have v: "v = projectView w5 p (the (roleOf w5 (p_id p) u))" and vp: "pv_project v = p"
    using findProjectForUser_Inr [OF f] by auto
  have w'': "w' = sockets_update (map (\<lambda>s. if userRoom u \<in> set (sk_rooms s)
      then s\<lparr>sk_rooms := List.insert (projectRoom (p_id p)) (sk_rooms s)\<rparr> else s)) w5"
    using w' by (simp add: run_simps vp)
  have "v = projectView w' p (the (roleOf w' (p_id p) u))"
    unfolding v w'' by (simp add: projectView_def roleOf_def projectChecks_def memberCount_def)
  moreover have "seededProject dto u w (p_id p) w'"
    unfolding seededProject_def using cs'(2,3) ts'(2,3) bs'(2,3) p'(1)
    by (intro conjI exI [of _ cs'] exI [of _ ts'] exI [of _ bs'] exI [of _ xs])
      (auto simp: w'' bs'(1) ts'(1) cs'(1) m' p'(3))
  ultimately show ?thesis using p'(1,2) by metis
qed

lemma empty_progress: "computeProjectProgress [] = 0"
  using math_round_int [of 0] by (simp add: computeProjectProgress_def sectionItems_def computeSectionPercent_def)

lemma project_create_Inl: "project_create dto u w = (Inl e, t) \<Longrightarrow> t = w"
  unfolding project_create_def
  by (auto simp: andThen_Inl realtime_run ret_run dest: transaction_Inl)

text \<open>C12 Creating a project is all or nothing: a user who already has 1024 memberships is refused
  and any error leaves the database as it was; on success there is exactly one new
  project, under a fresh id, with the creator as its only member and OWNER, the seven calendar
  and eight task categories, the six default blocks not started with their items unchecked and
  numbered from 0, no task, progress 0, and the creator's sockets in its room.\<close>

theorem project_create_seeds_everything:
  assumes "\<forall>m\<in>set (members w). pm_projectId m \<in> p_id ` set (projects w)"
    and "\<forall>c\<in>set (checklist w). ci_projectId c \<in> p_id ` set (projects w)"
  shows "(1024 \<le> membershipCount w u \<longrightarrow> project_create dto u w = (Inl tooManyProjects, w)) \<and>
     (\<forall>e w'. project_create dto u w = (Inl e, w') \<longrightarrow> w' = w) \<and>
     (\<forall>v w'. project_create dto u w = (Inr v, w') \<longrightarrow>
       (\<exists>i. i \<notin> p_id ` set (projects w) \<and> seededProject dto u w i w' \<and>
          v = \<lparr>pv_project = projectRow dto (clock w) i, pv_role = OWNER, pv_progress = 0,
               pv_memberCount = 1\<rparr>))"
proof (intro conjI allI impI)
  assume "1024 \<le> membershipCount w u"
  then show "project_create dto u w = (Inl tooManyProjects, w)"
    by (simp add: project_create_def run_simps membershipCount_def maxProjectsPerUser_def)
next
  show "w' = w" if "project_create dto u w = (Inl e, w')" for e w'
    using project_create_Inl [OF that] .
next
  fix v w' assume c: "project_create dto u w = (Inr v, w')"
  then obtain i where i: "i \<notin> p_id ` set (projects w)" and s: "seededProject dto u w i w'"
    and v: "v = projectView w' (projectRow dto (clock w) i) (the (roleOf w' i u))"
    using project_create_tx_Inr by blast
  have mem: "members w' = members w @
      [\<lparr>pm_userId = u, pm_projectId = i, pm_role = OWNER, pm_createdAt = clock w\<rparr>]"
    and chk: "checklist w' = checklist w" using s by (simp_all add: seededProject_def)
  have m: "\<forall>m\<in>set (members w). pm_projectId m \<noteq> i" and k: "\<forall>c\<in>set (checklist w). ci_projectId c \<noteq> i"
    using i assms by auto
  have "List.find (\<lambda>m. pm_projectId m = i \<and> pm_userId m = u) (members w) = None"
    using m by (auto simp: find_None_iff_all)
  then have role: "roleOf w' i u = Some OWNER"
    unfolding roleOf_def mem by (subst find_appended) auto
  have "projectChecks w' i = []" using k by (simp add: projectChecks_def chk filter_empty_conv)
  moreover have "memberCount w' i = 1"
    using m filter_False [of "members w" "\<lambda>m. pm_projectId m = i"] by (simp add: memberCount_def mem)
  ultimately have "v = \<lparr>pv_project = projectRow dto (clock w) i, pv_role = OWNER, pv_progress = 0,
      pv_memberCount = 1\<rparr>"
    by (simp add: v role projectView_def projectRow_def empty_progress)
  with i s show "\<exists>i. i \<notin> p_id ` set (projects w) \<and> seededProject dto u w i w' \<and>
     v = \<lparr>pv_project = projectRow dto (clock w) i, pv_role = OWNER, pv_progress = 0, pv_memberCount = 1\<rparr>"
    by blast
qed

theorem project_create_seeds_everything_witness:
  "project_create \<lparr>cpd_name = ''p'', cpd_description = None, cpd_deadline = None, cpd_status = None,
     cpd_isArchived = None\<rparr> ''u'' (emptyWorld\<lparr>projects := [\<lparr>p_id = ''q'', p_name = [],
     p_description = None, p_status = P_REVIEW, p_deadline = None, p_isArchived = False, p_updatedAt = 0\<rparr>],
     members := replicate 1024 \<lparr>pm_userId = ''u'', pm_projectId = ''q'', pm_role = MEMBER,
       pm_createdAt = 0\<rparr>\<rparr>) = (Inl tooManyProjects, emptyWorld\<lparr>projects := [\<lparr>p_id = ''q'', p_name = [],
     p_description = None, p_status = P_REVIEW, p_deadline = None, p_isArchived = False, p_updatedAt = 0\<rparr>],
     members := replicate 1024 \<lparr>pm_userId = ''u'', pm_projectId = ''q'', pm_role = MEMBER,
       pm_createdAt = 0\<rparr>\<rparr>)"
  (is "project_create ?dto _ ?w = _")
proof -
  have "membershipCount ?w ''u'' = 1024" by (simp add: membershipCount_def filter_replicate)
  moreover have "\<forall>m\<in>set (members ?w). pm_projectId m \<in> p_id ` set (projects ?w)"
    "\<forall>c\<in>set (checklist ?w). ci_projectId c \<in> p_id ` set (projects ?w)"
    by (simp_all add: emptyWorld_def)
  ultimately show ?thesis
    using project_create_seeds_everything [of ?w "''u''" ?dto] by simp
qed

section \<open>Deletion and versions\<close>

text \<open>Referential integrity of the project's tables.\<close>

definition foreignKeys :: "world \<Rightarrow> bool" where
  "foreignKeys w \<longleftrightarrow> (let ps = p_id ` set (projects w) in
     pm_projectId ` set (members w) \<subseteq> ps \<and> t_projectId ` set (tasks w) \<subseteq> ps \<and>
     c_projectId ` set (taskCategories w) \<subseteq> ps \<and> e_projectId ` set (calEvents w) \<subseteq> ps \<and>
     c_projectId ` set (calCategories w) \<subseteq> ps \<and> b_projectId ` set (blocks w) \<subseteq> ps \<and>
     ci_projectId ` set (checklist w) \<subseteq> ps \<and> cm_projectId ` set (messages w) \<subseteq> ps \<and>
     rs_projectId ` set (readStates w) \<subseteq> ps \<and>
     ta_taskId ` set (taskAssignees w) \<subseteq> t_id ` set (tasks w) \<and>
     ca_calId ` set (calAssignees w) \<subseteq> e_id ` set (calEvents w) \<and>
     bi_blockId ` set (blockItems w) \<subseteq> b_id ` set (blocks w))"

lemma image_filter_subset:
  "f ` set xs \<subseteq> p ` set ps \<Longrightarrow> f ` set (filter (\<lambda>x. f x \<noteq> i) xs) \<subseteq> p ` set (filter (\<lambda>x. p x \<noteq> i) ps)"
  by (auto simp: image_iff subset_iff)

lemma image_child_subset:
  "f ` set xs \<subseteq> p ` set ps \<Longrightarrow>
   f ` set (filter (\<lambda>x. f x \<notin> set (map p (filter P ps))) xs) \<subseteq> p ` set (filter (\<lambda>x. \<not> P x) ps)"
  by (auto simp: image_iff subset_iff)

lemma cascade_foreignKeys: "foreignKeys w \<Longrightarrow> foreignKeys (cascadeDeleteProject i w)"
  unfolding foreignKeys_def cascadeDeleteProject_def Let_def
  by (simp add: image_filter_subset image_child_subset del: set_filter set_map image_subset_iff)

lemma project_remove_Inr:
  "project_remove gap i u w = (Inr x, w') \<longleftrightarrow>
     roleOf w i u = Some OWNER \<and> (\<exists>p\<in>set (projects (gap w)). p_id p = i) \<and>
     emitToProject i ''project:deleted'' (P_projectDeleted i) (Some u) (cascadeDeleteProject i (gap w)) = (Inr x, w')"
proof (cases "List.find (\<lambda>p. p_id p = i) (projects (gap w))")
  case None
  then have "\<not> (\<exists>p\<in>set (projects (gap w)). p_id p = i)" by (simp add: find_None_iff_all)
  with None show ?thesis
    by (auto simp: project_remove_def success_iffs assertMembership_Inr deleteProjectRow_def)
next
  case (Some p)
  then have "\<exists>p\<in>set (projects (gap w)). p_id p = i" by (auto dest: find_SomeD)
  with Some show ?thesis
    by (auto simp: project_remove_def success_iffs assertMembership_Inr deleteProjectRow_def roleOf_def)
qed


definition sampleProject :: project_row where
  "sampleProject = \<lparr>p_id = ''p'', p_name = ''Shell'', p_description = None, p_status = P_IN_PROGRESS,
     p_deadline = None, p_isArchived = False, p_updatedAt = 7\<rparr>"

definition ownedWorld :: world where
  "ownedWorld = emptyWorld\<lparr>projects := [sampleProject], clock := 9,
     members := [\<lparr>pm_userId = ''u'', pm_projectId = ''p'', pm_role = OWNER, pm_createdAt = 0\<rparr>]\<rparr>"

lemma ownedWorld_facts:
  "foreignKeys ownedWorld" "roleOf ownedWorld ''p'' ''u'' = Some OWNER"
  "\<exists>p\<in>set (projects ownedWorld). p_id p = ''p''"
  by (simp_all add: ownedWorld_def emptyWorld_def foreignKeys_def Let_def roleOf_def sampleProject_def)


lemma quiet_projects: "quiet (\<lambda>x. projects x = ps)"
  by (rule quietI) simp_all

lemma keeps_notifyDetailsChange:
  "quiet I \<Longrightarrow> keeps I (notifyDetailsChange i u a b)"
  unfolding notifyDetailsChange_def otherMembers_def by (intro keeps_rules quiet_keeps)

lemma updateDetails_Inr:
  assumes "project_updateDetails gap i dto u w = (Inr v, w')"
  shows "\<exists>p. List.find (\<lambda>p. p_id p = i \<and> p_updatedAt p = udd_updatedAt dto) (projects (gap w)) = Some p \<and>
     pv_project v = applyProjectDetails dto (clock (gap w)) p \<and>
     projects w' = map (\<lambda>p. if p_id p = i \<and> p_updatedAt p = udd_updatedAt dto
       then applyProjectDetails dto (clock (gap w)) p else p) (projects (gap w))"
proof -
  let ?P = "\<lambda>p. p_id p = i \<and> p_updatedAt p = udd_updatedAt dto"
  have no_rescue: "(if isRecordNotFoundError e then throw staleProject else throw e) x \<noteq> (Inr a, t)"
    for e x and a :: project_row and t by (simp add: run_simps)
  obtain prev p w1 w2 r where
    up: "updateOne projects projects_update ?P (applyProjectDetails dto (clock (gap w))) (gap w) = (Inr p, w1)"
    and n: "notifyDetailsChange i u prev p w1 = (Inr (), w2)"
    and e: "emitToProject i ''project:updated'' (P_project v) None w2 = (Inr (), w')"
    and v: "v = projectView w1 p r"
    using assms by (auto simp: project_updateDetails_def success_iffs catching_Inr no_rescue prisma_Inr(4,11)
        assertMembership_Inr requireProjectAdmin_def)
  have "projects w2 = projects w1"
    using keeps_run [OF keeps_notifyDetailsChange [OF quiet_projects] _ n] by simp
  moreover have "projects w' = projects w2"
    using keeps_run [OF quiet_keeps(2) [OF quiet_projects] _ e] by simp
  ultimately show ?thesis using up by (auto simp: prisma_Inr v projectView_def)
qed

text \<open>C14 No lost update: a save of the project's details is written only over the version it was
  based on, and a second save based on that same version, by anyone, is refused as stale and
  writes nothing, as soon as the clock has moved past that version.\<close>

theorem stale_save_is_refused:
  assumes "project_updateDetails gap i dto u w = (Inr v, w')"
    and "distinct (map p_id (projects (gap w)))" and "clock (gap w) \<noteq> udd_updatedAt dto"
    and "roleOf w' i u2 \<in> {Some OWNER, Some ADMIN}" and "udd_updatedAt dto2 = udd_updatedAt dto"
  shows "(\<exists>p\<in>set (projects (gap w)). p_id p = i \<and> p_updatedAt p = udd_updatedAt dto \<and>
       pv_project v = applyProjectDetails dto (clock (gap w)) p) \<and>
     project_updateDetails (\<lambda>w. w) i dto2 u2 w' = (Inl staleProject, w')"
proof
  obtain p where p: "List.find (\<lambda>p. p_id p = i \<and> p_updatedAt p = udd_updatedAt dto) (projects (gap w)) = Some p"
    "pv_project v = applyProjectDetails dto (clock (gap w)) p"
    and w': "projects w' = map (\<lambda>p. if p_id p = i \<and> p_updatedAt p = udd_updatedAt dto
       then applyProjectDetails dto (clock (gap w)) p else p) (projects (gap w))"
    using updateDetails_Inr [OF assms(1)] by blast
  note p' = find_SomeD [OF p(1)]
  with p(2) show "\<exists>p\<in>set (projects (gap w)). p_id p = i \<and> p_updatedAt p = udd_updatedAt dto \<and>
       pv_project v = applyProjectDetails dto (clock (gap w)) p" by blast
  have only: "q = p" if "q \<in> set (projects (gap w))" "p_id q = i" for q
    using assms(2) p' that by (metis distinct_map inj_onD)
  have "\<not> (\<exists>q\<in>set (projects w'). p_id q = i \<and> p_updatedAt q = udd_updatedAt dto2)"
    using only p' assms(3,5) by (auto simp: w' applyProjectDetails_def split: if_splits)
  note none = projects.updateOne_absent [OF this]
  have "pv_project v \<in> set (projects w')" "p_id (pv_project v) = i"
    using p p' by (force simp: w', simp add: applyProjectDetails_def)
  then obtain q where q: "List.find (\<lambda>p. p_id p = i) (projects w') = Some q"
    by (cases "List.find (\<lambda>p. p_id p = i) (projects w')") (auto simp: find_None_iff_all)
  obtain m where m: "List.find (\<lambda>m. pm_projectId m = i \<and> pm_userId m = u2) (members w') = Some m"
    "pm_role m = OWNER \<or> pm_role m = ADMIN"
    using assms(4) by (auto simp: roleOf_def)
  show "project_updateDetails (\<lambda>w. w) i dto2 u2 w' = (Inl staleProject, w')"
    unfolding project_updateDetails_def using m q
    by (simp add: andThen_run assertMembership_run requireProjectAdmin_def ensure_run modify_run
        prisma_run(4,11) catching_run none isRecordNotFoundError_def throw_run)
qed

definition sampleDetails :: update_project_details_dto where
  "sampleDetails = \<lparr>udd_name = ''Minishell'', udd_description = None, udd_updatedAt = 7\<rparr>"

theorem stale_save_is_refused_witness:
  "\<exists>v w'. project_updateDetails (\<lambda>w. w) ''p'' sampleDetails ''u'' (ownedWorld\<lparr>users := [\<lparr>u_id = ''u'',
       u_email = [], u_username = ''ada'', u_firstName = None, u_lastName = None, u_avatarUrl = None,
       u_campus = None, u_status = ACTIVE, u_updatedAt = 0\<rparr>]\<rparr>) = (Inr v, w') \<and>
     project_updateDetails (\<lambda>w. w) ''p'' sampleDetails ''u'' w' = (Inl staleProject, w')"
proof -
  let ?w = "ownedWorld\<lparr>users := [\<lparr>u_id = ''u'', u_email = [], u_username = ''ada'', u_firstName = None,
     u_lastName = None, u_avatarUrl = None, u_campus = None, u_status = ACTIVE, u_updatedAt = 0\<rparr>]\<rparr>"
  obtain v w' where r: "project_updateDetails (\<lambda>w. w) ''p'' sampleDetails ''u'' ?w = (Inr v, w')"
    and role: "roleOf w' ''p'' ''u'' = Some OWNER"
    by (simp add: project_updateDetails_def run_simps ownedWorld_def emptyWorld_def sampleProject_def
        sampleDetails_def requireProjectAdmin_def notifyDetailsChange_def otherMembers_def
        applyProjectDetails_def emitToProject_def roleOf_def)
  have "distinct (map p_id (projects ?w))" "clock ?w \<noteq> udd_updatedAt sampleDetails"
    by (simp_all add: ownedWorld_def emptyWorld_def sampleDetails_def)
  from stale_save_is_refused [OF r this, of "''u''" sampleDetails] r role show ?thesis by blast
qed

end
