(* ===== verification/Users.thy ===== *)
theory Users
  imports Realtime Tables
begin

text \<open>
  \<open>UsersService\<close> (\<open>backend/src/users/users.service.ts\<close>): profiles, presence, the email lookup and
  the avatar. A relationship is two directed rows, one stance per participant; \<open>stance w a b\<close>
  is the status of the row of \<open>a\<close> towards \<open>b\<close>. The object store (\<open>StorageService\<close>, an S3 client)
  is the parameters \<open>put\<close> and \<open>del\<close>, actions that may throw.
\<close>

section \<open>Responses\<close>

text \<open>\<open>SAFE_USER_SELECT\<close> and \<open>SAFE_PUBLIC_USER_SELECT\<close> (the latter with \<open>online\<close>).\<close>

record safe_user =
  sf_id :: ident
  sf_email :: string
  sf_username :: string
  sf_firstName :: "string option"
  sf_lastName :: "string option"
  sf_avatarUrl :: "string option"
  sf_campus :: "string option"
  sf_updatedAt :: millis

record public_user =
  pu_id :: ident
  pu_username :: string
  pu_firstName :: "string option"
  pu_lastName :: "string option"
  pu_avatarUrl :: "string option"
  pu_campus :: "string option"
  pu_online :: bool

definition safeUser :: "user_row \<Rightarrow> safe_user" where
  "safeUser u = \<lparr>sf_id = u_id u, sf_email = u_email u, sf_username = u_username u,
     sf_firstName = u_firstName u, sf_lastName = u_lastName u, sf_avatarUrl = u_avatarUrl u,
     sf_campus = u_campus u, sf_updatedAt = u_updatedAt u\<rparr>"

definition publicUser :: "user_row \<Rightarrow> bool \<Rightarrow> public_user" where
  "publicUser u online = \<lparr>pu_id = u_id u, pu_username = u_username u, pu_firstName = u_firstName u,
     pu_lastName = u_lastName u, pu_avatarUrl = u_avatarUrl u, pu_campus = u_campus u,
     pu_online = online\<rparr>"

definition userNotFound :: exn where
  "userNotFound = NotFound ''User not found''"

section \<open>Lookups\<close>

definition stance :: "world \<Rightarrow> ident \<Rightarrow> ident \<Rightarrow> relationship_status option" where
  "stance w a b = map_option ur_status
     (List.find (\<lambda>r. ur_requesterId r = a \<and> ur_addresseeId r = b) (relationships w))"

definition user_findMe :: "ident \<Rightarrow> safe_user service" where
  "user_findMe i =
     andThen (findFirst users (\<lambda>u. u_id u = i)) (\<lambda>found.
     case found of None \<Rightarrow> throw userNotFound | Some u \<Rightarrow> ret (safeUser u))"

definition user_findById :: "ident \<Rightarrow> ident option \<Rightarrow> public_user service" where
  "user_findById i viewerId =
     andThen (findFirst users (\<lambda>u. u_id u = i \<and> u_status u = ACTIVE)) (\<lambda>found.
     case found of None \<Rightarrow> throw userNotFound
     | Some u \<Rightarrow> gets (\<lambda>w.
         let blockedByTarget = (case viewerId of None \<Rightarrow> False
               | Some v \<Rightarrow> v \<noteq> i \<and> stance w i v = Some BLOCKED)
         in publicUser u (if blockedByTarget then False else isUserOnline w i)))"

definition user_findEmail :: "ident \<Rightarrow> ident \<Rightarrow> string service" where
  "user_findEmail i viewerId =
     andThen (gets (\<lambda>w. (stance w viewerId i, stance w i viewerId))) (\<lambda>(mine, theirs).
     andThen (ensure (mine = Some ACCEPTED \<and> theirs = Some ACCEPTED)
       (Forbidden (''Not authorized to view this user'' @ (CHR 0x27 # ''s email'')))) (\<lambda>_.
     andThen (findFirst users (\<lambda>u. u_id u = i)) (\<lambda>found.
     case found of None \<Rightarrow> throw userNotFound | Some u \<Rightarrow> ret (u_email u))))"

section \<open>Presence\<close>

text \<open>\<open>[...new Set(ids)]\<close>: the first occurrence of each id, in order.\<close>

definition uniqueIds :: "ident list \<Rightarrow> ident list" where
  "uniqueIds ids = rev (remdups (rev ids))"

record stance_pair =
  mine :: "relationship_status option"
  theirs :: "relationship_status option"

definition notePair ::
  "ident \<Rightarrow> relationship_row \<Rightarrow> (ident \<rightharpoonup> stance_pair) \<Rightarrow> ident \<rightharpoonup> stance_pair" where
  "notePair viewerId row pairs =
     (let otherId = (if ur_requesterId row = viewerId then ur_addresseeId row else ur_requesterId row);
          entry = (case pairs otherId of None \<Rightarrow> \<lparr>mine = None, theirs = None\<rparr> | Some e \<Rightarrow> e)
      in pairs(otherId \<mapsto> (if ur_requesterId row = viewerId then entry\<lparr>mine := Some (ur_status row)\<rparr>
           else entry\<lparr>theirs := Some (ur_status row)\<rparr>)))"

definition getPresence :: "ident list \<Rightarrow> ident \<Rightarrow> (ident \<times> bool) list service" where
  "getPresence ids viewerId =
     (let targetIds = filter (\<lambda>i. i \<noteq> viewerId) (uniqueIds ids) in
      if targetIds = [] then ret []
      else andThen (findMany relationships (\<lambda>r.
               ur_requesterId r \<in> set targetIds \<and> ur_addresseeId r = viewerId \<or>
               ur_requesterId r = viewerId \<and> ur_addresseeId r \<in> set targetIds)) (\<lambda>rows.
           let pairs = fold (notePair viewerId) rows Map.empty in
           gets (\<lambda>w. map (\<lambda>i.
             let areFriends = (case pairs i of None \<Rightarrow> False
                   | Some e \<Rightarrow> mine e = Some ACCEPTED \<and> theirs e = Some ACCEPTED)
             in (i, if areFriends then isUserOnline w i else False)) targetIds)))"

section \<open>Account\<close>

text \<open>\<open>UpdateUserDto\<close> leaves \<open>username\<close> only; the column is unique.\<close>

definition user_update :: "ident \<Rightarrow> string option \<Rightarrow> safe_user service" where
  "user_update userId username =
     andThen dateNow (\<lambda>now.
     andThen (gets (\<lambda>w. list_ex (\<lambda>u. u_id u \<noteq> userId \<and> Some (u_username u) = username) (users w)))
       (\<lambda>taken.
     andThen (gets (\<lambda>w. list_ex (\<lambda>u. u_id u = userId) (users w))) (\<lambda>known.
     andThen (ensure (\<not> (known \<and> taken)) (PrismaError ''P2002'')) (\<lambda>_.
     andThen (updateOne users users_update (\<lambda>u. u_id u = userId) (\<lambda>u. u\<lparr>
       u_username := (case username of None \<Rightarrow> u_username u | Some n \<Rightarrow> n), u_updatedAt := now\<rparr>))
       (\<lambda>u. ret (safeUser u))))))"

text \<open>
  Deleting a user: the \<open>onDelete: Cascade\<close> relations of the schema, and \<open>SetNull\<close> for messages.
\<close>

definition cascadeDeleteUser :: "ident \<Rightarrow> world \<Rightarrow> world" where
  "cascadeDeleteUser i w = w\<lparr>
     users := filter (\<lambda>u. u_id u \<noteq> i) (users w),
     members := filter (\<lambda>m. pm_userId m \<noteq> i) (members w),
     taskAssignees := filter (\<lambda>a. ta_userId a \<noteq> i) (taskAssignees w),
     calAssignees := filter (\<lambda>a. ca_userId a \<noteq> i) (calAssignees w),
     notifications := filter (\<lambda>n. n_userId n \<noteq> i) (notifications w),
     readStates := filter (\<lambda>r. rs_userId r \<noteq> i) (readStates w),
     relationships := filter (\<lambda>r. ur_requesterId r \<noteq> i \<and> ur_addresseeId r \<noteq> i) (relationships w),
     messages := map (\<lambda>m. if cm_userId m = Some i then m\<lparr>cm_userId := None\<rparr> else m) (messages w)\<rparr>"

definition deleteUserRow :: "ident \<Rightarrow> user_row service" where
  "deleteUserRow i = (\<lambda>w. case List.find (\<lambda>u. u_id u = i) (users w) of
     None \<Rightarrow> (Inl (PrismaError ''P2025''), w) | Some u \<Rightarrow> (Inr u, cascadeDeleteUser i w))"

definition user_remove :: "(world \<Rightarrow> world) \<Rightarrow> ident \<Rightarrow> safe_user service" where
  "user_remove gap userId =
     andThen (findFirst members (\<lambda>m. pm_userId m = userId \<and> pm_role m = OWNER)) (\<lambda>ownsProject.
     andThen (ensure (ownsProject = None)
       (Conflict ''Cannot delete account while you own a project. Transfer ownership first.'')) (\<lambda>_.
     andThen (modify gap) (\<lambda>_.
     andThen (deleteUserRow userId) (\<lambda>u. ret (safeUser u)))))"

section \<open>Avatar\<close>

definition startsWith :: "string \<Rightarrow> string \<Rightarrow> bool" where
  "startsWith p s \<longleftrightarrow> take (length p) s = p"

fun hasDots :: "string \<Rightarrow> bool" where
  "hasDots (a # b # s) \<longleftrightarrow> a = CHR ''.'' \<and> b = CHR ''.'' \<or> hasDots (b # s)"
| "hasDots _ \<longleftrightarrow> False"

text \<open>\<open>/^avatar-[^/\\]+$/\<close> and no \<open>".."\<close>.\<close>

definition avatarKeyPattern :: "string \<Rightarrow> bool" where
  "avatarKeyPattern key \<longleftrightarrow> startsWith ''avatar-'' key \<and> drop 7 key \<noteq> [] \<and>
     list_all (\<lambda>c. c \<noteq> CHR ''/'' \<and> c \<noteq> CHR 0x5C) (drop 7 key)"

definition validAvatarKey :: "string \<Rightarrow> bool" where
  "validAvatarKey key \<longleftrightarrow> avatarKeyPattern key \<and> \<not> hasDots key"

definition throwIfBadRequest :: "string \<Rightarrow> unit service" where
  "throwIfBadRequest key = ensure (validAvatarKey key) (BadRequest ''Invalid avatar key'')"

definition safeChar :: "char \<Rightarrow> bool" where
  "safeChar c \<longleftrightarrow> between (CHR ''A'') (CHR ''Z'') c \<or> between (CHR ''a'') (CHR ''z'') c \<or>
     between (CHR ''0'') (CHR ''9'') c \<or> c = CHR ''.'' \<or> c = CHR ''_'' \<or> c = CHR ''-''"

text \<open>\<open>replace(/\.\.+/g, "_")\<close>: every maximal run of two dots or more becomes one underscore.\<close>

function collapseDots :: "string \<Rightarrow> string" where
  "collapseDots [] = []"
| "collapseDots (c # s) =
     (if c = CHR ''.'' \<and> takeWhile (\<lambda>d. d = CHR ''.'') s \<noteq> []
      then CHR ''_'' # collapseDots (dropWhile (\<lambda>d. d = CHR ''.'') s)
      else c # collapseDots s)"
  by pat_completeness auto
termination
  by (relation "measure length") (auto simp: length_dropWhile_le le_imp_less_Suc)

definition safeOriginalName :: "string \<Rightarrow> string" where
  "safeOriginalName name = collapseDots (map (\<lambda>c. if safeChar c then c else CHR ''_'') name)"

definition avatarKey :: "ident \<Rightarrow> ident \<Rightarrow> string \<Rightarrow> string" where
  "avatarKey userId uuid name = ''avatar-'' @ userId @ ''-'' @ uuid @ ''-'' @ safeOriginalName name"

definition avatarUrlOf :: "string \<Rightarrow> string" where
  "avatarUrlOf key = ''/api/users/avatar/'' @ key"

text \<open>\<open>avatarUrl?.split("/").pop()\<close>; an empty string is as good as none.\<close>

definition keyOfUrl :: "string option \<Rightarrow> string option" where
  "keyOfUrl url = (case url of None \<Rightarrow> None
     | Some u \<Rightarrow> let key = last (splitOn (CHR ''/'') u) in if key = [] then None else Some key)"

definition setAvatarUrl :: "ident \<Rightarrow> string option \<Rightarrow> user_row service" where
  "setAvatarUrl userId url =
     andThen dateNow (\<lambda>now.
     updateOne users users_update (\<lambda>u. u_id u = userId)
       (\<lambda>u. u\<lparr>u_avatarUrl := url, u_updatedAt := now\<rparr>))"

definition getAvatar :: "(string \<Rightarrow> 'o service) \<Rightarrow> string \<Rightarrow> 'o service" where
  "getAvatar fetch key = andThen (throwIfBadRequest key) (\<lambda>_. fetch key)"

definition uploadAvatar ::
  "(string \<Rightarrow> unit service) \<Rightarrow> (string \<Rightarrow> unit service) \<Rightarrow> ident \<Rightarrow> string \<Rightarrow> safe_user service" where
  "uploadAvatar put del userId name =
     andThen (user_findById userId None) (\<lambda>user.
     andThen nextUuid (\<lambda>uuid.
     let key = avatarKey userId uuid name in
     andThen (put key) (\<lambda>_.
     andThen (setAvatarUrl userId (Some (avatarUrlOf key))) (\<lambda>updated.
     andThen (case keyOfUrl (pu_avatarUrl user) of None \<Rightarrow> ret () | Some previousKey \<Rightarrow> del previousKey)
       (\<lambda>_. ret (safeUser updated))))))"

definition removeAvatar :: "(string \<Rightarrow> unit service) \<Rightarrow> ident \<Rightarrow> bool service" where
  "removeAvatar del userId =
     andThen (user_findById userId None) (\<lambda>user.
     case keyOfUrl (pu_avatarUrl user) of None \<Rightarrow> ret True
     | Some key \<Rightarrow>
         andThen (throwIfBadRequest key) (\<lambda>_.
         andThen (setAvatarUrl userId None) (\<lambda>_.
         andThen (del key) (\<lambda>_. ret True))))"

section \<open>Avatar keys\<close>

lemma hasDots_append:
  "hasDots (a @ b) \<longleftrightarrow> hasDots a \<or> hasDots b \<or>
     (a \<noteq> [] \<and> b \<noteq> [] \<and> last a = CHR ''.'' \<and> hd b = CHR ''.'')"
proof (induction a)
  case (Cons x a)
  then show ?case by (cases a; cases b) auto
qed simp

lemma hasDots_Cons: "c \<noteq> CHR ''.'' \<Longrightarrow> hasDots (c # s) \<longleftrightarrow> hasDots s"
  by (cases s) auto

lemma no_dots: "CHR ''.'' \<notin> set s \<Longrightarrow> \<not> hasDots s"
  by (induction s rule: hasDots.induct) auto

lemma collapseDots_no_dots: "\<not> hasDots (collapseDots s)"
proof (induction s rule: collapseDots.induct)
  case (2 c s)
  show ?case
  proof (cases "c = CHR ''.'' \<and> takeWhile (\<lambda>d. d = CHR ''.'') s \<noteq> []")
    case True
    then show ?thesis using 2(1) by (simp add: hasDots_Cons)
  next
    case False
    then have ih: "\<not> hasDots (collapseDots s)" using 2(2) by blast
    show ?thesis
    proof (cases "c = CHR ''.'' \<and> s \<noteq> []")
      case True
      then obtain d t where s: "s = d # t" "d \<noteq> CHR ''.''"
        using False by (cases s) (auto split: if_splits)
      then have "collapseDots s = d # collapseDots t" by simp
      then show ?thesis using ih s False True by simp
    next
      case c: False
      then show ?thesis using ih False by (cases "s = []") (auto simp: hasDots_Cons)
    qed
  qed
qed simp

lemma set_collapseDots: "set (collapseDots s) \<subseteq> insert (CHR ''_'') (set s)"
  by (induction s rule: collapseDots.induct) (auto dest: set_dropWhileD)

text \<open>The characters of a UUID.\<close>

definition uuidChar :: "char \<Rightarrow> bool" where
  "uuidChar c \<longleftrightarrow> between (CHR ''a'') (CHR ''f'') c \<or> between (CHR ''0'') (CHR ''9'') c \<or> c = CHR ''-''"

lemma uuidChar_plain: "uuidChar c \<Longrightarrow> c \<noteq> CHR ''/'' \<and> c \<noteq> CHR 0x5C \<and> c \<noteq> CHR ''.''"
  by (auto simp: uuidChar_def between_def)

lemma safeChar_plain: "safeChar c \<Longrightarrow> c \<noteq> CHR ''/'' \<and> c \<noteq> CHR 0x5C"
  by (auto simp: safeChar_def between_def)

lemma safeName_chars: "c \<in> set (safeOriginalName name) \<Longrightarrow> c \<noteq> CHR ''/'' \<and> c \<noteq> CHR 0x5C"
  using set_collapseDots [of "map (\<lambda>c. if safeChar c then c else CHR ''_'') name"]
  by (auto simp: safeOriginalName_def dest: safeChar_plain split: if_splits)

lemma avatarKey_valid:
  assumes "list_all uuidChar userId" and "list_all uuidChar uuid"
  shows "validAvatarKey (avatarKey userId uuid name)"
proof -
  have plain: "c \<noteq> CHR ''/'' \<and> c \<noteq> CHR 0x5C \<and> c \<noteq> CHR ''.''" if "c \<in> set userId \<union> set uuid" for c
    using assms that uuidChar_plain [of c] by (auto simp: list_all_iff)
  have "\<not> hasDots (''avatar-'' @ userId @ ''-'' @ uuid @ ''-'')"
    using plain by (intro no_dots) auto
  then have "\<not> hasDots ((''avatar-'' @ userId @ ''-'' @ uuid @ ''-'') @ safeOriginalName name)"
    unfolding hasDots_append safeOriginalName_def using collapseDots_no_dots by simp
  then have "\<not> hasDots (avatarKey userId uuid name)" by (simp add: avatarKey_def)
  moreover have "drop 7 (avatarKey userId uuid name) = userId @ ''-'' @ uuid @ ''-'' @ safeOriginalName name"
    by (simp add: avatarKey_def)
  moreover have "startsWith ''avatar-'' (avatarKey userId uuid name)"
    by (simp add: startsWith_def avatarKey_def)
  ultimately show ?thesis
    using plain safeName_chars by (auto simp: validAvatarKey_def avatarKeyPattern_def list_all_iff)
qed

lemma startsWith_split: "startsWith p s \<Longrightarrow> s = p @ drop (length p) s"
  by (metis append_take_drop_id startsWith_def)

lemma validAvatarKey_no_slash: "validAvatarKey key \<Longrightarrow> CHR ''/'' \<notin> set key \<and> key \<noteq> []"
proof -
  assume v: "validAvatarKey key"
  then have sw: "startsWith ''avatar-'' key" by (simp add: validAvatarKey_def avatarKeyPattern_def)
  have l: "length ''avatar-'' = 7" by simp
  have key: "key = ''avatar-'' @ drop 7 key"
    using startsWith_split [OF sw] unfolding l .
  have rest: "CHR ''/'' \<notin> set (drop 7 key)"
    using v by (auto simp: validAvatarKey_def avatarKeyPattern_def list_all_iff)
  have "CHR ''/'' \<notin> set (''avatar-'' @ drop 7 key)" using rest by simp
  moreover have "''avatar-'' @ drop 7 key \<noteq> []" by simp
  ultimately show ?thesis unfolding key [symmetric] by blast
qed

lemma keyOfUrl_avatarUrl:
  assumes "validAvatarKey key"
  shows "keyOfUrl (Some (avatarUrlOf key)) = Some key"
proof -
  note k = validAvatarKey_no_slash [OF assms]
  have "splitOn (CHR ''/'') (avatarUrlOf key) = ['''', ''api'', ''users'', ''avatar''] @ splitOn (CHR ''/'') key"
    using splitOn_nonempty [of "CHR ''/''" key] by (simp add: avatarUrlOf_def split: list.split)
  then show ?thesis using k by (simp add: keyOfUrl_def splitOn_fresh)
qed

text \<open>Avatars: the key of an upload, whatever the client called the file, is one the download
  accepts and is recovered from the stored URL; and the owner of an avatar can remove it exactly
  when its URL ends in such a key: an avatar that came from elsewhere (the OAuth profile picture)
  is answered "Invalid avatar key" and stays.\<close>

lemma avatar_key_round_trip:
  assumes "list_all uuidChar userId" and "list_all uuidChar uuid"
    and "user_findById userId None w = (Inr user, w)" and "keyOfUrl (pu_avatarUrl user) = Some key"
  shows "getAvatar fetch (avatarKey userId uuid name) = fetch (avatarKey userId uuid name) \<and>
     keyOfUrl (Some (avatarUrlOf (avatarKey userId uuid name))) = Some (avatarKey userId uuid name) \<and>
     removeAvatar del userId w = (if validAvatarKey key
       then andThen (setAvatarUrl userId None) (\<lambda>_. andThen (del key) (\<lambda>_. ret True)) w
       else (Inl (BadRequest ''Invalid avatar key''), w))"
  using avatarKey_valid [OF assms(1,2)] assms(3,4) keyOfUrl_avatarUrl
  by (auto simp: getAvatar_def throwIfBadRequest_def removeAvatar_def run_simps fun_eq_iff)

definition sampleUser :: "ident \<Rightarrow> string option \<Rightarrow> user_row" where
  "sampleUser i url = \<lparr>u_id = i, u_email = ''a@b'', u_username = ''ada'', u_firstName = None,
     u_lastName = None, u_avatarUrl = url, u_campus = None, u_status = ACTIVE, u_updatedAt = 0\<rparr>"

lemma avatar_key_round_trip_sample:
  "removeAvatar (\<lambda>_. ret ()) ''1f'' (emptyWorld\<lparr>users := [sampleUser ''1f'' (Some ''https://cdn/a.jpg'')]\<rparr>) =
     (Inl (BadRequest ''Invalid avatar key''),
      emptyWorld\<lparr>users := [sampleUser ''1f'' (Some ''https://cdn/a.jpg'')]\<rparr>)"
proof -
  let ?w = "emptyWorld\<lparr>users := [sampleUser ''1f'' (Some ''https://cdn/a.jpg'')]\<rparr>"
  have u: "list_all uuidChar ''1f''" by (simp add: uuidChar_def between_def)
  have f: "user_findById ''1f'' None ?w =
      (Inr (publicUser (sampleUser ''1f'' (Some ''https://cdn/a.jpg'')) (isUserOnline ?w ''1f'')), ?w)"
    by (simp add: user_findById_def run_simps sampleUser_def)
  have k: "keyOfUrl (pu_avatarUrl (publicUser (sampleUser ''1f'' (Some ''https://cdn/a.jpg''))
      (isUserOnline ?w ''1f''))) = Some ''a.jpg''"
    by (simp add: keyOfUrl_def publicUser_def sampleUser_def)
  have "\<not> validAvatarKey ''a.jpg''"
    by (simp add: validAvatarKey_def avatarKeyPattern_def startsWith_def)
  then show ?thesis using avatar_key_round_trip [OF u u f k, of "\<lambda>_. ret ()" "[]" "\<lambda>_. ret ()"] by simp
qed

section \<open>Presence\<close>

definition stanceIn :: "relationship_row list \<Rightarrow> ident \<Rightarrow> ident \<Rightarrow> relationship_status option" where
  "stanceIn rows a b = map_option ur_status
     (List.find (\<lambda>r. ur_requesterId r = a \<and> ur_addresseeId r = b) rows)"

definition relKey :: "relationship_row \<Rightarrow> ident \<times> ident" where
  "relKey r = (ur_requesterId r, ur_addresseeId r)"

lemma stanceIn_snoc:
  "distinct (map relKey (rows @ [r])) \<Longrightarrow> stanceIn (rows @ [r]) a b =
     (if relKey r = (a, b) then Some (ur_status r) else stanceIn rows a b)"
  by (auto simp: stanceIn_def find_append relKey_def find_None_iff_all image_iff split: option.split
      dest!: find_SomeD)

definition pairAt :: "(ident \<rightharpoonup> stance_pair) \<Rightarrow> ident \<Rightarrow> stance_pair" where
  "pairAt m i = (case m i of None \<Rightarrow> \<lparr>mine = None, theirs = None\<rparr> | Some e \<Rightarrow> e)"

definition involves :: "ident \<Rightarrow> relationship_row \<Rightarrow> bool" where
  "involves v r \<longleftrightarrow> (ur_requesterId r = v) \<noteq> (ur_addresseeId r = v)"

lemma pairAt_notePair:
  assumes "i \<noteq> v" and "involves v r"
  shows "pairAt (notePair v r m) i =
     (if relKey r = (v, i) then (pairAt m i)\<lparr>mine := Some (ur_status r)\<rparr>
      else if relKey r = (i, v) then (pairAt m i)\<lparr>theirs := Some (ur_status r)\<rparr> else pairAt m i)"
proof (cases "ur_requesterId r = v")
  case True
  then show ?thesis
    using assms by (simp add: involves_def pairAt_def notePair_def Let_def relKey_def)
next
  case False
  then show ?thesis
    using assms by (simp add: involves_def pairAt_def notePair_def Let_def relKey_def)
qed

lemma pairs_fold:
  assumes "distinct (map relKey rows)" and "i \<noteq> v"
    and "\<forall>r\<in>set rows. involves v r"
  shows "pairAt (fold (notePair v) rows Map.empty) i =
     \<lparr>mine = stanceIn rows v i, theirs = stanceIn rows i v\<rparr>"
  using assms(1,3)
proof (induction rows rule: rev_induct)
  case Nil
  then show ?case by (simp add: stanceIn_def pairAt_def)
next
  case (snoc r rows)
  have ih: "pairAt (fold (notePair v) rows Map.empty) i =
     \<lparr>mine = stanceIn rows v i, theirs = stanceIn rows i v\<rparr>"
    using snoc by simp
  have r: "involves v r" using snoc.prems by simp
  note st = stanceIn_snoc [OF snoc.prems(1)] and step = pairAt_notePair [OF assms(2) r]
  consider "relKey r = (v, i)" | "relKey r = (i, v)" | "relKey r \<noteq> (v, i)" "relKey r \<noteq> (i, v)" by blast
  then show ?case by cases (simp_all add: st step ih assms(2) assms(2) [symmetric])
qed

lemma pairAt_friends:
  "(case m i of None \<Rightarrow> False | Some e \<Rightarrow> mine e = Some ACCEPTED \<and> theirs e = Some ACCEPTED) \<longleftrightarrow>
   mine (pairAt m i) = Some ACCEPTED \<and> theirs (pairAt m i) = Some ACCEPTED"
  by (simp add: pairAt_def split: option.split)

text \<open>C15 Who sees whom: an account's email is handed out, and somebody is shown online in the presence
  list, only where both directed rows are really ACCEPTED, and a profile never shows online
  to somebody its owner has blocked; the list answers once for every requested id but the caller's.\<close>

theorem email_and_presence_need_mutual_acceptance:
  assumes "distinct (map relKey (relationships w))"
    and "\<forall>r\<in>set (relationships w). ur_requesterId r \<noteq> ur_addresseeId r"
  shows "(user_findEmail i v w = (Inr e, w) \<longleftrightarrow> stance w v i = Some ACCEPTED \<and> stance w i v = Some ACCEPTED \<and>
       map_option u_email (List.find (\<lambda>u. u_id u = i) (users w)) = Some e) \<and>
     getPresence ids v w = (Inr (map (\<lambda>i. (i, stance w v i = Some ACCEPTED \<and> stance w i v = Some ACCEPTED \<and>
       isUserOnline w i)) (filter (\<lambda>i. i \<noteq> v) (uniqueIds ids))), w) \<and>
     (user_findById i (Some v) w = (Inr p, w) \<longrightarrow> pu_online p \<longrightarrow> v \<noteq> i \<longrightarrow> stance w i v \<noteq> Some BLOCKED)"
proof (intro conjI)
  show "user_findEmail i v w = (Inr e, w) \<longleftrightarrow> stance w v i = Some ACCEPTED \<and> stance w i v = Some ACCEPTED \<and>
       map_option u_email (List.find (\<lambda>u. u_id u = i) (users w)) = Some e"
    by (auto simp: user_findEmail_def run_simps split: option.split)
next
  let ?ts = "filter (\<lambda>i. i \<noteq> v) (uniqueIds ids)"
  let ?P = "\<lambda>r. ur_requesterId r \<in> set ?ts \<and> ur_addresseeId r = v \<or>
    ur_requesterId r = v \<and> ur_addresseeId r \<in> set ?ts"
  let ?rows = "filter ?P (relationships w)"
  let ?pairs = "fold (notePair v) ?rows Map.empty"
  have pair: "(case ?pairs i of None \<Rightarrow> False | Some e \<Rightarrow> mine e = Some ACCEPTED \<and> theirs e = Some ACCEPTED) \<longleftrightarrow>
      stance w v i = Some ACCEPTED \<and> stance w i v = Some ACCEPTED" if i: "i \<in> set ?ts" for i
  proof -
    have "stanceIn ?rows v i = stance w v i" "stanceIn ?rows i v = stance w i v"
      using i by (simp_all add: stanceIn_def stance_def) (subst find_filter, auto)+
    moreover have "pairAt ?pairs i = \<lparr>mine = stanceIn ?rows v i, theirs = stanceIn ?rows i v\<rparr>"
      using assms i by (intro pairs_fold distinct_map_filterI) (auto simp: involves_def)
    ultimately show ?thesis by (simp add: pairAt_friends)
  qed
  show "getPresence ids v w = (Inr (map (\<lambda>i. (i, stance w v i = Some ACCEPTED \<and>
      stance w i v = Some ACCEPTED \<and> isUserOnline w i)) ?ts), w)"
  proof (cases "?ts = []")
    case False
    have "getPresence ids v w = (Inr (map (\<lambda>i. (i, (case ?pairs i of None \<Rightarrow> False
        | Some e \<Rightarrow> mine e = Some ACCEPTED \<and> theirs e = Some ACCEPTED) \<and> isUserOnline w i)) ?ts), w)"
      using False by (simp add: getPresence_def Let_def run_simps)
    then show ?thesis using pair by (simp cong: map_cong)
  qed (simp add: getPresence_def run_simps)
next
  show "user_findById i (Some v) w = (Inr p, w) \<longrightarrow> pu_online p \<longrightarrow> v \<noteq> i \<longrightarrow> stance w i v \<noteq> Some BLOCKED"
    by (auto simp: user_findById_def run_simps publicUser_def split: option.splits)
qed

definition onesidedWorld :: world where
  "onesidedWorld = emptyWorld\<lparr>relationships := [
     \<lparr>ur_requesterId = ''a'', ur_addresseeId = ''b'', ur_status = ACCEPTED\<rparr>,
     \<lparr>ur_requesterId = ''b'', ur_addresseeId = ''a'', ur_status = BLOCKED\<rparr>]\<rparr>"

theorem email_and_presence_need_mutual_acceptance_witness:
  "getPresence [''b'', ''a'', ''b''] ''a'' onesidedWorld = (Inr [(''b'', False)], onesidedWorld)"
proof -
  have "distinct (map relKey (relationships onesidedWorld))"
    "\<forall>r\<in>set (relationships onesidedWorld). ur_requesterId r \<noteq> ur_addresseeId r"
    by (simp_all add: onesidedWorld_def relKey_def)
  from email_and_presence_need_mutual_acceptance [OF this, of "''b''" "''a''" "[]" "[''b'', ''a'', ''b'']"]
  show ?thesis by (simp add: uniqueIds_def onesidedWorld_def stance_def)
qed

end
