(* ===== verification/Relationships.thy ===== *)
theory Relationships
  imports Users
begin

text \<open>
  \<open>UserRelationshipsService\<close> (\<open>backend/src/user-relationships/user-relationships.service.ts\<close>):
  friend requests, acceptance, blocks and removal over the two directed rows of a pair of users.
  The transactions are serializable; \<open>gap\<close> is what other requests do between the lookup of the
  addressee and the transaction. The pair automaton at the end is the abstract contract: what
  each operation does to the two stances, and the invariant that no stance but a block stands
  alone.
\<close>

section \<open>Operations\<close>

definition throwIfAllEqual :: "'a list \<Rightarrow> exn \<Rightarrow> unit service" where
  "throwIfAllEqual values e =
     (if length values > 1 \<and> list_all (\<lambda>x. x = hd values) values then throw e else ret ())"

definition bothIdsEqual :: exn where
  "bothIdsEqual = Forbidden ''requesterId and addresseeId are equal''"

definition existingRelation :: exn where
  "existingRelation = Forbidden ''relationship already exists''"

definition maskCounterpartBlocks :: "relationship_row list \<Rightarrow> ident \<Rightarrow> relationship_row list" where
  "maskCounterpartBlocks rows callerId = map (\<lambda>row.
     if ur_requesterId row \<noteq> callerId \<and> ur_status row = BLOCKED
     then row\<lparr>ur_status := ACCEPTED\<rparr> else row) rows"

definition rel_findAll :: "ident \<Rightarrow> relationship_row list service" where
  "rel_findAll userId =
     andThen (findMany relationships (\<lambda>r. ur_requesterId r = userId \<or> ur_addresseeId r = userId)) (\<lambda>rows.
     ret (maskCounterpartBlocks rows userId))"

definition rel_findById :: "ident \<Rightarrow> ident \<Rightarrow> relationship_row list service" where
  "rel_findById addresseeId requesterId =
     (if requesterId = addresseeId then ret []
      else andThen (findMany relationships (\<lambda>r.
             ur_requesterId r = requesterId \<and> ur_addresseeId r = addresseeId \<or>
             ur_requesterId r = addresseeId \<and> ur_addresseeId r = requesterId)) (\<lambda>rows.
           ret (maskCounterpartBlocks rows requesterId)))"

definition rowOf :: "ident \<Rightarrow> ident \<Rightarrow> relationship_row \<Rightarrow> bool" where
  "rowOf a b r \<longleftrightarrow> ur_requesterId r = a \<and> ur_addresseeId r = b"

text \<open>\<open>create\<close>: both ends are foreign keys (P2003) and the pair is unique (P2002).\<close>

definition createRelationship :: "ident \<Rightarrow> ident \<Rightarrow> relationship_status \<Rightarrow> relationship_row service" where
  "createRelationship a b st =
     andThen (gets (\<lambda>w. list_ex (\<lambda>u. u_id u = a) (users w) \<and> list_ex (\<lambda>u. u_id u = b) (users w))) (\<lambda>known.
     andThen (ensure known (PrismaError ''P2003'')) (\<lambda>_.
     insertUnique relationships relationships_update (rowOf a b)
       \<lparr>ur_requesterId = a, ur_addresseeId = b, ur_status = st\<rparr>))"

text \<open>The transaction of \<open>create\<close>; the result says whether the addressee has blocked the requester.\<close>

definition createTx :: "ident \<Rightarrow> ident \<Rightarrow> bool service" where
  "createTx addresseeId requesterId =
     andThen (findFirst relationships (rowOf requesterId addresseeId)) (\<lambda>fromRequester.
     andThen (ensure (map_option ur_status fromRequester \<noteq> Some BLOCKED) existingRelation) (\<lambda>_.
     andThen (findFirst relationships (rowOf addresseeId requesterId)) (\<lambda>fromAddressee.
     case map_option ur_status fromAddressee of
       Some ACCEPTED \<Rightarrow> throw existingRelation
     | Some BLOCKED \<Rightarrow> ret True
     | _ \<Rightarrow>
         andThen (whenever (fromRequester = None)
           (andThen (createRelationship requesterId addresseeId ACCEPTED) (\<lambda>_. ret ()))) (\<lambda>_.
         andThen (whenever (fromAddressee = None)
           (andThen (createRelationship addresseeId requesterId PENDING_APPROVAL) (\<lambda>_. ret ()))) (\<lambda>_.
         ret False)))))"

definition friendsLink :: "ident \<Rightarrow> string option" where
  "friendsLink i = Some (''/friends?userId='' @ i)"

definition announce :: "ident \<Rightarrow> ident \<Rightarrow> string \<Rightarrow> string \<Rightarrow> payload \<Rightarrow> unit service" where
  "announce addresseeId requesterId message event payload =
     catching
       (andThen (user_findById requesterId None) (\<lambda>requester.
        andThen (notification_create addresseeId (pu_username requester @ message) (friendsLink requesterId)) (\<lambda>_.
        emitToUser addresseeId event payload)))
       (\<lambda>_. ret ())"

definition rel_create :: "(world \<Rightarrow> world) \<Rightarrow> ident \<Rightarrow> ident \<Rightarrow> (ident \<times> ident) service" where
  "rel_create gap addresseeId requesterId =
     andThen (throwIfAllEqual [requesterId, addresseeId] bothIdsEqual) (\<lambda>_.
     andThen (user_findById addresseeId None) (\<lambda>_.
     andThen (modify gap) (\<lambda>_.
     andThen (transaction (createTx addresseeId requesterId)) (\<lambda>blocked.
     andThen (whenever (\<not> blocked)
       (announce addresseeId requesterId '' wants to be your friend!'' ''friends:request-received''
         (P_text requesterId))) (\<lambda>_.
     ret (requesterId, addresseeId))))))"

text \<open>The transaction of \<open>update\<close>; the result is the status it read, if any, and the row it wrote.\<close>

definition updateTx ::
  "ident \<Rightarrow> relationship_status \<Rightarrow> ident \<Rightarrow> (relationship_status option \<times> relationship_row) service" where
  "updateTx addresseeId status requesterId =
     andThen (findFirst relationships (rowOf requesterId addresseeId)) (\<lambda>current.
     case current of
       None \<Rightarrow>
         if status = BLOCKED
         then andThen (createRelationship requesterId addresseeId status) (\<lambda>r. ret (None, r))
         else throw (NotFound ''unknown user'')
     | Some currentRelationship \<Rightarrow>
         let currentStatus = ur_status currentRelationship in
         andThen (throwIfAllEqual [status, currentStatus]
           (Forbidden ''relationship already has this status'')) (\<lambda>_.
         andThen (ensure (\<not> (currentStatus \<noteq> PENDING_APPROVAL \<and> status = PENDING_APPROVAL))
           (Forbidden ''Invalid status sequence'')) (\<lambda>_.
         andThen (findFirst relationships (rowOf addresseeId requesterId)) (\<lambda>counterpart.
         if currentStatus = BLOCKED \<and> status \<noteq> BLOCKED \<and>
            (map_option ur_status counterpart = None \<or> map_option ur_status counterpart = Some BLOCKED)
         then andThen (deleteOne relationships relationships_update (rowOf requesterId addresseeId))
                (\<lambda>r. ret (Some currentStatus, r))
         else andThen (updateOne relationships relationships_update (rowOf requesterId addresseeId)
                (\<lambda>r. r\<lparr>ur_status := status\<rparr>)) (\<lambda>r. ret (Some currentStatus, r))))))"

definition rel_update ::
  "ident \<Rightarrow> relationship_status \<Rightarrow> ident \<Rightarrow> relationship_row service" where
  "rel_update addresseeId status requesterId =
     andThen (throwIfAllEqual [requesterId, addresseeId] bothIdsEqual) (\<lambda>_.
     andThen (transaction (updateTx addresseeId status requesterId)) (\<lambda>(currentStatus, updated).
     andThen (whenever (currentStatus = Some PENDING_APPROVAL \<and> status = ACCEPTED)
       (announce addresseeId requesterId '' is now your friend!'' ''friends:request-accepted''
         (P_relationship updated))) (\<lambda>_.
     ret updated)))"

definition rel_remove :: "ident \<Rightarrow> ident \<Rightarrow> unit service" where
  "rel_remove addresseeId requesterId =
     andThen (throwIfAllEqual [requesterId, addresseeId] bothIdsEqual) (\<lambda>_.
     transaction (
       andThen (deleteMany relationships_update
         (\<lambda>r. rowOf requesterId addresseeId r \<and> ur_status r \<noteq> BLOCKED)) (\<lambda>_.
       deleteMany relationships_update
         (\<lambda>r. rowOf addresseeId requesterId r \<and> ur_status r \<noteq> BLOCKED))))"

section \<open>The pair automaton\<close>

text \<open>
  The two stances of a pair, the caller's first. \<open>Refused\<close> is an error answer.
\<close>

type_synonym stances = "relationship_status option \<times> relationship_status option"

fun requestFriend :: "stances \<Rightarrow> stances option" where
  "requestFriend (m, t) =
     (if m = Some BLOCKED \<or> t = Some ACCEPTED then None
      else if t = Some BLOCKED then Some (m, t)
      else Some (if m = None then Some ACCEPTED else m,
                 if t = None then Some PENDING_APPROVAL else t))"

fun setStance :: "relationship_status \<Rightarrow> stances \<Rightarrow> stances option" where
  "setStance st (None, t) = (if st = BLOCKED then Some (Some BLOCKED, t) else None)"
| "setStance st (Some c, t) =
     (if st = c \<or> st = PENDING_APPROVAL then None
      else if c = BLOCKED \<and> (t = None \<or> t = Some BLOCKED) then Some (None, t)
      else Some (Some st, t))"

definition dropStances :: "stances \<Rightarrow> stances" where
  "dropStances s = (let keep = (\<lambda>x. if x = Some BLOCKED then x else None) in (keep (fst s), keep (snd s)))"

definition soundPair :: "stances \<Rightarrow> bool" where
  "soundPair s \<longleftrightarrow> (\<forall>m t. s = (m, t) \<or> s = (t, m) \<longrightarrow>
     (m = Some PENDING_APPROVAL \<longrightarrow> t = Some ACCEPTED \<or> t = Some BLOCKED) \<and>
     (m = Some ACCEPTED \<longrightarrow> t \<noteq> None))"

section \<open>What a write does to the stances\<close>

lemma stance_stanceIn: "stance w a b = stanceIn (relationships w) a b"
  by (simp add: stance_def stanceIn_def)

lemma find_rowOf: "map_option ur_status (List.find (rowOf a b) rows) = stanceIn rows a b"
  by (simp add: stanceIn_def rowOf_def [abs_def])

lemma find_rowOf_None: "List.find (rowOf a b) rows = None \<longleftrightarrow> stanceIn rows a b = None"
  by (simp add: stanceIn_def rowOf_def [abs_def])

lemma stance_find: "stance w a b = map_option ur_status (List.find (rowOf a b) (relationships w))"
  by (simp add: stance_stanceIn find_rowOf)

lemma stanceIn_Cons:
  "stanceIn (r # rows) a b = (if rowOf a b r then Some (ur_status r) else stanceIn rows a b)"
  by (simp add: stanceIn_def rowOf_def)

lemma stanceIn_None_iff: "stanceIn rows a b = None \<longleftrightarrow> (a, b) \<notin> relKey ` set rows"
  by (induction rows) (auto simp: stanceIn_Cons rowOf_def relKey_def stanceIn_def)

lemma stanceIn_insert:
  "stanceIn rows a b = None \<Longrightarrow>
   stanceIn (rows @ [\<lparr>ur_requesterId = a, ur_addresseeId = b, ur_status = st\<rparr>]) x y =
     (if (x, y) = (a, b) then Some st else stanceIn rows x y)"
  by (induction rows) (auto simp: stanceIn_Cons rowOf_def stanceIn_def split: if_splits)

lemma stanceIn_update:
  "stanceIn (map (\<lambda>r. if rowOf a b r then r\<lparr>ur_status := st\<rparr> else r) rows) x y =
     (if (x, y) = (a, b) then map_option (\<lambda>_. st) (stanceIn rows a b) else stanceIn rows x y)"
  by (induction rows) (auto simp: stanceIn_Cons rowOf_def stanceIn_def)

lemma stanceIn_delete:
  "stanceIn (filter (\<lambda>r. \<not> rowOf a b r) rows) x y =
     (if (x, y) = (a, b) then None else stanceIn rows x y)"
  by (induction rows) (auto simp: stanceIn_Cons rowOf_def stanceIn_def)

lemma stanceIn_delete_unless_blocked:
  "distinct (map relKey rows) \<Longrightarrow>
   stanceIn (filter (\<lambda>r. \<not> (rowOf a b r \<and> ur_status r \<noteq> BLOCKED)) rows) x y =
     (if (x, y) = (a, b) then (if stanceIn rows a b = Some BLOCKED then Some BLOCKED else None)
      else stanceIn rows x y)"
proof (induction rows)
  case (Cons r rows)
  have "stanceIn rows a b = None" if "rowOf a b r"
    using that Cons.prems by (auto simp: stanceIn_None_iff rowOf_def relKey_def)
  with Cons show ?case by (auto simp: stanceIn_Cons) (auto simp: rowOf_def)
qed (simp add: stanceIn_def)

text \<open>The table: one row per ordered pair, nobody towards themselves.\<close>

definition relTable :: "relationship_row list \<Rightarrow> bool" where
  "relTable rows \<longleftrightarrow> distinct (map relKey rows) \<and> (\<forall>r\<in>set rows. ur_requesterId r \<noteq> ur_addresseeId r)"

lemma relTable_insert:
  "relTable rows \<Longrightarrow> a \<noteq> b \<Longrightarrow> stanceIn rows a b = None \<Longrightarrow>
   relTable (rows @ [\<lparr>ur_requesterId = a, ur_addresseeId = b, ur_status = st\<rparr>])"
  by (auto simp: relTable_def stanceIn_None_iff relKey_def)

lemma relTable_update:
  assumes "relTable rows"
  shows "relTable (map (\<lambda>r. if P r then r\<lparr>ur_status := st\<rparr> else r) rows)"
proof -
  have "map relKey (map (\<lambda>r. if P r then r\<lparr>ur_status := st\<rparr> else r) rows) = map relKey rows"
    by (rule map_key_update) (simp add: relKey_def)
  then show ?thesis using assms unfolding relTable_def by (simp del: map_map) auto
qed

lemma relTable_filter: "relTable rows \<Longrightarrow> relTable (filter P rows)"
  by (auto simp: relTable_def intro: distinct_map_filterI)

definition stances :: "world \<Rightarrow> ident \<Rightarrow> ident \<Rightarrow> stances" where
  "stances w a b = (stance w a b, stance w b a)"

definition changesOnly :: "ident \<Rightarrow> ident \<Rightarrow> world \<Rightarrow> world \<Rightarrow> bool" where
  "changesOnly a b w w' \<longleftrightarrow>
     (\<forall>x y. (x, y) \<noteq> (a, b) \<longrightarrow> (x, y) \<noteq> (b, a) \<longrightarrow> stance w' x y = stance w x y)"

definition stepTo :: "ident \<Rightarrow> ident \<Rightarrow> world \<Rightarrow> world \<Rightarrow> stances \<Rightarrow> bool" where
  "stepTo a b w w' s \<longleftrightarrow> stances w' a b = s \<and> changesOnly a b w w' \<and> relTable (relationships w')"

lemma stepTo_same: "relTable (relationships w) \<Longrightarrow> stepTo a b w w (stances w a b)"
  by (simp add: stepTo_def changesOnly_def)

definition registered :: "world \<Rightarrow> ident \<Rightarrow> bool" where
  "registered w i = list_ex (\<lambda>u. u_id u = i) (users w)"

lemma createRelationship_run:
  "createRelationship a b st w =
     (if \<not> (registered w a \<and> registered w b) then (Inl (PrismaError ''P2003''), w)
      else if stance w a b \<noteq> None then (Inl (PrismaError ''P2002''), w)
      else (Inr \<lparr>ur_requesterId = a, ur_addresseeId = b, ur_status = st\<rparr>,
            w\<lparr>relationships := relationships w @ [\<lparr>ur_requesterId = a, ur_addresseeId = b, ur_status = st\<rparr>]\<rparr>))"
proof -
  have "list_ex (rowOf a b) (relationships w) \<longleftrightarrow> stance w a b \<noteq> None"
    unfolding stance_stanceIn find_rowOf_None [symmetric] by (simp add: find_None_iff_all list_ex_iff)
  then show ?thesis by (auto simp: createRelationship_def run_simps registered_def)
qed

lemma stance_insert:
  "stance w a b = None \<Longrightarrow>
   stance (w\<lparr>relationships := relationships w @ [\<lparr>ur_requesterId = a, ur_addresseeId = b, ur_status = st\<rparr>]\<rparr>) x y =
     (if (x, y) = (a, b) then Some st else stance w x y)"
  by (simp add: stance_stanceIn stanceIn_insert)

lemma createRelationship_step:
  assumes "createRelationship a b st w = (Inr r, w')" and "a \<noteq> b" and "relTable (relationships w)"
  shows "stance w' = (\<lambda>x y. if (x, y) = (a, b) then Some st else stance w x y) \<and> relTable (relationships w') \<and>
    users w' = users w"
proof -
  have n: "stance w a b = None" and
    w': "w' = w\<lparr>relationships := relationships w @ [\<lparr>ur_requesterId = a, ur_addresseeId = b, ur_status = st\<rparr>]\<rparr>"
    using assms(1) by (auto simp: createRelationship_run split: if_splits)
  show ?thesis
    using n relTable_insert [OF assms(3,2)] by (simp add: w' stance_insert fun_eq_iff) (simp add: stance_stanceIn)
qed

section \<open>Refinement\<close>

lemma createTx_run:
  "createTx b a w =
     (if stance w a b = Some BLOCKED \<or> stance w b a = Some ACCEPTED then (Inl existingRelation, w)
      else if stance w b a = Some BLOCKED then (Inr True, w)
      else andThen (whenever (stance w a b = None)
              (andThen (createRelationship a b ACCEPTED) (\<lambda>_. ret ()))) (\<lambda>_.
           andThen (whenever (stance w b a = None)
              (andThen (createRelationship b a PENDING_APPROVAL) (\<lambda>_. ret ()))) (\<lambda>_. ret False)) w)"
  by (cases "List.find (rowOf a b) (relationships w)"; cases "List.find (rowOf b a) (relationships w)")
    (simp_all add: createTx_def andThen_run ensure_run prisma_run(1) throw_run ret_run stance_find
      split: relationship_status.split)

lemma createTx_step:
  assumes "createTx b a w = (Inr blocked, w')" and "a \<noteq> b" and "relTable (relationships w)"
  shows "\<exists>s. requestFriend (stances w a b) = Some s \<and> stepTo a b w w' s \<and> users w' = users w"
proof (cases "stance w b a = Some BLOCKED")
  case True
  then show ?thesis
    using assms stepTo_same [OF assms(3), of a b]
    by (auto simp: createTx_run stances_def split: if_splits)
next
  case False
  then have ok: "stance w a b \<noteq> Some BLOCKED" "stance w b a \<noteq> Some ACCEPTED"
    and run: "andThen (whenever (stance w a b = None)
              (andThen (createRelationship a b ACCEPTED) (\<lambda>_. ret ()))) (\<lambda>_.
           andThen (whenever (stance w b a = None)
              (andThen (createRelationship b a PENDING_APPROVAL) (\<lambda>_. ret ()))) (\<lambda>_. ret False)) w = (Inr blocked, w')"
    using assms(1) by (auto simp: createTx_run split: if_splits)
  then obtain v where v: "whenever (stance w a b = None)
        (andThen (createRelationship a b ACCEPTED) (\<lambda>_. ret ())) w = (Inr (), v)"
    and w': "whenever (stance w b a = None)
        (andThen (createRelationship b a PENDING_APPROVAL) (\<lambda>_. ret ())) v = (Inr (), w')"
    by (auto simp: success_iffs)
  have sv: "stance v = (\<lambda>x y. if (x, y) = (a, b) \<and> stance w a b = None then Some ACCEPTED else stance w x y) \<and>
      relTable (relationships v) \<and> users v = users w"
    using v createRelationship_step [of a b ACCEPTED w, OF _ assms(2,3)] assms(3)
    by (cases "stance w a b = None") (auto simp: whenever_run success_iffs fun_eq_iff)
  then have sw: "stance w' = (\<lambda>x y. if (x, y) = (b, a) \<and> stance w b a = None then Some PENDING_APPROVAL else stance v x y) \<and>
      relTable (relationships w') \<and> users w' = users v"
    using w' createRelationship_step [of b a PENDING_APPROVAL v] assms(2)
    by (cases "stance w b a = None") (auto simp: whenever_run success_iffs fun_eq_iff)
  then show ?thesis
    using sv ok False assms(2) by (simp add: stances_def stepTo_def changesOnly_def)
qed

lemma createTx_error:
  assumes "createTx b a w = (Inl e, w')" and "registered w a" and "registered w b" and "a \<noteq> b"
  shows "requestFriend (stances w a b) = None \<and> e = existingRelation"
proof -
  have reg: "registered (w\<lparr>relationships := rs\<rparr>) i = registered w i" for rs i by (simp add: registered_def)
  show ?thesis
    using assms
    by (auto simp: createTx_run stances_def andThen_run whenever_run createRelationship_run ret_run reg stance_insert
        split: if_splits)
qed

lemma throwIfAllEqual_pair: "throwIfAllEqual [x, y] e w = (if x = y then (Inl e, w) else (Inr (), w))"
  by (auto simp: throwIfAllEqual_def run_simps)

lemma updateTx_run:
  "updateTx b st a w =
     (case stance w a b of
        None \<Rightarrow> if st = BLOCKED
          then andThen (createRelationship a b st) (\<lambda>r. ret (None, r)) w
          else (Inl (NotFound ''unknown user''), w)
      | Some c \<Rightarrow>
          if st = c then (Inl (Forbidden ''relationship already has this status''), w)
          else if st = PENDING_APPROVAL then (Inl (Forbidden ''Invalid status sequence''), w)
          else if c = BLOCKED \<and> (stance w b a = None \<or> stance w b a = Some BLOCKED)
          then andThen (deleteOne relationships relationships_update (rowOf a b)) (\<lambda>r. ret (Some c, r)) w
          else andThen (updateOne relationships relationships_update (rowOf a b)
                 (\<lambda>r. r\<lparr>ur_status := st\<rparr>)) (\<lambda>r. ret (Some c, r)) w)"
  by (cases "List.find (rowOf a b) (relationships w)")
    (auto simp: updateTx_def andThen_run ensure_run prisma_run(1) throw_run Let_def throwIfAllEqual_pair
      stance_find)

lemma updateTx_step:
  assumes "updateTx b st a w = (Inr (c, r), w')" and "a \<noteq> b" and "relTable (relationships w)"
  shows "c = stance w a b \<and> (\<exists>s. setStance st (stances w a b) = Some s \<and> stepTo a b w w' s)"
proof (cases "stance w a b")
  case None
  then have st: "st = BLOCKED" "c = None" and c: "createRelationship a b BLOCKED w = (Inr r, w')"
    using assms(1) by (auto simp: updateTx_run success_iffs split: if_splits)
  show ?thesis
    using createRelationship_step [OF c assms(2,3)] None st assms(2)
    by (simp add: stances_def stepTo_def changesOnly_def)
next
  case (Some k)
  show ?thesis
  proof (cases "k = BLOCKED \<and> (stance w b a = None \<or> stance w b a = Some BLOCKED)")
    case True
    then have st: "st \<noteq> k" "st \<noteq> PENDING_APPROVAL" "c = Some k"
      and d: "deleteOne relationships relationships_update (rowOf a b) w = (Inr r, w')"
      using assms(1) Some by (auto simp: updateTx_run success_iffs split: if_splits)
    have w': "w' = w\<lparr>relationships := filter (\<lambda>r. \<not> rowOf a b r) (relationships w)\<rparr>"
      using d by (simp add: prisma_Inr)
    have "stance w' x y = (if (x, y) = (a, b) then None else stance w x y)" for x y
      by (simp add: w' stance_stanceIn stanceIn_delete)
    then show ?thesis
      using True st Some assms(2) relTable_filter [OF assms(3)]
      by (simp add: stances_def stepTo_def changesOnly_def w')
  next
    case False
    then have st: "st \<noteq> k" "st \<noteq> PENDING_APPROVAL" "c = Some k"
      and d: "updateOne relationships relationships_update (rowOf a b) (\<lambda>r. r\<lparr>ur_status := st\<rparr>) w = (Inr r, w')"
      using assms(1) Some by (auto simp: updateTx_run success_iffs split: if_splits)
    have w': "w' = w\<lparr>relationships :=
        map (\<lambda>r. if rowOf a b r then r\<lparr>ur_status := st\<rparr> else r) (relationships w)\<rparr>"
      using d by (auto simp: prisma_Inr)
    have "stance w' x y = (if (x, y) = (a, b) then Some st else stance w x y)" for x y
      using Some by (simp add: w' stance_stanceIn stanceIn_update)
    then show ?thesis
      using False st Some assms(2) relTable_update [OF assms(3)]
      by (auto simp: stances_def stepTo_def changesOnly_def w')
  qed
qed

lemma updateTx_error:
  assumes "updateTx b st a w = (Inl e, w')" and "registered w a" and "registered w b" and "a \<noteq> b"
  shows "setStance st (stances w a b) = None"
proof (cases "stance w a b")
  case None
  then show ?thesis
    using assms by (auto simp: updateTx_run stances_def createRelationship_run run_simps split: if_splits)
next
  case (Some c)
  then obtain r where "List.find (rowOf a b) (relationships w) = Some r" by (auto simp: stance_find)
  with Some show ?thesis
    using assms by (auto simp: updateTx_run stances_def run_simps split: if_splits)
qed

lemma quiet_relationships: "quiet (\<lambda>x. relationships x = rs \<and> users x = us)"
  by (rule quietI) simp_all

lemma announce_runs: "\<exists>v. announce b a m ev pl w = (Inr (), v) \<and> relationships v = relationships w \<and> users v = users w"
proof -
  have "keeps (\<lambda>x. relationships x = relationships w \<and> users x = users w) (user_findById a None)"
    unfolding user_findById_def by (intro keeps_rules)
  then have k: "keeps (\<lambda>x. relationships x = relationships w \<and> users x = users w) (announce b a m ev pl)"
    unfolding announce_def by (intro keeps_rules quiet_keeps [OF quiet_relationships])
  obtain r v where r: "announce b a m ev pl w = (r, v)" by force
  then have "r = Inr ()" by (auto simp: announce_def catching_run ret_run split: prod.splits sum.splits)
  then show ?thesis using r keeps_run [OF k _ r] by simp
qed

lemma stance_cong: "relationships v = relationships w \<Longrightarrow> stance v = stance w"
  by (simp add: stance_def fun_eq_iff)

lemma stepTo_cong:
  "stepTo a b w v s \<Longrightarrow> relationships v' = relationships v \<Longrightarrow> stepTo a b w v' s"
  by (simp add: stepTo_def stances_def changesOnly_def stance_cong [of v' v])

lemma rel_create_run:
  assumes "a \<noteq> b"
  shows "rel_create gap b a w = (case user_findById b None w of (Inl e, t) \<Rightarrow> (Inl e, t)
     | (Inr _, t) \<Rightarrow> (case createTx b a (gap t) of (Inl e, _) \<Rightarrow> (Inl e, gap t)
         | (Inr blocked, v) \<Rightarrow> andThen (whenever (\<not> blocked)
             (announce b a '' wants to be your friend!'' ''friends:request-received'' (P_text a)))
             (\<lambda>_. ret (a, b)) v))"
  using assms by (simp add: rel_create_def andThen_run throwIfAllEqual_pair modify_run transaction_run
      split: prod.split sum.split)

lemma user_findById_state: "snd (user_findById i v w) = w"
  by (auto simp: user_findById_def run_simps split: option.split)

lemma whenever_announce: "\<exists>v. whenever c (announce b a m ev pl) w = (Inr (), v) \<and> relationships v = relationships w"
  using announce_runs [of b a m ev pl w] by (auto simp: whenever_run)

lemma rel_create_cases:
  assumes "a \<noteq> b" and "rel_create gap b a w = (r, w')" and "relTable (relationships (gap w))"
  shows "(\<exists>e. r = Inl e \<and> w' = w \<and> fst (user_findById b None w) = Inl e) \<or>
     (\<exists>e. r = Inl e \<and> w' = gap w \<and> (registered (gap w) a \<longrightarrow> registered (gap w) b \<longrightarrow>
        requestFriend (stances (gap w) a b) = None \<and> e = existingRelation)) \<or>
     (r = Inr (a, b) \<and> (\<exists>s. requestFriend (stances (gap w) a b) = Some s \<and> stepTo a b (gap w) w' s))"
proof (cases "user_findById b None w")
  case (Pair f t)
  then have t: "t = w" using user_findById_state [of b None w] by simp
  show ?thesis
  proof (cases f)
    case (Inl e)
    then show ?thesis using assms(2) Pair t by (auto simp: rel_create_run [OF assms(1)])
  next
    case (Inr u)
    show ?thesis
    proof (cases "createTx b a (gap w)")
      case tx: (Pair g v)
      show ?thesis
      proof (cases g)
        case (Inl e)
        then show ?thesis
          using assms(2) Pair t \<open>f = Inr u\<close> tx createTx_error [of b a "gap w" e v] assms(1)
          by (simp add: rel_create_run [OF assms(1)]) blast
      next
        case g: (Inr blocked)
        obtain s where s: "requestFriend (stances (gap w) a b) = Some s" "stepTo a b (gap w) v s"
          using createTx_step [OF _ assms(1,3), of blocked v] tx g by blast
        obtain v' where v': "whenever (\<not> blocked)
             (announce b a '' wants to be your friend!'' ''friends:request-received'' (P_text a)) v = (Inr (), v')"
            "relationships v' = relationships v"
          using whenever_announce by blast
        then have "r = Inr (a, b)" "w' = v'"
          using assms(2) Pair t \<open>f = Inr u\<close> tx g by (simp_all add: rel_create_run [OF assms(1)] andThen_run ret_run)
        then show ?thesis using s stepTo_cong [OF s(2) v'(2)] by blast
      qed
    qed
  qed
qed

lemma rel_update_cases:
  assumes "a \<noteq> b" and "rel_update b st a w = (r, w')" and "relTable (relationships w)"
  shows "(\<exists>e. r = Inl e \<and> w' = w \<and> (registered w a \<longrightarrow> registered w b \<longrightarrow> setStance st (stances w a b) = None)) \<or>
     (\<exists>row s. r = Inr row \<and> setStance st (stances w a b) = Some s \<and> stepTo a b w w' s)"
proof (cases "updateTx b st a w")
  case (Pair f v)
  show ?thesis
  proof (cases f)
    case (Inl e)
    then show ?thesis
      using assms(1,2) Pair updateTx_error [of b st a w e v]
      by (simp add: rel_update_def andThen_run throwIfAllEqual_pair transaction_run) blast
  next
    case (Inr cr)
    obtain c row where cr: "cr = (c, row)" by (cases cr)
    obtain s where s: "setStance st (stances w a b) = Some s" "stepTo a b w v s"
      using updateTx_step [OF _ assms(1,3), of st c row v] Pair Inr cr by blast
    obtain v' where v': "whenever (c = Some PENDING_APPROVAL \<and> st = ACCEPTED)
        (announce b a '' is now your friend!'' ''friends:request-accepted'' (P_relationship row)) v = (Inr (), v')"
        "relationships v' = relationships v"
      using whenever_announce by blast
    then have "r = Inr row" "w' = v'"
      using assms(1,2) Pair Inr cr
      by (simp_all add: rel_update_def andThen_run throwIfAllEqual_pair transaction_run ret_run)
    then show ?thesis using s stepTo_cong [OF s(2) v'(2)] by blast
  qed
qed

lemma rel_remove_step:
  assumes "a \<noteq> b" and "relTable (relationships w)"
  shows "\<exists>w'. rel_remove b a w = (Inr (), w') \<and> stepTo a b w w' (dropStances (stances w a b))"
proof -
  let ?f = "\<lambda>x y. filter (\<lambda>r. \<not> (rowOf x y r \<and> ur_status r \<noteq> BLOCKED))"
  let ?w = "w\<lparr>relationships := ?f b a (?f a b (relationships w))\<rparr>"
  have run: "rel_remove b a w = (Inr (), ?w)"
    using assms(1) by (simp add: rel_remove_def andThen_run throwIfAllEqual_pair transaction_run prisma_run)
  have d: "distinct (map relKey (relationships w))" using assms(2) by (simp add: relTable_def)
  have d': "distinct (map relKey (?f a b (relationships w)))" using d by (rule distinct_map_filterI)
  have "stance ?w x y = (if (x, y) = (b, a) then (if stance w b a = Some BLOCKED then Some BLOCKED else None)
      else if (x, y) = (a, b) then (if stance w a b = Some BLOCKED then Some BLOCKED else None)
      else stance w x y)" for x y
    using stanceIn_delete_unless_blocked [OF d', of b a x y] stanceIn_delete_unless_blocked [OF d, of a b x y]
      stanceIn_delete_unless_blocked [OF d, of a b b a] assms(1)
    by (auto simp: stance_stanceIn)
  then have "stepTo a b w ?w (dropStances (stances w a b))"
    using relTable_filter [OF relTable_filter [OF assms(2)]] assms(1)
    by (auto simp: stepTo_def stances_def changesOnly_def dropStances_def Let_def)
  with run show ?thesis by blast
qed

section \<open>Properties\<close>

lemma relationships_refine:
  assumes "a \<noteq> b" and "relTable (relationships w)" and "relTable (relationships (gap w))"
    and "registered w a" and "registered w b" and "registered (gap w) a" and "registered (gap w) b"
    and "\<exists>u\<in>set (users w). u_id u = b \<and> u_status u = ACTIVE"
  shows "case requestFriend (stances (gap w) a b) of
       None \<Rightarrow> rel_create gap b a w = (Inl existingRelation, gap w)
     | Some s \<Rightarrow> \<exists>w'. rel_create gap b a w = (Inr (a, b), w') \<and> stepTo a b (gap w) w' s"
proof -
  have "List.find (\<lambda>u. u_id u = b \<and> u_status u = ACTIVE) (users w) \<noteq> None"
    using assms(8) by (auto simp: find_None_iff_all)
  then have active: "fst (user_findById b None w) \<noteq> Inl e" for e
    by (auto simp: user_findById_def run_simps)
  obtain r w' where r: "rel_create gap b a w = (r, w')" by force
  show ?thesis
    using rel_create_cases [OF assms(1) r assms(3)] assms(6,7) active r by (auto split: option.split)
qed

text \<open>C16 Friendships follow the pair automaton: for two registered users a friend request, a change
  of one's own stance and a removal are refused exactly where the automaton has no step, and
  otherwise take the pair's two stances along that step, leaving every other pair as it was; a
  failed notification never turns a committed step into an error.\<close>

theorem relationships_refine_pair_automaton:
  assumes "a \<noteq> b" and "relTable (relationships w)" and "relTable (relationships (gap w))"
    and "registered w a" and "registered w b" and "registered (gap w) a" and "registered (gap w) b"
    and "\<exists>u\<in>set (users w). u_id u = b \<and> u_status u = ACTIVE"
  shows "(case requestFriend (stances (gap w) a b) of
       None \<Rightarrow> rel_create gap b a w = (Inl existingRelation, gap w)
     | Some s \<Rightarrow> \<exists>w'. rel_create gap b a w = (Inr (a, b), w') \<and> stepTo a b (gap w) w' s) \<and>
     (case setStance st (stances w a b) of
       None \<Rightarrow> \<exists>e. rel_update b st a w = (Inl e, w)
     | Some s \<Rightarrow> \<exists>row w'. rel_update b st a w = (Inr row, w') \<and> stepTo a b w w' s) \<and>
     (\<exists>w'. rel_remove b a w = (Inr (), w') \<and> stepTo a b w w' (dropStances (stances w a b)))"
proof (intro conjI)
  show "case requestFriend (stances (gap w) a b) of
       None \<Rightarrow> rel_create gap b a w = (Inl existingRelation, gap w)
     | Some s \<Rightarrow> \<exists>w'. rel_create gap b a w = (Inr (a, b), w') \<and> stepTo a b (gap w) w' s"
    by (rule relationships_refine [where w = w and gap = gap, OF assms])
  obtain q v where q: "rel_update b st a w = (q, v)" by force
  show "case setStance st (stances w a b) of
       None \<Rightarrow> \<exists>e. rel_update b st a w = (Inl e, w)
     | Some s \<Rightarrow> \<exists>row w'. rel_update b st a w = (Inr row, w') \<and> stepTo a b w w' s"
    using rel_update_cases [OF assms(1) q assms(2)] assms(4,5) q by (auto split: option.split)
  show "\<exists>w'. rel_remove b a w = (Inr (), w') \<and> stepTo a b w w' (dropStances (stances w a b))"
    by (rule rel_remove_step [OF assms(1,2)])
qed

definition friendsWorld :: "relationship_status \<Rightarrow> world" where
  "friendsWorld st = emptyWorld\<lparr>users := [sampleUser ''a'' None, sampleUser ''b'' None],
     relationships := [\<lparr>ur_requesterId = ''a'', ur_addresseeId = ''b'', ur_status = ACCEPTED\<rparr>,
       \<lparr>ur_requesterId = ''b'', ur_addresseeId = ''a'', ur_status = st\<rparr>]\<rparr>"

lemma friendsWorld_facts:
  "relTable (relationships (friendsWorld st))" "registered (friendsWorld st) ''a''"
  "registered (friendsWorld st) ''b''" "stances (friendsWorld st) ''a'' ''b'' = (Some ACCEPTED, Some st)"
  "\<exists>u\<in>set (users (friendsWorld st)). u_id u = ''b'' \<and> u_status u = ACTIVE"
  by (simp_all add: friendsWorld_def relTable_def relKey_def registered_def sampleUser_def stances_def stance_def)

theorem relationships_refine_pair_automaton_witness:
  "rel_create (\<lambda>w. w) ''b'' ''a'' (friendsWorld ACCEPTED) = (Inl existingRelation, friendsWorld ACCEPTED)"
  using relationships_refine_pair_automaton [of "''a''" "''b''" "friendsWorld ACCEPTED" "\<lambda>w. w" PENDING_APPROVAL]
    friendsWorld_facts [of ACCEPTED] by simp

definition relSound :: "world \<Rightarrow> bool" where
  "relSound w \<longleftrightarrow> relTable (relationships w) \<and> (\<forall>a b. a \<noteq> b \<longrightarrow> soundPair (stances w a b))"

lemma soundPair_iff:
  "soundPair (m, t) \<longleftrightarrow>
     (m = Some PENDING_APPROVAL \<longrightarrow> t = Some ACCEPTED \<or> t = Some BLOCKED) \<and>
     (t = Some PENDING_APPROVAL \<longrightarrow> m = Some ACCEPTED \<or> m = Some BLOCKED) \<and>
     (m = Some ACCEPTED \<longrightarrow> t \<noteq> None) \<and> (t = Some ACCEPTED \<longrightarrow> m \<noteq> None)"
  by (auto simp: soundPair_def)

lemma soundPair_swap: "soundPair (m, t) \<longleftrightarrow> soundPair (t, m)"
  by (auto simp: soundPair_iff)

lemma automaton_sound:
  "soundPair s \<Longrightarrow> requestFriend s = Some s' \<Longrightarrow> soundPair s'"
  "soundPair s \<Longrightarrow> setStance st s = Some s' \<Longrightarrow> soundPair s'"
  "soundPair s \<Longrightarrow> soundPair (dropStances s)"
proof -
  obtain m t where s: "s = (m, t)" by (cases s)
  note cs = relationship_status.exhaust
  show "soundPair s \<Longrightarrow> requestFriend s = Some s' \<Longrightarrow> soundPair s'"
    unfolding s by (auto simp: soundPair_iff split: if_splits) (metis cs)+
  show "soundPair s \<Longrightarrow> setStance st s = Some s' \<Longrightarrow> soundPair s'"
    unfolding s by (cases m; cases st) (auto simp: soundPair_iff split: if_splits, (metis cs)+)
  show "soundPair s \<Longrightarrow> soundPair (dropStances s)"
    unfolding s by (auto simp: soundPair_iff dropStances_def Let_def)
qed

lemma stepTo_sound:
  assumes "relSound w" and "stepTo a b w w' s" and "soundPair s"
  shows "relSound w'"
proof -
  have "soundPair (stances w' x y)" if "x \<noteq> y" for x y
  proof -
    consider "x = a" "y = b" | "x = b" "y = a" | "(x, y) \<noteq> (a, b)" "(x, y) \<noteq> (b, a)" by blast
    then show ?thesis
    proof cases
      case 2
      then show ?thesis
        using assms(2,3) soundPair_swap by (auto simp: stepTo_def stances_def)
    next
      case 3
      then have "stances w' x y = stances w x y"
        using assms(2) by (auto simp: stepTo_def stances_def changesOnly_def)
      then show ?thesis using assms(1) that by (simp add: relSound_def)
    qed (use assms(2,3) in \<open>simp add: stepTo_def\<close>)
  qed
  then show ?thesis using assms(2) by (simp add: relSound_def stepTo_def)
qed

text \<open>C17 No one-sided friendship: every operation, on every branch and between any two users, keeps
  one row per ordered pair and leaves no stance standing alone but a block: an accepted or
  pending row always has a counterpart, and a pending one an accepted or blocking one.\<close>

theorem no_one_sided_friendship:
  assumes "relSound w" and "relSound (gap w)"
  shows "relSound (snd (rel_create gap b a w)) \<and> relSound (snd (rel_update b st a w)) \<and>
     relSound (snd (rel_remove b a w))"
proof (cases "a = b")
  case True
  then show ?thesis
    using assms by (simp add: rel_create_def rel_update_def rel_remove_def andThen_run throwIfAllEqual_pair)
next
  case False
  have tab: "relTable (relationships w)" "relTable (relationships (gap w))"
    and pair: "soundPair (stances w a b)" "soundPair (stances (gap w) a b)"
    using assms False by (simp_all add: relSound_def)
  obtain r w' where r: "rel_create gap b a w = (r, w')" by force
  have "relSound w'"
    using rel_create_cases [OF False r tab(2)] assms automaton_sound(1) [OF pair(2)]
      stepTo_sound [OF assms(2)] by blast
  moreover obtain q v where q: "rel_update b st a w = (q, v)" by force
  moreover have "relSound v"
    using rel_update_cases [OF False q tab(1)] assms automaton_sound(2) [OF pair(1)]
      stepTo_sound [OF assms(1)] by blast
  moreover obtain v' where "rel_remove b a w = (Inr (), v')" "relSound v'"
    using rel_remove_step [OF False tab(1)] automaton_sound(3) [OF pair(1)] stepTo_sound [OF assms(1)] by blast
  ultimately show ?thesis using r by simp
qed

theorem no_one_sided_friendship_witness:
  "relSound (snd (rel_create (\<lambda>w. w) ''b'' ''a'' (emptyWorld\<lparr>users := [sampleUser ''a'' None, sampleUser ''b'' None]\<rparr>)))"
proof -
  let ?w = "emptyWorld\<lparr>users := [sampleUser ''a'' None, sampleUser ''b'' None]\<rparr>"
  have "relSound ?w"
    by (simp add: relSound_def relTable_def emptyWorld_def stances_def stance_def soundPair_iff)
  from no_one_sided_friendship [where w = ?w and gap = "\<lambda>w. w", OF this this] show ?thesis by simp
qed

text \<open>The world as somebody who is not told of blocks against them sees it.\<close>

definition unblockedFor :: "ident \<Rightarrow> world \<Rightarrow> world" where
  "unblockedFor v w = w\<lparr>relationships := map (\<lambda>r.
     if ur_requesterId r \<noteq> v \<and> ur_addresseeId r = v \<and> ur_status r = BLOCKED
     then r\<lparr>ur_status := ACCEPTED\<rparr> else r) (relationships w)\<rparr>"

lemma mask_unblocked:
  assumes "\<And>r st. P (r\<lparr>ur_status := st\<rparr>) = P r"
    and "\<And>r. P r \<Longrightarrow> ur_requesterId r \<noteq> v \<Longrightarrow> ur_addresseeId r = v"
  shows "maskCounterpartBlocks (filter P (map (\<lambda>r.
     if ur_requesterId r \<noteq> v \<and> ur_addresseeId r = v \<and> ur_status r = BLOCKED
     then r\<lparr>ur_status := ACCEPTED\<rparr> else r) rows)) v = maskCounterpartBlocks (filter P rows) v"
  using assms by (induction rows) (auto simp: maskCounterpartBlocks_def)

lemma unblocked_stance:
  "v \<noteq> b \<Longrightarrow> stance (unblockedFor v w) v b = stance w v b \<and>
   stance (unblockedFor v w) b v = (if stance w b v = Some BLOCKED then Some ACCEPTED else stance w b v)"
proof -
  assume n: "v \<noteq> b"
  have "stanceIn (map (\<lambda>r. if ur_requesterId r \<noteq> v \<and> ur_addresseeId r = v \<and> ur_status r = BLOCKED
     then r\<lparr>ur_status := ACCEPTED\<rparr> else r) rows) v b = stanceIn rows v b \<and>
    stanceIn (map (\<lambda>r. if ur_requesterId r \<noteq> v \<and> ur_addresseeId r = v \<and> ur_status r = BLOCKED
     then r\<lparr>ur_status := ACCEPTED\<rparr> else r) rows) b v =
    (if stanceIn rows b v = Some BLOCKED then Some ACCEPTED else stanceIn rows b v)" for rows
    using n by (induction rows) (auto simp: stanceIn_Cons rowOf_def stanceIn_def)
  then show ?thesis by (simp add: stance_stanceIn unblockedFor_def)
qed

text \<open>A block does not show in the relationship reads, but it shows in a friend request: both
  reads answer the blocked user as if every block against them were an acceptance, while
  a friend request to a friend who has blocked them succeeds, where the same request to a
  friend who has not is refused as existing.\<close>

lemma block_hidden_from_reads_only:
  assumes "v \<noteq> b" and "relTable (relationships w)" and "relTable (relationships (unblockedFor v w))"
    and "registered w v" and "registered w b" and "\<exists>u\<in>set (users w). u_id u = b \<and> u_status u = ACTIVE"
    and "stances w v b = (Some ACCEPTED, Some BLOCKED)"
  shows "fst (rel_findAll v (unblockedFor v w)) = fst (rel_findAll v w) \<and>
     fst (rel_findById x v (unblockedFor v w)) = fst (rel_findById x v w) \<and>
     fst (rel_create (\<lambda>w. w) b v w) = Inr (v, b) \<and>
     fst (rel_create (\<lambda>w. w) b v (unblockedFor v w)) = Inl existingRelation"
proof (intro conjI)
  show "fst (rel_findAll v (unblockedFor v w)) = fst (rel_findAll v w)"
    unfolding rel_findAll_def andThen_run prisma_run ret_run unblockedFor_def
    by (simp, rule mask_unblocked) auto
  show "fst (rel_findById x v (unblockedFor v w)) = fst (rel_findById x v w)"
    unfolding rel_findById_def unblockedFor_def
    by (cases "v = x", simp add: ret_run, simp add: andThen_run prisma_run ret_run, rule mask_unblocked) auto
  have reg: "registered (unblockedFor v w) i = registered w i" "users (unblockedFor v w) = users w" for i
    by (simp_all add: registered_def unblockedFor_def)
  have st: "stances (unblockedFor v w) v b = (Some ACCEPTED, Some ACCEPTED)"
    using assms(7) unblocked_stance [OF assms(1), of w] by (simp add: stances_def)
  show "fst (rel_create (\<lambda>w. w) b v w) = Inr (v, b)"
    using relationships_refine [where w = w and gap = "\<lambda>w. w", OF assms(1,2,2,4,5,4,5,6)] assms(7) by auto
  show "fst (rel_create (\<lambda>w. w) b v (unblockedFor v w)) = Inl existingRelation"
    using relationships_refine [where w = "unblockedFor v w" and gap = "\<lambda>w. w", OF assms(1,3,3)] assms(4-6) st
    by (auto simp: reg)
qed

lemma block_hidden_from_reads_only_sample:
  "fst (rel_create (\<lambda>w. w) ''b'' ''a'' (friendsWorld BLOCKED)) = Inr (''a'', ''b'')"
proof -
  have "relTable (relationships (unblockedFor ''a'' (friendsWorld BLOCKED)))"
    by (simp add: friendsWorld_def unblockedFor_def relTable_def relKey_def)
  from block_hidden_from_reads_only [of "''a''" "''b''" "friendsWorld BLOCKED" "''b''", OF _ _ this]
  show ?thesis using friendsWorld_facts [of BLOCKED] by simp
qed

end
