(* ===== verification/Chat.thy ===== *)
theory Chat
  imports Access FieldLocks Tables "HOL-Library.Char_ord" "HOL-Library.List_Lexorder"
    "HOL-Library.Product_Lexorder"
begin

text \<open>
  \<open>ChatService\<close> (\<open>backend/src/chat/chat.service.ts\<close>) and the browser's side of the conversation:
  the page state of \<open>frontend/src/routes/_authenticated/chat.tsx\<close> and the unread store of
  \<open>frontend/src/lib/chatUnreadState.ts\<close>. Messages are ordered by creation time, then by id; ids are
  compared as the database compares UUID text, character by character.
\<close>

section \<open>Request bodies and constants\<close>

definition CHAT_MESSAGES_DEFAULT_PAGE_SIZE :: nat where
  "CHAT_MESSAGES_DEFAULT_PAGE_SIZE = 50"

text \<open>\<open>before\<close> and \<open>beforeCreatedAt\<close>; the validation demands both or none.\<close>

record find_chat_dto =
  fcd_before :: "ident option"
  fcd_beforeCreatedAt :: "millis option"
  fcd_take :: "nat option"

record mark_chat_read_dto =
  mcd_lastReadMessageId :: "ident option"
  mcd_lastReadAt :: "millis option"

section \<open>The service\<close>

definition chatView :: "world \<Rightarrow> message_row \<Rightarrow> chat_view" where
  "chatView w m = \<lparr>cv_message = m,
     cv_author = (case cm_userId m of None \<Rightarrow> None
       | Some i \<Rightarrow> map_option userRefOf (List.find (\<lambda>u. u_id u = i) (users w)))\<rparr>"

definition chatKey :: "message_row \<Rightarrow> int \<times> string" where
  "chatKey m = (cm_createdAt m, cm_id m)"

definition olderThan :: "find_chat_dto \<Rightarrow> message_row \<Rightarrow> bool" where
  "olderThan query m \<longleftrightarrow> (case (fcd_beforeCreatedAt query, fcd_before query) of
     (Some createdAt, Some i) \<Rightarrow>
       cm_createdAt m < createdAt \<or> cm_createdAt m = createdAt \<and> cm_id m < i
   | _ \<Rightarrow> True)"

definition chat_findAll :: "ident \<Rightarrow> ident \<Rightarrow> find_chat_dto \<Rightarrow> chat_view list service" where
  "chat_findAll projectId userId query =
     andThen (assertMembership projectId userId) (\<lambda>_.
     andThen (findMany messages (\<lambda>m. cm_projectId m = projectId \<and> olderThan query m)) (\<lambda>ms.
     let limit = (case fcd_take query of None \<Rightarrow> CHAT_MESSAGES_DEFAULT_PAGE_SIZE | Some n \<Rightarrow> n);
         found = take limit (rev (sort_key chatKey ms))
     in gets (\<lambda>w. rev (map (chatView w) found))))"

definition unreadIn :: "read_state_row option \<Rightarrow> message_row \<Rightarrow> bool" where
  "unreadIn readState m \<longleftrightarrow> (case readState of None \<Rightarrow> True
   | Some r \<Rightarrow> rs_lastReadAt r < cm_createdAt m \<or>
       (case rs_lastReadMessageId r of None \<Rightarrow> False
        | Some i \<Rightarrow> cm_createdAt m = rs_lastReadAt r \<and> i < cm_id m))"

definition chat_findUnreadProjectIds :: "ident \<Rightarrow> ident list service" where
  "chat_findUnreadProjectIds userId =
     andThen (findMany members (\<lambda>m. pm_userId m = userId)) (\<lambda>memberships.
     let projectIds = map pm_projectId memberships in
     if projectIds = [] then ret []
     else andThen (findMany readStates (\<lambda>r. rs_userId r = userId \<and> rs_projectId r \<in> set projectIds)) (\<lambda>states.
       let readStateByProject = map_of (rev (map (\<lambda>s. (rs_projectId s, s)) states)) in
       andThen (findMany messages (\<lambda>m.
         (case cm_userId m of None \<Rightarrow> True | Some i \<Rightarrow> i \<noteq> userId) \<and>
         list_ex (\<lambda>p. cm_projectId m = p \<and> unreadIn (readStateByProject p) m) projectIds)) (\<lambda>unread.
       ret (remdups (map cm_projectId unread)))))"

definition chat_markRead :: "ident \<Rightarrow> ident \<Rightarrow> mark_chat_read_dto \<Rightarrow> unit service" where
  "chat_markRead projectId userId dto =
     andThen (assertMembership projectId userId) (\<lambda>_.
     case (mcd_lastReadAt dto, mcd_lastReadMessageId dto) of
       (Some lastReadAt, Some lastReadMessageId) \<Rightarrow>
         (let mine = (\<lambda>r. rs_userId r = userId \<and> rs_projectId r = projectId) in
          andThen (findFirst readStates mine) (\<lambda>existing.
          andThen (case existing of
              Some _ \<Rightarrow> updateMany readStates_update mine
                (\<lambda>r. r\<lparr>rs_lastReadAt := lastReadAt, rs_lastReadMessageId := Some lastReadMessageId\<rparr>)
            | None \<Rightarrow> modify (readStates_update (\<lambda>rs. rs @
                [\<lparr>rs_userId = userId, rs_projectId = projectId, rs_lastReadAt = lastReadAt,
                  rs_lastReadMessageId = Some lastReadMessageId\<rparr>]))) (\<lambda>_.
          emitToUser userId ''chat:read'' (P_chatRead projectId lastReadAt (Some lastReadMessageId)))))
     | _ \<Rightarrow> ret ())"

definition chat_create ::
  "(world \<Rightarrow> world) \<Rightarrow> (world \<Rightarrow> world) \<Rightarrow> ident \<Rightarrow> ident \<Rightarrow> string \<Rightarrow> chat_view service" where
  "chat_create wait gap projectId userId content =
     withProjectResource wait (
       andThen (assertMembership projectId userId) (\<lambda>_.
       andThen (modify gap) (\<lambda>_.
       andThen (catching
         (andThen (requireRow projects (\<lambda>p. p_id p = projectId) ''P2025'') (\<lambda>_.
          andThen (requireRow users (\<lambda>u. u_id u = userId) ''P2025'') (\<lambda>_.
          andThen dateNow (\<lambda>now.
          createRow messages messages_update cm_id (\<lambda>i.
            \<lparr>cm_id = i, cm_userId = Some userId, cm_projectId = projectId, cm_content = content,
             cm_createdAt = now\<rparr>)))))
         (\<lambda>e. if isRecordNotFoundError e then throw (Forbidden ''Your account no longer exists'')
              else throw e)) (\<lambda>created.
       andThen (gets (\<lambda>w. chatView w created)) (\<lambda>message.
       andThen (emitToProject projectId ''chat:created'' (P_message message) None) (\<lambda>_.
       ret message))))))"

definition messageNotFound :: exn where
  "messageNotFound = NotFound ''Message not found''"

definition chat_remove ::
  "(world \<Rightarrow> world) \<Rightarrow> (world \<Rightarrow> world) \<Rightarrow> ident \<Rightarrow> ident \<Rightarrow> ident \<Rightarrow> chat_view service" where
  "chat_remove wait gap projectId i userId =
     withProjectResource wait (
       andThen (assertMembership projectId userId) (\<lambda>_.
       andThen (findFirst messages (\<lambda>m. cm_id m = i \<and> cm_projectId m = projectId)) (\<lambda>found.
       case found of None \<Rightarrow> throw messageNotFound
       | Some message \<Rightarrow>
           andThen (ensure (cm_userId message = Some userId)
             (Forbidden ''You can only delete your own messages'')) (\<lambda>_.
           andThen (modify gap) (\<lambda>_.
           andThen (deleteOne messages messages_update (\<lambda>m. cm_id m = i)) (\<lambda>deleted.
           andThen (gets (\<lambda>w. chatView w deleted)) (\<lambda>deletedMessage.
           andThen (emitToProject projectId ''chat:deleted'' (P_message deletedMessage) None) (\<lambda>_.
           ret deletedMessage))))))))"

section \<open>The conversation page\<close>

record chat_page =
  cp_messages :: "chat_view list"
  cp_hasMoreHistory :: bool

definition MESSAGES_PAGE_SIZE :: nat where
  "MESSAGES_PAGE_SIZE = 50"

text \<open>The first load of a conversation.\<close>

definition loadFirst :: "ident \<Rightarrow> ident \<Rightarrow> chat_page service" where
  "loadFirst projectId userId =
     andThen (chat_findAll projectId userId
       \<lparr>fcd_before = None, fcd_beforeCreatedAt = None, fcd_take = Some MESSAGES_PAGE_SIZE\<rparr>) (\<lambda>fetched.
     ret \<lparr>cp_messages = fetched, cp_hasMoreHistory = (length fetched = MESSAGES_PAGE_SIZE)\<rparr>)"

definition handleLoadEarlier :: "ident \<Rightarrow> ident \<Rightarrow> chat_page \<Rightarrow> chat_page service" where
  "handleLoadEarlier projectId userId page =
     (case cp_messages page of [] \<Rightarrow> ret page
      | oldest # _ \<Rightarrow>
          andThen (chat_findAll projectId userId
            \<lparr>fcd_before = Some (cm_id (cv_message oldest)),
             fcd_beforeCreatedAt = Some (cm_createdAt (cv_message oldest)),
             fcd_take = Some MESSAGES_PAGE_SIZE\<rparr>) (\<lambda>older.
          ret \<lparr>cp_messages = older @ cp_messages page,
               cp_hasMoreHistory = (length older = MESSAGES_PAGE_SIZE)\<rparr>))"

section \<open>The unread store of the browser\<close>

record unread_store =
  us_projectIds :: "ident set"
  us_activeProjectId :: "ident option"

definition unread_snapshot :: "unread_store \<Rightarrow> ident set" where
  "unread_snapshot s = {i \<in> us_projectIds s. Some i \<noteq> us_activeProjectId s}"

definition setActiveProjectId :: "ident option \<Rightarrow> unread_store \<Rightarrow> unread_store" where
  "setActiveProjectId p s = s\<lparr>us_activeProjectId := p\<rparr>"

definition unread_markRead :: "ident \<Rightarrow> unread_store \<Rightarrow> unread_store" where
  "unread_markRead p s = s\<lparr>us_projectIds := us_projectIds s - {p}\<rparr>"

definition unread_refresh :: "ident list \<Rightarrow> unread_store \<Rightarrow> unread_store" where
  "unread_refresh ids s = s\<lparr>us_projectIds := set ids\<rparr>"

text \<open>The handler of \<open>chat:created\<close>; the argument is the signed-in user.\<close>

definition unread_onCreated :: "ident option \<Rightarrow> chat_view \<Rightarrow> unread_store \<Rightarrow> unread_store" where
  "unread_onCreated currentUserId message s =
     (let p = cm_projectId (cv_message message) in
      if (case cv_author message of None \<Rightarrow> False | Some a \<Rightarrow> currentUserId = Some (ref_id a)) \<or>
         us_activeProjectId s = Some p
      then s else s\<lparr>us_projectIds := insert p (us_projectIds s)\<rparr>)"

section \<open>Lemmas on histories\<close>

definition history :: "world \<Rightarrow> ident \<Rightarrow> message_row list" where
  "history w p = sort_key chatKey (filter (\<lambda>m. cm_projectId m = p) (messages w))"

definition lastN :: "nat \<Rightarrow> 'a list \<Rightarrow> 'a list" where
  "lastN n xs = drop (length xs - n) xs"

lemma lastN_simps [simp]:
  "length (lastN n xs) = min n (length xs)" "length xs \<le> n \<Longrightarrow> lastN n xs = xs"
  by (simp_all add: lastN_def)

lemma lastN_Nil [simp]: "lastN n xs = [] \<longleftrightarrow> n = 0 \<or> xs = []"
  by (cases xs) (auto simp: lastN_def)

lemma rev_take_rev: "rev (take n (rev xs)) = lastN n xs"
  by (simp add: lastN_def take_rev)

lemma lastN_take:
  "a \<le> length xs \<Longrightarrow> lastN n (take (length xs - a) xs) @ lastN a xs = lastN (n + a) xs"
proof -
  assume a: "a \<le> length xs"
  let ?m = "length xs - a"
  have "drop (?m - n) (take ?m xs @ drop ?m xs) = drop (?m - n) (take ?m xs) @ drop ?m xs"
    by (simp only: drop_append) simp
  then show ?thesis by (simp add: lastN_def add.commute)
qed

abbreviation inOrder :: "message_row list \<Rightarrow> bool" where
  "inOrder ms \<equiv> sorted_wrt (\<lambda>a b. chatKey a < chatKey b) ms"

lemma inOrder_sort:
  assumes "distinct (map cm_id ms)"
  shows "inOrder (sort_key chatKey ms)"
proof -
  have "distinct (map chatKey ms)"
    using assms by (auto simp: distinct_map inj_on_def chatKey_def)
  then have "distinct (map chatKey (sort_key chatKey ms))"
    by (simp add: distinct_map)
  moreover have "sorted (map chatKey (sort_key chatKey ms))" by simp
  ultimately have "sorted_wrt (<) (map chatKey (sort_key chatKey ms))"
    by (simp add: strict_sorted_iff)
  then show ?thesis by (simp add: sorted_wrt_map)
qed

lemma inOrder_history: "distinct (map cm_id (messages w)) \<Longrightarrow> inOrder (history w p)"
  unfolding history_def by (rule inOrder_sort) (rule distinct_map_filterI)

lemma set_history: "set (history w p) = {m \<in> set (messages w). cm_projectId m = p}"
  by (auto simp: history_def)

lemma filter_below:
  "inOrder ms \<Longrightarrow> i < length ms \<Longrightarrow> filter (\<lambda>m. chatKey m < chatKey (ms ! i)) ms = take i ms"
proof (induction ms arbitrary: i)
  case (Cons m ms)
  show ?case
  proof (cases i)
    case 0
    have "\<not> chatKey x < chatKey m" if "x \<in> set ms" for x using Cons.prems(1) that by (auto dest: less_asym)
    then show ?thesis using 0 by (simp add: filter_empty_conv)
  next
    case (Suc j)
    then have "chatKey m < chatKey (ms ! j)" using Cons.prems by simp
    then show ?thesis using Suc Cons by simp
  qed
qed simp

lemma olderThan_key:
  "olderThan \<lparr>fcd_before = Some i, fcd_beforeCreatedAt = Some c, fcd_take = n\<rparr> = (\<lambda>m. chatKey m < (c, i))"
  "olderThan \<lparr>fcd_before = None, fcd_beforeCreatedAt = None, fcd_take = n\<rparr> = (\<lambda>m. True)"
  by (auto simp: olderThan_def chatKey_def fun_eq_iff)

lemma chat_findAll_run:
  "isMember w p u \<Longrightarrow> chat_findAll p u q w =
     (Inr (map (chatView w) (lastN (case fcd_take q of None \<Rightarrow> CHAT_MESSAGES_DEFAULT_PAGE_SIZE | Some n \<Rightarrow> n)
        (filter (olderThan q) (history w p)))), w)"
proof -
  assume "isMember w p u"
  have "sort_key chatKey (filter (\<lambda>m. cm_projectId m = p \<and> olderThan q m) (messages w)) =
      filter (olderThan q) (history w p)"
    by (simp add: history_def filter_sort conj_commute)
  then show ?thesis
    using \<open>isMember w p u\<close>
    by (auto simp: chat_findAll_def run_simps isMember_iff_find Let_def rev_map rev_take_rev)
qed

lemma min_eq_iff: "min a b = a \<longleftrightarrow> a \<le> (b :: nat)"
  by auto

lemma loadFirst_run:
  "isMember w p u \<Longrightarrow> loadFirst p u w = (Inr \<lparr>cp_messages = map (chatView w) (lastN 50 (history w p)),
     cp_hasMoreHistory = (50 \<le> length (history w p))\<rparr>, w)"
  by (simp add: loadFirst_def andThen_run chat_findAll_run olderThan_key ret_run MESSAGES_PAGE_SIZE_def
      min_eq_iff)

lemma handleLoadEarlier_run:
  "isMember w p u \<Longrightarrow> cp_messages page = oldest # rest \<Longrightarrow>
   handleLoadEarlier p u page w = (let older = filter (\<lambda>m. chatKey m < chatKey (cv_message oldest)) (history w p)
     in (Inr \<lparr>cp_messages = map (chatView w) (lastN 50 older) @ cp_messages page,
           cp_hasMoreHistory = (50 \<le> length older)\<rparr>, w))"
  by (simp add: handleLoadEarlier_def andThen_run chat_findAll_run olderThan_key ret_run MESSAGES_PAGE_SIZE_def
      Let_def chatKey_def [of "cv_message oldest"] min_eq_iff)

section \<open>Reading a whole conversation\<close>

text \<open>The button "Load earlier messages" pressed once in each of the worlds, while it is shown.\<close>

fun loadEarlierIn :: "ident \<Rightarrow> ident \<Rightarrow> world list \<Rightarrow> chat_page \<Rightarrow> chat_page" where
  "loadEarlierIn p u [] page = page"
| "loadEarlierIn p u (w # ws) page =
     (if cp_hasMoreHistory page
      then (case fst (handleLoadEarlier p u page w) of
          Inl _ \<Rightarrow> loadEarlierIn p u ws page
        | Inr page' \<Rightarrow> loadEarlierIn p u ws page')
      else page)"

definition shown :: "chat_page \<Rightarrow> message_row list" where
  "shown page = map cv_message (cp_messages page)"

text \<open>
  \<open>covers S page\<close>: in order, without duplicates, and every message of \<open>S\<close> is on the page or still
  above it.
\<close>

definition covers :: "message_row set \<Rightarrow> chat_page \<Rightarrow> bool" where
  "covers S page \<longleftrightarrow> inOrder (shown page) \<and>
     (cp_hasMoreHistory page \<longrightarrow> shown page \<noteq> []) \<and>
     (\<forall>m\<in>S. m \<in> set (shown page) \<or> cp_hasMoreHistory page \<and> chatKey m < chatKey (hd (shown page)))"

lemma inOrder_lastN: "inOrder ms \<Longrightarrow> inOrder (lastN n ms)"
  unfolding lastN_def by (rule sorted_wrt_drop)

text \<open>What the last \<open>n\<close> of an ordered list leave out is below the first of them.\<close>

lemma lastN_rest:
  assumes "inOrder ms" and "m \<in> set ms" and "m \<notin> set (lastN n ms)" and "0 < n"
  shows "n \<le> length ms \<and> lastN n ms \<noteq> [] \<and> chatKey m < chatKey (hd (lastN n ms))"
proof -
  let ?k = "length ms - n"
  have n: "n < length ms"
  proof (rule ccontr)
    assume "\<not> n < length ms"
    then have "lastN n ms = ms" by simp
    with assms(2,3) show False by simp
  qed
  have "m \<in> set (take ?k ms)"
    using assms(2,3) unfolding lastN_def by (metis Un_iff append_take_drop_id set_append)
  moreover have "inOrder (take ?k ms @ drop ?k ms)" using assms(1) by simp
  moreover have "drop ?k ms \<noteq> []" using n assms(4) by simp
  ultimately show ?thesis
    using n unfolding lastN_def sorted_wrt_append by (auto intro: hd_in_set)
qed

lemma shown_views: "map (cv_message \<circ> chatView w) ms = ms"
  by (simp add: chatView_def comp_def)

lemma covers_first:
  assumes "distinct (map cm_id (messages w))" and "\<And>m. m \<in> S \<Longrightarrow> m \<in> set (history w p)"
  shows "covers S \<lparr>cp_messages = map (chatView w) (lastN 50 (history w p)),
     cp_hasMoreHistory = (50 \<le> length (history w p))\<rparr>"
proof -
  note k = inOrder_history [OF assms(1), of p]
  show ?thesis
    using inOrder_lastN [OF k] lastN_rest [OF k assms(2), of _ 50]
    by (auto simp: covers_def shown_def shown_views)
qed

lemma covers_step:
  assumes "covers S page" and more: "cp_hasMoreHistory page" and mem: "isMember w p u"
    and d: "distinct (map cm_id (messages w))" and S: "\<And>m. m \<in> S \<Longrightarrow> m \<in> set (history w p)"
  shows "\<exists>page'. handleLoadEarlier p u page w = (Inr page', w) \<and> covers S page'"
proof -
  obtain o' rest where cp: "cp_messages page = o' # rest"
    using assms(1) more by (cases "cp_messages page") (auto simp: covers_def shown_def)
  let ?o = "cv_message o'"
  let ?older = "filter (\<lambda>m. chatKey m < chatKey ?o) (history w p)"
  let ?page = "\<lparr>cp_messages = map (chatView w) (lastN 50 ?older) @ cp_messages page,
     cp_hasMoreHistory = (50 \<le> length ?older)\<rparr>"
  have run: "handleLoadEarlier p u page w = (Inr ?page, w)"
    using handleLoadEarlier_run [OF mem cp] by (simp add: Let_def)
  have k: "inOrder ?older" by (rule sorted_wrt_filter) (rule inOrder_history [OF d])
  have sh: "shown ?page = lastN 50 ?older @ shown page" by (simp add: shown_def shown_views)
  have hd: "hd (shown page) = ?o" by (simp add: shown_def cp)
  have kp: "inOrder (shown page)" using assms(1) by (simp add: covers_def)
  have "chatKey x < chatKey y" if x: "x \<in> set (lastN 50 ?older)" and y: "y \<in> set (shown page)" for x y
  proof -
    have "chatKey x < chatKey ?o" using x unfolding lastN_def by (auto dest: in_set_dropD)
    moreover have "chatKey ?o \<le> chatKey y" using kp y by (auto simp: shown_def cp)
    ultimately show ?thesis by (rule less_le_trans)
  qed
  then have "inOrder (shown ?page)"
    using inOrder_lastN [OF k] kp unfolding sh sorted_wrt_append by blast
  moreover have "m \<in> set (shown ?page) \<or> 50 \<le> length ?older \<and> chatKey m < chatKey (hd (shown ?page))"
    if m: "m \<in> S" for m
  proof (cases "m \<in> set (shown page) \<or> m \<in> set (lastN 50 ?older)")
    case False
    then have "m \<in> set ?older" using assms(1) m S [OF m] hd by (auto simp: covers_def)
    from lastN_rest [OF k this] False show ?thesis unfolding sh by auto
  qed (auto simp: sh)
  ultimately have "covers S ?page" unfolding covers_def using cp by (simp add: shown_def)
  with run show ?thesis by blast
qed

lemma covers_loop:
  assumes "covers S page" and "\<forall>w\<in>set ws. isMember w p u \<and> distinct (map cm_id (messages w)) \<and>
     S \<subseteq> set (history w p)"
  shows "covers S (loadEarlierIn p u ws page)"
  using assms
proof (induction ws arbitrary: page)
  case (Cons w ws)
  show ?case
  proof (cases "cp_hasMoreHistory page")
    case True
    obtain page' where "handleLoadEarlier p u page w = (Inr page', w)" "covers S page'"
      using covers_step [OF Cons.prems(1) True, of w p u] Cons.prems(2) by auto
    then show ?thesis using Cons.IH [of page'] Cons.prems(2) True by simp
  qed (use Cons.prems in simp)
qed simp

text \<open>Pressing the button in a quiet conversation.\<close>

definition atPage :: "world \<Rightarrow> ident \<Rightarrow> nat \<Rightarrow> chat_page" where
  "atPage w p k = \<lparr>cp_messages = map (chatView w) (lastN (50 * k) (history w p)),
     cp_hasMoreHistory = (50 * k \<le> length (history w p))\<rparr>"

lemma atPage_step:
  assumes mem: "isMember w p u" and d: "distinct (map cm_id (messages w))"
    and k: "0 < k" "50 * k \<le> length (history w p)"
  shows "handleLoadEarlier p u (atPage w p k) w = (Inr (atPage w p (Suc k)), w)"
proof -
  let ?h = "history w p" let ?i = "length ?h - 50 * k"
  have i: "?i < length ?h" using k by auto
  have "lastN (50 * k) ?h = ?h ! ?i # drop (Suc ?i) ?h"
    using i by (simp add: lastN_def Cons_nth_drop_Suc)
  then have cp: "cp_messages (atPage w p k) = chatView w (?h ! ?i) # map (chatView w) (drop (Suc ?i) ?h)"
    by (simp add: atPage_def)
  have f: "filter (\<lambda>m. chatKey m < chatKey (?h ! ?i)) ?h = take ?i ?h"
    by (rule filter_below [OF inOrder_history [OF d] i])
  have v: "cv_message (chatView w m) = m" for m by (simp add: chatView_def)
  have m: "map (chatView w) (lastN 50 (take ?i ?h)) @ cp_messages (atPage w p k) =
      cp_messages (atPage w p (Suc k))"
    using lastN_take [OF k(2), of 50] by (simp add: atPage_def map_append [symmetric] del: map_append)
  show ?thesis
    using handleLoadEarlier_run [OF mem cp] k(2) m
    by (auto simp: Let_def v f atPage_def)
qed

lemma atPage_loop:
  assumes mem: "isMember w p u" and d: "distinct (map cm_id (messages w))"
  shows "0 < k \<Longrightarrow> length (history w p) div 50 < k + n \<Longrightarrow>
     loadEarlierIn p u (replicate n w) (atPage w p k) =
       \<lparr>cp_messages = map (chatView w) (history w p), cp_hasMoreHistory = False\<rparr>"
proof (induction n arbitrary: k)
  case 0
  then have "length (history w p) < 50 * k" by (simp add: div_less_iff_less_mult mult.commute)
  then show ?case by (simp add: atPage_def)
next
  case (Suc n)
  show ?case
  proof (cases "50 * k \<le> length (history w p)")
    case True
    then have more: "cp_hasMoreHistory (atPage w p k)" by (simp add: atPage_def)
    show ?thesis
      using atPage_step [OF mem d Suc.prems(1) True] Suc.IH [of "Suc k"] Suc.prems(2) more by simp
  next
    case False
    then show ?thesis by (simp add: atPage_def)
  qed
qed

section \<open>Properties\<close>

text \<open>C22 A conversation can be read to its beginning: whatever members send or delete between the
  presses of the button, the page stays in order without duplicates, and when the button
  disappears it holds every message that was there all along; and in a quiet conversation the
  button disappears after at most one press per 50 messages, with the whole history shown.\<close>

theorem history_is_read_completely:
  assumes "\<And>x. x \<in> set (w # ws) \<Longrightarrow> isMember x p u \<and> distinct (map cm_id (messages x))"
  shows "\<exists>page0. loadFirst p u w = (Inr page0, w) \<and>
     sorted_wrt (\<lambda>a b. chatKey a < chatKey b) (shown (loadEarlierIn p u ws page0)) \<and>
     (\<not> cp_hasMoreHistory (loadEarlierIn p u ws page0) \<longrightarrow>
        (\<forall>m. (\<forall>x\<in>set (w # ws). m \<in> set (messages x)) \<and> cm_projectId m = p \<longrightarrow>
           m \<in> set (shown (loadEarlierIn p u ws page0)))) \<and>
     (length (history w p) div 50 \<le> n \<longrightarrow> loadEarlierIn p u (replicate n w) page0 =
        \<lparr>cp_messages = map (chatView w) (history w p), cp_hasMoreHistory = False\<rparr>)"
proof -
  let ?S = "{m. cm_projectId m = p \<and> (\<forall>x\<in>set (w # ws). m \<in> set (messages x))}"
  have w: "isMember w p u" "distinct (map cm_id (messages w))" using assms by simp_all
  have first: "loadFirst p u w = (Inr (atPage w p 1), w)" using loadFirst_run [OF w(1)] by (simp add: atPage_def)
  have "covers ?S (atPage w p 1)"
    using covers_first [OF w(2), of ?S p] by (auto simp: atPage_def set_history)
  then have "covers ?S (loadEarlierIn p u ws (atPage w p 1))"
    by (rule covers_loop) (use assms in \<open>auto simp: set_history\<close>)
  then show ?thesis
    using first atPage_loop [OF w, of 1 n] by (auto simp: covers_def)
qed

definition chatWorld :: world where
  "chatWorld = emptyWorld\<lparr>
     members := [\<lparr>pm_userId = ''u'', pm_projectId = ''p'', pm_role = OWNER, pm_createdAt = 0\<rparr>],
     messages := [\<lparr>cm_id = ''2'', cm_userId = Some ''v'', cm_projectId = ''p'', cm_content = ''hi'', cm_createdAt = 5\<rparr>,
       \<lparr>cm_id = ''1'', cm_userId = Some ''u'', cm_projectId = ''p'', cm_content = ''yo'', cm_createdAt = 5\<rparr>]\<rparr>"

theorem history_is_read_completely_witness:
  "\<exists>page0. loadFirst ''p'' ''u'' chatWorld = (Inr page0, chatWorld) \<and>
     map cv_message (cp_messages (loadEarlierIn ''p'' ''u'' (replicate 0 chatWorld) page0)) = history chatWorld ''p''"
proof -
  have "isMember x ''p'' ''u'' \<and> distinct (map cm_id (messages x))" if "x \<in> set [chatWorld]" for x
    using that by (simp add: isMember_def chatWorld_def)
  moreover have "length (history chatWorld ''p'') div 50 \<le> 0" by (simp add: history_def chatWorld_def)
  ultimately show ?thesis
    using history_is_read_completely [of chatWorld "[]" "''p''" "''u''" 0] by (auto simp: shown_views)
qed

section \<open>Unread conversations\<close>

definition readStateOf :: "world \<Rightarrow> ident \<Rightarrow> ident \<Rightarrow> read_state_row option" where
  "readStateOf w p u = List.find (\<lambda>r. rs_userId r = u \<and> rs_projectId r = p) (readStates w)"

definition readStatesUnique :: "world \<Rightarrow> bool" where
  "readStatesUnique w \<longleftrightarrow> distinct (map (\<lambda>r. (rs_userId r, rs_projectId r)) (readStates w))"

definition unreadProjects :: "world \<Rightarrow> ident \<Rightarrow> ident set" where
  "unreadProjects w u = {p. isMember w p u \<and> (\<exists>m\<in>set (messages w). cm_projectId m = p \<and>
     cm_userId m \<noteq> Some u \<and> unreadIn (readStateOf w p u) m)}"

lemma map_of_find:
  fixes rs :: "read_state_row list"
  assumes "distinct (map (\<lambda>r. (rs_userId r, rs_projectId r)) rs)" and "p \<in> P"
  shows "map_of (rev (map (\<lambda>s. (rs_projectId s, s)) (filter (\<lambda>r. rs_userId r = u \<and> rs_projectId r \<in> P) rs))) p =
     List.find (\<lambda>r. rs_userId r = u \<and> rs_projectId r = p) rs"
proof -
  let ?rs = "filter (\<lambda>r. rs_userId r = u \<and> rs_projectId r \<in> P) rs"
  have "distinct (map (\<lambda>r. (rs_userId r, rs_projectId r)) ?rs)"
    by (rule distinct_map_filterI) (rule assms(1))
  then have d: "distinct (map rs_projectId ?rs)"
    by (auto simp: distinct_map inj_on_def)
  have "map_of (rev (map (\<lambda>s. (rs_projectId s, s)) ?rs)) = map_of (map (\<lambda>s. (rs_projectId s, s)) ?rs)"
    by (subst map_of_inject_set) (simp_all add: comp_def rev_map [symmetric] d)
  moreover have "map_of (map (\<lambda>s. (rs_projectId s, s)) xs) p = List.find (\<lambda>r. rs_projectId r = p) xs"
    for xs :: "read_state_row list"
    by (induction xs) auto
  moreover have "List.find (\<lambda>r. rs_projectId r = p) ?rs = List.find (\<lambda>r. rs_userId r = u \<and> rs_projectId r = p) rs"
    using assms(2) by (induction rs) auto
  ultimately show ?thesis by simp
qed

lemma isMember_set: "isMember w p u \<longleftrightarrow> p \<in> set (map pm_projectId (filter (\<lambda>m. pm_userId m = u) (members w)))"
  by (auto simp: isMember_def list_ex_iff)

lemma set_distinct_hits:
  "set (remdups (map f (filter (\<lambda>m. A m \<and> list_ex (\<lambda>p. f m = p \<and> B p m) ps) xs))) =
   {p \<in> set ps. \<exists>m\<in>set xs. f m = p \<and> A m \<and> B p m}"
  by (auto simp: list_ex_iff)

lemma findUnread_run:
  assumes "readStatesUnique w"
  shows "\<exists>ids. chat_findUnreadProjectIds u w = (Inr ids, w) \<and> distinct ids \<and> set ids = unreadProjects w u"
proof -
  let ?ps = "map pm_projectId (filter (\<lambda>m. pm_userId m = u) (members w))"
  show ?thesis
  proof (cases "?ps = []")
    case True
    then have "\<not> isMember w p u" for p unfolding isMember_set by simp
    then show ?thesis using True by (simp add: chat_findUnreadProjectIds_def run_simps unreadProjects_def)
  next
    case False
    let ?by = "map_of (rev (map (\<lambda>s. (rs_projectId s, s)) (filter (\<lambda>r. rs_userId r = u \<and> rs_projectId r \<in> set ?ps)
      (readStates w))))"
    have st: "?by p = readStateOf w p u" if "p \<in> set ?ps" for p
      unfolding readStateOf_def using assms that by (intro map_of_find) (auto simp: readStatesUnique_def)
    let ?ids = "remdups (map cm_projectId (filter (\<lambda>m.
         (case cm_userId m of None \<Rightarrow> True | Some i \<Rightarrow> i \<noteq> u) \<and>
         list_ex (\<lambda>p. cm_projectId m = p \<and> unreadIn (?by p) m) ?ps) (messages w)))"
    have run: "chat_findUnreadProjectIds u w = (Inr ?ids, w)"
      using False by (simp add: chat_findUnreadProjectIds_def run_simps Let_def)
    have other: "(case cm_userId m of None \<Rightarrow> True | Some i \<Rightarrow> i \<noteq> u) \<longleftrightarrow> cm_userId m \<noteq> Some u" for m
      by (simp split: option.split)
    have "set ?ids = {p \<in> set ?ps. \<exists>m\<in>set (messages w). cm_projectId m = p \<and> cm_userId m \<noteq> Some u \<and>
        unreadIn (?by p) m}" unfolding set_distinct_hits other ..
    also have "\<dots> = unreadProjects w u"
      unfolding unreadProjects_def isMember_set using st by auto
    finally show ?thesis using run by auto
  qed
qed

text \<open>The watermark after a mark-read: the row of that member and project, and no other row.\<close>

lemma markRead_run:
  assumes "isMember w p u"
  shows "\<exists>t. chat_markRead p u \<lparr>mcd_lastReadMessageId = Some i, mcd_lastReadAt = Some c\<rparr> w = (Inr (), t) \<and>
     (\<exists>r. readStateOf t p u = Some r \<and> rs_lastReadAt r = c \<and> rs_lastReadMessageId r = Some i) \<and>
     (\<forall>q v. (q, v) \<noteq> (p, u) \<longrightarrow> readStateOf t q v = readStateOf w q v) \<and>
     members t = members w \<and> messages t = messages w \<and> (readStatesUnique w \<longrightarrow> readStatesUnique t)"
proof -
  let ?mine = "\<lambda>r. rs_userId r = u \<and> rs_projectId r = p"
  let ?f = "\<lambda>r. r\<lparr>rs_lastReadAt := c, rs_lastReadMessageId := Some i\<rparr>"
  let ?g = "\<lambda>r :: read_state_row. if ?mine r then ?f r else r"
  let ?new = "\<lparr>rs_userId = u, rs_projectId = p, rs_lastReadAt = c, rs_lastReadMessageId = Some i\<rparr>"
  obtain m where m: "List.find (\<lambda>m. pm_projectId m = p \<and> pm_userId m = u) (members w) = Some m"
    using assms by (auto simp: isMember_iff_find)
  have key: "rs_userId (?g r) = rs_userId r \<and> rs_projectId (?g r) = rs_projectId r" for r by simp
  have upd: "List.find (\<lambda>r. rs_userId r = v \<and> rs_projectId r = q) (map ?g rs) =
      map_option ?g (List.find (\<lambda>r. rs_userId r = v \<and> rs_projectId r = q) rs)" for q v rs
    by (induction rs) auto
  show ?thesis
  proof (cases "List.find ?mine (readStates w)")
    case (Some r)
    have "chat_markRead p u \<lparr>mcd_lastReadMessageId = Some i, mcd_lastReadAt = Some c\<rparr> w =
        (Inr (), snd (emitToUser u ''chat:read'' (P_chatRead p c (Some i)) (readStates_update (map ?g) w)))"
      using m Some by (simp add: chat_markRead_def run_simps Let_def emitToUser_def)
    moreover have "readStatesUnique (readStates_update (map ?g) w)" if "readStatesUnique w"
      using that key by (simp add: readStatesUnique_def comp_def)
    moreover have "map_option ?g (List.find (\<lambda>r. rs_userId r = v \<and> rs_projectId r = q) (readStates w)) =
        List.find (\<lambda>r. rs_userId r = v \<and> rs_projectId r = q) (readStates w)" if "(q, v) \<noteq> (p, u)" for q v
      using that by (auto simp: option.map_ident_strong dest: find_SomeD intro!: option.map_ident_strong)
    ultimately show ?thesis
      using Some find_SomeD [OF Some]
      by (simp add: emitToUser_def run_simps readStateOf_def upd readStatesUnique_def)
  next
    case None
    have "chat_markRead p u \<lparr>mcd_lastReadMessageId = Some i, mcd_lastReadAt = Some c\<rparr> w =
        (Inr (), snd (emitToUser u ''chat:read'' (P_chatRead p c (Some i))
          (readStates_update (\<lambda>rs. rs @ [?new]) w)))"
      using m None by (simp add: chat_markRead_def run_simps Let_def emitToUser_def)
    moreover have "readStatesUnique (readStates_update (\<lambda>rs. rs @ [?new]) w)" if "readStatesUnique w"
      using that None by (force simp: readStatesUnique_def find_None_iff_all)
    moreover have "List.find (\<lambda>r. rs_userId r = v \<and> rs_projectId r = q) (readStates w @ [?new]) =
        List.find (\<lambda>r. rs_userId r = v \<and> rs_projectId r = q) (readStates w)" if "(q, v) \<noteq> (p, u)" for q v
      using that by (auto simp: find_append split: option.split)
    ultimately show ?thesis
      using None by (simp add: emitToUser_def run_simps readStateOf_def find_appended readStatesUnique_def)
  qed
qed

section \<open>The dot in the browser\<close>

lemma chat_create_Inr:
  assumes "chat_create wait gap p v content w = (Inr view, t)"
  shows "let x = gap (wait w); m = cv_message view in
     isMember (wait w) p v \<and> cm_userId m = Some v \<and> cm_projectId m = p \<and> cm_createdAt m = clock x \<and>
     (\<exists>a. cv_author view = Some a \<and> ref_id a = v) \<and>
     messages t = messages x @ [m] \<and> members t = members x \<and> readStates t = readStates x"
proof -
  obtain m y where m: "isMember (wait w) p v"
    and u: "list_ex (\<lambda>u. u_id u = v) (users (gap (wait w)))"
    and c: "createRow messages messages_update cm_id (\<lambda>i. \<lparr>cm_id = i, cm_userId = Some v,
        cm_projectId = p, cm_content = content, cm_createdAt = clock (gap (wait w))\<rparr>) (gap (wait w)) = (Inr m, y)"
    and e: "(Inr view, t) = (Inr (chatView y m), snd (emitToProject p ''chat:created'' (P_message (chatView y m)) None y))"
    using assms
    by (auto simp: chat_create_def lease_writes_run success_iffs catching_Inr throw_Inr requireRow_Inr prisma_Inr
        assertMembership_Inr isMember_iff_find split: if_splits)
  have y: "m = \<lparr>cm_id = uuids (gap (wait w)) 0, cm_userId = Some v, cm_projectId = p, cm_content = content,
      cm_createdAt = clock (gap (wait w))\<rparr>"
    "y = messages_update (\<lambda>rs. rs @ [m]) (gap (wait w))\<lparr>uuids := \<lambda>n. uuids (gap (wait w)) (Suc n)\<rparr>"
    using c by (auto simp: messages.createRow_Inr)
  obtain a where a: "List.find (\<lambda>u. u_id u = v) (users (gap (wait w))) = Some a" "u_id a = v"
    using u find_None_iff_all [of "\<lambda>u. u_id u = v" "users (gap (wait w))"]
    by (cases "List.find (\<lambda>u. u_id u = v) (users (gap (wait w)))") (auto simp: list_ex_iff dest: find_SomeD)
  have cv: "cv_message view = m" "cv_author view = Some (userRefOf a)"
    using e a(1) y by (auto simp: chatView_def)
  have t: "t = snd (emitToProject p ''chat:created'' (P_message view) None y)" using e by simp
  show ?thesis
    unfolding Let_def cv t using m a(2) y by (simp add: userRefOf_def emitToProject_def run_simps)
qed

text \<open>Only the conversation of the new message can gain a dot, and only for the others.\<close>

lemma unreadProjects_append:
  assumes "messages t = messages w @ [m]" "members t = members w" "readStates t = readStates w"
  shows "unreadProjects t u = unreadProjects w u \<union>
     (if isMember w (cm_projectId m) u \<and> cm_userId m \<noteq> Some u \<and> unreadIn (readStateOf w (cm_projectId m) u) m
      then {cm_projectId m} else {})"
  using assms by (auto simp: unreadProjects_def isMember_def readStateOf_def)

lemma unreadIn_row:
  "rs_lastReadMessageId r = Some i \<Longrightarrow> unreadIn (Some r) m \<longleftrightarrow> (rs_lastReadAt r, i) < chatKey m"
  by (auto simp: unreadIn_def chatKey_def)

text \<open>The unread dots of the browser follow the server. \<open>/chat/unread\<close> lists exactly the
  conversations of the user with a message of someone else after the user's watermark. Marking a
  conversation read moves only that watermark: the conversation keeps its dot iff a message of
  someone else comes after the one named, and no other conversation changes for anybody. If the
  browser's set is the server's list, it is so again after the broadcast of a new message that is
  after the watermark, and after the user's own message, unless that conversation is open, whose
  dot is hidden.\<close>

lemma unread_dots_follow_server:
  assumes "readStatesUnique w"
  shows "(\<exists>ids. chat_findUnreadProjectIds u w = (Inr ids, w) \<and> distinct ids \<and> set ids = unreadProjects w u) \<and>
     (isMember w p u \<longrightarrow>
       (\<exists>t. chat_markRead p u \<lparr>mcd_lastReadMessageId = Some i, mcd_lastReadAt = Some c\<rparr> w = (Inr (), t) \<and>
          (p \<in> unreadProjects t u \<longleftrightarrow> (\<exists>m\<in>set (messages w). cm_projectId m = p \<and>
             cm_userId m \<noteq> Some u \<and> (c, i) < chatKey m)) \<and>
          (\<forall>q v. (q, v) \<noteq> (p, u) \<longrightarrow> (q \<in> unreadProjects t v \<longleftrightarrow> q \<in> unreadProjects w v)))) \<and>
     (chat_create (\<lambda>w. w) (\<lambda>w. w) p v content w = (Inr view, t) \<and> isMember w p u \<and>
        us_projectIds s = unreadProjects w u \<and> us_activeProjectId s \<noteq> Some p \<and>
        (v \<noteq> u \<longrightarrow> unreadIn (readStateOf w p u) (cv_message view)) \<longrightarrow>
      us_projectIds (unread_onCreated (Some u) view s) = unreadProjects t u)"
proof (intro conjI impI)
  show "\<exists>ids. chat_findUnreadProjectIds u w = (Inr ids, w) \<and> distinct ids \<and> set ids = unreadProjects w u"
    by (rule findUnread_run [OF assms])
next
  assume "isMember w p u"
  then obtain t r where t: "chat_markRead p u \<lparr>mcd_lastReadMessageId = Some i, mcd_lastReadAt = Some c\<rparr> w = (Inr (), t)"
    and r: "readStateOf t p u = Some r" "rs_lastReadAt r = c" "rs_lastReadMessageId r = Some i"
    and o: "\<And>q v. (q, v) \<noteq> (p, u) \<Longrightarrow> readStateOf t q v = readStateOf w q v"
    and s: "members t = members w" "messages t = messages w"
    using markRead_run [of w p u i c] by blast
  have mem: "isMember t = isMember w" by (simp add: fun_eq_iff isMember_def s)
  have "p \<in> unreadProjects t u \<longleftrightarrow> (\<exists>m\<in>set (messages w). cm_projectId m = p \<and>
      cm_userId m \<noteq> Some u \<and> (c, i) < chatKey m)"
    using \<open>isMember w p u\<close> by (simp add: unreadProjects_def mem s r(1) unreadIn_row [OF r(3)] r(2))
  moreover have "q \<in> unreadProjects t v \<longleftrightarrow> q \<in> unreadProjects w v" if "(q, v) \<noteq> (p, u)" for q v
    by (simp add: unreadProjects_def mem s o [OF that])
  ultimately show "\<exists>t. chat_markRead p u \<lparr>mcd_lastReadMessageId = Some i, mcd_lastReadAt = Some c\<rparr> w = (Inr (), t) \<and>
          (p \<in> unreadProjects t u \<longleftrightarrow> (\<exists>m\<in>set (messages w). cm_projectId m = p \<and>
             cm_userId m \<noteq> Some u \<and> (c, i) < chatKey m)) \<and>
          (\<forall>q v. (q, v) \<noteq> (p, u) \<longrightarrow> (q \<in> unreadProjects t v \<longleftrightarrow> q \<in> unreadProjects w v))"
    using t by blast
next
  assume "chat_create (\<lambda>w. w) (\<lambda>w. w) p v content w = (Inr view, t) \<and> isMember w p u \<and>
        us_projectIds s = unreadProjects w u \<and> us_activeProjectId s \<noteq> Some p \<and>
        (v \<noteq> u \<longrightarrow> unreadIn (readStateOf w p u) (cv_message view))"
  then have c: "chat_create (\<lambda>w. w) (\<lambda>w. w) p v content w = (Inr view, t)" and mem: "isMember w p u"
    and s: "us_projectIds s = unreadProjects w u" "us_activeProjectId s \<noteq> Some p"
    and un: "v \<noteq> u \<Longrightarrow> unreadIn (readStateOf w p u) (cv_message view)" by auto
  note n = chat_create_Inr [OF c, unfolded Let_def]
  have "unreadProjects t u = unreadProjects w u \<union> (if v \<noteq> u then {p} else {})"
    using unreadProjects_append [of t w "cv_message view" u] n mem un by simp
  then show "us_projectIds (unread_onCreated (Some u) view s) = unreadProjects t u"
    using n s by (auto simp: unread_onCreated_def Let_def)
qed

lemma unread_dots_follow_server_sample:
  "\<exists>t. chat_markRead ''p'' ''u'' \<lparr>mcd_lastReadMessageId = Some ''2'', mcd_lastReadAt = Some 5\<rparr> chatWorld = (Inr (), t) \<and>
     ''p'' \<notin> unreadProjects t ''u''"
proof -
  have un: "readStatesUnique chatWorld" by (simp add: readStatesUnique_def chatWorld_def emptyWorld_def)
  have mem: "isMember chatWorld ''p'' ''u''" by (simp add: isMember_def chatWorld_def)
  from unread_dots_follow_server [OF un, THEN conjunct2, THEN conjunct1, rule_format, OF mem, of "''2''" 5]
  obtain t where
    "chat_markRead ''p'' ''u'' \<lparr>mcd_lastReadMessageId = Some ''2'', mcd_lastReadAt = Some 5\<rparr> chatWorld = (Inr (), t)"
    "''p'' \<in> unreadProjects t ''u'' \<longleftrightarrow> (\<exists>m\<in>set (messages chatWorld). cm_projectId m = ''p'' \<and>
       cm_userId m \<noteq> Some ''u'' \<and> (5, ''2'') < chatKey m)"
    by (elim exE conjE)
  then show ?thesis by (auto simp: chatWorld_def chatKey_def)
qed

end
