(* ===== verification/Checklist.thy ===== *)
theory Checklist
  imports Projects FieldLocks
begin

text \<open>
  \<open>EvaluationChecklistItemsService\<close>
  (\<open>backend/src/evaluation-checklist-items/evaluation-checklist-items.service.ts\<close>): a capped
  section per project, label edits under a field-lock lease, and the notification sent when a
  section reaches 100%. \<open>wait\<close> is what other requests do while the handler waits for its field
  lock, \<open>gap\<close> what they do between its read of the section and its write.
\<close>

section \<open>Request bodies and constants\<close>

record create_item_dto =
  cci_label :: string
  cci_section :: checklist_section
  cci_order :: int

record update_item_dto =
  uci_label :: "string option"
  uci_isChecked :: "bool option"
  uci_order :: "int option"

definition EVALUATION_CHECKLIST_MAX_ITEMS_PER_SECTION :: nat where
  "EVALUATION_CHECKLIST_MAX_ITEMS_PER_SECTION = 50"

fun SECTION_LABELS :: "checklist_section \<Rightarrow> string" where
  "SECTION_LABELS MANDATORY = ''Mandatory Part''"
| "SECTION_LABELS BONUS = ''Bonus Part''"
| "SECTION_LABELS SUPPLEMENTAL = ''Supplemental Goal''"

definition itemKey :: "ident \<Rightarrow> string" where
  "itemKey i = ''checklist-item:'' @ i"

definition itemNotFound :: exn where
  "itemNotFound = NotFound ''Checklist item not found''"

definition sectionFull :: exn where
  "sectionFull = BadRequest ''A section can have at most 50 checklist items''"

definition itemLeaseRequired :: exn where
  "itemLeaseRequired = Forbidden ''A current editing lease is required to update this item''"

definition itemBeingEdited :: exn where
  "itemBeingEdited = Forbidden ''This item is currently being edited by someone else''"

section \<open>Reads and create\<close>

definition item_findAll :: "ident \<Rightarrow> ident \<Rightarrow> checklist_row list service" where
  "item_findAll projectId userId =
     andThen (assertMembership projectId userId) (\<lambda>_.
     findMany checklist (\<lambda>c. ci_projectId c = projectId))"

definition item_findById :: "ident \<Rightarrow> ident \<Rightarrow> ident \<Rightarrow> checklist_row service" where
  "item_findById projectId i userId =
     resourceGuard checklist ci_id ci_projectId itemNotFound (i, projectId, userId)"

definition item_create :: "ident \<Rightarrow> create_item_dto \<Rightarrow> ident \<Rightarrow> checklist_row service" where
  "item_create projectId dto userId =
     andThen (assertMembership projectId userId) (\<lambda>_.
     andThen (createCapped checklist checklist_update
       (\<lambda>c. ci_projectId c = projectId \<and> ci_section c = cci_section dto)
       EVALUATION_CHECKLIST_MAX_ITEMS_PER_SECTION sectionFull
       (requireRow projects (\<lambda>p. p_id p = projectId) ''P2025'') ci_id
       (\<lambda>i. \<lparr>ci_id = i, ci_projectId = projectId, ci_label = cci_label dto, ci_isChecked = False,
             ci_order = cci_order dto, ci_section = cci_section dto\<rparr>)) (\<lambda>createdItem.
     andThen (emitToProject projectId ''checklist-item:created'' (P_checklist createdItem) None) (\<lambda>_.
     ret createdItem)))"

section \<open>The completion notification\<close>

definition completionMessage :: "checklist_section \<Rightarrow> string \<Rightarrow> string" where
  "completionMessage sec projectName = SECTION_LABELS sec @ '' reached 100% on '' @ quoted projectName"

definition checklistLink :: "ident \<Rightarrow> string option" where
  "checklistLink projectId = Some (''/'' @ projectId @ ''/evaluation-checklist'')"

definition notifySectionIfJustCompleted ::
  "ident \<Rightarrow> checklist_section \<Rightarrow> int \<Rightarrow> bool list \<Rightarrow> ident \<Rightarrow> unit service" where
  "notifySectionIfJustCompleted projectId sec previousPercent currentItems actingUserId =
     (if previousPercent \<ge> 100 then ret ()
      else if computeSectionPercent currentItems < 100 then ret ()
      else andThen (findOrThrow projects (\<lambda>p. p_id p = projectId)) (\<lambda>project.
           andThen (findMany members (\<lambda>m. pm_projectId m = projectId)) (\<lambda>ms.
           promiseAll (filter (\<lambda>m. pm_userId m \<noteq> actingUserId) ms) (\<lambda>m.
             notification_create (pm_userId m) (completionMessage sec (p_name project))
               (checklistLink projectId)))))"

section \<open>Update and delete\<close>

definition applyItemDto :: "update_item_dto \<Rightarrow> checklist_row \<Rightarrow> checklist_row" where
  "applyItemDto dto c = c\<lparr>
     ci_label := (case uci_label dto of None \<Rightarrow> ci_label c | Some l \<Rightarrow> l),
     ci_isChecked := (case uci_isChecked dto of None \<Rightarrow> ci_isChecked c | Some b \<Rightarrow> b),
     ci_order := (case uci_order dto of None \<Rightarrow> ci_order c | Some n \<Rightarrow> n)\<rparr>"

definition sectionRows :: "ident \<Rightarrow> checklist_section \<Rightarrow> checklist_row list service" where
  "sectionRows projectId sec =
     findMany checklist (\<lambda>c. ci_projectId c = projectId \<and> ci_section c = sec)"

record item_result =
  ir_existing :: checklist_row
  ir_section :: "checklist_row list"
  ir_previousPercent :: int
  ir_item :: checklist_row

text \<open>The local function \<open>updateItem\<close>.\<close>

definition updateItem ::
  "(world \<Rightarrow> world) \<Rightarrow> ident \<Rightarrow> ident \<Rightarrow> update_item_dto \<Rightarrow> checklist_row \<Rightarrow> item_result service" where
  "updateItem gap projectId i dto existingItem =
     andThen (sectionRows projectId (ci_section existingItem)) (\<lambda>rows.
     andThen (modify gap) (\<lambda>_.
     andThen (catching
       (updateOne checklist checklist_update (\<lambda>c. ci_id c = i) (applyItemDto dto))
       (\<lambda>e. if isRecordNotFoundError e then throw itemNotFound else throw e)) (\<lambda>updatedItem.
     ret \<lparr>ir_existing = existingItem, ir_section = rows,
          ir_previousPercent = computeSectionPercent (map ci_isChecked rows), ir_item = updatedItem\<rparr>)))"

definition item_update ::
  "(world \<Rightarrow> world) \<Rightarrow> (world \<Rightarrow> world) \<Rightarrow> ident \<Rightarrow> ident \<Rightarrow> update_item_dto \<Rightarrow> ident \<Rightarrow>
   string option \<Rightarrow> checklist_row service" where
  "item_update wait gap projectId i dto userId fieldLockToken =
     andThen (case uci_label dto of
         Some _ \<Rightarrow> catching
           (withValidatedLease wait projectId (itemKey i) userId fieldLockToken
             (item_findById projectId i userId) (updateItem gap projectId i dto))
           (\<lambda>e. if e = FieldLockLeaseError then throw itemLeaseRequired else throw e)
       | None \<Rightarrow> andThen (item_findById projectId i userId) (updateItem gap projectId i dto)) (\<lambda>result.
     andThen (notifySectionIfJustCompleted projectId (ci_section (ir_existing result))
       (ir_previousPercent result)
       (map (\<lambda>c. if ci_id c = i then ci_isChecked (ir_item result) else ci_isChecked c)
         (ir_section result)) userId) (\<lambda>_.
     andThen (emitToProject projectId ''checklist-item:updated'' (P_checklist (ir_item result)) None) (\<lambda>_.
     ret (ir_item result))))"

definition deleteItem ::
  "(world \<Rightarrow> world) \<Rightarrow> ident \<Rightarrow> ident \<Rightarrow> ident \<Rightarrow> string option \<Rightarrow>
   (item_result \<times> released_lock option) service" where
  "deleteItem gap projectId i userId fieldLockToken =
     andThen (item_findById projectId i userId) (\<lambda>existingItem.
     andThen (assertLeaseOwnerIfLocked projectId (itemKey i) userId fieldLockToken) (\<lambda>_.
     andThen (sectionRows projectId (ci_section existingItem)) (\<lambda>rows.
     andThen (modify gap) (\<lambda>_.
     andThen (catching
       (deleteOne checklist checklist_update (\<lambda>c. ci_id c = i))
       (\<lambda>e. if isRecordNotFoundError e then ret existingItem else throw e)) (\<lambda>deletedItem.
     andThen (releaseResource (itemKey i)) (\<lambda>released.
     ret (\<lparr>ir_existing = existingItem, ir_section = rows,
           ir_previousPercent = computeSectionPercent (map ci_isChecked rows),
           ir_item = deletedItem\<rparr>, released)))))))"

definition item_remove ::
  "(world \<Rightarrow> world) \<Rightarrow> (world \<Rightarrow> world) \<Rightarrow> ident \<Rightarrow> ident \<Rightarrow> ident \<Rightarrow> string option \<Rightarrow>
   checklist_row service" where
  "item_remove wait gap projectId i userId fieldLockToken =
     andThen (catching
       (withProjectResource wait (deleteItem gap projectId i userId fieldLockToken))
       (\<lambda>e. if e = FieldLockLeaseError then throw itemBeingEdited else throw e)) (\<lambda>(result, released).
     andThen (case released of None \<Rightarrow> ret () | Some r \<Rightarrow> emitFieldUnlock r) (\<lambda>_.
     andThen (notifySectionIfJustCompleted projectId (ci_section (ir_existing result))
       (ir_previousPercent result)
       (map ci_isChecked (filter (\<lambda>c. ci_id c \<noteq> i) (ir_section result))) userId) (\<lambda>_.
     andThen (emitToProject projectId ''checklist-item:deleted'' (P_checklist (ir_item result)) None) (\<lambda>_.
     ret (ir_item result)))))"

section \<open>The cap\<close>

interpretation checklistSections: capped checklist checklist_update
  "\<lambda>c. (ci_projectId c, ci_section c)" EVALUATION_CHECKLIST_MAX_ITEMS_PER_SECTION
  by unfold_locales

definition sectionsCapped :: "world \<Rightarrow> bool" where
  "sectionsCapped w \<longleftrightarrow> (\<forall>p sec. length (filter (\<lambda>c. ci_projectId c = p \<and> ci_section c = sec)
     (checklist w)) \<le> EVALUATION_CHECKLIST_MAX_ITEMS_PER_SECTION)"

lemma sectionsCapped_iff: "sectionsCapped w = checklistSections.withinCap w"
  by (simp add: sectionsCapped_def checklistSections.withinCap_def)

lemma sectionsCapped_cong: "checklist w' = checklist w \<Longrightarrow> sectionsCapped w' = sectionsCapped w"
  by (simp add: sectionsCapped_def)

lemma sectionsCapped_quiet: "quiet sectionsCapped"
  by (rule quietI) (simp_all add: sectionsCapped_def)

lemma sectionsCapped_complete:
  assumes "sectionsCapped w"
  shows "100 \<le> computeSectionPercent (map ci_isChecked
           (filter (\<lambda>c. ci_projectId c = p \<and> ci_section c = sec) (checklist w))) \<longleftrightarrow>
         allChecked (map ci_isChecked (filter (\<lambda>c. ci_projectId c = p \<and> ci_section c = sec) (checklist w)))"
  using assms by (intro computeSectionPercent_complete)
    (fastforce simp: sectionsCapped_def EVALUATION_CHECKLIST_MAX_ITEMS_PER_SECTION_def
      intro: le_less_trans)

section \<open>Inversions\<close>

text \<open>The rows of a section.\<close>

definition sectionChecks :: "world \<Rightarrow> ident \<Rightarrow> checklist_section \<Rightarrow> checklist_row list" where
  "sectionChecks w p sec = filter (\<lambda>x. ci_projectId x = p \<and> ci_section x = sec) (checklist w)"

text \<open>The members the completion of a section is announced to, and what they read.\<close>

definition completionNotes ::
  "world \<Rightarrow> ident \<Rightarrow> checklist_section \<Rightarrow> ident \<Rightarrow> (ident \<times> string \<times> string option) list" where
  "completionNotes w projectId sec actingUserId =
     (case List.find (\<lambda>p. p_id p = projectId) (projects w) of None \<Rightarrow> []
      | Some project \<Rightarrow> map (\<lambda>m. (pm_userId m, completionMessage sec (p_name project), checklistLink projectId))
          (filter (\<lambda>m. pm_userId m \<noteq> actingUserId) (filter (\<lambda>m. pm_projectId m = projectId) (members w))))"

lemma completionNotes_cong:
  "projects w' = projects w \<Longrightarrow> members w' = members w \<Longrightarrow>
   completionNotes w' p sec u = completionNotes w p sec u"
  by (simp add: completionNotes_def split: option.split)

lemma notifySection_Inr:
  assumes "notifySectionIfJustCompleted p sec prev items u w = (Inr x, t)"
  shows "map noteKey (notifications t) = map noteKey (notifications w) @
     (if prev < 100 \<and> 100 \<le> computeSectionPercent items then completionNotes w p sec u else [])"
  using assms
  by (auto simp: notifySectionIfJustCompleted_def success_iffs prisma_Inr completionNotes_def
      split: if_splits dest!: notify_each)

lemma keeps_notifySection:
  "quiet I \<Longrightarrow> keeps I (notifySectionIfJustCompleted p sec prev items u)"
  unfolding notifySectionIfJustCompleted_def
  by (intro keeps_rules quiet_keeps)

lemma item_findById_Inr:
  "item_findById p i u w = (Inr c, t) \<Longrightarrow>
   t = w \<and> isMember w p u \<and> c \<in> set (checklist w) \<and> ci_id c = i \<and> ci_projectId c = p"
  unfolding item_findById_def by (rule resourceGuard_Inr)

lemma updateItem_Inr:
  "updateItem gap p i dto c w = (Inr r, t) \<longleftrightarrow>
   (\<exists>c0. List.find (\<lambda>c. ci_id c = i) (checklist (gap w)) = Some c0 \<and>
      t = checklist_update (map (\<lambda>c. if ci_id c = i then applyItemDto dto c else c)) (gap w) \<and>
      r = \<lparr>ir_existing = c,
        ir_section = sectionChecks w p (ci_section c),
        ir_previousPercent = computeSectionPercent (map ci_isChecked
          (sectionChecks w p (ci_section c))),
        ir_item = applyItemDto dto c0\<rparr>)"
  by (auto simp: updateItem_def sectionRows_def sectionChecks_def success_iffs prisma_Inr catching_Inr throw_Inr split: if_splits)

text \<open>
  A successful update in one formula: \<open>v\<close> is the world the item was read in, \<open>gap v\<close> the one it
  was written in.
\<close>

lemma item_update_Inr:
  assumes "item_update wait gap p i dto u tok w = (Inr r, t)"
    and "v = (if uci_label dto = None then w else wait w)"
  obtains c c0 x where "isMember v p u" "c \<in> set (checklist v)" "ci_id c = i" "ci_projectId c = p"
    "List.find (\<lambda>c. ci_id c = i) (checklist (gap v)) = Some c0" "r = applyItemDto dto c0"
    "uci_label dto \<noteq> None \<longrightarrow> (\<exists>tk l. tok = Some tk \<and> leaseAt v (itemKey i) = Some l \<and>
       l_userId l = u \<and> l_projectId l = p \<and> l_token l = tk \<and> clock v < l_expiresAt l)"
    "notifySectionIfJustCompleted p (ci_section c)
       (computeSectionPercent (map ci_isChecked
          (sectionChecks v p (ci_section c))))
       (map (\<lambda>x. if ci_id x = i then ci_isChecked r else ci_isChecked x)
          (sectionChecks v p (ci_section c))) u
       (checklist_update (map (\<lambda>c. if ci_id c = i then applyItemDto dto c else c)) (gap v)) = (Inr (), x)"
    "emitToProject p ''checklist-item:updated'' (P_checklist r) None x = (Inr (), t)"
proof -
  obtain res s x where core: "(case uci_label dto of
         Some _ \<Rightarrow> catching
           (withValidatedLease wait p (itemKey i) u tok (item_findById p i u) (updateItem gap p i dto))
           (\<lambda>e. if e = FieldLockLeaseError then throw itemLeaseRequired else throw e)
       | None \<Rightarrow> andThen (item_findById p i u) (updateItem gap p i dto)) w = (Inr res, s)"
    and n: "notifySectionIfJustCompleted p (ci_section (ir_existing res)) (ir_previousPercent res)
       (map (\<lambda>c. if ci_id c = i then ci_isChecked (ir_item res) else ci_isChecked c)
         (ir_section res)) u s = (Inr (), x)"
    and e: "emitToProject p ''checklist-item:updated'' (P_checklist (ir_item res)) None x = (Inr (), t)"
    and r: "r = ir_item res"
    using assms(1) by (auto simp: item_update_def success_iffs)
  have "\<exists>c. item_findById p i u v = (Inr c, v) \<and> updateItem gap p i dto c v = (Inr res, s) \<and>
      (uci_label dto \<noteq> None \<longrightarrow> (\<exists>tk l. tok = Some tk \<and> leaseAt v (itemKey i) = Some l \<and>
       l_userId l = u \<and> l_projectId l = p \<and> l_token l = tk \<and> clock v < l_expiresAt l))"
  proof (cases "uci_label dto")
    case None
    then show ?thesis using core assms(2) by (auto simp: success_iffs dest: item_findById_Inr)
  next
    case (Some lab)
    have "withValidatedLease wait p (itemKey i) u tok (item_findById p i u) (updateItem gap p i dto) w = (Inr res, s)"
      using core Some by (auto simp: catching_Inr throw_Inr split: if_splits)
    from withValidatedLease_Inr [OF this] item_findById_Inr show ?thesis
      using Some assms(2) by fastforce
  qed
  then obtain c where c: "item_findById p i u v = (Inr c, v)" "updateItem gap p i dto c v = (Inr res, s)"
    "uci_label dto \<noteq> None \<longrightarrow> (\<exists>tk l. tok = Some tk \<and> leaseAt v (itemKey i) = Some l \<and>
       l_userId l = u \<and> l_projectId l = p \<and> l_token l = tk \<and> clock v < l_expiresAt l)" by blast
  from c(2) obtain c0 where c0: "List.find (\<lambda>c. ci_id c = i) (checklist (gap v)) = Some c0"
    and s: "s = checklist_update (map (\<lambda>c. if ci_id c = i then applyItemDto dto c else c)) (gap v)"
    and res: "res = \<lparr>ir_existing = c,
        ir_section = sectionChecks v p (ci_section c),
        ir_previousPercent = computeSectionPercent (map ci_isChecked
          (sectionChecks v p (ci_section c))),
        ir_item = applyItemDto dto c0\<rparr>" by (auto simp: updateItem_Inr)
  have r': "ir_item res = r" using r by simp
  have x: "ir_existing res = c" "ir_section res = sectionChecks v p (ci_section c)" "r = applyItemDto dto c0" by (simp_all add: r res)
  note n' = n [unfolded r' x(1,2) s]
  have "ir_previousPercent res = computeSectionPercent (map ci_isChecked
      (sectionChecks v p (ci_section c)))" by (simp add: res)
  note n'' = n' [unfolded this]
  show ?thesis
    by (rule that [OF _ _ _ _ c0 x(3) c(3) n'' e [unfolded r']]) (use item_findById_Inr [OF c(1)] in auto)
qed

lemma item_remove_Inr:
  assumes "item_remove wait gap p i u tok w = (Inr r, t)"
  obtains c s x where "c \<in> set (checklist (wait w))" "ci_id c = i" "ci_projectId c = p"
    "isMember (wait w) p u" "checklist s = checklist (wait w)"
    "notifications x = notifications (gap s)" "projects x = projects (gap s)" "members x = members (gap s)"
    "checklist x = filter (\<lambda>c. ci_id c \<noteq> i) (checklist (gap s))"
    "\<exists>y. notifySectionIfJustCompleted p (ci_section c)
       (computeSectionPercent (map ci_isChecked
          (sectionChecks (wait w) p (ci_section c))))
       (map ci_isChecked (filter (\<lambda>c. ci_id c \<noteq> i)
          (sectionChecks (wait w) p (ci_section c)))) u x
       = (Inr (), y) \<and> notifications t = notifications y \<and> checklist t = checklist y"
proof -
  obtain res rl v x y where core: "deleteItem gap p i u tok (wait w) = (Inr (res, rl), v)"
    and ul: "(case rl of None \<Rightarrow> ret () | Some r \<Rightarrow> emitFieldUnlock r) v = (Inr (), x)"
    and n: "notifySectionIfJustCompleted p (ci_section (ir_existing res)) (ir_previousPercent res)
       (map ci_isChecked (filter (\<lambda>c. ci_id c \<noteq> i) (ir_section res))) u x = (Inr (), y)"
    and e: "emitToProject p ''checklist-item:deleted'' (P_checklist (ir_item res)) None y = (Inr (), t)"
    using assms by (auto simp: item_remove_def success_iffs catching_Inr lease_writes_run throw_Inr split: if_splits prod.splits)
  obtain c v0 s d v' where c0: "item_findById p i u (wait w) = (Inr c, v0)"
    and s0: "assertLeaseOwnerIfLocked p (itemKey i) u tok v0 = (Inr (), s)"
    and d: "catching (deleteOne checklist checklist_update (\<lambda>c. ci_id c = i))
       (\<lambda>e. if isRecordNotFoundError e then ret c else throw e) (gap s) = (Inr d, v')"
    and rl: "releaseResource (itemKey i) v' = (Inr rl, v)"
    and res: "ir_existing res = c" "ir_section res = sectionChecks s p (ci_section c)"
       "ir_previousPercent res = computeSectionPercent (map ci_isChecked
          (sectionChecks s p (ci_section c)))"
    using core by (auto simp: deleteItem_def success_iffs sectionRows_def sectionChecks_def prisma_Inr)
  have v0: "v0 = wait w" using item_findById_Inr [OF c0] by blast
  note c = c0 [unfolded v0] and s = s0 [unfolded v0]
  have ck: "checklist s = checklist (wait w)"
    using s by (rule keeps_run [where I = "\<lambda>s. checklist s = checklist (wait w)", rotated 2])
      (simp_all add: keeps_leases)
  have v': "v' = checklist_update (filter (\<lambda>c. ci_id c \<noteq> i)) (gap s)"
    using d by (auto simp: catching_def run_simps filter_id_if_absent isRecordNotFoundError_def
        split: option.splits)
  let ?K = "\<lambda>v. notifications v = notifications v' \<and> projects v = projects v' \<and>
      members v = members v' \<and> checklist v = checklist v'"
  have "?K v" using rl by (rule keeps_run [where I = ?K, rotated 2]) (simp_all add: keeps_leases)
  then have "?K x" using ul by (auto simp: run_simps emitFieldUnlock_def split: option.splits prod.splits)
  then have K: "notifications x = notifications (gap s)" "projects x = projects (gap s)"
    "members x = members (gap s)" "checklist x = filter (\<lambda>c. ci_id c \<noteq> i) (checklist (gap s))"
    by (simp_all add: v')
  have "notifications t = notifications y \<and> checklist t = checklist y"
    using e by (auto simp: emitToProject_def run_simps)
  then show ?thesis
    using that [OF _ _ _ _ ck K] item_findById_Inr [OF c] n
    unfolding res sectionChecks_def ck by blast
qed

section \<open>Properties\<close>

definition justCompleted :: "bool list \<Rightarrow> bool list \<Rightarrow> bool" where
  "justCompleted before after \<longleftrightarrow> \<not> allChecked before \<and> allChecked after"

lemma justCompleted_percent:
  assumes "sectionsCapped w" and "length after \<le> length (sectionChecks w p sec)"
  shows "(computeSectionPercent (map ci_isChecked (sectionChecks w p sec)) < 100 \<and>
     100 \<le> computeSectionPercent after) = justCompleted (map ci_isChecked (sectionChecks w p sec)) after"
proof -
  have "length (sectionChecks w p sec) \<le> 50"
    using assms(1) by (simp add: sectionsCapped_def sectionChecks_def EVALUATION_CHECKLIST_MAX_ITEMS_PER_SECTION_def)
  then show ?thesis
    using assms(2) computeSectionPercent_complete [of after]
      computeSectionPercent_complete [of "map ci_isChecked (sectionChecks w p sec)"]
    by (auto simp: justCompleted_def not_le)
qed

text \<open>C18 A completed section is announced once, to the right people: a successful update or deletion
  of an item tells every other member of the project, in one notification each, exactly when it
  turned the section the item is in from not fully checked to fully checked (a section emptied
  by a deletion is not complete), and otherwise sends no notification at all.\<close>

theorem completion_announced_exactly_once:
  shows "(item_update wait gap p i dto u tok w = (Inr r, t) \<and>
       v = (if uci_label dto = None then w else wait w) \<and> sectionsCapped v \<longrightarrow>
     (\<exists>c\<in>set (checklist v). ci_id c = i \<and> ci_projectId c = p \<and>
       map noteKey (notifications t) = map noteKey (notifications (gap v)) @
         (if justCompleted (map ci_isChecked (sectionChecks v p (ci_section c)))
              (map (\<lambda>x. if ci_id x = i then ci_isChecked r else ci_isChecked x)
                (sectionChecks v p (ci_section c)))
          then completionNotes (gap v) p (ci_section c) u else []))) \<and>
   (item_remove wait gap p i u tok w = (Inr r, t) \<and> sectionsCapped (wait w) \<longrightarrow>
     (\<exists>c\<in>set (checklist (wait w)). \<exists>s. ci_id c = i \<and> ci_projectId c = p \<and> checklist s = checklist (wait w) \<and>
       map noteKey (notifications t) = map noteKey (notifications (gap s)) @
         (if justCompleted (map ci_isChecked (sectionChecks (wait w) p (ci_section c)))
              (map ci_isChecked (filter (\<lambda>x. ci_id x \<noteq> i) (sectionChecks (wait w) p (ci_section c))))
          then completionNotes (gap s) p (ci_section c) u else [])))"
proof (intro conjI impI; elim conjE)
  assume up: "item_update wait gap p i dto u tok w = (Inr r, t)"
    and v: "v = (if uci_label dto = None then w else wait w)" and cap: "sectionsCapped v"
  obtain c x where c: "c \<in> set (checklist v)" "ci_id c = i" "ci_projectId c = p"
    and n: "notifySectionIfJustCompleted p (ci_section c)
       (computeSectionPercent (map ci_isChecked (sectionChecks v p (ci_section c))))
       (map (\<lambda>x. if ci_id x = i then ci_isChecked r else ci_isChecked x) (sectionChecks v p (ci_section c))) u
       (checklist_update (map (\<lambda>c. if ci_id c = i then applyItemDto dto c else c)) (gap v)) = (Inr (), x)"
    and e: "emitToProject p ''checklist-item:updated'' (P_checklist r) None x = (Inr (), t)"
    by (rule item_update_Inr [OF up v]) blast
  have "notifications t = notifications x" using e by (auto simp: emitToProject_def run_simps)
  then show "\<exists>c\<in>set (checklist v). ci_id c = i \<and> ci_projectId c = p \<and>
       map noteKey (notifications t) = map noteKey (notifications (gap v)) @
         (if justCompleted (map ci_isChecked (sectionChecks v p (ci_section c)))
              (map (\<lambda>x. if ci_id x = i then ci_isChecked r else ci_isChecked x)
                (sectionChecks v p (ci_section c)))
          then completionNotes (gap v) p (ci_section c) u else [])"
    using c notifySection_Inr [OF n]
    by (intro bexI [of _ c]) (simp_all add: justCompleted_percent [OF cap]
      completionNotes_cong [of "checklist_update _ _"])
next
  assume rm: "item_remove wait gap p i u tok w = (Inr r, t)" and cap: "sectionsCapped (wait w)"
  obtain c s x y where c: "c \<in> set (checklist (wait w))" "ci_id c = i" "ci_projectId c = p"
      "checklist s = checklist (wait w)"
    and x: "notifications x = notifications (gap s)" "projects x = projects (gap s)" "members x = members (gap s)"
    and n: "notifySectionIfJustCompleted p (ci_section c)
       (computeSectionPercent (map ci_isChecked (sectionChecks (wait w) p (ci_section c))))
       (map ci_isChecked (filter (\<lambda>c. ci_id c \<noteq> i) (sectionChecks (wait w) p (ci_section c)))) u x = (Inr (), y)"
    and y: "notifications t = notifications y"
    by (rule item_remove_Inr [OF rm]) blast
  show "\<exists>c\<in>set (checklist (wait w)). \<exists>s. ci_id c = i \<and> ci_projectId c = p \<and> checklist s = checklist (wait w) \<and>
       map noteKey (notifications t) = map noteKey (notifications (gap s)) @
         (if justCompleted (map ci_isChecked (sectionChecks (wait w) p (ci_section c)))
              (map ci_isChecked (filter (\<lambda>x. ci_id x \<noteq> i) (sectionChecks (wait w) p (ci_section c))))
          then completionNotes (gap s) p (ci_section c) u else [])"
    using c x y notifySection_Inr [OF n]
    by (intro bexI [of _ c] exI [of _ s]) (simp_all add: justCompleted_percent [OF cap]
      completionNotes_cong [of x])
qed

definition reviewWorld :: world where
  "reviewWorld = emptyWorld\<lparr>
     users := [\<lparr>u_id = ''v'', u_email = [], u_username = ''vic'', u_firstName = None, u_lastName = None,
       u_avatarUrl = None, u_campus = None, u_status = ACTIVE, u_updatedAt = 0\<rparr>],
     projects := [\<lparr>p_id = ''p'', p_name = ''ft'', p_description = None, p_status = P_IN_PROGRESS,
       p_deadline = None, p_isArchived = False, p_updatedAt = 0\<rparr>],
     members := [\<lparr>pm_userId = ''u'', pm_projectId = ''p'', pm_role = OWNER, pm_createdAt = 0\<rparr>,
       \<lparr>pm_userId = ''v'', pm_projectId = ''p'', pm_role = MEMBER, pm_createdAt = 0\<rparr>],
     checklist := [\<lparr>ci_id = ''a'', ci_projectId = ''p'', ci_label = ''x'', ci_isChecked = True,
         ci_order = 0, ci_section = BONUS\<rparr>,
       \<lparr>ci_id = ''b'', ci_projectId = ''p'', ci_label = ''y'', ci_isChecked = False,
         ci_order = 1, ci_section = BONUS\<rparr>]\<rparr>"

definition tick :: update_item_dto where
  "tick = \<lparr>uci_label = None, uci_isChecked = Some True, uci_order = None\<rparr>"

lemma reviewWorld_capped: "sectionsCapped reviewWorld"
  by (simp add: sectionsCapped_def reviewWorld_def EVALUATION_CHECKLIST_MAX_ITEMS_PER_SECTION_def)

lemma reviewWorld_tick:
  "\<exists>r t. item_update (\<lambda>w. w) (\<lambda>w. w) ''p'' ''b'' tick ''u'' None reviewWorld = (Inr r, t) \<and> ci_isChecked r"
proof -
  have "computeSectionPercent [True, False] < 100" "100 \<le> computeSectionPercent [True, True]"
    using computeSectionPercent_complete [of "[True, False]"] computeSectionPercent_complete [of "[True, True]"]
    by (auto simp: allChecked_def)
  then show ?thesis
    by (simp add: item_update_def tick_def item_findById_def resourceGuard_def updateItem_def
      notifySectionIfJustCompleted_def notification_create_def emitToUser_def emitToProject_def sectionRows_def
      applyItemDto_def reviewWorld_def emptyWorld_def run_simps)
qed

theorem completion_announced_exactly_once_witness:
  "\<exists>r t. item_update (\<lambda>w. w) (\<lambda>w. w) ''p'' ''b'' tick ''u'' None reviewWorld = (Inr r, t) \<and>
     map noteKey (notifications t) = [(''v'', ''Bonus Part reached 100% on '' @ quoted ''ft'',
       Some ''/p/evaluation-checklist'')]"
proof -
  obtain r t where run: "item_update (\<lambda>w. w) (\<lambda>w. w) ''p'' ''b'' tick ''u'' None reviewWorld = (Inr r, t)"
    and r: "ci_isChecked r" using reviewWorld_tick by blast
  have "map noteKey (notifications t) = [(''v'', ''Bonus Part reached 100% on '' @ quoted ''ft'',
       Some ''/p/evaluation-checklist'')]"
    using completion_announced_exactly_once [of "\<lambda>w. w" "\<lambda>w. w" "''p''" "''b''" tick "''u''" None reviewWorld r t
        reviewWorld] run r reviewWorld_capped
    by (simp add: tick_def)
      (auto simp: reviewWorld_def emptyWorld_def sectionChecks_def justCompleted_def allChecked_def
        completionNotes_def completionMessage_def checklistLink_def)
  with run show ?thesis by (intro exI conjI)
qed

section \<open>Preservation\<close>

lemma applyItemDto_group [simp]:
  "ci_projectId (applyItemDto dto c) = ci_projectId c" "ci_section (applyItemDto dto c) = ci_section c"
  "ci_id (applyItemDto dto c) = ci_id c"
  by (simp_all add: applyItemDto_def)

lemma keeps_item_create:
  assumes "quiet I"
    and "\<And>inGroup mk. inGroup = (\<lambda>c. ci_projectId c = p \<and> ci_section c = cci_section dto) \<Longrightarrow>
      (\<And>i. ci_projectId (mk i) = p \<and> ci_section (mk i) = cci_section dto) \<Longrightarrow>
      keeps I (createCapped checklist checklist_update inGroup EVALUATION_CHECKLIST_MAX_ITEMS_PER_SECTION
        sectionFull (requireRow projects (\<lambda>q. p_id q = p) ''P2025'') ci_id mk)"
  shows "keeps I (item_create p dto u)"
  unfolding item_create_def
  by (intro keeps_rules quiet_keeps [OF assms(1)] assms(2)) simp_all

text \<open>
  An invariant survives updates and deletions when it survives what the locks let in, the lock
  table's own writes and one write to the table.
\<close>

lemma keeps_item_ops:
  assumes "quiet I" and "\<And>w. I w \<Longrightarrow> I (wait w)" and "\<And>w. I w \<Longrightarrow> I (gap w)"
    and "\<And>w f. I w \<Longrightarrow> I (leases_update f w)"
    and up: "\<And>dto. keeps I (updateOne checklist checklist_update (\<lambda>c. ci_id c = i) (applyItemDto dto))"
    and del: "keeps I (deleteOne checklist checklist_update (\<lambda>c. ci_id c = i))"
  shows "keeps I (item_update wait gap p i dto u tok)" and "keeps I (item_remove wait gap p i u tok)"
proof -
  have ob: "I w \<Longrightarrow> I (w\<lparr>outbox := ems\<rparr>)" for w ems using assms(1) by (simp add: quiet_def)
  have g: "keeps I (item_findById p i u)" for i
    unfolding item_findById_def resourceGuard_def by (auto intro!: keeps_rules)
  have m: "keeps I (modify gap)" by (rule keeps_modify) (rule assms(3))
  have upd: "keeps I (updateItem gap p i dto c)" for c
    unfolding updateItem_def sectionRows_def by (intro keeps_rules m up)
  note q = quiet_keeps [OF assms(1)] keeps_notifySection [OF assms(1)]
  show "keeps I (item_update wait gap p i dto u tok)"
    unfolding item_update_def
    by (intro keeps_rules keeps_withValidatedLease assms(2,4) ob g upd q)
  show "keeps I (item_remove wait gap p i u tok)"
    unfolding item_remove_def deleteItem_def sectionRows_def
    by (intro keeps_rules keeps_withLock keeps_leases m assms(2,4) ob g del q)
qed

end
