(* ===== verification/Discovery.thy ===== *)
theory Discovery
  imports Checklist
begin

text \<open>
  \<open>DiscoveryBlocksService\<close> and \<open>DiscoveryBlockItemsService\<close>
  (\<open>backend/src/discovery-blocks\<close>, \<open>backend/src/discovery-block-items\<close>): the cards of the
  discovery page with their items; a card's status is stored and recomputed after every item
  operation. \<open>wait\<close> and \<open>gap\<close> as in \<open>Checklist\<close>.
\<close>

section \<open>Request bodies and constants\<close>

record create_block_dto =
  cbd_title :: string
  cbd_description :: "string option"
  cbd_icon :: "string option"
  cbd_color :: "int option"
  cbd_notes :: "string option"

record update_block_dto =
  ubd_title :: "string option"
  ubd_description :: "string option"
  ubd_icon :: "string option"
  ubd_color :: "int option"
  ubd_notes :: "string option"

record create_block_item_dto =
  cbi_label :: string
  cbi_order :: int

record update_block_item_dto =
  ubi_label :: "string option"
  ubi_isChecked :: "bool option"
  ubi_order :: "int option"

definition MAX_DISCOVERY_BLOCKS_PER_PROJECT :: nat where
  "MAX_DISCOVERY_BLOCKS_PER_PROJECT = 20"

definition MAX_ITEMS_PER_DISCOVERY_BLOCK :: nat where
  "MAX_ITEMS_PER_DISCOVERY_BLOCK = 30"

definition blockKey :: "ident \<Rightarrow> string" where
  "blockKey i = ''discovery-block:'' @ i"

definition blockNotFound :: exn where
  "blockNotFound = NotFound ''Discovery block not found''"

definition blockItemNotFound :: exn where
  "blockItemNotFound = NotFound ''Discovery block item not found''"

section \<open>Blocks\<close>

definition block_findAllForProject :: "ident \<Rightarrow> nat option \<Rightarrow> block_row list service" where
  "block_findAllForProject projectId limit =
     andThen (findMany blocks (\<lambda>b. b_projectId b = projectId)) (\<lambda>bs.
     ret (case limit of None \<Rightarrow> sort_key b_createdAt bs | Some n \<Rightarrow> take n (sort_key b_createdAt bs)))"

definition block_findAll :: "ident \<Rightarrow> ident \<Rightarrow> block_row list service" where
  "block_findAll projectId userId =
     andThen (assertMembership projectId userId) (\<lambda>_. block_findAllForProject projectId None)"

definition block_findByIdForProject :: "ident \<Rightarrow> ident \<Rightarrow> block_row service" where
  "block_findByIdForProject projectId i =
     andThen (findFirst blocks (\<lambda>b. b_id b = i \<and> b_projectId b = projectId)) (\<lambda>found.
     case found of None \<Rightarrow> throw blockNotFound | Some b \<Rightarrow> ret b)"

definition block_findById :: "ident \<Rightarrow> ident \<Rightarrow> ident \<Rightarrow> block_row service" where
  "block_findById projectId i userId =
     andThen (assertMembership projectId userId) (\<lambda>_. block_findByIdForProject projectId i)"

definition block_create :: "ident \<Rightarrow> create_block_dto \<Rightarrow> ident \<Rightarrow> block_row service" where
  "block_create projectId dto userId =
     andThen (assertMembership projectId userId) (\<lambda>_.
     andThen dateNow (\<lambda>now.
     andThen (createCapped blocks blocks_update (\<lambda>b. b_projectId b = projectId)
       MAX_DISCOVERY_BLOCKS_PER_PROJECT
       (BadRequest ''A project can have at most 20 discovery blocks'')
       (requireRow projects (\<lambda>p. p_id p = projectId) ''P2003'') b_id
       (\<lambda>i. \<lparr>b_id = i, b_projectId = projectId, b_title = cbd_title dto,
         b_description = cbd_description dto, b_icon = cbd_icon dto, b_color = cbd_color dto,
         b_status = NOT_STARTED, b_notes = cbd_notes dto, b_createdAt = now\<rparr>)) (\<lambda>block.
     andThen (emitToProject projectId ''discovery-block:created'' (P_block block) None) (\<lambda>_.
     ret block))))"

definition recalculateStatus :: "ident \<Rightarrow> unit service" where
  "recalculateStatus discoveryBlockId =
     andThen (transaction (
       andThen (findMany blockItems (\<lambda>x. bi_blockId x = discoveryBlockId)) (\<lambda>items.
       updateOne blocks blocks_update (\<lambda>b. b_id b = discoveryBlockId)
         (\<lambda>b. b\<lparr>b_status := computeDiscoveryBlockStatus (map bi_isChecked items)\<rparr>)))) (\<lambda>updatedBlock.
     emitToProject (b_projectId updatedBlock) ''discovery-block:updated'' (P_block updatedBlock) None)"

definition applyBlockDto :: "update_block_dto \<Rightarrow> block_row \<Rightarrow> block_row" where
  "applyBlockDto dto b = b\<lparr>
     b_title := (case ubd_title dto of None \<Rightarrow> b_title b | Some v \<Rightarrow> v),
     b_description := (case ubd_description dto of None \<Rightarrow> b_description b | v \<Rightarrow> v),
     b_icon := (case ubd_icon dto of None \<Rightarrow> b_icon b | v \<Rightarrow> v),
     b_color := (case ubd_color dto of None \<Rightarrow> b_color b | v \<Rightarrow> v),
     b_notes := (case ubd_notes dto of None \<Rightarrow> b_notes b | v \<Rightarrow> v)\<rparr>"

definition block_update ::
  "(world \<Rightarrow> world) \<Rightarrow> (world \<Rightarrow> world) \<Rightarrow> ident \<Rightarrow> ident \<Rightarrow> update_block_dto \<Rightarrow> ident \<Rightarrow>
   string option \<Rightarrow> block_row service" where
  "block_update wait gap projectId i dto userId fieldLockToken =
     andThen (catching
       (withValidatedLease wait projectId (blockKey i) userId fieldLockToken
         (block_findById projectId i userId)
         (\<lambda>_. andThen (modify gap) (\<lambda>_.
              updateOne blocks blocks_update (\<lambda>b. b_id b = i) (applyBlockDto dto))))
       (\<lambda>e. if e = FieldLockLeaseError
            then throw (Forbidden ''A current editing lease is required to update this category'')
            else if isRecordNotFoundError e then throw blockNotFound else throw e)) (\<lambda>updatedBlock.
     andThen (emitToProject projectId ''discovery-block:updated'' (P_block updatedBlock) None) (\<lambda>_.
     ret updatedBlock))"

text \<open>Deleting a block cascades to its items.\<close>

definition deleteBlockRow :: "ident \<Rightarrow> block_row service" where
  "deleteBlockRow i =
     andThen (deleteOne blocks blocks_update (\<lambda>b. b_id b = i)) (\<lambda>deleted.
     andThen (deleteMany blockItems_update (\<lambda>x. bi_blockId x = i)) (\<lambda>_.
     ret deleted))"

definition block_remove ::
  "(world \<Rightarrow> world) \<Rightarrow> (world \<Rightarrow> world) \<Rightarrow> ident \<Rightarrow> ident \<Rightarrow> ident \<Rightarrow> string option \<Rightarrow>
   block_row service" where
  "block_remove wait gap projectId i userId fieldLockToken =
     andThen (catching
       (withProjectResource wait (
         andThen (block_findById projectId i userId) (\<lambda>existingBlock.
         andThen (assertLeaseOwnerIfLocked projectId (blockKey i) userId fieldLockToken) (\<lambda>_.
         andThen (modify gap) (\<lambda>_.
         andThen (catching (deleteBlockRow i)
           (\<lambda>e. if isRecordNotFoundError e then ret existingBlock else throw e)) (\<lambda>deletedBlock.
         andThen (releaseResource (blockKey i)) (\<lambda>released.
         ret (deletedBlock, released))))))))
       (\<lambda>e. if e = FieldLockLeaseError
            then throw (Forbidden ''This category is currently being edited by someone else'')
            else throw e)) (\<lambda>(deletedBlock, released).
     andThen (case released of None \<Rightarrow> ret () | Some r \<Rightarrow> emitFieldUnlock r) (\<lambda>_.
     andThen (emitToProject projectId ''discovery-block:deleted'' (P_block deletedBlock) None) (\<lambda>_.
     ret deletedBlock)))"

section \<open>Items of a block\<close>

definition blockItem_findAll :: "ident \<Rightarrow> ident \<Rightarrow> ident \<Rightarrow> block_item_row list service" where
  "blockItem_findAll projectId discoveryBlockId userId =
     andThen (block_findById projectId discoveryBlockId userId) (\<lambda>_.
     andThen (findMany blockItems (\<lambda>x. bi_blockId x = discoveryBlockId)) (\<lambda>xs.
     ret (sort_key bi_order xs)))"

definition blockItem_findById :: "ident \<Rightarrow> ident \<Rightarrow> ident \<Rightarrow> ident \<Rightarrow> block_item_row service" where
  "blockItem_findById projectId discoveryBlockId i userId =
     andThen (block_findById projectId discoveryBlockId userId) (\<lambda>_.
     andThen (findFirst blockItems (\<lambda>x. bi_id x = i \<and> bi_blockId x = discoveryBlockId)) (\<lambda>found.
     case found of None \<Rightarrow> throw blockItemNotFound | Some x \<Rightarrow> ret x))"

definition blockItem_create ::
  "(world \<Rightarrow> world) \<Rightarrow> ident \<Rightarrow> ident \<Rightarrow> create_block_item_dto \<Rightarrow> ident \<Rightarrow> block_item_row service" where
  "blockItem_create gap projectId discoveryBlockId dto userId =
     andThen (block_findById projectId discoveryBlockId userId) (\<lambda>_.
     andThen (modify gap) (\<lambda>_.
     andThen (createCapped blockItems blockItems_update (\<lambda>x. bi_blockId x = discoveryBlockId)
       MAX_ITEMS_PER_DISCOVERY_BLOCK
       (BadRequest ''A discovery block can have at most 30 items'')
       (requireRow blocks (\<lambda>b. b_id b = discoveryBlockId) ''P2003'') bi_id
       (\<lambda>i. \<lparr>bi_id = i, bi_blockId = discoveryBlockId, bi_label = cbi_label dto,
         bi_isChecked = False, bi_order = cbi_order dto\<rparr>)) (\<lambda>blockItem.
     andThen (recalculateStatus discoveryBlockId) (\<lambda>_.
     andThen (emitToProject projectId ''discovery-item:created'' (P_blockItem blockItem) None) (\<lambda>_.
     ret blockItem)))))"

definition applyBlockItemDto :: "update_block_item_dto \<Rightarrow> block_item_row \<Rightarrow> block_item_row" where
  "applyBlockItemDto dto x = x\<lparr>
     bi_label := (case ubi_label dto of None \<Rightarrow> bi_label x | Some v \<Rightarrow> v),
     bi_isChecked := (case ubi_isChecked dto of None \<Rightarrow> bi_isChecked x | Some v \<Rightarrow> v),
     bi_order := (case ubi_order dto of None \<Rightarrow> bi_order x | Some v \<Rightarrow> v)\<rparr>"

definition blockItem_update ::
  "(world \<Rightarrow> world) \<Rightarrow> ident \<Rightarrow> ident \<Rightarrow> ident \<Rightarrow> update_block_item_dto \<Rightarrow> ident \<Rightarrow>
   block_item_row service" where
  "blockItem_update gap projectId discoveryBlockId i dto userId =
     andThen (blockItem_findById projectId discoveryBlockId i userId) (\<lambda>_.
     andThen (modify gap) (\<lambda>_.
     andThen (catching
       (updateOne blockItems blockItems_update (\<lambda>x. bi_id x = i) (applyBlockItemDto dto))
       (\<lambda>e. if isRecordNotFoundError e then throw blockItemNotFound else throw e)) (\<lambda>updatedItem.
     andThen (recalculateStatus discoveryBlockId) (\<lambda>_.
     andThen (emitToProject projectId ''discovery-item:updated'' (P_blockItem updatedItem) None) (\<lambda>_.
     ret updatedItem)))))"

definition blockItem_remove ::
  "(world \<Rightarrow> world) \<Rightarrow> ident \<Rightarrow> ident \<Rightarrow> ident \<Rightarrow> ident \<Rightarrow> block_item_row service" where
  "blockItem_remove gap projectId discoveryBlockId i userId =
     andThen (blockItem_findById projectId discoveryBlockId i userId) (\<lambda>existingItem.
     andThen (modify gap) (\<lambda>_.
     andThen (catching
       (deleteOne blockItems blockItems_update (\<lambda>x. bi_id x = i))
       (\<lambda>e. if isRecordNotFoundError e then ret existingItem else throw e)) (\<lambda>deletedItem.
     andThen (recalculateStatus discoveryBlockId) (\<lambda>_.
     andThen (emitToProject projectId ''discovery-item:deleted'' (P_blockItem deletedItem) None) (\<lambda>_.
     ret deletedItem)))))"

section \<open>The stored status\<close>

definition itemsOf :: "world \<Rightarrow> ident \<Rightarrow> bool list" where
  "itemsOf w d = map bi_isChecked (filter (\<lambda>x. bi_blockId x = d) (blockItems w))"

text \<open>Every item hangs off a block, and the blocks other than \<open>d\<close> show the status of their items.\<close>

definition syncBut :: "ident option \<Rightarrow> world \<Rightarrow> bool" where
  "syncBut d w \<longleftrightarrow> (\<forall>x\<in>set (blockItems w). \<exists>b\<in>set (blocks w). b_id b = bi_blockId x) \<and>
     (\<forall>b\<in>set (blocks w). Some (b_id b) \<noteq> d \<longrightarrow>
        b_status b = computeDiscoveryBlockStatus (itemsOf w (b_id b)))"

definition statusInSync :: "world \<Rightarrow> bool" where
  "statusInSync w = syncBut None w"

lemma statusInSyncD: "statusInSync w \<Longrightarrow> syncBut d w"
  by (simp add: statusInSync_def syncBut_def)

lemma syncBut_cong:
  "blocks w' = blocks w \<Longrightarrow> blockItems w' = blockItems w \<Longrightarrow> syncBut d w' = syncBut d w"
  by (simp add: syncBut_def itemsOf_def)

lemma statusInSync_quiet: "quiet statusInSync"
  by (rule quietI) (simp_all add: statusInSync_def syncBut_def itemsOf_def)

lemma recalculate_repairs:
  assumes "syncBut (Some d) w"
  shows "statusInSync (snd (recalculateStatus d w))"
proof (cases "List.find (\<lambda>b. b_id b = d) (blocks w)")
  case None
  then have "b_id b \<noteq> d" if "b \<in> set (blocks w)" for b using that by (auto simp: find_None_iff_all)
  then have "statusInSync w" using assms by (auto simp: statusInSync_def syncBut_def)
  then show ?thesis using None by (simp add: recalculateStatus_def run_simps)
next
  case (Some b)
  define f where "f = (\<lambda>b :: block_row. if b_id b = d
    then b\<lparr>b_status := computeDiscoveryBlockStatus (itemsOf w d)\<rparr> else b)"
  have f: "b_id (f b) = b_id b"
    "b_status (f b) = (if b_id b = d then computeDiscoveryBlockStatus (itemsOf w d) else b_status b)" for b
    by (simp_all add: f_def)
  let ?v = "blocks_update (map f) w"
  have v: "set (blocks ?v) = f ` set (blocks w)" "itemsOf ?v = itemsOf w"
    by (simp_all add: itemsOf_def fun_eq_iff)
  have att: "\<exists>b\<in>set (blocks ?v). b_id b = bi_blockId x" if "x \<in> set (blockItems w)" for x
    using assms that unfolding v syncBut_def by (auto simp: f)
  have st: "b_status b = computeDiscoveryBlockStatus (itemsOf ?v (b_id b))" if "b \<in> set (blocks ?v)" for b
    using assms that unfolding v syncBut_def by (auto simp: f)
  have bi: "blockItems ?v = blockItems w" by simp
  have "statusInSync ?v"
    unfolding statusInSync_def syncBut_def bi using att st by blast
  then have q: "statusInSync (?v\<lparr>outbox := ems\<rparr>)" for ems
    by (simp add: statusInSync_def syncBut_def itemsOf_def)
  have "\<exists>ems. snd (recalculateStatus d w) = ?v\<lparr>outbox := ems\<rparr>"
    using Some unfolding f_def itemsOf_def
    by (simp add: recalculateStatus_def run_simps emitToProject_def) (rule exI, rule refl)
  then show ?thesis using q by (elim exE) (simp only:)
qed

text \<open>The tail all three item operations share.\<close>

lemma write_then_recalculate:
  assumes "\<And>e t. m w = (Inl e, t) \<Longrightarrow> statusInSync t" and "\<And>a t. m w = (Inr a, t) \<Longrightarrow> syncBut (Some d) t"
  shows "statusInSync (snd (andThen m (\<lambda>a. andThen (recalculateStatus d) (\<lambda>_.
    andThen (emitToProject p ev (pl a) None) (\<lambda>_. ret a))) w))"
proof (cases "m w")
  case (Pair r t)
  show ?thesis
  proof (cases r)
    case (Inl e)
    then show ?thesis using Pair assms(1) by (simp add: andThen_run)
  next
    case (Inr a)
    have "keeps statusInSync (andThen (emitToProject p ev (pl a) None) (\<lambda>_. ret a))"
      by (intro keeps_rules quiet_keeps [OF statusInSync_quiet])
    moreover have "statusInSync (snd (recalculateStatus d t))"
      using assms(2) [of a t] Pair Inr by (simp add: recalculate_repairs)
    ultimately show ?thesis
      using Pair Inr by (auto simp: andThen_run split: prod.split sum.split dest: keepsD)
  qed
qed

text \<open>A change of the items of \<open>d\<close> alone leaves the other blocks in step.\<close>

lemma syncBut_items:
  assumes "statusInSync w"
    and "\<And>b. b \<noteq> d \<Longrightarrow> map bi_isChecked (filter (\<lambda>x. bi_blockId x = b) (f (blockItems w))) = itemsOf w b"
    and "\<And>x. x \<in> set (f (blockItems w)) \<Longrightarrow> \<exists>b\<in>set (blocks w). b_id b = bi_blockId x"
  shows "syncBut (Some d) (blockItems_update f w)"
proof -
  let ?v = "blockItems_update f w"
  have "itemsOf ?v b = itemsOf w b" if "b \<noteq> d" for b using assms(2) [OF that] by (simp add: itemsOf_def)
  moreover have "blocks ?v = blocks w" "blockItems ?v = f (blockItems w)" by simp_all
  ultimately show ?thesis
    using assms(1,3) unfolding statusInSync_def syncBut_def by simp
qed

text \<open>No item is on another card in \<open>v\<close> than in \<open>w\<close>.\<close>

definition itemStays :: "world \<Rightarrow> world \<Rightarrow> bool" where
  "itemStays w v \<longleftrightarrow> (\<forall>x\<in>set (blockItems w). \<forall>y\<in>set (blockItems v).
     bi_id x = bi_id y \<longrightarrow> bi_blockId x = bi_blockId y)"

lemma blockItem_findById_Inr:
  "blockItem_findById p d i u w = (Inr x, t) \<Longrightarrow>
   t = w \<and> isMember w p u \<and> x \<in> set (blockItems w) \<and> bi_id x = i \<and> bi_blockId x = d \<and>
   (\<exists>b\<in>set (blocks w). b_id b = d \<and> b_projectId b = p)"
  by (auto simp: blockItem_findById_def block_findById_def block_findByIdForProject_def success_iffs
      prisma_Inr assertMembership_Inr isMember_iff_find dest: find_SomeD split: option.splits)

lemma block_findById_Inr:
  "block_findById p d u w = (Inr b, t) \<Longrightarrow>
   t = w \<and> isMember w p u \<and> b \<in> set (blocks w) \<and> b_id b = d \<and> b_projectId b = p"
  by (auto simp: block_findById_def block_findByIdForProject_def success_iffs
      prisma_Inr assertMembership_Inr isMember_iff_find dest: find_SomeD split: option.splits)

lemma reads_block_findById: "reads (block_findById p d u)" "reads (blockItem_findById p d i u)"
  by (auto simp: reads_def blockItem_findById_def block_findById_def block_findByIdForProject_def run_simps
      split: option.split)

lemma syncBut_update:
  assumes "statusInSync w" and "\<And>x. x \<in> set (blockItems w) \<Longrightarrow> bi_id x = i \<Longrightarrow> bi_blockId x = d"
  shows "syncBut (Some d) (blockItems_update (map (\<lambda>x. if bi_id x = i then applyBlockItemDto dto x else x)) w)"
proof (rule syncBut_items [OF assms(1)])
  fix b assume b: "b \<noteq> d"
  have same: "bi_blockId (applyBlockItemDto dto x) = bi_blockId x" for x by (simp add: applyBlockItemDto_def)
  have "map bi_isChecked (filter (\<lambda>x. bi_blockId x = b)
      (map (\<lambda>x. if bi_id x = i then applyBlockItemDto dto x else x) xs)) =
      map bi_isChecked (filter (\<lambda>x. bi_blockId x = b) xs)"
    if "\<And>x. x \<in> set xs \<Longrightarrow> bi_id x = i \<Longrightarrow> bi_blockId x = d" for xs
    using that b by (induction xs) (auto simp: same)
  from this [OF assms(2)]
  show "map bi_isChecked (filter (\<lambda>x. bi_blockId x = b)
      (map (\<lambda>x. if bi_id x = i then applyBlockItemDto dto x else x) (blockItems w))) = itemsOf w b"
    by (simp add: itemsOf_def)
next
  fix x assume "x \<in> set (map (\<lambda>x. if bi_id x = i then applyBlockItemDto dto x else x) (blockItems w))"
  then obtain y where y: "y \<in> set (blockItems w)" "bi_blockId x = bi_blockId y"
    by (auto simp: applyBlockItemDto_def)
  then show "\<exists>b\<in>set (blocks w). b_id b = bi_blockId x"
    using assms(1) unfolding statusInSync_def syncBut_def by simp
qed

lemma syncBut_remove:
  assumes "statusInSync w" and "\<And>x. x \<in> set (blockItems w) \<Longrightarrow> bi_id x = i \<Longrightarrow> bi_blockId x = d"
  shows "syncBut (Some d) (blockItems_update (filter (\<lambda>x. bi_id x \<noteq> i)) w)"
proof (rule syncBut_items [OF assms(1)])
  fix b assume "b \<noteq> d"
  then have "filter (\<lambda>x. bi_blockId x = b) (filter (\<lambda>x. bi_id x \<noteq> i) (blockItems w)) =
      filter (\<lambda>x. bi_blockId x = b) (blockItems w)"
    using assms(2) by (auto intro!: filter_cong)
  then show "map bi_isChecked (filter (\<lambda>x. bi_blockId x = b) (filter (\<lambda>x. bi_id x \<noteq> i) (blockItems w))) =
      itemsOf w b" by (simp add: itemsOf_def)
qed (use assms(1) in \<open>simp add: statusInSync_def syncBut_def\<close>)

lemma syncBut_append:
  assumes "statusInSync w" and "list_ex (\<lambda>b. b_id b = d) (blocks w)" and "bi_blockId x = d"
  shows "syncBut (Some d) (blockItems_update (\<lambda>xs. xs @ [x]) w)"
  by (rule syncBut_items [OF assms(1)])
    (use assms in \<open>auto simp: itemsOf_def list_ex_iff statusInSync_def syncBut_def\<close>)

lemma itemStaysD:
  assumes "itemStays w (gap w)" and "blockItem_findById p d i u w = (Inr x, w)"
    and "y \<in> set (blockItems (gap w))" and "bi_id y = i"
  shows "bi_blockId y = d"
proof -
  have "x \<in> set (blockItems w)" "bi_id x = bi_id y" "bi_blockId x = d"
    using blockItem_findById_Inr [OF assms(2)] assms(4) by auto
  with assms(1,3) show ?thesis unfolding itemStays_def by metis
qed

lemma blockItem_update_sync:
  assumes gap: "\<And>w. statusInSync w \<Longrightarrow> statusInSync (gap w)" and w: "statusInSync w"
    and stays: "itemStays w (gap w)"
  shows "statusInSync (snd (blockItem_update gap p d i dto u w))"
  unfolding blockItem_update_def
proof (rule reads_then, rule reads_block_findById, rule w)
  fix x
  assume x: "blockItem_findById p d i u w = (Inr x, w)"
  note v = gap [OF w]
  have sync: "syncBut (Some d) (blockItems_update (map (\<lambda>x. if bi_id x = i then applyBlockItemDto dto x else x)) (gap w))"
    by (rule syncBut_update [OF v]) (rule itemStaysD [where gap = gap, OF stays x])
  show "statusInSync (snd (andThen (modify gap) (\<lambda>_. andThen (catching
     (updateOne blockItems blockItems_update (\<lambda>x. bi_id x = i) (applyBlockItemDto dto))
     (\<lambda>e. if isRecordNotFoundError e then throw blockItemNotFound else throw e)) (\<lambda>updatedItem.
   andThen (recalculateStatus d) (\<lambda>_.
   andThen (emitToProject p ''discovery-item:updated'' (P_blockItem updatedItem) None) (\<lambda>_.
   ret updatedItem)))) w))"
    unfolding andThen_run [of "modify gap"] modify_run sum.case prod.case
    by (rule write_then_recalculate)
      (use v sync in \<open>auto simp: run_simps split: option.splits if_splits\<close>)
qed

lemma blockItem_remove_sync:
  assumes gap: "\<And>w. statusInSync w \<Longrightarrow> statusInSync (gap w)" and w: "statusInSync w"
    and stays: "itemStays w (gap w)"
  shows "statusInSync (snd (blockItem_remove gap p d i u w))"
  unfolding blockItem_remove_def
proof (rule reads_then, rule reads_block_findById, rule w)
  fix x
  assume x: "blockItem_findById p d i u w = (Inr x, w)"
  note v = gap [OF w]
  have sync: "syncBut (Some d) (blockItems_update (filter (\<lambda>x. bi_id x \<noteq> i)) (gap w))"
    by (rule syncBut_remove [OF v]) (rule itemStaysD [where gap = gap, OF stays x])
  show "statusInSync (snd (andThen (modify gap) (\<lambda>_. andThen (catching
     (deleteOne blockItems blockItems_update (\<lambda>x. bi_id x = i))
     (\<lambda>e. if isRecordNotFoundError e then ret x else throw e)) (\<lambda>deletedItem.
   andThen (recalculateStatus d) (\<lambda>_.
   andThen (emitToProject p ''discovery-item:deleted'' (P_blockItem deletedItem) None) (\<lambda>_.
   ret deletedItem)))) w))"
    unfolding andThen_run [of "modify gap"] modify_run sum.case prod.case
    by (rule write_then_recalculate)
      (use v sync statusInSyncD [OF v] in \<open>auto simp: run_simps split: option.splits if_splits\<close>)
qed

lemma blockItem_create_sync:
  assumes gap: "\<And>w. statusInSync w \<Longrightarrow> statusInSync (gap w)"
  shows "keeps statusInSync (blockItem_create gap p d cdto u)"
  unfolding blockItem_create_def
proof (rule keepsI, rule reads_then, rule reads_block_findById, assumption)
  fix w b
  assume w: "statusInSync w"
  let ?m = "createCapped blockItems blockItems_update (\<lambda>x. bi_blockId x = d)
     MAX_ITEMS_PER_DISCOVERY_BLOCK (BadRequest ''A discovery block can have at most 30 items'')
     (requireRow blocks (\<lambda>b. b_id b = d) ''P2003'') bi_id
     (\<lambda>i. \<lparr>bi_id = i, bi_blockId = d, bi_label = cbi_label cdto, bi_isChecked = False,
        bi_order = cbi_order cdto\<rparr>)"
  note v = gap [OF w]
  show "statusInSync (snd (andThen (modify gap) (\<lambda>_. andThen ?m (\<lambda>blockItem.
   andThen (recalculateStatus d) (\<lambda>_.
   andThen (emitToProject p ''discovery-item:created'' (P_blockItem blockItem) None) (\<lambda>_.
   ret blockItem)))) w))"
    unfolding andThen_run [of "modify gap"] modify_run sum.case prod.case
  proof (rule write_then_recalculate)
    show "?m (gap w) = (Inl e, t) \<Longrightarrow> statusInSync t" for e t
      unfolding createCapped_def by (drule transaction_Inl) (simp add: v)
    show "syncBut (Some d) t" if "?m (gap w) = (Inr a, t)" for a t
    proof -
      have "list_ex (\<lambda>b. b_id b = d) (blocks (gap w))"
        and t: "t = (blockItems_update (\<lambda>xs. xs @ [a]) (gap w))\<lparr>uuids := \<lambda>n. uuids (gap w) (Suc n)\<rparr>"
        and a: "bi_blockId a = d"
        using that by (auto simp: createCapped_def success_iffs prisma_Inr requireRow_Inr blockItems.createRow_Inr)
      with syncBut_append [OF v] show ?thesis
        unfolding t by (simp add: syncBut_def itemsOf_def)
    qed
  qed
qed

lemma syncBut_blocks:
  assumes "statusInSync w"
  shows "(\<And>b. b \<in> set (blocks w) \<Longrightarrow> b_id (f b) = b_id b \<and> b_status (f b) = b_status b) \<Longrightarrow>
      statusInSync (blocks_update (map f) w)"
    and "(\<And>b. b \<in> set (blocks w) \<Longrightarrow> b_id b \<noteq> b_id c) \<Longrightarrow> b_status c = NOT_STARTED \<Longrightarrow>
      statusInSync (blocks_update (\<lambda>bs. bs @ [c]) w)"
proof -
  have att: "\<exists>b\<in>set (blocks w). b_id b = bi_blockId x" if "x \<in> set (blockItems w)" for x
    using assms that unfolding statusInSync_def syncBut_def by blast
  have st: "b_status b = computeDiscoveryBlockStatus (itemsOf w (b_id b))" if "b \<in> set (blocks w)" for b
    using assms that unfolding statusInSync_def syncBut_def by simp
  show "statusInSync (blocks_update (map f) w)"
    if f: "\<And>b. b \<in> set (blocks w) \<Longrightarrow> b_id (f b) = b_id b \<and> b_status (f b) = b_status b"
  proof -
    have "\<exists>b\<in>f ` set (blocks w). b_id b = bi_blockId x" if "x \<in> set (blockItems w)" for x
      using att [OF that] f by force
    moreover have "itemsOf (blocks_update (map f) w) = itemsOf w" by (simp add: itemsOf_def fun_eq_iff)
    ultimately show ?thesis using f st by (simp add: statusInSync_def syncBut_def)
  qed
  show "statusInSync (blocks_update (\<lambda>bs. bs @ [c]) w)"
    if fresh: "\<And>b. b \<in> set (blocks w) \<Longrightarrow> b_id b \<noteq> b_id c" and c: "b_status c = NOT_STARTED"
  proof -
    have "itemsOf w (b_id c) = []" using att fresh by (fastforce simp: itemsOf_def filter_empty_conv)
    moreover have "itemsOf (blocks_update (\<lambda>bs. bs @ [c]) w) = itemsOf w"
      by (simp add: itemsOf_def fun_eq_iff)
    ultimately show ?thesis
      using att st c by (simp add: statusInSync_def syncBut_def computeDiscoveryBlockStatus_def)
  qed
qed

lemma sync_updateBlock: "keeps statusInSync (updateOne blocks blocks_update P (applyBlockDto dto))"
  by (rule keeps_updateOne, rule syncBut_blocks(1)) (auto simp: applyBlockDto_def)

lemma sync_deleteBlock: "keeps statusInSync (deleteBlockRow i)"
proof (rule keepsI)
  fix w assume w: "statusInSync w"
  have "statusInSync (blockItems_update (filter (\<lambda>x. bi_blockId x \<noteq> i)) (blocks_update (filter (\<lambda>b. b_id b \<noteq> i)) w))"
    (is "statusInSync ?v")
  proof -
    have "itemsOf ?v b = itemsOf w b" if "b \<noteq> i" for b
      using that by (auto simp: itemsOf_def intro!: arg_cong [where f = "map _"] filter_cong)
    moreover have "blocks ?v = filter (\<lambda>b. b_id b \<noteq> i) (blocks w)"
      "blockItems ?v = filter (\<lambda>x. bi_blockId x \<noteq> i) (blockItems w)" by simp_all
    moreover have "\<exists>b\<in>set (blocks w). b_id b = bi_blockId x" if "x \<in> set (blockItems w)" for x
      using w that unfolding statusInSync_def syncBut_def by blast
    then have "\<exists>b. b \<in> set (blocks w) \<and> b_id b \<noteq> i \<and> b_id b = bi_blockId x"
      if "x \<in> set (blockItems w)" "bi_blockId x \<noteq> i" for x using that by metis
    ultimately show ?thesis using w unfolding statusInSync_def syncBut_def by auto
  qed
  then show "statusInSync (snd (deleteBlockRow i w))"
    using w by (simp add: deleteBlockRow_def run_simps split: option.split)
qed

lemma sync_createBlock:
  assumes "\<And>i. b_id (mk i) = i \<and> b_status (mk i) = NOT_STARTED" and "reads attached"
  shows "keeps statusInSync (createCapped blocks blocks_update inGroup cap refusal attached b_id mk)"
proof (rule keepsI)
  fix w assume w: "statusInSync w"
  obtain r t where r: "createCapped blocks blocks_update inGroup cap refusal attached b_id mk w = (r, t)" by force
  show "statusInSync (snd (createCapped blocks blocks_update inGroup cap refusal attached b_id mk w))"
  proof (cases r)
    case (Inl e)
    then show ?thesis using r w unfolding createCapped_def by (auto dest!: transaction_Inl)
  next
    case (Inr b)
    then have "\<forall>x\<in>set (blocks w). b_id x \<noteq> uuids w 0" "b = mk (uuids w 0)"
      and t: "t = blocks_update (\<lambda>bs. bs @ [b]) w\<lparr>uuids := \<lambda>n. uuids w (Suc n)\<rparr>"
      using r by (auto simp: createCapped_def success_iffs prisma_Inr blocks.createRow_Inr dest: readsD [OF assms(2)])
    then have "statusInSync (blocks_update (\<lambda>bs. bs @ [b]) w)"
      using assms(1) by (intro syncBut_blocks(2) [OF w]) auto
    then show ?thesis using r t by (simp add: statusInSync_def syncBut_def itemsOf_def)
  qed
qed

text \<open>Any invariant goes through a block operation when it survives the write of that operation.\<close>

lemma keeps_block_ops:
  assumes "quiet I" and "\<And>w. I w \<Longrightarrow> I (wait w)" and "\<And>w. I w \<Longrightarrow> I (gap w)"
    and "\<And>w f. I w \<Longrightarrow> I (leases_update f w)"
  shows "(\<And>dto. keeps I (updateOne blocks blocks_update (\<lambda>b. b_id b = i) (applyBlockDto dto))) \<Longrightarrow>
      keeps I (block_update wait gap p i dto u tok)"
    and "keeps I (deleteBlockRow i) \<Longrightarrow> keeps I (block_remove wait gap p i u tok)"
proof -
  have ob: "I w \<Longrightarrow> I (w\<lparr>outbox := ems\<rparr>)" for w ems using assms(1) by (simp add: quiet_def)
  have m: "keeps I (modify gap)" by (rule keeps_modify) (rule assms(3))
  have g: "keeps I (block_findById p i u)" by (rule reads_keeps) (rule reads_block_findById)
  note q = quiet_keeps [OF assms(1)]
  show "(\<And>dto. keeps I (updateOne blocks blocks_update (\<lambda>b. b_id b = i) (applyBlockDto dto))) \<Longrightarrow>
      keeps I (block_update wait gap p i dto u tok)"
    unfolding block_update_def by (intro keeps_rules keeps_withValidatedLease assms(2,4) ob g m q)
  show "keeps I (deleteBlockRow i) \<Longrightarrow> keeps I (block_remove wait gap p i u tok)"
    unfolding block_remove_def
    by (intro keeps_rules keeps_withLock keeps_leases m assms(2,4) ob g q)
qed

lemma statusInSync_leases: "statusInSync w \<Longrightarrow> statusInSync (leases_update f w)"
  by (simp add: statusInSync_def syncBut_def itemsOf_def)

lemma block_create_sync: "keeps statusInSync (block_create p cdto u)"
  unfolding block_create_def
  by (intro keeps_rules quiet_keeps [OF statusInSync_quiet] sync_createBlock) (simp_all add: reads_requireRow)

section \<open>Properties\<close>


definition cardWorld :: world where
  "cardWorld = reviewWorld\<lparr>
     blocks := [\<lparr>b_id = ''k'', b_projectId = ''p'', b_title = ''Questions'', b_description = None,
       b_icon = None, b_color = None, b_status = NOT_STARTED, b_notes = None, b_createdAt = 0\<rparr>],
     blockItems := [\<lparr>bi_id = ''i'', bi_blockId = ''k'', bi_label = ''ask'', bi_isChecked = False, bi_order = 0\<rparr>]\<rparr>"

definition tickItem :: update_block_item_dto where
  "tickItem = \<lparr>ubi_label = None, ubi_isChecked = Some True, ubi_order = None\<rparr>"

lemma cardWorld_sync: "statusInSync cardWorld"
  by (simp add: statusInSync_def syncBut_def itemsOf_def cardWorld_def computeDiscoveryBlockStatus_def)


section \<open>The caps of all three services\<close>

interpretation projectBlocks: capped blocks blocks_update b_projectId MAX_DISCOVERY_BLOCKS_PER_PROJECT
  by unfold_locales

interpretation itemsOfBlocks: capped blockItems blockItems_update bi_blockId MAX_ITEMS_PER_DISCOVERY_BLOCK
  by unfold_locales

definition capsHold :: "world \<Rightarrow> bool" where
  "capsHold w \<longleftrightarrow> sectionsCapped w \<and>
     (\<forall>p. length (filter (\<lambda>b. b_projectId b = p) (blocks w)) \<le> MAX_DISCOVERY_BLOCKS_PER_PROJECT) \<and>
     (\<forall>d. length (filter (\<lambda>x. bi_blockId x = d) (blockItems w)) \<le> MAX_ITEMS_PER_DISCOVERY_BLOCK)"

lemma capsHold_iff: "capsHold = (\<lambda>w. checklistSections.withinCap w \<and> projectBlocks.withinCap w \<and>
     itemsOfBlocks.withinCap w)"
  by (simp add: fun_eq_iff capsHold_def sectionsCapped_iff projectBlocks.withinCap_def
      itemsOfBlocks.withinCap_def)

lemma keeps_conj3:
  "keeps I m \<Longrightarrow> keeps J m \<Longrightarrow> keeps K m \<Longrightarrow> keeps (\<lambda>w. I w \<and> J w \<and> K w) m"
  by (simp add: keeps_def)

lemmas withinCap_defs = checklistSections.withinCap_def projectBlocks.withinCap_def
  itemsOfBlocks.withinCap_def

text \<open>A write to one of the tables leaves the caps of the other two alone.\<close>

lemma keeps_createCapped:
  "reads attached \<Longrightarrow> (\<And>w f. I w \<Longrightarrow> I (w\<lparr>uuids := f\<rparr>)) \<Longrightarrow> (\<And>w i. I w \<Longrightarrow> I (upd (\<lambda>rs. rs @ [mk i]) w)) \<Longrightarrow>
   keeps I (createCapped sel upd inGroup cap refusal attached key mk)"
  unfolding createCapped_def by (intro keeps_rules keeps_createRow reads_keeps)

lemma capsHold_creates:
  "(\<And>i. ci_projectId (mk i) = p \<and> ci_section (mk i) = s) \<Longrightarrow> reads attached \<Longrightarrow>
   keeps capsHold (createCapped checklist checklist_update (\<lambda>c. ci_projectId c = p \<and> ci_section c = s)
     EVALUATION_CHECKLIST_MAX_ITEMS_PER_SECTION e attached ci_id mk)"
  "(\<And>i. b_projectId (mkb i) = p) \<Longrightarrow> reads attached \<Longrightarrow>
   keeps capsHold (createCapped blocks blocks_update (\<lambda>b. b_projectId b = p)
     MAX_DISCOVERY_BLOCKS_PER_PROJECT e attached b_id mkb)"
  "(\<And>i. bi_blockId (mkx i) = d) \<Longrightarrow> reads attached \<Longrightarrow>
   keeps capsHold (createCapped blockItems blockItems_update (\<lambda>x. bi_blockId x = d)
     MAX_ITEMS_PER_DISCOVERY_BLOCK e attached bi_id mkx)"
  unfolding capsHold_iff
  subgoal
    by (intro keeps_conj3 checklistSections.createCapped_keeps [where g = "(p, s)"] keeps_createCapped)
      (simp_all add: withinCap_defs)
  subgoal
    by (intro keeps_conj3 projectBlocks.createCapped_keeps [where g = p] keeps_createCapped)
      (simp_all add: withinCap_defs)
  subgoal
    by (intro keeps_conj3 itemsOfBlocks.createCapped_keeps [where g = d] keeps_createCapped)
      (simp_all add: withinCap_defs)
  done

lemma capsHold_updates:
  "keeps capsHold (updateOne checklist checklist_update P (applyItemDto dto))"
  "keeps capsHold (updateOne blocks blocks_update Q (applyBlockDto bdto))"
  "keeps capsHold (updateOne blocks blocks_update Q (\<lambda>b. b\<lparr>b_status := st\<rparr>))"
  "keeps capsHold (updateOne blockItems blockItems_update R (applyBlockItemDto xdto))"
  unfolding capsHold_iff
  by (intro keeps_conj3 checklistSections.updateOne_keeps projectBlocks.updateOne_keeps
      itemsOfBlocks.updateOne_keeps keeps_updateOne; simp add: withinCap_defs applyBlockDto_def
      applyBlockItemDto_def)+

lemma capsHold_deletes:
  "keeps capsHold (deleteOne checklist checklist_update P)"
  "keeps capsHold (deleteOne blocks blocks_update Q)"
  "keeps capsHold (deleteOne blockItems blockItems_update R)"
  "keeps capsHold (deleteMany blockItems_update R)"
  unfolding capsHold_iff
  by (intro keeps_conj3 checklistSections.deleteOne_keeps projectBlocks.deleteOne_keeps
      itemsOfBlocks.deleteOne_keeps keeps_deleteOne keeps_deleteMany itemsOfBlocks.filter_withinCap;
      simp add: withinCap_defs)+

lemma capsHold_quiet: "quiet capsHold"
  by (rule quietI) (simp_all add: capsHold_def sectionsCapped_def)

lemma capsHold_leases: "capsHold w \<Longrightarrow> capsHold (leases_update f w)"
  by (simp add: capsHold_def sectionsCapped_def)

lemma capsHold_items:
  assumes "\<And>w. capsHold w \<Longrightarrow> capsHold (gap w)"
  shows "keeps capsHold (blockItem_create gap p d cdto u)" "keeps capsHold (blockItem_update gap p d i dto u)"
    "keeps capsHold (blockItem_remove gap p d i u)"
proof -
  note q = quiet_keeps [OF capsHold_quiet]
  have r: "keeps capsHold (recalculateStatus d)"
    unfolding recalculateStatus_def by (intro keeps_rules q capsHold_updates)
  note g = reads_keeps [OF reads_block_findById(1)] reads_keeps [OF reads_block_findById(2)]
  have m: "keeps capsHold (modify gap)" by (rule keeps_modify) (rule assms)
  show "keeps capsHold (blockItem_create gap p d cdto u)"
    unfolding blockItem_create_def
    by (intro keeps_rules q r g m capsHold_creates) (simp_all add: reads_requireRow)
  show "keeps capsHold (blockItem_update gap p d i dto u)"
    unfolding blockItem_update_def by (intro keeps_rules q r g m capsHold_updates)
  show "keeps capsHold (blockItem_remove gap p d i u)"
    unfolding blockItem_remove_def by (intro keeps_rules q r g m capsHold_deletes)
qed

lemma capsHold_block_create: "keeps capsHold (block_create p dto u)"
  unfolding block_create_def
  by (intro keeps_rules quiet_keeps [OF capsHold_quiet] capsHold_creates) (simp_all add: reads_requireRow)

lemma capsHold_item_create: "keeps capsHold (item_create p dto u)"
  by (rule keeps_item_create [OF capsHold_quiet]) (simp, intro capsHold_creates, simp_all add: reads_requireRow)

lemma capsHold_deleteBlock: "keeps capsHold (deleteBlockRow i)"
  unfolding deleteBlockRow_def by (intro keeps_rules capsHold_deletes)

text \<open>Under the caps the browser's progress of any project is the server's, cut at 100.\<close>

lemma capped_progress:
  assumes "sectionsCapped w"
  shows "pv_progress (projectView w project role) =
     min (percent (computeEvaluationChecklistProgress (projectChecks w (p_id project)))) 100"
proof -
  have "sectionItems sec (projectChecks w p) = map ci_isChecked (sectionChecks w p sec)" for sec p
    by (simp add: sectionItems_def projectChecks_def sectionChecks_def filter_map comp_def conj_commute)
  then have "length (sectionItems sec (projectChecks w (p_id project))) < 200" for sec
    using assms by (fastforce simp: sectionsCapped_def sectionChecks_def
      EVALUATION_CHECKLIST_MAX_ITEMS_PER_SECTION_def intro: le_less_trans)
  from progress_agrees [OF this] show ?thesis by (simp add: projectView_def)
qed


lemma cardWorld_caps: "capsHold cardWorld"
  by (simp add: capsHold_def sectionsCapped_def cardWorld_def reviewWorld_def MAX_DISCOVERY_BLOCKS_PER_PROJECT_def
      MAX_ITEMS_PER_DISCOVERY_BLOCK_def EVALUATION_CHECKLIST_MAX_ITEMS_PER_SECTION_def emptyWorld_def)


text \<open>C21 Text is edited only under a lease: when a label change of a checklist item or any change of a
  card succeeds, the caller presented the token of a live lease that was theirs, in that project,
  when the lock was obtained; a label change of an item that nobody holds a lease on is forbidden
  and writes nothing. Ticking an item or changing its order never looks at the locks.\<close>

theorem text_edits_need_the_lease:
  shows "(item_update wait gap p i dto u tok w = (Inr r, t) \<and> uci_label dto \<noteq> None \<longrightarrow>
       (\<exists>tk l. tok = Some tk \<and> leaseAt (wait w) (itemKey i) = Some l \<and> l_userId l = u \<and>
          l_projectId l = p \<and> l_token l = tk \<and> clock (wait w) < l_expiresAt l)) \<and>
     (block_update wait gap p d bdto u tok w = (Inr b, t') \<longrightarrow>
       (\<exists>tk l. tok = Some tk \<and> leaseAt (wait w) (blockKey d) = Some l \<and> l_userId l = u \<and>
          l_projectId l = p \<and> l_token l = tk \<and> clock (wait w) < l_expiresAt l)) \<and>
     (leaseAt (wait w) (itemKey i) = None \<and> uci_label dto \<noteq> None \<longrightarrow>
       item_update wait gap p i dto u tok w = (Inl itemLeaseRequired, wait w)) \<and>
     (uci_label dto = None \<longrightarrow>
       item_update wait gap p i dto u tok = item_update wait' gap p i dto u tok')"
proof (intro conjI impI; (elim conjE)?)
  assume up: "item_update wait gap p i dto u tok w = (Inr r, t)" and l: "uci_label dto \<noteq> None"
  show "\<exists>tk l. tok = Some tk \<and> leaseAt (wait w) (itemKey i) = Some l \<and> l_userId l = u \<and>
          l_projectId l = p \<and> l_token l = tk \<and> clock (wait w) < l_expiresAt l"
    by (rule item_update_Inr [OF up, of "wait w"]) (use l in auto)
next
  assume "block_update wait gap p d bdto u tok w = (Inr b, t')"
  then obtain s where "withValidatedLease wait p (blockKey d) u tok (block_findById p d u)
      (\<lambda>_. andThen (modify gap) (\<lambda>_. updateOne blocks blocks_update (\<lambda>b. b_id b = d) (applyBlockDto bdto))) w
      = (Inr b, s)"
    by (auto simp: block_update_def success_iffs catching_Inr throw_Inr split: if_splits)
  from withValidatedLease_Inr [OF this]
  show "\<exists>tk l. tok = Some tk \<and> leaseAt (wait w) (blockKey d) = Some l \<and> l_userId l = u \<and>
          l_projectId l = p \<and> l_token l = tk \<and> clock (wait w) < l_expiresAt l" by blast
next
  assume "leaseAt (wait w) (itemKey i) = None" "uci_label dto \<noteq> None"
  then show "item_update wait gap p i dto u tok w = (Inl itemLeaseRequired, wait w)"
    by (auto simp: item_update_def withValidatedLease_def run_simps)
next
  assume "uci_label dto = None"
  then show "item_update wait gap p i dto u tok = item_update wait' gap p i dto u tok'"
    by (simp add: item_update_def)
qed

theorem text_edits_need_the_lease_witness:
  "item_update (\<lambda>w. w) (\<lambda>w. w) ''p'' ''b'' \<lparr>uci_label = Some ''new'', uci_isChecked = None, uci_order = None\<rparr>
     ''u'' (Some ''tok'') reviewWorld = (Inl itemLeaseRequired, reviewWorld)"
proof -
  have "leaseAt reviewWorld (itemKey ''b'') = None"
    by (simp add: leaseAt_def reviewWorld_def emptyWorld_def)
  then show ?thesis
    using text_edits_need_the_lease [of "\<lambda>w. w" "\<lambda>w. w" "''p''" "''b''"
      "\<lparr>uci_label = Some ''new'', uci_isChecked = None, uci_order = None\<rparr>" "''u''" "Some ''tok''" reviewWorld]
    by simp
qed

end
