(* ===== verification/LiveSync.thy ===== *)
theory LiveSync
  imports Discovery
begin

text \<open>
  The browser's live lists: \<open>useLiveItemSync\<close> (\<open>frontend/src/hooks/useLiveItemSync.ts\<close>) with the
  parsers of checklist items (\<open>frontend/src/lib/evaluationChecklist.ts\<close>) and discovery items
  (\<open>frontend/src/lib/discoveryBlockItems.ts\<close>), as functions on the list a page holds, and what
  they make of the broadcasts the services send.
\<close>

section \<open>The hook\<close>

definition handleUpdated ::
  "(payload \<Rightarrow> 'a option) \<Rightarrow> ('a \<Rightarrow> bool) \<Rightarrow> ('a \<Rightarrow> ident) \<Rightarrow> payload \<Rightarrow> 'a list \<Rightarrow> 'a list" where
  "handleUpdated parse inScope key pl previous =
     (case parse pl of None \<Rightarrow> previous
      | Some updatedItem \<Rightarrow>
          if \<not> inScope updatedItem then previous
          else map (\<lambda>currentItem. if key currentItem = key updatedItem then updatedItem else currentItem) previous)"

definition handleCreated ::
  "(payload \<Rightarrow> 'a option) \<Rightarrow> ('a \<Rightarrow> bool) \<Rightarrow> ('a \<Rightarrow> ident) \<Rightarrow> payload \<Rightarrow> 'a list \<Rightarrow> 'a list" where
  "handleCreated parse inScope key pl previous =
     (case parse pl of None \<Rightarrow> previous
      | Some createdItem \<Rightarrow>
          if \<not> inScope createdItem then previous
          else if list_ex (\<lambda>item. key item = key createdItem) previous then previous
          else previous @ [createdItem])"

definition handleDeleted ::
  "(payload \<Rightarrow> 'a option) \<Rightarrow> ('a \<Rightarrow> bool) \<Rightarrow> ('a \<Rightarrow> ident) \<Rightarrow> payload \<Rightarrow> 'a list \<Rightarrow> 'a list" where
  "handleDeleted parse inScope key pl previous =
     (case parse pl of None \<Rightarrow> previous
      | Some deletedItem \<Rightarrow>
          if \<not> inScope deletedItem then previous
          else filter (\<lambda>item. key item \<noteq> key deletedItem) previous)"

text \<open>The three subscriptions, as one function of the event that arrives.\<close>

definition liveSync ::
  "string \<Rightarrow> (payload \<Rightarrow> 'a option) \<Rightarrow> ('a \<Rightarrow> bool) \<Rightarrow> ('a \<Rightarrow> ident) \<Rightarrow> emission \<Rightarrow> 'a list \<Rightarrow> 'a list" where
  "liveSync eventPrefix parse inScope key e =
     (if em_event e = eventPrefix @ '':updated'' then handleUpdated parse inScope key (em_payload e)
      else if em_event e = eventPrefix @ '':created'' then handleCreated parse inScope key (em_payload e)
      else if em_event e = eventPrefix @ '':deleted'' then handleDeleted parse inScope key (em_payload e)
      else id)"

section \<open>What the pages keep\<close>

record checklist_item =
  cl_id :: ident
  cl_label :: string
  cl_isChecked :: bool
  cl_order :: int
  cl_section :: checklist_section

definition checklistItemOf :: "checklist_row \<Rightarrow> checklist_item" where
  "checklistItemOf c = \<lparr>cl_id = ci_id c, cl_label = ci_label c, cl_isChecked = ci_isChecked c,
     cl_order = ci_order c, cl_section = ci_section c\<rparr>"

definition parseEvaluationChecklistItem :: "payload \<Rightarrow> checklist_item option" where
  "parseEvaluationChecklistItem pl = (case pl of P_checklist c \<Rightarrow> Some (checklistItemOf c) | _ \<Rightarrow> None)"

definition parseDiscoveryBlockItem :: "payload \<Rightarrow> block_item_row option" where
  "parseDiscoveryBlockItem pl = (case pl of P_blockItem x \<Rightarrow> Some x | _ \<Rightarrow> None)"

text \<open>The checklist page passes no scope; the page of a card passes its own id.\<close>

definition checklistPageSync :: "emission \<Rightarrow> checklist_item list \<Rightarrow> checklist_item list" where
  "checklistPageSync = liveSync ''checklist-item'' parseEvaluationChecklistItem (\<lambda>_. True) cl_id"

definition cardPageSync :: "ident \<Rightarrow> emission \<Rightarrow> block_item_row list \<Rightarrow> block_item_row list" where
  "cardPageSync discoveryBlockId = liveSync ''discovery-item'' parseDiscoveryBlockItem
     (\<lambda>item. bi_blockId item = discoveryBlockId) bi_id"

section \<open>A live list follows its table\<close>

locale live_list =
  fixes parse :: "payload \<Rightarrow> 'a option"
    and inScope :: "'a \<Rightarrow> bool"
    and key :: "'a \<Rightarrow> ident"
    and wrap :: "'r \<Rightarrow> payload"
    and view :: "'r \<Rightarrow> 'a"
    and rowKey :: "'r \<Rightarrow> ident"
  assumes parse_wrap: "parse (wrap r) = Some (view r)"
    and key_view: "key (view r) = rowKey r"
begin

lemma created_follows:
  assumes "mset items = mset (map view rs)" and "inScope (view r)" and "rowKey r \<notin> rowKey ` set rs"
  shows "mset (handleCreated parse inScope key (wrap r) items) = mset (map view (rs @ [r]))"
proof -
  have "set items = view ` set rs" using assms(1) by (metis set_mset_mset set_map)
  then have "\<not> list_ex (\<lambda>item. key item = key (view r)) items"
    using assms(3) by (force simp: list_ex_iff key_view image_iff)
  then show ?thesis using assms(1,2) by (simp add: handleCreated_def parse_wrap)
qed

lemma updated_follows:
  assumes "mset items = mset (map view rs)" and "inScope (view r)"
  shows "mset (handleUpdated parse inScope key (wrap r) items) =
     mset (map view (map (\<lambda>x. if rowKey x = rowKey r then r else x) rs))"
proof -
  have "mset (handleUpdated parse inScope key (wrap r) items) =
      image_mset (\<lambda>c. if key c = rowKey r then view r else c) (mset items)"
    using assms(2) by (simp add: handleUpdated_def parse_wrap key_view)
  also have "\<dots> = mset (map view (map (\<lambda>x. if rowKey x = rowKey r then r else x) rs))"
    unfolding assms(1) by (simp add: image_mset.compositionality comp_def key_view if_distrib cong: if_cong)
  finally show ?thesis .
qed

lemma deleted_follows:
  assumes "mset items = mset (map view rs)" and "inScope (view r)"
  shows "mset (handleDeleted parse inScope key (wrap r) items) =
     mset (map view (filter (\<lambda>x. rowKey x \<noteq> rowKey r) rs))"
proof -
  have "mset (handleDeleted parse inScope key (wrap r) items) = filter_mset (\<lambda>c. key c \<noteq> rowKey r) (mset items)"
    using assms(2) by (simp add: handleDeleted_def parse_wrap key_view)
  also have "\<dots> = mset (filter (\<lambda>c. key c \<noteq> rowKey r) (map view rs))" unfolding assms(1) by simp
  also have "filter (\<lambda>c. key c \<noteq> rowKey r) (map view rs) = map view (filter (\<lambda>x. rowKey x \<noteq> rowKey r) rs)"
    by (simp add: filter_map comp_def key_view)
  finally show ?thesis .
qed

lemma out_of_scope:
  assumes "\<not> inScope (view r)"
  shows "handleCreated parse inScope key (wrap r) items = items"
    "handleUpdated parse inScope key (wrap r) items = items"
    "handleDeleted parse inScope key (wrap r) items = items"
  using assms by (simp_all add: handleCreated_def handleUpdated_def handleDeleted_def parse_wrap)

end

interpretation liveChecklist: live_list parseEvaluationChecklistItem "\<lambda>_. True" cl_id P_checklist
  checklistItemOf ci_id
  by unfold_locales (simp_all add: parseEvaluationChecklistItem_def checklistItemOf_def)

interpretation liveCard: live_list parseDiscoveryBlockItem "\<lambda>item. bi_blockId item = d" bi_id P_blockItem
  "\<lambda>x. x" bi_id for d
  by unfold_locales (simp_all add: parseDiscoveryBlockItem_def)

section \<open>What a request broadcasts\<close>

text \<open>
  \<open>trail N w t\<close>: between \<open>w\<close> and \<open>t\<close> the sockets and rooms did not change and only events of \<open>N\<close>
  were broadcast; \<open>news w t\<close> is what a socket received.
\<close>

definition trail :: "string set \<Rightarrow> world \<Rightarrow> world \<Rightarrow> bool" where
  "trail N w t \<longleftrightarrow> sockets t = sockets w \<and>
     (\<exists>es. outbox t = outbox w @ es \<and> (\<forall>e\<in>set es. em_event e \<in> N))"

definition news :: "ident \<Rightarrow> world \<Rightarrow> world \<Rightarrow> emission list" where
  "news s w t = filter (\<lambda>e. s \<in> set (em_sockets e)) (drop (length (outbox w)) (outbox t))"

definition backgroundEvents :: "string set" where
  "backgroundEvents = {''notification:new'', ''field:unlocked'', ''discovery-block:updated''}"

lemma trail_refl [simp]: "trail N w w"
  by (simp add: trail_def)

lemma trail_same: "trail N w v \<Longrightarrow> outbox t = outbox v \<Longrightarrow> sockets t = sockets v \<Longrightarrow> trail N w t"
  by (simp add: trail_def)

lemma trail_broadcast: "ev \<in> N \<Longrightarrow> keeps (trail N w) (broadcast room except ev pl)"
  by (fastforce simp: keeps_def run_simps trail_def)

lemma trail_emit:
  "ev \<in> N \<Longrightarrow> keeps (trail N w) (emitToProject p ev pl x)"
  "ev \<in> N \<Longrightarrow> keeps (trail N w) (emitToUser u ev pl)"
  by (simp_all add: emitToProject_def emitToUser_def trail_broadcast)

lemma trail_writes:
  "keeps (trail N w) (createRow notifications notifications_update k mk)"
  "keeps (trail N w) (updateOne checklist checklist_update P f)"
  "keeps (trail N w) (updateOne blockItems blockItems_update Q g)"
  "keeps (trail N w) (updateOne blocks blocks_update R h)"
  "keeps (trail N w) (removeLease key)"
  by (intro keeps_createRow keeps_updateOne; simp add: trail_def)+
    (simp add: removeLease_def keeps_def run_simps trail_def)

lemma trail_notify:
  "keeps (trail backgroundEvents w) (notification_create u msg link)"
  "keeps (trail backgroundEvents w) (notifySectionIfJustCompleted p sec prev items u)"
  "keeps (trail backgroundEvents w) (recalculateStatus d)"
proof -
  show n: "keeps (trail backgroundEvents w) (notification_create u msg link)" for u msg link
    unfolding notification_create_def
    by (intro keeps_rules trail_emit trail_writes) (simp add: backgroundEvents_def)
  show "keeps (trail backgroundEvents w) (notifySectionIfJustCompleted p sec prev items u)"
    unfolding notifySectionIfJustCompleted_def by (intro keeps_rules n)
  show "keeps (trail backgroundEvents w) (recalculateStatus d)"
    unfolding recalculateStatus_def
    by (intro keeps_rules trail_emit trail_writes) (simp add: backgroundEvents_def)
qed

lemma trail_leases:
  "keeps (trail backgroundEvents w) (releaseResource key)"
  "keeps (trail backgroundEvents w) (emitFieldUnlock rl)"
  "keeps (trail backgroundEvents w) (assertLeaseOwnerIfLocked p key u tok)"
proof -
  show e: "keeps (trail backgroundEvents w) (emitFieldUnlock rl)" for rl
    unfolding emitFieldUnlock_def
    by (cases rl) (simp add: trail_broadcast backgroundEvents_def)
  show r: "keeps (trail backgroundEvents w) (releaseResource key)" for key
    unfolding releaseResource_def by (intro keeps_rules trail_writes)
  show "keeps (trail backgroundEvents w) (assertLeaseOwnerIfLocked p key u tok)"
    unfolding assertLeaseOwnerIfLocked_def releaseIfExpired_def expirationHandler_def
    by (intro keeps_rules r e)
qed

text \<open>After background events and one broadcast to a room, a socket of the room has that broadcast last.\<close>

lemma news_last:
  assumes "trail N w y" and "emitToProject p ev pl None y = (Inr (), t)"
    and "s \<in> set (roomSockets w (projectRoom p) None)"
  shows "\<exists>es e. news s w t = es @ [e] \<and> (\<forall>e\<in>set es. em_event e \<in> N) \<and> em_event e = ev \<and> em_payload e = pl"
proof -
  obtain es where es: "outbox y = outbox w @ es" "\<forall>e\<in>set es. em_event e \<in> N" and sk: "sockets y = sockets w"
    using assms(1) by (auto simp: trail_def)
  have "roomSockets y (projectRoom p) None = roomSockets w (projectRoom p) None"
    by (simp add: roomSockets_def sk)
  then show ?thesis
    using assms(2,3) es by (auto simp: emitToProject_def run_simps news_def)
qed

lemma fold_ignored: "(\<And>e. e \<in> set es \<Longrightarrow> f e = id) \<Longrightarrow> fold f es x = x"
  by (induction es arbitrary: x) auto

lemma background_ignored:
  "em_event e \<in> backgroundEvents \<Longrightarrow> checklistPageSync e = id"
  "em_event e \<in> backgroundEvents \<Longrightarrow> cardPageSync d e = id"
  by (auto simp: backgroundEvents_def checklistPageSync_def cardPageSync_def liveSync_def)

lemma fold_news:
  assumes "trail backgroundEvents w y" and "emitToProject p ev pl None y = (Inr (), t)"
    and "s \<in> set (roomSockets w (projectRoom p) None)"
    and "\<And>e. em_event e \<in> backgroundEvents \<Longrightarrow> f e = id"
  shows "\<exists>e. em_event e = ev \<and> em_payload e = pl \<and> fold f (news s w t) items = f e items"
proof -
  obtain es e where "news s w t = es @ [e]" "\<forall>e\<in>set es. em_event e \<in> backgroundEvents"
    "em_event e = ev" "em_payload e = pl" using news_last [OF assms(1-3)] by blast
  then show ?thesis using fold_ignored [of es f] assms(4) by auto
qed

section \<open>Each operation as background events, one broadcast and one change of its table\<close>

definition projectItems :: "world \<Rightarrow> ident \<Rightarrow> checklist_row list" where
  "projectItems w p = filter (\<lambda>c. ci_projectId c = p) (checklist w)"

definition cardItems :: "world \<Rightarrow> ident \<Rightarrow> block_item_row list" where
  "cardItems w d = filter (\<lambda>x. bi_blockId x = d) (blockItems w)"

lemma item_create_live:
  assumes "item_create p dto u w = (Inr r, t)"
  shows "\<exists>y. trail backgroundEvents w y \<and>
     emitToProject p ''checklist-item:created'' (P_checklist r) None y = (Inr (), t) \<and>
     checklist t = checklist w @ [r] \<and> ci_id r \<notin> ci_id ` set (checklist w) \<and> ci_projectId r = p"
proof -
  obtain y where y: "createRow checklist checklist_update ci_id (\<lambda>i. \<lparr>ci_id = i, ci_projectId = p,
      ci_label = cci_label dto, ci_isChecked = False, ci_order = cci_order dto, ci_section = cci_section dto\<rparr>) w
      = (Inr r, y)"
    and e: "emitToProject p ''checklist-item:created'' (P_checklist r) None y = (Inr (), t)"
    using assms
    by (auto simp: item_create_def success_iffs checklistSections.createCapped_Inr [OF reads_requireRow]
        assertMembership_Inr)
  then have "trail backgroundEvents w y" "checklist y = checklist w @ [r]" "ci_id r \<notin> ci_id ` set (checklist w)"
    "ci_projectId r = p"
    by (auto simp: checklist.createRow_Inr trail_def)
  moreover have "checklist t = checklist y" using e by (auto simp: emitToProject_def run_simps)
  ultimately show ?thesis using e by auto
qed

lemma row_of_id: "distinct (map k xs) \<Longrightarrow> x \<in> set xs \<Longrightarrow> y \<in> set xs \<Longrightarrow> k x = k y \<Longrightarrow> x = y"
  by (auto simp: distinct_map inj_on_def)

lemma notifySection_checklist:
  assumes "notifySectionIfJustCompleted p sec prev items u x = (Inr (), y)"
  shows "checklist y = checklist x"
  using assms by (rule keeps_run [where I = "\<lambda>s. checklist s = checklist x", rotated 2])
    (rule keeps_notifySection, simp_all add: quiet_def)

lemma item_remove_table:
  assumes "item_remove wait gap p i u tok w = (Inr r, t)"
  shows "\<exists>c s. c \<in> set (checklist (wait w)) \<and> ci_id c = i \<and> ci_projectId c = p \<and>
     checklist s = checklist (wait w) \<and> checklist t = filter (\<lambda>c. ci_id c \<noteq> i) (checklist (gap s))"
proof (rule item_remove_Inr [OF assms], goal_cases)
  case (1 c s x)
  then show ?case using notifySection_checklist by metis
qed

lemma item_update_ex:
  assumes "item_update wait gap p i dto u tok w = (Inr r, t)"
    and "v = (if uci_label dto = None then w else wait w)"
  shows "\<exists>c c0 x prev after. c \<in> set (checklist v) \<and> ci_id c = i \<and> ci_projectId c = p \<and>
     List.find (\<lambda>c. ci_id c = i) (checklist (gap v)) = Some c0 \<and> r = applyItemDto dto c0 \<and>
     notifySectionIfJustCompleted p (ci_section c) prev after u
       (checklist_update (map (\<lambda>c. if ci_id c = i then applyItemDto dto c else c)) (gap v)) = (Inr (), x) \<and>
     emitToProject p ''checklist-item:updated'' (P_checklist r) None x = (Inr (), t)"
  by (rule item_update_Inr [OF assms]) (intro exI conjI, assumption+)

lemma item_update_live:
  assumes "item_update (\<lambda>w. w) (\<lambda>w. w) p i dto u tok w = (Inr r, t)" and "distinct (map ci_id (checklist w))"
  shows "\<exists>y. trail backgroundEvents w y \<and>
     emitToProject p ''checklist-item:updated'' (P_checklist r) None y = (Inr (), t) \<and> ci_projectId r = p \<and>
     checklist t = map (\<lambda>c. if ci_id c = ci_id r then r else c) (checklist w) \<and>
     (\<forall>c\<in>set (checklist w). ci_id c = ci_id r \<longrightarrow> ci_projectId c = p)"
proof -
  have v: "w = (if uci_label dto = None then w else w)" by simp
  let ?v = "checklist_update (map (\<lambda>c. if ci_id c = i then applyItemDto dto c else c)) w"
  obtain c c0 x prev after where c: "c \<in> set (checklist w)" "ci_id c = i" "ci_projectId c = p"
    and c0: "List.find (\<lambda>c. ci_id c = i) (checklist w) = Some c0" and r: "r = applyItemDto dto c0"
    and n: "notifySectionIfJustCompleted p (ci_section c) prev after u ?v = (Inr (), x)"
    and e: "emitToProject p ''checklist-item:updated'' (P_checklist r) None x = (Inr (), t)"
    using item_update_ex [OF assms(1) v] by blast
  have same: "x = c0" if "x \<in> set (checklist w)" "ci_id x = i" for x
    using find_SomeD [OF c0] that by (intro row_of_id [OF assms(2), of x c0]) simp_all
  have id: "ci_id r = i" using find_SomeD [OF c0] by (simp add: r)
  have tr: "trail backgroundEvents w x"
    using n by (rule keeps_run [where I = "trail backgroundEvents w", rotated 2])
      (rule trail_notify(2), simp add: trail_def)
  have "checklist x = checklist ?v"
    using n by (rule keeps_run [where I = "\<lambda>s. checklist s = checklist ?v", rotated 2])
      (rule keeps_notifySection, simp_all add: quiet_def)
  moreover have "checklist t = checklist x" using e by (auto simp: emitToProject_def run_simps)
  moreover have "checklist ?v = map (\<lambda>c. if ci_id c = ci_id r then r else c) (checklist w)"
  proof -
    have "(if ci_id x = i then applyItemDto dto x else x) = (if ci_id x = ci_id r then r else x)"
      if "x \<in> set (checklist w)" for x
      using same [OF that] id r by (cases "ci_id x = i") auto
    then show ?thesis by simp
  qed
  ultimately have ck: "checklist t = map (\<lambda>c. if ci_id c = ci_id r then r else c) (checklist w)" by simp
  have "c = c0" by (rule same) (fact c)+
  then have "ci_projectId r = p" using c(3) by (simp add: r)
  moreover have "\<forall>x\<in>set (checklist w). ci_id x = ci_id r \<longrightarrow> ci_projectId x = p"
    using same \<open>c = c0\<close> c(3) id by blast
  ultimately show ?thesis using tr e ck by blast
qed

lemma item_remove_live:
  assumes "item_remove (\<lambda>w. w) (\<lambda>w. w) p i u tok w = (Inr r, t)" and "distinct (map ci_id (checklist w))"
  shows "\<exists>y. trail backgroundEvents w y \<and>
     emitToProject p ''checklist-item:deleted'' (P_checklist r) None y = (Inr (), t) \<and> ci_id r = i \<and>
     checklist t = filter (\<lambda>c. ci_id c \<noteq> i) (checklist w) \<and>
     (\<forall>c\<in>set (checklist w). ci_id c = i \<longrightarrow> ci_projectId c = p)"
proof -
  obtain res rl v x y where core: "deleteItem (\<lambda>w. w) p i u tok w = (Inr (res, rl), v)"
    and ul: "(case rl of None \<Rightarrow> ret () | Some r \<Rightarrow> emitFieldUnlock r) v = (Inr (), x)"
    and n: "notifySectionIfJustCompleted p (ci_section (ir_existing res)) (ir_previousPercent res)
       (map ci_isChecked (filter (\<lambda>c. ci_id c \<noteq> i) (ir_section res))) u x = (Inr (), y)"
    and e: "emitToProject p ''checklist-item:deleted'' (P_checklist (ir_item res)) None y = (Inr (), t)"
    and r: "r = ir_item res"
    using assms(1) by (auto simp: item_remove_def success_iffs catching_Inr lease_writes_run throw_Inr
        split: if_splits prod.splits)
  have g: "keeps (trail backgroundEvents w) (item_findById p i u)"
    unfolding item_findById_def resourceGuard_def by (auto intro!: keeps_rules)
  have d: "keeps (trail backgroundEvents w) (deleteOne checklist checklist_update P)" for P
    by (rule keeps_deleteOne) (simp add: trail_def)
  have "keeps (trail backgroundEvents w) (deleteItem (\<lambda>w. w) p i u tok)"
    unfolding deleteItem_def sectionRows_def
    by (intro keeps_rules g d trail_leases keeps_modify) simp
  from keeps_run [where I = "trail backgroundEvents w", OF this trail_refl core]
  have v: "trail backgroundEvents w v" .
  have x: "trail backgroundEvents w x"
  proof (cases rl)
    case None
    then show ?thesis using ul v by (simp add: ret_Inr)
  next
    case (Some l)
    then have "emitFieldUnlock l v = (Inr (), x)" using ul by simp
    then show ?thesis
      by (rule keeps_run [where I = "trail backgroundEvents w", OF trail_leases(2) v])
  qed
  have y: "trail backgroundEvents w y"
    using n by (rule keeps_run [where I = "trail backgroundEvents w", OF trail_notify(2) x])
  obtain c where c: "c \<in> set (checklist w)" "ci_id c = i" "ci_projectId c = p"
    and "checklist t = filter (\<lambda>c. ci_id c \<noteq> i) (checklist w)"
    using item_remove_table [OF assms(1)] by auto
  moreover have "ci_id r = i"
    using core r by (auto simp: deleteItem_def success_iffs catching_Inr prisma_Inr ret_Inr throw_Inr
        dest!: find_SomeD item_findById_Inr split: if_splits)
  moreover have "\<forall>x\<in>set (checklist w). ci_id x = i \<longrightarrow> ci_projectId x = p"
    using row_of_id [OF assms(2) c(1)] c by metis
  ultimately show ?thesis using y e unfolding r [symmetric] by blast
qed

lemma recalculate_items:
  assumes "recalculateStatus d x = (Inr u, y)"
  shows "blockItems y = blockItems x"
  using assms by (auto simp: recalculateStatus_def success_iffs prisma_Inr emitToProject_def broadcast_def)

lemma emit_items: "emitToProject p ev pl x w = (Inr u, t) \<Longrightarrow> blockItems t = blockItems w"
  by (auto simp: emitToProject_def run_simps)

lemma blockItem_create_live:
  assumes "blockItem_create (\<lambda>w. w) p d dto u w = (Inr r, t)"
  shows "\<exists>y. trail backgroundEvents w y \<and>
     emitToProject p ''discovery-item:created'' (P_blockItem r) None y = (Inr (), t) \<and>
     blockItems t = blockItems w @ [r] \<and> bi_id r \<notin> bi_id ` set (blockItems w) \<and> bi_blockId r = d"
proof -
  obtain x y where c: "createRow blockItems blockItems_update bi_id (\<lambda>i. \<lparr>bi_id = i, bi_blockId = d,
      bi_label = cbi_label dto, bi_isChecked = False, bi_order = cbi_order dto\<rparr>) w = (Inr r, x)"
    and rc: "recalculateStatus d x = (Inr (), y)"
    and e: "emitToProject p ''discovery-item:created'' (P_blockItem r) None y = (Inr (), t)"
    using assms
    by (auto simp: blockItem_create_def success_iffs itemsOfBlocks.createCapped_Inr [OF reads_requireRow]
        dest!: block_findById_Inr)
  from c have x: "trail backgroundEvents w x" "blockItems x = blockItems w @ [r]"
    "bi_id r \<notin> bi_id ` set (blockItems w)" "bi_blockId r = d"
    by (auto simp: blockItems.createRow_Inr trail_def)
  have "trail backgroundEvents w y"
    by (rule keeps_run [where I = "trail backgroundEvents w", OF trail_notify(3) x(1) rc])
  then show ?thesis using e x recalculate_items [OF rc] emit_items [OF e] by auto
qed

lemma blockItem_update_live:
  assumes "blockItem_update (\<lambda>w. w) p d i dto u w = (Inr r, t)" and "distinct (map bi_id (blockItems w))"
  shows "\<exists>y. trail backgroundEvents w y \<and>
     emitToProject p ''discovery-item:updated'' (P_blockItem r) None y = (Inr (), t) \<and> bi_blockId r = d \<and>
     blockItems t = map (\<lambda>x. if bi_id x = bi_id r then r else x) (blockItems w) \<and>
     (\<forall>x\<in>set (blockItems w). bi_id x = bi_id r \<longrightarrow> bi_blockId x = d)"
proof -
  let ?v = "blockItems_update (map (\<lambda>x. if bi_id x = i then applyBlockItemDto dto x else x)) w"
  obtain x0 v0 v y where g: "blockItem_findById p d i u w = (Inr x0, v0)"
    and up: "catching (updateOne blockItems blockItems_update (\<lambda>x. bi_id x = i) (applyBlockItemDto dto))
       (\<lambda>e. if isRecordNotFoundError e then throw blockItemNotFound else throw e) v0 = (Inr r, v)"
    and rc0: "recalculateStatus d v = (Inr (), y)"
    and e: "emitToProject p ''discovery-item:updated'' (P_blockItem r) None y = (Inr (), t)"
    using assms(1) by (auto simp: blockItem_update_def success_iffs)
  have x0: "v0 = w" "x0 \<in> set (blockItems w)" "bi_id x0 = i" "bi_blockId x0 = d"
    using blockItem_findById_Inr [OF g] by auto
  obtain x1 where f: "List.find (\<lambda>x. bi_id x = i) (blockItems w) = Some x1" and r: "r = applyBlockItemDto dto x1"
    and v: "v = ?v"
    using up x0(1) by (auto simp: catching_Inr throw_Inr prisma_Inr split: if_splits)
  note rc = rc0 [unfolded v]
  have same: "x = x1" if "x \<in> set (blockItems w)" "bi_id x = i" for x
    using find_SomeD [OF f] that by (intro row_of_id [OF assms(2), of x x1]) simp_all
  have id: "bi_id r = i" "bi_blockId r = bi_blockId x1"
    using find_SomeD [OF f] by (simp_all add: r applyBlockItemDto_def)
  have tr: "trail backgroundEvents w y"
    using rc by (rule keeps_run [where I = "trail backgroundEvents w", rotated 2])
      (rule trail_notify(3), simp add: trail_def)
  have "(if bi_id x = i then applyBlockItemDto dto x else x) = (if bi_id x = bi_id r then r else x)"
    if "x \<in> set (blockItems w)" for x
    using same [OF that] id(1) r by (cases "bi_id x = i") auto
  then have bt: "blockItems t = map (\<lambda>x. if bi_id x = bi_id r then r else x) (blockItems w)"
    using recalculate_items [OF rc] emit_items [OF e] by simp
  have eq: "x0 = x1" by (rule same) (fact x0(2,3))+
  have rd: "bi_blockId r = d" using id(2) x0(4) unfolding eq by simp
  have "\<forall>x\<in>set (blockItems w). bi_id x = bi_id r \<longrightarrow> bi_blockId x = d"
    using same x0(4) id(1) unfolding eq by blast
  then show ?thesis using tr e rd bt by blast
qed

lemma blockItem_remove_live:
  assumes "blockItem_remove (\<lambda>w. w) p d i u w = (Inr r, t)" and "distinct (map bi_id (blockItems w))"
  shows "\<exists>y. trail backgroundEvents w y \<and>
     emitToProject p ''discovery-item:deleted'' (P_blockItem r) None y = (Inr (), t) \<and> bi_id r = i \<and>
     bi_blockId r = d \<and> blockItems t = filter (\<lambda>x. bi_id x \<noteq> i) (blockItems w) \<and>
     (\<forall>x\<in>set (blockItems w). bi_id x = i \<longrightarrow> bi_blockId x = d)"
proof -
  let ?v = "blockItems_update (filter (\<lambda>x. bi_id x \<noteq> i)) w"
  obtain x0 v0 v y where g: "blockItem_findById p d i u w = (Inr x0, v0)"
    and del: "catching (deleteOne blockItems blockItems_update (\<lambda>x. bi_id x = i))
       (\<lambda>e. if isRecordNotFoundError e then ret x0 else throw e) v0 = (Inr r, v)"
    and rc: "recalculateStatus d v = (Inr (), y)"
    and e: "emitToProject p ''discovery-item:deleted'' (P_blockItem r) None y = (Inr (), t)"
    using assms(1) by (auto simp: blockItem_remove_def success_iffs)
  have x0: "v0 = w" "x0 \<in> set (blockItems w)" "bi_id x0 = i" "bi_blockId x0 = d"
    using blockItem_findById_Inr [OF g] by auto
  have same: "x = x0" if "x \<in> set (blockItems w)" "bi_id x = i" for x
    using x0 that by (intro row_of_id [OF assms(2), of x x0]) simp_all
  have "List.find (\<lambda>x. bi_id x = i) (blockItems w) = Some x0"
    using find_unique [OF assms(2) x0(2)] x0(3) by simp
  then have v: "r = x0" "v = ?v" using del x0(1) by (auto simp: catching_def run_simps)
  have "trail backgroundEvents w y"
    using rc by (rule keeps_run [where I = "trail backgroundEvents w", rotated 2])
      (rule trail_notify(3), simp add: trail_def v)
  moreover have "blockItems t = filter (\<lambda>x. bi_id x \<noteq> i) (blockItems w)"
    using recalculate_items [OF rc] emit_items [OF e] v by simp
  moreover have "\<forall>x\<in>set (blockItems w). bi_id x = i \<longrightarrow> bi_blockId x = d" using same x0(4) by blast
  ultimately show ?thesis using e v(1) x0 by auto
qed

lemma checklist_news:
  assumes "trail backgroundEvents w y" and "emitToProject p ev pl None y = (Inr (), t)"
    and "s \<in> set (roomSockets w (projectRoom p) None)"
  shows "\<exists>e. em_event e = ev \<and> em_payload e = pl \<and>
     fold checklistPageSync (news s w t) items = checklistPageSync e items"
  by (rule fold_news [OF assms]) (rule background_ignored)

lemma card_news:
  assumes "trail backgroundEvents w y" and "emitToProject p ev pl None y = (Inr (), t)"
    and "s \<in> set (roomSockets w (projectRoom p) None)"
  shows "\<exists>e. em_event e = ev \<and> em_payload e = pl \<and>
     fold (cardPageSync d) (news s w t) items = cardPageSync d e items"
  by (rule fold_news [OF assms]) (rule background_ignored)

lemma filter_update:
  assumes "P r" and "\<And>x. x \<in> set xs \<Longrightarrow> k x = k r \<Longrightarrow> P x"
  shows "filter P (map (\<lambda>x. if k x = k r then r else x) xs) = map (\<lambda>x. if k x = k r then r else x) (filter P xs)"
  using assms(2) by (induction xs) (auto simp: assms(1))

lemma filter_update_other:
  assumes "\<not> P r" and "\<And>x. x \<in> set xs \<Longrightarrow> k x = k r \<Longrightarrow> \<not> P x"
  shows "filter P (map (\<lambda>x. if k x = k r then r else x) xs) = filter P xs"
  using assms(2) by (induction xs) (auto simp: assms(1))

lemma checklist_create_followed:
  assumes "item_create p cdto u w = (Inr r, t)" and "s \<in> set (roomSockets w (projectRoom p) None)"
    and "mset items = mset (map checklistItemOf (projectItems w p))"
  shows "mset (fold checklistPageSync (news s w t) items) = mset (map checklistItemOf (projectItems t p))"
proof -
  obtain y where y: "trail backgroundEvents w y"
    "emitToProject p ''checklist-item:created'' (P_checklist r) None y = (Inr (), t)"
    "checklist t = checklist w @ [r]" "ci_id r \<notin> ci_id ` set (checklist w)" "ci_projectId r = p"
    using item_create_live [OF assms(1)] by blast
  obtain e where e: "em_event e = ''checklist-item:created''" "em_payload e = P_checklist r"
    "fold checklistPageSync (news s w t) items = checklistPageSync e items"
    using checklist_news [OF y(1,2) assms(2)] by blast
  have "projectItems t p = projectItems w p @ [r]" using y by (simp add: projectItems_def)
  moreover have "ci_id r \<notin> ci_id ` set (projectItems w p)" using y(4) by (auto simp: projectItems_def)
  ultimately show ?thesis
    using e liveChecklist.created_follows [OF assms(3), of r] by (simp add: checklistPageSync_def liveSync_def)
qed

lemma checklist_update_followed:
  assumes "item_update (\<lambda>w. w) (\<lambda>w. w) p i udto u tok w = (Inr r, t)" and "distinct (map ci_id (checklist w))"
    and "s \<in> set (roomSockets w (projectRoom p) None)"
    and "mset items = mset (map checklistItemOf (projectItems w p))"
  shows "mset (fold checklistPageSync (news s w t) items) = mset (map checklistItemOf (projectItems t p))"
proof -
  obtain y where y: "trail backgroundEvents w y"
    "emitToProject p ''checklist-item:updated'' (P_checklist r) None y = (Inr (), t)" "ci_projectId r = p"
    "checklist t = map (\<lambda>c. if ci_id c = ci_id r then r else c) (checklist w)"
    "\<forall>c\<in>set (checklist w). ci_id c = ci_id r \<longrightarrow> ci_projectId c = p"
    using item_update_live [OF assms(1,2)] by blast
  obtain e where e: "em_event e = ''checklist-item:updated''" "em_payload e = P_checklist r"
    "fold checklistPageSync (news s w t) items = checklistPageSync e items"
    using checklist_news [OF y(1,2) assms(3)] by blast
  have "projectItems t p = map (\<lambda>c. if ci_id c = ci_id r then r else c) (projectItems w p)"
    unfolding projectItems_def y(4) by (rule filter_update) (use y(3,5) in auto)
  then show ?thesis
    using e liveChecklist.updated_follows [OF assms(4), of r] by (simp add: checklistPageSync_def liveSync_def)
qed

lemma checklist_remove_followed:
  assumes "item_remove (\<lambda>w. w) (\<lambda>w. w) p i u tok w = (Inr r, t)" and "distinct (map ci_id (checklist w))"
    and "s \<in> set (roomSockets w (projectRoom p) None)"
    and "mset items = mset (map checklistItemOf (projectItems w p))"
  shows "mset (fold checklistPageSync (news s w t) items) = mset (map checklistItemOf (projectItems t p))"
proof -
  obtain y where y: "trail backgroundEvents w y"
    "emitToProject p ''checklist-item:deleted'' (P_checklist r) None y = (Inr (), t)" "ci_id r = i"
    "checklist t = filter (\<lambda>c. ci_id c \<noteq> i) (checklist w)"
    using item_remove_live [OF assms(1,2)] by blast
  obtain e where e: "em_event e = ''checklist-item:deleted''" "em_payload e = P_checklist r"
    "fold checklistPageSync (news s w t) items = checklistPageSync e items"
    using checklist_news [OF y(1,2) assms(3)] by blast
  have "projectItems t p = filter (\<lambda>c. ci_id c \<noteq> ci_id r) (projectItems w p)"
    unfolding projectItems_def y(3,4) by (simp add: conj_commute)
  then show ?thesis
    using e liveChecklist.deleted_follows [OF assms(4), of r] by (simp add: checklistPageSync_def liveSync_def)
qed

lemma card_followed:
  assumes "blockItem_create (\<lambda>w. w) p d' cdto u w = (Inr r, t) \<or>
     blockItem_update (\<lambda>w. w) p d' i udto u w = (Inr r, t) \<or> blockItem_remove (\<lambda>w. w) p d' i u w = (Inr r, t)"
    and "distinct (map bi_id (blockItems w))" and s: "s \<in> set (roomSockets w (projectRoom p) None)"
    and items: "mset items = mset (cardItems w d)"
  shows "mset (fold (cardPageSync d) (news s w t) items) = mset (cardItems t d)"
proof -
  have items': "mset items = mset (map (\<lambda>x. x) (cardItems w d))" using items by simp
  from assms(1) consider (create) "blockItem_create (\<lambda>w. w) p d' cdto u w = (Inr r, t)"
    | (update) "blockItem_update (\<lambda>w. w) p d' i udto u w = (Inr r, t)"
    | (remove) "blockItem_remove (\<lambda>w. w) p d' i u w = (Inr r, t)" by blast
  then show ?thesis
  proof cases
    case create
    then obtain y where y: "trail backgroundEvents w y"
      "emitToProject p ''discovery-item:created'' (P_blockItem r) None y = (Inr (), t)"
      "blockItems t = blockItems w @ [r]" "bi_id r \<notin> bi_id ` set (blockItems w)" "bi_blockId r = d'"
      using blockItem_create_live by blast
    obtain e where e: "em_event e = ''discovery-item:created''" "em_payload e = P_blockItem r"
      "fold (cardPageSync d) (news s w t) items = cardPageSync d e items"
      using card_news [OF y(1,2) s] by blast
    have fresh: "bi_id r \<notin> bi_id ` set (cardItems w d)" using y(4) by (auto simp: cardItems_def)
    show ?thesis
    proof (cases "d' = d")
      case True
      then have "cardItems t d = cardItems w d @ [r]" using y(3,5) by (simp add: cardItems_def)
      then show ?thesis
        using e liveCard.created_follows [OF items', where r = r and d = d] fresh y(5) True
        by (simp add: cardPageSync_def liveSync_def)
    next
      case False
      then have "cardItems t d = cardItems w d" using y(3,5) by (simp add: cardItems_def)
      then show ?thesis
        using e liveCard.out_of_scope(1) [where r = r and d = d and items = items] y(5) False items by (simp add: cardPageSync_def liveSync_def)
    qed
  next
    case update
    then obtain y where y: "trail backgroundEvents w y"
      "emitToProject p ''discovery-item:updated'' (P_blockItem r) None y = (Inr (), t)" "bi_blockId r = d'"
      "blockItems t = map (\<lambda>x. if bi_id x = bi_id r then r else x) (blockItems w)"
      "\<forall>x\<in>set (blockItems w). bi_id x = bi_id r \<longrightarrow> bi_blockId x = d'"
      using blockItem_update_live [OF _ assms(2)] by blast
    obtain e where e: "em_event e = ''discovery-item:updated''" "em_payload e = P_blockItem r"
      "fold (cardPageSync d) (news s w t) items = cardPageSync d e items"
      using card_news [OF y(1,2) s] by blast
    show ?thesis
    proof (cases "d' = d")
      case True
      have "cardItems t d = map (\<lambda>x. if bi_id x = bi_id r then r else x) (cardItems w d)"
        unfolding cardItems_def y(4) by (rule filter_update) (use y(3,5) True in auto)
      then show ?thesis
        using e liveCard.updated_follows [OF items', where r = r and d = d] y(3) True by (simp add: cardPageSync_def liveSync_def)
    next
      case False
      have "cardItems t d = cardItems w d"
        unfolding cardItems_def y(4) by (rule filter_update_other) (use y(3,5) False in auto)
      then show ?thesis
        using e liveCard.out_of_scope(2) [where r = r and d = d and items = items] y(3) False items by (simp add: cardPageSync_def liveSync_def)
    qed
  next
    case remove
    then obtain y where y: "trail backgroundEvents w y"
      "emitToProject p ''discovery-item:deleted'' (P_blockItem r) None y = (Inr (), t)" "bi_id r = i"
      "bi_blockId r = d'" "blockItems t = filter (\<lambda>x. bi_id x \<noteq> i) (blockItems w)"
      "\<forall>x\<in>set (blockItems w). bi_id x = i \<longrightarrow> bi_blockId x = d'"
      using blockItem_remove_live [OF _ assms(2)] by blast
    obtain e where e: "em_event e = ''discovery-item:deleted''" "em_payload e = P_blockItem r"
      "fold (cardPageSync d) (news s w t) items = cardPageSync d e items"
      using card_news [OF y(1,2) s] by blast
    have ct: "cardItems t d = filter (\<lambda>x. bi_id x \<noteq> i) (cardItems w d)"
      unfolding cardItems_def y(5) by (simp add: conj_commute)
    show ?thesis
    proof (cases "d' = d")
      case True
      then show ?thesis
        using e liveCard.deleted_follows [OF items', where r = r and d = d] y(3,4) ct by (simp add: cardPageSync_def liveSync_def)
    next
      case False
      then have "cardItems t d = cardItems w d" unfolding ct using y(6)
        by (auto simp: cardItems_def intro!: filter_cong)
      then show ?thesis
        using e liveCard.out_of_scope(3) [where r = r and d = d and items = items] y(4) False items by (simp add: cardPageSync_def liveSync_def)
    qed
  qed
qed

section \<open>Property\<close>

text \<open>C23 An open page follows the server without a reload: if the page shows the project's checklist (or the
  items of a card) and the socket is in the project's room, then after any successful create,
  update or delete, applying the events the socket received makes the page show exactly what the
  table now holds; events of other cards leave a card's page alone. The checklist page has no such
  filter: an item created in any other project the user belongs to lands on it.\<close>

theorem live_pages_follow_the_server:
  assumes "distinct (map ci_id (checklist w))" and "distinct (map bi_id (blockItems w))"
    and "s \<in> set (roomSockets w (projectRoom p) None)"
    and "mset items = mset (map checklistItemOf (projectItems w p))" and "mset citems = mset (cardItems w d)"
  shows "(item_create p cdto u w = (Inr r, t) \<or> item_update (\<lambda>w. w) (\<lambda>w. w) p i udto u tok w = (Inr r, t) \<or>
       item_remove (\<lambda>w. w) (\<lambda>w. w) p i u tok w = (Inr r, t) \<longrightarrow>
       mset (fold checklistPageSync (news s w t) items) = mset (map checklistItemOf (projectItems t p))) \<and>
     (blockItem_create (\<lambda>w. w) p d' xdto u w = (Inr x, t) \<or> blockItem_update (\<lambda>w. w) p d' i xudto u w = (Inr x, t) \<or>
       blockItem_remove (\<lambda>w. w) p d' i u w = (Inr x, t) \<longrightarrow>
       mset (fold (cardPageSync d) (news s w t) citems) = mset (cardItems t d)) \<and>
     (q \<noteq> p \<and> s \<in> set (roomSockets w (projectRoom q) None) \<and> item_create q cdto u w = (Inr r, t) \<longrightarrow>
       mset (fold checklistPageSync (news s w t) items) =
         mset (map checklistItemOf (projectItems t p)) + {#checklistItemOf r#})"
proof (intro conjI impI)
  show "mset (fold checklistPageSync (news s w t) items) = mset (map checklistItemOf (projectItems t p))"
    if "item_create p cdto u w = (Inr r, t) \<or> item_update (\<lambda>w. w) (\<lambda>w. w) p i udto u tok w = (Inr r, t) \<or>
       item_remove (\<lambda>w. w) (\<lambda>w. w) p i u tok w = (Inr r, t)"
    using that checklist_create_followed [OF _ assms(3,4)] checklist_update_followed [OF _ assms(1,3,4)]
      checklist_remove_followed [OF _ assms(1,3,4)] by blast
  show "mset (fold (cardPageSync d) (news s w t) citems) = mset (cardItems t d)"
    if "blockItem_create (\<lambda>w. w) p d' xdto u w = (Inr x, t) \<or> blockItem_update (\<lambda>w. w) p d' i xudto u w = (Inr x, t) \<or>
       blockItem_remove (\<lambda>w. w) p d' i u w = (Inr x, t)"
    by (rule card_followed [OF that assms(2,3,5)])
next
  assume q: "q \<noteq> p \<and> s \<in> set (roomSockets w (projectRoom q) None) \<and> item_create q cdto u w = (Inr r, t)"
  then obtain y where y: "trail backgroundEvents w y"
    "emitToProject q ''checklist-item:created'' (P_checklist r) None y = (Inr (), t)"
    "checklist t = checklist w @ [r]" "ci_id r \<notin> ci_id ` set (checklist w)" "ci_projectId r = q"
    using item_create_live by blast
  obtain e where e: "em_event e = ''checklist-item:created''" "em_payload e = P_checklist r"
    "fold checklistPageSync (news s w t) items = checklistPageSync e items"
    using checklist_news [OF y(1,2), of s items] q by blast
  have "projectItems t p = projectItems w p" using y(3,5) q by (simp add: projectItems_def)
  moreover have "ci_id r \<notin> ci_id ` set (projectItems w p)" using y(4) by (auto simp: projectItems_def)
  ultimately show "mset (fold checklistPageSync (news s w t) items) =
         mset (map checklistItemOf (projectItems t p)) + {#checklistItemOf r#}"
    using e liveChecklist.created_follows [OF assms(4), of r] by (simp add: checklistPageSync_def liveSync_def)
qed

definition twoProjects :: world where
  "twoProjects = emptyWorld\<lparr>
     projects := [\<lparr>p_id = ''q'', p_name = ''other'', p_description = None, p_status = P_IN_PROGRESS,
       p_deadline = None, p_isArchived = False, p_updatedAt = 0\<rparr>],
     members := [\<lparr>pm_userId = ''u'', pm_projectId = ''q'', pm_role = OWNER, pm_createdAt = 0\<rparr>],
     sockets := [\<lparr>sk_id = ''s'', sk_userId = Some ''u'', sk_sessionId = None, sk_username = ''u'',
       sk_avatarUrl = None, sk_connected = True, sk_ready = True,
       sk_rooms = [projectRoom ''p'', projectRoom ''q''], sk_sessionKey = None\<rparr>]\<rparr>"

text \<open>The open, empty checklist of \<open>p\<close> shows an item created in \<open>q\<close>.\<close>

theorem live_pages_follow_the_server_witness:
  "\<exists>r t. item_create ''q'' \<lparr>cci_label = ''x'', cci_section = BONUS, cci_order = 0\<rparr> ''u'' twoProjects = (Inr r, t) \<and>
     mset (fold checklistPageSync (news ''s'' twoProjects t) []) = {#checklistItemOf r#}"
proof -
  let ?dto = "\<lparr>cci_label = ''x'', cci_section = BONUS, cci_order = 0\<rparr>"
  obtain r t where run: "item_create ''q'' ?dto ''u'' twoProjects = (Inr r, t)"
    and t: "projectItems t ''p'' = []"
    by (simp add: item_create_def run_simps twoProjects_def emptyWorld_def createCapped_def
      EVALUATION_CHECKLIST_MAX_ITEMS_PER_SECTION_def emitToProject_def projectItems_def)
  have "distinct (map ci_id (checklist twoProjects))" "distinct (map bi_id (blockItems twoProjects))"
    "''s'' \<in> set (roomSockets twoProjects (projectRoom ''p'') None)"
    "mset [] = mset (map checklistItemOf (projectItems twoProjects ''p''))"
    "mset [] = mset (cardItems twoProjects [])"
    by (simp_all add: twoProjects_def emptyWorld_def roomSockets_def projectItems_def cardItems_def)
  from live_pages_follow_the_server [OF this, THEN conjunct2, THEN conjunct2, of "''q''"] run
  have "mset (fold checklistPageSync (news ''s'' twoProjects t) []) = {#checklistItemOf r#}"
    using t by (simp add: roomSockets_def twoProjects_def)
  with run show ?thesis by (intro exI conjI)
qed

end
