(* ===== verification/Calendar.thy ===== *)
theory Calendar
  imports Tasks Tables Members
begin

text \<open>
  \<open>CalendarEventsService\<close>, \<open>CalendarAssigneeService\<close> (\<open>backend/src/calendar-events\<close>),
  \<open>CalendarCategoriesService\<close> (\<open>backend/src/calendar-categories\<close>) and \<open>TaskCategoriesService\<close>
  (\<open>backend/src/task-categories\<close>). \<open>gap\<close> is what other requests do between the checks of a
  handler and its first write.
\<close>

section \<open>Request bodies and answers\<close>

record create_event_dto =
  ced_title :: string
  ced_categoryId :: ident
  ced_startAt :: millis
  ced_endAt :: millis
  ced_description :: "string option"
  ced_notes :: "string option"
  ced_assigneeIds :: "ident list option"

record update_event_dto =
  ued_title :: "string option"
  ued_categoryId :: "ident option"
  ued_startAt :: "millis option"
  ued_endAt :: "millis option"
  ued_description :: "string option"
  ued_notes :: "string option"
  ued_assigneeIds :: "ident list option"

record category_dto =
  cgd_name :: string
  cgd_color :: int

record update_category_dto =
  ucg_name :: "string option"
  ucg_color :: "int option"

record event_view =
  ev_event :: event_row
  ev_category :: "category_row option"
  ev_assignees :: "user_ref list"

definition eventAssigneeIds :: "world \<Rightarrow> ident \<Rightarrow> ident list" where
  "eventAssigneeIds w i = map ca_userId (filter (\<lambda>a. ca_calId a = i) (calAssignees w))"

definition mapCalendarEvent :: "world \<Rightarrow> event_row \<Rightarrow> event_view" where
  "mapCalendarEvent w e = \<lparr>ev_event = e,
     ev_category = (case e_categoryId e of None \<Rightarrow> None
       | Some c \<Rightarrow> List.find (\<lambda>r. c_id r = c) (calCategories w)),
     ev_assignees = usersById w (eventAssigneeIds w (e_id e))\<rparr>"

definition eventNotFound :: exn where
  "eventNotFound = NotFound ''Calendar event not found''"

section \<open>Events\<close>

definition event_findAllForProject :: "ident \<Rightarrow> nat option \<Rightarrow> event_view list service" where
  "event_findAllForProject projectId limit =
     andThen (findMany calEvents (\<lambda>e. e_projectId e = projectId)) (\<lambda>es.
     gets (\<lambda>w. map (mapCalendarEvent w)
       ((case limit of None \<Rightarrow> (\<lambda>xs. xs) | Some n \<Rightarrow> take n) (sort_key e_startAt es))))"

definition event_findAll :: "ident \<Rightarrow> ident \<Rightarrow> event_view list service" where
  "event_findAll projectId userId =
     andThen (assertMembership projectId userId) (\<lambda>_. event_findAllForProject projectId None)"

definition event_findByIdForProject :: "ident \<Rightarrow> ident \<Rightarrow> event_view service" where
  "event_findByIdForProject i projectId =
     andThen (findFirst calEvents (\<lambda>e. e_id e = i \<and> e_projectId e = projectId)) (\<lambda>found.
     case found of None \<Rightarrow> throw eventNotFound | Some e \<Rightarrow> gets (\<lambda>w. mapCalendarEvent w e))"

definition event_findById :: "ident \<Rightarrow> ident \<Rightarrow> ident \<Rightarrow> event_view service" where
  "event_findById i projectId userId =
     andThen (assertMembership projectId userId) (\<lambda>_. event_findByIdForProject i projectId)"

definition event_assertValidDateRange :: "millis \<Rightarrow> millis \<Rightarrow> unit service" where
  "event_assertValidDateRange startAt endAt =
     (if endAt < startAt then throw (BadRequest ''endAt must not be before startAt'') else ret ())"

definition event_assertCategoryBelongsToProject :: "ident \<Rightarrow> ident \<Rightarrow> unit service" where
  "event_assertCategoryBelongsToProject projectId categoryId =
     andThen (findFirst calCategories (\<lambda>c. c_id c = categoryId \<and> c_projectId c = projectId))
       (\<lambda>category. ensure (category \<noteq> None)
         (BadRequest ''categoryId does not belong to this project''))"

text \<open>\<open>assertAssigneesAreProjectMembers\<close> of this service is word for word the one of the tasks.\<close>

text \<open>\<open>createMany\<close>: the rows are inserted, then the foreign keys are checked.\<close>

definition event_replaceAssignees :: "ident \<Rightarrow> ident list \<Rightarrow> unit service" where
  "event_replaceAssignees calId userIds = transaction (
     andThen (deleteMany calAssignees_update (\<lambda>a. ca_calId a = calId)) (\<lambda>_.
     andThen (forEach userIds (\<lambda>userId. insertUnique calAssignees calAssignees_update
       (\<lambda>a. ca_userId a = userId \<and> ca_calId a = calId)
       \<lparr>ca_userId = userId, ca_calId = calId\<rparr>)) (\<lambda>_.
     forEach userIds (\<lambda>userId.
       andThen (requireRow calEvents (\<lambda>e. e_id e = calId) ''P2003'') (\<lambda>_.
       requireRow users (\<lambda>u. u_id u = userId) ''P2003'')))))"

definition calendarLink :: "ident \<Rightarrow> string option" where
  "calendarLink projectId = Some (''/'' @ projectId @ ''/calendar'')"

definition notifyNewEventAssignees ::
  "ident \<Rightarrow> ident list \<Rightarrow> ident list \<Rightarrow> ident \<Rightarrow> (string \<Rightarrow> string) \<Rightarrow> unit service" where
  "notifyNewEventAssignees projectId previousAssigneeIds newAssigneeIds acting messageFor =
     notifyEach projectId
       (filter (\<lambda>u. u \<notin> set previousAssigneeIds \<and> u \<noteq> acting) newAssigneeIds)
       messageFor (calendarLink projectId)"

definition notifyRemovedEventAssignees ::
  "ident \<Rightarrow> ident list \<Rightarrow> ident list \<Rightarrow> ident \<Rightarrow> (string \<Rightarrow> string) \<Rightarrow> unit service" where
  "notifyRemovedEventAssignees projectId previousAssigneeIds newAssigneeIds acting messageFor =
     notifyEach projectId
       (filter (\<lambda>u. u \<notin> set newAssigneeIds \<and> u \<noteq> acting) previousAssigneeIds)
       messageFor (calendarLink projectId)"

definition event_create ::
  "(world \<Rightarrow> world) \<Rightarrow> ident \<Rightarrow> create_event_dto \<Rightarrow> ident \<Rightarrow> event_view service" where
  "event_create gap projectId dto userId =
     andThen (assertMembership projectId userId) (\<lambda>_.
     andThen (event_assertValidDateRange (ced_startAt dto) (ced_endAt dto)) (\<lambda>_.
     andThen (event_assertCategoryBelongsToProject projectId (ced_categoryId dto)) (\<lambda>_.
     andThen (case ced_assigneeIds dto of None \<Rightarrow> ret ()
        | Some ids \<Rightarrow> assertAssigneesAreProjectMembers projectId ids) (\<lambda>_.
     andThen (modify gap) (\<lambda>_.
     andThen (requireRow projects (\<lambda>p. p_id p = projectId) ''P2003'') (\<lambda>_.
     andThen (requireRow calCategories (\<lambda>c. c_id c = ced_categoryId dto) ''P2003'') (\<lambda>_.
     andThen (createRow calEvents calEvents_update e_id (\<lambda>i.
       \<lparr>e_id = i, e_projectId = projectId, e_title = ced_title dto, e_startAt = ced_startAt dto,
        e_endAt = ced_endAt dto, e_categoryId = Some (ced_categoryId dto),
        e_description = ced_description dto, e_notes = ced_notes dto\<rparr>)) (\<lambda>event.
     andThen (case ced_assigneeIds dto of None \<Rightarrow> ret ()
        | Some ids \<Rightarrow>
            andThen (event_replaceAssignees (e_id event) ids) (\<lambda>_.
            notifyNewEventAssignees projectId [] ids userId (\<lambda>projectName.
              ''New event '' @ dquote (e_title event) @ '' assigned to you on '' @ dquote projectName))) (\<lambda>_.
     event_findById (e_id event) projectId userId)))))))))"

definition applyEventDto :: "update_event_dto \<Rightarrow> event_row \<Rightarrow> event_row" where
  "applyEventDto dto e = e\<lparr>
     e_title := orElse (ued_title dto) (e_title e),
     e_categoryId := orKeep (ued_categoryId dto) (e_categoryId e),
     e_startAt := orElse (ued_startAt dto) (e_startAt e),
     e_endAt := orElse (ued_endAt dto) (e_endAt e),
     e_description := orKeep (ued_description dto) (e_description e),
     e_notes := orKeep (ued_notes dto) (e_notes e)\<rparr>"

text \<open>
  Without a concurrent deletion of the category, its foreign key cannot fail here; with one it is
  P2003, like every foreign key.
\<close>

definition event_update ::
  "(world \<Rightarrow> world) \<Rightarrow> ident \<Rightarrow> update_event_dto \<Rightarrow> ident \<Rightarrow> ident \<Rightarrow> event_view service" where
  "event_update gap i dto projectId userId =
     andThen (event_findById i projectId userId) (\<lambda>existingEvent.
     andThen (event_assertValidDateRange
       (orElse (ued_startAt dto) (e_startAt (ev_event existingEvent)))
       (orElse (ued_endAt dto) (e_endAt (ev_event existingEvent)))) (\<lambda>_.
     andThen (case ued_categoryId dto of None \<Rightarrow> ret ()
        | Some c \<Rightarrow> event_assertCategoryBelongsToProject projectId c) (\<lambda>_.
     andThen (case ued_assigneeIds dto of None \<Rightarrow> ret ()
        | Some ids \<Rightarrow> assertAssigneesAreProjectMembers projectId ids) (\<lambda>_.
     andThen (modify gap) (\<lambda>_.
     andThen (catching
       (andThen (findOrThrow calEvents (\<lambda>e. e_id e = i)) (\<lambda>_.
        andThen (case ued_categoryId dto of None \<Rightarrow> ret ()
          | Some c \<Rightarrow> requireRow calCategories (\<lambda>r. c_id r = c) ''P2003'') (\<lambda>_.
        updateOne calEvents calEvents_update (\<lambda>e. e_id e = i) (applyEventDto dto))))
       (\<lambda>e. if isRecordNotFoundError e then throw eventNotFound else throw e)) (\<lambda>_.
     andThen (case ued_assigneeIds dto of None \<Rightarrow> ret ()
        | Some ids \<Rightarrow>
            let eventTitle = orElse (ued_title dto) (e_title (ev_event existingEvent));
                previousIds = map ref_id (ev_assignees existingEvent)
            in andThen (event_replaceAssignees i ids) (\<lambda>_.
               promiseAll
                 [notifyNewEventAssignees projectId previousIds ids userId (\<lambda>projectName.
                    ''You were added to '' @ dquote eventTitle @ '' on '' @ dquote projectName),
                  notifyRemovedEventAssignees projectId previousIds ids userId (\<lambda>projectName.
                    ''You were removed from '' @ dquote eventTitle @ '' on '' @ dquote projectName)]
                 (\<lambda>m. m))) (\<lambda>_.
     event_findById i projectId userId)))))))"

text \<open>Deleting an event cascades to its assignees; the answer is read before they go.\<close>

definition deleteEventRow :: "ident \<Rightarrow> event_view service" where
  "deleteEventRow i =
     andThen (findOrThrow calEvents (\<lambda>e. e_id e = i)) (\<lambda>e.
     andThen (gets (\<lambda>w. mapCalendarEvent w e)) (\<lambda>view.
     andThen (deleteOne calEvents calEvents_update (\<lambda>e. e_id e = i)) (\<lambda>_.
     andThen (deleteMany calAssignees_update (\<lambda>a. ca_calId a = i)) (\<lambda>_.
     ret view))))"

definition event_remove :: "(world \<Rightarrow> world) \<Rightarrow> ident \<Rightarrow> ident \<Rightarrow> ident \<Rightarrow> event_view service" where
  "event_remove gap i projectId userId =
     andThen (event_findById i projectId userId) (\<lambda>existingEvent.
     andThen (modify gap) (\<lambda>_.
     catching (deleteEventRow i)
       (\<lambda>e. if isRecordNotFoundError e then ret existingEvent else throw e)))"

section \<open>Categories\<close>

definition calCategory_create :: "ident \<Rightarrow> category_dto \<Rightarrow> ident \<Rightarrow> category_row service" where
  "calCategory_create projectId dto userId =
     andThen (assertMembership projectId userId) (\<lambda>_.
     andThen (requireRow projects (\<lambda>p. p_id p = projectId) ''P2003'') (\<lambda>_.
     createRow calCategories calCategories_update c_id (\<lambda>i.
       \<lparr>c_id = i, c_name = cgd_name dto, c_color = cgd_color dto, c_projectId = projectId\<rparr>)))"

text \<open>\<open>orderBy: name\<close> sorts by the database's collation, the parameter \<open>rank\<close>.\<close>

definition calCategory_findAll :: "(string \<Rightarrow> nat) \<Rightarrow> ident \<Rightarrow> ident \<Rightarrow> category_row list service" where
  "calCategory_findAll rank projectId userId =
     andThen (assertMembership projectId userId) (\<lambda>_.
     andThen (findMany calCategories (\<lambda>c. c_projectId c = projectId)) (\<lambda>cs.
     ret (sort_key (\<lambda>c. rank (c_name c)) cs)))"

definition calCategory_findById :: "ident \<Rightarrow> ident \<Rightarrow> ident \<Rightarrow> category_row service" where
  "calCategory_findById i projectId userId =
     resourceGuard calCategories c_id c_projectId (NotFound ''Calendar category not found'')
       (i, projectId, userId)"

definition applyCategoryDto :: "update_category_dto \<Rightarrow> category_row \<Rightarrow> category_row" where
  "applyCategoryDto dto c = c\<lparr>c_name := orElse (ucg_name dto) (c_name c),
     c_color := orElse (ucg_color dto) (c_color c)\<rparr>"

definition calCategory_update ::
  "(world \<Rightarrow> world) \<Rightarrow> ident \<Rightarrow> update_category_dto \<Rightarrow> ident \<Rightarrow> ident \<Rightarrow> category_row service" where
  "calCategory_update gap i dto projectId userId =
     andThen (calCategory_findById i projectId userId) (\<lambda>_.
     andThen (modify gap) (\<lambda>_.
     updateOne calCategories calCategories_update (\<lambda>c. c_id c = i) (applyCategoryDto dto)))"

text \<open>Deleting a category sets it to null in its events.\<close>

definition calCategory_remove :: "(world \<Rightarrow> world) \<Rightarrow> ident \<Rightarrow> ident \<Rightarrow> ident \<Rightarrow> category_row service" where
  "calCategory_remove gap i projectId userId =
     andThen (calCategory_findById i projectId userId) (\<lambda>_.
     andThen (modify gap) (\<lambda>_.
     andThen (deleteOne calCategories calCategories_update (\<lambda>c. c_id c = i)) (\<lambda>deleted.
     andThen (updateMany calEvents_update (\<lambda>e. e_categoryId e = Some i) (\<lambda>e. e\<lparr>e_categoryId := None\<rparr>)) (\<lambda>_.
     ret deleted))))"

definition taskCategory_findAll :: "(string \<Rightarrow> nat) \<Rightarrow> ident \<Rightarrow> ident \<Rightarrow> category_row list service" where
  "taskCategory_findAll rank projectId userId =
     andThen (assertMembership projectId userId) (\<lambda>_.
     andThen (findMany taskCategories (\<lambda>c. c_projectId c = projectId)) (\<lambda>cs.
     ret (sort_key (\<lambda>c. rank (c_name c)) cs)))"

section \<open>The calendar stays consistent\<close>

text \<open>
  Ids are unique, no event ends before it starts, an event's category is one of its project and
  every assignee of an event is a member of the event's project.
\<close>

definition categoryOk :: "world \<Rightarrow> ident \<Rightarrow> ident option \<Rightarrow> bool" where
  "categoryOk w p c \<longleftrightarrow>
     c = None \<or> list_ex (\<lambda>r. Some (c_id r) = c \<and> c_projectId r = p) (calCategories w)"

definition assigneeOk :: "world \<Rightarrow> calendar_assignee_row \<Rightarrow> bool" where
  "assigneeOk w a = list_ex (\<lambda>e. e_id e = ca_calId a \<and> isMember w (e_projectId e) (ca_userId a))
     (calEvents w)"

definition calendarOk :: "world \<Rightarrow> bool" where
  "calendarOk w \<longleftrightarrow> distinct (map e_id (calEvents w)) \<and>
     list_all (\<lambda>e. e_startAt e \<le> e_endAt e \<and> categoryOk w (e_projectId e) (e_categoryId e))
       (calEvents w) \<and>
     list_all (assigneeOk w) (calAssignees w)"

lemmas calendar_defs = calendarOk_def assigneeOk_def categoryOk_def isMember_def
  list_ex_iff list_all_iff

lemma calendarOk_cong:
  "calEvents v = calEvents w \<Longrightarrow> calCategories v = calCategories w \<Longrightarrow> calAssignees v = calAssignees w \<Longrightarrow>
   members v = members w \<Longrightarrow> calendarOk v = calendarOk w"
proof -
  assume "calEvents v = calEvents w" "calCategories v = calCategories w"
    "calAssignees v = calAssignees w" "members v = members w"
  moreover from this have "categoryOk v = categoryOk w" "isMember v = isMember w"
    by (simp_all add: fun_eq_iff categoryOk_def isMember_def)
  ultimately show ?thesis by (simp add: calendarOk_def assigneeOk_def [abs_def])
qed

text \<open>
  What the other requests served between the checks and the writes may do: anything that keeps
  the calendar consistent, the memberships and categories as they are, and the project and dates
  of the events there are.
\<close>

definition calm :: "world \<Rightarrow> world \<Rightarrow> bool" where
  "calm w v \<longleftrightarrow> calendarOk v \<and> members v = members w \<and> calCategories v = calCategories w \<and>
     list_all (\<lambda>e. list_all (\<lambda>e'. e_id e' = e_id e \<longrightarrow> e_projectId e' = e_projectId e \<and>
       e_startAt e' = e_startAt e \<and> e_endAt e' = e_endAt e) (calEvents v)) (calEvents w)"

lemma calm_refl: "calendarOk w \<Longrightarrow> calm w w"
  by (auto simp: calm_def calendarOk_def list_all_iff distinct_map dest: inj_onD)

text \<open>The count of members is a membership test for all of them.\<close>

lemma assigneesChecked:
  assumes "memberKeysUnique w" and "assertAssigneesAreProjectMembers p ids w = (Inr u, t)"
  shows "list_all (isMember w p) ids" and "distinct ids"
proof -
  let ?rows = "filter (\<lambda>m. pm_projectId m = p \<and> pm_userId m \<in> set ids) (members w)"
  have n: "length ?rows = length ids"
    using assms(2)
    by (auto simp: assertAssigneesAreProjectMembers_def run_simps filter_empty_conv split: if_splits)
  have "distinct (map (\<lambda>m. (pm_projectId m, pm_userId m)) ?rows)"
    using assms(1) unfolding memberKeysUnique_def by (rule distinct_map_filterI)
  then have d: "distinct (map pm_userId ?rows)"
    by (auto simp: distinct_map inj_on_def)
  have sub: "set (map pm_userId ?rows) \<subseteq> set ids" by auto
  have "card (set (map pm_userId ?rows)) = length ids"
    using distinct_card [OF d] n by simp
  then have "card (set ids) = length ids" and all: "set (map pm_userId ?rows) = set ids"
    using card_length [of ids] card_mono [OF _ sub] card_subset_eq [OF _ sub] by auto
  then show "distinct ids" using card_distinct by blast
  show "list_all (isMember w p) ids"
    unfolding list_all_iff
  proof
    fix x assume "x \<in> set ids"
    then have "x \<in> set (map pm_userId ?rows)" using all by simp
    then show "isMember w p x" by (auto simp: isMember_def list_ex_iff)
  qed
qed

lemma quiet_calendarOk: "quiet calendarOk"
  by (rule quietI; erule calendarOk_cong [THEN iffD2, rotated -1]; simp)

lemma calendar_reads:
  "reads (event_findByIdForProject i p)" "reads (event_findById i p u)"
  "reads (assertAssigneesAreProjectMembers p ids)"
  "reads (event_assertCategoryBelongsToProject p c)" "reads (assertMembership p u)"
  unfolding event_findByIdForProject_def event_findById_def assertAssigneesAreProjectMembers_def
    event_assertCategoryBelongsToProject_def
  by (auto simp: reads_iff_keeps intro!: keeps_rules)

lemma reads_dateRange: "reads (event_assertValidDateRange s e)" "reads (ret a)"
  by (simp_all add: reads_def event_assertValidDateRange_def run_simps)

lemma reads_calCategory_findById: "reads (calCategory_findById i p u)"
  unfolding calCategory_findById_def by (rule access_guard.guard_reads [OF resourceGuard_is_guard])

lemma reads_option: "reads m \<Longrightarrow> (\<And>a. reads (f a)) \<Longrightarrow> reads (case x of None \<Rightarrow> m | Some a \<Rightarrow> f a)"
  by (cases x) auto

lemma event_findById_Inr:
  "event_findById i p u w = (Inr v, t) \<Longrightarrow>
   ev_event v \<in> set (calEvents w) \<and> e_id (ev_event v) = i \<and> e_projectId (ev_event v) = p \<and> t = w"
  by (auto simp: event_findById_def event_findByIdForProject_def run_simps mapCalendarEvent_def
      split: option.splits dest: find_SomeD)

lemma categoryChecked:
  "event_assertCategoryBelongsToProject p c w = (Inr u, t) \<Longrightarrow> categoryOk w p (Some c)"
  by (auto simp: event_assertCategoryBelongsToProject_def run_simps categoryOk_def list_ex_iff
      split: if_splits dest!: find_SomeD)

lemma dateRangeChecked: "event_assertValidDateRange s e w = (Inr u, t) \<Longrightarrow> s \<le> e"
  by (auto simp: event_assertValidDateRange_def run_simps split: if_splits)

text \<open>The writes.\<close>

lemma replaceAssignees_calendarOk:
  assumes "calendarOk w" and "e \<in> set (calEvents w)" and "list_all (isMember w (e_projectId e)) ids"
  shows "calendarOk (snd (event_replaceAssignees (e_id e) ids w))"
proof -
  let ?I = "\<lambda>w. calendarOk w \<and> e \<in> set (calEvents w) \<and> list_all (isMember w (e_projectId e)) ids"
  have "keeps ?I (event_replaceAssignees (e_id e) ids)"
    unfolding event_replaceAssignees_def
    by (intro keeps_transaction keeps_andThen keeps_forEach_list keeps_requireRow keeps_deleteMany
        keeps_insertUnique) (auto simp: calendar_defs)
  from keepsD [OF this, of w] show ?thesis using assms by simp
qed

lemma keeps_notifyEach: "quiet I \<Longrightarrow> keeps I (notifyEach p rs msg link)"
  unfolding notifyEach_def by (intro keeps_rules quiet_keeps)

lemma keeps_eventNotes [keeps_rules]:
  "keeps calendarOk (notifyNewEventAssignees p a b u msg)"
  "keeps calendarOk (notifyRemovedEventAssignees p a b u msg)"
  unfolding notifyNewEventAssignees_def notifyRemovedEventAssignees_def
  by (intro keeps_notifyEach quiet_calendarOk)+

lemma assign_calendarOk:
  assumes "calendarOk v" and "e \<in> set (calEvents v)" "e_id e = i" and "\<And>ids. keeps calendarOk (tell ids)"
    and "\<And>ids. x = Some ids \<Longrightarrow> list_all (isMember v (e_projectId e)) ids"
  shows "calendarOk (snd ((case x of None \<Rightarrow> ret ()
    | Some ids \<Rightarrow> andThen (event_replaceAssignees i ids) (\<lambda>_. tell ids)) v))"
proof (cases x)
  case (Some ids)
  have r: "calendarOk (snd (event_replaceAssignees i ids v))"
    using replaceAssignees_calendarOk [OF assms(1,2) assms(5) [OF Some]] assms(3) by simp
  have "calendarOk (snd (tell ids t))" if "event_replaceAssignees i ids v = (Inr a, t)" for a t
    using r that by (intro keepsD [OF assms(4)]) simp
  with r show ?thesis unfolding Some option.case by (rule andThen_ends)
qed (simp add: ret_run assms(1))

lemma createEvent_Inr:
  assumes "createRow calEvents calEvents_update e_id mk w = (Inr e, t)"
  shows "e = mk (uuids w 0)" and "e \<in> set (calEvents t)" and "members t = members w"
  using assms by (auto simp: calEvents.createRow_Inr)

lemma createEvent_calendarOk:
  assumes "calendarOk w" and "\<And>i. e_id (mk i) = i"
    and "\<And>i. e_startAt (mk i) \<le> e_endAt (mk i)" "\<And>i. categoryOk w (e_projectId (mk i)) (e_categoryId (mk i))"
  shows "calendarOk (snd (createRow calEvents calEvents_update e_id mk w))"
  using assms by (auto simp: run_simps calendar_defs)

lemma isMember_cong: "members v = members w \<Longrightarrow> isMember v = isMember w"
  by (simp add: fun_eq_iff isMember_def)

lemma keeps_findById: "keeps calendarOk (event_findById i p u)"
  by (rule reads_keeps, rule calendar_reads)

text \<open>What a handler does after its checks, from the state the gap leaves.\<close>

lemma after_gap: "I (snd (f () (gap w))) \<Longrightarrow> I (snd (andThen (modify gap) f w))"
  by (simp add: run_simps)

lemma calendar_end:
  assumes "calendarOk (snd (m w))" shows "calendarOk (snd (andThen m (\<lambda>_. event_findById i p u) w))"
proof (rule andThen_ends [where I = calendarOk], rule assms)
  show "calendarOk (snd (event_findById i p u t))" if "m w = (Inr a, t)" for a t
    using assms that by (intro keepsD [OF keeps_findById]) simp
qed

lemma event_create_calendarOk:
  assumes "memberKeysUnique w" and w: "calendarOk w" and calm: "calm w (gap w)"
  shows "calendarOk (snd (event_create gap p dto u w))"
  unfolding event_create_def
  apply (rule reads_then [where I = calendarOk], rule calendar_reads, rule w)
  apply (rule reads_then [where I = calendarOk], rule reads_dateRange, rule w)
  apply (rule reads_then [where I = calendarOk], rule calendar_reads, rule w)
  apply (rule reads_then [where I = calendarOk], rule reads_option, rule reads_dateRange,
      rule calendar_reads, rule w)
  subgoal premises checks for a b c d
  proof -
    let ?v = "gap w"
    let ?mk = "\<lambda>i. \<lparr>e_id = i, e_projectId = p, e_title = ced_title dto, e_startAt = ced_startAt dto,
        e_endAt = ced_endAt dto, e_categoryId = Some (ced_categoryId dto),
        e_description = ced_description dto, e_notes = ced_notes dto\<rparr>"
    have v: "calendarOk ?v" "members ?v = members w" "calCategories ?v = calCategories w"
      using calm by (simp_all add: calm_def)
    have created: "calendarOk (snd (createRow calEvents calEvents_update e_id ?mk ?v))"
      using v dateRangeChecked [OF checks(2)] categoryChecked [OF checks(3)]
      by (intro createEvent_calendarOk) (simp_all add: categoryOk_def)
    have members: "list_all (isMember w p) ids" if "ced_assigneeIds dto = Some ids" for ids
      using assigneesChecked(1) [OF assms(1)] checks(4) that by auto
    have rest: "calendarOk (snd ((case ced_assigneeIds dto of None \<Rightarrow> ret ()
        | Some ids \<Rightarrow> andThen (event_replaceAssignees (e_id e) ids) (\<lambda>_.
            notifyNewEventAssignees p [] ids u msg)) t))"
      if e: "createRow calEvents calEvents_update e_id ?mk ?v = (Inr e, t)" for e t msg
      by (rule assign_calendarOk [where tell = "\<lambda>ids. notifyNewEventAssignees p [] ids u msg"])
        (use created e createEvent_Inr [OF e] members isMember_cong [of t w] v(2) keeps_eventNotes
          in auto)
    show ?thesis
      apply (rule after_gap)
      apply (rule reads_then [where I = calendarOk], rule reads_requireRow, rule v)
      apply (rule reads_then [where I = calendarOk], rule reads_requireRow, rule v)
      apply (rule andThen_ends [where I = calendarOk], rule created, rule calendar_end, erule rest)
      done
  qed
  done


definition sameEvent :: "event_row \<Rightarrow> event_row \<Rightarrow> bool" where
  "sameEvent e e' \<longleftrightarrow> e_id e' = e_id e \<and> e_projectId e' = e_projectId e"

text \<open>Updating events of a consistent calendar.\<close>

lemma updateEvent_calendarOk:
  assumes "calendarOk v" and same: "\<And>e. sameEvent e (f e)"
    and "\<And>e. e \<in> set (calEvents v) \<Longrightarrow> P e \<Longrightarrow>
      e_startAt (f e) \<le> e_endAt (f e) \<and> categoryOk v (e_projectId e) (e_categoryId (f e))"
  shows "calendarOk (calEvents_update (map (\<lambda>e. if P e then f e else e)) v)"
proof -
  let ?g = "\<lambda>e. if P e then f e else e"
  let ?v = "calEvents_update (map ?g) v"
  have same: "e_id (?g e) = e_id e" "e_projectId (?g e) = e_projectId e" for e
    using same [of e] by (simp_all add: sameEvent_def)
  have sel: "calEvents ?v = map ?g (calEvents v)" "calAssignees ?v = calAssignees v" by simp_all
  have in_v: "categoryOk ?v = categoryOk v" "isMember ?v = isMember v"
    by (simp_all add: fun_eq_iff categoryOk_def isMember_def)
  have all: "list_all R (map ?g xs) = list_all (\<lambda>x. R (?g x)) xs"
    and ex: "list_ex Q (map ?g xs) = list_ex (\<lambda>x. Q (?g x)) xs" for R Q xs
    by (induction xs) simp_all
  have "map e_id (map ?g (calEvents v)) = map e_id (calEvents v)" using same(1) by simp
  then have "distinct (map e_id (map ?g (calEvents v)))" using assms(1) by (simp only: calendarOk_def)
  moreover have "assigneeOk ?v a = assigneeOk v a" for a
    unfolding assigneeOk_def in_v sel by (simp only: ex same)
  moreover have "e_startAt (?g e) \<le> e_endAt (?g e) \<and> categoryOk v (e_projectId (?g e)) (e_categoryId (?g e))"
    if "e \<in> set (calEvents v)" for e
    using assms(1) assms(3) [OF that] same(2) [of e] that by (auto simp: calendarOk_def list_all_iff)
  ultimately show ?thesis
    using assms(1) unfolding calendarOk_def in_v sel all unfolding list_all_iff by simp
qed

text \<open>The guarded write of \<open>update\<close>.\<close>

abbreviation writeEvent :: "ident \<Rightarrow> update_event_dto \<Rightarrow> event_row service" where
  "writeEvent i dto \<equiv> catching
     (andThen (findOrThrow calEvents (\<lambda>e. e_id e = i)) (\<lambda>_.
      andThen (case ued_categoryId dto of None \<Rightarrow> ret ()
        | Some c \<Rightarrow> requireRow calCategories (\<lambda>r. c_id r = c) ''P2003'') (\<lambda>_.
      updateOne calEvents calEvents_update (\<lambda>e. e_id e = i) (applyEventDto dto))))
     (\<lambda>e. if isRecordNotFoundError e then throw eventNotFound else throw e)"

abbreviation eventWritten :: "ident \<Rightarrow> update_event_dto \<Rightarrow> world \<Rightarrow> world" where
  "eventWritten i dto v \<equiv> calEvents_update (map (\<lambda>e. if e_id e = i then applyEventDto dto e else e)) v"

lemma writeEvent_run:
  "writeEvent i dto v = (case List.find (\<lambda>e. e_id e = i) (calEvents v) of
     None \<Rightarrow> (Inl eventNotFound, v)
   | Some e \<Rightarrow> if (\<forall>c. ued_categoryId dto = Some c \<longrightarrow> list_ex (\<lambda>r. c_id r = c) (calCategories v))
       then (Inr (applyEventDto dto e), eventWritten i dto v) else (Inl (PrismaError ''P2003''), v))"
  by (cases "List.find (\<lambda>e. e_id e = i) (calEvents v)"; cases "ued_categoryId dto")
    (simp_all add: run_simps isRecordNotFoundError_def)

lemma event_update_calendarOk:
  assumes "memberKeysUnique w" and w: "calendarOk w" and calm: "calm w (gap w)"
  shows "calendarOk (snd (event_update gap i dto p u w))"
  unfolding event_update_def
  apply (rule reads_then [where I = calendarOk], rule calendar_reads, rule w)
  apply (rule reads_then [where I = calendarOk], rule reads_dateRange, rule w)
  apply (rule reads_then [where I = calendarOk], rule reads_option, rule reads_dateRange,
      rule calendar_reads, rule w)
  apply (rule reads_then [where I = calendarOk], rule reads_option, rule reads_dateRange,
      rule calendar_reads, rule w)
  subgoal premises checks for a b c d
  proof -
    let ?v = "gap w" and ?old = "ev_event a"
    have v: "calendarOk ?v" "members ?v = members w" "calCategories ?v = calCategories w"
      using calm by (simp_all add: calm_def)
    have old: "?old \<in> set (calEvents w)" "e_id ?old = i" "e_projectId ?old = p"
      using event_findById_Inr [OF checks(1)] by auto
    have now: "e_projectId e = p \<and> e_startAt e = e_startAt ?old \<and> e_endAt e = e_endAt ?old"
      if "e \<in> set (calEvents ?v)" "e_id e = i" for e
      using calm old that by (auto simp: calm_def list_all_iff)
    have category: "categoryOk ?v p (Some c)" if "ued_categoryId dto = Some c" for c
      using checks(3) that v(3) by (auto simp: categoryOk_def dest!: categoryChecked)
    have "calendarOk (calEvents_update (map (\<lambda>e. if e_id e = i then applyEventDto dto e else e)) ?v)"
    proof (rule updateEvent_calendarOk [OF v(1)])
      show "sameEvent e (applyEventDto dto e)" for e by (simp add: sameEvent_def applyEventDto_def)
      show "e_startAt (applyEventDto dto e) \<le> e_endAt (applyEventDto dto e) \<and>
          categoryOk ?v (e_projectId e) (e_categoryId (applyEventDto dto e))"
        if e: "e \<in> set (calEvents ?v)" "e_id e = i" for e
        using dateRangeChecked [OF checks(2)] now [OF e] category v(1) e(1)
        by (auto simp: applyEventDto_def orKeep_def calendarOk_def list_all_iff split: option.split)
    qed
    then have updated: "calendarOk (snd (writeEvent i dto ?v))"
      using v(1) by (simp add: writeEvent_run split: option.split)
    have rest: "calendarOk (snd ((case ued_assigneeIds dto of None \<Rightarrow> ret ()
        | Some ids \<Rightarrow> andThen (event_replaceAssignees i ids) (\<lambda>_. tell ids)) t))"
      if m: "writeEvent i dto ?v = (Inr x, t)"
        and tell: "\<And>ids. keeps calendarOk (tell ids)" for x t tell
    proof -
      obtain e where e: "e \<in> set (calEvents ?v)" "e_id e = i"
        and t: "t = calEvents_update (map (\<lambda>e. if e_id e = i then applyEventDto dto e else e)) ?v"
        using m by (auto simp: writeEvent_run split: option.splits if_splits dest: find_SomeD)
      have "applyEventDto dto e \<in> set (calEvents t)" using e by (auto simp: t)
      moreover have "e_id (applyEventDto dto e) = i" "e_projectId (applyEventDto dto e) = p"
        using e now [OF e] by (simp_all add: applyEventDto_def)
      moreover have "isMember t = isMember w" using v(2) by (intro isMember_cong) (simp add: t)
      moreover have "calendarOk t" using updated m by simp
      moreover have "list_all (isMember w p) ids" if "ued_assigneeIds dto = Some ids" for ids
        using assigneesChecked(1) [OF assms(1)] checks(4) that by auto
      ultimately show ?thesis
        using assign_calendarOk [of t "applyEventDto dto e" i tell "ued_assigneeIds dto"] tell by simp
    qed
    show ?thesis unfolding Let_def
      apply (rule after_gap)
      apply (rule andThen_ends [where I = calendarOk], rule updated)
      apply (rule calendar_end, rule rest, assumption)
      apply (rule keeps_promiseAll_list)
      apply (elim set_ConsD [elim_format] disjE; simp add: keeps_eventNotes)
      done
  qed
  done

lemma event_remove_calendarOk:
  assumes w: "calendarOk w" and v: "calendarOk (gap w)"
  shows "calendarOk (snd (event_remove gap i p u w))"
  unfolding event_remove_def
proof (rule reads_then [where I = calendarOk], rule calendar_reads, rule w, rule after_gap)
  show "calendarOk (snd (catching (deleteEventRow i)
      (\<lambda>e. if isRecordNotFoundError e then ret x else throw e) (gap w)))" for x
  proof (cases "List.find (\<lambda>e. e_id e = i) (calEvents (gap w))")
    case (Some e)
    then show ?thesis using v
      by (simp add: deleteEventRow_def run_simps) (fastforce simp: calendar_defs distinct_map_filterI)
  qed (simp add: deleteEventRow_def run_simps v)
qed

lemma categories_calendarOk:
  assumes "calendarOk v"
    and "\<And>p c. categoryOk v p c \<Longrightarrow> c \<in> e_categoryId ` set (calEvents v) \<Longrightarrow> categoryOk (calCategories_update g v) p c"
  shows "calendarOk (calCategories_update g v)"
proof -
  have "assigneeOk (calCategories_update g v) a = assigneeOk v a" for a
    by (simp add: assigneeOk_def isMember_def)
  then show ?thesis using assms by (auto simp: calendarOk_def list_all_iff)
qed

lemma calCategory_calendarOk:
  assumes w: "calendarOk w" and v: "calendarOk (gap w)"
  shows "calendarOk (snd (calCategory_create p cdto u w))"
    and "calendarOk (snd (calCategory_update gap i dto p u w))"
    and "calendarOk (snd (calCategory_remove gap i p u w))"
proof -
  have "keeps calendarOk (calCategory_create p cdto u)"
    unfolding calCategory_create_def
    by (intro keeps_rules keeps_requireRow keeps_createRow) (auto simp: calendar_defs)
  then show "calendarOk (snd (calCategory_create p cdto u w))" using w by (rule keepsD)
  show "calendarOk (snd (calCategory_update gap i dto p u w))"
    unfolding calCategory_update_def
  proof (rule reads_then [where I = calendarOk], rule reads_calCategory_findById, rule w, rule after_gap)
    show "calendarOk (snd (updateOne calCategories calCategories_update (\<lambda>c. c_id c = i)
      (applyCategoryDto dto) (gap w)))"
    proof (cases "List.find (\<lambda>c. c_id c = i) (calCategories (gap w))")
      case (Some c)
      have "list_ex Q (map (\<lambda>c. if c_id c = i then applyCategoryDto dto c else c) cs) = list_ex Q cs"
        if "\<And>c. Q (applyCategoryDto dto c) = Q c" for Q cs
        using that by (induction cs) auto
      then have "calendarOk (calCategories_update (map (\<lambda>c. if c_id c = i then applyCategoryDto dto c else c)) (gap w))"
        by (intro categories_calendarOk v) (simp add: categoryOk_def applyCategoryDto_def)
      then show ?thesis using Some by (simp add: run_simps)
    qed (simp add: run_simps v)
  qed
  show "calendarOk (snd (calCategory_remove gap i p u w))"
    unfolding calCategory_remove_def
  proof (rule reads_then [where I = calendarOk], rule reads_calCategory_findById, rule w, rule after_gap)
    show "calendarOk (snd (andThen (deleteOne calCategories calCategories_update (\<lambda>c. c_id c = i)) (\<lambda>deleted.
      andThen (updateMany calEvents_update (\<lambda>e. e_categoryId e = Some i) (\<lambda>e. e\<lparr>e_categoryId := None\<rparr>)) (\<lambda>_.
      ret deleted)) (gap w)))"
    proof (cases "List.find (\<lambda>c. c_id c = i) (calCategories (gap w))")
      case (Some c)
      let ?v = "calEvents_update (map (\<lambda>e. if e_categoryId e = Some i then e\<lparr>e_categoryId := None\<rparr> else e)) (gap w)"
      have "calendarOk ?v"
        by (rule updateEvent_calendarOk [OF v]) (use v in \<open>auto simp: sameEvent_def calendar_defs\<close>)
      then have "calendarOk (calCategories_update (filter (\<lambda>c. c_id c \<noteq> i)) ?v)"
        by (rule categories_calendarOk) (auto simp: categoryOk_def list_ex_iff)
      moreover have "calCategories_update (filter (\<lambda>c. c_id c \<noteq> i)) ?v = calEvents_update (map (\<lambda>e.
          if e_categoryId e = Some i then e\<lparr>e_categoryId := None\<rparr> else e))
          (calCategories_update (filter (\<lambda>c. c_id c \<noteq> i)) (gap w))"
        by (cases "gap w") simp
      ultimately show ?thesis using Some by (simp add: run_simps del: world.update_convs)
    qed (simp add: run_simps v)
  qed
qed

text \<open>Removing a member takes the member off the events of the project.\<close>

lemma unassign_calendarOk:
  fixes u p w
  defines "v \<equiv> snd (deleteAssignments u p
    (members_update (filter (\<lambda>m. \<not> (pm_userId m = u \<and> pm_projectId m = p))) w))"
  assumes "calendarOk w"
  shows "calendarOk v"
proof -
  have sel: "calEvents v = calEvents w" "calCategories v = calCategories w"
    "members v = filter (\<lambda>m. \<not> (pm_userId m = u \<and> pm_projectId m = p)) (members w)"
    "calAssignees v = filter (\<lambda>a. \<not> (ca_userId a = u \<and>
       ca_calId a \<in> e_id ` {e \<in> set (calEvents w). e_projectId e = p})) (calAssignees w)"
    by (simp_all add: v_def deleteAssignments_def run_simps Let_def image_def)
  have "assigneeOk v a" if a: "a \<in> set (calAssignees v)" for a
  proof -
    have kept: "\<not> (ca_userId a = u \<and> ca_calId a \<in> e_id ` {e \<in> set (calEvents w). e_projectId e = p})"
      and "assigneeOk w a" using a assms(2) unfolding sel by (auto simp: calendarOk_def list_all_iff)
    then obtain e m where e: "e \<in> set (calEvents w)" "e_id e = ca_calId a"
      and m: "m \<in> set (members w)" "pm_projectId m = e_projectId e" "pm_userId m = ca_userId a"
      by (auto simp: assigneeOk_def isMember_def list_ex_iff)
    have "\<not> (pm_userId m = u \<and> pm_projectId m = p)" using kept e m by force
    then show ?thesis using e m unfolding assigneeOk_def isMember_def list_ex_iff sel by fastforce
  qed
  moreover have "categoryOk v = categoryOk w" by (simp add: fun_eq_iff categoryOk_def sel)
  ultimately show ?thesis using assms(2) by (simp add: calendarOk_def list_all_iff sel)
qed

lemma keeps_memberEffects:
  "keeps calendarOk (forEach rs emitFieldUnlock)" "keeps calendarOk (otherMembers p xs)"
  "keeps calendarOk (releaseUserInProject u p)"
proof -
  have "keeps calendarOk (emitFieldUnlock r)" for r
    by (cases r) (simp add: emitFieldUnlock_def keeps_broadcast quiet_calendarOk [unfolded quiet_def])
  then show "keeps calendarOk (forEach rs emitFieldUnlock)" by (rule keeps_forEach)
  show "keeps calendarOk (otherMembers p xs)" unfolding otherMembers_def by (intro keeps_rules)
  show "keeps calendarOk (releaseUserInProject u p)"
    unfolding releaseUserInProject_def Let_def
    by (intro keeps_rules keeps_modify) (erule calendarOk_cong [THEN iffD2, rotated -1]; simp)
qed

text \<open>Two writes that restore the invariant together.\<close>

lemma keeps_after_two:
  "I (snd (andThen m (\<lambda>x. andThen n (\<lambda>_. ret x)) w)) \<Longrightarrow> (\<And>x. keeps I (k x)) \<Longrightarrow>
   I (snd (andThen m (\<lambda>x. andThen n (\<lambda>_. k x)) w))"
  by (auto simp: run_simps keeps_def split: prod.splits sum.splits)

lemma performRemoval_calendarOk:
  assumes "calendarOk w"
  shows "calendarOk (snd (performRemoval p u r w))"
  unfolding performRemoval_def Let_def
proof (rule keeps_after_two)
  show "calendarOk (snd (andThen (deleteOne members members_update (\<lambda>m. pm_userId m = u \<and> pm_projectId m = p))
      (\<lambda>x. andThen (deleteAssignments u p) (\<lambda>_. ret x)) w))"
    using assms unassign_calendarOk [OF assms, of u p]
    by (cases "List.find (\<lambda>m. pm_userId m = u \<and> pm_projectId m = p) (members w)")
      (simp_all add: run_simps deleteAssignments_def)
qed (intro keeps_rules keeps_memberEffects quiet_keeps [OF quiet_calendarOk])

text \<open>
  The calm hypothesis on memberships is needed. Between the check and the write of an event's
  assignees the member is removed: the event is created with an assignee who is not a member.
  (The assignees of a task are checked again inside the transaction that writes them.)
\<close>

definition calWorld :: world where
  "calWorld = emptyWorld\<lparr>
     users := [\<lparr>u_id = ''a'', u_email = [], u_username = [], u_firstName = None, u_lastName = None,
        u_avatarUrl = None, u_campus = None, u_status = ACTIVE, u_updatedAt = 0\<rparr>,
       \<lparr>u_id = ''b'', u_email = [], u_username = [], u_firstName = None, u_lastName = None,
        u_avatarUrl = None, u_campus = None, u_status = ACTIVE, u_updatedAt = 0\<rparr>],
     projects := [\<lparr>p_id = ''p'', p_name = ''P'', p_description = None, p_status = P_IN_PROGRESS,
        p_deadline = None, p_isArchived = False, p_updatedAt = 0\<rparr>],
     members := [\<lparr>pm_userId = ''a'', pm_projectId = ''p'', pm_role = OWNER, pm_createdAt = 0\<rparr>,
       \<lparr>pm_userId = ''b'', pm_projectId = ''p'', pm_role = MEMBER, pm_createdAt = 0\<rparr>],
     calCategories := [\<lparr>c_id = ''c'', c_name = [], c_color = 0, c_projectId = ''p''\<rparr>]\<rparr>"

definition calDto :: create_event_dto where
  "calDto = \<lparr>ced_title = ''Review'', ced_categoryId = ''c'', ced_startAt = 1, ced_endAt = 2,
     ced_description = None, ced_notes = None, ced_assigneeIds = Some [''b'']\<rparr>"

lemma event_assignee_removed_meanwhile:
  "\<not> calendarOk (snd (event_create (\<lambda>w. snd (removeMember (\<lambda>w. w) ''p'' ''b'' ''b'' w)) ''p'' calDto ''a'' calWorld))"
  by code_simp

text \<open>C24 The calendar stays consistent: ids unique, no event ending before it starts, every
  category and every assignee of an event belonging to its project. Each operation on events and
  categories keeps this, whether it succeeds or throws, as long as the requests served between
  its checks and its writes leave memberships, categories and dates alone; removing a member
  keeps it too. A removal between the check and the write of an event's assignees breaks it.\<close>

theorem calendar_stays_consistent:
  assumes "memberKeysUnique w" and "calendarOk w" and "calm w (gap w)"
  shows "calendarOk (snd (event_create gap p cdto u w)) \<and>
    calendarOk (snd (event_update gap i udto p u w)) \<and>
    calendarOk (snd (event_remove gap i p u w)) \<and>
    calendarOk (snd (calCategory_create p gdto u w)) \<and>
    calendarOk (snd (calCategory_update gap c ugdto p u w)) \<and>
    calendarOk (snd (calCategory_remove gap c p u w)) \<and>
    calendarOk (snd (removeMember gap p v u w)) \<and>
    \<not> calendarOk (snd (event_create (\<lambda>w. snd (removeMember (\<lambda>w. w) ''p'' ''b'' ''b'' w)) ''p'' calDto ''a'' calWorld))"
proof (intro conjI event_assignee_removed_meanwhile)
  have v: "calendarOk (gap w)" using assms(3) by (simp add: calm_def)
  show "calendarOk (snd (event_create gap p cdto u w))" "calendarOk (snd (event_update gap i udto p u w))"
    by (rule event_create_calendarOk event_update_calendarOk; fact)+
  show "calendarOk (snd (event_remove gap i p u w))"
    by (rule event_remove_calendarOk [where gap = gap, OF assms(2) v])
  show "calendarOk (snd (calCategory_create p gdto u w))"
    "calendarOk (snd (calCategory_update gap c ugdto p u w))"
    "calendarOk (snd (calCategory_remove gap c p u w))"
    by (rule calCategory_calendarOk [where gap = gap, OF assms(2) v])+
  show "calendarOk (snd (removeMember gap p v u w))"
    unfolding removeMember_def withProject_def
  proof (rule after_gap, rule reads_then [where I = calendarOk], rule removal.guard_reads [of "(p, v, u)", simplified])
  qed (rule v, rule performRemoval_calendarOk, rule v)
qed

theorem calendar_stays_consistent_witness:
  "calendarOk (snd (event_create (\<lambda>w. w) ''p'' calDto ''a'' calWorld))"
proof -
  have "memberKeysUnique calWorld" by (simp add: memberKeysUnique_def calWorld_def)
  moreover have ok: "calendarOk calWorld" by (simp add: calendarOk_def calWorld_def emptyWorld_def)
  moreover have "calm calWorld ((\<lambda>w. w) calWorld)" using calm_refl [OF ok] by simp
  ultimately show ?thesis using calendar_stays_consistent [of calWorld "\<lambda>w. w"] by blast
qed

end
