(* ===== verification/Search.thy ===== *)
theory Search
  imports Tasks "HOL-Library.Product_Lexorder" "HOL-Library.Countable"
begin

text \<open>
  \<open>SearchService\<close> (\<open>backend/src/search\<close>), the query DTO it receives, and the browser side that
  builds the query: \<open>searchApi.ts\<close> and \<open>searchPageParams.ts\<close> (\<open>frontend/src/lib\<close>). The
  database is a parameter where it is not ours: \<open>ilike\<close> is its pattern operator, \<open>rank\<close> its
  collation, \<open>touched\<close> the \<open>updatedAt\<close> column of tasks, and \<open>snap k\<close> the state the \<open>k\<close>-th of the
  six queries finds, since they run at once and outside any transaction.
\<close>

section \<open>The query\<close>

datatype search_type = ST_all | ST_projects | ST_tasks | ST_users
datatype search_sort = By_name | By_recent
datatype search_order = Asc | Desc
datatype search_status = SS_TODO | SS_IN_PROGRESS | SS_REVIEW | SS_COMPLETED

record search_query =
  sq_q :: string
  sq_type :: "search_type option"
  sq_sort :: "search_sort option"
  sq_order :: "search_order option"
  sq_page :: "nat option"
  sq_limit :: "nat option"
  sq_status :: "search_status option"
  sq_includeArchived :: "bool option"

definition SEARCH_QUERY_MIN_LENGTH :: nat where "SEARCH_QUERY_MIN_LENGTH = 2"
definition SEARCH_QUERY_MAX_LENGTH :: nat where "SEARCH_QUERY_MAX_LENGTH = 100"
definition SEARCH_DEFAULT_LIMIT :: nat where "SEARCH_DEFAULT_LIMIT = 10"
definition SEARCH_MAX_LIMIT :: nat where "SEARCH_MAX_LIMIT = 50"
definition SEARCH_PREVIEW_LIMIT :: nat where "SEARCH_PREVIEW_LIMIT = 5"

text \<open>\<open>isProjectStatus\<close> and \<open>isTaskStatus\<close>: the enum value a filter stands for, if it has one.\<close>

fun projectStatusOf :: "search_status \<Rightarrow> project_status option" where
  "projectStatusOf SS_TODO = None"
| "projectStatusOf SS_IN_PROGRESS = Some P_IN_PROGRESS"
| "projectStatusOf SS_REVIEW = Some P_REVIEW"
| "projectStatusOf SS_COMPLETED = Some P_COMPLETED"

fun taskStatusOf :: "search_status \<Rightarrow> task_status option" where
  "taskStatusOf SS_TODO = Some TODO"
| "taskStatusOf SS_IN_PROGRESS = Some IN_PROGRESS"
| "taskStatusOf SS_REVIEW = Some REVIEW"
| "taskStatusOf SS_COMPLETED = Some COMPLETED"

definition searchType :: "search_query \<Rightarrow> search_type" where
  "searchType query = orElse (sq_type query) ST_all"

definition searchPage :: "search_query \<Rightarrow> nat" where
  "searchPage query = (if searchType query = ST_all then 1 else orElse (sq_page query) 1)"

definition searchLimit :: "search_query \<Rightarrow> nat" where
  "searchLimit query = (if searchType query = ST_all then SEARCH_PREVIEW_LIMIT
     else orElse (sq_limit query) SEARCH_DEFAULT_LIMIT)"

section \<open>Matching\<close>

text \<open>\<open>term.replace(/[\\%_]/g, "\\$&")\<close>\<close>

definition wildcard :: "char \<Rightarrow> bool" where
  "wildcard c \<longleftrightarrow> c = CHR 0x5C \<or> c = CHR ''%'' \<or> c = CHR ''_''"

fun escapeLikeWildcards :: "string \<Rightarrow> string" where
  "escapeLikeWildcards [] = []"
| "escapeLikeWildcards (c # cs) =
     (if wildcard c then CHR 0x5C # c # escapeLikeWildcards cs else c # escapeLikeWildcards cs)"

text \<open>Prisma's \<open>contains\<close> puts the value between two \<open>%\<close> and hands it to \<open>ILIKE\<close>.\<close>

definition contains :: "(string \<Rightarrow> string \<Rightarrow> bool) \<Rightarrow> string \<Rightarrow> string \<Rightarrow> bool" where
  "contains ilike q value = ilike (CHR ''%'' # escapeLikeWildcards q @ ''%'') value"

definition containsNullable :: "(string \<Rightarrow> string \<Rightarrow> bool) \<Rightarrow> string \<Rightarrow> string option \<Rightarrow> bool" where
  "containsNullable ilike q value = (case value of None \<Rightarrow> False | Some v \<Rightarrow> contains ilike q v)"

section \<open>What the caller may see\<close>

definition projectWhere ::
  "(string \<Rightarrow> string \<Rightarrow> bool) \<Rightarrow> search_query \<Rightarrow> ident \<Rightarrow> world \<Rightarrow> project_row \<Rightarrow> bool" where
  "projectWhere ilike query userId w p \<longleftrightarrow>
     isMember w (p_id p) userId \<and>
     (contains ilike (sq_q query) (p_name p) \<or> containsNullable ilike (sq_q query) (p_description p)) \<and>
     (orElse (sq_includeArchived query) False \<or> \<not> p_isArchived p) \<and>
     (searchType query = ST_projects \<longrightarrow>
        (case Option.bind (sq_status query) projectStatusOf of None \<Rightarrow> True | Some s \<Rightarrow> p_status p = s))"

definition taskWhere ::
  "(string \<Rightarrow> string \<Rightarrow> bool) \<Rightarrow> search_query \<Rightarrow> ident \<Rightarrow> world \<Rightarrow> task_row \<Rightarrow> bool" where
  "taskWhere ilike query userId w t \<longleftrightarrow>
     list_ex (\<lambda>p. p_id p = t_projectId t \<and> isMember w (p_id p) userId \<and>
       (orElse (sq_includeArchived query) False \<or> \<not> p_isArchived p)) (projects w) \<and>
     (contains ilike (sq_q query) (t_title t) \<or> containsNullable ilike (sq_q query) (t_description t)) \<and>
     (searchType query = ST_tasks \<longrightarrow>
        (case Option.bind (sq_status query) taskStatusOf of None \<Rightarrow> True | Some s \<Rightarrow> t_status t = s))"

definition userWhere ::
  "(string \<Rightarrow> string \<Rightarrow> bool) \<Rightarrow> search_query \<Rightarrow> user_row \<Rightarrow> bool" where
  "userWhere ilike query u \<longleftrightarrow> contains ilike (sq_q query) (u_username u) \<and> u_status u = ACTIVE"

section \<open>The columns a result carries\<close>

record project_hit =
  ph_id :: ident
  ph_name :: string
  ph_description :: "string option"
  ph_status :: project_status
  ph_isArchived :: bool
  ph_updatedAt :: millis

record task_hit =
  th_id :: ident
  th_projectId :: ident
  th_title :: string
  th_description :: "string option"
  th_status :: task_status
  th_priority :: task_priority
  th_updatedAt :: millis
  th_projectName :: string

record user_hit =
  uh_id :: ident
  uh_username :: string
  uh_avatarUrl :: "string option"
  uh_campus :: "string option"

definition projectSelect :: "project_row \<Rightarrow> project_hit" where
  "projectSelect p = \<lparr>ph_id = p_id p, ph_name = p_name p, ph_description = p_description p,
     ph_status = p_status p, ph_isArchived = p_isArchived p, ph_updatedAt = p_updatedAt p\<rparr>"

text \<open>\<open>taskSelect\<close> and \<open>flattenTaskProject\<close>; the foreign key gives every task its project.\<close>

definition flattenTaskProject :: "(task_row \<Rightarrow> millis) \<Rightarrow> world \<Rightarrow> task_row \<Rightarrow> task_hit" where
  "flattenTaskProject touched w t = \<lparr>th_id = t_id t, th_projectId = t_projectId t, th_title = t_title t,
     th_description = t_description t, th_status = t_status t, th_priority = t_priority t,
     th_updatedAt = touched t,
     th_projectName = (case List.find (\<lambda>p. p_id p = t_projectId t) (projects w) of
        None \<Rightarrow> [] | Some p \<Rightarrow> p_name p)\<rparr>"

definition userSelect :: "user_row \<Rightarrow> user_hit" where
  "userSelect u = \<lparr>uh_id = u_id u, uh_username = u_username u, uh_avatarUrl = u_avatarUrl u,
     uh_campus = u_campus u\<rparr>"

record 'a bucket =
  bk_items :: "'a list"
  bk_total :: nat

record search_results =
  sr_query :: string
  sr_type :: search_type
  sr_sort :: search_sort
  sr_order :: search_order
  sr_page :: nat
  sr_limit :: nat
  sr_projects :: "project_hit bucket"
  sr_tasks :: "task_hit bucket"
  sr_users :: "user_hit bucket"

section \<open>The search\<close>

text \<open>\<open>orderBy\<close>: the chosen column in the chosen direction, then the id.\<close>

definition orderRows ::
  "(string \<Rightarrow> nat) \<Rightarrow> search_query \<Rightarrow> ('r \<Rightarrow> string) \<Rightarrow> ('r \<Rightarrow> millis) \<Rightarrow> ('r \<Rightarrow> ident) \<Rightarrow> 'r list \<Rightarrow> 'r list" where
  "orderRows rank query name updatedAt ident =
     (let key = (\<lambda>r. case orElse (sq_sort query) By_name of
            By_name \<Rightarrow> int (rank (name r)) | By_recent \<Rightarrow> updatedAt r);
          directed = (\<lambda>r. case orElse (sq_order query) Asc of Asc \<Rightarrow> key r | Desc \<Rightarrow> - key r)
      in sort_key (\<lambda>r. (directed r, rank (ident r))))"

text \<open>\<open>sliceFor\<close>: \<open>skip\<close> and \<open>take\<close>, or no query at all for a type that was not asked for.\<close>

definition sliceFor :: "search_query \<Rightarrow> search_type \<Rightarrow> (nat \<times> nat) option" where
  "sliceFor query candidate =
     (if searchType query = ST_all then Some (0, searchLimit query)
      else if searchType query = candidate
      then Some ((searchPage query - 1) * searchLimit query, searchLimit query) else None)"

definition pageOf :: "(nat \<times> nat) option \<Rightarrow> 'r list \<Rightarrow> 'r list" where
  "pageOf slice rows = (case slice of None \<Rightarrow> [] | Some (skip, n) \<Rightarrow> take n (drop skip rows))"

definition search ::
  "(string \<Rightarrow> string \<Rightarrow> bool) \<Rightarrow> (string \<Rightarrow> nat) \<Rightarrow> (task_row \<Rightarrow> millis) \<Rightarrow> search_query \<Rightarrow> ident \<Rightarrow>
   (nat \<Rightarrow> world) \<Rightarrow> search_results" where
  "search ilike rank touched query userId snap =
     \<lparr>sr_query = sq_q query, sr_type = searchType query, sr_sort = orElse (sq_sort query) By_name,
      sr_order = orElse (sq_order query) Asc, sr_page = searchPage query,
      sr_limit = searchLimit query,
      sr_projects =
        \<lparr>bk_items = map projectSelect (pageOf (sliceFor query ST_projects)
           (orderRows rank query p_name p_updatedAt p_id
             (filter (projectWhere ilike query userId (snap 3)) (projects (snap 3))))),
         bk_total = length (filter (projectWhere ilike query userId (snap 0)) (projects (snap 0)))\<rparr>,
      sr_tasks =
        \<lparr>bk_items = map (flattenTaskProject touched (snap 4)) (pageOf (sliceFor query ST_tasks)
           (orderRows rank query t_title touched t_id
             (filter (taskWhere ilike query userId (snap 4)) (tasks (snap 4))))),
         bk_total = length (filter (taskWhere ilike query userId (snap 1)) (tasks (snap 1)))\<rparr>,
      sr_users =
        \<lparr>bk_items = map userSelect (pageOf (sliceFor query ST_users)
           (orderRows rank query u_username u_updatedAt u_id
             (filter (userWhere ilike query) (users (snap 5))))),
         bk_total = length (filter (userWhere ilike query) (users (snap 2)))\<rparr>\<rparr>"

section \<open>The pattern operator\<close>

text \<open>
  What the database's documentation says of \<open>LIKE\<close>: \<open>%\<close> stands for any text, \<open>_\<close> for any
  character, a backslash makes the next character stand for itself. \<open>same\<close> is the comparison
  of characters, equality for \<open>LIKE\<close> and equality up to case for \<open>ILIKE\<close>.
\<close>

locale like_operator =
  fixes like :: "string \<Rightarrow> string \<Rightarrow> bool"
    and same :: "char \<Rightarrow> char \<Rightarrow> bool"
  assumes like_end: "like [] s \<longleftrightarrow> s = []"
    and like_any: "like (CHR ''%'' # p) s \<longleftrightarrow> (\<exists>a b. s = a @ b \<and> like p b)"
    and like_one: "like (CHR ''_'' # p) s \<longleftrightarrow> (\<exists>d b. s = d # b \<and> like p b)"
    and like_escape: "like (CHR 0x5C # c # p) s \<longleftrightarrow> (\<exists>d b. s = d # b \<and> same c d \<and> like p b)"
    and like_char: "\<not> wildcard c \<Longrightarrow> like (c # p) s \<longleftrightarrow> (\<exists>d b. s = d # b \<and> same c d \<and> like p b)"
begin

lemma like_escaped: "like (escapeLikeWildcards t @ p) s \<longleftrightarrow> (\<exists>m b. s = m @ b \<and> list_all2 same t m \<and> like p b)"
proof (induction t arbitrary: s)
  case (Cons c t)
  have "like (escapeLikeWildcards (c # t) @ p) s \<longleftrightarrow>
      (\<exists>d b. s = d # b \<and> same c d \<and> like (escapeLikeWildcards t @ p) b)"
    by (cases "wildcard c") (simp_all add: like_escape like_char)
  also have "\<dots> \<longleftrightarrow> (\<exists>m b. s = m @ b \<and> list_all2 same (c # t) m \<and> like p b)"
    by (simp add: Cons.IH list_all2_Cons1) (metis append_Cons)
  finally show ?case .
qed simp

lemma contains_literal: "contains like t s \<longleftrightarrow> (\<exists>a m b. s = a @ m @ b \<and> list_all2 same t m)"
proof -
  have "like ''%'' b" for b by (auto simp: like_any like_end)
  then show ?thesis by (simp add: contains_def like_any like_escaped) blast
qed

end

text \<open>The operator as a program, and the interface on it.\<close>

fun sqlLike :: "(char \<Rightarrow> char \<Rightarrow> bool) \<Rightarrow> string \<Rightarrow> string \<Rightarrow> bool" where
  "sqlLike same [] s = (s = [])"
| "sqlLike same (p # ps) s =
     (if p = CHR ''%'' then list_ex (\<lambda>k. sqlLike same ps (drop k s)) [0..<Suc (length s)]
      else case s of [] \<Rightarrow> False
        | d # b \<Rightarrow>
            if p = CHR ''_'' then sqlLike same ps b
            else if p = CHR 0x5C then (case ps of [] \<Rightarrow> False | c # cs \<Rightarrow> same c d \<and> sqlLike same cs b)
            else same p d \<and> sqlLike same ps b)"

lemma drop_splits: "(\<exists>k<Suc (length s). P (drop k s)) \<longleftrightarrow> (\<exists>a b. s = a @ b \<and> P b)"
proof
  assume "\<exists>a b. s = a @ b \<and> P b"
  then obtain a b where "s = a @ b" "P b" by blast
  then show "\<exists>k<Suc (length s). P (drop k s)" by (intro exI [of _ "length a"]) simp
next
  assume "\<exists>k<Suc (length s). P (drop k s)"
  then show "\<exists>a b. s = a @ b \<and> P b" by (metis append_take_drop_id)
qed

interpretation sql: like_operator "sqlLike same" same for same
proof
  show "sqlLike same (CHR ''%'' # p) s \<longleftrightarrow> (\<exists>a b. s = a @ b \<and> sqlLike same p b)" for p s
    using drop_splits [of s "sqlLike same p"] by (simp add: list_ex_iff Bex_def del: upt_Suc)
qed (auto simp: wildcard_def split: list.split)

section \<open>Pages\<close>

text \<open>Two states with the same rows, in whatever order the database returns them.\<close>

definition sameRows :: "world \<Rightarrow> world \<Rightarrow> bool" where
  "sameRows w v \<longleftrightarrow> mset (projects v) = mset (projects w) \<and> mset (tasks v) = mset (tasks w) \<and>
     mset (users v) = mset (users w) \<and> set (members v) = set (members w)"

definition idsDistinct :: "world \<Rightarrow> bool" where
  "idsDistinct w \<longleftrightarrow> distinct (map p_id (projects w)) \<and> distinct (map t_id (tasks w)) \<and>
     distinct (map u_id (users w))"

lemma orderRows_order_free:
  assumes "mset xs = mset ys" and "distinct (map ident xs)" and "inj rank"
  shows "orderRows rank query name updated ident xs = orderRows rank query name updated ident ys"
proof -
  have "inj_on ident (set xs)" using assms(2) by (simp add: distinct_map)
  then have inj: "inj_on (\<lambda>r. (f r, rank (ident r))) (set xs)" for f :: "'a \<Rightarrow> int"
    using assms(3) by (auto simp: inj_on_def inj_def)
  show ?thesis
    unfolding orderRows_def Let_def
    by (rule sort_key_inj_key_eq [OF _ inj]) (use assms(1) in simp_all)
qed

lemma pages_concat: "concat (map (\<lambda>k. take L (drop (k * L) xs)) [0..<n]) = take (n * L) xs"
proof (induction n)
  case (Suc n)
  have "take (n * L) xs @ take L (drop (n * L) xs) = take (n * L + L) xs"
    by (rule take_add [symmetric])
  then show ?case using Suc by (simp add: add.commute)
qed simp

lemma mset_filter_cong:
  "mset xs = mset ys \<Longrightarrow> (\<And>x. x \<in> set xs \<Longrightarrow> P x = Q x) \<Longrightarrow> mset (filter P xs) = mset (filter Q ys)"
  by (metis filter_cong mset_filter)

lemma sameRows_member: "sameRows w v \<Longrightarrow> isMember v p u = isMember w p u"
  by (simp add: sameRows_def isMember_def list_ex_iff)

lemma sameRows_where:
  assumes "sameRows w v"
  shows "projectWhere ilike q u v = projectWhere ilike q u w" "taskWhere ilike q u v = taskWhere ilike q u w"
proof -
  have "set (projects v) = set (projects w)" using assms unfolding sameRows_def by (metis set_mset_mset)
  then show "projectWhere ilike q u v = projectWhere ilike q u w" "taskWhere ilike q u v = taskWhere ilike q u w"
    by (simp_all add: fun_eq_iff projectWhere_def taskWhere_def sameRows_member [OF assms] list_ex_iff)
qed

lemma find_key_mset:
  assumes "mset xs = mset ys" and "distinct (map k xs)"
  shows "List.find (\<lambda>x. k x = i) ys = List.find (\<lambda>x. k x = i) xs"
proof -
  have d: "distinct (map k ys)" and s: "set ys = set xs"
    using assms by (metis distinct_map mset_eq_imp_distinct_iff mset_map) (metis assms(1) set_mset_mset)
  show ?thesis
  proof (cases "List.find (\<lambda>x. k x = i) xs")
    case None
    then have "List.find (\<lambda>x. k x = i) ys = None" using s by (simp add: find_None_iff_all)
    then show ?thesis using None by simp
  next
    case (Some x)
    then have x: "x \<in> set ys" "k x = i" using s by (auto dest: find_SomeD)
    then show ?thesis using find_unique [OF d x(1)] Some by simp
  qed
qed

lemma sameRows_flatten:
  assumes "sameRows w v" and "idsDistinct w"
  shows "flattenTaskProject touched v = flattenTaskProject touched w"
proof -
  have "List.find (\<lambda>p. p_id p = i) (projects v) = List.find (\<lambda>p. p_id p = i) (projects w)" for i
    by (rule find_key_mset) (use assms in \<open>simp_all add: sameRows_def idsDistinct_def\<close>)
  then show ?thesis by (simp add: fun_eq_iff flattenTaskProject_def)
qed

text \<open>The visible rows of one state, in the order of the results.\<close>

abbreviation visibleProjects where
  "visibleProjects ilike rank q u w \<equiv>
     orderRows rank q p_name p_updatedAt p_id (filter (projectWhere ilike q u w) (projects w))"

abbreviation visibleTasks where
  "visibleTasks ilike rank touched q u w \<equiv>
     orderRows rank q t_title touched t_id (filter (taskWhere ilike q u w) (tasks w))"

abbreviation visibleUsers where
  "visibleUsers ilike rank q w \<equiv>
     orderRows rank q u_username u_updatedAt u_id (filter (userWhere ilike q) (users w))"

lemma sameRows_visible:
  assumes "sameRows w v" and "idsDistinct w" and "inj rank"
  shows "visibleProjects ilike rank q u v = visibleProjects ilike rank q u w"
    and "visibleTasks ilike rank touched q u v = visibleTasks ilike rank touched q u w"
    and "visibleUsers ilike rank q v = visibleUsers ilike rank q w"
proof -
  have ms: "mset (projects v) = mset (projects w)" "mset (tasks v) = mset (tasks w)"
    "mset (users v) = mset (users w)" using assms(1) by (simp_all add: sameRows_def)
  have d: "distinct (map p_id (projects v))" "distinct (map t_id (tasks v))" "distinct (map u_id (users v))"
    using assms(2) ms unfolding idsDistinct_def by (metis mset_map mset_eq_imp_distinct_iff)+
  show "visibleProjects ilike rank q u v = visibleProjects ilike rank q u w"
    "visibleTasks ilike rank touched q u v = visibleTasks ilike rank touched q u w"
    "visibleUsers ilike rank q v = visibleUsers ilike rank q w"
    unfolding sameRows_where [OF assms(1)]
    by (rule orderRows_order_free [OF _ _ assms(3)];
        simp add: ms distinct_map_filterI [OF d(1)] distinct_map_filterI [OF d(2)] distinct_map_filterI [OF d(3)])+
qed

section \<open>What a search shows\<close>

text \<open>The specification: the term occurs literally, up to \<open>same\<close>, and the row is one the caller may see.\<close>

definition occursIn :: "(char \<Rightarrow> char \<Rightarrow> bool) \<Rightarrow> string \<Rightarrow> string \<Rightarrow> bool" where
  "occursIn same q s \<longleftrightarrow> (\<exists>a m b. s = a @ m @ b \<and> list_all2 same q m)"

definition shownProjects :: "(char \<Rightarrow> char \<Rightarrow> bool) \<Rightarrow> search_query \<Rightarrow> ident \<Rightarrow> world \<Rightarrow> project_row set" where
  "shownProjects same q u w = {p \<in> set (projects w). isMember w (p_id p) u \<and>
     (occursIn same (sq_q q) (p_name p) \<or> (\<exists>d. p_description p = Some d \<and> occursIn same (sq_q q) d)) \<and>
     (p_isArchived p \<longrightarrow> sq_includeArchived q = Some True) \<and>
     (\<forall>f s. searchType q = ST_projects \<longrightarrow> sq_status q = Some f \<longrightarrow> projectStatusOf f = Some s \<longrightarrow> p_status p = s)}"

definition shownTasks :: "(char \<Rightarrow> char \<Rightarrow> bool) \<Rightarrow> search_query \<Rightarrow> ident \<Rightarrow> world \<Rightarrow> task_row set" where
  "shownTasks same q u w = {t \<in> set (tasks w).
     (\<exists>p\<in>set (projects w). p_id p = t_projectId t \<and> isMember w (p_id p) u \<and>
        (p_isArchived p \<longrightarrow> sq_includeArchived q = Some True)) \<and>
     (occursIn same (sq_q q) (t_title t) \<or> (\<exists>d. t_description t = Some d \<and> occursIn same (sq_q q) d)) \<and>
     (\<forall>f s. searchType q = ST_tasks \<longrightarrow> sq_status q = Some f \<longrightarrow> taskStatusOf f = Some s \<longrightarrow> t_status t = s)}"

definition shownUsers :: "(char \<Rightarrow> char \<Rightarrow> bool) \<Rightarrow> search_query \<Rightarrow> world \<Rightarrow> user_row set" where
  "shownUsers same q w = {x \<in> set (users w). occursIn same (sq_q q) (u_username x) \<and> u_status x = ACTIVE}"

lemma orElse_False: "orElse b False \<longleftrightarrow> b = Some True"
  by (auto simp: orElse_def split: option.split)

lemma set_orderRows [simp]: "set (orderRows rank q name upd ident rows) = set rows"
  by (simp add: orderRows_def Let_def)

lemma length_orderRows [simp]: "length (orderRows rank q name upd ident rows) = length rows"
  by (simp add: orderRows_def Let_def)

lemma where_is_shown:
  assumes "like_operator ilike same"
  shows "set (filter (projectWhere ilike q u w) (projects w)) = shownProjects same q u w"
    and "set (filter (taskWhere ilike q u w) (tasks w)) = shownTasks same q u w"
    and "set (filter (userWhere ilike q) (users w)) = shownUsers same q w"
proof -
  have c: "contains ilike t s = occursIn same t s" for t s
    using like_operator.contains_literal [OF assms] by (simp add: occursIn_def)
  have n: "containsNullable ilike t x \<longleftrightarrow> (\<exists>d. x = Some d \<and> occursIn same t d)" for t x
    by (auto simp: containsNullable_def c split: option.split)
  have s: "(case Option.bind x f of None \<Rightarrow> True | Some s \<Rightarrow> v = s) \<longleftrightarrow>
      (\<forall>y s. x = Some y \<longrightarrow> f y = Some s \<longrightarrow> v = s)" for x :: "'x option" and f :: "'x \<Rightarrow> 'y option" and v
    by (auto split: option.split simp: bind_eq_None_conv bind_eq_Some_conv)
  show "set (filter (projectWhere ilike q u w) (projects w)) = shownProjects same q u w"
    unfolding projectWhere_def shownProjects_def c n s orElse_False set_filter by blast
  show "set (filter (taskWhere ilike q u w) (tasks w)) = shownTasks same q u w"
    unfolding taskWhere_def shownTasks_def c n s orElse_False set_filter list_ex_iff by blast
  show "set (filter (userWhere ilike q) (users w)) = shownUsers same q w"
    unfolding userWhere_def shownUsers_def c set_filter by blast
qed

text \<open>One group of the answer, whatever state its queries ran on.\<close>

lemma pageOf_subset: "set (pageOf slice xs) \<subseteq> set xs"
proof (cases slice)
  case (Some kn)
  then show ?thesis by (cases kn) (auto simp: pageOf_def dest: in_set_takeD in_set_dropD)
qed (simp add: pageOf_def)

abbreviation pageQuery :: "search_query \<Rightarrow> search_type \<Rightarrow> nat \<Rightarrow> search_query" where
  "pageQuery q T k \<equiv> q\<lparr>sq_type := Some T, sq_page := Some (Suc k)\<rparr>"

lemma sliceFor_page:
  "T \<noteq> ST_all \<Longrightarrow> sliceFor (pageQuery q T k) T =
     Some (k * searchLimit (pageQuery q T 0), searchLimit (pageQuery q T 0))"
  by (simp add: sliceFor_def searchType_def searchPage_def searchLimit_def orElse_def)

lemma page_irrelevant:
  "projectWhere ilike (pageQuery q T k) u w = projectWhere ilike (pageQuery q T 0) u w"
  "taskWhere ilike (pageQuery q T k) u w = taskWhere ilike (pageQuery q T 0) u w"
  "userWhere ilike (pageQuery q T k) = userWhere ilike (pageQuery q T 0)"
  "orderRows rank (pageQuery q T k) f g h = orderRows rank (pageQuery q T 0) f g h"
  by (simp_all add: fun_eq_iff projectWhere_def taskWhere_def userWhere_def orderRows_def searchType_def)

lemma pages_of_group:
  fixes item :: "'r \<Rightarrow> 'h"
  assumes "T \<noteq> ST_all"
    and "\<And>k. bk_items (grp k) = map item (pageOf (sliceFor (pageQuery q T k) T) rows)"
  shows "concat (map (\<lambda>k. bk_items (grp k)) [0..<n]) =
    map item (take (n * searchLimit (pageQuery q T 0)) rows)"
proof -
  let ?L = "searchLimit (pageQuery q T 0)"
  have "bk_items (grp k) = map item (take ?L (drop (k * ?L) rows))" for k
    using assms(2) [of k] sliceFor_page [OF assms(1)] by (simp add: pageOf_def)
  then have "concat (map (\<lambda>k. bk_items (grp k)) [0..<n]) =
      map item (concat (map (\<lambda>k. take ?L (drop (k * ?L) rows)) [0..<n]))"
    by (simp add: map_concat comp_def)
  then show ?thesis by (simp only: pages_concat)
qed

lemma shown_length:
  "length (filter (projectWhere ilike q u v) (projects v)) = length (visibleProjects ilike rank q u v)"
  "length (filter (taskWhere ilike q u v) (tasks v)) = length (visibleTasks ilike rank touched q u v)"
  "length (filter (userWhere ilike q) (users v)) = length (visibleUsers ilike rank q v)"
  by simp_all

lemma distinct_orderRows:
  "distinct (map k xs) \<Longrightarrow> distinct (orderRows rank q f g h (filter P xs))"
  by (simp add: orderRows_def Let_def distinct_map)

lemma idsDistinctD:
  assumes "idsDistinct w"
  shows "distinct (map p_id (projects w))" "distinct (map t_id (tasks w))" "distinct (map u_id (users w))"
  using assms by (simp_all add: idsDistinct_def)

lemma project_pages:
  assumes "like_operator ilike same" and "idsDistinct w" and "inj rank"
    and "\<And>k j. sameRows w (snap k j)"
  shows "let q' = pageQuery q ST_projects 0; ps = visibleProjects ilike rank q' u w;
        page = (\<lambda>k. sr_projects (search ilike rank touched (pageQuery q ST_projects k) u (snap k))) in
      concat (map (\<lambda>k. bk_items (page k)) [0..<n]) = map projectSelect (take (n * searchLimit q') ps) \<and>
      set ps = shownProjects same q' u w \<and> distinct ps \<and> bk_total (page k) = length ps"
  unfolding Let_def
proof (intro conjI pages_of_group)
  show "bk_items (sr_projects (search ilike rank touched (pageQuery q ST_projects k) u (snap k))) =
    map projectSelect (pageOf (sliceFor (pageQuery q ST_projects k) ST_projects)
      (visibleProjects ilike rank (pageQuery q ST_projects 0) u w))" for k
    unfolding search_def search_results.simps bucket.simps sameRows_visible(1) [OF assms(4,2,3)] unfolding page_irrelevant [where k = k] ..
  show "bk_total (sr_projects (search ilike rank touched (pageQuery q ST_projects k) u (snap k))) =
    length (visibleProjects ilike rank (pageQuery q ST_projects 0) u w)"
    unfolding search_def search_results.simps bucket.simps shown_length(1) [where rank = rank] sameRows_visible(1) [OF assms(4,2,3)] unfolding page_irrelevant [where k = k] ..
qed (simp_all only: set_orderRows where_is_shown [OF assms(1)] distinct_orderRows [OF idsDistinctD(1) [OF assms(2)]], simp)

lemma task_pages:
  assumes "like_operator ilike same" and "idsDistinct w" and "inj rank"
    and "\<And>k j. sameRows w (snap k j)"
  shows "let q' = pageQuery q ST_tasks 0; ts = visibleTasks ilike rank touched q' u w;
        page = (\<lambda>k. sr_tasks (search ilike rank touched (pageQuery q ST_tasks k) u (snap k))) in
      concat (map (\<lambda>k. bk_items (page k)) [0..<n]) =
        map (flattenTaskProject touched w) (take (n * searchLimit q') ts) \<and>
      set ts = shownTasks same q' u w \<and> distinct ts \<and> bk_total (page k) = length ts"
  unfolding Let_def
proof (intro conjI pages_of_group)
  show "bk_items (sr_tasks (search ilike rank touched (pageQuery q ST_tasks k) u (snap k))) =
    map (flattenTaskProject touched w) (pageOf (sliceFor (pageQuery q ST_tasks k) ST_tasks)
      (visibleTasks ilike rank touched (pageQuery q ST_tasks 0) u w))" for k
    unfolding search_def search_results.simps bucket.simps sameRows_visible(2) [OF assms(4,2,3)] sameRows_flatten [OF assms(4,2)] unfolding page_irrelevant [where k = k] ..
  show "bk_total (sr_tasks (search ilike rank touched (pageQuery q ST_tasks k) u (snap k))) =
    length (visibleTasks ilike rank touched (pageQuery q ST_tasks 0) u w)"
    unfolding search_def search_results.simps bucket.simps shown_length(2) [where rank = rank and touched = touched] sameRows_visible(2) [OF assms(4,2,3)] unfolding page_irrelevant [where k = k] ..
qed (simp_all only: set_orderRows where_is_shown [OF assms(1)] distinct_orderRows [OF idsDistinctD(2) [OF assms(2)]], simp)

lemma user_pages:
  assumes "like_operator ilike same" and "idsDistinct w" and "inj rank"
    and "\<And>k j. sameRows w (snap k j)"
  shows "let q' = pageQuery q ST_users 0; us = visibleUsers ilike rank q' w;
        page = (\<lambda>k. sr_users (search ilike rank touched (pageQuery q ST_users k) u (snap k))) in
      concat (map (\<lambda>k. bk_items (page k)) [0..<n]) = map userSelect (take (n * searchLimit q') us) \<and>
      set us = shownUsers same q' w \<and> distinct us \<and> bk_total (page k) = length us"
  unfolding Let_def
proof (intro conjI pages_of_group)
  show "bk_items (sr_users (search ilike rank touched (pageQuery q ST_users k) u (snap k))) =
    map userSelect (pageOf (sliceFor (pageQuery q ST_users k) ST_users)
      (visibleUsers ilike rank (pageQuery q ST_users 0) w))" for k
    unfolding search_def search_results.simps bucket.simps sameRows_visible(3) [OF assms(4,2,3)] unfolding page_irrelevant [where k = k] ..
  show "bk_total (sr_users (search ilike rank touched (pageQuery q ST_users k) u (snap k))) =
    length (visibleUsers ilike rank (pageQuery q ST_users 0) w)"
    unfolding search_def search_results.simps bucket.simps shown_length(3) [where rank = rank] sameRows_visible(3) [OF assms(4,2,3)] unfolding page_irrelevant [where k = k] ..
qed (simp_all only: set_orderRows where_is_shown [OF assms(1)] distinct_orderRows [OF idsDistinctD(3) [OF assms(2)]], simp)

lemma shown_subset:
  "set (map item (pageOf slice (orderRows rank q f g h rows))) \<subseteq> item ` set rows"
  using pageOf_subset [of slice "orderRows rank q f g h rows"] by auto

lemma racing_search:
  assumes "like_operator ilike same"
  shows "set (bk_items (sr_projects (search ilike rank touched q u racing))) \<subseteq>
      projectSelect ` shownProjects same q u (racing 3)"
    and "set (bk_items (sr_tasks (search ilike rank touched q u racing))) \<subseteq>
      flattenTaskProject touched (racing 4) ` shownTasks same q u (racing 4)"
    and "set (bk_items (sr_users (search ilike rank touched q u racing))) \<subseteq>
      userSelect ` shownUsers same q (racing 5)"
  unfolding search_def search_results.simps bucket.simps where_is_shown [OF assms, symmetric]
  by (rule shown_subset)+

text \<open>C25 The pages of a search are consecutive slices of one list without repetition, the rows the
  caller may see in which the term occurs literally (wildcards included), even if the database
  returns its rows in another order to each query; every page reports their number. And whatever
  the queries race with, no row is shown that was not visible in the state its query read.\<close>

theorem search_pages_are_the_visible_rows:
  assumes "like_operator ilike same" and "idsDistinct w" and "inj rank"
    and "\<And>k j. sameRows w (snap k j)"
  shows "(let q' = pageQuery q ST_projects 0; ps = visibleProjects ilike rank q' u w;
        page = (\<lambda>k. sr_projects (search ilike rank touched (pageQuery q ST_projects k) u (snap k))) in
      concat (map (\<lambda>k. bk_items (page k)) [0..<n]) = map projectSelect (take (n * searchLimit q') ps) \<and>
      set ps = shownProjects same q' u w \<and> distinct ps \<and> bk_total (page k) = length ps) \<and>
    (let q' = pageQuery q ST_tasks 0; ts = visibleTasks ilike rank touched q' u w;
        page = (\<lambda>k. sr_tasks (search ilike rank touched (pageQuery q ST_tasks k) u (snap k))) in
      concat (map (\<lambda>k. bk_items (page k)) [0..<n]) =
        map (flattenTaskProject touched w) (take (n * searchLimit q') ts) \<and>
      set ts = shownTasks same q' u w \<and> distinct ts \<and> bk_total (page k) = length ts) \<and>
    (let q' = pageQuery q ST_users 0; us = visibleUsers ilike rank q' w;
        page = (\<lambda>k. sr_users (search ilike rank touched (pageQuery q ST_users k) u (snap k))) in
      concat (map (\<lambda>k. bk_items (page k)) [0..<n]) = map userSelect (take (n * searchLimit q') us) \<and>
      set us = shownUsers same q' w \<and> distinct us \<and> bk_total (page k) = length us) \<and>
    (let r = search ilike rank touched q u racing in
      set (bk_items (sr_projects r)) \<subseteq> projectSelect ` shownProjects same q u (racing 3) \<and>
      set (bk_items (sr_tasks r)) \<subseteq> flattenTaskProject touched (racing 4) ` shownTasks same q u (racing 4) \<and>
      set (bk_items (sr_users r)) \<subseteq> userSelect ` shownUsers same q (racing 5))"
  by (intro conjI project_pages [OF assms] task_pages [OF assms] user_pages [OF assms])
    (simp only: Let_def racing_search [OF assms(1)] simp_thms)

text \<open>Two projects match an underscore literally; the third is another user's.\<close>

definition searchWorld :: world where
  "searchWorld = emptyWorld\<lparr>
     projects := map (\<lambda>(i, name). \<lparr>p_id = i, p_name = name, p_description = None, p_status = P_IN_PROGRESS,
        p_deadline = None, p_isArchived = False, p_updatedAt = 0\<rparr>)
        [(''p'', ''push_swap''), (''q'', ''pushXswap''), (''r'', ''push_swap'')],
     members := [\<lparr>pm_userId = ''a'', pm_projectId = ''p'', pm_role = OWNER, pm_createdAt = 0\<rparr>,
       \<lparr>pm_userId = ''a'', pm_projectId = ''q'', pm_role = OWNER, pm_createdAt = 0\<rparr>]\<rparr>"

definition swapQuery :: search_query where
  "swapQuery = \<lparr>sq_q = ''h_s'', sq_type = None, sq_sort = None, sq_order = None, sq_page = None,
     sq_limit = None, sq_status = None, sq_includeArchived = None\<rparr>"

lemma searchWorld_shown: "shownProjects (=) (pageQuery swapQuery ST_projects 0) ''a'' searchWorld =
  {p \<in> set (projects searchWorld). p_id p = ''p''}"
proof -
  have "contains (sqlLike (=)) ''h_s'' ''push_swap''" "\<not> contains (sqlLike (=)) ''h_s'' ''pushXswap''"
    by code_simp+
  then have "occursIn (=) ''h_s'' ''push_swap''" "\<not> occursIn (=) ''h_s'' ''pushXswap''"
    by (simp_all add: sql.contains_literal occursIn_def)
  then show ?thesis
    by (auto simp: shownProjects_def searchWorld_def swapQuery_def isMember_def)
qed

theorem search_pages_are_the_visible_rows_witness:
  "map ph_id (bk_items (sr_projects (search (sqlLike (=)) to_nat (\<lambda>_. 0)
     (pageQuery swapQuery ST_projects 0) ''a'' (\<lambda>_. searchWorld)))) = [''p'']"
proof -
  let ?ps = "visibleProjects (sqlLike (=)) to_nat (pageQuery swapQuery ST_projects 0) ''a'' searchWorld"
  have ids: "idsDistinct searchWorld" by (simp add: idsDistinct_def searchWorld_def emptyWorld_def)
  have same: "sameRows searchWorld ((\<lambda>_ _. searchWorld) k j)" for k j :: nat by (simp add: sameRows_def)
  note t = search_pages_are_the_visible_rows [where q = swapQuery and u = "''a''" and touched = "\<lambda>_. 0"
      and n = 1, OF sql.like_operator_axioms ids inj_to_nat same, unfolded Let_def]
  have "set ?ps = {p \<in> set (projects searchWorld). p_id p = ''p''}" and d: "distinct ?ps"
    using t searchWorld_shown by auto
  moreover have "{p \<in> set (projects searchWorld). p_id p = ''p''} = {hd (projects searchWorld)}"
    by (auto simp: searchWorld_def)
  ultimately have "set ?ps = {hd (projects searchWorld)}" by simp
  then have "?ps = [hd (projects searchWorld)]"
    using d distinct_card [OF d] by (cases ?ps) (auto simp: subset_singleton_iff)
  moreover have "bk_items (sr_projects (search (sqlLike (=)) to_nat (\<lambda>_. 0) (pageQuery swapQuery ST_projects 0)
      ''a'' (\<lambda>_. searchWorld))) = map projectSelect (take (searchLimit (pageQuery swapQuery ST_projects 0)) ?ps)"
    using t by simp
  moreover have "searchLimit (pageQuery swapQuery ST_projects 0) = 10" by (simp add: searchLimit_def searchType_def
    orElse_def SEARCH_DEFAULT_LIMIT_def swapQuery_def)
  ultimately show ?thesis by (simp add: projectSelect_def searchWorld_def)
qed

end
