(* ===== verification/JsText.thy ===== *)
theory JsText
  imports Prelude JsNumber
begin

text \<open>
  Values and text of JavaScript as the validators and parsers use them: the values an untyped
  field can have, trimming, \<open>parseInt\<close>, string conversion and lower case. Characters are code
  units below 256.
\<close>

section \<open>Values and text\<close>

text \<open>
  A value of unknown type: \<open>J_int\<close> is a number that is an integer, \<open>J_nonint\<close> any
  other number, \<open>J_other s\<close> an object or array whose string conversion is \<open>s\<close>.
\<close>

datatype js_value = J_undefined | J_null | J_bool bool | J_int int | J_nonint | J_string string
  | J_other string

definition isWs :: "char \<Rightarrow> bool" where
  "isWs c \<longleftrightarrow> (of_char c :: nat) \<in> {9, 10, 11, 12, 13, 32, 160}"

definition trimStart :: "string \<Rightarrow> string" where
  "trimStart s = dropWhile isWs s"

definition trimEnd :: "string \<Rightarrow> string" where
  "trimEnd s = rev (dropWhile isWs (rev s))"

definition trim :: "string \<Rightarrow> string" where
  "trim s = trimEnd (trimStart s)"

definition isDigit :: "char \<Rightarrow> bool" where
  "isDigit c \<longleftrightarrow> between (CHR ''0'') (CHR ''9'') c"

definition digitsValue :: "string \<Rightarrow> nat" where
  "digitsValue s = foldl (\<lambda>a c. a * 10 + (of_char c - 48)) 0 s"

text \<open>The number an integer literal denotes: exact below \<open>2^53\<close>, then rounded to 53 bits; None is \<open>Infinity\<close>.\<close>

fun excess :: "nat \<Rightarrow> nat" where
  "excess n = (if n < 2 ^ 53 then 0 else Suc (excess (n div 2)))"

declare excess.simps [simp del]

definition numberOf :: "nat \<Rightarrow> nat option" where
  "numberOf n = (let e = excess n; r = nat (round_half_even (of_nat n / 2 ^ e)) * 2 ^ e in
     if r < 2 ^ 1024 then Some r else None)"

text \<open>\<open>Number.parseInt(s, 10)\<close>; None for what is not an integer, \<open>NaN\<close> included.\<close>

definition parseInt :: "string \<Rightarrow> int option" where
  "parseInt s =
     (let t = trimStart s;
          negative = (take 1 t = ''-'');
          body = (if take 1 t = ''-'' \<or> take 1 t = ''+'' then drop 1 t else t);
          digits = takeWhile isDigit body
      in if digits = [] then None
         else map_option (\<lambda>n. if negative then - int n else int n) (numberOf (digitsValue digits)))"

text \<open>\<open>String(value)\<close> for what is not a number.\<close>

fun jsString :: "js_value \<Rightarrow> string" where
  "jsString J_undefined = ''undefined''"
| "jsString J_null = ''null''"
| "jsString (J_bool b) = (if b then ''true'' else ''false'')"
| "jsString (J_string s) = s"
| "jsString (J_other s) = s"
| "jsString _ = []"

text \<open>\<open>toLowerCase\<close> and \<open>startsWith\<close>.\<close>

definition lowerChar :: "char \<Rightarrow> char" where
  "lowerChar c = (let n = of_char c :: nat in
     if 65 \<le> n \<and> n \<le> 90 \<or> 192 \<le> n \<and> n \<le> 222 \<and> n \<noteq> 215 then char_of (n + 32) else c)"

definition toLowerCase :: "string \<Rightarrow> string" where
  "toLowerCase s = map lowerChar s"

definition hasPrefix :: "string \<Rightarrow> string \<Rightarrow> bool" where
  "hasPrefix pre s \<longleftrightarrow> take (length pre) s = pre"

section \<open>Lemmas\<close>

lemma trimStart_trimEnd: "trimStart s = s \<Longrightarrow> trimStart (trimEnd s) = trimEnd s"
proof -
  assume s: "trimStart s = s"
  have "dropWhile P (rev (dropWhile P (rev s))) = rev (dropWhile P (rev s))"
    if "dropWhile P s = s" for P :: "char \<Rightarrow> bool"
  proof (cases s)
    case (Cons c cs)
    then have "\<not> P c" using that by (metis dropWhile_eq_Cons_conv)
    then have "dropWhile P (rev s) = dropWhile P (rev cs) @ [c]"
      using Cons by (simp add: dropWhile_append3)
    then show ?thesis using \<open>\<not> P c\<close> by simp
  qed simp
  then show ?thesis using s by (simp add: trimStart_def trimEnd_def)
qed

lemma trimEnd_idem: "trimEnd (trimEnd s) = trimEnd s"
  by (simp add: trimEnd_def)

lemma trimStart_id: "trimStart s = s \<longleftrightarrow> s = [] \<or> \<not> isWs (hd s)"
  by (simp add: trimStart_def dropWhile_eq_self_iff)

lemma trimStart_take: "trimStart s = s \<Longrightarrow> trimStart (take n s) = take n s"
  unfolding trimStart_id by (cases n; cases s) auto

lemma trimStart_idem: "trimStart (trimStart s) = trimStart s"
  by (simp add: trimStart_def)

lemma trim_clean: "trimStart s = s \<Longrightarrow> trimEnd s = s \<Longrightarrow> trim s = s"
  by (simp add: trim_def)

lemma numberOf_exact: "n < 2 ^ 53 \<Longrightarrow> numberOf n = Some n"
proof -
  assume n: "n < 2 ^ 53"
  then have e: "excess n = 0" by (simp add: excess.simps)
  have "n < 2 ^ 1024" by (rule less_trans [OF n]) (rule power_strict_increasing; simp)
  moreover have "round_half_even (of_nat n) = int n" using round_half_even_int [of "int n"] by simp
  ultimately show ?thesis by (simp add: numberOf_def e)
qed

end
