(* ===== verification/SearchPage.thy ===== *)
theory SearchPage
  imports Search JsText
begin

text \<open>
  From the address bar to the server: \<open>frontend/src/lib/searchPageParams.ts\<close> (the URL's search
  parameters and their defaults), \<open>buildSearchQuery\<close> of \<open>frontend/src/lib/searchApi.ts\<close>, and the
  transformation and validation of \<open>backend/src/search/dto/search-query.dto.ts\<close>. A query string
  is the list of its decoded pairs.
\<close>

section \<open>Names on the wire\<close>

fun typeName :: "search_type \<Rightarrow> string" where
  "typeName ST_all = ''all''" | "typeName ST_projects = ''projects''"
| "typeName ST_tasks = ''tasks''" | "typeName ST_users = ''users''"

fun sortName :: "search_sort \<Rightarrow> string" where
  "sortName By_name = ''name''" | "sortName By_recent = ''recent''"

fun orderName :: "search_order \<Rightarrow> string" where
  "orderName Asc = ''asc''" | "orderName Desc = ''desc''"

fun statusName :: "search_status \<Rightarrow> string" where
  "statusName SS_TODO = ''TODO''" | "statusName SS_IN_PROGRESS = ''IN_PROGRESS''"
| "statusName SS_REVIEW = ''REVIEW''" | "statusName SS_COMPLETED = ''COMPLETED''"

definition isSearchType :: "string \<Rightarrow> search_type option" where
  "isSearchType s = List.find (\<lambda>t. typeName t = s) [ST_all, ST_projects, ST_tasks, ST_users]"

definition isSearchSort :: "string \<Rightarrow> search_sort option" where
  "isSearchSort s = List.find (\<lambda>t. sortName t = s) [By_name, By_recent]"

definition isSearchOrder :: "string \<Rightarrow> search_order option" where
  "isSearchOrder s = List.find (\<lambda>t. orderName t = s) [Asc, Desc]"

definition isSearchStatusFilter :: "string \<Rightarrow> search_status option" where
  "isSearchStatusFilter s =
     List.find (\<lambda>t. statusName t = s) [SS_TODO, SS_IN_PROGRESS, SS_REVIEW, SS_COMPLETED]"

definition whenString :: "(string \<Rightarrow> 'a option) \<Rightarrow> js_value \<Rightarrow> 'a option" where
  "whenString f v = (case v of J_string s \<Rightarrow> f s | _ \<Rightarrow> None)"

section \<open>The page's URL\<close>

record page_search =
  ps_q :: string
  ps_type :: "search_type option"
  ps_sort :: "search_sort option"
  ps_order :: "search_order option"
  ps_page :: "nat option"
  ps_status :: "search_status option"
  ps_includeArchived :: "bool option"

record page_params =
  pp_q :: string
  pp_type :: search_type
  pp_sort :: search_sort
  pp_order :: search_order
  pp_page :: nat
  pp_status :: "search_status option"
  pp_includeArchived :: bool

definition parseQuery :: "js_value \<Rightarrow> string" where
  "parseQuery v = (case v of J_string s \<Rightarrow> trimEnd (take SEARCH_QUERY_MAX_LENGTH (trim s)) | _ \<Rightarrow> [])"

definition parsePage :: "js_value \<Rightarrow> nat option" where
  "parsePage v =
     (case (case v of J_int i \<Rightarrow> Some i | J_nonint \<Rightarrow> None | _ \<Rightarrow> parseInt (jsString v)) of
        None \<Rightarrow> None | Some page \<Rightarrow> if 1 < page then Some (nat page) else None)"

definition parseSearchPageSearch :: "(string \<Rightarrow> js_value) \<Rightarrow> page_search" where
  "parseSearchPageSearch raw =
     \<lparr>ps_q = parseQuery (raw ''q''),
      ps_type = whenString isSearchType (raw ''type''),
      ps_sort = whenString isSearchSort (raw ''sort''),
      ps_order = whenString isSearchOrder (raw ''order''),
      ps_page = parsePage (raw ''page''),
      ps_status = whenString isSearchStatusFilter (raw ''status''),
      ps_includeArchived =
        (if raw ''includeArchived'' = J_bool True \<or> raw ''includeArchived'' = J_string ''true''
         then Some True else None)\<rparr>"

definition resolveSearchPageParams :: "page_search \<Rightarrow> page_params" where
  "resolveSearchPageParams s =
     \<lparr>pp_q = ps_q s, pp_type = orElse (ps_type s) ST_all, pp_sort = orElse (ps_sort s) By_name,
      pp_order = orElse (ps_order s) Asc, pp_page = orElse (ps_page s) 1,
      pp_status = ps_status s, pp_includeArchived = orElse (ps_includeArchived s) False\<rparr>"

text \<open>A patch names some keys; a named key may be set to undefined.\<close>

record search_patch =
  pt_q :: "string option"
  pt_type :: "search_type option option"
  pt_sort :: "search_sort option option"
  pt_order :: "search_order option option"
  pt_page :: "nat option option"
  pt_status :: "search_status option option"
  pt_includeArchived :: "bool option option"

definition nextSearchParams :: "page_search \<Rightarrow> search_patch \<Rightarrow> page_search" where
  "nextSearchParams current patch =
     (let mergedType = orElse (pt_type patch) (ps_type current);
          mergedSort = orElse (pt_sort patch) (ps_sort current);
          mergedOrder = orElse (pt_order patch) (ps_order current);
          mergedStatus = orElse (pt_status patch) (ps_status current);
          mergedArchived = orElse (pt_includeArchived patch) (ps_includeArchived current)
      in \<lparr>ps_q = orElse (pt_q patch) (ps_q current),
          ps_type = (if mergedType \<noteq> None \<and> mergedType \<noteq> Some ST_all then mergedType else None),
          ps_sort = (if mergedSort \<noteq> None \<and> mergedSort \<noteq> Some By_name then mergedSort else None),
          ps_order = (if mergedOrder \<noteq> None \<and> mergedOrder \<noteq> Some Asc then mergedOrder else None),
          ps_page = (case orElse (pt_page patch) None of None \<Rightarrow> None
            | Some n \<Rightarrow> if 1 < n then Some n else None),
          ps_status = mergedStatus,
          ps_includeArchived = (if mergedArchived = Some True then Some True else None)\<rparr>)"

section \<open>The request\<close>

text \<open>\<open>toSearchParams\<close> copies the fields, so the API parameters are the page's.\<close>

definition toSearchParams :: "page_params \<Rightarrow> page_search" where
  "toSearchParams p =
     \<lparr>ps_q = pp_q p, ps_type = Some (pp_type p), ps_sort = Some (pp_sort p),
      ps_order = Some (pp_order p), ps_page = Some (pp_page p), ps_status = pp_status p,
      ps_includeArchived = Some (pp_includeArchived p)\<rparr>"

text \<open>\<open>String(n)\<close>, for the integers it prints without an exponent.\<close>

fun showDecimal :: "nat \<Rightarrow> string" where
  "showDecimal n = (if n < 10 then [char_of (48 + n)] else showDecimal (n div 10) @ [char_of (48 + n mod 10)])"

declare showDecimal.simps [simp del]

definition buildSearchQuery :: "page_search \<Rightarrow> (string \<times> string) list" where
  "buildSearchQuery p =
     [(''q'', ps_q p)] @
     (case ps_type p of None \<Rightarrow> [] | Some t \<Rightarrow> if t \<noteq> ST_all then [(''type'', typeName t)] else []) @
     (case ps_sort p of None \<Rightarrow> [] | Some t \<Rightarrow> if t \<noteq> By_name then [(''sort'', sortName t)] else []) @
     (case ps_order p of None \<Rightarrow> [] | Some t \<Rightarrow> if t \<noteq> Asc then [(''order'', orderName t)] else []) @
     (case ps_page p of None \<Rightarrow> [] | Some n \<Rightarrow> if 1 < n then [(''page'', showDecimal n)] else []) @
     (case ps_status p of None \<Rightarrow> [] | Some t \<Rightarrow> [(''status'', statusName t)]) @
     (if ps_includeArchived p = Some True then [(''includeArchived'', ''true'')] else [])"

text \<open>\<open>loadSearchPageData\<close>: no request for a term the server would refuse.\<close>

definition loadSearchPageData :: "page_search \<Rightarrow> (string \<times> string) list option" where
  "loadSearchPageData s =
     (let params = resolveSearchPageParams s in
      if length (pp_q params) < SEARCH_QUERY_MIN_LENGTH then None
      else Some (buildSearchQuery (toSearchParams params)))"

section \<open>The server's validation\<close>

text \<open>
  \<open>Number(text)\<close> for plain digits; \<open>other\<close> is the conversion of any other text. A field of the
  DTO is absent, invalid (None) or has a value (Some).
\<close>

definition queryNumber :: "(string \<Rightarrow> nat option) \<Rightarrow> string \<Rightarrow> nat option" where
  "queryNumber other s = (if s \<noteq> [] \<and> list_all isDigit s then numberOf (digitsValue s) else other s)"

definition optionalField :: "(string \<Rightarrow> 'a option) \<Rightarrow> string option \<Rightarrow> 'a option option" where
  "optionalField f v = (case v of None \<Rightarrow> Some None | Some s \<Rightarrow> map_option Some (f s))"

definition declaredKeys :: "string list" where
  "declaredKeys = [''q'', ''type'', ''sort'', ''order'', ''page'', ''limit'', ''status'', ''includeArchived'']"

definition between1 :: "nat option \<Rightarrow> nat \<Rightarrow> nat option" where
  "between1 n hi = (case n of None \<Rightarrow> None | Some k \<Rightarrow> if 1 \<le> k \<and> k \<le> hi then Some k else None)"

definition atLeast1 :: "nat option \<Rightarrow> nat option" where
  "atLeast1 n = (case n of None \<Rightarrow> None | Some k \<Rightarrow> if 1 \<le> k then Some k else None)"

definition search_query_dto :: "(string \<Rightarrow> nat option) \<Rightarrow> (string \<times> string) list \<Rightarrow> exn + search_query" where
  "search_query_dto other pairs =
     (let field = map_of pairs in
      if \<not> list_all (\<lambda>(k, v). k \<in> set declaredKeys) pairs then Inl (BadRequest ''property should not exist'')
      else case (map_option trim (field ''q''),
          optionalField isSearchType (field ''type''), optionalField isSearchSort (field ''sort''),
          optionalField isSearchOrder (field ''order''),
          optionalField (\<lambda>s. atLeast1 (queryNumber other s)) (field ''page''),
          optionalField (\<lambda>s. between1 (queryNumber other s) SEARCH_MAX_LIMIT) (field ''limit''),
          optionalField isSearchStatusFilter (field ''status''),
          optionalField (\<lambda>s. if s = ''true'' then Some True else if s = ''false'' then Some False else None)
            (field ''includeArchived'')) of
        (Some q, Some t, Some s, Some r, Some p, Some l, Some f, Some a) \<Rightarrow>
          if SEARCH_QUERY_MIN_LENGTH \<le> length q \<and> length q \<le> SEARCH_QUERY_MAX_LENGTH
          then Inr \<lparr>sq_q = q, sq_type = t, sq_sort = s, sq_order = r, sq_page = p, sq_limit = l,
                 sq_status = f, sq_includeArchived = a\<rparr>
          else Inl (BadRequest ''q'')
      | _ \<Rightarrow> Inl (BadRequest ''invalid''))"

section \<open>Text lemmas\<close>

text \<open>What the page keeps of the term is trimmed and short enough for the server.\<close>

lemma parseQuery_clean: "trim (parseQuery v) = parseQuery v"
proof (cases v)
  case (J_string s)
  have "trimStart (trim s) = trim s"
    unfolding trim_def by (rule trimStart_trimEnd, rule trimStart_idem)
  then have "trimStart (parseQuery v) = parseQuery v"
    unfolding J_string parseQuery_def js_value.case by (intro trimStart_trimEnd trimStart_take)
  then show ?thesis unfolding J_string parseQuery_def js_value.case by (simp add: trim_clean trimEnd_idem)
qed (simp_all add: parseQuery_def trim_def trimStart_def trimEnd_def)

lemma length_trimEnd: "length (trimEnd s) \<le> length s"
  unfolding trimEnd_def by (metis length_dropWhile_le length_rev)

lemma parseQuery_short: "length (parseQuery v) \<le> SEARCH_QUERY_MAX_LENGTH"
  using length_trimEnd [of "take SEARCH_QUERY_MAX_LENGTH (trim s)" for s]
  by (auto simp: parseQuery_def split: js_value.split intro: order_trans)

text \<open>Numbers survive being printed and read.\<close>

lemma digit_char: "n < 10 \<Longrightarrow> (of_char (char_of (48 + n)) :: nat) = 48 + n"
  by (simp add: of_char_of)

lemma digitsValue_append: "digitsValue (s @ [c]) = digitsValue s * 10 + (of_char c - 48)"
  by (simp add: digitsValue_def)

lemma isDigit_char: "n < 10 \<Longrightarrow> isDigit (char_of (48 + n :: nat))"
  by (simp add: isDigit_def between_def digit_char)

lemma showDecimal_read:
  "digitsValue (showDecimal n) = n \<and> list_all isDigit (showDecimal n) \<and> showDecimal n \<noteq> []"
proof (induction n rule: showDecimal.induct)
  case (1 n)
  show ?case
  proof (cases "n < 10")
    case True
    then show ?thesis
      by (simp add: showDecimal.simps [of n] isDigit_char digitsValue_def digit_char)
  next
    case False
    have "n mod 10 < 10" by simp
    then have "digitsValue (showDecimal n) = n div 10 * 10 + n mod 10"
      using 1 [OF False] False
      by (simp add: showDecimal.simps [of n] digitsValue_append digit_char del: mod_less_divisor)
    then show ?thesis using 1 [OF False] False by (simp add: showDecimal.simps [of n] isDigit_char)
  qed
qed

lemma queryNumber_show: "n < 2 ^ 53 \<Longrightarrow> queryNumber other (showDecimal n) = Some n"
  using showDecimal_read [of n] by (simp add: queryNumber_def numberOf_exact)

lemma names_read [simp]:
  "isSearchType (typeName t) = Some t" "isSearchSort (sortName s) = Some s"
  "isSearchOrder (orderName r) = Some r" "isSearchStatusFilter (statusName f) = Some f"
proof -
  show "isSearchType (typeName t) = Some t" by (cases t) (simp_all add: isSearchType_def)
  show "isSearchSort (sortName s) = Some s" by (cases s) (simp_all add: isSearchSort_def)
  show "isSearchOrder (orderName r) = Some r" by (cases r) (simp_all add: isSearchOrder_def)
  show "isSearchStatusFilter (statusName f) = Some f" by (cases f) (simp_all add: isSearchStatusFilter_def)
qed

section \<open>From the address bar to the query\<close>

lemma strip_default:
  "orElse (if orElse x y \<noteq> None \<and> orElse x y \<noteq> Some d then orElse x y else None) d =
   (case x of None \<Rightarrow> orElse y d | Some z \<Rightarrow> orElse z d)"
  by (cases x; cases y) (auto simp: orElse_def split: option.split)

lemma strip_archived:
  "orElse (if orElse x y = Some True then Some True else None) False =
   (case x of None \<Rightarrow> orElse y False | Some z \<Rightarrow> orElse z False)"
  by (cases x; cases y) (auto simp: orElse_def split: option.split)

lemma strip_page:
  "orElse (case orElse x None of None \<Rightarrow> None | Some n \<Rightarrow> if 1 < n then Some n else None) 1 =
   (case x of None \<Rightarrow> 1 | Some z \<Rightarrow> max 1 (orElse z (1::nat)))"
  by (cases x) (auto simp: orElse_def max_def split: option.split)

lemma resolve_next:
  "resolveSearchPageParams (nextSearchParams s patch) =
     (let r = resolveSearchPageParams s in
       \<lparr>pp_q = orElse (pt_q patch) (pp_q r),
        pp_type = (case pt_type patch of None \<Rightarrow> pp_type r | Some x \<Rightarrow> orElse x ST_all),
        pp_sort = (case pt_sort patch of None \<Rightarrow> pp_sort r | Some x \<Rightarrow> orElse x By_name),
        pp_order = (case pt_order patch of None \<Rightarrow> pp_order r | Some x \<Rightarrow> orElse x Asc),
        pp_page = (case pt_page patch of None \<Rightarrow> 1 | Some x \<Rightarrow> max 1 (orElse x 1)),
        pp_status = orElse (pt_status patch) (pp_status r),
        pp_includeArchived = (case pt_includeArchived patch of None \<Rightarrow> pp_includeArchived r | Some x \<Rightarrow> orElse x False)\<rparr>)"
  unfolding nextSearchParams_def resolveSearchPageParams_def Let_def page_search.simps page_params.simps
  by (simp only: strip_default strip_archived strip_page)

text \<open>Each key of the request, as the server finds it.\<close>

lemma part_lookup:
  "map_of (case x of None \<Rightarrow> [] | Some t \<Rightarrow> if c t then [(key, f t)] else []) k =
     (if k = key then (case x of None \<Rightarrow> None | Some t \<Rightarrow> if c t then Some (f t) else None) else None)"
  "map_of (case y of None \<Rightarrow> [] | Some t \<Rightarrow> [(key, g t)]) k = (if k = key then map_option g y else None)"
  "map_of (if b then [(key, v)] else []) k = (if b \<and> k = key then Some v else None)"
  by (simp_all split: option.split)

lemma option_eta: "(case z of None \<Rightarrow> None | Some x \<Rightarrow> Some x) = z"
  by (cases z) simp_all

lemma build_lookup:
  "map_of (buildSearchQuery p) ''q'' = Some (ps_q p)"
  "map_of (buildSearchQuery p) ''type'' = (case ps_type p of None \<Rightarrow> None | Some t \<Rightarrow> if t \<noteq> ST_all then Some (typeName t) else None)"
  "map_of (buildSearchQuery p) ''sort'' = (case ps_sort p of None \<Rightarrow> None | Some t \<Rightarrow> if t \<noteq> By_name then Some (sortName t) else None)"
  "map_of (buildSearchQuery p) ''order'' = (case ps_order p of None \<Rightarrow> None | Some t \<Rightarrow> if t \<noteq> Asc then Some (orderName t) else None)"
  "map_of (buildSearchQuery p) ''page'' = (case ps_page p of None \<Rightarrow> None | Some n \<Rightarrow> if 1 < n then Some (showDecimal n) else None)"
  "map_of (buildSearchQuery p) ''limit'' = None"
  "map_of (buildSearchQuery p) ''status'' = map_option statusName (ps_status p)"
  "map_of (buildSearchQuery p) ''includeArchived'' = (if ps_includeArchived p = Some True then Some ''true'' else None)"
  by (simp_all add: buildSearchQuery_def map_add_def part_lookup option_eta map_option_case
      del: if_split cong: if_cong option.case_cong)

lemma build_declared: "list_all (\<lambda>(k, v). k \<in> set declaredKeys) (buildSearchQuery p)"
  by (simp add: buildSearchQuery_def declaredKeys_def split: option.split)

lemma fields_read:
  "optionalField isSearchType (if t \<noteq> ST_all then Some (typeName t) else None) = Some (if t \<noteq> ST_all then Some t else None)"
  "optionalField isSearchSort (if s \<noteq> By_name then Some (sortName s) else None) = Some (if s \<noteq> By_name then Some s else None)"
  "optionalField isSearchOrder (if r \<noteq> Asc then Some (orderName r) else None) = Some (if r \<noteq> Asc then Some r else None)"
  "n < 2 ^ 53 \<Longrightarrow> optionalField (\<lambda>x. atLeast1 (queryNumber other x)) (if 1 < n then Some (showDecimal n) else None) =
     Some (if 1 < n then Some n else None)"
  "optionalField isSearchStatusFilter (map_option statusName f) = Some f"
  "optionalField (\<lambda>s. if s = ''true'' then Some True else if s = ''false'' then Some False else None)
     (if Some b = Some True then Some ''true'' else None) = Some (if b then Some True else None)"
  "optionalField g None = Some None"
  by (auto simp: optionalField_def queryNumber_show atLeast1_def split: option.split)

lemma server_reads:
  assumes "trim (pp_q p) = pp_q p" "SEARCH_QUERY_MIN_LENGTH \<le> length (pp_q p)"
    "length (pp_q p) \<le> SEARCH_QUERY_MAX_LENGTH" "pp_page p < 2 ^ 53"
  shows "search_query_dto other (buildSearchQuery (toSearchParams p)) = Inr
     \<lparr>sq_q = pp_q p, sq_type = (if pp_type p \<noteq> ST_all then Some (pp_type p) else None),
      sq_sort = (if pp_sort p \<noteq> By_name then Some (pp_sort p) else None),
      sq_order = (if pp_order p \<noteq> Asc then Some (pp_order p) else None),
      sq_page = (if 1 < pp_page p then Some (pp_page p) else None), sq_limit = None,
      sq_status = pp_status p, sq_includeArchived = (if pp_includeArchived p then Some True else None)\<rparr>"
  unfolding search_query_dto_def Let_def build_lookup toSearchParams_def page_search.simps option.case fields_read(7)
  by (simp only: fields_read assms build_declared option.map option.case prod.case if_True simp_thms not_True_eq_False if_False)


text \<open>A hand-typed URL with a bogus type and page 3 of the tasks that are done.\<close>

definition typedUrl :: "string \<Rightarrow> js_value" where
  "typedUrl k = (if k = ''q'' then J_string ''  ab '' else if k = ''type'' then J_string ''tasks''
     else if k = ''sort'' then J_string ''bogus'' else if k = ''page'' then J_string ''3'' else J_undefined)"


end
