(* ===== verification/RateLimit.thy ===== *)
theory RateLimit
  imports Prelude
begin

text \<open>
  \<open>ProjectApiTokenWriteRateLimitGuard\<close> (\<open>backend/src/auth/project-api-token-write-rate-limit.guard.ts\<close>):
  a fixed window of 60 seconds and 30 writes for each token, at most 10 000 windows, expired ones
  pruned once a minute, the oldest evicted when the table is full. A JavaScript \<open>Map\<close> keeps
  insertion order and a \<open>set\<close> on a key it has leaves the key in its place, which is what
  \<open>AList.update\<close> does.
\<close>

type_synonym token_window = "nat \<times> int"

record limiter =
  tokenWindows :: "(string \<times> token_window) list"
  lastPrunedAt :: int

definition windowMs :: int where "windowMs = 60000"
definition writeLimit :: nat where "writeLimit = 30"
definition maximumTrackedTokens :: nat where "maximumTrackedTokens = 10000"

definition emptyLimiter :: limiter where
  "emptyLimiter = \<lparr>tokenWindows = [], lastPrunedAt = 0\<rparr>"

definition tooManyWrites :: exn where
  "tooManyWrites = TooManyRequests ''Project API token write rate exceeded''"

definition pruneExpiredWindows :: "int \<Rightarrow> limiter \<Rightarrow> limiter" where
  "pruneExpiredWindows now l =
     (if now - lastPrunedAt l < windowMs then l
      else l\<lparr>tokenWindows := filter (\<lambda>(_, _, resetAt). \<not> resetAt \<le> now) (tokenWindows l),
             lastPrunedAt := now\<rparr>)"

definition evictOldestWindowIfNeeded :: "limiter \<Rightarrow> limiter" where
  "evictOldestWindowIfNeeded l =
     (if length (tokenWindows l) < maximumTrackedTokens then l
      else l\<lparr>tokenWindows := drop 1 (tokenWindows l)\<rparr>)"

definition setWindow :: "string \<Rightarrow> token_window \<Rightarrow> limiter \<Rightarrow> limiter" where
  "setWindow tokenId v l = l\<lparr>tokenWindows := AList.update tokenId v (tokenWindows l)\<rparr>"

definition limit_canActivate :: "int \<Rightarrow> string \<Rightarrow> (limiter, unit) act" where
  "limit_canActivate now tokenId =
     andThen (modify (pruneExpiredWindows now)) (\<lambda>_.
     andThen (gets (\<lambda>l. map_of (tokenWindows l) tokenId)) (\<lambda>current.
     let fresh = andThen (modify evictOldestWindowIfNeeded) (\<lambda>_.
           modify (setWindow tokenId (1, now + windowMs)))
     in case current of
          None \<Rightarrow> fresh
        | Some (n, resetAt) \<Rightarrow>
            if resetAt \<le> now then fresh
            else if writeLimit \<le> n then throw tooManyWrites
            else modify (setWindow tokenId (n + 1, resetAt))))"

section \<open>The window of one token\<close>

text \<open>What the guard does to one token, as long as nothing is evicted: a window or none.\<close>

definition liveWindow :: "int \<Rightarrow> limiter \<Rightarrow> string \<Rightarrow> token_window option" where
  "liveWindow now l tokenId = (case map_of (tokenWindows l) tokenId of
     None \<Rightarrow> None | Some (n, resetAt) \<Rightarrow> if resetAt \<le> now then None else Some (n, resetAt))"

fun windowStep :: "int \<Rightarrow> token_window option \<Rightarrow> bool \<times> token_window option" where
  "windowStep now None = (True, Some (1, now + windowMs))"
| "windowStep now (Some (n, resetAt)) =
     (if resetAt \<le> now then (True, Some (1, now + windowMs))
      else if writeLimit \<le> n then (False, Some (n, resetAt)) else (True, Some (n + 1, resetAt)))"

definition windowsOk :: "limiter \<Rightarrow> bool" where
  "windowsOk l \<longleftrightarrow> distinct (map fst (tokenWindows l)) \<and> length (tokenWindows l) \<le> maximumTrackedTokens \<and>
     (\<forall>(k, n, resetAt)\<in>set (tokenWindows l). 1 \<le> n \<and> n \<le> writeLimit)"

lemma pruned_lookup:
  assumes "distinct (map fst ws)"
  shows "map_of (filter keep ws) tok = Option.bind (map_of ws tok) (\<lambda>w. if keep (tok, w) then Some w else None)"
  using assms
proof (induction ws)
  case (Cons e ws)
  obtain tk w where e: "e = (tk, w)" by (cases e)
  with Cons.prems have "map_of ws tk = None" by (simp add: map_of_eq_None_iff)
  with Cons e show ?case by (cases "tk = tok") auto
qed simp

lemma liveWindow_prune:
  "windowsOk l \<Longrightarrow> now \<le> t \<Longrightarrow> liveWindow t (pruneExpiredWindows now l) k = liveWindow t l k"
  by (auto simp: liveWindow_def pruneExpiredWindows_def windowsOk_def pruned_lookup split: option.split Option.bind_split)

lemma windowsOk_prune: "windowsOk l \<Longrightarrow> windowsOk (pruneExpiredWindows now l)"
  by (auto simp: windowsOk_def pruneExpiredWindows_def distinct_map_filterI
      intro: le_trans [OF length_filter_le])

lemma liveWindow_set:
  "liveWindow t (setWindow k v l) j = (if j = k then (if snd v \<le> t then None else Some v) else liveWindow t l j)"
  by (auto simp: liveWindow_def setWindow_def update_conv' split: prod.split)

lemma tracked_after_update:
  "tok \<in> fst ` set ws \<Longrightarrow> length (AList.update tok w ws) = length ws"
  "tok \<notin> fst ` set ws \<Longrightarrow> length (AList.update tok w ws) = length ws + 1"
  by (induction ws) auto

lemma set_update: "set (AList.update k v xs) \<subseteq> insert (k, v) (set xs)"
  by (induction xs) auto

lemma windowsOk_set:
  assumes "windowsOk l" and "1 \<le> n" "n \<le> writeLimit"
    and "k \<in> fst ` set (tokenWindows l) \<or> length (tokenWindows l) < maximumTrackedTokens"
  shows "windowsOk (setWindow k (n, r) l)"
proof -
  have "distinct (map fst (AList.update k (n, r) (tokenWindows l)))"
    using assms(1) by (simp add: windowsOk_def distinct_update)
  moreover have "length (AList.update k (n, r) (tokenWindows l)) \<le> maximumTrackedTokens"
    using assms(1,4)
    by (cases "k \<in> fst ` set (tokenWindows l)") (auto simp: tracked_after_update windowsOk_def)
  moreover have "\<forall>(k, n, r)\<in>set (AList.update k (n, r) (tokenWindows l)). 1 \<le> n \<and> n \<le> writeLimit"
    using assms(1,2,3) set_update [of k "(n, r)" "tokenWindows l"] by (fastforce simp: windowsOk_def)
  ultimately show ?thesis by (simp add: windowsOk_def setWindow_def)
qed

lemma windowsOk_evict:
  assumes "windowsOk l"
  shows "windowsOk (evictOldestWindowIfNeeded l)"
    and "length (tokenWindows (evictOldestWindowIfNeeded l)) < maximumTrackedTokens"
  using assms by (auto simp: windowsOk_def evictOldestWindowIfNeeded_def maximumTrackedTokens_def
      distinct_drop drop_map [symmetric] dest: in_set_dropD)

lemma windowsOk_step: "keeps windowsOk (limit_canActivate now k)"
proof (rule keepsI)
  fix l assume "windowsOk l"
  then have p: "windowsOk (pruneExpiredWindows now l)" by (rule windowsOk_prune)
  let ?l = "pruneExpiredWindows now l"
  have fresh: "windowsOk (setWindow k (1, now + windowMs) (evictOldestWindowIfNeeded ?l))"
    using windowsOk_evict [OF p] by (intro windowsOk_set) (simp_all add: writeLimit_def)
  show "windowsOk (snd (limit_canActivate now k l))"
  proof (cases "map_of (tokenWindows ?l) k")
    case None
    then show ?thesis using fresh by (simp add: limit_canActivate_def run_simps Let_def)
  next
    case (Some v)
    obtain n r where v: "v = (n, r)" by (cases v)
    then have m: "(k, n, r) \<in> set (tokenWindows ?l)" using Some by (auto dest: map_of_SomeD)
    then have "1 \<le> n" "k \<in> fst ` set (tokenWindows ?l)" using p by (force simp: windowsOk_def)+
    then have "windowsOk (setWindow k (Suc n, r) ?l)" if "n < writeLimit"
      using that p by (intro windowsOk_set) auto
    then show ?thesis using Some v fresh p by (simp add: limit_canActivate_def run_simps Let_def)
  qed
qed

text \<open>Below the limit of tracked tokens the guard is \<open>windowStep\<close> on its token and nothing on the others.\<close>

lemma limit_run:
  assumes "windowsOk l" and "length (tokenWindows l) < maximumTrackedTokens"
  shows "limit_canActivate now k l = (case liveWindow now l k of
      None \<Rightarrow> (Inr (), setWindow k (1, now + windowMs) (pruneExpiredWindows now l))
    | Some (n, reset) \<Rightarrow> if writeLimit \<le> n then (Inl tooManyWrites, pruneExpiredWindows now l)
        else (Inr (), setWindow k (Suc n, reset) (pruneExpiredWindows now l)))"
proof -
  let ?l = "pruneExpiredWindows now l"
  have "length (tokenWindows ?l) < maximumTrackedTokens"
    using le_less_trans [OF length_filter_le assms(2)] assms(2) by (simp add: pruneExpiredWindows_def)
  then have e: "evictOldestWindowIfNeeded ?l = ?l" by (simp add: evictOldestWindowIfNeeded_def)
  show ?thesis
  proof (cases "map_of (tokenWindows ?l) k")
    case None
    then show ?thesis
      unfolding liveWindow_prune [OF assms(1) order_refl, symmetric]
      by (simp add: limit_canActivate_def run_simps Let_def e liveWindow_def)
  next
    case (Some v)
    then show ?thesis
      unfolding liveWindow_prune [OF assms(1) order_refl, symmetric]
      by (cases v) (simp add: limit_canActivate_def run_simps Let_def e liveWindow_def)
  qed
qed

lemma keys_prune: "set (map fst (tokenWindows (pruneExpiredWindows now l))) \<subseteq> set (map fst (tokenWindows l))"
  by (auto simp: pruneExpiredWindows_def)

lemma keys_set: "fst ` set (tokenWindows (setWindow k v l)) = insert k (fst ` set (tokenWindows l))"
  by (simp add: setWindow_def dom_update)

lemma limit_refines:
  assumes "windowsOk l" and "length (tokenWindows l) < maximumTrackedTokens"
    and "limit_canActivate now k l = (r, l')" and "now \<le> t"
  shows "r = (if fst (windowStep now (liveWindow now l k)) then Inr () else Inl tooManyWrites)"
    and "liveWindow now l' k = snd (windowStep now (liveWindow now l k))"
    and "j \<noteq> k \<Longrightarrow> liveWindow t l' j = liveWindow t l j"
    and "set (map fst (tokenWindows l')) \<subseteq> insert k (set (map fst (tokenWindows l)))"
proof -
  have live: "liveWindow s (pruneExpiredWindows now l) j = liveWindow s l j" if "now \<le> s" for s j
    by (rule liveWindow_prune [OF assms(1) that])
  have "(r = (if fst (windowStep now (liveWindow now l k)) then Inr () else Inl tooManyWrites)) \<and>
    liveWindow now l' k = snd (windowStep now (liveWindow now l k)) \<and>
    (j \<noteq> k \<longrightarrow> liveWindow t l' j = liveWindow t l j) \<and>
    set (map fst (tokenWindows l')) \<subseteq> insert k (set (map fst (tokenWindows l)))"
  proof (cases "liveWindow now l k")
    case None
    then have "r = Inr ()" "l' = setWindow k (1, now + windowMs) (pruneExpiredWindows now l)"
      using assms(3) limit_run [OF assms(1,2), of now k] by simp_all
    then show ?thesis using None keys_prune [of now l] assms(4)
      by (auto simp: liveWindow_set live windowMs_def keys_set)
  next
    case (Some v)
    obtain n reset where v: "v = (n, reset)" by (cases v)
    have alive: "now < reset" using Some v by (auto simp: liveWindow_def split: option.splits if_splits)
    show ?thesis
    proof (cases "writeLimit \<le> n")
      case True
      then have "r = Inl tooManyWrites" "l' = pruneExpiredWindows now l"
        using assms(3) limit_run [OF assms(1,2), of now k] Some v by simp_all
      then show ?thesis using True Some v alive keys_prune [of now l] assms(4)
        by (auto simp: live)
    next
      case False
      then have "r = Inr ()" "l' = setWindow k (Suc n, reset) (pruneExpiredWindows now l)"
        using assms(3) limit_run [OF assms(1,2), of now k] Some v by simp_all
      then show ?thesis using False Some v alive keys_prune [of now l] assms(4)
        by (auto simp: liveWindow_set live keys_set)
    qed
  qed
  then show "r = (if fst (windowStep now (liveWindow now l k)) then Inr () else Inl tooManyWrites)"
    "liveWindow now l' k = snd (windowStep now (liveWindow now l k))"
    "j \<noteq> k \<Longrightarrow> liveWindow t l' j = liveWindow t l j"
    "set (map fst (tokenWindows l')) \<subseteq> insert k (set (map fst (tokenWindows l)))"
    by simp_all
qed

section \<open>How many writes a token gets\<close>

text \<open>The answers to a sequence of requests, each a time and a token.\<close>

fun limiterRun :: "(int \<times> string) list \<Rightarrow> limiter \<Rightarrow> (int \<times> string \<times> bool) list" where
  "limiterRun [] l = []"
| "limiterRun ((now, k) # rs) l =
     (case limit_canActivate now k l of (r, l') \<Rightarrow> (now, k, r = Inr ()) # limiterRun rs l')"

text \<open>The same for one token and its own window.\<close>

fun windowRun :: "int list \<Rightarrow> token_window option \<Rightarrow> (int \<times> bool) list" where
  "windowRun [] v = []"
| "windowRun (now # ts) v = (now, fst (windowStep now v)) # windowRun ts (snd (windowStep now v))"

definition passedIn :: "int \<Rightarrow> int \<Rightarrow> (int \<times> bool) list \<Rightarrow> nat" where
  "passedIn a b xs = length (filter (\<lambda>(now, ok). ok \<and> a \<le> now \<and> now < b) xs)"

lemma windowRun_late: "\<forall>t\<in>set ts. b \<le> t \<Longrightarrow> passedIn a b (windowRun ts v) = 0"
  by (induction ts arbitrary: v) (auto simp: passedIn_def)

text \<open>Inside a window at most the writes left of it pass; from its start at most two windows' worth.\<close>

lemma passed_in_window:
  "n \<le> writeLimit \<Longrightarrow> b \<le> r \<Longrightarrow> sorted ts \<Longrightarrow> passedIn a b (windowRun ts (Some (n, r))) \<le> writeLimit - n"
proof (induction ts arbitrary: n)
  case (Cons now ts)
  show ?case
  proof (cases "now < b")
    case True
    then have alive: "\<not> r \<le> now" using Cons.prems by simp
    show ?thesis
    proof (cases "writeLimit \<le> n")
      case True
      then show ?thesis using Cons.IH [of n] Cons.prems alive by (simp add: passedIn_def)
    next
      case False
      then show ?thesis using Cons.IH [of "Suc n"] Cons.prems alive by (auto simp: passedIn_def)
    qed
  next
    case False
    then have "passedIn a b (windowRun (now # ts) (Some (n, r))) = 0"
      using Cons.prems by (intro windowRun_late) auto
    then show ?thesis by simp
  qed
qed (simp add: passedIn_def)

text \<open>With no live window at \<open>now\<close>, at most one window's worth passes before \<open>now + windowMs\<close>.\<close>

lemma passed_fresh:
  assumes "sorted ts" and "\<forall>t\<in>set ts. now \<le> t" and "b \<le> now + windowMs"
    and "case v of None \<Rightarrow> True | Some (n, r) \<Rightarrow> r \<le> now"
  shows "passedIn a b (windowRun ts v) \<le> writeLimit"
proof (cases ts)
  case (Cons t rest)
  have "windowStep t v = (True, Some (1, t + windowMs))"
    using assms(2,4) Cons by (auto split: option.splits prod.splits)
  moreover have "passedIn a b (windowRun rest (Some (1, t + windowMs))) \<le> writeLimit - 1"
    using assms Cons by (intro passed_in_window) (auto simp: writeLimit_def)
  ultimately show ?thesis using Cons by (simp add: passedIn_def writeLimit_def)
qed (simp add: passedIn_def)

lemma passed_two_windows:
  "n \<le> writeLimit \<Longrightarrow> b \<le> r + windowMs \<Longrightarrow> sorted ts \<Longrightarrow>
   passedIn a b (windowRun ts (Some (n, r))) \<le> writeLimit - n + writeLimit"
proof (induction ts arbitrary: n)
  case (Cons now ts)
  show ?case
  proof (cases "r \<le> now")
    case True
    then have "passedIn a b (windowRun (now # ts) (Some (n, r))) \<le> writeLimit"
      using Cons.prems by (intro passed_fresh [where now = now]) auto
    then show ?thesis by simp
  next
    case False
    show ?thesis
    proof (cases "writeLimit \<le> n")
      case True
      then show ?thesis using Cons.IH [of n] Cons.prems False by (simp add: passedIn_def)
    next
      case notfull: False
      then show ?thesis using Cons.IH [of "Suc n"] Cons.prems False by (auto simp: passedIn_def)
    qed
  qed
qed (simp add: passedIn_def)

lemma passed_bounded:
  "(case v of None \<Rightarrow> True | Some (n, r) \<Rightarrow> n \<le> writeLimit) \<Longrightarrow> sorted ts \<Longrightarrow>
   passedIn a (a + windowMs) (windowRun ts v) \<le> 2 * writeLimit"
proof (induction ts arbitrary: v)
  case (Cons now ts)
  have step: "case snd (windowStep now v) of None \<Rightarrow> True | Some (n, r) \<Rightarrow> n \<le> writeLimit"
    using Cons.prems(1) by (auto simp: writeLimit_def split: option.splits if_splits)
  show ?case
  proof (cases "now < a")
    case True
    then show ?thesis using Cons.IH [OF step] Cons.prems by (simp add: passedIn_def)
  next
    case False
    show ?thesis
    proof (cases "case v of None \<Rightarrow> True | Some (n, r) \<Rightarrow> r \<le> now")
      case True
      have "passedIn a (a + windowMs) (windowRun (now # ts) v) \<le> writeLimit"
        using Cons.prems False True by (intro passed_fresh [where now = now]) auto
      then show ?thesis by simp
    next
      case alive: False
      then obtain n r where v: "v = Some (n, r)" "now < r" by (auto split: option.splits prod.splits)
      have "passedIn a (a + windowMs) (windowRun (now # ts) (Some (n, r))) \<le> writeLimit - n + writeLimit"
        using Cons.prems False v by (intro passed_two_windows) auto
      then show ?thesis using v by simp
    qed
  qed
qed (simp add: passedIn_def)

lemma liveWindow_later:
  "s \<le> now \<Longrightarrow> windowStep now (liveWindow s l k) = windowStep now (liveWindow now l k)"
  by (auto simp: liveWindow_def split: option.split)

lemma windowRun_later:
  "s \<le> now \<Longrightarrow> \<forall>t\<in>set ts. now \<le> t \<Longrightarrow> windowRun ts (liveWindow s l k) = windowRun ts (liveWindow now l k)"
  by (cases ts) (auto simp: liveWindow_later [of s] liveWindow_later [of now])

text \<open>Every token has its own window, whatever the others do, while the table is not full.\<close>

lemma limiterRun_token:
  assumes "windowsOk l" and "finite K" "card K < maximumTrackedTokens"
    and "set (map fst (tokenWindows l)) \<union> set (map snd rs) \<subseteq> K"
    and "sorted (map fst rs)" "\<forall>t\<in>set (map fst rs). s \<le> t"
  shows "map (\<lambda>(now, _, ok). (now, ok)) (filter (\<lambda>(_, j, _). j = k) (limiterRun rs l)) =
     windowRun (map fst (filter (\<lambda>(_, j). j = k) rs)) (liveWindow s l k)"
  using assms(1,4-)
proof (induction rs arbitrary: l s)
  case (Cons x rs)
  obtain now j where x: "x = (now, j)" by (cases x)
  obtain r l' where run: "limit_canActivate now j l = (r, l')" by force
  have "length (tokenWindows l) = card (set (map fst (tokenWindows l)))"
    using Cons.prems(1) distinct_card [of "map fst (tokenWindows l)"] by (simp add: windowsOk_def)
  also have "\<dots> \<le> card K" using Cons.prems(2) assms(2) by (intro card_mono) auto
  finally have len: "length (tokenWindows l) < maximumTrackedTokens" using assms(3) by simp
  note ref = limit_refines [OF Cons.prems(1) len run]
  have later: "\<forall>t\<in>set (map fst rs). now \<le> t" "sorted (map fst rs)" "s \<le> now"
    using Cons.prems(3,4) x by auto
  have "set (map fst (tokenWindows l')) \<union> set (map snd rs) \<subseteq> K"
    using ref(4) [OF order_refl] Cons.prems(2) x by auto
  then have IH: "map (\<lambda>(now, _, ok). (now, ok)) (filter (\<lambda>(_, j, _). j = k) (limiterRun rs l')) =
     windowRun (map fst (filter (\<lambda>(_, j). j = k) rs)) (liveWindow now l' k)"
    using keeps_run [OF windowsOk_step Cons.prems(1) run] later by (intro Cons.IH)
  show ?case
  proof (cases "j = k")
    case True
    then show ?thesis
      using IH ref(1,2) [OF order_refl] liveWindow_later [OF later(3), of l k] x run by (auto split: if_splits)
  next
    case False
    have "windowRun (map fst (filter (\<lambda>(_, j). j = k) rs)) (liveWindow s l k) =
        windowRun (map fst (filter (\<lambda>(_, j). j = k) rs)) (liveWindow now l k)"
      using later by (intro windowRun_later) auto
    then show ?thesis using False IH ref(3) [OF order_refl, of k] x run by simp
  qed
qed simp

text \<open>A refusal means that a whole window's worth passed within the last \<open>windowMs\<close>.\<close>

fun windowAfter :: "int list \<Rightarrow> token_window option \<Rightarrow> token_window option" where
  "windowAfter [] v = v"
| "windowAfter (now # ts) v = windowAfter ts (snd (windowStep now v))"

lemma windowRun_append: "windowRun (ts @ us) v = windowRun ts v @ windowRun us (windowAfter ts v)"
  by (induction ts arbitrary: v) auto

lemma windowAfter_append: "windowAfter (ts @ us) v = windowAfter us (windowAfter ts v)"
  by (induction ts arbitrary: v) auto

lemma window_opened:
  "windowAfter ts None = Some (n, r) \<Longrightarrow> \<exists>t\<in>set ts. r = t + windowMs"
proof (induction ts arbitrary: n r rule: rev_induct)
  case (snoc now ts)
  then show ?case
    by (cases "windowAfter ts None") (auto simp: windowAfter_append split: if_splits)
qed simp

lemma window_counts_passes:
  "windowAfter ts None = Some (n, r) \<Longrightarrow> sorted ts \<Longrightarrow>
   n \<le> length (filter (\<lambda>(t, ok). ok \<and> r - windowMs \<le> t) (windowRun ts None))"
proof (induction ts arbitrary: n r rule: rev_induct)
  case (snoc now ts)
  have sorted: "sorted ts" "\<forall>t\<in>set ts. t \<le> now" using snoc.prems(2) by (simp_all add: sorted_append)
  show ?case
  proof (cases "windowAfter ts None")
    case None
    then show ?thesis using snoc.prems by (auto simp: windowAfter_append windowRun_append)
  next
    case (Some v)
    obtain m s where v: "v = (m, s)" by (cases v)
    have "m \<le> length (filter (\<lambda>(t, ok). ok \<and> s - windowMs \<le> t) (windowRun ts None))"
      using snoc.IH Some v sorted by simp
    moreover have "s - windowMs \<le> now" using window_opened [of ts m s] Some v sorted by auto
    ultimately show ?thesis using snoc.prems Some v
      by (auto simp: windowAfter_append windowRun_append split: if_splits)
  qed
qed simp

lemma filter_weaker:
  assumes "\<And>at. keep at \<Longrightarrow> keep' at"
  shows "length [at \<leftarrow> ats. keep at] \<le> length [at \<leftarrow> ats. keep' at]"
  using assms by (induct ats) simp_all

lemma refused_had_its_share:
  assumes "\<not> fst (windowStep now (windowAfter ts None))" and "sorted (ts @ [now])"
  shows "writeLimit \<le> length (filter (\<lambda>(t, ok). ok \<and> now - windowMs < t) (windowRun ts None))"
proof -
  obtain n r where v: "windowAfter ts None = Some (n, r)" and full: "writeLimit \<le> n" "now < r"
    using assms(1) by (cases "windowAfter ts None") (auto split: if_splits)
  have "n \<le> length (filter (\<lambda>(t, ok). ok \<and> r - windowMs \<le> t) (windowRun ts None))"
    using assms(2) by (intro window_counts_passes v) (simp add: sorted_append)
  also have "\<dots> \<le> length (filter (\<lambda>(t, ok). ok \<and> now - windowMs < t) (windowRun ts None))"
    using full(2) by (intro filter_weaker) auto
  finally show ?thesis using full(1) by simp
qed

section \<open>The property\<close>

text \<open>What one token sees of a run.\<close>

definition answersTo :: "string \<Rightarrow> (int \<times> string) list \<Rightarrow> (int \<times> bool) list" where
  "answersTo k rs = map (\<lambda>(now, _, ok). (now, ok)) (filter (\<lambda>(_, j, _). j = k) (limiterRun rs emptyLimiter))"

lemma answersTo_window:
  assumes "sorted (map fst rs)" and "card (set (map snd rs)) < maximumTrackedTokens"
  shows "answersTo k rs = windowRun (map fst (filter (\<lambda>(_, j). j = k) rs)) None"
proof -
  let ?s = "if rs = [] then 0 else fst (hd rs)"
  have "\<forall>t\<in>set (map fst rs). ?s \<le> t" using assms(1) by (cases rs) auto
  then have "answersTo k rs = windowRun (map fst (filter (\<lambda>(_, j). j = k) rs)) (liveWindow ?s emptyLimiter k)"
    using assms unfolding answersTo_def
    by (intro limiterRun_token [where K = "set (map snd rs)"])
      (simp_all add: windowsOk_def emptyLimiter_def)
  then show ?thesis by (simp add: liveWindow_def emptyLimiter_def)
qed



end
