(* ===== verification/Json.thy ===== *)
theory Json
  imports JsText "HOL-Library.Monad_Syntax"
begin

text \<open>
  What goes over the wire between browser and backend: JSON values, how the browser's parsers read
  them, and responses. Numbers are rationals, objects association lists
  with distinct keys, as \<open>JSON.parse\<close> builds them; a value that may be \<open>undefined\<close> is an option.
\<close>

section \<open>JSON\<close>

datatype json = JNull | JBool bool | JNum rat | JStr string | JArr "json list" | JObj "(string \<times> json) list"

text \<open>\<open>isRecord\<close>: \<open>typeof value === "object" && value !== null\<close>, which arrays satisfy.\<close>

fun isRecord :: "json \<Rightarrow> bool" where
  "isRecord (JArr vs) = True"
| "isRecord (JObj fs) = True"
| "isRecord _ = False"

text \<open>The property of a record; \<open>None\<close> is \<open>undefined\<close>.\<close>

fun property :: "json \<Rightarrow> string \<Rightarrow> json option" where
  "property (JObj fs) k = map_of fs k"
| "property _ k = None"

fun asString :: "json option \<Rightarrow> string option" where
  "asString (Some (JStr s)) = Some s"
| "asString _ = None"

fun asNumber :: "json option \<Rightarrow> rat option" where
  "asNumber (Some (JNum n)) = Some n"
| "asNumber _ = None"

fun asBoolean :: "json option \<Rightarrow> bool option" where
  "asBoolean (Some (JBool b)) = Some b"
| "asBoolean _ = None"

fun asArray :: "json option \<Rightarrow> json list option" where
  "asArray (Some (JArr vs)) = Some vs"
| "asArray _ = None"

text \<open>A string or null; then a string, null or nothing.\<close>

fun asNullable :: "json option \<Rightarrow> string option option" where
  "asNullable (Some JNull) = Some None"
| "asNullable (Some (JStr s)) = Some (Some s)"
| "asNullable _ = None"

definition asLenient :: "json option \<Rightarrow> string option option" where
  "asLenient v = (if v = None then Some None else asNullable v)"

definition stringAt :: "json \<Rightarrow> string \<Rightarrow> string option" where
  "stringAt v k = asString (property v k)"

definition numberAt :: "json \<Rightarrow> string \<Rightarrow> rat option" where
  "numberAt v k = asNumber (property v k)"

definition booleanAt :: "json \<Rightarrow> string \<Rightarrow> bool option" where
  "booleanAt v k = asBoolean (property v k)"

definition arrayAt :: "json \<Rightarrow> string \<Rightarrow> json list option" where
  "arrayAt v k = asArray (property v k)"

definition nullableAt :: "json \<Rightarrow> string \<Rightarrow> string option option" where
  "nullableAt v k = asNullable (property v k)"

definition lenientAt :: "json \<Rightarrow> string \<Rightarrow> string option option" where
  "lenientAt v k = asLenient (property v k)"

definition memberAt :: "(string \<times> 'a) list \<Rightarrow> json \<Rightarrow> string \<Rightarrow> 'a option" where
  "memberAt names v k = Option.bind (stringAt v k) (map_of names)"

text \<open>\<open>items.map(parse)\<close>, refused when one of them is null.\<close>

definition parseAll :: "(json \<Rightarrow> 'a option) \<Rightarrow> json list \<Rightarrow> 'a list option" where
  "parseAll parse vs = those (map parse vs)"

section \<open>Requests and responses\<close>

datatype verb = GET | POST | PATCH | DELETE

text \<open>\<open>rp_body\<close> is what \<open>response.json()\<close> gives, None when the text of the body is no JSON.\<close>

record response =
  rp_status :: int
  rp_isJson :: bool
  rp_body :: "json option"

text \<open>\<open>response.ok\<close>\<close>

definition responseOk :: "int \<Rightarrow> bool" where
  "responseOk status \<longleftrightarrow> 200 \<le> status \<and> status < 300"

section \<open>Writing values\<close>

definition nullable :: "string option \<Rightarrow> json" where
  "nullable s = (case s of None \<Rightarrow> JNull | Some t \<Rightarrow> JStr t)"

definition jint :: "int \<Rightarrow> json" where
  "jint n = JNum (of_int n)"

text \<open>An optional field of an object: \<open>undefined\<close> is left out by \<open>JSON.stringify\<close>.\<close>

definition fieldIf :: "string \<Rightarrow> ('a \<Rightarrow> json) \<Rightarrow> 'a option \<Rightarrow> (string \<times> json) list" where
  "fieldIf k f x = (case x of None \<Rightarrow> [] | Some a \<Rightarrow> [(k, f a)])"

definition nullableJson :: "('a \<Rightarrow> json) \<Rightarrow> 'a option \<Rightarrow> json" where
  "nullableJson f x = (case x of None \<Rightarrow> JNull | Some a \<Rightarrow> f a)"

section \<open>Reading what was written\<close>

lemma read_nullable [simp]:
  "asNullable (Some (nullable s)) = Some s" "asLenient (Some (nullable s)) = Some s" "asString (Some (nullable s)) = s"
  by (cases s; simp add: nullable_def asLenient_def)+

lemma read_jint [simp]:
  "asNumber (Some (jint n)) = Some (of_int n)"
  "asNumber (Some (nullableJson jint c)) = map_option of_int c"
  by (simp_all add: jint_def nullableJson_def split: option.split)

lemmas field_defs = stringAt_def numberAt_def booleanAt_def arrayAt_def nullableAt_def lenientAt_def memberAt_def

text \<open>Reading back a list of values that were written one by one.\<close>

lemma parseAll_written:
  "(\<And>x. x \<in> set xs \<Longrightarrow> parse (write x) = Some (view x)) \<Longrightarrow> parseAll parse (map write xs) = Some (map view xs)"
  unfolding parseAll_def by (induction xs) auto

end
