(* ===== verification/PublicApi.thy ===== *)
theory PublicApi
  imports Calendar Discovery RateLimit JsText Json
begin

text \<open>
  The API for machines: \<open>ProjectApiTokenGuard\<close> (\<open>backend/src/auth/project-api-token.guard.ts\<close>), the
  controllers of \<open>backend/src/public-api\<close> and \<open>ProjectApiTokensService\<close>
  (\<open>backend/src/project-api-tokens\<close>). The authentication service is the parameter \<open>auth\<close>, what it
  answers to a request; a call that fails, times out or finds no internal token is
  \<open>Fetch_failed\<close>. \<open>isUUID\<close> is the validator's format check.
\<close>

section \<open>Requests and answers\<close>

datatype token_permission = READ | READ_WRITE

record token_principal =
  tk_tokenId :: ident
  tk_projectId :: ident
  tk_label :: string
  tk_permission :: token_permission
  tk_expiresAt :: string
  tk_lastUsedAt :: string

datatype fetch_result = Fetch_failed | Fetch_response int "(string \<Rightarrow> js_value) option"

datatype header = H_absent | H_one string | H_many "string list"

definition firstHeaderValue :: "header \<Rightarrow> string option" where
  "firstHeaderValue h = (case h of H_absent \<Rightarrow> None | H_one s \<Rightarrow> Some s
     | H_many xs \<Rightarrow> (case xs of [] \<Rightarrow> None | x # _ \<Rightarrow> Some x))"

text \<open>The state of the process: the world and the limiter's table.\<close>

record api =
  api_world :: world
  api_limiter :: limiter

definition onWorld :: "'a service \<Rightarrow> (api, 'a) act" where
  "onWorld m = (\<lambda>s. case m (api_world s) of (r, w) \<Rightarrow> (r, s\<lparr>api_world := w\<rparr>))"

section \<open>The guard\<close>

definition permissionOf :: "js_value \<Rightarrow> token_permission option" where
  "permissionOf v = (if v = J_string ''READ'' then Some READ
     else if v = J_string ''READ_WRITE'' then Some READ_WRITE else None)"

definition stringOf :: "js_value \<Rightarrow> string option" where
  "stringOf v = (case v of J_string s \<Rightarrow> Some s | _ \<Rightarrow> None)"

text \<open>The check of the introspection response.\<close>

definition introspectionOf :: "(string \<Rightarrow> js_value) \<Rightarrow> token_principal option" where
  "introspectionOf result =
     (if result ''active'' \<noteq> J_bool True \<or> result ''principalType'' \<noteq> J_string ''PROJECT_API_TOKEN''
      then None
      else case (stringOf (result ''tokenId''), stringOf (result ''projectId''), stringOf (result ''label''),
          permissionOf (result ''permission''), stringOf (result ''expiresAt''), stringOf (result ''lastUsedAt'')) of
        (Some t, Some p, Some l, Some m, Some e, Some u) \<Rightarrow>
          Some \<lparr>tk_tokenId = t, tk_projectId = p, tk_label = l, tk_permission = m, tk_expiresAt = e, tk_lastUsedAt = u\<rparr>
      | _ \<Rightarrow> None)"

definition introspectToken :: "(string \<Rightarrow> fetch_result) \<Rightarrow> string \<Rightarrow> token_principal service" where
  "introspectToken auth apiKey = (case auth apiKey of
     Fetch_failed \<Rightarrow> throw (ServiceUnavailable ''Authentication service is unavailable'')
   | Fetch_response status body \<Rightarrow>
       if status = 401 then throw (Unauthorized ''Project API token is invalid'')
       else if \<not> responseOk status
       then throw (ServiceUnavailable ''Authentication service could not validate the project API token'')
       else case body of None \<Rightarrow> throw (JsError ''SyntaxError'')
         | Some result \<Rightarrow> (case introspectionOf result of
              None \<Rightarrow> throw (ServiceUnavailable
                ''Authentication service returned an invalid project API token response'')
            | Some holder \<Rightarrow> ret holder))"

definition invalidToken :: exn where
  "invalidToken = Unauthorized ''Project API token is invalid''"

text \<open>The result is \<open>request.apiToken\<close>, which a route without token authentication leaves unset.\<close>

definition token_canActivate ::
  "(string \<Rightarrow> fetch_result) \<Rightarrow> (string \<Rightarrow> bool) \<Rightarrow> token_permission option \<Rightarrow> bool \<Rightarrow>
   ident option \<times> header \<Rightarrow> token_principal option service" where
  "token_canActivate auth isUUID requiredPermission isSelfReflection = (\<lambda>(projectId, rawAPIKey).
     if requiredPermission = None \<and> \<not> isSelfReflection then ret None
     else andThen (ensure (\<not> (isSelfReflection \<and> projectId \<noteq> None))
       (BadRequest ''Project API token self-reflection must not use a projectId path parameter'')) (\<lambda>_.
     andThen (ensure (isSelfReflection \<or> (case projectId of None \<Rightarrow> False | Some p \<Rightarrow> p \<noteq> [] \<and> isUUID p))
       (BadRequest ''projectId must be a UUID'')) (\<lambda>_.
     andThen (ensure (case rawAPIKey of H_many _ \<Rightarrow> False | _ \<Rightarrow> True) invalidToken) (\<lambda>_.
     case firstHeaderValue rawAPIKey of None \<Rightarrow> throw invalidToken
     | Some apiKey \<Rightarrow>
         andThen (ensure (hasPrefix ''trp_v1_'' apiKey) invalidToken) (\<lambda>_.
         andThen (introspectToken auth apiKey) (\<lambda>holder.
         andThen (if isSelfReflection then ret ()
           else andThen (findFirst projects (\<lambda>p. p_id p = tk_projectId holder \<and> \<not> p_isArchived p)) (\<lambda>project.
             andThen (ensure (project \<noteq> None) projectNotFound) (\<lambda>_.
             ensure (map_option toLowerCase projectId = Some (toLowerCase (tk_projectId holder)))
               projectNotFound))) (\<lambda>_.
         andThen (ensure (\<not> (requiredPermission = Some READ_WRITE \<and> tk_permission holder \<noteq> READ_WRITE))
           (Forbidden ''Project API token does not permit write operations'')) (\<lambda>_.
         ret (Some holder)))))))))"

text \<open>
  The limiter's guard reads \<open>request.apiToken.tokenId\<close>, a type error on a request the token guard
  has not passed; the time is \<open>Date.now()\<close>.
\<close>

definition limiterGuard :: "token_principal option \<Rightarrow> (api, unit) act" where
  "limiterGuard apiToken = (case apiToken of None \<Rightarrow> throw (JsError ''TypeError'')
     | Some p \<Rightarrow> (\<lambda>s. case limit_canActivate (clock (api_world s)) (tk_tokenId p) (api_limiter s) of
         (r, l) \<Rightarrow> (r, s\<lparr>api_limiter := l\<rparr>)))"

section \<open>The controller\<close>

definition pageSize :: "int option \<Rightarrow> nat service" where
  "pageSize value = (case value of None \<Rightarrow> ret 100
     | Some v \<Rightarrow> if v < 0 then throw (BadRequest ''limit must be zero or greater'') else ret (nat (min v 100)))"

definition machineRead ::
  "(string \<Rightarrow> fetch_result) \<Rightarrow> (string \<Rightarrow> bool) \<Rightarrow> ident \<Rightarrow> header \<Rightarrow> 'a service \<Rightarrow> (api, 'a) act" where
  "machineRead auth isUUID projectId key handler =
     onWorld (andThen (token_canActivate auth isUUID (Some READ) False (Some projectId, key)) (\<lambda>_. handler))"

definition machineWrite ::
  "(string \<Rightarrow> fetch_result) \<Rightarrow> (string \<Rightarrow> bool) \<Rightarrow> ident \<Rightarrow> header \<Rightarrow> (ident \<Rightarrow> 'a service) \<Rightarrow> (api, 'a) act" where
  "machineWrite auth isUUID projectId key handler =
     andThen (onWorld (token_canActivate auth isUUID (Some READ_WRITE) False (Some projectId, key))) (\<lambda>apiToken.
     andThen (limiterGuard apiToken) (\<lambda>_.
     case apiToken of None \<Rightarrow> throw (JsError ''TypeError'') | Some p \<Rightarrow> onWorld (handler (tk_tokenId p))))"

definition public_tasks where
  "public_tasks auth isUUID projectId key limit = machineRead auth isUUID projectId key
     (andThen (pageSize limit) (\<lambda>n. task_findAllForProject projectId (Some n)))"

definition public_task where
  "public_task auth isUUID projectId taskId key = machineRead auth isUUID projectId key
     (task_findByIdForProject taskId projectId)"

definition public_createTask where
  "public_createTask auth isUUID gap projectId dto key = machineWrite auth isUUID projectId key
     (\<lambda>tokenId. task_createForMachine gap projectId dto tokenId)"

definition public_updateTask where
  "public_updateTask auth isUUID gap projectId taskId dto key = machineWrite auth isUUID projectId key
     (\<lambda>tokenId. task_updateForMachine gap taskId dto projectId tokenId)"

definition public_deleteTask where
  "public_deleteTask auth isUUID gap projectId taskId key = machineWrite auth isUUID projectId key
     (\<lambda>tokenId. task_removeForMachine gap taskId projectId tokenId)"

definition public_calendarEvents where
  "public_calendarEvents auth isUUID projectId key limit = machineRead auth isUUID projectId key
     (andThen (pageSize limit) (\<lambda>n. event_findAllForProject projectId (Some n)))"

definition public_calendarEvent where
  "public_calendarEvent auth isUUID projectId eventId key = machineRead auth isUUID projectId key
     (event_findByIdForProject eventId projectId)"

definition public_discoveryBlocks where
  "public_discoveryBlocks auth isUUID projectId key limit = machineRead auth isUUID projectId key
     (andThen (pageSize limit) (\<lambda>n. block_findAllForProject projectId (Some n)))"

text \<open>\<open>GET public/v1/token\<close>: the principal, with a status that is always \<open>ACTIVE\<close>.\<close>

definition public_introspect ::
  "(string \<Rightarrow> fetch_result) \<Rightarrow> (string \<Rightarrow> bool) \<Rightarrow> header \<Rightarrow> (api, token_principal \<times> string) act" where
  "public_introspect auth isUUID key = onWorld (
     andThen (token_canActivate auth isUUID None True (None, key)) (\<lambda>apiToken.
     case apiToken of None \<Rightarrow> throw (JsError ''TypeError'') | Some p \<Rightarrow> ret (p, ''ACTIVE'')))"

section \<open>Managing tokens\<close>

text \<open>
  \<open>ProjectApiTokensService\<close>. What a call to the authentication service answers is a token's
  metadata, a created token or nothing; \<open>send\<close> is the service, a function of path, method and body.
\<close>

datatype auth_body = No_body | B_create ident string token_permission int ident
  | B_revoke ident ident | B_remove ident

datatype http_method = M_GET | M_POST | M_DELETE

type_synonym 'j auth_service = "string \<Rightarrow> http_method \<Rightarrow> auth_body \<Rightarrow> (int \<times> 'j) option"

record create_token_dto =
  cto_label :: string
  cto_permission :: token_permission
  cto_expiresAt :: "millis option"

definition tokenRequest :: "'j auth_service \<Rightarrow> string \<Rightarrow> http_method \<Rightarrow> auth_body \<Rightarrow> 'j option service" where
  "tokenRequest send path method body = (case send path method body of
     None \<Rightarrow> throw (ServiceUnavailable ''Authentication service is unavailable'')
   | Some (status, json) \<Rightarrow>
       if status = 404 then throw (NotFound ''Project API token not found'')
       else if status = 409 then throw (Conflict ''Project has reached the active API token limit'')
       else if \<not> responseOk status
       then throw (ServiceUnavailable ''Authentication service could not manage the project API token'')
       else if status = 204 then ret None else ret (Some json))"

definition requireManager :: "ident \<Rightarrow> ident \<Rightarrow> unit service" where
  "requireManager projectId userId =
     andThen (assertMembership projectId userId) (\<lambda>member.
     ensure (pm_role member = OWNER \<or> pm_role member = ADMIN)
       (Forbidden ''Only project owners or admins can manage project API tokens''))"

definition assertProjectIsActive :: "ident \<Rightarrow> unit service" where
  "assertProjectIsActive projectId =
     andThen (findFirst projects (\<lambda>p. p_id p = projectId \<and> \<not> p_isArchived p)) (\<lambda>project.
     ensure (project \<noteq> None) projectNotFound)"

definition tokens_list :: "'j auth_service \<Rightarrow> ident \<Rightarrow> ident \<Rightarrow> 'j option service" where
  "tokens_list send projectId userId =
     andThen (assertMembership projectId userId) (\<lambda>_.
     tokenRequest send (''/auth/internal/projects/'' @ projectId @ ''/api-tokens'') M_GET No_body)"

text \<open>\<open>expiresAt\<close> is None when the text is no date (\<open>NaN\<close>).\<close>

definition tokens_create ::
  "'j auth_service \<Rightarrow> (world \<Rightarrow> world) \<Rightarrow> ident \<Rightarrow> ident \<Rightarrow> create_token_dto \<Rightarrow> 'j option service" where
  "tokens_create send wait projectId userId dto = withProject wait (
     andThen (requireManager projectId userId) (\<lambda>_.
     andThen (assertProjectIsActive projectId) (\<lambda>_.
     andThen dateNow (\<lambda>now.
     case cto_expiresAt dto of None \<Rightarrow> throw (BadRequest ''expiresAt must be in the next 365 days'')
     | Some expiresAt \<Rightarrow>
         if expiresAt \<le> now \<or> now + 365 * 24 * 60 * 60 * 1000 < expiresAt
         then throw (BadRequest ''expiresAt must be in the next 365 days'')
         else tokenRequest send ''/auth/internal/project-api-tokens'' M_POST
           (B_create projectId (cto_label dto) (cto_permission dto) expiresAt userId)))))"

definition tokens_revoke :: "'j auth_service \<Rightarrow> (world \<Rightarrow> world) \<Rightarrow> ident \<Rightarrow> ident \<Rightarrow> ident \<Rightarrow> 'j option service" where
  "tokens_revoke send wait projectId tokenId userId = withProject wait (
     andThen (requireManager projectId userId) (\<lambda>_.
     tokenRequest send (''/auth/internal/project-api-tokens/'' @ tokenId @ ''/revoke'') M_POST
       (B_revoke projectId userId)))"

definition tokens_remove :: "'j auth_service \<Rightarrow> (world \<Rightarrow> world) \<Rightarrow> ident \<Rightarrow> ident \<Rightarrow> ident \<Rightarrow> 'j option service" where
  "tokens_remove send wait projectId tokenId userId = withProject wait (
     andThen (requireManager projectId userId) (\<lambda>_.
     tokenRequest send (''/auth/internal/projects/'' @ projectId @ ''/api-tokens/'' @ tokenId) M_DELETE
       (B_remove userId)))"

section \<open>Who gets through\<close>

text \<open>The caller's key is that of a live token of this active project, with the permission.\<close>

definition tokenAllowed ::
  "(string \<Rightarrow> fetch_result) \<Rightarrow> (string \<Rightarrow> bool) \<Rightarrow> token_permission \<Rightarrow> world \<Rightarrow> ident \<Rightarrow> header \<Rightarrow> token_principal \<Rightarrow> bool" where
  "tokenAllowed auth isUUID required w projectId key p \<longleftrightarrow>
     (\<exists>apiKey status body. key = H_one apiKey \<and> hasPrefix ''trp_v1_'' apiKey \<and>
        auth apiKey = Fetch_response status (Some body) \<and> responseOk status \<and> introspectionOf body = Some p) \<and>
     projectId \<noteq> [] \<and> isUUID projectId \<and>
     (\<exists>r\<in>set (projects w). p_id r = tk_projectId p \<and> \<not> p_isArchived r) \<and>
     toLowerCase projectId = toLowerCase (tk_projectId p) \<and>
     (required = READ_WRITE \<longrightarrow> tk_permission p = READ_WRITE)"

lemma introspect_Inr:
  "introspectToken auth k w = (Inr p, t) \<longleftrightarrow> t = w \<and>
     (\<exists>status body. auth k = Fetch_response status (Some body) \<and> responseOk status \<and> introspectionOf body = Some p)"
  by (auto simp: introspectToken_def responseOk_def throw_Inr ret_Inr split: fetch_result.splits option.splits if_splits)

lemma reads_introspect: "reads (introspectToken auth k)"
  unfolding introspectToken_def
  by (auto simp: reads_def run_simps split: fetch_result.split option.split)

lemma reads_token: "reads (token_canActivate auth isUUID required self k)"
proof -
  obtain p h where "k = (p, h)" by (cases k)
  then show ?thesis
    unfolding token_canActivate_def
    by (auto simp: reads_iff_keeps intro!: keeps_rules reads_keeps [OF reads_introspect])
qed

lemma find_ex: "(\<exists>y. List.find P xs = Some y) \<longleftrightarrow> (\<exists>x\<in>set xs. P x)"
  using find_None_iff_all [of P xs] by auto

lemma token_Inr:
  "token_canActivate auth isUUID (Some required) False (Some projectId, key) w = (Inr r, t) \<longleftrightarrow>
     t = w \<and> (\<exists>p. r = Some p \<and> tokenAllowed auth isUUID required w projectId key p)"
proof (cases key)
  case (H_one k)
  then show ?thesis
    unfolding token_canActivate_def tokenAllowed_def H_one firstHeaderValue_def header.case option.case prod.case
    by (auto simp: andThen_Inr ensure_Inr ret_Inr introspect_Inr prisma_Inr find_ex dest: find_SomeD)
qed (auto simp: token_canActivate_def tokenAllowed_def firstHeaderValue_def success_iffs)

section \<open>The endpoints\<close>

lemma token_denied:
  assumes "\<forall>p. \<not> tokenAllowed auth isUUID required w projectId key p"
  shows "\<exists>e. token_canActivate auth isUUID (Some required) False (Some projectId, key) w = (Inl e, w)"
proof (cases "token_canActivate auth isUUID (Some required) False (Some projectId, key) w")
  case (Pair r t)
  then show ?thesis using token_Inr [of auth isUUID required projectId key w _ t] assms readsD [OF reads_token Pair]
    by (cases r) auto
qed

lemma token_passes:
  "tokenAllowed auth isUUID required w projectId key p \<Longrightarrow>
   token_canActivate auth isUUID (Some required) False (Some projectId, key) w = (Inr (Some p), w)"
  by (simp add: token_Inr)

lemma machineRead_denied:
  assumes "\<forall>p. \<not> tokenAllowed auth isUUID READ (api_world s) projectId key p"
  shows "\<exists>e. machineRead auth isUUID projectId key handler s = (Inl e, s)"
  using token_denied [OF assms] by (auto simp: machineRead_def onWorld_def andThen_run)

lemma machineWrite_denied:
  assumes "\<forall>p. \<not> tokenAllowed auth isUUID READ_WRITE (api_world s) projectId key p"
  shows "\<exists>e. machineWrite auth isUUID projectId key handler s = (Inl e, s)"
  using token_denied [OF assms] by (auto simp: machineWrite_def onWorld_def andThen_run)

text \<open>What a write with a valid token does: the limiter, then the service in the token's name.\<close>

definition limitedWrite :: "token_principal \<Rightarrow> (ident \<Rightarrow> 'a service) \<Rightarrow> (api, 'a) act" where
  "limitedWrite p handler s =
     (case limit_canActivate (clock (api_world s)) (tk_tokenId p) (api_limiter s) of
        (Inl e, l) \<Rightarrow> (Inl e, s\<lparr>api_limiter := l\<rparr>)
      | (Inr _, l) \<Rightarrow> (case handler (tk_tokenId p) (api_world s) of
          (r, w) \<Rightarrow> (r, s\<lparr>api_world := w, api_limiter := l\<rparr>)))"

lemma machineWrite_allowed:
  assumes "tokenAllowed auth isUUID READ_WRITE (api_world s) projectId key p"
  shows "machineWrite auth isUUID projectId key handler s = limitedWrite p handler s"
  using token_passes [OF assms]
  by (auto simp: machineWrite_def limitedWrite_def onWorld_def andThen_run limiterGuard_def
      split: prod.split sum.split)

lemma machineRead_allowed:
  assumes "tokenAllowed auth isUUID READ (api_world s) projectId key p"
  shows "machineRead auth isUUID projectId key handler s = onWorld handler s"
  using token_passes [OF assms] by (auto simp: machineRead_def onWorld_def andThen_run)

text \<open>The key of a valid token on a project that is not its own, or is gone.\<close>

lemma foreign_project:
  assumes "hasPrefix ''trp_v1_'' apiKey" "auth apiKey = Fetch_response status (Some body)" "responseOk status"
    "introspectionOf body = Some p" "projectId \<noteq> []" "isUUID projectId"
    and "toLowerCase projectId \<noteq> toLowerCase (tk_projectId p) \<or>
      \<not> (\<exists>r\<in>set (projects w). p_id r = tk_projectId p \<and> \<not> p_isArchived r)"
  shows "token_canActivate auth isUUID (Some required) False (Some projectId, H_one apiKey) w = (Inl projectNotFound, w)"
proof -
  have i: "introspectToken auth apiKey w = (Inr p, w)" using assms by (simp add: introspect_Inr)
  show ?thesis
    using assms(1,5-7) i
    by (auto simp: token_canActivate_def firstHeaderValue_def run_simps find_None_iff_all split: option.split dest: find_SomeD)
qed


text \<open>A read-only token of project \<open>p\<close>: it reads \<open>p\<close>, gets not found for \<open>q\<close> and cannot write.\<close>

definition readToken :: "string \<Rightarrow> fetch_result" where
  "readToken apiKey = Fetch_response 200 (Some (\<lambda>k.
     if k = ''active'' then J_bool True else if k = ''principalType'' then J_string ''PROJECT_API_TOKEN''
     else if k = ''permission'' then J_string ''READ'' else if k = ''projectId'' then J_string ''p''
     else J_string ''x''))"

definition readHolder :: token_principal where
  "readHolder = \<lparr>tk_tokenId = ''x'', tk_projectId = ''p'', tk_label = ''x'', tk_permission = READ,
     tk_expiresAt = ''x'', tk_lastUsedAt = ''x''\<rparr>"

definition tokenState :: api where
  "tokenState = \<lparr>api_world = calWorld, api_limiter = emptyLimiter\<rparr>"


end
