(* ===== verification/Vault.thy ===== *)
theory Vault
  imports JsText "HOL-Library.Word"
begin

unbundle bit_operations_syntax

text \<open>
  The backend's secrets: \<open>VaultRuntimeService\<close> (\<open>backend/src/vault/vault-runtime.service.ts\<close>) with
  \<open>VaultClient\<close> (\<open>vault.client.ts\<close>), the Prisma client that is reopened with each new database
  login (\<open>backend/src/prisma/prisma.service.ts\<close>) and \<open>VaultReadinessGuard\<close>
  (\<open>backend/src/auth/vault-readiness.guard.ts\<close>). One state holds the fields of both services and the
  clock. What a call to the Vault server or to the database answers is an argument: how long it
  takes, whether the module is destroyed meanwhile, and the error or the response, whose fields
  have the types the code declares for them. Durations are whole milliseconds, exact as doubles.
\<close>

section \<open>Answers from outside\<close>

datatype 'r reply = Reply (elapsed: nat) (destroyed: bool) (answer: "exn + 'r")

fun mapReply :: "('r \<Rightarrow> exn + 'q) \<Rightarrow> 'r reply \<Rightarrow> 'q reply" where
  "mapReply f (Reply d st (Inl e)) = Reply d st (Inl e)"
| "mapReply f (Reply d st (Inr r)) = Reply d st (f r)"

record lease_answer =
  la_client_token :: "string option"
  la_lease_duration :: "int option"
  la_renewable :: bool

record database_answer =
  da_lease_id :: "string option"
  da_lease_duration :: "int option"
  da_renewable :: bool
  da_username :: "string option"
  da_password :: "string option"

record credentials =
  cr_username :: string
  cr_password :: string
  cr_leaseId :: string
  cr_leaseDurationMs :: int

text \<open>A missing or empty string is falsy.\<close>

definition given :: "string option \<Rightarrow> bool" where
  "given s \<longleftrightarrow> s \<noteq> None \<and> s \<noteq> Some []"

definition isPositiveNumber :: "int option \<Rightarrow> bool" where
  "isPositiveNumber v = (case v of None \<Rightarrow> False | Some n \<Rightarrow> 0 < n)"

section \<open>VaultClient\<close>

definition loginAnswer :: "lease_answer option \<Rightarrow> exn + (string \<times> int)" where
  "loginAnswer auth = (case auth of None \<Rightarrow> Inl (JsError ''Vault AppRole login returned an unusable token'')
     | Some a \<Rightarrow> if \<not> given (la_client_token a) \<or> \<not> la_renewable a \<or> \<not> isPositiveNumber (la_lease_duration a)
         then Inl (JsError ''Vault AppRole login returned an unusable token'')
         else Inr (the (la_client_token a), the (la_lease_duration a) * 1000))"

definition renewTokenAnswer :: "lease_answer option \<Rightarrow> exn + int" where
  "renewTokenAnswer auth = (case auth of None \<Rightarrow> Inl (JsError ''Vault token renewal returned an unusable token'')
     | Some a \<Rightarrow> if \<not> la_renewable a \<or> \<not> isPositiveNumber (la_lease_duration a)
         then Inl (JsError ''Vault token renewal returned an unusable token'')
         else Inr (the (la_lease_duration a) * 1000))"

definition readInternalTokenAnswer :: "string option \<Rightarrow> exn + string" where
  "readInternalTokenAnswer token = (if \<not> given token \<or> length (the token) < 32
     then Inl (JsError ''Vault internal credential must be at least 32 characters'') else Inr (the token))"

definition parseDatabaseCredentials :: "database_answer \<Rightarrow> bool \<Rightarrow> exn + credentials" where
  "parseDatabaseCredentials r requireCredentials =
     (if \<not> given (da_lease_id r) \<or> \<not> da_renewable r \<or> \<not> isPositiveNumber (da_lease_duration r) \<or>
        (requireCredentials \<and> (\<not> given (da_username r) \<or> \<not> given (da_password r)))
      then Inl (JsError ''Vault database credentials response is incomplete'')
      else Inr \<lparr>cr_username = case_option [] id (da_username r), cr_password = case_option [] id (da_password r),
        cr_leaseId = the (da_lease_id r), cr_leaseDurationMs = the (da_lease_duration r) * 1000\<rparr>)"

definition issueAnswer :: "database_answer \<Rightarrow> exn + credentials" where
  "issueAnswer r = parseDatabaseCredentials r True"

definition renewDatabaseAnswer :: "credentials \<Rightarrow> database_answer \<Rightarrow> exn + credentials" where
  "renewDatabaseAnswer current r = (case parseDatabaseCredentials r False of
     Inl e \<Rightarrow> Inl e
   | Inr renewed \<Rightarrow> if cr_leaseId renewed \<noteq> cr_leaseId current
       then Inl (JsError ''Vault renewed an unexpected database lease'')
       else Inr (renewed\<lparr>cr_username := cr_username current, cr_password := cr_password current\<rparr>))"

fun vaultErrorStatusCode :: "exn \<Rightarrow> int option" where
  "vaultErrorStatusCode (RemoteError m status errors) = status"
| "vaultErrorStatusCode _ = None"

fun vaultErrorMessages :: "exn \<Rightarrow> string list" where
  "vaultErrorMessages (RemoteError m status errors) = errors"
| "vaultErrorMessages _ = []"

definition isVaultAuthorizationError :: "exn \<Rightarrow> bool" where
  "isVaultAuthorizationError e \<longleftrightarrow>
     vaultErrorStatusCode e = Some 401 \<or> vaultErrorStatusCode e = Some 403"

text \<open>
  The patterns \<open>lease.*maximum.*ttl\<close> and \<open>maximum.*ttl.*lease\<close> without regard to case: the words
  occur in this order, without overlap, on one line of the text.
\<close>

fun afterWord :: "string \<Rightarrow> string \<Rightarrow> string option" where
  "afterWord w [] = (if w = [] then Some [] else None)"
| "afterWord w (c # s) = (if hasPrefix w (c # s) then Some (drop (length w) (c # s)) else afterWord w s)"

fun wordsInOrder :: "string list \<Rightarrow> string \<Rightarrow> bool" where
  "wordsInOrder [] s \<longleftrightarrow> True"
| "wordsInOrder (w # ws) s \<longleftrightarrow> (case afterWord w s of None \<Rightarrow> False | Some rest \<Rightarrow> wordsInOrder ws rest)"

fun textLines :: "string \<Rightarrow> string list" where
  "textLines [] = [[]]"
| "textLines (c # s) = (case textLines s of [] \<Rightarrow> [[c]]
     | l # ls \<Rightarrow> if (of_char c :: nat) = 10 \<or> (of_char c :: nat) = 13 then [] # l # ls else (c # l) # ls)"

definition isVaultLeaseRenewalLimit :: "exn \<Rightarrow> bool" where
  "isVaultLeaseRenewalLimit e \<longleftrightarrow> vaultErrorStatusCode e = Some 400 \<and>
     list_ex (\<lambda>message. list_ex (\<lambda>l. wordsInOrder [''lease'', ''maximum'', ''ttl''] l \<or>
         wordsInOrder [''maximum'', ''ttl'', ''lease''] l) (textLines (toLowerCase message)))
       (vaultErrorMessages e)"

section \<open>The state of the two services\<close>

text \<open>
  \<open>va_client\<close> is the login of the open Prisma client, \<open>va_draining\<close> the logins of the replaced ones
  that still drain, with the time they are closed; \<open>va_refreshing\<close> says that Prisma's refresher is
  registered; \<open>va_renewal\<close> is the time the armed timer fires; \<open>va_fatal\<close> is the reason the fatal
  promise is rejected with, if it is; \<open>va_started\<close> is the cached result of \<open>start\<close>.
\<close>

record vault =
  va_ready :: bool
  va_stopped :: bool
  va_tokenExpiresAt :: int
  va_databaseExpiresAt :: int
  va_databaseCredentials :: "credentials option"
  va_internalToken :: "string option"
  va_roleId :: "string option"
  va_secretId :: "string option"
  va_clientToken :: "string option"
  va_renewal :: "int option"
  va_fatal :: "string option"
  va_started :: "(exn + credentials) option"
  va_client :: "(string \<times> string) option"
  va_draining :: "((string \<times> string) \<times> int) list"
  va_refreshing :: bool
  va_now :: int

type_synonym 'a vault_act = "(vault, 'a) act"

definition renewalSafetyMarginMs :: int where "renewalSafetyMarginMs = 60000"
definition retryIntervalMs :: int where "retryIntervalMs = 15000"
definition poolDrainTimeoutMs :: int where "poolDrainTimeoutMs = 30000"

definition leaseEnd :: "vault \<Rightarrow> int" where
  "leaseEnd s = min (va_tokenExpiresAt s) (va_databaseExpiresAt s)"

text \<open>
  Time goes by: replaced clients are closed when their drain time is over. \<open>onModuleDestroy\<close> of both
  services stops the timers and the refresher.
\<close>

definition passTime :: "nat \<Rightarrow> vault \<Rightarrow> vault" where
  "passTime d s = s\<lparr>va_now := va_now s + int d,
     va_draining := filter (\<lambda>(c, due). va_now s + int d < due) (va_draining s)\<rparr>"

definition onModuleDestroy :: "vault \<Rightarrow> vault" where
  "onModuleDestroy s = s\<lparr>va_stopped := True, va_renewal := None, va_refreshing := False, va_draining := []\<rparr>"

definition meanwhile :: "nat \<Rightarrow> bool \<Rightarrow> vault \<Rightarrow> vault" where
  "meanwhile d st s = (if st then onModuleDestroy (passTime d s) else passTime d s)"

definition awaitReply :: "'r reply \<Rightarrow> 'r vault_act" where
  "awaitReply r = (\<lambda>s. (answer r, meanwhile (elapsed r) (destroyed r) s))"

text \<open>
  \<open>Promise.all\<close> of two calls: it ends with the later answer, or with the first rejection.
\<close>

definition awaitBoth :: "'p reply \<Rightarrow> 'q reply \<Rightarrow> ('p \<times> 'q) vault_act" where
  "awaitBoth p q = (\<lambda>s. case (answer p, answer q) of
     (Inr a, Inr b) \<Rightarrow> (Inr (a, b), meanwhile (max (elapsed p) (elapsed q)) (destroyed p \<or> destroyed q) s)
   | (Inl e, Inr _) \<Rightarrow> (Inl e, meanwhile (elapsed p) (destroyed p) s)
   | (Inr _, Inl e) \<Rightarrow> (Inl e, meanwhile (elapsed q) (destroyed q) s)
   | (Inl e, Inl e') \<Rightarrow> (if elapsed p \<le> elapsed q then (Inl e, meanwhile (elapsed p) (destroyed p) s)
       else (Inl e', meanwhile (elapsed q) (destroyed q) s)))"

section \<open>VaultRuntimeService\<close>

definition isReady :: "vault \<Rightarrow> bool" where
  "isReady s \<longleftrightarrow> va_ready s"

definition getInternalToken :: "string vault_act" where
  "getInternalToken = (\<lambda>s. (if \<not> va_ready s \<or> \<not> given (va_internalToken s)
     then Inl (JsError ''Vault runtime is not ready'') else Inr (the (va_internalToken s)), s))"

definition vault_login :: "(lease_answer option) reply \<Rightarrow> int vault_act" where
  "vault_login r = andThen (awaitReply (mapReply loginAnswer r)) (\<lambda>(token, ms).
     andThen (modify (\<lambda>s. s\<lparr>va_clientToken := Some token\<rparr>)) (\<lambda>_. ret ms))"

text \<open>A file's mode and text; the mode is what the bit operators read of it, 32 bits; \<open>0o077\<close> is \<open>0x3F\<close>.\<close>

definition readProtectedIDFile :: "string \<Rightarrow> 32 word \<times> string \<Rightarrow> exn + string" where
  "readProtectedIDFile label = (\<lambda>(mode, text).
     if mode AND 0x3F \<noteq> 0 then Inl (JsError (''Vault '' @ label @ '' file permissions are too broad''))
     else if trim text = [] then Inl (JsError (''Vault '' @ label @ '' file is empty''))
     else Inr (trim text))"

definition scheduleRenewal :: "unit vault_act" where
  "scheduleRenewal = (\<lambda>s. if va_stopped s \<or> \<not> va_ready s then (Inr (), s)
     else (Inr (), s\<lparr>va_renewal := Some (va_now s + max 0 (leaseEnd s - va_now s - renewalSafetyMarginMs))\<rparr>))"

text \<open>What the calls of one start of the module answer.\<close>

record start_replies =
  sr_roleFile :: "(32 word \<times> string) reply"
  sr_secretFile :: "(32 word \<times> string) reply"
  sr_login :: "(lease_answer option) reply"
  sr_internalToken :: "(string option) reply"
  sr_issue :: "database_answer reply"
  sr_connect :: "unit reply"

definition initialize :: "start_replies \<Rightarrow> credentials vault_act" where
  "initialize rs =
     andThen (awaitBoth (mapReply (readProtectedIDFile ''Role ID'') (sr_roleFile rs))
       (mapReply (readProtectedIDFile ''Secret ID'') (sr_secretFile rs))) (\<lambda>(roleId, secretId).
     andThen (vault_login (sr_login rs)) (\<lambda>tokenMs.
     andThen (awaitBoth (mapReply readInternalTokenAnswer (sr_internalToken rs))
       (mapReply issueAnswer (sr_issue rs))) (\<lambda>(internalToken, issued).
     andThen (modify (\<lambda>s. s\<lparr>va_internalToken := Some internalToken, va_roleId := Some roleId,
       va_secretId := Some secretId, va_databaseCredentials := Some issued,
       va_tokenExpiresAt := va_now s + tokenMs,
       va_databaseExpiresAt := va_now s + cr_leaseDurationMs issued, va_ready := True\<rparr>)) (\<lambda>_.
     andThen scheduleRenewal (\<lambda>_. ret issued)))))"

text \<open>\<open>start\<close> runs \<open>initialize\<close> once and keeps its promise.\<close>

definition vault_start :: "start_replies \<Rightarrow> credentials vault_act" where
  "vault_start rs = (\<lambda>s. case va_started s of Some r \<Rightarrow> (r, s)
     | None \<Rightarrow> (case initialize rs s of (r, t) \<Rightarrow> (r, t\<lparr>va_started := Some r\<rparr>)))"

text \<open>\<open>error.message\<close>; every error here is an \<open>Error\<close>.\<close>

fun errorMessage :: "exn \<Rightarrow> string" where
  "errorMessage (RemoteError m _ _) = m"
| "errorMessage (JsError m) = m"
| "errorMessage (PrismaError m) = m"
| "errorMessage (BadRequest m) = m"
| "errorMessage (Forbidden m) = m"
| "errorMessage (NotFound m) = m"
| "errorMessage (Conflict m) = m"
| "errorMessage (Unauthorized m) = m"
| "errorMessage (ServiceUnavailable m) = m"
| "errorMessage (TooManyRequests m) = m"
| "errorMessage (PayloadTooLarge m) = m"
| "errorMessage FieldLockLeaseError = ''The field lock is no longer valid''"

definition vault_fail :: "exn \<Rightarrow> unit vault_act" where
  "vault_fail e = (\<lambda>s. if va_stopped s \<or> \<not> va_ready s then (Inr (), s)
     else (Inr (), s\<lparr>va_ready := False, va_fatal := Some (''Vault runtime failed closed: '' @ errorMessage e)\<rparr>))"

section \<open>PrismaService\<close>

definition loginOf :: "credentials \<Rightarrow> string \<times> string" where
  "loginOf c = (cr_username c, cr_password c)"

definition currentClient :: "(string \<times> string) vault_act" where
  "currentClient = (\<lambda>s. (case va_client s of None \<Rightarrow> Inl (JsError ''Prisma client is unavailable'')
     | Some c \<Rightarrow> Inr c, s))"

definition replaceClient :: "unit reply \<Rightarrow> credentials \<Rightarrow> unit vault_act" where
  "replaceClient connect c = andThen (awaitReply connect) (\<lambda>_.
     modify (\<lambda>s. s\<lparr>va_client := Some (loginOf c),
       va_draining := (case va_client s of None \<Rightarrow> va_draining s
         | Some old \<Rightarrow> va_draining s @ [(old, va_now s + poolDrainTimeoutMs)])\<rparr>))"

definition onModuleInit :: "start_replies \<Rightarrow> unit vault_act" where
  "onModuleInit rs = andThen (vault_start rs) (\<lambda>c.
     andThen (replaceClient (sr_connect rs) c) (\<lambda>_.
     modify (\<lambda>s. s\<lparr>va_refreshing := True\<rparr>)))"

section \<open>Renewal\<close>

text \<open>What the calls of one renewal answer; a renewal makes each call at most once.\<close>

record renewal_replies =
  rr_renewToken :: "(lease_answer option) reply"
  rr_login :: "(lease_answer option) reply"
  rr_renewDatabase :: "database_answer reply"
  rr_issue :: "database_answer reply"
  rr_connect :: "unit reply"

definition refreshDatabase :: "unit reply \<Rightarrow> credentials \<Rightarrow> unit vault_act" where
  "refreshDatabase connect c = (\<lambda>s. if va_refreshing s then replaceClient connect c s else (Inr (), s))"

definition storeCredentials :: "credentials \<Rightarrow> vault \<Rightarrow> vault" where
  "storeCredentials c s = s\<lparr>va_databaseCredentials := Some c,
     va_databaseExpiresAt := va_now s + cr_leaseDurationMs c\<rparr>"

definition reauthenticate :: "renewal_replies \<Rightarrow> unit vault_act" where
  "reauthenticate rs = (\<lambda>s. if \<not> given (va_roleId s) \<or> \<not> given (va_secretId s)
     then (Inl (JsError ''Vault runtime has no AppRole credentials''), s)
     else andThen (vault_login (rr_login rs)) (\<lambda>tokenMs.
       andThen (awaitReply (mapReply issueAnswer (rr_issue rs))) (\<lambda>c.
       andThen (refreshDatabase (rr_connect rs) c) (\<lambda>_.
       andThen (modify (\<lambda>s. storeCredentials c (s\<lparr>va_tokenExpiresAt := va_now s + tokenMs\<rparr>))) (\<lambda>_.
       scheduleRenewal)))) s)"

definition renewCredentials :: "renewal_replies \<Rightarrow> credentials \<Rightarrow> credentials vault_act" where
  "renewCredentials rs current =
     catching (awaitReply (mapReply (renewDatabaseAnswer current) (rr_renewDatabase rs)))
       (\<lambda>e. if isVaultLeaseRenewalLimit e then awaitReply (mapReply issueAnswer (rr_issue rs)) else throw e)"

definition renewLeases :: "renewal_replies \<Rightarrow> int \<Rightarrow> unit vault_act" where
  "renewLeases rs tokenMs =
     andThen (modify (\<lambda>s. s\<lparr>va_tokenExpiresAt := va_now s + tokenMs\<rparr>)) (\<lambda>_.
     andThen (gets va_databaseCredentials) (\<lambda>held. case held of
       None \<Rightarrow> throw (JsError ''Vault runtime has no database credentials'')
     | Some current \<Rightarrow>
         andThen (renewCredentials rs current) (\<lambda>c.
         andThen (refreshDatabase (rr_connect rs) c) (\<lambda>_.
         andThen (modify (storeCredentials c)) (\<lambda>_.
         scheduleRenewal)))))"

definition renewOrReauthenticate :: "renewal_replies \<Rightarrow> unit vault_act" where
  "renewOrReauthenticate rs = (\<lambda>s. case awaitReply (mapReply renewTokenAnswer (rr_renewToken rs)) s of
     (Inl _, t) \<Rightarrow> reauthenticate rs t | (Inr tokenMs, t) \<Rightarrow> renewLeases rs tokenMs t)"

definition renewalFailed :: "exn \<Rightarrow> unit vault_act" where
  "renewalFailed e = (\<lambda>s. if isVaultAuthorizationError e \<or> leaseEnd s - va_now s \<le> renewalSafetyMarginMs
     then vault_fail e s else (Inr (), s\<lparr>va_renewal := Some (va_now s + retryIntervalMs)\<rparr>))"

text \<open>The armed timer has fired when \<open>renew\<close> runs.\<close>

definition vault_renew :: "renewal_replies \<Rightarrow> unit vault_act" where
  "vault_renew rs = (\<lambda>s. catching (renewOrReauthenticate rs) renewalFailed (s\<lparr>va_renewal := None\<rparr>))"

section \<open>VaultReadinessGuard\<close>

definition vaultUnavailable :: exn where
  "vaultUnavailable = ServiceUnavailable ''Vault runtime is unavailable''"

definition readiness_canActivate :: "bool \<Rightarrow> vault \<Rightarrow> exn + unit" where
  "readiness_canActivate isPublic s = (if isPublic \<or> isReady s then Inr () else Inl vaultUnavailable)"

section \<open>The life of the service\<close>

definition vaultBoot :: vault where
  "vaultBoot = \<lparr>va_ready = False, va_stopped = False, va_tokenExpiresAt = 0, va_databaseExpiresAt = 0,
     va_databaseCredentials = None, va_internalToken = None, va_roleId = None, va_secretId = None,
     va_clientToken = None, va_renewal = None, va_fatal = None, va_started = None, va_client = None,
     va_draining = [], va_refreshing = False, va_now = 0\<rparr>"

text \<open>
  What the development relies on of the Vault server: a lease it grants lasts at least two minutes,
  and the calls a renewal makes after the token is renewed take at most one minute together.
\<close>

definition longLease :: "(lease_answer option) reply \<Rightarrow> bool" where
  "longLease r \<longleftrightarrow> (case answer r of Inr (Some a) \<Rightarrow> (case la_lease_duration a of None \<Rightarrow> True | Some n \<Rightarrow> 120 \<le> n) | _ \<Rightarrow> True)"

definition longDatabaseLease :: "database_answer reply \<Rightarrow> bool" where
  "longDatabaseLease r \<longleftrightarrow> (case answer r of Inr a \<Rightarrow> (case da_lease_duration a of None \<Rightarrow> True | Some n \<Rightarrow> 120 \<le> n) | _ \<Rightarrow> True)"

definition promptStart :: "start_replies \<Rightarrow> bool" where
  "promptStart rs \<longleftrightarrow> longLease (sr_login rs) \<and> longDatabaseLease (sr_issue rs)"

definition promptRenewal :: "renewal_replies \<Rightarrow> bool" where
  "promptRenewal rs \<longleftrightarrow> longLease (rr_renewToken rs) \<and> longLease (rr_login rs) \<and>
     longDatabaseLease (rr_renewDatabase rs) \<and> longDatabaseLease (rr_issue rs) \<and>
     elapsed (rr_renewDatabase rs) + elapsed (rr_issue rs) + elapsed (rr_connect rs) \<le> 60000"

text \<open>
  One step: the module starts, its timer fires at its time or later, time goes by, the module is
  destroyed.
\<close>

inductive vault_step :: "vault \<Rightarrow> vault \<Rightarrow> bool" where
  starts: "va_started s = None \<Longrightarrow> promptStart rs \<Longrightarrow> vault_step s (snd (onModuleInit rs s))"
| fires: "va_renewal s = Some due \<Longrightarrow> due \<le> va_now s \<Longrightarrow> promptRenewal rs \<Longrightarrow> vault_step s (snd (vault_renew rs s))"
| passes: "vault_step s (passTime d s)"
| stops: "vault_step s (onModuleDestroy s)"

inductive vault_run :: "vault \<Rightarrow> vault \<Rightarrow> bool" where
  stay: "vault_run s s"
| more: "vault_run s t \<Longrightarrow> vault_step t u \<Longrightarrow> vault_run s u"

section \<open>Rules for runs\<close>

text \<open>\<open>ends P m Q E\<close>: from \<open>P\<close>, a success ends in \<open>Q\<close> of its value and an error in \<open>E\<close>.\<close>

definition ends :: "(vault \<Rightarrow> bool) \<Rightarrow> 'a vault_act \<Rightarrow> ('a \<Rightarrow> vault \<Rightarrow> bool) \<Rightarrow> (vault \<Rightarrow> bool) \<Rightarrow> bool" where
  "ends P m Q E \<longleftrightarrow> (\<forall>s. P s \<longrightarrow> (case m s of (Inr a, t) \<Rightarrow> Q a t | (Inl e, t) \<Rightarrow> E t))"

lemma ends_andThen: "ends P m Q E \<Longrightarrow> (\<And>a. ends (Q a) (f a) R E) \<Longrightarrow> ends P (andThen m f) R E"
  by (fastforce simp: ends_def andThen_run split: prod.splits sum.splits)

lemma ends_modify: "(\<And>s. P s \<Longrightarrow> Q () (f s)) \<Longrightarrow> ends P (modify f) Q E"
  by (simp add: ends_def run_simps)

lemma ends_ret: "(\<And>s. P s \<Longrightarrow> Q a s) \<Longrightarrow> ends P (ret a) Q E"
  by (simp add: ends_def run_simps)

lemma ends_pre: "ends P m Q E \<Longrightarrow> (\<And>s. P' s \<Longrightarrow> P s) \<Longrightarrow> ends P' m Q E"
  by (simp add: ends_def)

lemma ends_when: "(G \<Longrightarrow> ends P m Q E) \<Longrightarrow> ends (\<lambda>s. P s \<and> G) m Q E"
  by (simp add: ends_def)

lemma ends_catching:
  "ends P m Q E \<Longrightarrow> (\<And>e. ends E (h e) Q F) \<Longrightarrow> ends P (catching m h) Q F"
  by (fastforce simp: ends_def catching_run split: prod.splits sum.splits)

lemma ends_await:
  "(\<And>s a. P s \<Longrightarrow> answer r = Inr a \<Longrightarrow> Q a (meanwhile (elapsed r) (destroyed r) s)) \<Longrightarrow>
   (\<And>s. P s \<Longrightarrow> E (meanwhile (elapsed r) (destroyed r) s)) \<Longrightarrow> ends P (awaitReply r) Q E"
  by (auto simp: ends_def awaitReply_def split: sum.split)

lemma ends_snd: "ends P m (\<lambda>_. Q) Q \<Longrightarrow> P s \<Longrightarrow> Q (snd (m s))"
  by (cases "m s") (auto simp: ends_def split: sum.splits dest: spec [of _ s])

lemma mapReply_simps [simp]:
  "elapsed (mapReply f r) = elapsed r" "destroyed (mapReply f r) = destroyed r"
  "answer (mapReply f r) = Inr y \<longleftrightarrow> (\<exists>x. answer r = Inr x \<and> f x = Inr y)"
  by (cases "(f, r)" rule: mapReply.cases; auto)+

text \<open>
  While a renewal is in flight: the service is up, its timer is not armed, the open client has the
  login it is said to have; the clock is at most \<open>n\<close> and the token lasts at least until \<open>m\<close>.
\<close>

definition inFlight :: "(string \<times> string) option \<Rightarrow> int \<Rightarrow> int \<Rightarrow> vault \<Rightarrow> bool" where
  "inFlight l n m s \<longleftrightarrow> va_ready s \<and> va_fatal s = None \<and> va_started s \<noteq> None \<and>
     va_renewal s = None \<and>
     (\<exists>token. va_internalToken s = Some token \<and> 32 \<le> length token) \<and>
     va_databaseCredentials s \<noteq> None \<and>
     (va_refreshing s \<longrightarrow> va_client s = (case l of None \<Rightarrow> map_option loginOf (va_databaseCredentials s) | Some c \<Rightarrow> Some c)) \<and>
     va_now s \<le> n \<and> m \<le> va_tokenExpiresAt s"

text \<open>Between the steps.\<close>

definition vaultOk :: "vault \<Rightarrow> bool" where
  "vaultOk s \<longleftrightarrow>
     (va_started s = None \<longrightarrow> \<not> va_ready s \<and> va_fatal s = None \<and> \<not> va_refreshing s) \<and>
     (va_fatal s \<noteq> None \<longrightarrow> \<not> va_ready s) \<and> (va_renewal s \<noteq> None \<longrightarrow> va_ready s) \<and>
     (va_ready s \<longrightarrow> (\<exists>token. va_internalToken s = Some token \<and> 32 \<le> length token) \<and>
        va_databaseCredentials s \<noteq> None \<and>
        (va_refreshing s \<longrightarrow> va_client s = map_option loginOf (va_databaseCredentials s)) \<and>
        (\<not> va_stopped s \<longrightarrow> (\<exists>due. va_renewal s = Some due \<and> due + 45000 \<le> leaseEnd s)))"

lemmas time_defs = meanwhile_def passTime_def onModuleDestroy_def

lemma inFlight_meanwhile: "inFlight l n m s \<Longrightarrow> inFlight l (n + int d) m (meanwhile d st s)"
  by (cases l) (auto simp: inFlight_def time_defs)

lemma inFlight_later: "inFlight l n m s \<Longrightarrow> n \<le> n' \<Longrightarrow> m' \<le> m \<Longrightarrow> inFlight l n' m' s"
  by (auto simp: inFlight_def)

lemma vaultOk_failed: "inFlight None n m s \<Longrightarrow> vaultOk (snd (renewalFailed e s))"
  by (auto simp: inFlight_def renewalFailed_def vault_fail_def vaultOk_def renewalSafetyMarginMs_def
      retryIntervalMs_def leaseEnd_def)

lemma vaultOk_scheduled:
  assumes "inFlight None n m s" and "n + 60000 \<le> m" and "n + 60000 \<le> va_databaseExpiresAt s"
  shows "vaultOk (snd (scheduleRenewal s))"
  using assms by (auto simp: inFlight_def scheduleRenewal_def vaultOk_def renewalSafetyMarginMs_def leaseEnd_def)

lemma isPositiveNumber_None [simp]: "\<not> isPositiveNumber None"
  by (simp add: isPositiveNumber_def)

definition inFlightSome :: "vault \<Rightarrow> bool" where
  "inFlightSome s \<longleftrightarrow> (\<exists>n m. inFlight None n m s)"

lemma inFlight_clientToken [simp]: "inFlight l n m (s\<lparr>va_clientToken := t\<rparr>) = inFlight l n m s"
  by (cases l) (simp_all add: inFlight_def)

lemma inFlight_client:
  "inFlight None n m s \<Longrightarrow> inFlight (Some c) n m (s\<lparr>va_client := Some c, va_draining := ds\<rparr>)"
  by (auto simp: inFlight_def)

lemma ends_await_flight:
  assumes "\<And>a. answer r = Inr a \<Longrightarrow> G a"
  shows "ends (inFlight None n m) (awaitReply r) (\<lambda>a s. inFlight None (n + int (elapsed r)) m s \<and> G a) inFlightSome"
  using assms unfolding inFlightSome_def by (intro ends_await) (auto intro: inFlight_meanwhile)

lemma ends_login:
  assumes "longLease r"
  shows "ends (inFlight None n m) (vault_login r)
    (\<lambda>ms s. inFlight None (n + int (elapsed r)) m s \<and> 120000 \<le> ms) inFlightSome"
proof -
  have long: "120000 \<le> snd a" if "answer (mapReply loginAnswer r) = Inr a" for a
    using that assms by (auto simp: loginAnswer_def longLease_def split: option.splits if_splits)
  have first: "ends (inFlight None n m) (awaitReply (mapReply loginAnswer r))
      (\<lambda>a s. inFlight None (n + int (elapsed r)) m s \<and> 120000 \<le> snd a) inFlightSome"
    using ends_await_flight [of "mapReply loginAnswer r" "\<lambda>a. 120000 \<le> snd a" n m] long by simp
  show ?thesis
    unfolding vault_login_def
  proof (rule ends_andThen [OF first], rule ends_when)
    fix a :: "string \<times> int" assume "120000 \<le> snd a"
    then show "ends (inFlight None (n + int (elapsed r)) m)
       (case a of (token, ms) \<Rightarrow> andThen (modify (\<lambda>s. s\<lparr>va_clientToken := Some token\<rparr>)) (\<lambda>_. ret ms))
       (\<lambda>ms s. inFlight None (n + int (elapsed r)) m s \<and> 120000 \<le> ms) inFlightSome"
      by (cases a)
         (auto intro!: ends_andThen [where Q = "\<lambda>_. inFlight None (n + int (elapsed r)) m"] ends_modify ends_ret)
  qed
qed

lemma ends_refresh:
  "ends (inFlight None n m) (refreshDatabase r c)
     (\<lambda>_. inFlight (Some (loginOf c)) (n + int (elapsed r)) m) inFlightSome"
proof -
  have *: "ends (inFlight None n m) (replaceClient r c)
     (\<lambda>_. inFlight (Some (loginOf c)) (n + int (elapsed r)) m) inFlightSome"
    unfolding replaceClient_def
    by (rule ends_andThen [OF ends_await_flight [where G = "\<lambda>_. True"]])
       (auto intro!: ends_modify inFlight_client)
  have "inFlight (Some (loginOf c)) (n + int (elapsed r)) m s" if "inFlight None n m s" "\<not> va_refreshing s" for s
    using that by (auto simp: inFlight_def)
  with * show ?thesis by (auto simp: ends_def refreshDatabase_def)
qed

lemma inFlight_store:
  "inFlight (Some (loginOf c)) n m s \<Longrightarrow> inFlight None n m (storeCredentials c s)"
  by (auto simp: inFlight_def storeCredentials_def)

lemma issue_long: "longDatabaseLease r \<Longrightarrow> answer (mapReply issueAnswer r) = Inr c \<Longrightarrow> 120000 \<le> cr_leaseDurationMs c"
  by (auto simp: issueAnswer_def parseDatabaseCredentials_def longDatabaseLease_def split: if_splits option.splits)

lemma renewDatabase_long:
  "longDatabaseLease r \<Longrightarrow> answer (mapReply (renewDatabaseAnswer c0) r) = Inr c \<Longrightarrow> 120000 \<le> cr_leaseDurationMs c"
  by (auto simp: renewDatabaseAnswer_def parseDatabaseCredentials_def longDatabaseLease_def
      split: if_splits option.splits sum.splits)

text \<open>Storing the credentials and arming the timer, with both leases long.\<close>

lemma ends_scheduled:
  assumes "\<And>s. P s \<Longrightarrow> inFlight None (va_now (f s)) (va_now (f s) + 60000) (f s) \<and>
     va_now (f s) + 60000 \<le> va_databaseExpiresAt (f s)"
  shows "ends P (andThen (modify f) (\<lambda>_. scheduleRenewal)) (\<lambda>_. vaultOk) inFlightSome"
  unfolding ends_def
proof (intro allI impI)
  fix s assume "P s"
  then have "vaultOk (snd (scheduleRenewal (f s)))" using assms vaultOk_scheduled by blast
  then show "case andThen (modify f) (\<lambda>_. scheduleRenewal) s of (Inr a, t) \<Rightarrow> vaultOk t | (Inl e, t) \<Rightarrow> inFlightSome t"
    by (auto simp: run_simps scheduleRenewal_def)
qed

definition issueTime :: "renewal_replies \<Rightarrow> int" where
  "issueTime rs = int (elapsed (rr_renewDatabase rs)) + int (elapsed (rr_issue rs))"

lemma ends_throw: "(\<And>s. P s \<Longrightarrow> E s) \<Longrightarrow> ends P (throw e) Q E"
  by (simp add: ends_def run_simps)

lemma ends_gets: "(\<And>s. P s \<Longrightarrow> Q (f s) s) \<Longrightarrow> ends P (gets f) Q E"
  by (simp add: ends_def run_simps)

lemma ends_post: "ends P m Q E \<Longrightarrow> (\<And>a s. Q a s \<Longrightarrow> Q' a s) \<Longrightarrow> ends P m Q' E"
  by (fastforce simp: ends_def split: prod.splits sum.splits)

lemma ends_renewCredentials:
  assumes "promptRenewal rs"
  shows "ends (inFlight None n m) (renewCredentials rs c0)
    (\<lambda>c s. inFlight None (n + issueTime rs) m s \<and> 120000 \<le> cr_leaseDurationMs c) inFlightSome"
proof -
  let ?n = "n + int (elapsed (rr_renewDatabase rs))"
  have first: "ends (inFlight None n m) (awaitReply (mapReply (renewDatabaseAnswer c0) (rr_renewDatabase rs)))
     (\<lambda>c s. inFlight None (n + issueTime rs) m s \<and> 120000 \<le> cr_leaseDurationMs c) (inFlight None ?n m)"
    using assms
    by (intro ends_await)
       (auto intro: inFlight_meanwhile inFlight_later [OF inFlight_meanwhile] renewDatabase_long
         simp: promptRenewal_def issueTime_def)
  have second: "ends (inFlight None ?n m) (awaitReply (mapReply issueAnswer (rr_issue rs)))
     (\<lambda>c s. inFlight None (n + issueTime rs) m s \<and> 120000 \<le> cr_leaseDurationMs c) inFlightSome"
    using ends_await_flight [of "mapReply issueAnswer (rr_issue rs)" "\<lambda>c. 120000 \<le> cr_leaseDurationMs c" ?n m]
      assms by (auto simp: promptRenewal_def issueTime_def issue_long add.assoc)
  show ?thesis
    unfolding renewCredentials_def
  proof (rule ends_catching [OF first])
    fix e
    have "ends (inFlight None ?n m) (throw e)
      (\<lambda>(c::credentials) s. inFlight None (n + issueTime rs) m s \<and> 120000 \<le> cr_leaseDurationMs c) inFlightSome"
      by (rule ends_throw) (auto simp: inFlightSome_def)
    with second show "ends (inFlight None ?n m)
       (if isVaultLeaseRenewalLimit e then awaitReply (mapReply issueAnswer (rr_issue rs)) else throw e)
       (\<lambda>c s. inFlight None (n + issueTime rs) m s \<and> 120000 \<le> cr_leaseDurationMs c) inFlightSome"
      by simp
  qed
qed

text \<open>With the new credentials in hand: refresh, store, arm.\<close>

lemma ends_takeOver:
  assumes "120000 \<le> cr_leaseDurationMs c"
    and "\<And>s. inFlight (Some (loginOf c)) (n + int (elapsed r)) m s \<Longrightarrow>
      inFlight (Some (loginOf c)) (va_now s) (va_now s + 60000) (f s) \<and> va_now (f s) = va_now s"
  shows "ends (inFlight None n m) (andThen (refreshDatabase r c) (\<lambda>_.
     andThen (modify (\<lambda>s. storeCredentials c (f s))) (\<lambda>_. scheduleRenewal))) (\<lambda>_. vaultOk) inFlightSome"
proof (rule ends_andThen [OF ends_refresh], rule ends_scheduled)
  fix s assume "inFlight (Some (loginOf c)) (n + int (elapsed r)) m s"
  from assms(2) [OF this] show "inFlight None (va_now (storeCredentials c (f s)))
      (va_now (storeCredentials c (f s)) + 60000) (storeCredentials c (f s)) \<and>
      va_now (storeCredentials c (f s)) + 60000 \<le> va_databaseExpiresAt (storeCredentials c (f s))"
    using assms(1) inFlight_store [of c "va_now s" "va_now s + 60000" "f s"]
    by (simp add: storeCredentials_def)
qed

lemma inFlight_now: "inFlight l n m s \<Longrightarrow> inFlight l (va_now s) m s"
  by (simp add: inFlight_def)

lemma ends_reauthenticate:
  assumes "promptRenewal rs"
  shows "ends (inFlight None n m) (reauthenticate rs) (\<lambda>_. vaultOk) inFlightSome"
proof -
  have long: "120000 \<le> cr_leaseDurationMs c" if "answer (mapReply issueAnswer (rr_issue rs)) = Inr c" for c
    using that assms by (auto simp: promptRenewal_def issue_long)
  have token: "longLease (rr_login rs)" using assms by (simp add: promptRenewal_def)
  let ?take = "\<lambda>tokenMs c. andThen (refreshDatabase (rr_connect rs) c) (\<lambda>_.
       andThen (modify (\<lambda>s. storeCredentials c (s\<lparr>va_tokenExpiresAt := va_now s + tokenMs\<rparr>))) (\<lambda>_.
       scheduleRenewal))"
  have take: "ends (inFlight None k m) (?take ms c) (\<lambda>_. vaultOk) inFlightSome"
    if "120000 \<le> ms" "120000 \<le> cr_leaseDurationMs c" for k ms c
    using that by (intro ends_takeOver) (auto simp: inFlight_def)
  have "ends (inFlight None n m) (andThen (vault_login (rr_login rs)) (\<lambda>tokenMs.
       andThen (awaitReply (mapReply issueAnswer (rr_issue rs))) (?take tokenMs))) (\<lambda>_. vaultOk) inFlightSome"
    by (rule ends_andThen [OF ends_login [OF token]], rule ends_when,
        rule ends_andThen [OF ends_await_flight [OF long]], assumption, rule ends_when, rule take)
  then show ?thesis by (auto simp: ends_def reauthenticate_def inFlightSome_def)
qed

lemma ends_renewLeases:
  assumes "promptRenewal rs" and "120000 \<le> tokenMs"
  shows "ends (inFlight None n m) (renewLeases rs tokenMs) (\<lambda>_. vaultOk) inFlightSome"
  unfolding ends_def
proof (intro allI impI)
  fix s assume s: "inFlight None n m s"
  let ?s = "s\<lparr>va_tokenExpiresAt := va_now s + tokenMs\<rparr>"
  obtain c0 where c0: "va_databaseCredentials s = Some c0" using s by (auto simp: inFlight_def)
  have P: "inFlight None (va_now s) (va_now s + 120000) ?s" using s assms(2) by (auto simp: inFlight_def)
  have take: "ends (inFlight None (va_now s + issueTime rs) (va_now s + 120000))
     (andThen (refreshDatabase (rr_connect rs) c) (\<lambda>_. andThen (modify (storeCredentials c)) (\<lambda>_. scheduleRenewal)))
     (\<lambda>_. vaultOk) inFlightSome" if "120000 \<le> cr_leaseDurationMs c" for c
    using that assms(1) ends_takeOver [of c "va_now s + issueTime rs" "rr_connect rs" "va_now s + 120000" "\<lambda>s. s"]
    by (auto simp: inFlight_def promptRenewal_def issueTime_def)
  have "ends (inFlight None (va_now s) (va_now s + 120000)) (andThen (renewCredentials rs c0) (\<lambda>c.
     andThen (refreshDatabase (rr_connect rs) c) (\<lambda>_. andThen (modify (storeCredentials c)) (\<lambda>_. scheduleRenewal))))
     (\<lambda>_. vaultOk) inFlightSome"
    by (rule ends_andThen [OF ends_renewCredentials [OF assms(1)]], rule ends_when, rule take)
  with P show "case renewLeases rs tokenMs s of (Inr a, t) \<Rightarrow> vaultOk t | (Inl e, t) \<Rightarrow> inFlightSome t"
    by (simp add: ends_def renewLeases_def run_simps c0)
qed

lemma ends_always: "(\<And>s. P s \<Longrightarrow> Q (snd (m s))) \<Longrightarrow> ends P m (\<lambda>_. Q) Q"
  by (auto simp: ends_def split: prod.split sum.split) (metis snd_conv)+

lemma vaultOk_renew:
  assumes "vaultOk s" and "va_renewal s = Some due" and "promptRenewal rs"
  shows "vaultOk (snd (vault_renew rs s))"
proof -
  let ?s = "s\<lparr>va_renewal := None\<rparr>"
  have start: "inFlight None (va_now s) (va_tokenExpiresAt s) ?s"
    using assms(1,2) by (auto simp: vaultOk_def inFlight_def)
  have lost: "ends inFlightSome (renewalFailed e) (\<lambda>_. vaultOk) vaultOk" for e
    by (rule ends_always) (auto simp: inFlightSome_def intro: vaultOk_failed)
  have "ends (inFlight None (va_now s) (va_tokenExpiresAt s)) (renewOrReauthenticate rs) (\<lambda>_. vaultOk) inFlightSome"
    unfolding ends_def
  proof (intro allI impI)
    fix t assume t: "inFlight None (va_now s) (va_tokenExpiresAt s) t"
    let ?r = "mapReply renewTokenAnswer (rr_renewToken rs)"
    let ?t = "meanwhile (elapsed ?r) (destroyed ?r) t"
    have "inFlight None (va_now s + int (elapsed ?r)) (va_tokenExpiresAt s) ?t"
      by (rule inFlight_meanwhile [OF t])
    moreover have "120000 \<le> ms" if "answer ?r = Inr ms" for ms
      using that assms(3)
      by (auto simp: promptRenewal_def longLease_def renewTokenAnswer_def split: option.splits if_splits)
    ultimately show "case renewOrReauthenticate rs t of (Inr a, t) \<Rightarrow> vaultOk t | (Inl e, t) \<Rightarrow> inFlightSome t"
      using ends_reauthenticate [OF assms(3)] ends_renewLeases [OF assms(3)]
      unfolding renewOrReauthenticate_def awaitReply_def ends_def
      by (cases "answer ?r") (simp_all del: mapReply_simps(3))
  qed
  then have "ends (inFlight None (va_now s) (va_tokenExpiresAt s))
      (catching (renewOrReauthenticate rs) renewalFailed) (\<lambda>_. vaultOk) vaultOk"
    by (rule ends_catching [OF _ lost])
  from ends_snd [OF this start] show ?thesis by (simp add: vault_renew_def)
qed

definition notUp :: "vault \<Rightarrow> bool" where
  "notUp s \<longleftrightarrow> \<not> va_ready s \<and> va_fatal s = None \<and> \<not> va_refreshing s \<and> va_renewal s = None"

definition justUp :: "credentials \<Rightarrow> vault \<Rightarrow> bool" where
  "justUp c s \<longleftrightarrow> va_ready s \<and> va_fatal s = None \<and> \<not> va_refreshing s \<and>
     (\<exists>token. va_internalToken s = Some token \<and> 32 \<le> length token) \<and> va_databaseCredentials s = Some c \<and>
     (\<not> va_stopped s \<longrightarrow> (\<exists>due. va_renewal s = Some due \<and> due + 45000 \<le> leaseEnd s))"

lemma notUp_meanwhile: "notUp s \<Longrightarrow> notUp (meanwhile d st s)"
  by (simp add: notUp_def time_defs)

lemma justUp_meanwhile: "justUp c s \<Longrightarrow> justUp c (meanwhile d st s)"
  by (auto simp: justUp_def time_defs leaseEnd_def)

lemma ends_awaitBoth:
  assumes "\<And>d st s. P s \<Longrightarrow> P (meanwhile d st s)"
  shows "ends P (awaitBoth p q) (\<lambda>ab s. P s \<and> (answer p = Inr (fst ab) \<and> answer q = Inr (snd ab))) P"
  using assms by (auto simp: ends_def awaitBoth_def split: sum.split prod.splits)

lemma ends_initialize:
  assumes "promptStart rs"
  shows "ends notUp (initialize rs) justUp notUp"
proof -
  have token: "120000 \<le> b" if "answer (sr_login rs) = Inr x" "loginAnswer x = Inr (a, b)" for a b x
    using that assms
    by (auto simp: loginAnswer_def promptStart_def longLease_def split: option.splits if_splits)
  have issue: "120000 \<le> cr_leaseDurationMs c" if "answer (mapReply issueAnswer (sr_issue rs)) = Inr c" for c
    using that assms by (auto simp: promptStart_def issue_long)
  have internal: "32 \<le> length k" if "answer (mapReply readInternalTokenAnswer (sr_internalToken rs)) = Inr k" for k
    using that by (auto simp: readInternalTokenAnswer_def split: if_splits)
  have login: "ends notUp (vault_login (sr_login rs)) (\<lambda>ms s. notUp s \<and> 120000 \<le> ms) notUp"
    unfolding vault_login_def
    by (rule ends_andThen [where Q = "\<lambda>a s. notUp s \<and> 120000 \<le> snd a"], rule ends_await)
       (auto simp: ends_def run_simps notUp_def time_defs dest: token)
  have up: "ends notUp (andThen (modify (\<lambda>s. s\<lparr>va_internalToken := Some k, va_roleId := Some roleId,
       va_secretId := Some secretId, va_databaseCredentials := Some c,
       va_tokenExpiresAt := va_now s + ms,
       va_databaseExpiresAt := va_now s + cr_leaseDurationMs c, va_ready := True\<rparr>)) (\<lambda>_.
     andThen scheduleRenewal (\<lambda>_. ret c))) justUp notUp"
    if "32 \<le> length k" "120000 \<le> ms" "120000 \<le> cr_leaseDurationMs c" for k roleId secretId ms c
    using that by (auto simp: ends_def run_simps scheduleRenewal_def notUp_def justUp_def leaseEnd_def
        renewalSafetyMarginMs_def)
  have both: "ends notUp (andThen (awaitBoth (mapReply readInternalTokenAnswer (sr_internalToken rs))
       (mapReply issueAnswer (sr_issue rs))) (\<lambda>(k, c).
     andThen (modify (\<lambda>s. s\<lparr>va_internalToken := Some k, va_roleId := Some roleId,
       va_secretId := Some secretId, va_databaseCredentials := Some c,
       va_tokenExpiresAt := va_now s + ms,
       va_databaseExpiresAt := va_now s + cr_leaseDurationMs c, va_ready := True\<rparr>)) (\<lambda>_.
     andThen scheduleRenewal (\<lambda>_. ret c)))) justUp notUp"
    if "120000 \<le> ms" for roleId secretId ms
    using that by (intro ends_andThen [OF ends_awaitBoth [where P = notUp, OF notUp_meanwhile]] ends_when)
       (auto split: prod.split intro!: up internal issue)
  show ?thesis
    unfolding initialize_def
    by (intro ends_andThen [OF ends_awaitBoth [where P = notUp, OF notUp_meanwhile]] ends_when)
       (auto split: prod.split intro!: ends_andThen [OF login] ends_when both)
qed

lemma vaultOk_start:
  assumes "vaultOk s" and "va_started s = None" and "promptStart rs"
  shows "vaultOk (snd (onModuleInit rs s))"
proof -
  have n: "notUp s" using assms(1,2) by (auto simp: vaultOk_def notUp_def)
  have started: "vaultOk (t\<lparr>va_started := Some r\<rparr>)" if "notUp t" for t r
    using that by (simp add: vaultOk_def notUp_def)
  have open_client: "vaultOk (snd (andThen (replaceClient (sr_connect rs) c)
      (\<lambda>_. modify (\<lambda>s. s\<lparr>va_refreshing := True\<rparr>)) (t\<lparr>va_started := Some (Inr c)\<rparr>)))"
    if "justUp c t" for c t
  proof -
    have "justUp c (t\<lparr>va_started := Some (Inr c)\<rparr>)" using that by (simp add: justUp_def leaseEnd_def)
    from justUp_meanwhile [OF this, of "elapsed (sr_connect rs)" "destroyed (sr_connect rs)"]
    show ?thesis
      by (cases "answer (sr_connect rs)")
         (auto simp: replaceClient_def awaitReply_def run_simps justUp_def vaultOk_def leaseEnd_def time_defs)
  qed
  show ?thesis
    using ends_initialize [OF assms(3), unfolded ends_def, rule_format, OF n] started open_client assms(2)
    by (cases "initialize rs s") (auto simp: onModuleInit_def andThen_run vault_start_def split: sum.splits)
qed

lemma vaultOk_step: "vault_step s t \<Longrightarrow> vaultOk s \<Longrightarrow> vaultOk t"
  by (induction rule: vault_step.induct)
     (auto simp: vaultOk_start vaultOk_renew, auto simp: vaultOk_def time_defs leaseEnd_def)

lemma vaultOk_run: "vault_run s t \<Longrightarrow> vaultOk s \<Longrightarrow> vaultOk t"
  by (induction rule: vault_run.induct) (auto intro: vaultOk_step)

lemma vaultOk_boot: "vaultOk vaultBoot"
  by (simp add: vaultOk_def vaultBoot_def)

text \<open>A failure is final: nothing makes the service ready again.\<close>

lemma fatal_step: "vault_step s t \<Longrightarrow> vaultOk s \<Longrightarrow> va_fatal s \<noteq> None \<Longrightarrow> va_fatal t = va_fatal s"
proof (induction rule: vault_step.induct)
  case (starts s rs)
  then show ?case by (simp add: vaultOk_def)
next
  case (fires s due rs)
  then show ?case by (auto simp: vaultOk_def)
qed (simp_all add: time_defs)

lemma fatal_run: "vault_run s t \<Longrightarrow> vaultOk s \<Longrightarrow> va_fatal s \<noteq> None \<Longrightarrow> va_fatal t = va_fatal s"
  by (induction rule: vault_run.induct) (auto simp: fatal_step vaultOk_run)

lemma not_ready_refuses:
  "\<not> va_ready s \<Longrightarrow> readiness_canActivate False s = Inl vaultUnavailable \<and>
     getInternalToken s = (Inl (JsError ''Vault runtime is not ready''), s)"
  by (simp add: readiness_canActivate_def isReady_def getInternalToken_def)


definition goodLease :: "lease_answer option" where
  "goodLease = Some \<lparr>la_client_token = Some ''t'', la_lease_duration = Some 3600, la_renewable = True\<rparr>"

definition goodLogin :: database_answer where
  "goodLogin = \<lparr>da_lease_id = Some ''lease'', da_lease_duration = Some 3600, da_renewable = True,
     da_username = Some ''app'', da_password = Some ''pw''\<rparr>"

definition sampleStart :: start_replies where
  "sampleStart = \<lparr>sr_roleFile = Reply 1 False (Inr (0x180, ''role'')),
     sr_secretFile = Reply 1 False (Inr (0x180, ''secret'')), sr_login = Reply 20 False (Inr goodLease),
     sr_internalToken = Reply 5 False (Inr (Some (replicate 32 (CHR ''x'')))),
     sr_issue = Reply 5 False (Inr goodLogin), sr_connect = Reply 10 False (Inr ())\<rparr>"

text \<open>The server refuses the renewal with status 403.\<close>

definition sampleRenewal :: renewal_replies where
  "sampleRenewal = \<lparr>rr_renewToken = Reply 5 False (Inl (JsError ''down'')),
     rr_login = Reply 5 False (Inl (RemoteError ''denied'' (Some 403) [])),
     rr_renewDatabase = Reply 0 False (Inl (JsError ''down'')),
     rr_issue = Reply 0 False (Inl (JsError ''down'')), rr_connect = Reply 0 False (Inr ())\<rparr>"

lemmas sample_defs = sampleStart_def sampleRenewal_def goodLease_def goodLogin_def

definition vaultUp :: vault where
  "vaultUp = passTime 3540026 (snd (onModuleInit sampleStart vaultBoot))"

lemma vaultUp_run: "vault_run vaultBoot vaultUp"
  unfolding vaultUp_def
  by (rule more [OF more [OF stay starts] passes])
     (simp_all add: vaultBoot_def promptStart_def longLease_def longDatabaseLease_def sample_defs)

lemmas run_defs = onModuleInit_def vault_start_def initialize_def vault_login_def awaitBoth_def awaitReply_def
  scheduleRenewal_def replaceClient_def readProtectedIDFile_def loginAnswer_def readInternalTokenAnswer_def
  issueAnswer_def parseDatabaseCredentials_def given_def isPositiveNumber_def loginOf_def leaseEnd_def
  renewalSafetyMarginMs_def retryIntervalMs_def poolDrainTimeoutMs_def time_defs

lemmas renew_defs = vault_renew_def renewOrReauthenticate_def reauthenticate_def renewalFailed_def vault_fail_def
  renewTokenAnswer_def isVaultAuthorizationError_def

lemma files_readable:
  "trim ''role'' = ''role''" "trim ''secret'' = ''secret''"
  by (simp_all add: trim_def trimStart_def trimEnd_def isWs_def)

lemma vaultUp_eq:
  "vaultUp = \<lparr>va_ready = True, va_stopped = False, va_tokenExpiresAt = 3600026, va_databaseExpiresAt = 3600026,
     va_databaseCredentials = Some \<lparr>cr_username = ''app'', cr_password = ''pw'', cr_leaseId = ''lease'',
       cr_leaseDurationMs = 3600000\<rparr>, va_internalToken = Some (replicate 32 (CHR ''x'')),
     va_roleId = Some ''role'', va_secretId = Some ''secret'', va_clientToken = Some ''t'',
     va_renewal = Some 3540026, va_fatal = None,
     va_started = Some (Inr \<lparr>cr_username = ''app'', cr_password = ''pw'', cr_leaseId = ''lease'',
       cr_leaseDurationMs = 3600000\<rparr>), va_client = Some (''app'', ''pw''),
     va_draining = [], va_refreshing = True, va_now = 3540062\<rparr>"
  by (simp add: vaultUp_def vaultBoot_def sample_defs run_simps files_readable run_defs)

lemma vaultUp_fails:
  "va_fatal (snd (vault_renew sampleRenewal vaultUp)) = Some ''Vault runtime failed closed: denied''"
  by (simp add: vaultUp_eq sample_defs run_simps run_defs renew_defs)


text \<open>
  A renewal that is in flight when the module is destroyed, and fails, arms the timer again: the
  retry, unlike \<open>scheduleRenewal\<close>, does not look at \<open>stopped\<close>.
\<close>

lemma retry_outlives_destroy:
  "let s = snd (vault_renew (sampleRenewal\<lparr>rr_login := Reply 5 True (Inl (JsError ''down''))\<rparr>)
      (vaultUp\<lparr>va_tokenExpiresAt := 3700000, va_databaseExpiresAt := 3700000\<rparr>))
   in va_stopped s \<and> va_renewal s = Some 3555072"
  by (simp add: vaultUp_eq sample_defs run_simps run_defs renew_defs Let_def)

end
