(* ===== verification/Http.thy ===== *)
theory Http
  imports PublicApi Vault Gateway Users
begin

text \<open>
  The HTTP edge of the backend: \<open>AuthGuard\<close> (\<open>backend/src/auth/auth.guard.ts\<close>), the redemption and
  revalidation of WebSocket tickets (\<open>backend/src/realtime/websocket-admission.service.ts\<close>), the
  status an error becomes (\<open>backend/src/common/filters/prisma-exception.filter.ts\<close> and NestJS's own
  handling of its exceptions), the file check of an upload
  (\<open>backend/src/common/detect-image-type.ts\<close>) and the cache header
  (\<open>backend/src/common/no-store-sensitive-api.ts\<close>). The authentication service is reached by
  \<open>fetch\<close>: \<open>auth token body\<close> is what the call answers when the internal token \<open>token\<close> is presented;
  the token is the one of \<open>VaultRuntimeService\<close>, and without it the call fails.
\<close>

section \<open>Calls to the authentication service\<close>

definition internalFetch :: "vault \<Rightarrow> (string \<Rightarrow> string \<Rightarrow> fetch_result) \<Rightarrow> string \<Rightarrow> fetch_result" where
  "internalFetch v auth body = (case getInternalToken v of (Inl _, _) \<Rightarrow> Fetch_failed | (Inr token, _) \<Rightarrow> auth token body)"

lemma internalFetch_not_ready: "\<not> isReady v \<Longrightarrow> internalFetch v auth body = Fetch_failed"
  by (simp add: internalFetch_def getInternalToken_def isReady_def)

section \<open>AuthGuard\<close>

record request_user =
  ru_id :: ident
  ru_sessionId :: string
  ru_authenticationMethod :: string
  ru_assuranceLevel :: js_value
  ru_authenticatedAt :: string
  ru_idleExpiresAt :: string
  ru_absoluteExpiresAt :: string

definition readBearerToken :: "string option \<Rightarrow> string option" where
  "readBearerToken value = (case value of None \<Rightarrow> None
     | Some v \<Rightarrow> if \<not> hasPrefix ''Bearer '' v then None
         else let token = drop 7 v in if token \<noteq> [] \<and> CHR '' '' \<notin> set token then Some token else None)"

fun isNumber :: "js_value \<Rightarrow> bool" where
  "isNumber (J_int n) = True"
| "isNumber J_nonint = True"
| "isNumber _ = False"

definition userOf :: "(string \<Rightarrow> js_value) \<Rightarrow> request_user option" where
  "userOf result =
     (if result ''active'' \<noteq> J_bool True \<or> \<not> isNumber (result ''assuranceLevel'') then None
      else case (stringOf (result ''sub''), stringOf (result ''sid''), stringOf (result ''authenticationMethod''),
          stringOf (result ''authenticatedAt''), stringOf (result ''idleExpiresAt''),
          stringOf (result ''absoluteExpiresAt'')) of
        (Some i, Some s, Some m, Some a, Some l, Some x) \<Rightarrow>
          Some \<lparr>ru_id = i, ru_sessionId = s, ru_authenticationMethod = m,
            ru_assuranceLevel = result ''assuranceLevel'', ru_authenticatedAt = a, ru_idleExpiresAt = l,
            ru_absoluteExpiresAt = x\<rparr>
      | _ \<Rightarrow> None)"

text \<open>The error body of a 401 is optional.\<close>

definition introspectUser :: "(string \<Rightarrow> fetch_result) \<Rightarrow> string \<Rightarrow> exn + request_user" where
  "introspectUser auth accessToken = (case auth accessToken of
     Fetch_failed \<Rightarrow> Inl (ServiceUnavailable ''Authentication service is unavailable'')
   | Fetch_response status body \<Rightarrow>
       if status = 401 then
         (case body of
            Some error \<Rightarrow> if error ''code'' = J_string ''INVALID_INTERNAL_CREDENTIALS''
              then Inl (ServiceUnavailable ''Authentication service credentials are invalid'')
              else Inl (Unauthorized ''Access token is invalid or inactive'')
          | None \<Rightarrow> Inl (Unauthorized ''Access token is invalid or inactive''))
       else if \<not> responseOk status
       then Inl (ServiceUnavailable ''Authentication service could not validate the access token'')
       else (case body of None \<Rightarrow> Inl (JsError ''SyntaxError'')
         | Some result \<Rightarrow> (case userOf result of
              None \<Rightarrow> Inl (ServiceUnavailable ''Authentication service returned an invalid response'')
            | Some user \<Rightarrow> Inr user)))"

text \<open>
  \<open>canActivate\<close>: the result is \<open>request.user\<close>, unset on a public route and on a route of the API for
  machines, which has a guard of its own.
\<close>

definition auth_canActivate ::
  "(string \<Rightarrow> fetch_result) \<Rightarrow> bool \<Rightarrow> bool \<Rightarrow> header \<Rightarrow> exn + request_user option" where
  "auth_canActivate auth isPublic isProjectApiTokenRoute authorization =
     (if isPublic \<or> isProjectApiTokenRoute then Inr None
      else case readBearerToken (firstHeaderValue authorization) of
        None \<Rightarrow> Inl (Unauthorized ''Bearer access token required'')
      | Some accessToken \<Rightarrow> map_sum id Some (introspectUser auth accessToken))"

section \<open>WebSocketAdmissionService\<close>

definition nullableString :: "js_value \<Rightarrow> string option option" where
  "nullableString v = (case v of J_null \<Rightarrow> Some None | J_string s \<Rightarrow> Some (Some s) | _ \<Rightarrow> None)"

definition admissionOf :: "(string \<Rightarrow> js_value) \<Rightarrow> admission option" where
  "admissionOf result =
     (if result ''active'' \<noteq> J_bool True then None
      else case (stringOf (result ''sub''), stringOf (result ''sid''), stringOf (result ''username''),
          nullableString (result ''avatarUrl'')) of
        (Some i, Some s, Some n, Some a) \<Rightarrow> Some \<lparr>ad_sub = i, ad_sid = s, ad_username = n, ad_avatarUrl = a\<rparr>
      | _ \<Rightarrow> None)"

definition ws_consume :: "(string \<Rightarrow> fetch_result) \<Rightarrow> string \<Rightarrow> exn + admission" where
  "ws_consume auth ticket = (case auth ticket of
     Fetch_failed \<Rightarrow> Inl (JsError ''fetch failed'')
   | Fetch_response status body \<Rightarrow>
       if \<not> responseOk status then Inl (JsError ''WebSocket ticket was rejected'')
       else (case body of None \<Rightarrow> Inl (JsError ''SyntaxError'')
         | Some result \<Rightarrow> (case admissionOf result of
              None \<Rightarrow> Inl (JsError ''Auth service returned an invalid WebSocket admission'')
            | Some a \<Rightarrow> Inr a)))"

definition ws_isSessionActive :: "(string \<Rightarrow> fetch_result) \<Rightarrow> string \<Rightarrow> exn + bool" where
  "ws_isSessionActive auth session = (case auth session of
     Fetch_failed \<Rightarrow> Inl (JsError ''fetch failed'')
   | Fetch_response status body \<Rightarrow>
       if status = 401 then Inr False
       else if \<not> responseOk status then Inl (JsError ''WebSocket session could not be revalidated'')
       else (case body of None \<Rightarrow> Inl (JsError ''SyntaxError'')
         | Some result \<Rightarrow> if result ''active'' = J_bool True then Inr True
             else Inl (JsError ''Auth service returned an invalid session status'')))"

section \<open>From errors to statuses\<close>

definition PRISMA_ERROR_STATUS :: "(string \<times> int) list" where
  "PRISMA_ERROR_STATUS = [(''P2002'', 409), (''P2025'', 404), (''P2003'', 400), (''P2034'', 409)]"

definition prismaStatus :: "string \<Rightarrow> int" where
  "prismaStatus code = (case map_of PRISMA_ERROR_STATUS code of None \<Rightarrow> 500 | Some s \<Rightarrow> s)"

fun httpStatus :: "exn \<Rightarrow> int" where
  "httpStatus (BadRequest m) = 400"
| "httpStatus (Unauthorized m) = 401"
| "httpStatus (Forbidden m) = 403"
| "httpStatus (NotFound m) = 404"
| "httpStatus (Conflict m) = 409"
| "httpStatus (PayloadTooLarge m) = 413"
| "httpStatus (TooManyRequests m) = 429"
| "httpStatus (ServiceUnavailable m) = 503"
| "httpStatus (PrismaError code) = prismaStatus code"
| "httpStatus _ = 500"

text \<open>An error that is no HTTP exception is answered with a fixed message.\<close>

fun httpMessage :: "exn \<Rightarrow> string" where
  "httpMessage (JsError m) = ''Internal server error''"
| "httpMessage (RemoteError m s es) = ''Internal server error''"
| "httpMessage FieldLockLeaseError = ''Internal server error''"
| "httpMessage e = errorMessage e"

section \<open>Uploads\<close>

type_synonym bytes = "8 word list"

definition byteAt :: "bytes \<Rightarrow> nat \<Rightarrow> 8 word \<Rightarrow> bool" where
  "byteAt buf i b \<longleftrightarrow> i < length buf \<and> buf ! i = b"

definition SIGNATURES :: "(string \<times> (bytes \<Rightarrow> bool)) list" where
  "SIGNATURES =
     [(''image/png'', \<lambda>buf. length buf \<ge> 8 \<and> byteAt buf 0 0x89 \<and> byteAt buf 1 0x50 \<and> byteAt buf 2 0x4E \<and>
        byteAt buf 3 0x47 \<and> byteAt buf 4 0x0D \<and> byteAt buf 5 0x0A \<and> byteAt buf 6 0x1A \<and> byteAt buf 7 0x0A),
      (''image/jpeg'', \<lambda>buf. length buf \<ge> 3 \<and> byteAt buf 0 0xFF \<and> byteAt buf 1 0xD8 \<and> byteAt buf 2 0xFF),
      (''image/gif'', \<lambda>buf. length buf \<ge> 6 \<and> byteAt buf 0 0x47 \<and> byteAt buf 1 0x49 \<and> byteAt buf 2 0x46 \<and>
        byteAt buf 3 0x38 \<and> (byteAt buf 4 0x37 \<or> byteAt buf 4 0x39) \<and> byteAt buf 5 0x61)]"

definition detectImageMimetype :: "bytes \<Rightarrow> string option" where
  "detectImageMimetype buf = map_option fst (List.find (\<lambda>signature. snd signature buf) SIGNATURES)"

definition MAX_AVATAR_BYTES :: nat where
  "MAX_AVATAR_BYTES = 1 * 1024 * 1024"

section \<open>Cache headers\<close>

text \<open>\<open>/^\/api\/projects\/[^/]+\/api-tokens(?:\/|$)/\<close>\<close>

definition tokensPath :: "string \<Rightarrow> bool" where
  "tokensPath path \<longleftrightarrow> hasPrefix ''/api/projects/'' path \<and>
     (let rest = drop 14 path; after = dropWhile (\<lambda>c. c \<noteq> CHR ''/'') rest
      in takeWhile (\<lambda>c. c \<noteq> CHR ''/'') rest \<noteq> [] \<and> (after = ''/api-tokens'' \<or> hasPrefix ''/api-tokens/'' after))"

definition setNoStoreForSensitiveApi :: "string \<Rightarrow> (string \<times> string) list" where
  "setNoStoreForSensitiveApi path = (if hasPrefix ''/api/public/v1/'' path \<or> tokensPath path
     then [(''Cache-Control'', ''no-store'')] else [])"

section \<open>Who a request speaks for\<close>

lemma introspectUser_Inr:
  "introspectUser auth k = Inr u \<longleftrightarrow>
     (\<exists>status body. auth k = Fetch_response status (Some body) \<and> responseOk status \<and> userOf body = Some u)"
  by (auto simp: introspectUser_def responseOk_def split: fetch_result.splits option.splits if_splits)

lemma auth_Inr:
  "auth_canActivate auth False False h = Inr (Some u) \<longleftrightarrow>
     (\<exists>token status body. readBearerToken (firstHeaderValue h) = Some token \<and>
        auth token = Fetch_response status (Some body) \<and> responseOk status \<and> userOf body = Some u)"
  unfolding auth_canActivate_def
  by (cases "readBearerToken (firstHeaderValue h)")
     (auto simp: introspectUser_Inr [symmetric] map_sum_def split: sum.splits)

lemma auth_never_anonymous: "auth_canActivate auth False False h \<noteq> Inr None"
  by (auto simp: auth_canActivate_def map_sum_def split: option.split sum.split)

lemma introspectUser_status: "introspectUser auth k = Inl e \<Longrightarrow> httpStatus e \<in> {401, 500, 503}"
  by (auto simp: introspectUser_def split: fetch_result.splits option.splits if_splits)

lemma auth_status: "auth_canActivate auth p t h = Inl e \<Longrightarrow> httpStatus e \<in> {401, 500, 503}"
  by (auto simp: auth_canActivate_def map_sum_def dest: introspectUser_status split: if_splits option.splits sum.splits)

lemma ws_consume_Inr:
  "ws_consume auth k = Inr a \<longleftrightarrow>
     (\<exists>status body. auth k = Fetch_response status (Some body) \<and> responseOk status \<and> admissionOf body = Some a)"
  by (auto simp: ws_consume_def split: fetch_result.splits option.splits)

text \<open>While Vault is not ready no socket is admitted.\<close>

lemma no_admission_without_vault:
  "\<not> isReady v \<Longrightarrow> \<exists>e. ws_consume (internalFetch v auth) ticket = Inl e"
  by (simp add: ws_consume_def internalFetch_not_ready)

end
