(* ===== verification/Routes.thy ===== *)
theory Routes
  imports Json Http Calendar Chat Checklist Discovery Members ProjectLife Relationships Search
begin

text \<open>
  The routes of the backend, every controller under \<open>backend/src\<close> and the guards of
  \<open>backend/src/app.module.ts\<close>. A route is an endpoint with its path parameters; \<open>routeTable\<close> lists
  method, path and endpoint as the decorators do, in the order the modules are registered;
  the theory \<open>Controllers\<close> has the methods and the way of a request to them.
  What NestJS and class-validator do for the code are parameters: the throttler's verdict, the
  UUID test and the check of a body against the DTO of its endpoint.
\<close>

section \<open>Endpoints\<close>

text \<open>The five methods most controllers have.\<close>

datatype crud = All | One ident | Create | Update ident | Remove ident

text \<open>The methods of the other controllers, one datatype each.\<close>

datatype relationship_endpoint =
    Relationships | Relationship ident | Befriend ident | UpdateRelationship ident | Unfriend ident

datatype notification_endpoint =
    Notifications | ReadAllNotifications | ReadNotification ident | ClearNotifications | DeleteNotification ident

datatype user_endpoint =
    Me | Presence | Profile ident | EmailOf ident | UpdateMe | RemoveMe | UploadAvatar | RemoveAvatar

datatype member_endpoint = AddMember | Members | RemoveMember ident | UpdateRole ident

datatype lifecycle_endpoint = Project | DeleteProject | UpdateProject | UpdateDetails

datatype chat_endpoint = Messages | CreateMessage | ReadMessages | RemoveMessage ident

datatype token_endpoint = ApiTokens | CreateApiToken | RevokeApiToken ident | RemoveApiToken ident

text \<open>What a signed-in user asks for himself, and inside one project.\<close>

datatype own_endpoint = Social relationship_endpoint | Inbox notification_endpoint | Account user_endpoint
  | MyProjects | CreateProject | Unread | Search

datatype project_endpoint = Membership member_endpoint | Lifecycle lifecycle_endpoint
  | Blocks crud | BlockItems ident crud | Items crud | Tasks crud | TaskCategories
  | Events crud | Categories crud | Chat chat_endpoint | Tokens token_endpoint

datatype machine_endpoint = MachineTasks | MachineTask ident | MachineCreateTask | MachineUpdateTask ident
  | MachineDeleteTask ident | MachineEvents | MachineEvent ident | MachineBlocks

datatype endpoint = Health | StorageHealth | Avatar string | Own own_endpoint
  | InProject ident project_endpoint | Machine ident machine_endpoint | MachineToken

text \<open>A path element: a literal, a parameter behind \<open>ParseUUIDPipe\<close>, or a plain parameter.\<close>

datatype segment = Lit string | Id | Raw

type_synonym route = "verb \<times> segment list \<times> (string list \<Rightarrow> endpoint)"

abbreviation inProject :: "segment list \<Rightarrow> segment list" where
  "inProject rest \<equiv> Lit ''projects'' # Id # rest"

abbreviation machinePath :: "segment list \<Rightarrow> segment list" where
  "machinePath rest \<equiv> Lit ''public'' # Lit ''v1'' # Lit ''projects'' # Id # rest"

definition healthRoutes :: "route list" where
  "healthRoutes =
    [(GET, [Lit ''health''], \<lambda>_. Health),
     (GET, [Lit ''health'', Lit ''storage''], \<lambda>_. StorageHealth)]"

definition relationshipRoutes :: "route list" where
  "relationshipRoutes =
    [(GET, [Lit ''users'', Lit ''user-relationships''], \<lambda>_. Own (Social Relationships)),
     (GET, [Lit ''users'', Lit ''user-relationships'', Id],
        \<lambda>ps. Own (Social (Relationship (ps ! 0)))),
     (POST, [Lit ''users'', Lit ''user-relationships'', Id],
        \<lambda>ps. Own (Social (Befriend (ps ! 0)))),
     (PATCH, [Lit ''users'', Lit ''user-relationships'', Id],
        \<lambda>ps. Own (Social (UpdateRelationship (ps ! 0)))),
     (DELETE, [Lit ''users'', Lit ''user-relationships'', Id],
        \<lambda>ps. Own (Social (Unfriend (ps ! 0))))]"

definition notificationRoutes :: "route list" where
  "notificationRoutes =
    [(GET, [Lit ''notifications''], \<lambda>_. Own (Inbox Notifications)),
     (PATCH, [Lit ''notifications'', Lit ''read-all''], \<lambda>_. Own (Inbox ReadAllNotifications)),
     (PATCH, [Lit ''notifications'', Id, Lit ''read''],
        \<lambda>ps. Own (Inbox (ReadNotification (ps ! 0)))),
     (DELETE, [Lit ''notifications''], \<lambda>_. Own (Inbox ClearNotifications)),
     (DELETE, [Lit ''notifications'', Id], \<lambda>ps. Own (Inbox (DeleteNotification (ps ! 0))))]"

definition userRoutes :: "route list" where
  "userRoutes =
    [(GET, [Lit ''users'', Lit ''me''], \<lambda>_. Own (Account Me)),
     (GET, [Lit ''users'', Lit ''presence''], \<lambda>_. Own (Account Presence)),
     (GET, [Lit ''users'', Id], \<lambda>ps. Own (Account (Profile (ps ! 0)))),
     (GET, [Lit ''users'', Id, Lit ''email''], \<lambda>ps. Own (Account (EmailOf (ps ! 0)))),
     (PATCH, [Lit ''users'', Lit ''me''], \<lambda>_. Own (Account UpdateMe)),
     (DELETE, [Lit ''users'', Lit ''me''], \<lambda>_. Own (Account RemoveMe)),
     (GET, [Lit ''users'', Lit ''avatar'', Raw], \<lambda>ps. Avatar (ps ! 0)),
     (POST, [Lit ''users'', Lit ''me'', Lit ''avatar''], \<lambda>_. Own (Account UploadAvatar)),
     (DELETE, [Lit ''users'', Lit ''me'', Lit ''avatar''], \<lambda>_. Own (Account RemoveAvatar))]"

definition memberRoutes :: "route list" where
  "memberRoutes =
    [(POST, inProject [Lit ''members''], \<lambda>ps. InProject (ps ! 0) (Membership AddMember)),
     (GET, inProject [Lit ''members''], \<lambda>ps. InProject (ps ! 0) (Membership Members)),
     (DELETE, inProject [Lit ''members'', Id],
        \<lambda>ps. InProject (ps ! 0) (Membership (RemoveMember (ps ! 1)))),
     (PATCH, inProject [Lit ''members'', Id],
        \<lambda>ps. InProject (ps ! 0) (Membership (UpdateRole (ps ! 1))))]"

definition projectRoutes :: "route list" where
  "projectRoutes =
    [(GET, [Lit ''projects''], \<lambda>_. Own MyProjects),
     (GET, inProject [], \<lambda>ps. InProject (ps ! 0) (Lifecycle Project)),
     (POST, [Lit ''projects''], \<lambda>_. Own CreateProject),
     (DELETE, inProject [], \<lambda>ps. InProject (ps ! 0) (Lifecycle DeleteProject)),
     (PATCH, inProject [], \<lambda>ps. InProject (ps ! 0) (Lifecycle UpdateProject)),
     (PATCH, inProject [Lit ''details''], \<lambda>ps. InProject (ps ! 0) (Lifecycle UpdateDetails))]"

definition blockRoutes :: "route list" where
  "blockRoutes =
    [(GET, inProject [Lit ''discovery-blocks''], \<lambda>ps. InProject (ps ! 0) (Blocks All)),
     (GET, inProject [Lit ''discovery-blocks'', Id],
        \<lambda>ps. InProject (ps ! 0) (Blocks (One (ps ! 1)))),
     (POST, inProject [Lit ''discovery-blocks''], \<lambda>ps. InProject (ps ! 0) (Blocks Create)),
     (PATCH, inProject [Lit ''discovery-blocks'', Id],
        \<lambda>ps. InProject (ps ! 0) (Blocks (Update (ps ! 1)))),
     (DELETE, inProject [Lit ''discovery-blocks'', Id],
        \<lambda>ps. InProject (ps ! 0) (Blocks (Remove (ps ! 1))))]"

definition blockItemRoutes :: "route list" where
  "blockItemRoutes =
    [(GET, inProject [Lit ''discovery-blocks'', Id, Lit ''items''],
        \<lambda>ps. InProject (ps ! 0) (BlockItems (ps ! 1) All)),
     (GET, inProject [Lit ''discovery-blocks'', Id, Lit ''items'', Id],
        \<lambda>ps. InProject (ps ! 0) (BlockItems (ps ! 1) (One (ps ! 2)))),
     (POST, inProject [Lit ''discovery-blocks'', Id, Lit ''items''],
        \<lambda>ps. InProject (ps ! 0) (BlockItems (ps ! 1) Create)),
     (PATCH, inProject [Lit ''discovery-blocks'', Id, Lit ''items'', Id],
        \<lambda>ps. InProject (ps ! 0) (BlockItems (ps ! 1) (Update (ps ! 2)))),
     (DELETE, inProject [Lit ''discovery-blocks'', Id, Lit ''items'', Id],
        \<lambda>ps. InProject (ps ! 0) (BlockItems (ps ! 1) (Remove (ps ! 2))))]"

definition itemRoutes :: "route list" where
  "itemRoutes =
    [(GET, inProject [Lit ''evaluation-checklist-items''], \<lambda>ps. InProject (ps ! 0) (Items All)),
     (GET, inProject [Lit ''evaluation-checklist-items'', Id],
        \<lambda>ps. InProject (ps ! 0) (Items (One (ps ! 1)))),
     (POST, inProject [Lit ''evaluation-checklist-items''],
        \<lambda>ps. InProject (ps ! 0) (Items Create)),
     (PATCH, inProject [Lit ''evaluation-checklist-items'', Id],
        \<lambda>ps. InProject (ps ! 0) (Items (Update (ps ! 1)))),
     (DELETE, inProject [Lit ''evaluation-checklist-items'', Id],
        \<lambda>ps. InProject (ps ! 0) (Items (Remove (ps ! 1))))]"

definition taskRoutes :: "route list" where
  "taskRoutes =
    [(POST, inProject [Lit ''tasks''], \<lambda>ps. InProject (ps ! 0) (Tasks Create)),
     (GET, inProject [Lit ''tasks''], \<lambda>ps. InProject (ps ! 0) (Tasks All)),
     (GET, inProject [Lit ''tasks'', Id], \<lambda>ps. InProject (ps ! 0) (Tasks (One (ps ! 1)))),
     (PATCH, inProject [Lit ''tasks'', Id], \<lambda>ps. InProject (ps ! 0) (Tasks (Update (ps ! 1)))),
     (DELETE, inProject [Lit ''tasks'', Id], \<lambda>ps. InProject (ps ! 0) (Tasks (Remove (ps ! 1))))]"

definition taskCategoryRoutes :: "route list" where
  "taskCategoryRoutes =
    [(GET, inProject [Lit ''task-categories''], \<lambda>ps. InProject (ps ! 0) TaskCategories)]"

definition eventRoutes :: "route list" where
  "eventRoutes =
    [(POST, inProject [Lit ''calendar-events''], \<lambda>ps. InProject (ps ! 0) (Events Create)),
     (GET, inProject [Lit ''calendar-events''], \<lambda>ps. InProject (ps ! 0) (Events All)),
     (GET, inProject [Lit ''calendar-events'', Id],
        \<lambda>ps. InProject (ps ! 0) (Events (One (ps ! 1)))),
     (PATCH, inProject [Lit ''calendar-events'', Id],
        \<lambda>ps. InProject (ps ! 0) (Events (Update (ps ! 1)))),
     (DELETE, inProject [Lit ''calendar-events'', Id],
        \<lambda>ps. InProject (ps ! 0) (Events (Remove (ps ! 1))))]"

definition categoryRoutes :: "route list" where
  "categoryRoutes =
    [(POST, inProject [Lit ''calendar-categories''], \<lambda>ps. InProject (ps ! 0) (Categories Create)),
     (GET, inProject [Lit ''calendar-categories''], \<lambda>ps. InProject (ps ! 0) (Categories All)),
     (GET, inProject [Lit ''calendar-categories'', Id],
        \<lambda>ps. InProject (ps ! 0) (Categories (One (ps ! 1)))),
     (PATCH, inProject [Lit ''calendar-categories'', Id],
        \<lambda>ps. InProject (ps ! 0) (Categories (Update (ps ! 1)))),
     (DELETE, inProject [Lit ''calendar-categories'', Id],
        \<lambda>ps. InProject (ps ! 0) (Categories (Remove (ps ! 1))))]"

definition chatRoutes :: "route list" where
  "chatRoutes =
    [(GET, inProject [Lit ''chat''], \<lambda>ps. InProject (ps ! 0) (Chat Messages)),
     (POST, inProject [Lit ''chat''], \<lambda>ps. InProject (ps ! 0) (Chat CreateMessage)),
     (PATCH, inProject [Lit ''chat'', Lit ''read''], \<lambda>ps. InProject (ps ! 0) (Chat ReadMessages)),
     (DELETE, inProject [Lit ''chat'', Id],
        \<lambda>ps. InProject (ps ! 0) (Chat (RemoveMessage (ps ! 1)))),
     (GET, [Lit ''chat'', Lit ''unread''], \<lambda>_. Own Unread)]"

definition apiTokenRoutes :: "route list" where
  "apiTokenRoutes =
    [(GET, inProject [Lit ''api-tokens''], \<lambda>ps. InProject (ps ! 0) (Tokens ApiTokens)),
     (POST, inProject [Lit ''api-tokens''], \<lambda>ps. InProject (ps ! 0) (Tokens CreateApiToken)),
     (POST, inProject [Lit ''api-tokens'', Id, Lit ''revoke''],
        \<lambda>ps. InProject (ps ! 0) (Tokens (RevokeApiToken (ps ! 1)))),
     (DELETE, inProject [Lit ''api-tokens'', Id],
        \<lambda>ps. InProject (ps ! 0) (Tokens (RemoveApiToken (ps ! 1))))]"

definition publicProjectRoutes :: "route list" where
  "publicProjectRoutes =
    [(GET, machinePath [Lit ''tasks''], \<lambda>ps. Machine (ps ! 0) MachineTasks),
     (GET, machinePath [Lit ''tasks'', Id], \<lambda>ps. Machine (ps ! 0) (MachineTask (ps ! 1))),
     (POST, machinePath [Lit ''tasks''], \<lambda>ps. Machine (ps ! 0) MachineCreateTask),
     (PATCH, machinePath [Lit ''tasks'', Id], \<lambda>ps. Machine (ps ! 0) (MachineUpdateTask (ps ! 1))),
     (DELETE, machinePath [Lit ''tasks'', Id],
        \<lambda>ps. Machine (ps ! 0) (MachineDeleteTask (ps ! 1))),
     (GET, machinePath [Lit ''calendar-events''], \<lambda>ps. Machine (ps ! 0) MachineEvents),
     (GET, machinePath [Lit ''calendar-events'', Id],
        \<lambda>ps. Machine (ps ! 0) (MachineEvent (ps ! 1))),
     (GET, machinePath [Lit ''discovery-blocks''], \<lambda>ps. Machine (ps ! 0) MachineBlocks)]"

definition publicTokenRoutes :: "route list" where
  "publicTokenRoutes =
    [(GET, [Lit ''public'', Lit ''v1'', Lit ''token''], \<lambda>_. MachineToken)]"

definition searchRoutes :: "route list" where
  "searchRoutes =
    [(GET, [Lit ''search''], \<lambda>_. Own Search)]"

text \<open>The controllers in the order their modules are registered.\<close>

definition routeTable :: "route list" where
  "routeTable = healthRoutes @ relationshipRoutes @ notificationRoutes @ userRoutes @ memberRoutes @ projectRoutes @
     blockRoutes @ blockItemRoutes @ itemRoutes @ taskRoutes @ taskCategoryRoutes @ eventRoutes @
     categoryRoutes @ chatRoutes @ apiTokenRoutes @ publicProjectRoutes @ publicTokenRoutes @ searchRoutes"

text \<open>A path is matched literally, parameter by parameter; a parameter is never empty.\<close>

fun matchPath :: "segment list \<Rightarrow> string list \<Rightarrow> (bool \<times> string) list option" where
  "matchPath [] [] = Some []"
| "matchPath (Lit l # ss) (s # path) = (if s = l then matchPath ss path else None)"
| "matchPath (Id # ss) (s # path) = (if s = [] then None else map_option (Cons (True, s)) (matchPath ss path))"
| "matchPath (Raw # ss) (s # path) = (if s = [] then None else map_option (Cons (False, s)) (matchPath ss path))"
| "matchPath _ _ = None"

text \<open>The first matching route: its endpoint and the parameters \<open>ParseUUIDPipe\<close> checks.\<close>

fun resolveIn :: "route list \<Rightarrow> verb \<Rightarrow> string list \<Rightarrow> (endpoint \<times> ident list) option" where
  "resolveIn [] verb path = None"
| "resolveIn ((v, segments, mk) # rs) verb path = (case (if v = verb then matchPath segments path else None) of
     Some params \<Rightarrow> Some (mk (map snd params), map snd (filter fst params))
   | None \<Rightarrow> resolveIn rs verb path)"

definition resolve :: "verb \<Rightarrow> string list \<Rightarrow> (endpoint \<times> ident list) option" where
  "resolve = resolveIn routeTable"

lemmas resolve_defs = resolve_def routeTable_def healthRoutes_def relationshipRoutes_def notificationRoutes_def userRoutes_def memberRoutes_def projectRoutes_def blockRoutes_def blockItemRoutes_def itemRoutes_def
  taskRoutes_def taskCategoryRoutes_def eventRoutes_def categoryRoutes_def chatRoutes_def apiTokenRoutes_def publicProjectRoutes_def publicTokenRoutes_def searchRoutes_def

section \<open>Guards of a route\<close>

fun isPublic :: "endpoint \<Rightarrow> bool" where
  "isPublic Health = True"
| "isPublic StorageHealth = True"
| "isPublic (Avatar k) = True"
| "isPublic _ = False"

fun isMachine :: "endpoint \<Rightarrow> bool" where
  "isMachine (Machine p e) = True"
| "isMachine MachineToken = True"
| "isMachine _ = False"

text \<open>201 for \<open>@Post\<close>, 204 and 200 where \<open>@HttpCode\<close> says so, else 200.\<close>

definition successStatus :: "verb \<Rightarrow> endpoint \<Rightarrow> int" where
  "successStatus v e = (case e of
     InProject p (Lifecycle DeleteProject) \<Rightarrow> 204
   | InProject p (Tokens (RemoveApiToken i)) \<Rightarrow> 204
   | InProject p (Tokens (RevokeApiToken i)) \<Rightarrow> 200
   | _ \<Rightarrow> if v = POST then 201 else 200)"

section \<open>Requests and replies\<close>

datatype input = In_nothing
  | In_relationship relationship_status | In_presence "ident list" | In_user "string option"
  | In_file "(bytes \<times> string) option" | In_member string | In_role new_role
  | In_createProject create_project_dto | In_project update_project_dto
  | In_details update_project_details_dto
  | In_createBlock create_block_dto | In_block update_block_dto
  | In_createBlockItem create_block_item_dto | In_blockItem update_block_item_dto
  | In_createItem create_item_dto | In_item update_item_dto
  | In_createTask create_task_dto | In_task update_task_dto
  | In_createEvent create_event_dto | In_event update_event_dto
  | In_createCategory category_dto | In_category update_category_dto
  | In_messages find_chat_dto | In_message string | In_read mark_chat_read_dto
  | In_token create_token_dto | In_limit "int option" | In_search search_query

datatype ('j, 'o) reply = R_nothing
  | R_health | R_object 'o | R_json "'j option"
  | R_relationships "relationship_row list" | R_relationship relationship_row | R_pair "ident \<times> ident"
  | R_notifications "notification_row list" | R_notification notification_row | R_count nat
  | R_me safe_user | R_presence "(ident \<times> bool) list" | R_user public_user | R_email string | R_done bool
  | R_member member_row | R_members "member_row list"
  | R_projects "project_view list" | R_project project_view
  | R_blocks "block_row list" | R_block block_row
  | R_blockItems "block_item_row list" | R_blockItem block_item_row
  | R_items "checklist_row list" | R_item checklist_row
  | R_tasks "task_view list" | R_task task_view
  | R_events "event_view list" | R_event event_view
  | R_categories "category_row list" | R_category category_row
  | R_messages "chat_view list" | R_message chat_view | R_ids "ident list"
  | R_token "token_principal \<times> string" | R_search search_results

record 'b http_request =
  rq_verb :: verb
  rq_path :: "string list"
  rq_authorization :: header
  rq_apiKey :: header
  rq_fieldLockToken :: header
  rq_body :: 'b

text \<open>
  What surrounds the handlers: the authentication service (\<open>en_auth\<close> for access tokens, \<open>en_keys\<close>
  for API keys, \<open>en_tokens\<close> for managing them), the framework's checks, what others do while a
  handler waits for a lock (\<open>en_wait\<close>) or a query (\<open>en_gap\<close>), the database's text order, case-insensitive
  match and snapshots of a search, the object store, and the database's answer to a ping.
\<close>

record ('b, 'j, 'o) env =
  en_auth :: "string \<Rightarrow> string \<Rightarrow> fetch_result"
  en_keys :: "string \<Rightarrow> string \<Rightarrow> fetch_result"
  en_tokens :: "'j auth_service"
  en_withinRate :: "'b http_request \<Rightarrow> bool"
  en_isUUID :: "string \<Rightarrow> bool"
  en_validate :: "endpoint \<Rightarrow> 'b \<Rightarrow> exn + input"
  en_wait :: "world \<Rightarrow> world"
  en_gap :: "world \<Rightarrow> world"
  en_rank :: "string \<Rightarrow> nat"
  en_ilike :: "string \<Rightarrow> string \<Rightarrow> bool"
  en_touched :: "task_row \<Rightarrow> millis"
  en_snap :: "world \<Rightarrow> nat \<Rightarrow> world"
  en_put :: "string \<Rightarrow> unit service"
  en_del :: "string \<Rightarrow> unit service"
  en_fetch :: "string \<Rightarrow> 'o service"
  en_ping :: bool
  en_storagePing :: bool

section \<open>Finding the controller of a path\<close>

text \<open>All routes of a controller begin with one literal, or with one literal inside a project.\<close>

fun isFirst :: "string \<Rightarrow> segment list \<Rightarrow> bool" where
  "isFirst l (Lit x # ss) = (x = l)"
| "isFirst l _ = False"

fun isUnder :: "string \<Rightarrow> segment list \<Rightarrow> bool" where
  "isUnder l (Lit x # Id # Lit y # ss) = (x = ''projects'' \<and> y = l)"
| "isUnder l _ = False"

definition firstIs :: "string \<Rightarrow> route list \<Rightarrow> bool" where
  "firstIs l rs \<longleftrightarrow> list_all (\<lambda>r. isFirst l (fst (snd r))) rs"

definition inProjectAt :: "string \<Rightarrow> route list \<Rightarrow> bool" where
  "inProjectAt l rs \<longleftrightarrow> list_all (\<lambda>r. isUnder l (fst (snd r))) rs"

lemma resolveIn_append:
  "resolveIn (rs @ qs) v path = (case resolveIn rs v path of None \<Rightarrow> resolveIn qs v path | Some r \<Rightarrow> Some r)"
proof (induction rs)
  case (Cons r rs)
  obtain w ss mk where "r = (w, ss, mk)" by (cases r)
  then show ?case using Cons by (cases "w = v"; cases "matchPath ss path") simp_all
qed simp

lemma resolveIn_None: "(\<And>r. r \<in> set rs \<Longrightarrow> matchPath (fst (snd r)) path = None) \<Longrightarrow> resolveIn rs v path = None"
proof (induction rs)
  case (Cons r rs)
  obtain w ss mk where r: "r = (w, ss, mk)" by (cases r)
  then show ?case using Cons.IH Cons.prems [of r] Cons.prems by simp
qed simp

lemma unmatched_first: "isFirst l ss \<Longrightarrow> s \<noteq> l \<Longrightarrow> matchPath ss (s # path) = None"
  by (induction l ss rule: isFirst.induct) auto

lemma isUnderE: "isUnder l ss \<Longrightarrow> \<exists>rest. ss = Lit ''projects'' # Id # Lit l # rest"
  by (induction l ss rule: isUnder.induct) auto

lemma unmatched_under:
  assumes "isUnder l ss"
  shows "s \<noteq> l \<Longrightarrow> matchPath ss (q # p # s # path) = None" "matchPath ss [q, p] = None" "matchPath ss [q] = None"
    "q \<noteq> ''projects'' \<Longrightarrow> matchPath ss (q # path) = None"
  using isUnderE [OF assms] by (auto split: option.split)

lemma other_first: "firstIs l rs \<Longrightarrow> s \<noteq> l \<Longrightarrow> resolveIn rs v (s # path) = None"
  by (rule resolveIn_None) (auto simp: firstIs_def list_all_iff unmatched_first)

lemma other_in_project:
  "inProjectAt l rs \<Longrightarrow> s \<noteq> l \<Longrightarrow> resolveIn rs v (q # p # s # path) = None"
  "inProjectAt l rs \<Longrightarrow> resolveIn rs v [q, p] = None"
  "inProjectAt l rs \<Longrightarrow> resolveIn rs v [q] = None"
  "inProjectAt l rs \<Longrightarrow> q \<noteq> ''projects'' \<Longrightarrow> resolveIn rs v (q # path) = None"
  by (rule resolveIn_None; force simp: inProjectAt_def list_all_iff intro: unmatched_under)+

lemma first_literals:
  "firstIs ''health'' healthRoutes" "firstIs ''users'' relationshipRoutes" "firstIs ''notifications'' notificationRoutes"
  "firstIs ''users'' userRoutes" "firstIs ''public'' publicProjectRoutes" "firstIs ''public'' publicTokenRoutes"
  "firstIs ''search'' searchRoutes" "firstIs ''projects'' projectRoutes"
  by (simp_all add: firstIs_def healthRoutes_def relationshipRoutes_def notificationRoutes_def userRoutes_def
      publicProjectRoutes_def publicTokenRoutes_def searchRoutes_def projectRoutes_def)

lemma project_literals:
  "inProjectAt ''members'' memberRoutes" "inProjectAt ''discovery-blocks'' blockRoutes"
  "inProjectAt ''discovery-blocks'' blockItemRoutes" "inProjectAt ''evaluation-checklist-items'' itemRoutes"
  "inProjectAt ''tasks'' taskRoutes" "inProjectAt ''task-categories'' taskCategoryRoutes"
  "inProjectAt ''calendar-events'' eventRoutes" "inProjectAt ''calendar-categories'' categoryRoutes"
  "inProjectAt ''api-tokens'' apiTokenRoutes"
  by (simp_all add: inProjectAt_def memberRoutes_def blockRoutes_def blockItemRoutes_def itemRoutes_def taskRoutes_def
      taskCategoryRoutes_def eventRoutes_def categoryRoutes_def apiTokenRoutes_def)

lemmas skip_first = first_literals [THEN other_first]

lemmas skip_project = project_literals [THEN other_in_project(1)] project_literals [THEN other_in_project(2)]
  project_literals [THEN other_in_project(3)] project_literals [THEN other_in_project(4)]

lemmas find_route = resolve_def routeTable_def resolveIn_append skip_first skip_project

end
