(* ===== verification/Controllers.thy ===== *)
theory Controllers
  imports Routes
begin

text \<open>
  The controllers' methods and the way of a request through the guards, pipes and the handler
  (\<open>backend/src/app.module.ts\<close>, every \<open>*.controller.ts\<close>). A user's handler runs in the name of the
  id the authentication service gave for the access token, never of one in the request.
\<close>

definition replies :: "('a \<Rightarrow> ('j, 'o) reply) \<Rightarrow> 'a service \<Rightarrow> ('j, 'o) reply service" where
  "replies f m = andThen m (\<lambda>x. ret (f x))"

definition outcome :: "exn + 'a \<Rightarrow> ('s, 'a) act" where
  "outcome r = (\<lambda>s. (r, s))"

definition badBody :: exn where
  "badBody = BadRequest ''Validation failed''"

definition badId :: exn where
  "badId = BadRequest ''Validation failed (uuid is expected)''"

section \<open>HealthController\<close>

definition unavailable :: exn where
  "unavailable = ServiceUnavailable ''unavailable''"

definition getHealth :: "vault \<Rightarrow> bool \<Rightarrow> ('j, 'o) reply service" where
  "getHealth v ping = andThen (ensure (isReady v) unavailable) (\<lambda>_.
     andThen (ensure ping unavailable) (\<lambda>_. ret R_health))"

definition getStorageHealth :: "vault \<Rightarrow> bool \<Rightarrow> bool \<Rightarrow> ('j, 'o) reply service" where
  "getStorageHealth v ping storagePing = andThen (ensure (isReady v) unavailable) (\<lambda>_.
     andThen (ensure (ping \<and> storagePing) unavailable) (\<lambda>_. ret R_health))"

section \<open>What a user asks for himself\<close>

definition uploadAvatarFile :: "('b, 'j, 'o) env \<Rightarrow> ident \<Rightarrow> (bytes \<times> string) option \<Rightarrow> safe_user service" where
  "uploadAvatarFile env user file = (case file of None \<Rightarrow> throw (BadRequest ''A file is required'')
     | Some (buffer, originalname) \<Rightarrow>
         andThen (ensure (length buffer \<le> MAX_AVATAR_BYTES) (PayloadTooLarge ''File too large'')) (\<lambda>_.
         andThen (ensure (detectImageMimetype buffer \<noteq> None)
           (BadRequest ''Avatar must be a PNG, JPEG, GIF image'')) (\<lambda>_.
         uploadAvatar (en_put env) (en_del env) user originalname)))"

fun serveRelationships :: "('b, 'j, 'o) env \<Rightarrow> ident \<Rightarrow> relationship_endpoint \<Rightarrow> input \<Rightarrow> ('j, 'o) reply service" where
  "serveRelationships env user Relationships i = replies R_relationships (rel_findAll user)"
| "serveRelationships env user (Relationship other) i = replies R_relationships (rel_findById other user)"
| "serveRelationships env user (Befriend other) i = replies R_pair (rel_create (en_gap env) other user)"
| "serveRelationships env user (UpdateRelationship other) i = (case i of
     In_relationship status \<Rightarrow> replies R_relationship (rel_update other status user) | _ \<Rightarrow> throw badBody)"
| "serveRelationships env user (Unfriend other) i = replies (\<lambda>_. R_nothing) (rel_remove other user)"

fun serveNotifications :: "('b, 'j, 'o) env \<Rightarrow> ident \<Rightarrow> notification_endpoint \<Rightarrow> input \<Rightarrow> ('j, 'o) reply service" where
  "serveNotifications env user Notifications i = replies R_notifications (notification_findAllByUser user)"
| "serveNotifications env user ReadAllNotifications i = replies R_count (notification_markAllAsRead user)"
| "serveNotifications env user (ReadNotification n) i = replies R_notification (notification_markAsRead (en_gap env) n user)"
| "serveNotifications env user ClearNotifications i = replies R_count (notification_removeAll user)"
| "serveNotifications env user (DeleteNotification n) i = replies R_notification (notification_remove (en_gap env) n user)"

fun serveUsers :: "('b, 'j, 'o) env \<Rightarrow> ident \<Rightarrow> user_endpoint \<Rightarrow> input \<Rightarrow> ('j, 'o) reply service" where
  "serveUsers env user Me i = replies R_me (user_findMe user)"
| "serveUsers env user Presence i = (case i of
     In_presence ids \<Rightarrow> replies R_presence (getPresence ids user) | _ \<Rightarrow> throw badBody)"
| "serveUsers env user (Profile other) i = replies R_user (user_findById other (Some user))"
| "serveUsers env user (EmailOf other) i = replies R_email (user_findEmail other user)"
| "serveUsers env user UpdateMe i = (case i of
     In_user username \<Rightarrow> replies R_me (user_update user username) | _ \<Rightarrow> throw badBody)"
| "serveUsers env user RemoveMe i = replies R_me (user_remove (en_gap env) user)"
| "serveUsers env user UploadAvatar i = (case i of
     In_file file \<Rightarrow> replies R_me (uploadAvatarFile env user file) | _ \<Rightarrow> throw badBody)"
| "serveUsers env user RemoveAvatar i = replies R_done (removeAvatar (en_del env) user)"

fun serveOwn :: "('b, 'j, 'o) env \<Rightarrow> ident \<Rightarrow> own_endpoint \<Rightarrow> input \<Rightarrow> ('j, 'o) reply service" where
  "serveOwn env user (Social c) i = serveRelationships env user c i"
| "serveOwn env user (Inbox c) i = serveNotifications env user c i"
| "serveOwn env user (Account c) i = serveUsers env user c i"
| "serveOwn env user MyProjects i = replies R_projects (project_findAll user)"
| "serveOwn env user CreateProject i = (case i of
     In_createProject dto \<Rightarrow> replies R_project (project_create dto user) | _ \<Rightarrow> throw badBody)"
| "serveOwn env user Unread i = replies R_ids (chat_findUnreadProjectIds user)"
| "serveOwn env user Search i = (case i of
     In_search query \<Rightarrow> replies R_search
       (gets (\<lambda>w. search (en_ilike env) (en_rank env) (en_touched env) query user (en_snap env w)))
   | _ \<Rightarrow> throw badBody)"

section \<open>What a user asks for in a project\<close>

text \<open>\<open>token\<close> is the header \<open>x-field-lock-token\<close>.\<close>

fun serveBlocks :: "('b, 'j, 'o) env \<Rightarrow> string option \<Rightarrow> ident \<Rightarrow> ident \<Rightarrow> crud \<Rightarrow> input \<Rightarrow> ('j, 'o) reply service" where
  "serveBlocks env token user p All i = replies R_blocks (block_findAll p user)"
| "serveBlocks env token user p (One b) i = replies R_block (block_findById p b user)"
| "serveBlocks env token user p Create i = (case i of
     In_createBlock dto \<Rightarrow> replies R_block (block_create p dto user) | _ \<Rightarrow> throw badBody)"
| "serveBlocks env token user p (Update b) i = (case i of
     In_block dto \<Rightarrow> replies R_block (block_update (en_wait env) (en_gap env) p b dto user token) | _ \<Rightarrow> throw badBody)"
| "serveBlocks env token user p (Remove b) i =
     replies R_block (block_remove (en_wait env) (en_gap env) p b user token)"

fun serveBlockItems :: "('b, 'j, 'o) env \<Rightarrow> ident \<Rightarrow> ident \<Rightarrow> ident \<Rightarrow> crud \<Rightarrow> input \<Rightarrow> ('j, 'o) reply service" where
  "serveBlockItems env user p b All i = replies R_blockItems (blockItem_findAll p b user)"
| "serveBlockItems env user p b (One x) i = replies R_blockItem (blockItem_findById p b x user)"
| "serveBlockItems env user p b Create i = (case i of
     In_createBlockItem dto \<Rightarrow> replies R_blockItem (blockItem_create (en_gap env) p b dto user) | _ \<Rightarrow> throw badBody)"
| "serveBlockItems env user p b (Update x) i = (case i of
     In_blockItem dto \<Rightarrow> replies R_blockItem (blockItem_update (en_gap env) p b x dto user) | _ \<Rightarrow> throw badBody)"
| "serveBlockItems env user p b (Remove x) i = replies R_blockItem (blockItem_remove (en_gap env) p b x user)"

fun serveItems :: "('b, 'j, 'o) env \<Rightarrow> string option \<Rightarrow> ident \<Rightarrow> ident \<Rightarrow> crud \<Rightarrow> input \<Rightarrow> ('j, 'o) reply service" where
  "serveItems env token user p All i = replies R_items (item_findAll p user)"
| "serveItems env token user p (One x) i = replies R_item (item_findById p x user)"
| "serveItems env token user p Create i = (case i of
     In_createItem dto \<Rightarrow> replies R_item (item_create p dto user) | _ \<Rightarrow> throw badBody)"
| "serveItems env token user p (Update x) i = (case i of
     In_item dto \<Rightarrow> replies R_item (item_update (en_wait env) (en_gap env) p x dto user token) | _ \<Rightarrow> throw badBody)"
| "serveItems env token user p (Remove x) i =
     replies R_item (item_remove (en_wait env) (en_gap env) p x user token)"

fun serveTasks :: "('b, 'j, 'o) env \<Rightarrow> ident \<Rightarrow> ident \<Rightarrow> crud \<Rightarrow> input \<Rightarrow> ('j, 'o) reply service" where
  "serveTasks env user p All i = replies R_tasks (task_findAll p user)"
| "serveTasks env user p (One t) i = replies R_task (task_findById t p user)"
| "serveTasks env user p Create i = (case i of
     In_createTask dto \<Rightarrow> replies R_task (task_create (en_gap env) p dto user) | _ \<Rightarrow> throw badBody)"
| "serveTasks env user p (Update t) i = (case i of
     In_task dto \<Rightarrow> replies R_task (task_update (en_gap env) t dto p user) | _ \<Rightarrow> throw badBody)"
| "serveTasks env user p (Remove t) i = replies R_task (task_remove (en_gap env) t p user)"

fun serveEvents :: "('b, 'j, 'o) env \<Rightarrow> ident \<Rightarrow> ident \<Rightarrow> crud \<Rightarrow> input \<Rightarrow> ('j, 'o) reply service" where
  "serveEvents env user p All i = replies R_events (event_findAll p user)"
| "serveEvents env user p (One e) i = replies R_event (event_findById e p user)"
| "serveEvents env user p Create i = (case i of
     In_createEvent dto \<Rightarrow> replies R_event (event_create (en_gap env) p dto user) | _ \<Rightarrow> throw badBody)"
| "serveEvents env user p (Update e) i = (case i of
     In_event dto \<Rightarrow> replies R_event (event_update (en_gap env) e dto p user) | _ \<Rightarrow> throw badBody)"
| "serveEvents env user p (Remove e) i = replies R_event (event_remove (en_gap env) e p user)"

fun serveCategories :: "('b, 'j, 'o) env \<Rightarrow> ident \<Rightarrow> ident \<Rightarrow> crud \<Rightarrow> input \<Rightarrow> ('j, 'o) reply service" where
  "serveCategories env user p All i = replies R_categories (calCategory_findAll (en_rank env) p user)"
| "serveCategories env user p (One c) i = replies R_category (calCategory_findById c p user)"
| "serveCategories env user p Create i = (case i of
     In_createCategory dto \<Rightarrow> replies R_category (calCategory_create p dto user) | _ \<Rightarrow> throw badBody)"
| "serveCategories env user p (Update c) i = (case i of
     In_category dto \<Rightarrow> replies R_category (calCategory_update (en_gap env) c dto p user) | _ \<Rightarrow> throw badBody)"
| "serveCategories env user p (Remove c) i = replies R_category (calCategory_remove (en_gap env) c p user)"

fun serveMembers :: "('b, 'j, 'o) env \<Rightarrow> ident \<Rightarrow> ident \<Rightarrow> member_endpoint \<Rightarrow> input \<Rightarrow> ('j, 'o) reply service" where
  "serveMembers env user p AddMember i = (case i of
     In_member username \<Rightarrow> replies R_member (addMember (en_wait env) p username user) | _ \<Rightarrow> throw badBody)"
| "serveMembers env user p Members i = replies R_members (member_findAll p user)"
| "serveMembers env user p (RemoveMember m) i = replies R_member (removeMember (en_wait env) p m user)"
| "serveMembers env user p (UpdateRole m) i = (case i of
     In_role role \<Rightarrow> replies R_member (updateMemberRole (en_wait env) p m role user) | _ \<Rightarrow> throw badBody)"

fun serveLifecycle :: "('b, 'j, 'o) env \<Rightarrow> ident \<Rightarrow> ident \<Rightarrow> lifecycle_endpoint \<Rightarrow> input \<Rightarrow> ('j, 'o) reply service" where
  "serveLifecycle env user p Project i = replies R_project (project_findById p user)"
| "serveLifecycle env user p DeleteProject i = replies (\<lambda>_. R_nothing) (project_remove (en_gap env) p user)"
| "serveLifecycle env user p UpdateProject i = (case i of
     In_project dto \<Rightarrow> replies R_project (project_update (en_gap env) p dto user) | _ \<Rightarrow> throw badBody)"
| "serveLifecycle env user p UpdateDetails i = (case i of
     In_details dto \<Rightarrow> replies R_project (project_updateDetails (en_gap env) p dto user) | _ \<Rightarrow> throw badBody)"

fun serveChat :: "('b, 'j, 'o) env \<Rightarrow> ident \<Rightarrow> ident \<Rightarrow> chat_endpoint \<Rightarrow> input \<Rightarrow> ('j, 'o) reply service" where
  "serveChat env user p Messages i = (case i of
     In_messages query \<Rightarrow> replies R_messages (chat_findAll p user query) | _ \<Rightarrow> throw badBody)"
| "serveChat env user p CreateMessage i = (case i of
     In_message content \<Rightarrow> replies R_message (chat_create (en_wait env) (en_gap env) p user content) | _ \<Rightarrow> throw badBody)"
| "serveChat env user p ReadMessages i = (case i of
     In_read dto \<Rightarrow> replies (\<lambda>_. R_nothing) (chat_markRead p user dto) | _ \<Rightarrow> throw badBody)"
| "serveChat env user p (RemoveMessage m) i =
     replies R_message (chat_remove (en_wait env) (en_gap env) p m user)"

fun serveTokens :: "('b, 'j, 'o) env \<Rightarrow> ident \<Rightarrow> ident \<Rightarrow> token_endpoint \<Rightarrow> input \<Rightarrow> ('j, 'o) reply service" where
  "serveTokens env user p ApiTokens i = replies R_json (tokens_list (en_tokens env) p user)"
| "serveTokens env user p CreateApiToken i = (case i of
     In_token dto \<Rightarrow> replies R_json (tokens_create (en_tokens env) (en_wait env) p user dto) | _ \<Rightarrow> throw badBody)"
| "serveTokens env user p (RevokeApiToken t) i =
     replies R_json (tokens_revoke (en_tokens env) (en_wait env) p t user)"
| "serveTokens env user p (RemoveApiToken t) i =
     replies R_json (tokens_remove (en_tokens env) (en_wait env) p t user)"

fun serveProject :: "('b, 'j, 'o) env \<Rightarrow> string option \<Rightarrow> ident \<Rightarrow> ident \<Rightarrow> project_endpoint \<Rightarrow> input \<Rightarrow> ('j, 'o) reply service" where
  "serveProject env token user p (Membership c) i = serveMembers env user p c i"
| "serveProject env token user p (Lifecycle c) i = serveLifecycle env user p c i"
| "serveProject env token user p (Chat c) i = serveChat env user p c i"
| "serveProject env token user p (Tokens c) i = serveTokens env user p c i"
| "serveProject env token user p (Blocks c) i = serveBlocks env token user p c i"
| "serveProject env token user p (BlockItems b c) i = serveBlockItems env user p b c i"
| "serveProject env token user p (Items c) i = serveItems env token user p c i"
| "serveProject env token user p (Tasks c) i = serveTasks env user p c i"
| "serveProject env token user p TaskCategories i = replies R_categories (taskCategory_findAll (en_rank env) p user)"
| "serveProject env token user p (Events c) i = serveEvents env user p c i"
| "serveProject env token user p (Categories c) i = serveCategories env user p c i"

section \<open>What a machine asks for\<close>

text \<open>
  The checks of the other path parameters and of the body come after the token and the limiter.
\<close>

definition pipes :: "('b, 'j, 'o) env \<Rightarrow> ident list \<Rightarrow> endpoint \<Rightarrow> 'b \<Rightarrow> ('s, input) act" where
  "pipes env ids e body = andThen (ensure (list_all (en_isUUID env) ids) badId) (\<lambda>_. outcome (en_validate env e body))"

fun serveMachine :: "('b, 'j, 'o) env \<Rightarrow> (string \<Rightarrow> fetch_result) \<Rightarrow> ident list \<Rightarrow> 'b http_request \<Rightarrow> ident \<Rightarrow>
    machine_endpoint \<Rightarrow> (api, ('j, 'o) reply) act" where
  "serveMachine env keys ids r p MachineTasks = machineRead keys (en_isUUID env) p (rq_apiKey r)
     (andThen (pipes env ids (Machine p MachineTasks) (rq_body r)) (\<lambda>i. case i of
        In_limit limit \<Rightarrow> andThen (pageSize limit) (\<lambda>n. replies R_tasks (task_findAllForProject p (Some n)))
      | _ \<Rightarrow> throw badBody))"
| "serveMachine env keys ids r p (MachineTask t) = machineRead keys (en_isUUID env) p (rq_apiKey r)
     (andThen (pipes env ids (Machine p (MachineTask t)) (rq_body r)) (\<lambda>_.
        replies R_task (task_findByIdForProject t p)))"
| "serveMachine env keys ids r p MachineCreateTask = machineWrite keys (en_isUUID env) p (rq_apiKey r)
     (\<lambda>tokenId. andThen (pipes env ids (Machine p MachineCreateTask) (rq_body r)) (\<lambda>i. case i of
        In_createTask dto \<Rightarrow> replies R_task (task_createForMachine (en_gap env) p dto tokenId)
      | _ \<Rightarrow> throw badBody))"
| "serveMachine env keys ids r p (MachineUpdateTask t) = machineWrite keys (en_isUUID env) p (rq_apiKey r)
     (\<lambda>tokenId. andThen (pipes env ids (Machine p (MachineUpdateTask t)) (rq_body r)) (\<lambda>i. case i of
        In_task dto \<Rightarrow> replies R_task (task_updateForMachine (en_gap env) t dto p tokenId)
      | _ \<Rightarrow> throw badBody))"
| "serveMachine env keys ids r p (MachineDeleteTask t) = machineWrite keys (en_isUUID env) p (rq_apiKey r)
     (\<lambda>tokenId. andThen (pipes env ids (Machine p (MachineDeleteTask t)) (rq_body r)) (\<lambda>_.
        replies R_task (task_removeForMachine (en_gap env) t p tokenId)))"
| "serveMachine env keys ids r p MachineEvents = machineRead keys (en_isUUID env) p (rq_apiKey r)
     (andThen (pipes env ids (Machine p MachineEvents) (rq_body r)) (\<lambda>i. case i of
        In_limit limit \<Rightarrow> andThen (pageSize limit) (\<lambda>n. replies R_events (event_findAllForProject p (Some n)))
      | _ \<Rightarrow> throw badBody))"
| "serveMachine env keys ids r p (MachineEvent e) = machineRead keys (en_isUUID env) p (rq_apiKey r)
     (andThen (pipes env ids (Machine p (MachineEvent e)) (rq_body r)) (\<lambda>_.
        replies R_event (event_findByIdForProject e p)))"
| "serveMachine env keys ids r p MachineBlocks = machineRead keys (en_isUUID env) p (rq_apiKey r)
     (andThen (pipes env ids (Machine p MachineBlocks) (rq_body r)) (\<lambda>i. case i of
        In_limit limit \<Rightarrow> andThen (pageSize limit) (\<lambda>n. replies R_blocks (block_findAllForProject p (Some n)))
      | _ \<Rightarrow> throw badBody))"

section \<open>One request\<close>

definition tooManyRequests :: exn where
  "tooManyRequests = TooManyRequests ''ThrottlerException: Too Many Requests''"

definition routeNotFound :: exn where
  "routeNotFound = NotFound ''Cannot find the route''"

text \<open>The handler of a route that is not for machines; a public one has no user.\<close>

definition handler :: "('b, 'j, 'o) env \<Rightarrow> vault \<Rightarrow> string option \<Rightarrow> request_user option \<Rightarrow> endpoint \<Rightarrow> input \<Rightarrow>
    ('j, 'o) reply service" where
  "handler env v token user e i = (case e of
     Health \<Rightarrow> getHealth v (en_ping env)
   | StorageHealth \<Rightarrow> getStorageHealth v (en_ping env) (en_storagePing env)
   | Avatar key \<Rightarrow> replies R_object (getAvatar (en_fetch env) key)
   | Own own \<Rightarrow> (case user of None \<Rightarrow> throw (JsError ''TypeError'') | Some u \<Rightarrow> serveOwn env (ru_id u) own i)
   | InProject p pe \<Rightarrow> (case user of None \<Rightarrow> throw (JsError ''TypeError'')
       | Some u \<Rightarrow> serveProject env token (ru_id u) p pe i)
   | _ \<Rightarrow> throw (JsError ''TypeError''))"

definition dispatch :: "('b, 'j, 'o) env \<Rightarrow> vault \<Rightarrow> 'b http_request \<Rightarrow> (api, ('j, 'o) reply) act" where
  "dispatch env v r = (case resolve (rq_verb r) (rq_path r) of
     None \<Rightarrow> throw routeNotFound
   | Some (e, ids) \<Rightarrow>
       andThen (ensure (en_withinRate env r) tooManyRequests) (\<lambda>_.
       andThen (outcome (readiness_canActivate (isPublic e) v)) (\<lambda>_.
       andThen (outcome (auth_canActivate (internalFetch v (en_auth env)) (isPublic e) (isMachine e)
         (rq_authorization r))) (\<lambda>user.
       case e of
         Machine p me \<Rightarrow> serveMachine env (internalFetch v (en_keys env)) ids r p me
       | MachineToken \<Rightarrow> andThen (public_introspect (internalFetch v (en_keys env)) (en_isUUID env) (rq_apiKey r))
           (\<lambda>x. ret (R_token x))
       | _ \<Rightarrow> onWorld (andThen (pipes env ids e (rq_body r)) (\<lambda>i.
           handler env v (firstHeaderValue (rq_fieldLockToken r)) user e i))))))"

text \<open>The response: a status with the reply or the message of the error.\<close>

definition respond :: "verb \<Rightarrow> endpoint option \<Rightarrow> exn + ('j, 'o) reply \<Rightarrow> int \<times> (string + ('j, 'o) reply)" where
  "respond v e result = (case result of
     Inl x \<Rightarrow> (httpStatus x, Inl (httpMessage x))
   | Inr a \<Rightarrow> (case e of None \<Rightarrow> 404 | Some e \<Rightarrow> successStatus v e, Inr a))"

section \<open>Outsiders\<close>

text \<open>Two worlds with the same rows: what may differ are leases, sockets, broadcasts, clock and id supply.\<close>

definition sameTables :: "world \<Rightarrow> world \<Rightarrow> bool" where
  "sameTables w t \<longleftrightarrow> users t = users w \<and> members t = members w \<and> projects t = projects w \<and> tasks t = tasks w \<and>
     taskAssignees t = taskAssignees w \<and> taskCategories t = taskCategories w \<and> calEvents t = calEvents w \<and>
     calCategories t = calCategories w \<and> calAssignees t = calAssignees w \<and> blocks t = blocks w \<and>
     blockItems t = blockItems w \<and> checklist t = checklist w \<and> messages t = messages w \<and>
     readStates t = readStates w \<and> notifications t = notifications w \<and> relationships t = relationships w \<and>
     audits t = audits w"

definition blockLeaseRequired :: exn where
  "blockLeaseRequired = Forbidden ''A current editing lease is required to update this category''"

definition outsiderErrors :: "exn set" where
  "outsiderErrors = {projectNotFound, badBody, itemLeaseRequired, blockLeaseRequired}"

text \<open>
  \<open>shut env w m\<close>: run at \<open>w\<close>, \<open>m\<close> fails with an error that tells nothing about the project, and
  leaves the world as it was or as the others left it while the request waited; the one thing it may
  do is clear a lease that has expired.
\<close>

definition shut :: "('b, 'j, 'o) env \<Rightarrow> world \<Rightarrow> 'a service \<Rightarrow> bool" where
  "shut env w m \<longleftrightarrow> (\<exists>e. fst (m w) = Inl e \<and> e \<in> outsiderErrors) \<and>
     (snd (m w) = w \<or> snd (m w) = en_wait env w \<or>
      sameTables (en_wait env w) (snd (m w)) \<and>
        (\<exists>key l. leaseAt (en_wait env w) key = Some l \<and> l_expiresAt l \<le> clock (en_wait env w)))"

lemma shut_replies: "shut env w m \<Longrightarrow> shut env w (replies f m)"
  by (auto simp: shut_def replies_def andThen_run split: prod.splits sum.splits)

lemma shut_badBody: "shut env w (throw badBody)"
  by (simp add: shut_def throw_run outsiderErrors_def)

lemma shut_now: "m w = (Inl projectNotFound, w) \<Longrightarrow> shut env w m"
  by (simp add: shut_def outsiderErrors_def)

lemma shut_waited: "m w = (Inl projectNotFound, en_wait env w) \<Longrightarrow> shut env w m"
  by (simp add: shut_def outsiderErrors_def)

lemma denied_then: "m w = (Inl e, t) \<Longrightarrow> andThen m f w = (Inl e, t)"
  by (simp add: andThen_run)

lemma denied_catching:
  "m w = (Inl projectNotFound, t) \<Longrightarrow> (h projectNotFound = throw projectNotFound) \<Longrightarrow>
   catching m h w = (Inl projectNotFound, t)"
  by (simp add: catching_run throw_run)

lemma waited: "withProject wait m w = m (wait w)" "withProjectResource wait m w = m (wait w)"
  by (simp_all add: withProject_def withProjectResource_def run_simps)

lemma find_denied:
  assumes "\<not> isMember w p u"
  shows "task_findById i p u w = (Inl projectNotFound, w)" "event_findById i p u w = (Inl projectNotFound, w)"
    "block_findById p i u w = (Inl projectNotFound, w)" "item_findById p i u w = (Inl projectNotFound, w)"
    "calCategory_findById i p u w = (Inl projectNotFound, w)"
  by (simp_all add: task_findById_def event_findById_def block_findById_def item_findById_def resourceGuard_def
      calCategory_findById_def andThen_run nonmember_throws [OF assms])

lemmas handler_defs = task_findAll_def task_create_def task_createAs_def task_update_def task_updateAs_def
  task_remove_def task_removeAs_def event_findAll_def event_create_def event_update_def event_remove_def
  calCategory_create_def calCategory_findAll_def calCategory_update_def calCategory_remove_def
  taskCategory_findAll_def block_findAll_def block_create_def blockItem_findAll_def blockItem_findById_def
  blockItem_create_def blockItem_update_def blockItem_remove_def item_findAll_def item_create_def
  chat_findAll_def chat_markRead_def member_findAll_def project_findById_def project_remove_def
  project_update_def project_updateDetails_def tokens_list_def

lemma service_denied:
  assumes "\<not> isMember w p u"
  shows
    "task_findAll p u w = (Inl projectNotFound, w)" "task_create gap p ctd u w = (Inl projectNotFound, w)"
    "task_update gap i utd p u w = (Inl projectNotFound, w)" "task_remove gap i p u w = (Inl projectNotFound, w)"
    "event_findAll p u w = (Inl projectNotFound, w)" "event_create gap p ced u w = (Inl projectNotFound, w)"
    "event_update gap i ued p u w = (Inl projectNotFound, w)" "event_remove gap i p u w = (Inl projectNotFound, w)"
    "calCategory_create p cd u w = (Inl projectNotFound, w)" "calCategory_findAll rank p u w = (Inl projectNotFound, w)"
    "calCategory_update gap i ucd p u w = (Inl projectNotFound, w)"
    "calCategory_remove gap i p u w = (Inl projectNotFound, w)" "taskCategory_findAll rank p u w = (Inl projectNotFound, w)"
    "block_findAll p u w = (Inl projectNotFound, w)" "block_create p cbd u w = (Inl projectNotFound, w)"
    "blockItem_findAll p b u w = (Inl projectNotFound, w)" "blockItem_findById p b i u w = (Inl projectNotFound, w)"
    "blockItem_create gap p b cbi u w = (Inl projectNotFound, w)"
    "blockItem_update gap p b i ubi u w = (Inl projectNotFound, w)"
    "blockItem_remove gap p b i u w = (Inl projectNotFound, w)"
    "item_findAll p u w = (Inl projectNotFound, w)" "item_create p cci u w = (Inl projectNotFound, w)"
    "chat_findAll p u fcd w = (Inl projectNotFound, w)" "chat_markRead p u mcd w = (Inl projectNotFound, w)"
    "member_findAll p u w = (Inl projectNotFound, w)" "project_findById p u w = (Inl projectNotFound, w)"
    "project_remove gap p u w = (Inl projectNotFound, w)" "project_update gap p upd u w = (Inl projectNotFound, w)"
    "project_updateDetails gap p udd u w = (Inl projectNotFound, w)" "tokens_list send p u w = (Inl projectNotFound, w)"
  by (simp_all add: handler_defs andThen_run nonmember_throws [OF assms] find_denied [OF assms])

lemma waiting_denied:
  assumes "\<not> isMember (wait w) p u"
  shows "addMember wait p n u w = (Inl projectNotFound, wait w)"
    "removeMember wait p m u w = (Inl projectNotFound, wait w)"
    "updateMemberRole wait p m r u w = (Inl projectNotFound, wait w)"
    "chat_create wait gap p u c w = (Inl projectNotFound, wait w)"
    "chat_remove wait gap p i u w = (Inl projectNotFound, wait w)"
    "tokens_create send wait p u cto w = (Inl projectNotFound, wait w)"
    "tokens_revoke send wait p i u w = (Inl projectNotFound, wait w)"
    "tokens_remove send wait p i u w = (Inl projectNotFound, wait w)"
    "block_remove wait gap p i u tok w = (Inl projectNotFound, wait w)"
    "item_remove wait gap p i u tok w = (Inl projectNotFound, wait w)"
  by (simp_all add: addMember_def removeMember_def checkRemoval_def updateMemberRole_def checkRoleChange_def
      chat_create_def chat_remove_def tokens_create_def tokens_revoke_def tokens_remove_def requireManager_def
      block_remove_def item_remove_def deleteItem_def waited andThen_run catching_run throw_run
      nonmember_throws [OF assms] find_denied [OF assms] projectNotFound_def isRecordNotFoundError_def)

lemma sameTables_keeps:
  "keeps (sameTables w) (releaseResource key)" "keeps (sameTables w) (expirationHandler r)"
  by (rule keeps_leases; simp add: sameTables_def)+

lemma expirationHandler_ok: "\<exists>t. expirationHandler r w = (Inr (), t)"
  by (auto simp: expirationHandler_def emitFieldUnlock_def run_simps broadcast_def split: option.split prod.split)

lemma lease_denied:
  assumes "authorize (wait w) = (Inl projectNotFound, wait w)"
  shows "\<exists>e t. withValidatedLease wait p key u tok authorize operation w = (Inl e, t) \<and>
    (e = FieldLockLeaseError \<or> e = projectNotFound) \<and>
    (t = wait w \<or> sameTables (wait w) t \<and> (\<exists>l. leaseAt (wait w) key = Some l \<and> l_expiresAt l \<le> clock (wait w)))"
proof (cases "leaseAt (wait w) key")
  case None
  then show ?thesis by (simp add: withValidatedLease_def waited run_simps)
next
  case (Some l)
  let ?r = "Some (key, toPublicLock l)"
  obtain t where t: "expirationHandler ?r (dropLease key (wait w)) = (Inr (), t)"
    using expirationHandler_ok by blast
  have "sameTables (wait w) (dropLease key (wait w))"
    using keepsD [OF sameTables_keeps(1), of "wait w" "wait w" key] Some
    by (simp add: releaseResource_run sameTables_def)
  then have "sameTables (wait w) t"
    using keepsD [OF sameTables_keeps(2), of "wait w" "dropLease key (wait w)" ?r] t by simp
  then show ?thesis
    using Some assms t by (auto simp: withValidatedLease_def waited run_simps)
qed

lemma lease_shut:
  assumes "authorize (en_wait env w) = (Inl projectNotFound, en_wait env w)" and "required \<in> outsiderErrors"
    and "h FieldLockLeaseError = throw required" and "h projectNotFound = throw projectNotFound"
  shows "shut env w (catching (withValidatedLease (en_wait env) p key u tok authorize operation) h)"
  using lease_denied [where wait = "en_wait env" and w = w and authorize = authorize, OF assms(1), of p key u tok operation] assms(2,3,4)
  by (auto simp: shut_def catching_run throw_run outsiderErrors_def)

lemma shut_then: "shut env w m \<Longrightarrow> shut env w (andThen m f)"
  by (auto simp: shut_def andThen_run split: prod.splits sum.splits)

lemma block_update_shut:
  assumes "\<not> isMember (en_wait env w) p u"
  shows "shut env w (block_update (en_wait env) gap p b dto u tok)"
  unfolding block_update_def blockLeaseRequired_def [symmetric]
  by (intro shut_then lease_shut)
     (simp_all add: find_denied [OF assms] outsiderErrors_def projectNotFound_def isRecordNotFoundError_def)

lemma item_update_shut:
  assumes "\<not> isMember w p u" and "\<not> isMember (en_wait env w) p u"
  shows "shut env w (item_update (en_wait env) gap p i dto u tok)"
proof -
  have "shut env w (catching (withValidatedLease (en_wait env) p key u tok (item_findById p i u) operation)
     (\<lambda>e. if e = FieldLockLeaseError then throw itemLeaseRequired else throw e))" for key operation
    by (rule lease_shut) (simp_all add: find_denied [OF assms(2)] outsiderErrors_def projectNotFound_def)
  then show ?thesis
    unfolding item_update_def
    by (intro shut_then) (auto simp: find_denied [OF assms(1)] shut_now andThen_run split: option.split)
qed

lemma shut_reply:
  "m w = (Inl projectNotFound, w) \<or> m w = (Inl projectNotFound, en_wait env w) \<Longrightarrow> shut env w (replies f m)"
  by (rule shut_replies) (auto intro: shut_now shut_waited)

lemma project_shut:
  assumes "\<not> isMember w p u" and "\<not> isMember (en_wait env w) p u"
  shows "shut env w (serveProject env token u p pe i)"
proof -
  note closed = service_denied [OF assms(1)] find_denied [OF assms(1)]
    waiting_denied [where wait = "en_wait env", OF assms(2)] shut_badBody shut_reply
    shut_replies [OF block_update_shut [OF assms(2)]] shut_replies [OF item_update_shut [OF assms]]
  have "shut env w (serveBlocks env token u p c i)" "shut env w (serveItems env token u p c i)"
    "shut env w (serveTasks env u p c i)" "shut env w (serveEvents env u p c i)"
    "shut env w (serveCategories env u p c i)" "shut env w (serveBlockItems env u p b c i)" for b c
    by (cases c; simp add: closed split: input.split)+
  moreover have "shut env w (serveMembers env u p c i)" for c
    by (cases c) (simp_all add: closed split: input.split)
  moreover have "shut env w (serveLifecycle env u p c i)" for c
    by (cases c) (simp_all add: closed split: input.split)
  moreover have "shut env w (serveChat env u p c i)" for c
    by (cases c) (simp_all add: closed split: input.split)
  moreover have "shut env w (serveTokens env u p c i)" for c
    by (cases c) (simp_all add: closed split: input.split)
  ultimately show ?thesis by (cases pe) (simp_all add: closed split: input.split)
qed

text \<open>A request resolved to a route of the project, in the name of an outsider.\<close>

lemma project_dispatch:
  assumes "resolve (rq_verb r) (rq_path r) = Some (InProject p pe, ids)"
    and "auth_canActivate (internalFetch v (en_auth env)) False False (rq_authorization r) = Inr (Some u)"
  shows "dispatch env v r s =
     (if \<not> en_withinRate env r then (Inl tooManyRequests, s)
      else if \<not> isReady v then (Inl vaultUnavailable, s)
      else if \<not> list_all (en_isUUID env) ids then (Inl badId, s)
      else case en_validate env (InProject p pe) (rq_body r) of Inl e \<Rightarrow> (Inl e, s)
        | Inr i \<Rightarrow> onWorld (serveProject env (firstHeaderValue (rq_fieldLockToken r)) (ru_id u) p pe i) s)"
  using assms
  by (auto simp: dispatch_def andThen_run ensure_run outcome_def readiness_canActivate_def pipes_def onWorld_def
      handler_def split: sum.split)

lemma httpStatus_error: "400 \<le> httpStatus e"
  by (cases e) (auto simp: prismaStatus_def PRISMA_ERROR_STATUS_def)

text \<open>The key of a machine request names no token.\<close>

definition noToken :: "('b, 'j, 'o) env \<Rightarrow> vault \<Rightarrow> 'b http_request \<Rightarrow> bool" where
  "noToken env v r \<longleftrightarrow> (\<forall>key status body. firstHeaderValue (rq_apiKey r) = Some key \<and>
     internalFetch v (en_keys env) key = Fetch_response status (Some body) \<and> responseOk status \<longrightarrow>
     introspectionOf body = None)"

lemma noToken_denied:
  "noToken env v r \<Longrightarrow> \<not> tokenAllowed (internalFetch v (en_keys env)) isUUID required w p (rq_apiKey r) t"
  unfolding noToken_def tokenAllowed_def by (auto simp: firstHeaderValue_def)

lemma machine_denied:
  assumes "noToken env v r"
  shows "\<exists>e. serveMachine env (internalFetch v (en_keys env)) ids r p me s = (Inl e, s)"
  by (cases me) (simp_all add: machineRead_denied machineWrite_denied noToken_denied [OF assms])

lemma reads_denied: "reads m \<Longrightarrow> (\<And>a t. m w \<noteq> (Inr a, t)) \<Longrightarrow> \<exists>e. m w = (Inl e, w)"
  by (cases "m w"; cases "fst (m w)") (auto dest: readsD)

lemma self_denied:
  assumes "noToken env v r"
  shows "\<exists>e. public_introspect (internalFetch v (en_keys env)) isUUID (rq_apiKey r) s = (Inl e, s)"
proof -
  let ?keys = "internalFetch v (en_keys env)"
  have "token_canActivate ?keys isUUID None True (None, rq_apiKey r) w \<noteq> (Inr a, t)" for w a t
    using assms unfolding token_canActivate_def noToken_def
    by (auto simp: success_iffs introspect_Inr split: option.split)
  then obtain e where "token_canActivate ?keys isUUID None True (None, rq_apiKey r) (api_world s) = (Inl e, api_world s)"
    using reads_denied [OF reads_token] by blast
  then show ?thesis by (simp add: public_introspect_def onWorld_def andThen_run)
qed

end
