(* ===== verification/BrowserApi.thy ===== *)
theory BrowserApi
  imports Json SearchPage PublicApi Users Members
begin

text \<open>
  The browser's API clients (\<open>frontend/src/lib/apiClient.ts\<close> and the modules over it:
  \<open>tasks.ts\<close>, \<open>taskCategories.ts\<close>, \<open>discoveryBlocks.ts\<close>, \<open>discoveryBlockItems.ts\<close>,
  \<open>calendarEventsApi.ts\<close>, \<open>calendarCategoriesApi.ts\<close>, \<open>evaluationChecklist.ts\<close>, \<open>projectsApi.ts\<close>,
  \<open>projectMembersApi.ts\<close>, \<open>friendsApi.ts\<close>, \<open>chatApi.ts\<close>, \<open>notificationsApi.ts\<close>, \<open>usersApi.ts\<close>,
  \<open>userSettingsApi.tsx\<close>, \<open>projectApiTokensApi.ts\<close>, \<open>searchApi.ts\<close>). A call is the request it sends and
  what it makes of the response. Dates stay the strings they are on the wire.
\<close>

section \<open>apiClient\<close>

datatype browser_error = Api_error int string | Js_error string

datatype request_body = Empty_body | Json_body json | Form_body

record api_request =
  aq_verb :: verb
  aq_path :: string
  aq_query :: "(string \<times> string) list"
  aq_fieldLockToken :: "string option"
  aq_body :: request_body

definition plain :: "verb \<Rightarrow> string \<Rightarrow> api_request" where
  "plain v path = \<lparr>aq_verb = v, aq_path = path, aq_query = [], aq_fieldLockToken = None, aq_body = Empty_body\<rparr>"

definition sending :: "verb \<Rightarrow> string \<Rightarrow> (string \<times> json) list \<Rightarrow> api_request" where
  "sending v path body = (plain v path)\<lparr>aq_body := Json_body (JObj body)\<rparr>"

definition requestHeaders :: "api_request \<Rightarrow> (string \<times> string) list" where
  "requestHeaders r =
     (case aq_fieldLockToken r of None \<Rightarrow> [] | Some t \<Rightarrow> [(''X-Field-Lock-Token'', t)]) @
     (case aq_body r of Json_body b \<Rightarrow> [(''Content-Type'', ''application/json'')] | _ \<Rightarrow> []) @
     [(''Accept'', ''application/json'')]"

definition joinComma :: "string list \<Rightarrow> string" where
  "joinComma ss = concat (case ss of [] \<Rightarrow> [] | s # rest \<Rightarrow> s # map (\<lambda>t. '', '' @ t) rest)"

definition readErrorMessage :: "response \<Rightarrow> string" where
  "readErrorMessage r =
     (let fallback = ''API request failed ('' @ showDecimal (nat (rp_status r)) @ '')'' in
      if \<not> rp_isJson r then fallback
      else case Option.bind (rp_body r) (\<lambda>v. property v ''message'') of
        Some (JStr s) \<Rightarrow> if s \<noteq> [] then s else fallback
      | Some (JArr vs) \<Rightarrow>
          (let messages = concat (map (\<lambda>v. case v of JStr s \<Rightarrow> [s] | _ \<Rightarrow> []) vs)
           in if messages \<noteq> [] then joinComma messages else fallback)
      | _ \<Rightarrow> fallback)"

text \<open>A success is read as JSON unless its status is 204; the value may be \<open>undefined\<close>.\<close>

definition apiResult :: "response \<Rightarrow> browser_error + json option" where
  "apiResult r =
     (if \<not> responseOk (rp_status r) then Inl (Api_error (rp_status r) (readErrorMessage r))
      else if rp_status r = 204 then Inr None
      else case rp_body r of None \<Rightarrow> Inl (Js_error ''SyntaxError'') | Some v \<Rightarrow> Inr (Some v))"

type_synonym 'a call = "api_request \<times> (response \<Rightarrow> browser_error + 'a)"

definition apiClient :: "api_request \<Rightarrow> (json option \<Rightarrow> browser_error + 'a) \<Rightarrow> 'a call" where
  "apiClient r read = (r, \<lambda>response. case apiResult response of Inl e \<Rightarrow> Inl e | Inr payload \<Rightarrow> read payload)"

text \<open>A payload that must parse, and a list of such; \<open>apiClient<void>\<close> ignores the payload.\<close>

definition readOne :: "string \<Rightarrow> (json \<Rightarrow> 'a option) \<Rightarrow> json option \<Rightarrow> browser_error + 'a" where
  "readOne msg parse payload = (case Option.bind payload parse of None \<Rightarrow> Inl (Js_error msg) | Some x \<Rightarrow> Inr x)"

definition readList :: "string \<Rightarrow> string \<Rightarrow> (json \<Rightarrow> 'a option) \<Rightarrow> json option \<Rightarrow> browser_error + 'a list" where
  "readList msg itemMsg parse payload = (case payload of
     Some (JArr vs) \<Rightarrow> (case parseAll parse vs of None \<Rightarrow> Inl (Js_error itemMsg) | Some xs \<Rightarrow> Inr xs)
   | _ \<Rightarrow> Inl (Js_error msg))"

definition ignore :: "json option \<Rightarrow> browser_error + unit" where
  "ignore payload = Inr ()"

definition inProjectPath :: "ident \<Rightarrow> string \<Rightarrow> string" where
  "inProjectPath p rest = ''/projects/'' @ p @ rest"

section \<open>Enumerations\<close>

definition taskStatuses :: "(string \<times> task_status) list" where
  "taskStatuses = [(''TODO'', TODO), (''IN_PROGRESS'', IN_PROGRESS), (''REVIEW'', REVIEW), (''COMPLETED'', COMPLETED)]"

definition taskPriorities :: "(string \<times> task_priority) list" where
  "taskPriorities = [(''LOW'', LOW), (''MEDIUM'', MEDIUM), (''HIGH'', HIGH)]"

definition blockStatuses :: "(string \<times> block_status) list" where
  "blockStatuses = [(''NOT_STARTED'', NOT_STARTED), (''IN_PROGRESS'', B_IN_PROGRESS), (''COMPLETED'', B_COMPLETED)]"

definition EVALUATION_CHECKLIST_SECTIONS :: "(string \<times> checklist_section) list" where
  "EVALUATION_CHECKLIST_SECTIONS = [(''MANDATORY'', MANDATORY), (''BONUS'', BONUS), (''SUPPLEMENTAL'', SUPPLEMENTAL)]"

definition projectStatuses :: "(string \<times> project_status) list" where
  "projectStatuses = [(''IN_PROGRESS'', P_IN_PROGRESS), (''REVIEW'', P_REVIEW), (''COMPLETED'', P_COMPLETED)]"

definition memberRoles :: "(string \<times> member_role) list" where
  "memberRoles = [(''OWNER'', OWNER), (''ADMIN'', ADMIN), (''MEMBER'', MEMBER)]"

definition relationshipStatuses :: "(string \<times> relationship_status) list" where
  "relationshipStatuses =
     [(''PENDING_APPROVAL'', PENDING_APPROVAL), (''ACCEPTED'', ACCEPTED), (''BLOCKED'', BLOCKED)]"

definition tokenPermissions :: "(string \<times> token_permission) list" where
  "tokenPermissions = [(''READ'', READ), (''READ_WRITE'', READ_WRITE)]"

text \<open>The name a value of an enumeration has on the wire.\<close>

definition nameIn :: "(string \<times> 'a) list \<Rightarrow> 'a \<Rightarrow> string" where
  "nameIn names x = (case List.find (\<lambda>e. snd e = x) names of None \<Rightarrow> [] | Some e \<Rightarrow> fst e)"

lemmas tables_def = taskStatuses_def taskPriorities_def blockStatuses_def EVALUATION_CHECKLIST_SECTIONS_def
  projectStatuses_def memberRoles_def relationshipStatuses_def tokenPermissions_def

lemma names_parse [simp]:
  "map_of taskStatuses (nameIn taskStatuses s) = Some s"
  "map_of taskPriorities (nameIn taskPriorities p) = Some p"
  "map_of blockStatuses (nameIn blockStatuses b) = Some b"
  "map_of EVALUATION_CHECKLIST_SECTIONS (nameIn EVALUATION_CHECKLIST_SECTIONS c) = Some c"
  "map_of projectStatuses (nameIn projectStatuses q) = Some q"
  "map_of memberRoles (nameIn memberRoles r) = Some r"
  "map_of relationshipStatuses (nameIn relationshipStatuses t) = Some t"
  "map_of tokenPermissions (nameIn tokenPermissions k) = Some k"
proof -
  show "map_of taskStatuses (nameIn taskStatuses s) = Some s" by (cases s) (simp_all add: tables_def nameIn_def)
  show "map_of taskPriorities (nameIn taskPriorities p) = Some p" by (cases p) (simp_all add: tables_def nameIn_def)
  show "map_of blockStatuses (nameIn blockStatuses b) = Some b" by (cases b) (simp_all add: tables_def nameIn_def)
  show "map_of EVALUATION_CHECKLIST_SECTIONS (nameIn EVALUATION_CHECKLIST_SECTIONS c) = Some c"
    by (cases c) (simp_all add: tables_def nameIn_def)
  show "map_of projectStatuses (nameIn projectStatuses q) = Some q" by (cases q) (simp_all add: tables_def nameIn_def)
  show "map_of memberRoles (nameIn memberRoles r) = Some r" by (cases r) (simp_all add: tables_def nameIn_def)
  show "map_of relationshipStatuses (nameIn relationshipStatuses t) = Some t"
    by (cases t) (simp_all add: tables_def nameIn_def)
  show "map_of tokenPermissions (nameIn tokenPermissions k) = Some k"
    by (cases k) (simp_all add: tables_def nameIn_def)
qed

section \<open>Parsers\<close>

text \<open>\<open>if (!isRecord(value)) return null\<close>\<close>

definition record_of :: "json \<Rightarrow> unit option" where
  "record_of v = (if isRecord v then Some () else None)"

subsection \<open>tasks.ts, taskCategories.ts\<close>

record wire_task =
  wt_id :: ident
  wt_projectId :: ident
  wt_title :: string
  wt_status :: task_status
  wt_categoryId :: "ident option"
  wt_rank :: rat
  wt_priority :: task_priority
  wt_startAt :: "string option"
  wt_endAt :: "string option"
  wt_description :: "string option"
  wt_notes :: "string option"
  wt_onCalendar :: bool
  wt_assignees :: "user_ref list"

definition parseAssignee :: "json \<Rightarrow> user_ref option" where
  "parseAssignee v = do {
     record_of v; i \<leftarrow> stringAt v ''id''; n \<leftarrow> stringAt v ''username''; a \<leftarrow> lenientAt v ''avatarUrl'';
     Some \<lparr>ref_id = i, ref_username = n, ref_avatarUrl = a\<rparr>}"

definition parseTask :: "json \<Rightarrow> wire_task option" where
  "parseTask v = do {
     record_of v;
     i \<leftarrow> stringAt v ''id''; p \<leftarrow> stringAt v ''projectId''; t \<leftarrow> stringAt v ''title'';
     r \<leftarrow> numberAt v ''rank''; oc \<leftarrow> booleanAt v ''onCalendar'';
     s \<leftarrow> memberAt taskStatuses v ''status''; pr \<leftarrow> memberAt taskPriorities v ''priority'';
     c \<leftarrow> lenientAt v ''categoryId''; st \<leftarrow> lenientAt v ''startAt''; en \<leftarrow> lenientAt v ''endAt'';
     d \<leftarrow> lenientAt v ''description''; n \<leftarrow> lenientAt v ''notes'';
     us \<leftarrow> arrayAt v ''assignees''; as \<leftarrow> parseAll parseAssignee us;
     Some \<lparr>wt_id = i, wt_projectId = p, wt_title = t, wt_status = s, wt_categoryId = c, wt_rank = r,
       wt_priority = pr, wt_startAt = st, wt_endAt = en, wt_description = d, wt_notes = n,
       wt_onCalendar = oc, wt_assignees = as\<rparr>}"

record wire_task_category =
  wtc_id :: ident
  wtc_name :: string
  wtc_color :: rat

definition parseTaskCategory :: "json \<Rightarrow> wire_task_category option" where
  "parseTaskCategory v = do {
     record_of v; i \<leftarrow> stringAt v ''id''; n \<leftarrow> stringAt v ''name''; c \<leftarrow> numberAt v ''color'';
     Some \<lparr>wtc_id = i, wtc_name = n, wtc_color = c\<rparr>}"

subsection \<open>discoveryBlocks.ts, discoveryBlockItems.ts\<close>

record wire_block =
  wb_id :: ident
  wb_projectId :: ident
  wb_title :: string
  wb_description :: "string option"
  wb_icon :: "string option"
  wb_color :: "rat option"
  wb_status :: block_status
  wb_notes :: "string option"
  wb_createdAt :: string
  wb_updatedAt :: string

text \<open>An optional field of the wrong type is \<open>undefined\<close>.\<close>

definition parseDiscoveryBlock :: "json \<Rightarrow> wire_block option" where
  "parseDiscoveryBlock v = do {
     record_of v;
     i \<leftarrow> stringAt v ''id''; p \<leftarrow> stringAt v ''projectId''; t \<leftarrow> stringAt v ''title'';
     s \<leftarrow> memberAt blockStatuses v ''status''; c \<leftarrow> stringAt v ''createdAt''; u \<leftarrow> stringAt v ''updatedAt'';
     Some \<lparr>wb_id = i, wb_projectId = p, wb_title = t, wb_description = stringAt v ''description'',
       wb_icon = stringAt v ''icon'', wb_color = numberAt v ''color'', wb_status = s,
       wb_notes = stringAt v ''notes'', wb_createdAt = c, wb_updatedAt = u\<rparr>}"

record wire_block_item =
  wbi_id :: ident
  wbi_discoveryBlockId :: ident
  wbi_label :: string
  wbi_isChecked :: bool
  wbi_order :: rat
  wbi_createdAt :: string
  wbi_updatedAt :: string

definition parseDiscoveryBlockItem_json :: "json \<Rightarrow> wire_block_item option" where
  "parseDiscoveryBlockItem_json v = do {
     record_of v;
     i \<leftarrow> stringAt v ''id''; b \<leftarrow> stringAt v ''discoveryBlockId''; l \<leftarrow> stringAt v ''label'';
     ch \<leftarrow> booleanAt v ''isChecked''; r \<leftarrow> numberAt v ''order''; c \<leftarrow> stringAt v ''createdAt'';
     u \<leftarrow> stringAt v ''updatedAt'';
     Some \<lparr>wbi_id = i, wbi_discoveryBlockId = b, wbi_label = l, wbi_isChecked = ch, wbi_order = r,
       wbi_createdAt = c, wbi_updatedAt = u\<rparr>}"

subsection \<open>calendarCategoriesApi.ts, calendarEventsApi.ts\<close>

record wire_category =
  wc_id :: ident
  wc_projectId :: ident
  wc_name :: string
  wc_color :: rat

definition parseCalendarCategory :: "json \<Rightarrow> wire_category option" where
  "parseCalendarCategory v = do {
     record_of v;
     i \<leftarrow> stringAt v ''id''; p \<leftarrow> stringAt v ''projectId''; n \<leftarrow> stringAt v ''name''; c \<leftarrow> numberAt v ''color'';
     Some \<lparr>wc_id = i, wc_projectId = p, wc_name = n, wc_color = c\<rparr>}"

text \<open>The category of an event: whatever does not parse is null.\<close>

definition parseNullableCategory :: "json option \<Rightarrow> wire_category option" where
  "parseNullableCategory v = Option.bind v parseCalendarCategory"

definition parseCalendarEventAssignee :: "json \<Rightarrow> user_ref option" where
  "parseCalendarEventAssignee v = do {
     record_of v; i \<leftarrow> stringAt v ''id''; n \<leftarrow> stringAt v ''username''; a \<leftarrow> nullableAt v ''avatarUrl'';
     Some \<lparr>ref_id = i, ref_username = n, ref_avatarUrl = a\<rparr>}"

record wire_event =
  we_id :: ident
  we_projectId :: ident
  we_title :: string
  we_startAt :: string
  we_endAt :: string
  we_categoryId :: "ident option"
  we_category :: "wire_category option"
  we_description :: "string option"
  we_notes :: "string option"
  we_assignees :: "user_ref list"

definition parseCalendarEvent :: "json \<Rightarrow> wire_event option" where
  "parseCalendarEvent v = do {
     record_of v;
     i \<leftarrow> stringAt v ''id''; p \<leftarrow> stringAt v ''projectId''; t \<leftarrow> stringAt v ''title'';
     st \<leftarrow> stringAt v ''startAt''; en \<leftarrow> stringAt v ''endAt''; c \<leftarrow> nullableAt v ''categoryId'';
     us \<leftarrow> arrayAt v ''assignees''; as \<leftarrow> parseAll parseCalendarEventAssignee us;
     Some \<lparr>we_id = i, we_projectId = p, we_title = t, we_startAt = st, we_endAt = en, we_categoryId = c,
       we_category = parseNullableCategory (property v ''category''),
       we_description = stringAt v ''description'', we_notes = stringAt v ''notes'', we_assignees = as\<rparr>}"

subsection \<open>evaluationChecklist.ts\<close>

record wire_item =
  wi_id :: ident
  wi_label :: string
  wi_isChecked :: bool
  wi_order :: rat
  wi_section :: checklist_section

definition parseEvaluationChecklistItem_json :: "json \<Rightarrow> wire_item option" where
  "parseEvaluationChecklistItem_json v = do {
     record_of v;
     i \<leftarrow> stringAt v ''id''; l \<leftarrow> stringAt v ''label''; ch \<leftarrow> booleanAt v ''isChecked'';
     r \<leftarrow> numberAt v ''order''; s \<leftarrow> memberAt EVALUATION_CHECKLIST_SECTIONS v ''section'';
     Some \<lparr>wi_id = i, wi_label = l, wi_isChecked = ch, wi_order = r, wi_section = s\<rparr>}"

subsection \<open>projectsApi.ts, projectMembersApi.ts\<close>

record wire_project =
  wp_id :: ident
  wp_name :: string
  wp_status :: project_status
  wp_description :: "string option"
  wp_deadline :: "string option"
  wp_role :: member_role
  wp_progress :: rat
  wp_memberCount :: rat
  wp_isArchived :: bool
  wp_updatedAt :: string

definition parseProject :: "json \<Rightarrow> wire_project option" where
  "parseProject v = do {
     record_of v;
     i \<leftarrow> stringAt v ''id''; n \<leftarrow> stringAt v ''name''; s \<leftarrow> memberAt projectStatuses v ''status'';
     d \<leftarrow> nullableAt v ''description''; dl \<leftarrow> nullableAt v ''deadline''; r \<leftarrow> memberAt memberRoles v ''role'';
     pr \<leftarrow> numberAt v ''progress''; mc \<leftarrow> numberAt v ''memberCount''; ar \<leftarrow> booleanAt v ''isArchived'';
     u \<leftarrow> stringAt v ''updatedAt'';
     Some \<lparr>wp_id = i, wp_name = n, wp_status = s, wp_description = d, wp_deadline = dl, wp_role = r,
       wp_progress = pr, wp_memberCount = mc, wp_isArchived = ar, wp_updatedAt = u\<rparr>}"

record wire_user =
  wu_id :: ident
  wu_username :: string
  wu_avatarUrl :: "string option"
  wu_campus :: "string option"

definition parseMemberUser :: "json \<Rightarrow> wire_user option" where
  "parseMemberUser v = do {
     record_of v;
     i \<leftarrow> stringAt v ''id''; n \<leftarrow> stringAt v ''username''; a \<leftarrow> nullableAt v ''avatarUrl'';
     c \<leftarrow> nullableAt v ''campus'';
     Some \<lparr>wu_id = i, wu_username = n, wu_avatarUrl = a, wu_campus = c\<rparr>}"

record wire_member =
  wm_id :: ident
  wm_userId :: ident
  wm_projectId :: ident
  wm_role :: member_role
  wm_user :: wire_user

definition parseProjectMember :: "json \<Rightarrow> wire_member option" where
  "parseProjectMember v = do {
     record_of v;
     i \<leftarrow> stringAt v ''id''; u \<leftarrow> stringAt v ''userId''; p \<leftarrow> stringAt v ''projectId'';
     r \<leftarrow> memberAt memberRoles v ''role''; uj \<leftarrow> property v ''user''; user \<leftarrow> parseMemberUser uj;
     Some \<lparr>wm_id = i, wm_userId = u, wm_projectId = p, wm_role = r, wm_user = user\<rparr>}"

subsection \<open>friendsApi.ts, chatApi.ts, notificationsApi.ts\<close>

record wire_relationship =
  wr_id :: ident
  wr_requesterId :: ident
  wr_addresseeId :: ident
  wr_status :: relationship_status
  wr_createdAt :: string
  wr_updatedAt :: string

definition parseUserRelationship :: "json \<Rightarrow> wire_relationship option" where
  "parseUserRelationship v = do {
     record_of v;
     i \<leftarrow> stringAt v ''id''; r \<leftarrow> stringAt v ''requesterId''; a \<leftarrow> stringAt v ''addresseeId'';
     s \<leftarrow> memberAt relationshipStatuses v ''status''; c \<leftarrow> stringAt v ''createdAt''; u \<leftarrow> stringAt v ''updatedAt'';
     Some \<lparr>wr_id = i, wr_requesterId = r, wr_addresseeId = a, wr_status = s, wr_createdAt = c,
       wr_updatedAt = u\<rparr>}"

record wire_message =
  wmg_id :: ident
  wmg_projectId :: ident
  wmg_content :: string
  wmg_createdAt :: string
  wmg_author :: "user_ref option"

definition isValidAuthor :: "json \<Rightarrow> user_ref option" where
  "isValidAuthor v = parseCalendarEventAssignee v"

definition parseChatMessage :: "json \<Rightarrow> wire_message option" where
  "parseChatMessage v = do {
     record_of v;
     i \<leftarrow> stringAt v ''id''; p \<leftarrow> stringAt v ''projectId''; c \<leftarrow> stringAt v ''content'';
     t \<leftarrow> stringAt v ''createdAt'';
     author \<leftarrow> (case property v ''user'' of None \<Rightarrow> Some None | Some JNull \<Rightarrow> Some None
       | Some user \<Rightarrow> map_option Some (isValidAuthor user));
     Some \<lparr>wmg_id = i, wmg_projectId = p, wmg_content = c, wmg_createdAt = t, wmg_author = author\<rparr>}"

record wire_notification =
  wn_id :: ident
  wn_userId :: ident
  wn_message :: string
  wn_isRead :: bool
  wn_link :: "string option"
  wn_createdAt :: string

definition parseNotification :: "json \<Rightarrow> wire_notification option" where
  "parseNotification v = do {
     record_of v;
     i \<leftarrow> stringAt v ''id''; u \<leftarrow> stringAt v ''userId''; m \<leftarrow> stringAt v ''message'';
     r \<leftarrow> booleanAt v ''isRead''; l \<leftarrow> nullableAt v ''link''; c \<leftarrow> stringAt v ''createdAt'';
     Some \<lparr>wn_id = i, wn_userId = u, wn_message = m, wn_isRead = r, wn_link = l, wn_createdAt = c\<rparr>}"

definition parseCount :: "json \<Rightarrow> rat option" where
  "parseCount v = do { record_of v; numberAt v ''count'' }"

subsection \<open>usersApi.ts, userSettingsApi.tsx, projectApiTokensApi.ts\<close>

definition parsePublicUserProfile :: "json \<Rightarrow> public_user option" where
  "parsePublicUserProfile v = do {
     record_of v;
     i \<leftarrow> stringAt v ''id''; n \<leftarrow> stringAt v ''username''; f \<leftarrow> nullableAt v ''firstName'';
     l \<leftarrow> nullableAt v ''lastName''; a \<leftarrow> nullableAt v ''avatarUrl''; c \<leftarrow> nullableAt v ''campus'';
     on \<leftarrow> booleanAt v ''online'';
     Some \<lparr>pu_id = i, pu_username = n, pu_firstName = f, pu_lastName = l, pu_avatarUrl = a, pu_campus = c,
       pu_online = on\<rparr>}"

text \<open>\<open>Object.entries\<close>: an array has its indices as keys.\<close>

fun objectEntries :: "json \<Rightarrow> (string \<times> json) list" where
  "objectEntries (JObj fs) = fs"
| "objectEntries (JArr vs) = zip (map showDecimal [0..<length vs]) vs"
| "objectEntries _ = []"

definition parsePresence :: "json \<Rightarrow> (ident \<times> bool) list option" where
  "parsePresence v = do {
     record_of v;
     Some (concat (map (\<lambda>(k, x). case x of JBool online \<Rightarrow> [(k, online)] | _ \<Rightarrow> []) (objectEntries v)))}"

definition parseEmail :: "json \<Rightarrow> string option" where
  "parseEmail v = do { record_of v; stringAt v ''email'' }"

record wire_me =
  wme_username :: string
  wme_email :: string
  wme_firstName :: "string option"
  wme_lastName :: "string option"
  wme_avatarUrl :: "string option"
  wme_campus :: "string option"

definition parseUser :: "json \<Rightarrow> wire_me option" where
  "parseUser v = do {
     record_of v;
     n \<leftarrow> stringAt v ''username''; e \<leftarrow> stringAt v ''email''; f \<leftarrow> nullableAt v ''firstName'';
     l \<leftarrow> nullableAt v ''lastName''; a \<leftarrow> nullableAt v ''avatarUrl''; c \<leftarrow> nullableAt v ''campus'';
     Some \<lparr>wme_username = n, wme_email = e, wme_firstName = f, wme_lastName = l, wme_avatarUrl = a,
       wme_campus = c\<rparr>}"

record wire_token =
  wk_id :: ident
  wk_projectId :: ident
  wk_label :: string
  wk_permission :: token_permission
  wk_createdAt :: string
  wk_expiresAt :: string
  wk_lastUsedAt :: "string option"
  wk_revokedAt :: "string option"

definition parseProjectApiToken :: "json \<Rightarrow> wire_token option" where
  "parseProjectApiToken v = do {
     record_of v;
     i \<leftarrow> stringAt v ''id''; p \<leftarrow> stringAt v ''projectId''; l \<leftarrow> stringAt v ''label'';
     k \<leftarrow> memberAt tokenPermissions v ''permission''; c \<leftarrow> stringAt v ''createdAt''; x \<leftarrow> stringAt v ''expiresAt'';
     u \<leftarrow> nullableAt v ''lastUsedAt''; r \<leftarrow> nullableAt v ''revokedAt'';
     Some \<lparr>wk_id = i, wk_projectId = p, wk_label = l, wk_permission = k, wk_createdAt = c, wk_expiresAt = x,
       wk_lastUsedAt = u, wk_revokedAt = r\<rparr>}"

text \<open>\<open>parseProjectApiToken(value.token)\<close> is reached only after the key was checked.\<close>

definition parseCreatedProjectApiToken :: "json option \<Rightarrow> browser_error + wire_token \<times> string" where
  "parseCreatedProjectApiToken payload =
     (case Option.bind payload (\<lambda>v. do { record_of v; stringAt v ''apiKey'' }) of
        None \<Rightarrow> Inl (Js_error ''Project API token API returned an invalid create response'')
      | Some key \<Rightarrow> (case Option.bind payload (\<lambda>v. Option.bind (property v ''token'') parseProjectApiToken) of
          None \<Rightarrow> Inl (Js_error ''Project API token API returned an invalid token'')
        | Some token \<Rightarrow> Inr (token, key)))"

subsection \<open>searchApi.ts\<close>

record wire_search_project =
  wsp_id :: ident
  wsp_name :: string
  wsp_description :: "string option"
  wsp_status :: project_status
  wsp_isArchived :: bool
  wsp_updatedAt :: string

record wire_search_task =
  wst_id :: ident
  wst_projectId :: ident
  wst_projectName :: string
  wst_title :: string
  wst_description :: "string option"
  wst_status :: task_status
  wst_priority :: task_priority
  wst_updatedAt :: string

record 'a wire_bucket =
  wbk_items :: "'a list"
  wbk_total :: int

record wire_search =
  ws_query :: string
  ws_type :: search_type
  ws_sort :: search_sort
  ws_order :: search_order
  ws_page :: int
  ws_limit :: int
  ws_projects :: "wire_search_project wire_bucket"
  ws_tasks :: "wire_search_task wire_bucket"
  ws_users :: "wire_user wire_bucket"

text \<open>\<open>isPositiveInteger\<close> and \<open>isNonNegativeInteger\<close> of a field: the integer, when it is at least \<open>least\<close>.\<close>

definition integerAt :: "int \<Rightarrow> json \<Rightarrow> string \<Rightarrow> int option" where
  "integerAt least v k = (case numberAt v k of None \<Rightarrow> None
     | Some r \<Rightarrow> if of_int \<lfloor>r\<rfloor> = r \<and> least \<le> \<lfloor>r\<rfloor> then Some \<lfloor>r\<rfloor> else None)"

definition parseSearchProject :: "json \<Rightarrow> wire_search_project option" where
  "parseSearchProject v = do {
     record_of v;
     i \<leftarrow> stringAt v ''id''; n \<leftarrow> stringAt v ''name''; d \<leftarrow> nullableAt v ''description'';
     s \<leftarrow> memberAt projectStatuses v ''status''; ar \<leftarrow> booleanAt v ''isArchived''; u \<leftarrow> stringAt v ''updatedAt'';
     Some \<lparr>wsp_id = i, wsp_name = n, wsp_description = d, wsp_status = s, wsp_isArchived = ar,
       wsp_updatedAt = u\<rparr>}"

definition parseSearchTask :: "json \<Rightarrow> wire_search_task option" where
  "parseSearchTask v = do {
     record_of v;
     i \<leftarrow> stringAt v ''id''; p \<leftarrow> stringAt v ''projectId''; pn \<leftarrow> stringAt v ''projectName'';
     t \<leftarrow> stringAt v ''title''; d \<leftarrow> nullableAt v ''description''; s \<leftarrow> memberAt taskStatuses v ''status'';
     pr \<leftarrow> memberAt taskPriorities v ''priority''; u \<leftarrow> stringAt v ''updatedAt'';
     Some \<lparr>wst_id = i, wst_projectId = p, wst_projectName = pn, wst_title = t, wst_description = d,
       wst_status = s, wst_priority = pr, wst_updatedAt = u\<rparr>}"

definition parseSearchUser :: "json \<Rightarrow> wire_user option" where
  "parseSearchUser v = parseMemberUser v"

definition parseBucket :: "(json \<Rightarrow> 'a option) \<Rightarrow> json \<Rightarrow> string \<Rightarrow> 'a wire_bucket option" where
  "parseBucket parseItem v k = do {
     b \<leftarrow> property v k; record_of b; items \<leftarrow> arrayAt b ''items''; total \<leftarrow> integerAt 0 b ''total'';
     xs \<leftarrow> parseAll parseItem items;
     Some \<lparr>wbk_items = xs, wbk_total = total\<rparr>}"

definition parseSearchResults :: "json \<Rightarrow> wire_search option" where
  "parseSearchResults v = do {
     record_of v;
     q \<leftarrow> stringAt v ''query''; t \<leftarrow> Option.bind (stringAt v ''type'') isSearchType;
     s \<leftarrow> Option.bind (stringAt v ''sort'') isSearchSort; r \<leftarrow> Option.bind (stringAt v ''order'') isSearchOrder;
     n \<leftarrow> integerAt 1 v ''page''; l \<leftarrow> integerAt 1 v ''limit'';
     ps \<leftarrow> parseBucket parseSearchProject v ''projects''; ts \<leftarrow> parseBucket parseSearchTask v ''tasks'';
     us \<leftarrow> parseBucket parseSearchUser v ''users'';
     Some \<lparr>ws_query = q, ws_type = t, ws_sort = s, ws_order = r, ws_page = n, ws_limit = l, ws_projects = ps,
       ws_tasks = ts, ws_users = us\<rparr>}"

end
