(* ===== verification/BrowserCalls.thy ===== *)
theory BrowserCalls
  imports BrowserApi
begin

text \<open>
  Every call of the browser's API modules: the request with its body, and the reading of the response.
  A body has the fields that are not \<open>undefined\<close>. Names that the server's methods already have end in
  \<open>_call\<close>.
\<close>

section \<open>tasks.ts, taskCategories.ts\<close>

record create_task_body =
  ctb_title :: string
  ctb_categoryId :: ident
  ctb_status :: task_status
  ctb_priority :: task_priority
  ctb_rank :: int
  ctb_startAt :: "string option"
  ctb_endAt :: "string option"
  ctb_description :: "string option"
  ctb_notes :: "string option"
  ctb_onCalendar :: bool
  ctb_assigneeIds :: "ident list option"


record update_task_body =
  utb_title :: "string option"
  utb_categoryId :: "ident option"
  utb_status :: "task_status option"
  utb_priority :: "task_priority option"
  utb_rank :: "int option"
  utb_startAt :: "string option"
  utb_endAt :: "string option"
  utb_description :: "string option"
  utb_notes :: "string option"
  utb_onCalendar :: "bool option"
  utb_assigneeIds :: "ident list option"


definition strings :: "string list \<Rightarrow> json" where
  "strings ss = JArr (map JStr ss)"


definition named :: "(string \<times> 'a) list \<Rightarrow> 'a \<Rightarrow> json" where
  "named names x = JStr (nameIn names x)"


definition createTaskFields :: "create_task_body \<Rightarrow> (string \<times> json) list" where
  "createTaskFields b =
     [(''title'', JStr (ctb_title b)), (''categoryId'', JStr (ctb_categoryId b)),
      (''status'', named taskStatuses (ctb_status b)), (''priority'', named taskPriorities (ctb_priority b)),
      (''rank'', jint (ctb_rank b)), (''onCalendar'', JBool (ctb_onCalendar b))] @
     fieldIf ''startAt'' JStr (ctb_startAt b) @ fieldIf ''endAt'' JStr (ctb_endAt b) @
     fieldIf ''description'' JStr (ctb_description b) @ fieldIf ''notes'' JStr (ctb_notes b) @
     fieldIf ''assigneeIds'' strings (ctb_assigneeIds b)"


definition updateTaskFields :: "update_task_body \<Rightarrow> (string \<times> json) list" where
  "updateTaskFields b =
     fieldIf ''title'' JStr (utb_title b) @ fieldIf ''categoryId'' JStr (utb_categoryId b) @
     fieldIf ''status'' (named taskStatuses) (utb_status b) @
     fieldIf ''priority'' (named taskPriorities) (utb_priority b) @ fieldIf ''rank'' jint (utb_rank b) @
     fieldIf ''startAt'' JStr (utb_startAt b) @ fieldIf ''endAt'' JStr (utb_endAt b) @
     fieldIf ''description'' JStr (utb_description b) @ fieldIf ''notes'' JStr (utb_notes b) @
     fieldIf ''onCalendar'' JBool (utb_onCalendar b) @ fieldIf ''assigneeIds'' strings (utb_assigneeIds b)"


definition listTasks :: "ident \<Rightarrow> wire_task list call" where
  "listTasks p =
     apiClient (plain GET (inProjectPath p ''/tasks''))
       (readList ''Tasks response is invalid'' ''Tasks response contains invalid task items'' parseTask)"

definition getTask :: "ident \<Rightarrow> ident \<Rightarrow> wire_task call" where
  "getTask p t =
     apiClient (plain GET (inProjectPath p (''/tasks/'' @ t)))
       (readOne ''Task response is invalid'' parseTask)"

definition createTask :: "ident \<Rightarrow> create_task_body \<Rightarrow> wire_task call" where
  "createTask p body =
     apiClient (sending POST (inProjectPath p ''/tasks'') (createTaskFields body))
       (readOne ''Task creation response was invalid'' parseTask)"

definition updateTask :: "ident \<Rightarrow> ident \<Rightarrow> update_task_body \<Rightarrow> wire_task call" where
  "updateTask p t updates =
     apiClient (sending PATCH (inProjectPath p (''/tasks/'' @ t)) (updateTaskFields updates))
       (readOne ''Task modification response was invalid'' parseTask)"

definition deleteTask :: "ident \<Rightarrow> ident \<Rightarrow> unit call" where
  "deleteTask p t =
     apiClient (plain DELETE (inProjectPath p (''/tasks/'' @ t))) ignore"

definition listTaskCategories :: "ident \<Rightarrow> wire_task_category list call" where
  "listTaskCategories p =
     apiClient (plain GET (inProjectPath p ''/task-categories''))
       (readList ''Task categories response is invalid'' ''Task categories response contains invalid items'' parseTaskCategory)"

section \<open>discoveryBlocks.ts, discoveryBlockItems.ts\<close>

record block_updates =
  bup_title :: "string option"
  bup_description :: "string option"
  bup_notes :: "string option"
  bup_color :: "int option"
  bup_icon :: "string option"


definition blockFields :: "block_updates \<Rightarrow> (string \<times> json) list" where
  "blockFields u = fieldIf ''title'' JStr (bup_title u) @ fieldIf ''description'' JStr (bup_description u) @
     fieldIf ''notes'' JStr (bup_notes u) @ fieldIf ''color'' jint (bup_color u) @ fieldIf ''icon'' JStr (bup_icon u)"


definition listDiscoveryBlocks :: "ident \<Rightarrow> wire_block list call" where
  "listDiscoveryBlocks p =
     apiClient (plain GET (inProjectPath p ''/discovery-blocks''))
       (readList ''Discovery blocks response is invalid'' ''DiscoveryBlock response contains invalid items'' parseDiscoveryBlock)"

definition getDiscoveryBlock :: "ident \<Rightarrow> ident \<Rightarrow> wire_block call" where
  "getDiscoveryBlock p b =
     apiClient (plain GET (inProjectPath p (''/discovery-blocks/'' @ b)))
       (readOne ''Discovery block response is invalid'' parseDiscoveryBlock)"

definition createDiscoveryBlock :: "ident \<Rightarrow> string \<Rightarrow> wire_block call" where
  "createDiscoveryBlock p title =
     apiClient (sending POST (inProjectPath p ''/discovery-blocks'') [(''title'', JStr title)])
       (readOne ''Discovery block creation response was invalid'' parseDiscoveryBlock)"

definition deleteDiscoveryBlock :: "ident \<Rightarrow> ident \<Rightarrow> string option \<Rightarrow> wire_block call" where
  "deleteDiscoveryBlock p b token =
     apiClient ((plain DELETE (inProjectPath p (''/discovery-blocks/'' @ b)))\<lparr>aq_fieldLockToken := token\<rparr>)
       (readOne ''Discovery block deletion response was invalid'' parseDiscoveryBlock)"

definition updateDiscoveryBlock :: "ident \<Rightarrow> ident \<Rightarrow> block_updates \<Rightarrow> string \<Rightarrow> wire_block call" where
  "updateDiscoveryBlock p b updates token =
     apiClient ((sending PATCH (inProjectPath p (''/discovery-blocks/'' @ b)) (blockFields updates))\<lparr>aq_fieldLockToken := Some token\<rparr>)
       (readOne ''Discovery block modification was invalid'' parseDiscoveryBlock)"

record item_updates =
  iup_label :: "string option"
  iup_order :: "int option"
  iup_isChecked :: "bool option"


definition blockItemFields :: "item_updates \<Rightarrow> (string \<times> json) list" where
  "blockItemFields u = fieldIf ''label'' JStr (iup_label u) @ fieldIf ''order'' jint (iup_order u) @
     fieldIf ''isChecked'' JBool (iup_isChecked u)"


definition listDiscoveryBlockItems :: "ident \<Rightarrow> ident \<Rightarrow> wire_block_item list call" where
  "listDiscoveryBlockItems p b =
     apiClient (plain GET (inProjectPath p (''/discovery-blocks/'' @ b @ ''/items'')))
       (readList ''Discovery block items response is invalid'' ''DiscoveryBlockItem response contains invalid items'' parseDiscoveryBlockItem_json)"

definition createDiscoveryBlockItem :: "ident \<Rightarrow> ident \<Rightarrow> string \<Rightarrow> int \<Rightarrow> wire_block_item call" where
  "createDiscoveryBlockItem p b label order =
     apiClient (sending POST (inProjectPath p (''/discovery-blocks/'' @ b @ ''/items'')) [(''label'', JStr label), (''order'', jint order)])
       (readOne ''Discovery block item creation response was invalid'' parseDiscoveryBlockItem_json)"

definition updateDiscoveryBlockItem :: "ident \<Rightarrow> ident \<Rightarrow> ident \<Rightarrow> item_updates \<Rightarrow> wire_block_item call" where
  "updateDiscoveryBlockItem p b x updates =
     apiClient (sending PATCH (inProjectPath p (''/discovery-blocks/'' @ b @ ''/items/'' @ x)) (blockItemFields updates))
       (readOne ''Discovery block item modification response was invalid'' parseDiscoveryBlockItem_json)"

definition deleteDiscoveryBlockItem :: "ident \<Rightarrow> ident \<Rightarrow> ident \<Rightarrow> wire_block_item call" where
  "deleteDiscoveryBlockItem p b x =
     apiClient (plain DELETE (inProjectPath p (''/discovery-blocks/'' @ b @ ''/items/'' @ x)))
       (readOne ''Discovery block item deletion response was invalid'' parseDiscoveryBlockItem_json)"

section \<open>calendarCategoriesApi.ts, calendarEventsApi.ts\<close>

definition listCalendarCategories :: "ident \<Rightarrow> wire_category list call" where
  "listCalendarCategories p =
     apiClient (plain GET (inProjectPath p ''/calendar-categories''))
       (readList ''Calendar categories response is invalid'' ''Calendar category response contains invalid items'' parseCalendarCategory)"

definition createCalendarCategory :: "ident \<Rightarrow> string \<Rightarrow> int \<Rightarrow> wire_category call" where
  "createCalendarCategory p name color =
     apiClient (sending POST (inProjectPath p ''/calendar-categories'') [(''name'', JStr name), (''color'', jint color)])
       (readOne ''Calendar category creation response was invalid'' parseCalendarCategory)"

definition updateCalendarCategory :: "ident \<Rightarrow> ident \<Rightarrow> string option \<Rightarrow> int option \<Rightarrow> wire_category call" where
  "updateCalendarCategory p c name color =
     apiClient (sending PATCH (inProjectPath p (''/calendar-categories/'' @ c))
          (fieldIf ''name'' JStr name @ fieldIf ''color'' jint color))
       (readOne ''Calendar category modification response was invalid'' parseCalendarCategory)"

definition deleteCalendarCategory :: "ident \<Rightarrow> ident \<Rightarrow> wire_category call" where
  "deleteCalendarCategory p c =
     apiClient (plain DELETE (inProjectPath p (''/calendar-categories/'' @ c)))
       (readOne ''Calendar category deletion response was invalid'' parseCalendarCategory)"

text \<open>\<open>CalendarEventInput\<close> and \<open>Partial<CalendarEventInput>\<close>.\<close>


record event_input =
  ei_title :: string
  ei_categoryId :: ident
  ei_startAt :: string
  ei_endAt :: string
  ei_description :: "string option"
  ei_notes :: "string option"
  ei_assigneeIds :: "ident list option"


record event_updates =
  eup_title :: "string option"
  eup_categoryId :: "ident option"
  eup_startAt :: "string option"
  eup_endAt :: "string option"
  eup_description :: "string option"
  eup_notes :: "string option"
  eup_assigneeIds :: "ident list option"


definition eventUpdateFields :: "event_updates \<Rightarrow> (string \<times> json) list" where
  "eventUpdateFields u = fieldIf ''title'' JStr (eup_title u) @ fieldIf ''categoryId'' JStr (eup_categoryId u) @
     fieldIf ''startAt'' JStr (eup_startAt u) @ fieldIf ''endAt'' JStr (eup_endAt u) @
     fieldIf ''description'' JStr (eup_description u) @ fieldIf ''notes'' JStr (eup_notes u) @
     fieldIf ''assigneeIds'' strings (eup_assigneeIds u)"


definition eventInputFields :: "event_input \<Rightarrow> (string \<times> json) list" where
  "eventInputFields e = eventUpdateFields \<lparr>eup_title = Some (ei_title e), eup_categoryId = Some (ei_categoryId e),
     eup_startAt = Some (ei_startAt e), eup_endAt = Some (ei_endAt e), eup_description = ei_description e,
     eup_notes = ei_notes e, eup_assigneeIds = ei_assigneeIds e\<rparr>"


definition listCalendarEvents :: "ident \<Rightarrow> wire_event list call" where
  "listCalendarEvents p =
     apiClient (plain GET (inProjectPath p ''/calendar-events''))
       (readList ''Calendar events response is invalid'' ''Calendar event response contains invalid items'' parseCalendarEvent)"

definition createCalendarEvent :: "ident \<Rightarrow> event_input \<Rightarrow> wire_event call" where
  "createCalendarEvent p event =
     apiClient (sending POST (inProjectPath p ''/calendar-events'') (eventInputFields event))
       (readOne ''Calendar event creation response was invalid'' parseCalendarEvent)"

definition updateCalendarEvent :: "ident \<Rightarrow> ident \<Rightarrow> event_updates \<Rightarrow> wire_event call" where
  "updateCalendarEvent p e updates =
     apiClient (sending PATCH (inProjectPath p (''/calendar-events/'' @ e)) (eventUpdateFields updates))
       (readOne ''Calendar event modification response was invalid'' parseCalendarEvent)"

definition deleteCalendarEvent :: "ident \<Rightarrow> ident \<Rightarrow> wire_event call" where
  "deleteCalendarEvent p e =
     apiClient (plain DELETE (inProjectPath p (''/calendar-events/'' @ e)))
       (readOne ''Calendar event deletion response was invalid'' parseCalendarEvent)"

section \<open>evaluationChecklist.ts\<close>

record checklist_updates =
  cup_label :: "string option"
  cup_isChecked :: "bool option"
  cup_order :: "int option"
  cup_section :: "checklist_section option"


definition checklistFields :: "checklist_updates \<Rightarrow> (string \<times> json) list" where
  "checklistFields u = fieldIf ''label'' JStr (cup_label u) @ fieldIf ''isChecked'' JBool (cup_isChecked u) @
     fieldIf ''order'' jint (cup_order u) @ fieldIf ''section'' (named EVALUATION_CHECKLIST_SECTIONS) (cup_section u)"


definition fetchEvaluationChecklistItems :: "ident \<Rightarrow> wire_item list call" where
  "fetchEvaluationChecklistItems p =
     apiClient (plain GET (inProjectPath p ''/evaluation-checklist-items''))
       (readList ''Items response is invalid'' ''Items response contains invalid items'' parseEvaluationChecklistItem_json)"

definition createEvaluationChecklistItem :: "ident \<Rightarrow> string \<Rightarrow> checklist_section \<Rightarrow> int \<Rightarrow> wire_item call" where
  "createEvaluationChecklistItem p label place order =
     apiClient (sending POST (inProjectPath p ''/evaluation-checklist-items'')
          [(''label'', JStr label), (''section'', named EVALUATION_CHECKLIST_SECTIONS place), (''order'', jint order)])
       (readOne ''Item response is invalid'' parseEvaluationChecklistItem_json)"

definition updateEvaluationChecklistItem :: "ident \<Rightarrow> ident \<Rightarrow> checklist_updates \<Rightarrow> string option \<Rightarrow> wire_item call" where
  "updateEvaluationChecklistItem p x updates token =
     apiClient ((sending PATCH (inProjectPath p (''/evaluation-checklist-items/'' @ x)) (checklistFields updates))\<lparr>aq_fieldLockToken := token\<rparr>)
       (readOne ''Item response is invalid'' parseEvaluationChecklistItem_json)"

definition deleteEvaluationChecklistItem :: "ident \<Rightarrow> ident \<Rightarrow> string option \<Rightarrow> wire_item call" where
  "deleteEvaluationChecklistItem p x token =
     apiClient ((plain DELETE (inProjectPath p (''/evaluation-checklist-items/'' @ x)))\<lparr>aq_fieldLockToken := token\<rparr>)
       (readOne ''Item response is invalid'' parseEvaluationChecklistItem_json)"

section \<open>projectsApi.ts, projectMembersApi.ts\<close>

definition listProjects :: "wire_project list call" where
  "listProjects =
     apiClient (plain GET ''/projects'')
       (readList ''Projects API returned an invalid response'' ''Projects API returned an invalid project'' parseProject)"

definition getProject :: "ident \<Rightarrow> wire_project call" where
  "getProject p =
     apiClient (plain GET (inProjectPath p []))
       (readOne ''Projects API returned an invalid project'' parseProject)"

definition createProject :: "string \<Rightarrow> string option \<Rightarrow> wire_project call" where
  "createProject name description =
     apiClient (sending POST ''/projects'' ((''name'', JStr name) # fieldIf ''description'' JStr description))
       (readOne ''Projects API returned an invalid project'' parseProject)"

definition deleteProject :: "ident \<Rightarrow> unit call" where
  "deleteProject p =
     apiClient (plain DELETE (inProjectPath p [])) ignore"

definition updateProject :: "ident \<Rightarrow> project_status option \<Rightarrow> bool option \<Rightarrow> string option option \<Rightarrow> wire_project call" where
  "updateProject p status isArchived deadline =
     apiClient (sending PATCH (inProjectPath p []) (fieldIf ''status'' (named projectStatuses) status @
          fieldIf ''isArchived'' JBool isArchived @ fieldIf ''deadline'' nullable deadline))
       (readOne ''Projects API returned an invalid project'' parseProject)"

definition updateProjectDetails :: "ident \<Rightarrow> string \<Rightarrow> string option \<Rightarrow> string \<Rightarrow> wire_project call" where
  "updateProjectDetails p name description updatedAt =
     apiClient (sending PATCH (inProjectPath p ''/details'')
          [(''name'', JStr name), (''description'', nullable description), (''updatedAt'', JStr updatedAt)])
       (readOne ''Projects API returned an invalid project'' parseProject)"

definition getMembers :: "ident \<Rightarrow> wire_member list call" where
  "getMembers p =
     apiClient (plain GET (inProjectPath p ''/members''))
       (readList ''Project Members API returned an invalid response'' ''Project Members API returned an invalid member'' parseProjectMember)"

definition addMember_call :: "ident \<Rightarrow> string \<Rightarrow> wire_member call" where
  "addMember_call p username =
     apiClient (sending POST (inProjectPath p ''/members'') [(''username'', JStr username)])
       (readOne ''Project Members API returned an invalid member'' parseProjectMember)"

definition removeMember_call :: "ident \<Rightarrow> ident \<Rightarrow> unit call" where
  "removeMember_call p u =
     apiClient (plain DELETE (inProjectPath p (''/members/'' @ u))) ignore"

definition updateMemberRole_call :: "ident \<Rightarrow> ident \<Rightarrow> new_role \<Rightarrow> wire_member call" where
  "updateMemberRole_call p u role =
     apiClient (sending PATCH (inProjectPath p (''/members/'' @ u)) [(''role'', named memberRoles (roleFor role))])
       (readOne ''Project Members API returned an invalid member'' parseProjectMember)"

section \<open>friendsApi.ts\<close>

definition getUserRelationships :: "wire_relationship list call" where
  "getUserRelationships =
     apiClient (plain GET ''/users/user-relationships'')
       (readList ''User relationships response is invalid'' ''User relationships response contains invalid items'' parseUserRelationship)"

definition getUserRelationship :: "ident \<Rightarrow> wire_relationship list call" where
  "getUserRelationship u =
     apiClient (plain GET (''/users/user-relationships/'' @ u))
       (readList ''User relationship response is invalid'' ''User relationship response contains invalid items'' parseUserRelationship)"

definition sendFriendRequest :: "ident \<Rightarrow> unit call" where
  "sendFriendRequest u =
     apiClient (plain POST (''/users/user-relationships/'' @ u)) ignore"

definition updateFriendRelationship :: "ident \<Rightarrow> relationship_status \<Rightarrow> wire_relationship call" where
  "updateFriendRelationship u status =
     apiClient (sending PATCH (''/users/user-relationships/'' @ u) [(''status'', named relationshipStatuses status)])
       (readOne ''User relationship update response was invalid'' parseUserRelationship)"

text \<open>The body is not read: this call goes to \<open>bearerFetch\<close> directly.\<close>

definition removeFriendRelationship :: "ident \<Rightarrow> unit call" where
  "removeFriendRelationship u =
     (plain DELETE (''/users/user-relationships/'' @ u), \<lambda>response.
        if \<not> responseOk (rp_status response) then Inl (Api_error (rp_status response) (readErrorMessage response))
        else Inr ())"

section \<open>chatApi.ts\<close>

definition fetchChatMessages :: "ident \<Rightarrow> string option \<Rightarrow> string option \<Rightarrow> nat option \<Rightarrow> wire_message list call" where
  "fetchChatMessages p before beforeCreatedAt number =
     apiClient ((plain GET (inProjectPath p ''/chat''))\<lparr>aq_query :=
         (case before of None \<Rightarrow> [] | Some i \<Rightarrow> [(''before'', i)]) @
         (case beforeCreatedAt of None \<Rightarrow> [] | Some t \<Rightarrow> [(''beforeCreatedAt'', t)]) @
         (case number of None \<Rightarrow> [] | Some n \<Rightarrow> [(''take'', showDecimal n)])\<rparr>)
       (readList ''Chat messages response is invalid'' ''Chat messages response contains an invalid message'' parseChatMessage)"

definition markChatRead :: "ident \<Rightarrow> (ident \<times> string) option \<Rightarrow> unit call" where
  "markChatRead p lastRead =
     apiClient (sending PATCH (inProjectPath p ''/chat/read'') (case lastRead of None \<Rightarrow> []
          | Some (i, t) \<Rightarrow> [(''lastReadMessageId'', JStr i), (''lastReadAt'', JStr t)])) ignore"

definition createChatMessage :: "ident \<Rightarrow> string \<Rightarrow> wire_message call" where
  "createChatMessage p content =
     apiClient (sending POST (inProjectPath p ''/chat'') [(''content'', JStr content)])
       (readOne ''Chat message response is invalid'' parseChatMessage)"

definition deleteChatMessage :: "ident \<Rightarrow> ident \<Rightarrow> unit call" where
  "deleteChatMessage p m =
     apiClient (plain DELETE (inProjectPath p (''/chat/'' @ m))) ignore"

definition parseIds :: "json \<Rightarrow> string list option" where
  "parseIds v = (case v of JArr vs \<Rightarrow> parseAll (\<lambda>x. case x of JStr s \<Rightarrow> Some s | _ \<Rightarrow> None) vs | _ \<Rightarrow> None)"


definition fetchUnreadChatProjectIds :: "ident list call" where
  "fetchUnreadChatProjectIds =
     apiClient (plain GET ''/chat/unread'')
       (readOne ''Unread chat response is invalid'' parseIds)"

section \<open>notificationsApi.ts\<close>

definition getNotifications :: "wire_notification list call" where
  "getNotifications =
     apiClient (plain GET ''/notifications'')
       (readList ''Notifications response is invalid'' ''Notifications response contains invalid items'' parseNotification)"

definition markNotificationAsRead :: "ident \<Rightarrow> wire_notification call" where
  "markNotificationAsRead n =
     apiClient (plain PATCH (''/notifications/'' @ n @ ''/read''))
       (readOne ''Notification mark-as-read response was invalid'' parseNotification)"

definition markAllNotificationsAsRead :: "rat call" where
  "markAllNotificationsAsRead =
     apiClient (plain PATCH ''/notifications/read-all'')
       (readOne ''Mark-all-as-read response was invalid'' parseCount)"

definition deleteNotification_call :: "ident \<Rightarrow> wire_notification call" where
  "deleteNotification_call n =
     apiClient (plain DELETE (''/notifications/'' @ n))
       (readOne ''Notification deletion response was invalid'' parseNotification)"

definition deleteAllNotifications :: "rat call" where
  "deleteAllNotifications =
     apiClient (plain DELETE ''/notifications'')
       (readOne ''Delete-all response was invalid'' parseCount)"

section \<open>usersApi.ts, userSettingsApi.tsx\<close>

definition getUserProfile :: "ident \<Rightarrow> public_user call" where
  "getUserProfile u =
     apiClient (plain GET (''/users/'' @ u))
       (readOne ''User profile response is invalid'' parsePublicUserProfile)"

definition commaJoined :: "string list \<Rightarrow> string" where
  "commaJoined ss = concat (case ss of [] \<Rightarrow> [] | s # rest \<Rightarrow> s # map (\<lambda>t. CHR '','' # t) rest)"


text \<open>No request for no ids: the result is then the empty record.\<close>

definition getPresence_call :: "ident list \<Rightarrow> (ident \<times> bool) list call option" where
  "getPresence_call ids =
     (if ids = [] then None
      else Some (apiClient ((plain GET ''/users/presence'')\<lparr>aq_query := [(''ids'', commaJoined ids)]\<rparr>)
       (readOne ''Presence response is invalid'' parsePresence)))"

definition getFriendEmail :: "ident \<Rightarrow> string option call" where
  "getFriendEmail u =
     (let c = apiClient (plain GET (''/users/'' @ u @ ''/email'')) (readOne ''Friend email response is invalid'' parseEmail)
      in (fst c, \<lambda>response. case snd c response of
           Inl (Api_error status m) \<Rightarrow> if status = 403 then Inr None else Inl (Api_error status m)
         | Inl e \<Rightarrow> Inl e | Inr email \<Rightarrow> Inr (Some email)))"

definition getMe :: "wire_me call" where
  "getMe =
     apiClient (plain GET ''/users/me'')
       (readOne ''Users response contains invalid items'' parseUser)"

definition updateMe_call :: "string \<Rightarrow> wire_me call" where
  "updateMe_call username =
     apiClient (sending PATCH ''/users/me'' [(''username'', JStr username)])
       (readOne ''Users response contains invalid items'' parseUser)"

definition uploadAvatar_call :: "wire_me call" where
  "uploadAvatar_call =
     apiClient ((plain POST ''/users/me/avatar'')\<lparr>aq_body := Form_body\<rparr>)
       (readOne ''Users response contains invalid items'' parseUser)"

definition deleteMe :: "wire_me call" where
  "deleteMe =
     apiClient (plain DELETE ''/users/me'')
       (readOne ''Users response contains invalid items'' parseUser)"

section \<open>projectApiTokensApi.ts, searchApi.ts\<close>

definition listProjectApiTokens :: "ident \<Rightarrow> wire_token list call" where
  "listProjectApiTokens p =
     apiClient (plain GET (inProjectPath p ''/api-tokens''))
       (readList ''Project API token API returned an invalid list response'' ''Project API token API returned an invalid token'' parseProjectApiToken)"

definition createProjectApiToken :: "ident \<Rightarrow> string \<Rightarrow> token_permission \<Rightarrow> string \<Rightarrow> (wire_token \<times> string) call" where
  "createProjectApiToken p label permission expiresAt =
     apiClient (sending POST (inProjectPath p ''/api-tokens'')
         [(''label'', JStr label), (''permission'', named tokenPermissions permission), (''expiresAt'', JStr expiresAt)])
       parseCreatedProjectApiToken"

definition revokeProjectApiToken :: "ident \<Rightarrow> ident \<Rightarrow> wire_token call" where
  "revokeProjectApiToken p k =
     apiClient (plain POST (inProjectPath p (''/api-tokens/'' @ k @ ''/revoke'')))
       (readOne ''Project API token API returned an invalid token'' parseProjectApiToken)"

definition deleteProjectApiToken :: "ident \<Rightarrow> ident \<Rightarrow> unit call" where
  "deleteProjectApiToken p k =
     apiClient (plain DELETE (inProjectPath p (''/api-tokens/'' @ k))) ignore"

text \<open>One message stands for the four with which \<open>parseSearchResults\<close> names the part that is wrong.\<close>


definition searchWorkspace :: "page_search \<Rightarrow> wire_search call" where
  "searchWorkspace params =
     apiClient ((plain GET ''/search'')\<lparr>aq_query := buildSearchQuery params\<rparr>)
       (readOne ''Search API returned an invalid response'' parseSearchResults)"

end
