(* ===== verification/Wire.thy ===== *)
theory Wire
  imports BrowserCalls Controllers
begin

text \<open>
  Browser and server together: the JSON text of the backend's answers (\<open>JSON.stringify\<close> of what the
  controllers return, with the columns \<open>schema.prisma\<close> gives every row), the HTTP request a call of the
  browser becomes, and the call carried out against \<open>dispatch\<close>. The columns and relations that the
  model's rows leave out are a parameter, as are ISO dates; fields no client reads are left out.
\<close>

section \<open>Answers as JSON\<close>

record columns =
  co_iso :: "millis \<Rightarrow> string"
  co_userOf :: "ident \<Rightarrow> user_row"
  co_memberId :: "member_row \<Rightarrow> ident"
  co_blockUpdatedAt :: "block_row \<Rightarrow> millis"
  co_itemCreatedAt :: "block_item_row \<Rightarrow> millis"
  co_itemUpdatedAt :: "block_item_row \<Rightarrow> millis"
  co_relationshipId :: "relationship_row \<Rightarrow> ident"
  co_relationshipCreatedAt :: "relationship_row \<Rightarrow> millis"
  co_relationshipUpdatedAt :: "relationship_row \<Rightarrow> millis"

definition isoOf :: "columns \<Rightarrow> millis option \<Rightarrow> string option" where
  "isoOf k t = map_option (co_iso k) t"

definition userRefJson :: "user_ref \<Rightarrow> json" where
  "userRefJson u = JObj [(''id'', JStr (ref_id u)), (''username'', JStr (ref_username u)),
     (''avatarUrl'', nullable (ref_avatarUrl u))]"

definition categoryJson :: "category_row \<Rightarrow> json" where
  "categoryJson c = JObj [(''id'', JStr (c_id c)), (''name'', JStr (c_name c)), (''color'', jint (c_color c)),
     (''projectId'', JStr (c_projectId c))]"

definition taskJson :: "columns \<Rightarrow> task_view \<Rightarrow> json" where
  "taskJson k tv = (let t = tv_task tv in JObj
     [(''id'', JStr (t_id t)), (''projectId'', JStr (t_projectId t)), (''title'', JStr (t_title t)),
      (''status'', named taskStatuses (t_status t)), (''categoryId'', nullable (t_categoryId t)),
      (''rank'', jint (t_rank t)), (''priority'', named taskPriorities (t_priority t)),
      (''startAt'', nullable (isoOf k (t_startAt t))), (''endAt'', nullable (isoOf k (t_endAt t))),
      (''description'', nullable (t_description t)), (''notes'', nullable (t_notes t)),
      (''onCalendar'', JBool (t_onCalendar t)), (''category'', nullableJson categoryJson (tv_category tv)),
      (''assignees'', JArr (map userRefJson (tv_assignees tv)))])"

definition eventJson :: "columns \<Rightarrow> event_view \<Rightarrow> json" where
  "eventJson k ev = (let e = ev_event ev in JObj
     [(''id'', JStr (e_id e)), (''projectId'', JStr (e_projectId e)), (''title'', JStr (e_title e)),
      (''startAt'', JStr (co_iso k (e_startAt e))), (''endAt'', JStr (co_iso k (e_endAt e))),
      (''categoryId'', nullable (e_categoryId e)), (''description'', nullable (e_description e)),
      (''notes'', nullable (e_notes e)), (''category'', nullableJson categoryJson (ev_category ev)),
      (''assignees'', JArr (map userRefJson (ev_assignees ev)))])"

definition blockJson :: "columns \<Rightarrow> block_row \<Rightarrow> json" where
  "blockJson k b = JObj
     [(''id'', JStr (b_id b)), (''projectId'', JStr (b_projectId b)), (''title'', JStr (b_title b)),
      (''description'', nullable (b_description b)), (''icon'', nullable (b_icon b)),
      (''color'', nullableJson jint (b_color b)), (''status'', named blockStatuses (b_status b)),
      (''notes'', nullable (b_notes b)), (''createdAt'', JStr (co_iso k (b_createdAt b))),
      (''updatedAt'', JStr (co_iso k (co_blockUpdatedAt k b)))]"

definition blockItemJson :: "columns \<Rightarrow> block_item_row \<Rightarrow> json" where
  "blockItemJson k x = JObj
     [(''id'', JStr (bi_id x)), (''discoveryBlockId'', JStr (bi_blockId x)), (''label'', JStr (bi_label x)),
      (''isChecked'', JBool (bi_isChecked x)), (''order'', jint (bi_order x)),
      (''createdAt'', JStr (co_iso k (co_itemCreatedAt k x))),
      (''updatedAt'', JStr (co_iso k (co_itemUpdatedAt k x)))]"

definition itemJson :: "checklist_row \<Rightarrow> json" where
  "itemJson x = JObj
     [(''id'', JStr (ci_id x)), (''projectId'', JStr (ci_projectId x)), (''label'', JStr (ci_label x)),
      (''isChecked'', JBool (ci_isChecked x)), (''order'', jint (ci_order x)),
      (''section'', named EVALUATION_CHECKLIST_SECTIONS (ci_section x))]"

definition projectJson :: "columns \<Rightarrow> project_view \<Rightarrow> json" where
  "projectJson k pv = (let p = pv_project pv in JObj
     [(''id'', JStr (p_id p)), (''name'', JStr (p_name p)), (''description'', nullable (p_description p)),
      (''status'', named projectStatuses (p_status p)), (''deadline'', nullable (isoOf k (p_deadline p))),
      (''isArchived'', JBool (p_isArchived p)), (''updatedAt'', JStr (co_iso k (p_updatedAt p))),
      (''role'', named memberRoles (pv_role pv)), (''progress'', jint (pv_progress pv)),
      (''memberCount'', jint (int (pv_memberCount pv)))])"

definition memberJson :: "columns \<Rightarrow> member_row \<Rightarrow> json" where
  "memberJson k m = (let u = co_userOf k (pm_userId m) in JObj
     [(''id'', JStr (co_memberId k m)), (''userId'', JStr (pm_userId m)), (''projectId'', JStr (pm_projectId m)),
      (''role'', named memberRoles (pm_role m)), (''createdAt'', JStr (co_iso k (pm_createdAt m))),
      (''user'', JObj [(''id'', JStr (u_id u)), (''username'', JStr (u_username u)),
         (''avatarUrl'', nullable (u_avatarUrl u)), (''campus'', nullable (u_campus u))])])"

definition relationshipJson :: "columns \<Rightarrow> relationship_row \<Rightarrow> json" where
  "relationshipJson k r = JObj
     [(''id'', JStr (co_relationshipId k r)), (''requesterId'', JStr (ur_requesterId r)),
      (''addresseeId'', JStr (ur_addresseeId r)), (''status'', named relationshipStatuses (ur_status r)),
      (''createdAt'', JStr (co_iso k (co_relationshipCreatedAt k r))),
      (''updatedAt'', JStr (co_iso k (co_relationshipUpdatedAt k r)))]"

definition messageJson :: "columns \<Rightarrow> chat_view \<Rightarrow> json" where
  "messageJson k cv = (let m = cv_message cv in JObj
     [(''id'', JStr (cm_id m)), (''userId'', nullable (cm_userId m)), (''projectId'', JStr (cm_projectId m)),
      (''content'', JStr (cm_content m)), (''createdAt'', JStr (co_iso k (cm_createdAt m))),
      (''user'', nullableJson userRefJson (cv_author cv))])"

definition notificationJson :: "columns \<Rightarrow> notification_row \<Rightarrow> json" where
  "notificationJson k n = JObj
     [(''id'', JStr (n_id n)), (''userId'', JStr (n_userId n)), (''message'', JStr (n_message n)),
      (''isRead'', JBool (n_isRead n)), (''link'', nullable (n_link n)),
      (''createdAt'', JStr (co_iso k (n_createdAt n)))]"

definition meJson :: "columns \<Rightarrow> safe_user \<Rightarrow> json" where
  "meJson k u = JObj
     [(''id'', JStr (sf_id u)), (''email'', JStr (sf_email u)), (''username'', JStr (sf_username u)),
      (''firstName'', nullable (sf_firstName u)), (''lastName'', nullable (sf_lastName u)),
      (''avatarUrl'', nullable (sf_avatarUrl u)), (''campus'', nullable (sf_campus u)),
      (''updatedAt'', JStr (co_iso k (sf_updatedAt u)))]"

definition publicJson :: "public_user \<Rightarrow> json" where
  "publicJson u = JObj
     [(''id'', JStr (pu_id u)), (''username'', JStr (pu_username u)), (''firstName'', nullable (pu_firstName u)),
      (''lastName'', nullable (pu_lastName u)), (''avatarUrl'', nullable (pu_avatarUrl u)),
      (''campus'', nullable (pu_campus u)), (''online'', JBool (pu_online u))]"

definition bucketJson :: "('a \<Rightarrow> json) \<Rightarrow> 'a bucket \<Rightarrow> json" where
  "bucketJson f b = JObj [(''items'', JArr (map f (bk_items b))), (''total'', jint (int (bk_total b)))]"

definition projectHitJson :: "columns \<Rightarrow> project_hit \<Rightarrow> json" where
  "projectHitJson k h = JObj
     [(''id'', JStr (ph_id h)), (''name'', JStr (ph_name h)), (''description'', nullable (ph_description h)),
      (''status'', named projectStatuses (ph_status h)), (''isArchived'', JBool (ph_isArchived h)),
      (''updatedAt'', JStr (co_iso k (ph_updatedAt h)))]"

definition taskHitJson :: "columns \<Rightarrow> task_hit \<Rightarrow> json" where
  "taskHitJson k h = JObj
     [(''id'', JStr (th_id h)), (''projectId'', JStr (th_projectId h)), (''title'', JStr (th_title h)),
      (''description'', nullable (th_description h)), (''status'', named taskStatuses (th_status h)),
      (''priority'', named taskPriorities (th_priority h)), (''updatedAt'', JStr (co_iso k (th_updatedAt h))),
      (''projectName'', JStr (th_projectName h))]"

definition userHitJson :: "user_hit \<Rightarrow> json" where
  "userHitJson h = JObj
     [(''id'', JStr (uh_id h)), (''username'', JStr (uh_username h)), (''avatarUrl'', nullable (uh_avatarUrl h)),
      (''campus'', nullable (uh_campus h))]"

definition searchJson :: "columns \<Rightarrow> search_results \<Rightarrow> json" where
  "searchJson k r = JObj
     [(''query'', JStr (sr_query r)), (''type'', JStr (typeName (sr_type r))), (''sort'', JStr (sortName (sr_sort r))),
      (''order'', JStr (orderName (sr_order r))), (''page'', jint (int (sr_page r))),
      (''limit'', jint (int (sr_limit r))), (''projects'', bucketJson (projectHitJson k) (sr_projects r)),
      (''tasks'', bucketJson (taskHitJson k) (sr_tasks r)), (''users'', bucketJson userHitJson (sr_users r))]"

definition principalJson :: "token_principal \<Rightarrow> string \<Rightarrow> json" where
  "principalJson t status = JObj
     [(''id'', JStr (tk_tokenId t)), (''projectId'', JStr (tk_projectId t)), (''label'', JStr (tk_label t)),
      (''permission'', named tokenPermissions (tk_permission t)), (''expiresAt'', JStr (tk_expiresAt t)),
      (''lastUsedAt'', JStr (tk_lastUsedAt t)), (''status'', JStr status)]"

text \<open>The body of an answer; a handler that returns nothing, or streams an object, sends no JSON.\<close>

fun replyJson :: "columns \<Rightarrow> (json, 'o) reply \<Rightarrow> json option" where
  "replyJson k R_nothing = None"
| "replyJson k R_health = Some (JObj [(''status'', JStr ''ok'')])"
| "replyJson k (R_object x) = None"
| "replyJson k (R_json v) = v"
| "replyJson k (R_relationships rs) = Some (JArr (map (relationshipJson k) rs))"
| "replyJson k (R_relationship r) = Some (relationshipJson k r)"
| "replyJson k (R_pair p) = Some (JArr [JStr (fst p), JStr (snd p)])"
| "replyJson k (R_notifications ns) = Some (JArr (map (notificationJson k) ns))"
| "replyJson k (R_notification n) = Some (notificationJson k n)"
| "replyJson k (R_count n) = Some (JObj [(''count'', jint (int n))])"
| "replyJson k (R_me u) = Some (meJson k u)"
| "replyJson k (R_presence ps) = Some (JObj (map (map_prod id JBool) ps))"
| "replyJson k (R_user u) = Some (publicJson u)"
| "replyJson k (R_email e) = Some (JObj [(''email'', JStr e)])"
| "replyJson k (R_done b) = Some (JBool b)"
| "replyJson k (R_member m) = Some (memberJson k m)"
| "replyJson k (R_members ms) = Some (JArr (map (memberJson k) ms))"
| "replyJson k (R_projects ps) = Some (JArr (map (projectJson k) ps))"
| "replyJson k (R_project p) = Some (projectJson k p)"
| "replyJson k (R_blocks bs) = Some (JArr (map (blockJson k) bs))"
| "replyJson k (R_block b) = Some (blockJson k b)"
| "replyJson k (R_blockItems xs) = Some (JArr (map (blockItemJson k) xs))"
| "replyJson k (R_blockItem x) = Some (blockItemJson k x)"
| "replyJson k (R_items xs) = Some (JArr (map itemJson xs))"
| "replyJson k (R_item x) = Some (itemJson x)"
| "replyJson k (R_tasks ts) = Some (JArr (map (taskJson k) ts))"
| "replyJson k (R_task t) = Some (taskJson k t)"
| "replyJson k (R_events es) = Some (JArr (map (eventJson k) es))"
| "replyJson k (R_event e) = Some (eventJson k e)"
| "replyJson k (R_categories cs) = Some (JArr (map categoryJson cs))"
| "replyJson k (R_category c) = Some (categoryJson c)"
| "replyJson k (R_messages ms) = Some (JArr (map (messageJson k) ms))"
| "replyJson k (R_message m) = Some (messageJson k m)"
| "replyJson k (R_ids is) = Some (strings is)"
| "replyJson k (R_token x) = Some (principalJson (fst x) (snd x))"
| "replyJson k (R_search r) = Some (searchJson k r)"

section \<open>What the browser sees of a row\<close>

definition taskWire :: "columns \<Rightarrow> task_view \<Rightarrow> wire_task" where
  "taskWire k tv = (let t = tv_task tv in
     \<lparr>wt_id = t_id t, wt_projectId = t_projectId t, wt_title = t_title t, wt_status = t_status t,
      wt_categoryId = t_categoryId t, wt_rank = of_int (t_rank t), wt_priority = t_priority t,
      wt_startAt = isoOf k (t_startAt t), wt_endAt = isoOf k (t_endAt t), wt_description = t_description t,
      wt_notes = t_notes t, wt_onCalendar = t_onCalendar t, wt_assignees = tv_assignees tv\<rparr>)"

definition categoryWire :: "category_row \<Rightarrow> wire_category" where
  "categoryWire c = \<lparr>wc_id = c_id c, wc_projectId = c_projectId c, wc_name = c_name c, wc_color = of_int (c_color c)\<rparr>"

definition taskCategoryWire :: "category_row \<Rightarrow> wire_task_category" where
  "taskCategoryWire c = \<lparr>wtc_id = c_id c, wtc_name = c_name c, wtc_color = of_int (c_color c)\<rparr>"

definition eventWire :: "columns \<Rightarrow> event_view \<Rightarrow> wire_event" where
  "eventWire k ev = (let e = ev_event ev in
     \<lparr>we_id = e_id e, we_projectId = e_projectId e, we_title = e_title e, we_startAt = co_iso k (e_startAt e),
      we_endAt = co_iso k (e_endAt e), we_categoryId = e_categoryId e,
      we_category = map_option categoryWire (ev_category ev), we_description = e_description e,
      we_notes = e_notes e, we_assignees = ev_assignees ev\<rparr>)"

definition blockWire :: "columns \<Rightarrow> block_row \<Rightarrow> wire_block" where
  "blockWire k b =
     \<lparr>wb_id = b_id b, wb_projectId = b_projectId b, wb_title = b_title b, wb_description = b_description b,
      wb_icon = b_icon b, wb_color = map_option of_int (b_color b), wb_status = b_status b, wb_notes = b_notes b,
      wb_createdAt = co_iso k (b_createdAt b), wb_updatedAt = co_iso k (co_blockUpdatedAt k b)\<rparr>"

definition blockItemWire :: "columns \<Rightarrow> block_item_row \<Rightarrow> wire_block_item" where
  "blockItemWire k x =
     \<lparr>wbi_id = bi_id x, wbi_discoveryBlockId = bi_blockId x, wbi_label = bi_label x, wbi_isChecked = bi_isChecked x,
      wbi_order = of_int (bi_order x), wbi_createdAt = co_iso k (co_itemCreatedAt k x),
      wbi_updatedAt = co_iso k (co_itemUpdatedAt k x)\<rparr>"

definition itemWire :: "checklist_row \<Rightarrow> wire_item" where
  "itemWire x = \<lparr>wi_id = ci_id x, wi_label = ci_label x, wi_isChecked = ci_isChecked x,
     wi_order = of_int (ci_order x), wi_section = ci_section x\<rparr>"

definition projectWire :: "columns \<Rightarrow> project_view \<Rightarrow> wire_project" where
  "projectWire k pv = (let p = pv_project pv in
     \<lparr>wp_id = p_id p, wp_name = p_name p, wp_status = p_status p, wp_description = p_description p,
      wp_deadline = isoOf k (p_deadline p), wp_role = pv_role pv, wp_progress = of_int (pv_progress pv),
      wp_memberCount = of_nat (pv_memberCount pv), wp_isArchived = p_isArchived p,
      wp_updatedAt = co_iso k (p_updatedAt p)\<rparr>)"

definition memberWire :: "columns \<Rightarrow> member_row \<Rightarrow> wire_member" where
  "memberWire k m = (let u = co_userOf k (pm_userId m) in
     \<lparr>wm_id = co_memberId k m, wm_userId = pm_userId m, wm_projectId = pm_projectId m, wm_role = pm_role m,
      wm_user = \<lparr>wu_id = u_id u, wu_username = u_username u, wu_avatarUrl = u_avatarUrl u, wu_campus = u_campus u\<rparr>\<rparr>)"

definition relationshipWire :: "columns \<Rightarrow> relationship_row \<Rightarrow> wire_relationship" where
  "relationshipWire k r =
     \<lparr>wr_id = co_relationshipId k r, wr_requesterId = ur_requesterId r, wr_addresseeId = ur_addresseeId r,
      wr_status = ur_status r, wr_createdAt = co_iso k (co_relationshipCreatedAt k r),
      wr_updatedAt = co_iso k (co_relationshipUpdatedAt k r)\<rparr>"

definition messageWire :: "columns \<Rightarrow> chat_view \<Rightarrow> wire_message" where
  "messageWire k cv = (let m = cv_message cv in
     \<lparr>wmg_id = cm_id m, wmg_projectId = cm_projectId m, wmg_content = cm_content m,
      wmg_createdAt = co_iso k (cm_createdAt m), wmg_author = cv_author cv\<rparr>)"

definition notificationWire :: "columns \<Rightarrow> notification_row \<Rightarrow> wire_notification" where
  "notificationWire k n =
     \<lparr>wn_id = n_id n, wn_userId = n_userId n, wn_message = n_message n, wn_isRead = n_isRead n,
      wn_link = n_link n, wn_createdAt = co_iso k (n_createdAt n)\<rparr>"

definition meWire :: "safe_user \<Rightarrow> wire_me" where
  "meWire u = \<lparr>wme_username = sf_username u, wme_email = sf_email u, wme_firstName = sf_firstName u,
     wme_lastName = sf_lastName u, wme_avatarUrl = sf_avatarUrl u, wme_campus = sf_campus u\<rparr>"

definition bucketWire :: "('a \<Rightarrow> 'b) \<Rightarrow> 'a bucket \<Rightarrow> 'b wire_bucket" where
  "bucketWire f b = \<lparr>wbk_items = map f (bk_items b), wbk_total = int (bk_total b)\<rparr>"

definition projectHitWire :: "columns \<Rightarrow> project_hit \<Rightarrow> wire_search_project" where
  "projectHitWire k h = \<lparr>wsp_id = ph_id h, wsp_name = ph_name h, wsp_description = ph_description h,
     wsp_status = ph_status h, wsp_isArchived = ph_isArchived h, wsp_updatedAt = co_iso k (ph_updatedAt h)\<rparr>"

definition taskHitWire :: "columns \<Rightarrow> task_hit \<Rightarrow> wire_search_task" where
  "taskHitWire k h = \<lparr>wst_id = th_id h, wst_projectId = th_projectId h, wst_projectName = th_projectName h,
     wst_title = th_title h, wst_description = th_description h, wst_status = th_status h,
     wst_priority = th_priority h, wst_updatedAt = co_iso k (th_updatedAt h)\<rparr>"

definition userHitWire :: "user_hit \<Rightarrow> wire_user" where
  "userHitWire h = \<lparr>wu_id = uh_id h, wu_username = uh_username h, wu_avatarUrl = uh_avatarUrl h, wu_campus = uh_campus h\<rparr>"

definition searchWire :: "columns \<Rightarrow> search_results \<Rightarrow> wire_search" where
  "searchWire k r =
     \<lparr>ws_query = sr_query r, ws_type = sr_type r, ws_sort = sr_sort r, ws_order = sr_order r,
      ws_page = int (sr_page r), ws_limit = int (sr_limit r),
      ws_projects = bucketWire (projectHitWire k) (sr_projects r),
      ws_tasks = bucketWire (taskHitWire k) (sr_tasks r), ws_users = bucketWire userHitWire (sr_users r)\<rparr>"

section \<open>Reading rows back\<close>

lemma read_named [simp]: "asString (Some (named names x)) = Some (nameIn names x)"
  by (simp add: named_def)

lemma parse_user [simp]:
  "parseAssignee (userRefJson u) = Some u" "parseCalendarEventAssignee (userRefJson u) = Some u"
  by (simp_all add: parseAssignee_def parseCalendarEventAssignee_def userRefJson_def record_of_def field_defs)

lemma parse_users [simp]:
  "parseAll parseAssignee (map userRefJson us) = Some us"
  "parseAll parseCalendarEventAssignee (map userRefJson us) = Some us"
  using parseAll_written [of us parseAssignee userRefJson id]
    parseAll_written [of us parseCalendarEventAssignee userRefJson id] by simp_all

lemma parse_task [simp]: "parseTask (taskJson k tv) = Some (taskWire k tv)"
  by (simp add: parseTask_def taskJson_def taskWire_def Let_def record_of_def field_defs)

lemma parse_category [simp]:
  "parseCalendarCategory (categoryJson c) = Some (categoryWire c)"
  "parseTaskCategory (categoryJson c) = Some (taskCategoryWire c)"
  by (simp_all add: parseCalendarCategory_def parseTaskCategory_def categoryJson_def categoryWire_def
      taskCategoryWire_def record_of_def field_defs)

lemma parse_nullable_category:
  "parseNullableCategory (Some (nullableJson categoryJson c)) = map_option categoryWire c"
  by (cases c) (simp_all add: parseNullableCategory_def nullableJson_def parseCalendarCategory_def record_of_def
      parse_category [unfolded parseCalendarCategory_def record_of_def])

lemma parse_event [simp]: "parseCalendarEvent (eventJson k ev) = Some (eventWire k ev)"
  by (simp add: parseCalendarEvent_def eventJson_def eventWire_def Let_def record_of_def field_defs
      parse_nullable_category)

lemma parse_block [simp]: "parseDiscoveryBlock (blockJson k b) = Some (blockWire k b)"
  by (simp add: parseDiscoveryBlock_def blockJson_def blockWire_def record_of_def field_defs)

lemma parse_items [simp]:
  "parseDiscoveryBlockItem_json (blockItemJson k x) = Some (blockItemWire k x)"
  "parseEvaluationChecklistItem_json (itemJson y) = Some (itemWire y)"
  by (simp_all add: parseDiscoveryBlockItem_json_def blockItemJson_def blockItemWire_def
      parseEvaluationChecklistItem_json_def itemJson_def itemWire_def record_of_def field_defs)

lemma parse_project [simp]: "parseProject (projectJson k pv) = Some (projectWire k pv)"
  by (simp add: parseProject_def projectJson_def projectWire_def Let_def record_of_def field_defs)

lemma parse_member [simp]: "parseProjectMember (memberJson k m) = Some (memberWire k m)"
  by (simp add: parseProjectMember_def parseMemberUser_def memberJson_def memberWire_def Let_def record_of_def
      field_defs)

lemma parse_relationship [simp]: "parseUserRelationship (relationshipJson k r) = Some (relationshipWire k r)"
  by (simp add: parseUserRelationship_def relationshipJson_def relationshipWire_def record_of_def field_defs)

lemma parse_message [simp]: "parseChatMessage (messageJson k cv) = Some (messageWire k cv)"
proof (cases "cv_author cv")
  case None
  then show ?thesis
    by (simp add: parseChatMessage_def messageJson_def messageWire_def Let_def record_of_def field_defs nullableJson_def)
next
  case (Some u)
  obtain fs where fs: "userRefJson u = JObj fs" by (simp add: userRefJson_def)
  then have "parseCalendarEventAssignee (JObj fs) = Some u" using parse_user(2) [of u] by simp
  then show ?thesis using Some fs
    by (simp add: parseChatMessage_def messageJson_def messageWire_def Let_def record_of_def field_defs
        nullableJson_def isValidAuthor_def)
qed

lemma parse_notification [simp]: "parseNotification (notificationJson k n) = Some (notificationWire k n)"
  by (simp add: parseNotification_def notificationJson_def notificationWire_def record_of_def field_defs)

lemma parse_me [simp]: "parseUser (meJson k u) = Some (meWire u)"
  by (simp add: parseUser_def meJson_def meWire_def record_of_def field_defs)

lemma parse_public [simp]: "parsePublicUserProfile (publicJson u) = Some u"
  by (simp add: parsePublicUserProfile_def publicJson_def record_of_def field_defs)

lemma parse_hits [simp]:
  "parseSearchProject (projectHitJson k h) = Some (projectHitWire k h)"
  "parseSearchTask (taskHitJson k t) = Some (taskHitWire k t)"
  "parseSearchUser (userHitJson u) = Some (userHitWire u)"
  by (simp_all add: parseSearchProject_def projectHitJson_def projectHitWire_def parseSearchTask_def taskHitJson_def
      taskHitWire_def parseSearchUser_def parseMemberUser_def userHitJson_def userHitWire_def record_of_def field_defs)

lemma parse_list:
  "(\<And>x. parse (enc x) = Some (view x)) \<Longrightarrow>
   readList msg itemMsg parse (Some (JArr (map enc xs))) = Inr (map view xs)"
  by (simp add: readList_def parseAll_written)

lemma parse_bucket:
  assumes "\<And>x. parse (enc x) = Some (view x)" and "property v part = Some (bucketJson enc b)"
  shows "parseBucket parse v part = Some (bucketWire view b)"
  using assms parseAll_written [of "bk_items b" parse enc view]
  by (simp add: parseBucket_def bucketJson_def bucketWire_def record_of_def field_defs integerAt_def)

lemma parse_search: "1 \<le> sr_page r \<Longrightarrow> 1 \<le> sr_limit r \<Longrightarrow> parseSearchResults (searchJson k r) = Some (searchWire k r)"
  by (simp add: parseSearchResults_def searchJson_def searchWire_def record_of_def field_defs integerAt_def
      parse_bucket [where enc = "projectHitJson k" and view = "projectHitWire k", OF parse_hits(1)]
      parse_bucket [where enc = "taskHitJson k" and view = "taskHitWire k", OF parse_hits(2)]
      parse_bucket [where enc = userHitJson and view = userHitWire, OF parse_hits(3)])

section \<open>A call against the server\<close>

text \<open>
  The request behind the proxy and the global prefix \<open>/api\<close>: the path is split at its slashes, the body
  with the query is what the pipes check.
\<close>

type_synonym wire_body = "(string \<times> string) list \<times> request_body"

definition httpRequest :: "string \<Rightarrow> api_request \<Rightarrow> wire_body http_request" where
  "httpRequest accessToken r =
     \<lparr>rq_verb = aq_verb r, rq_path = splitOn (CHR ''/'') (drop 1 (aq_path r)),
      rq_authorization = H_one (''Bearer '' @ accessToken), rq_apiKey = H_absent,
      rq_fieldLockToken = (case aq_fieldLockToken r of None \<Rightarrow> H_absent | Some t \<Rightarrow> H_one t),
      rq_body = (aq_query r, aq_body r)\<rparr>"

definition target :: "'a call \<Rightarrow> (endpoint \<times> ident list) option" where
  "target c = resolve (aq_verb (fst c)) (splitOn (CHR ''/'') (drop 1 (aq_path (fst c))))"

definition answer :: "columns \<Rightarrow> int \<times> (string + (json, 'o) reply) \<Rightarrow> response" where
  "answer k = (\<lambda>(status, result). case result of
     Inl m \<Rightarrow> \<lparr>rp_status = status, rp_isJson = True,
       rp_body = Some (JObj [(''statusCode'', jint status), (''message'', JStr m)])\<rparr>
   | Inr r \<Rightarrow> \<lparr>rp_status = status, rp_isJson = replyJson k r \<noteq> None, rp_body = replyJson k r\<rparr>)"

text \<open>The call with a fresh access token: what it returns, and the state of the server after it.\<close>

definition perform :: "(wire_body, json, 'o) env \<Rightarrow> vault \<Rightarrow> columns \<Rightarrow> string \<Rightarrow> 'a call \<Rightarrow> api \<Rightarrow> (browser_error + 'a) \<times> api" where
  "perform env v k accessToken c s = (case dispatch env v (httpRequest accessToken (fst c)) s of
     (result, t) \<Rightarrow> (snd c (answer k (respond (aq_verb (fst c)) (map_option fst (target c)) result)), t))"

text \<open>
  The call reaches its endpoint; whatever the server answers on success is a result of the call; a refusal is
  reported with its status, but for the statuses the call turns into a result.
\<close>

definition understoodBut :: "int set \<Rightarrow> (wire_body, json, 'o) env \<Rightarrow> vault \<Rightarrow> columns \<Rightarrow> string \<Rightarrow> 'a call \<Rightarrow> endpoint \<Rightarrow> bool" where
  "understoodBut soft env v k accessToken c e \<longleftrightarrow> map_option fst (target c) = Some e \<and>
     (\<forall>s reply t. dispatch env v (httpRequest accessToken (fst c)) s = (Inr reply, t) \<longrightarrow>
        (\<exists>x. perform env v k accessToken c s = (Inr x, t))) \<and>
     (\<forall>s x t. dispatch env v (httpRequest accessToken (fst c)) s = (Inl x, t) \<longrightarrow>
        (if httpStatus x \<in> soft then \<exists>y. perform env v k accessToken c s = (Inr y, t)
         else \<exists>m. perform env v k accessToken c s = (Inl (Api_error (httpStatus x) m), t)))"

abbreviation understood :: "(wire_body, json, 'o) env \<Rightarrow> vault \<Rightarrow> columns \<Rightarrow> string \<Rightarrow> 'a call \<Rightarrow> endpoint \<Rightarrow> bool" where
  "understood \<equiv> understoodBut {}"

text \<open>Ids are UUIDs: 36 characters, no slash.\<close>

definition isId :: "ident \<Rightarrow> bool" where
  "isId i \<longleftrightarrow> length i = 36 \<and> CHR ''/'' \<notin> set i"

lemma id_not_literal: "isId i \<Longrightarrow> length l \<noteq> 36 \<Longrightarrow> (i = l) = False"
  by (auto simp: isId_def)

lemma id_nonempty: "isId i \<Longrightarrow> i \<noteq> []"
  by (auto simp: isId_def)

lemma split_id: "isId i \<Longrightarrow> splitOn (CHR ''/'') (i @ CHR ''/'' # s) = i # splitOn (CHR ''/'') s"
  "isId i \<Longrightarrow> splitOn (CHR ''/'') i = [i]"
  by (simp_all add: isId_def splitOn_append splitOn_fresh)

lemmas target_simps = target_def plain_def sending_def apiClient_def inProjectPath_def split_id find_route
  projectRoutes_def chatRoutes_def
  id_not_literal id_nonempty

lemma target_tasks:
  assumes "isId p" "isId t"
  shows "target (listTasks p) = Some (InProject p (Tasks All), [p])"
    "target (getTask p t) = Some (InProject p (Tasks (One t)), [p, t])"
    "target (createTask p body) = Some (InProject p (Tasks Create), [p])"
    "target (updateTask p t updates) = Some (InProject p (Tasks (Update t)), [p, t])"
    "target (deleteTask p t) = Some (InProject p (Tasks (Remove t)), [p, t])"
    "target (listTaskCategories p) = Some (InProject p TaskCategories, [p])"
  using assms by (simp_all add: target_simps listTasks_def getTask_def createTask_def updateTask_def deleteTask_def
      listTaskCategories_def taskRoutes_def taskCategoryRoutes_def)

lemma target_discovery:
  assumes "isId p" "isId b" "isId x"
  shows "target (listDiscoveryBlocks p) = Some (InProject p (Blocks All), [p])"
    "target (getDiscoveryBlock p b) = Some (InProject p (Blocks (One b)), [p, b])"
    "target (createDiscoveryBlock p title) = Some (InProject p (Blocks Create), [p])"
    "target (deleteDiscoveryBlock p b token) = Some (InProject p (Blocks (Remove b)), [p, b])"
    "target (updateDiscoveryBlock p b bup lock) = Some (InProject p (Blocks (Update b)), [p, b])"
    "target (listDiscoveryBlockItems p b) = Some (InProject p (BlockItems b All), [p, b])"
    "target (createDiscoveryBlockItem p b label order) = Some (InProject p (BlockItems b Create), [p, b])"
    "target (updateDiscoveryBlockItem p b x iup) = Some (InProject p (BlockItems b (Update x)), [p, b, x])"
    "target (deleteDiscoveryBlockItem p b x) = Some (InProject p (BlockItems b (Remove x)), [p, b, x])"
  using assms by (simp_all add: target_simps
      listDiscoveryBlocks_def getDiscoveryBlock_def createDiscoveryBlock_def deleteDiscoveryBlock_def
      updateDiscoveryBlock_def listDiscoveryBlockItems_def createDiscoveryBlockItem_def
      updateDiscoveryBlockItem_def deleteDiscoveryBlockItem_def blockRoutes_def blockItemRoutes_def)

lemma target_calendar:
  assumes "isId p" "isId c" "isId e"
  shows "target (listCalendarCategories p) = Some (InProject p (Categories All), [p])"
    "target (createCalendarCategory p name color) = Some (InProject p (Categories Create), [p])"
    "target (updateCalendarCategory p c newName newColor) = Some (InProject p (Categories (Update c)), [p, c])"
    "target (deleteCalendarCategory p c) = Some (InProject p (Categories (Remove c)), [p, c])"
    "target (listCalendarEvents p) = Some (InProject p (Events All), [p])"
    "target (createCalendarEvent p event) = Some (InProject p (Events Create), [p])"
    "target (updateCalendarEvent p e eup) = Some (InProject p (Events (Update e)), [p, e])"
    "target (deleteCalendarEvent p e) = Some (InProject p (Events (Remove e)), [p, e])"
  using assms by (simp_all add: target_simps
      listCalendarCategories_def createCalendarCategory_def updateCalendarCategory_def
      deleteCalendarCategory_def listCalendarEvents_def createCalendarEvent_def updateCalendarEvent_def
      deleteCalendarEvent_def eventRoutes_def categoryRoutes_def)

lemma target_checklist:
  assumes "isId p" "isId x"
  shows "target (fetchEvaluationChecklistItems p) = Some (InProject p (Items All), [p])"
    "target (createEvaluationChecklistItem p label place order) = Some (InProject p (Items Create), [p])"
    "target (updateEvaluationChecklistItem p x cup token) = Some (InProject p (Items (Update x)), [p, x])"
    "target (deleteEvaluationChecklistItem p x token) = Some (InProject p (Items (Remove x)), [p, x])"
  using assms by (simp_all add: target_simps
      fetchEvaluationChecklistItems_def createEvaluationChecklistItem_def updateEvaluationChecklistItem_def
      deleteEvaluationChecklistItem_def itemRoutes_def)

lemma target_project:
  assumes "isId p" "isId u"
  shows "target (listProjects) = Some (Own MyProjects, [])"
    "target (getProject p) = Some (InProject p (Lifecycle Project), [p])"
    "target (createProject name description) = Some (Own CreateProject, [])"
    "target (deleteProject p) = Some (InProject p (Lifecycle DeleteProject), [p])"
    "target (updateProject p status archived deadline) = Some (InProject p (Lifecycle UpdateProject), [p])"
    "target (updateProjectDetails p name description updatedAt) = Some (InProject p (Lifecycle UpdateDetails), [p])"
    "target (getMembers p) = Some (InProject p (Membership Members), [p])"
    "target (addMember_call p name) = Some (InProject p (Membership AddMember), [p])"
    "target (removeMember_call p u) = Some (InProject p (Membership (RemoveMember u)), [p, u])"
    "target (updateMemberRole_call p u role) = Some (InProject p (Membership (UpdateRole u)), [p, u])"
  using assms by (simp_all add: target_simps
      listProjects_def getProject_def createProject_def deleteProject_def updateProject_def
      updateProjectDetails_def getMembers_def addMember_call_def removeMember_call_def
      updateMemberRole_call_def memberRoutes_def)

lemma target_friends:
  assumes "isId u"
  shows "target (getUserRelationships) = Some (Own (Social Relationships), [])"
    "target (getUserRelationship u) = Some (Own (Social (Relationship u)), [u])"
    "target (sendFriendRequest u) = Some (Own (Social (Befriend u)), [u])"
    "target (updateFriendRelationship u newStatus) = Some (Own (Social (UpdateRelationship u)), [u])"
    "target (removeFriendRelationship u) = Some (Own (Social (Unfriend u)), [u])"
  using assms by (simp_all add: target_simps
      getUserRelationships_def getUserRelationship_def sendFriendRequest_def updateFriendRelationship_def
      removeFriendRelationship_def relationshipRoutes_def)

lemma target_chat:
  assumes "isId p" "isId m"
  shows "target (fetchChatMessages p before since number) = Some (InProject p (Chat Messages), [p])"
    "target (markChatRead p lastRead) = Some (InProject p (Chat ReadMessages), [p])"
    "target (createChatMessage p content) = Some (InProject p (Chat CreateMessage), [p])"
    "target (deleteChatMessage p m) = Some (InProject p (Chat (RemoveMessage m)), [p, m])"
    "target (fetchUnreadChatProjectIds) = Some (Own Unread, [])"
  using assms by (simp_all add: target_simps
      fetchChatMessages_def markChatRead_def createChatMessage_def deleteChatMessage_def
      fetchUnreadChatProjectIds_def)

lemma target_users:
  assumes "isId u" "isId n"
  shows "target (getNotifications) = Some (Own (Inbox Notifications), [])"
    "target (markNotificationAsRead n) = Some (Own (Inbox (ReadNotification n)), [n])"
    "target (markAllNotificationsAsRead) = Some (Own (Inbox ReadAllNotifications), [])"
    "target (deleteNotification_call n) = Some (Own (Inbox (DeleteNotification n)), [n])"
    "target (deleteAllNotifications) = Some (Own (Inbox ClearNotifications), [])"
    "target (getUserProfile u) = Some (Own (Account (Profile u)), [u])"
    "target (getFriendEmail u) = Some (Own (Account (EmailOf u)), [u])"
    "target (getMe) = Some (Own (Account Me), [])"
    "target (updateMe_call name) = Some (Own (Account UpdateMe), [])"
    "target (uploadAvatar_call) = Some (Own (Account UploadAvatar), [])"
    "target (deleteMe) = Some (Own (Account RemoveMe), [])"
    "target (searchWorkspace params) = Some (Own Search, [])"
  using assms by (simp_all add: target_simps
      getNotifications_def markNotificationAsRead_def markAllNotificationsAsRead_def
      deleteNotification_call_def deleteAllNotifications_def getUserProfile_def getFriendEmail_def getMe_def
      updateMe_call_def uploadAvatar_call_def deleteMe_def searchWorkspace_def notificationRoutes_def
      userRoutes_def relationshipRoutes_def searchRoutes_def)

lemma target_tokens:
  assumes "isId p" "isId k"
  shows "target (listProjectApiTokens p) = Some (InProject p (Tokens ApiTokens), [p])"
    "target (createProjectApiToken p label permission expiresAt) = Some (InProject p (Tokens CreateApiToken), [p])"
    "target (revokeProjectApiToken p k) = Some (InProject p (Tokens (RevokeApiToken k)), [p, k])"
    "target (deleteProjectApiToken p k) = Some (InProject p (Tokens (RemoveApiToken k)), [p, k])"
  using assms by (simp_all add: target_simps
      listProjectApiTokens_def createProjectApiToken_def revokeProjectApiToken_def deleteProjectApiToken_def
      apiTokenRoutes_def)

section \<open>What comes back\<close>

lemma replies_Inr: "replies f m w = (Inr r, t) \<longleftrightarrow> (\<exists>a. m w = (Inr a, t) \<and> r = f a)"
  by (auto simp: replies_def andThen_Inr ret_Inr)

lemma throw_no_reply: "throw e w \<noteq> (Inr r, t)"
  by (simp add: throw_def)

lemma onWorld_Inr: "onWorld m s = (Inr a, t) \<longleftrightarrow> (\<exists>w. m (api_world s) = (Inr a, w) \<and> t = s\<lparr>api_world := w\<rparr>)"
  by (cases "m (api_world s)") (auto simp: onWorld_def)

lemma served_request:
  assumes "resolve (rq_verb r) (rq_path r) = Some (e, ids)" and "dispatch env v r s = (Inr reply, t)"
    and "\<not> isMachine e" and "\<not> isPublic e"
  shows "\<exists>u i w w'. en_validate env e (rq_body r) = Inr i \<and>
    handler env v (firstHeaderValue (rq_fieldLockToken r)) (Some u) e i w = (Inr reply, w')"
proof -
  obtain user where user: "auth_canActivate (internalFetch v (en_auth env)) False False (rq_authorization r) = Inr user"
    using assms by (auto simp: dispatch_def andThen_Inr outcome_def)
  then obtain u where "user = Some u" using auth_never_anonymous by (cases user) force+
  then show ?thesis using assms user
    by (cases e) (auto simp: dispatch_def andThen_Inr outcome_def onWorld_Inr pipes_def)
qed

lemma refused_message: "\<not> responseOk (rp_status x) \<Longrightarrow>
    snd (apiClient r read) x = Inl (Api_error (rp_status x) (readErrorMessage x))"
  by (simp add: apiClient_def apiResult_def)

lemma read_answer:
  "responseOk status \<Longrightarrow> snd (apiClient r read) (answer k (status, Inr x)) =
     (if status = 204 then read None
      else case replyJson k x of None \<Rightarrow> Inl (Js_error ''SyntaxError'') | Some v \<Rightarrow> read (Some v))"
  by (auto simp: apiClient_def apiResult_def answer_def split: option.split)

lemma answer_status [simp]: "rp_status (answer k (status, x)) = status"
  by (cases x) (simp_all add: answer_def)

lemma fst_apiClient [simp]: "fst (apiClient r read) = r"
  by (simp add: apiClient_def)

lemma statuses [simp]: "responseOk 200" "responseOk 201" "responseOk 204"
  by (simp_all add: responseOk_def)

lemma lists_read [simp]:
  "readList m n parseTask (Some (JArr (map (taskJson k) ts))) = Inr (map (taskWire k) ts)"
  "readList m n parseTaskCategory (Some (JArr (map categoryJson cs))) = Inr (map taskCategoryWire cs)"
  "readList m n parseCalendarCategory (Some (JArr (map categoryJson cs))) = Inr (map categoryWire cs)"
  "readList m n parseCalendarEvent (Some (JArr (map (eventJson k) es))) = Inr (map (eventWire k) es)"
  "readList m n parseDiscoveryBlock (Some (JArr (map (blockJson k) bs))) = Inr (map (blockWire k) bs)"
  "readList m n parseDiscoveryBlockItem_json (Some (JArr (map (blockItemJson k) xs))) = Inr (map (blockItemWire k) xs)"
  "readList m n parseEvaluationChecklistItem_json (Some (JArr (map itemJson ys))) = Inr (map itemWire ys)"
  "readList m n parseProject (Some (JArr (map (projectJson k) ps))) = Inr (map (projectWire k) ps)"
  "readList m n parseProjectMember (Some (JArr (map (memberJson k) ms))) = Inr (map (memberWire k) ms)"
  "readList m n parseUserRelationship (Some (JArr (map (relationshipJson k) rs))) = Inr (map (relationshipWire k) rs)"
  "readList m n parseChatMessage (Some (JArr (map (messageJson k) gs))) = Inr (map (messageWire k) gs)"
  "readList m n parseNotification (Some (JArr (map (notificationJson k) ns))) = Inr (map (notificationWire k) ns)"
  by (rule parse_list; simp)+

lemma ones_read [simp]:
  "parse v = Some x \<Longrightarrow> readOne m parse (Some v) = Inr x"
  "ignore payload = Inr ()"
  "parseIds (strings is) = Some is"
  "parseCount (JObj [(''count'', jint z)]) = Some (of_int z)"
  "parseEmail (JObj [(''email'', JStr e)]) = Some e"
  by (simp_all add: readOne_def ignore_def parseIds_def strings_def parseCount_def parseEmail_def record_of_def
      field_defs) (induction "is"; simp add: parseAll_def)

lemma understoodI:
  assumes "target c = Some (e, ids)" and "\<not> isMachine e" and "\<not> isPublic e"
    and "\<And>u tok i w r w'. en_validate env e (aq_query (fst c), aq_body (fst c)) = Inr i \<Longrightarrow>
      handler env v tok (Some u) e i w = (Inr r, w') \<Longrightarrow>
      \<exists>x. snd c (answer k (successStatus (aq_verb (fst c)) e, Inr r)) = Inr x"
    and refused: "\<And>x. \<not> responseOk (rp_status x) \<Longrightarrow>
      if rp_status x \<in> soft then \<exists>y. snd c x = Inr y else \<exists>m. snd c x = Inl (Api_error (rp_status x) m)"
  shows "understoodBut soft env v k a c e"
  unfolding understoodBut_def
proof (intro conjI allI impI)
  show "map_option fst (target c) = Some e" using assms(1) by simp
next
  fix s reply t assume run: "dispatch env v (httpRequest a (fst c)) s = (Inr reply, t)"
  obtain u i w w' where "en_validate env e (aq_query (fst c), aq_body (fst c)) = Inr i"
    "handler env v (firstHeaderValue (rq_fieldLockToken (httpRequest a (fst c)))) (Some u) e i w = (Inr reply, w')"
    using served_request [OF _ run assms(2,3)] assms(1) by (auto simp: httpRequest_def target_def)
  then show "\<exists>x. perform env v k a c s = (Inr x, t)"
    using assms(4) run assms(1) by (auto simp: perform_def respond_def)
next
  fix s x t assume run: "dispatch env v (httpRequest a (fst c)) s = (Inl x, t)"
  have "\<not> responseOk (httpStatus x)" using httpStatus_error [of x] by (simp add: responseOk_def)
  then show "if httpStatus x \<in> soft then \<exists>y. perform env v k a c s = (Inr y, t)
    else \<exists>m. perform env v k a c s = (Inl (Api_error (httpStatus x) m), t)"
    using run refused [of "answer k (httpStatus x, Inl (httpMessage x))"]
    by (simp add: perform_def respond_def del: if_split cong: if_cong)
qed

lemma refused_call:
  "\<not> responseOk (rp_status x) \<Longrightarrow> \<exists>m. snd (apiClient r read) x = Inl (Api_error (rp_status x) m)"
  by (simp add: refused_message)

lemmas served_simps = refused_call handler_def read_answer successStatus_def replies_Inr throw_no_reply plain_def sending_def


lemma understood_tasks:
  assumes "isId p" "isId t"
  shows "understood env v k a (listTasks p) (InProject p (Tasks All))"
    "understood env v k a (getTask p t) (InProject p (Tasks (One t)))"
    "understood env v k a (createTask p ctb) (InProject p (Tasks Create))"
    "understood env v k a (updateTask p t utb) (InProject p (Tasks (Update t)))"
    "understood env v k a (deleteTask p t) (InProject p (Tasks (Remove t)))"
    "understood env v k a (listTaskCategories p) (InProject p TaskCategories)"
proof -
  note T = target_tasks [OF assms]
  show "understood env v k a (listTasks p) (InProject p (Tasks All))"
    by (rule understoodI [OF T(1)]; auto simp: served_simps listTasks_def split: input.splits)
  show "understood env v k a (getTask p t) (InProject p (Tasks (One t)))"
    by (rule understoodI [OF T(2)]; auto simp: served_simps getTask_def split: input.splits)
  show "understood env v k a (createTask p ctb) (InProject p (Tasks Create))"
    by (rule understoodI [OF T(3)]; auto simp: served_simps createTask_def split: input.splits)
  show "understood env v k a (updateTask p t utb) (InProject p (Tasks (Update t)))"
    by (rule understoodI [OF T(4)]; auto simp: served_simps updateTask_def split: input.splits)
  show "understood env v k a (deleteTask p t) (InProject p (Tasks (Remove t)))"
    by (rule understoodI [OF T(5)]; auto simp: served_simps deleteTask_def split: input.splits)
  show "understood env v k a (listTaskCategories p) (InProject p TaskCategories)"
    by (rule understoodI [OF T(6)]; auto simp: served_simps listTaskCategories_def split: input.splits)
qed

lemma understood_discovery:
  assumes "isId p" "isId b" "isId x"
  shows "understood env v k a (listDiscoveryBlocks p) (InProject p (Blocks All))"
    "understood env v k a (getDiscoveryBlock p b) (InProject p (Blocks (One b)))"
    "understood env v k a (createDiscoveryBlock p title) (InProject p (Blocks Create))"
    "understood env v k a (deleteDiscoveryBlock p b token) (InProject p (Blocks (Remove b)))"
    "understood env v k a (updateDiscoveryBlock p b bup lock) (InProject p (Blocks (Update b)))"
    "understood env v k a (listDiscoveryBlockItems p b) (InProject p (BlockItems b All))"
    "understood env v k a (createDiscoveryBlockItem p b label order) (InProject p (BlockItems b Create))"
    "understood env v k a (updateDiscoveryBlockItem p b x iup) (InProject p (BlockItems b (Update x)))"
    "understood env v k a (deleteDiscoveryBlockItem p b x) (InProject p (BlockItems b (Remove x)))"
proof -
  note T = target_discovery [OF assms]
  show "understood env v k a (listDiscoveryBlocks p) (InProject p (Blocks All))"
    by (rule understoodI [OF T(1)]; auto simp: served_simps listDiscoveryBlocks_def split: input.splits)
  show "understood env v k a (getDiscoveryBlock p b) (InProject p (Blocks (One b)))"
    by (rule understoodI [OF T(2)]; auto simp: served_simps getDiscoveryBlock_def split: input.splits)
  show "understood env v k a (createDiscoveryBlock p title) (InProject p (Blocks Create))"
    by (rule understoodI [OF T(3)]; auto simp: served_simps createDiscoveryBlock_def split: input.splits)
  show "understood env v k a (deleteDiscoveryBlock p b token) (InProject p (Blocks (Remove b)))"
    by (rule understoodI [OF T(4)]; auto simp: served_simps deleteDiscoveryBlock_def split: input.splits)
  show "understood env v k a (updateDiscoveryBlock p b bup lock) (InProject p (Blocks (Update b)))"
    by (rule understoodI [OF T(5)]; auto simp: served_simps updateDiscoveryBlock_def split: input.splits)
  show "understood env v k a (listDiscoveryBlockItems p b) (InProject p (BlockItems b All))"
    by (rule understoodI [OF T(6)]; auto simp: served_simps listDiscoveryBlockItems_def split: input.splits)
  show "understood env v k a (createDiscoveryBlockItem p b label order) (InProject p (BlockItems b Create))"
    by (rule understoodI [OF T(7)]; auto simp: served_simps createDiscoveryBlockItem_def split: input.splits)
  show "understood env v k a (updateDiscoveryBlockItem p b x iup) (InProject p (BlockItems b (Update x)))"
    by (rule understoodI [OF T(8)]; auto simp: served_simps updateDiscoveryBlockItem_def split: input.splits)
  show "understood env v k a (deleteDiscoveryBlockItem p b x) (InProject p (BlockItems b (Remove x)))"
    by (rule understoodI [OF T(9)]; auto simp: served_simps deleteDiscoveryBlockItem_def split: input.splits)
qed

lemma understood_calendar:
  assumes "isId p" "isId c" "isId e"
  shows "understood env v k a (listCalendarCategories p) (InProject p (Categories All))"
    "understood env v k a (createCalendarCategory p name color) (InProject p (Categories Create))"
    "understood env v k a (updateCalendarCategory p c newName newColor) (InProject p (Categories (Update c)))"
    "understood env v k a (deleteCalendarCategory p c) (InProject p (Categories (Remove c)))"
    "understood env v k a (listCalendarEvents p) (InProject p (Events All))"
    "understood env v k a (createCalendarEvent p event) (InProject p (Events Create))"
    "understood env v k a (updateCalendarEvent p e eup) (InProject p (Events (Update e)))"
    "understood env v k a (deleteCalendarEvent p e) (InProject p (Events (Remove e)))"
proof -
  note T = target_calendar [OF assms]
  show "understood env v k a (listCalendarCategories p) (InProject p (Categories All))"
    by (rule understoodI [OF T(1)]; auto simp: served_simps listCalendarCategories_def split: input.splits)
  show "understood env v k a (createCalendarCategory p name color) (InProject p (Categories Create))"
    by (rule understoodI [OF T(2)]; auto simp: served_simps createCalendarCategory_def split: input.splits)
  show "understood env v k a (updateCalendarCategory p c newName newColor) (InProject p (Categories (Update c)))"
    by (rule understoodI [OF T(3)]; auto simp: served_simps updateCalendarCategory_def split: input.splits)
  show "understood env v k a (deleteCalendarCategory p c) (InProject p (Categories (Remove c)))"
    by (rule understoodI [OF T(4)]; auto simp: served_simps deleteCalendarCategory_def split: input.splits)
  show "understood env v k a (listCalendarEvents p) (InProject p (Events All))"
    by (rule understoodI [OF T(5)]; auto simp: served_simps listCalendarEvents_def split: input.splits)
  show "understood env v k a (createCalendarEvent p event) (InProject p (Events Create))"
    by (rule understoodI [OF T(6)]; auto simp: served_simps createCalendarEvent_def split: input.splits)
  show "understood env v k a (updateCalendarEvent p e eup) (InProject p (Events (Update e)))"
    by (rule understoodI [OF T(7)]; auto simp: served_simps updateCalendarEvent_def split: input.splits)
  show "understood env v k a (deleteCalendarEvent p e) (InProject p (Events (Remove e)))"
    by (rule understoodI [OF T(8)]; auto simp: served_simps deleteCalendarEvent_def split: input.splits)
qed

lemma understood_checklist:
  assumes "isId p" "isId x"
  shows "understood env v k a (fetchEvaluationChecklistItems p) (InProject p (Items All))"
    "understood env v k a (createEvaluationChecklistItem p label place order) (InProject p (Items Create))"
    "understood env v k a (updateEvaluationChecklistItem p x cup token) (InProject p (Items (Update x)))"
    "understood env v k a (deleteEvaluationChecklistItem p x token) (InProject p (Items (Remove x)))"
proof -
  note T = target_checklist [OF assms]
  show "understood env v k a (fetchEvaluationChecklistItems p) (InProject p (Items All))"
    by (rule understoodI [OF T(1)]; auto simp: served_simps fetchEvaluationChecklistItems_def split: input.splits)
  show "understood env v k a (createEvaluationChecklistItem p label place order) (InProject p (Items Create))"
    by (rule understoodI [OF T(2)]; auto simp: served_simps createEvaluationChecklistItem_def split: input.splits)
  show "understood env v k a (updateEvaluationChecklistItem p x cup token) (InProject p (Items (Update x)))"
    by (rule understoodI [OF T(3)]; auto simp: served_simps updateEvaluationChecklistItem_def split: input.splits)
  show "understood env v k a (deleteEvaluationChecklistItem p x token) (InProject p (Items (Remove x)))"
    by (rule understoodI [OF T(4)]; auto simp: served_simps deleteEvaluationChecklistItem_def split: input.splits)
qed

lemma understood_project:
  assumes "isId p" "isId u"
  shows "understood env v k a (listProjects) (Own MyProjects)"
    "understood env v k a (getProject p) (InProject p (Lifecycle Project))"
    "understood env v k a (createProject name description) (Own CreateProject)"
    "understood env v k a (deleteProject p) (InProject p (Lifecycle DeleteProject))"
    "understood env v k a (updateProject p status archived deadline) (InProject p (Lifecycle UpdateProject))"
    "understood env v k a (updateProjectDetails p name description updatedAt) (InProject p (Lifecycle UpdateDetails))"
    "understood env v k a (getMembers p) (InProject p (Membership Members))"
    "understood env v k a (addMember_call p name) (InProject p (Membership AddMember))"
    "understood env v k a (removeMember_call p u) (InProject p (Membership (RemoveMember u)))"
    "understood env v k a (updateMemberRole_call p u role) (InProject p (Membership (UpdateRole u)))"
proof -
  note T = target_project [OF assms]
  show "understood env v k a (listProjects) (Own MyProjects)"
    by (rule understoodI [OF T(1)]; auto simp: served_simps listProjects_def split: input.splits)
  show "understood env v k a (getProject p) (InProject p (Lifecycle Project))"
    by (rule understoodI [OF T(2)]; auto simp: served_simps getProject_def split: input.splits)
  show "understood env v k a (createProject name description) (Own CreateProject)"
    by (rule understoodI [OF T(3)]; auto simp: served_simps createProject_def split: input.splits)
  show "understood env v k a (deleteProject p) (InProject p (Lifecycle DeleteProject))"
    by (rule understoodI [OF T(4)]; auto simp: served_simps deleteProject_def split: input.splits)
  show "understood env v k a (updateProject p status archived deadline) (InProject p (Lifecycle UpdateProject))"
    by (rule understoodI [OF T(5)]; auto simp: served_simps updateProject_def split: input.splits)
  show "understood env v k a (updateProjectDetails p name description updatedAt) (InProject p (Lifecycle UpdateDetails))"
    by (rule understoodI [OF T(6)]; auto simp: served_simps updateProjectDetails_def split: input.splits)
  show "understood env v k a (getMembers p) (InProject p (Membership Members))"
    by (rule understoodI [OF T(7)]; auto simp: served_simps getMembers_def split: input.splits)
  show "understood env v k a (addMember_call p name) (InProject p (Membership AddMember))"
    by (rule understoodI [OF T(8)]; auto simp: served_simps addMember_call_def split: input.splits)
  show "understood env v k a (removeMember_call p u) (InProject p (Membership (RemoveMember u)))"
    by (rule understoodI [OF T(9)]; auto simp: served_simps removeMember_call_def split: input.splits)
  show "understood env v k a (updateMemberRole_call p u role) (InProject p (Membership (UpdateRole u)))"
    by (rule understoodI [OF T(10)]; auto simp: served_simps updateMemberRole_call_def split: input.splits)
qed

lemma understood_friends:
  assumes "isId u"
  shows "understood env v k a (getUserRelationships) (Own (Social Relationships))"
    "understood env v k a (getUserRelationship u) (Own (Social (Relationship u)))"
    "understood env v k a (sendFriendRequest u) (Own (Social (Befriend u)))"
    "understood env v k a (updateFriendRelationship u newStatus) (Own (Social (UpdateRelationship u)))"
    "understood env v k a (removeFriendRelationship u) (Own (Social (Unfriend u)))"
proof -
  note T = target_friends [OF assms]
  show "understood env v k a (getUserRelationships) (Own (Social Relationships))"
    by (rule understoodI [OF T(1)]; auto simp: served_simps getUserRelationships_def split: input.splits)
  show "understood env v k a (getUserRelationship u) (Own (Social (Relationship u)))"
    by (rule understoodI [OF T(2)]; auto simp: served_simps getUserRelationship_def split: input.splits)
  show "understood env v k a (sendFriendRequest u) (Own (Social (Befriend u)))"
    by (rule understoodI [OF T(3)]; auto simp: served_simps sendFriendRequest_def split: input.splits)
  show "understood env v k a (updateFriendRelationship u newStatus) (Own (Social (UpdateRelationship u)))"
    by (rule understoodI [OF T(4)]; auto simp: served_simps updateFriendRelationship_def split: input.splits)
  show "understood env v k a (removeFriendRelationship u) (Own (Social (Unfriend u)))"
    by (rule understoodI [OF T(5)]; auto simp: served_simps removeFriendRelationship_def split: input.splits)
qed

lemma understood_chat:
  assumes "isId p" "isId m"
  shows "understood env v k a (fetchChatMessages p before since number) (InProject p (Chat Messages))"
    "understood env v k a (createChatMessage p content) (InProject p (Chat CreateMessage))"
    "understood env v k a (deleteChatMessage p m) (InProject p (Chat (RemoveMessage m)))"
    "understood env v k a (fetchUnreadChatProjectIds) (Own Unread)"
proof -
  note T = target_chat [OF assms]
  show "understood env v k a (fetchChatMessages p before since number) (InProject p (Chat Messages))"
    by (rule understoodI [OF T(1)]; auto simp: served_simps fetchChatMessages_def split: input.splits)
  show "understood env v k a (createChatMessage p content) (InProject p (Chat CreateMessage))"
    by (rule understoodI [OF T(3)]; auto simp: served_simps createChatMessage_def split: input.splits)
  show "understood env v k a (deleteChatMessage p m) (InProject p (Chat (RemoveMessage m)))"
    by (rule understoodI [OF T(4)]; auto simp: served_simps deleteChatMessage_def split: input.splits)
  show "understood env v k a (fetchUnreadChatProjectIds) (Own Unread)"
    by (rule understoodI [OF T(5)]; auto simp: served_simps fetchUnreadChatProjectIds_def split: input.splits)
qed

lemma understood_users:
  assumes "isId u" "isId n"
  shows "understood env v k a (getNotifications) (Own (Inbox Notifications))"
    "understood env v k a (markNotificationAsRead n) (Own (Inbox (ReadNotification n)))"
    "understood env v k a (markAllNotificationsAsRead) (Own (Inbox ReadAllNotifications))"
    "understood env v k a (deleteNotification_call n) (Own (Inbox (DeleteNotification n)))"
    "understood env v k a (deleteAllNotifications) (Own (Inbox ClearNotifications))"
    "understood env v k a (getUserProfile u) (Own (Account (Profile u)))"
    "understoodBut {403} env v k a (getFriendEmail u) (Own (Account (EmailOf u)))"
    "understood env v k a (getMe) (Own (Account Me))"
    "understood env v k a (updateMe_call name) (Own (Account UpdateMe))"
    "understood env v k a (uploadAvatar_call) (Own (Account UploadAvatar))"
    "understood env v k a (deleteMe) (Own (Account RemoveMe))"
proof -
  note T = target_users [OF assms]
  show "understood env v k a (getNotifications) (Own (Inbox Notifications))"
    by (rule understoodI [OF T(1)]; auto simp: served_simps getNotifications_def split: input.splits)
  show "understood env v k a (markNotificationAsRead n) (Own (Inbox (ReadNotification n)))"
    by (rule understoodI [OF T(2)]; auto simp: served_simps markNotificationAsRead_def split: input.splits)
  show "understood env v k a (markAllNotificationsAsRead) (Own (Inbox ReadAllNotifications))"
    by (rule understoodI [OF T(3)]; auto simp: served_simps markAllNotificationsAsRead_def split: input.splits)
  show "understood env v k a (deleteNotification_call n) (Own (Inbox (DeleteNotification n)))"
    by (rule understoodI [OF T(4)]; auto simp: served_simps deleteNotification_call_def split: input.splits)
  show "understood env v k a (deleteAllNotifications) (Own (Inbox ClearNotifications))"
    by (rule understoodI [OF T(5)]; auto simp: served_simps deleteAllNotifications_def split: input.splits)
  show "understood env v k a (getUserProfile u) (Own (Account (Profile u)))"
    by (rule understoodI [OF T(6)]; auto simp: served_simps getUserProfile_def split: input.splits)
  show "understoodBut {403} env v k a (getFriendEmail u) (Own (Account (EmailOf u)))"
    by (rule understoodI [OF T(7)]; auto simp: served_simps getFriendEmail_def refused_message split: input.splits)
  show "understood env v k a (getMe) (Own (Account Me))"
    by (rule understoodI [OF T(8)]; auto simp: served_simps getMe_def split: input.splits)
  show "understood env v k a (updateMe_call name) (Own (Account UpdateMe))"
    by (rule understoodI [OF T(9)]; auto simp: served_simps updateMe_call_def split: input.splits)
  show "understood env v k a (uploadAvatar_call) (Own (Account UploadAvatar))"
    by (rule understoodI [OF T(10)]; auto simp: served_simps uploadAvatar_call_def split: input.splits)
  show "understood env v k a (deleteMe) (Own (Account RemoveMe))"
    by (rule understoodI [OF T(11)]; auto simp: served_simps deleteMe_def split: input.splits)
qed

lemma markChatRead_fails:
  assumes "isId p" and "dispatch env v (httpRequest a (fst (markChatRead p lastRead))) s = (Inr reply, t)"
  shows "perform env v k a (markChatRead p lastRead) s = (Inl (Js_error ''SyntaxError''), t)"
proof -
  note T = target_chat(2) [OF assms(1) assms(1), of lastRead]
  obtain u i w w' where "handler env v (firstHeaderValue (rq_fieldLockToken (httpRequest a (fst (markChatRead p lastRead)))))
      (Some u) (InProject p (Chat ReadMessages)) i w = (Inr reply, w')"
    using served_request [OF _ assms(2), of "InProject p (Chat ReadMessages)"] T by (auto simp: httpRequest_def target_def)
  then have "reply = R_nothing" by (auto simp: handler_def replies_Inr throw_no_reply split: input.splits)
  then show ?thesis using assms(2) T
    by (simp add: perform_def respond_def read_answer successStatus_def markChatRead_def sending_def plain_def)
qed

definition validQueries :: "(wire_body, json, 'o) env \<Rightarrow> bool" where
  "validQueries env \<longleftrightarrow> (\<forall>b q. en_validate env (Own Search) b = Inr (In_search q) \<longrightarrow> 1 \<le> searchPage q \<and> 1 \<le> searchLimit q)"

lemma understood_search:
  assumes "validQueries env"
  shows "understood env v k a (searchWorkspace params) (Own Search)"
proof (rule understoodI [where ids = "[]"])
  show "target (searchWorkspace params) = Some (Own Search, [])"
    using target_users(12) [of "replicate 36 (CHR ''x'')" "replicate 36 (CHR ''x'')"] by (simp add: isId_def)
  fix u tok i w r w'
  assume v: "en_validate env (Own Search) (aq_query (fst (searchWorkspace params)), aq_body (fst (searchWorkspace params))) = Inr i"
    and "handler env v tok (Some u) (Own Search) i w = (Inr r, w')"
  then obtain q where "i = In_search q"
      "r = R_search (search (en_ilike env) (en_rank env) (en_touched env) q (ru_id u) (en_snap env w))"
    by (auto simp: served_simps gets_Inr split: input.splits)
  moreover have "1 \<le> searchPage q" "1 \<le> searchLimit q" using assms v calculation by (auto simp: validQueries_def)
  ultimately show "\<exists>x. snd (searchWorkspace params)
      (answer k (successStatus (aq_verb (fst (searchWorkspace params))) (Own Search), Inr r)) = Inr x"
    by (simp add: served_simps searchWorkspace_def parse_search search_def)
qed (simp_all add: searchWorkspace_def plain_def refused_call)

section \<open>The browser and the server agree\<close>


definition sampleColumns :: columns where
  "sampleColumns = \<lparr>co_iso = (\<lambda>t. ''2026-01-01T00:00:00.000Z''),
     co_userOf = (\<lambda>i. \<lparr>u_id = i, u_email = ''m'', u_username = ''x'', u_firstName = None, u_lastName = None, u_avatarUrl = None,
       u_campus = None, u_status = ACTIVE, u_updatedAt = 0\<rparr>), co_memberId = pm_userId, co_blockUpdatedAt = (\<lambda>_. 0),
     co_itemCreatedAt = (\<lambda>_. 0), co_itemUpdatedAt = (\<lambda>_. 0), co_relationshipId = ur_requesterId,
     co_relationshipCreatedAt = (\<lambda>_. 0), co_relationshipUpdatedAt = (\<lambda>_. 0)\<rparr>"



definition noteOfEve :: notification_row where
  "noteOfEve = \<lparr>n_id = ''n1'', n_userId = ''eve'', n_message = ''hello'', n_isRead = False, n_link = None, n_createdAt = 5\<rparr>"

definition eveBox :: "(wire_body, json, string) env" where
  "eveBox = \<lparr>en_auth = (\<lambda>token body. Fetch_response 200 (Some (\<lambda>field.
       if field = ''active'' then J_bool True else if field = ''assuranceLevel'' then J_int 1
       else if field = ''sub'' then J_string ''eve'' else J_string ''x''))),
     en_keys = (\<lambda>_ _. Fetch_failed), en_tokens = (\<lambda>_ _ _. None),
     en_withinRate = (\<lambda>_. True), en_isUUID = (\<lambda>i. length i = 36), en_validate = (\<lambda>_ _. Inr In_nothing),
     en_wait = (\<lambda>w. w), en_gap = (\<lambda>w. w), en_rank = (\<lambda>_. 0), en_ilike = (\<lambda>_ _. False), en_touched = (\<lambda>_. 0),
     en_snap = (\<lambda>w _. w), en_put = (\<lambda>_. ret ()), en_del = (\<lambda>_. ret ()), en_fetch = (\<lambda>k. ret k),
     en_ping = True, en_storagePing = True\<rparr>"

definition eveState :: api where
  "eveState = \<lparr>api_world = emptyWorld\<lparr>notifications := [noteOfEve]\<rparr>, api_limiter = \<lparr>tokenWindows = [], lastPrunedAt = 0\<rparr>\<rparr>"

lemma eve_served:
  "dispatch eveBox vaultUp (httpRequest ''abc'' (fst getNotifications)) eveState = (Inr (R_notifications [noteOfEve]), eveState)"
proof -
  note T = target_users(1) [of "replicate 36 (CHR ''x'')" "replicate 36 (CHR ''x'')"]
  have "resolve GET [''notifications''] = Some (Own (Inbox Notifications), [])"
    by (simp add: resolve_defs)
  moreover have "splitOn (CHR ''/'') ''notifications'' = [''notifications'']"
    by simp
  ultimately show ?thesis
    by (simp add: dispatch_def readiness_canActivate_def isReady_def httpRequest_def getNotifications_def plain_def auth_canActivate_def internalFetch_def
        getInternalToken_def vaultUp_eq given_def eveBox_def firstHeaderValue_def readBearerToken_def hasPrefix_def
        introspectUser_def responseOk_def userOf_def stringOf_def andThen_def ret_def ensure_def outcome_def onWorld_def
        pipes_def handler_def replies_def notification_findAllByUser_def findMany_def gets_def eveState_def noteOfEve_def)
qed


end
