(* ===== verification/FriendView.thy ===== *)
theory FriendView
  imports Wire
begin

text \<open>
  The friends page: how it derives one status per other user from the directional rows
  (\<open>frontend/src/lib/friendsApi.ts\<close>, \<open>friendProfile.ts\<close>), the count of friends (\<open>friendCountState.ts\<close>), the page's
  actions (\<open>routes/_authenticated/friends.tsx\<close>) and what it makes of the server's events
  (\<open>hooks/useFriendsRealtime.ts\<close>). The lemmas relate the page to the rows of the friendship service of
  Relationships: after the caller's own actions, and after those of the other user.
\<close>

section \<open>The status of a pair\<close>

datatype friendship_status = FS_none | FS_accepted | FS_incoming | FS_outgoing | FS_blocked

definition deriveFriendshipStatus :: "relationship_status option \<Rightarrow> relationship_status option \<Rightarrow> friendship_status" where
  "deriveFriendshipStatus own counterpart =
     (if own = Some BLOCKED then FS_blocked
      else if own = Some ACCEPTED \<and> counterpart = Some ACCEPTED then FS_accepted
      else if own = Some ACCEPTED \<and> counterpart = Some PENDING_APPROVAL then FS_outgoing
      else if own = Some PENDING_APPROVAL \<and> counterpart = Some ACCEPTED then FS_incoming
      else FS_none)"

text \<open>A pair \<open>{mine, theirs}\<close>, and one more row of it.\<close>

type_synonym relationship_pair = "relationship_status option \<times> relationship_status option"

definition addToPair :: "ident \<Rightarrow> wire_relationship \<Rightarrow> relationship_pair \<Rightarrow> relationship_pair" where
  "addToPair me r p = (if wr_requesterId r = me then (Some (wr_status r), snd p) else (fst p, Some (wr_status r)))"

definition splitRelationshipPair :: "wire_relationship list \<Rightarrow> ident \<Rightarrow> relationship_pair" where
  "splitRelationshipPair rs me = fold (addToPair me) rs (None, None)"

definition otherOf :: "ident \<Rightarrow> wire_relationship \<Rightarrow> ident" where
  "otherOf me r = (if wr_requesterId r = me then wr_addresseeId r else wr_requesterId r)"

text \<open>The \<open>Map\<close> of the groups keeps the order in which the other users come.\<close>

definition groupStep :: "ident \<Rightarrow> wire_relationship \<Rightarrow> (ident \<times> relationship_pair) list \<Rightarrow> (ident \<times> relationship_pair) list" where
  "groupStep me r groups =
     (let entry = (case map_of groups (otherOf me r) of None \<Rightarrow> (None, None) | Some p \<Rightarrow> p)
      in AList.update (otherOf me r) (addToPair me r entry) groups)"

definition groupRelationshipsByOtherUser :: "wire_relationship list \<Rightarrow> ident \<Rightarrow> (ident \<times> relationship_pair) list" where
  "groupRelationshipsByOtherUser rs me = fold (groupStep me) rs []"

definition statusOfPair :: "relationship_pair \<Rightarrow> friendship_status" where
  "statusOfPair p = deriveFriendshipStatus (fst p) (snd p)"

definition getAcceptedFriendCount :: "wire_relationship list \<Rightarrow> ident \<Rightarrow> int" where
  "getAcceptedFriendCount rs me =
     int (length (filter (\<lambda>(other, p). statusOfPair p = FS_accepted) (groupRelationshipsByOtherUser rs me)))"

section \<open>Profiles\<close>

record friend_profile =
  fr_id :: ident
  fr_firstName :: string
  fr_lastName :: string
  fr_displayedName :: string
  fr_username :: string
  fr_campus :: "string option"
  fr_avatarUrl :: "string option"
  fr_status :: friendship_status
  fr_online :: bool

definition toFriendProfile :: "public_user \<Rightarrow> friendship_status \<Rightarrow> friend_profile" where
  "toFriendProfile u status =
     (let firstName = (case pu_firstName u of None \<Rightarrow> [] | Some s \<Rightarrow> s);
          lastName = (case pu_lastName u of None \<Rightarrow> [] | Some s \<Rightarrow> s);
          name = trim (firstName @ '' '' @ lastName)
      in \<lparr>fr_id = pu_id u, fr_firstName = firstName, fr_lastName = lastName,
        fr_displayedName = (if name \<noteq> [] then name else pu_username u), fr_username = pu_username u,
        fr_campus = pu_campus u, fr_avatarUrl = pu_avatarUrl u, fr_status = status, fr_online = pu_online u\<rparr>)"

definition hasPresence :: "friendship_status \<Rightarrow> bool" where
  "hasPresence status \<longleftrightarrow> status = FS_accepted \<or> status = FS_blocked"

definition presenceLabel :: "friendship_status \<Rightarrow> bool \<Rightarrow> string" where
  "presenceLabel status online = (if status = FS_blocked then ''Blocked'' else if online then ''Online'' else ''Offline'')"

text \<open>\<open>upper\<close> is \<open>toUpperCase\<close>.\<close>

definition initialsOf :: "(string \<Rightarrow> string) \<Rightarrow> friend_profile \<Rightarrow> string" where
  "initialsOf upper f =
     (let fromName = upper (take 1 (fr_firstName f) @ take 1 (fr_lastName f))
      in if trim fromName \<noteq> [] then fromName else upper (take 2 (fr_username f)))"

section \<open>The page\<close>

record friends_page =
  fp_friends :: "friend_profile list"
  fp_focused :: "friend_profile option"
  fp_selected :: "ident option"
  fp_count :: "int option"

text \<open>\<open>profileOf\<close> is \<open>getUserProfile\<close>, undefined where it fails; that entry is dropped.\<close>

definition loadFriends :: "(ident \<Rightarrow> public_user option) \<Rightarrow> wire_relationship list \<Rightarrow> ident \<Rightarrow> friend_profile list" where
  "loadFriends profileOf rs me = concat (map (\<lambda>(other, p).
     if statusOfPair p = FS_none then []
     else case profileOf other of None \<Rightarrow> [] | Some u \<Rightarrow> [toFriendProfile u (statusOfPair p)])
     (groupRelationshipsByOtherUser rs me))"

definition friendsLoaded :: "friend_profile list \<Rightarrow> friends_page \<Rightarrow> friends_page" where
  "friendsLoaded loaded p = p\<lparr>fp_friends := loaded,
     fp_selected := (case fp_selected p of Some i \<Rightarrow> Some i
       | None \<Rightarrow> (case loaded of [] \<Rightarrow> None | f # _ \<Rightarrow> Some (fr_id f)))\<rparr>"

definition loadFocusedProfile :: "public_user \<Rightarrow> wire_relationship list \<Rightarrow> ident \<Rightarrow> friend_profile" where
  "loadFocusedProfile u rs me = toFriendProfile u (statusOfPair (splitRelationshipPair rs me))"

definition focusLoaded :: "friend_profile \<Rightarrow> friends_page \<Rightarrow> friends_page" where
  "focusLoaded f p = p\<lparr>fp_focused := Some f, fp_selected := Some (fr_id f)\<rparr>"

text \<open>The effect that drops the focused copy once the list has the user.\<close>

definition dropFocused :: "friends_page \<Rightarrow> friends_page" where
  "dropFocused p = (case fp_focused p of None \<Rightarrow> p
   | Some f \<Rightarrow> if fr_id f \<in> fr_id ` set (fp_friends p) then p\<lparr>fp_focused := None\<rparr> else p)"

definition selectedFriend :: "friends_page \<Rightarrow> friend_profile option" where
  "selectedFriend p = (case List.find (\<lambda>f. Some (fr_id f) = fp_selected p) (fp_friends p) of
     Some f \<Rightarrow> Some f
   | None \<Rightarrow> (case fp_focused p of Some f \<Rightarrow> if Some (fr_id f) = fp_selected p then Some f else None | None \<Rightarrow> None))"

definition withStatus :: "ident \<Rightarrow> friendship_status \<Rightarrow> friend_profile list \<Rightarrow> friend_profile list" where
  "withStatus i status = map (\<lambda>f. if fr_id f = i then f\<lparr>fr_status := status\<rparr> else f)"

definition listed :: "ident \<Rightarrow> friend_profile list \<Rightarrow> bool" where
  "listed i fs \<longleftrightarrow> list_ex (\<lambda>f. fr_id f = i) fs"

definition setStatus :: "ident \<Rightarrow> friendship_status \<Rightarrow> friends_page \<Rightarrow> friends_page" where
  "setStatus i status p =
     (if listed i (fp_friends p) then p\<lparr>fp_friends := withStatus i status (fp_friends p)\<rparr>
      else case fp_focused p of
        Some f \<Rightarrow> if fr_id f = i then p\<lparr>fp_friends := fp_friends p @ [f\<lparr>fr_status := status\<rparr>]\<rparr> else p
      | None \<Rightarrow> p)"

definition removeFromList :: "ident \<Rightarrow> friends_page \<Rightarrow> friends_page" where
  "removeFromList i p = p\<lparr>fp_friends := filter (\<lambda>f. fr_id f \<noteq> i) (fp_friends p),
     fp_focused := (if map_option fr_id (fp_focused p) = Some i then None else fp_focused p),
     fp_selected := (if fp_selected p = Some i then None else fp_selected p)\<rparr>"

definition adjustCount :: "int \<Rightarrow> friends_page \<Rightarrow> friends_page" where
  "adjustCount delta p = p\<lparr>fp_count := map_option (\<lambda>n. n + delta) (fp_count p)\<rparr>"

text \<open>
  The actions once the server has done them; one that failed only shows a message. \<open>i\<close> is the selected user,
  whose status the page showed before in the case of a block.
\<close>

definition handleAddFriend :: "ident \<Rightarrow> friends_page \<Rightarrow> friends_page" where
  "handleAddFriend i = setStatus i FS_outgoing"

definition handleAccept :: "ident \<Rightarrow> friends_page \<Rightarrow> friends_page" where
  "handleAccept i p = adjustCount 1 (setStatus i FS_accepted p)"

definition handleDecline :: "ident \<Rightarrow> friends_page \<Rightarrow> friends_page" where
  "handleDecline i = removeFromList i"

definition handleCancelRequest :: "ident \<Rightarrow> friends_page \<Rightarrow> friends_page" where
  "handleCancelRequest i = removeFromList i"

definition handleBlock :: "ident \<Rightarrow> friendship_status \<Rightarrow> friends_page \<Rightarrow> friends_page" where
  "handleBlock i before p =
     (let q = setStatus i FS_blocked p in if before = FS_accepted then adjustCount (- 1) q else q)"

definition handleUnblock :: "ident \<Rightarrow> wire_relationship list \<Rightarrow> ident \<Rightarrow> friends_page \<Rightarrow> friends_page" where
  "handleUnblock i rs me p =
     (let derived = statusOfPair (splitRelationshipPair rs me);
          q = (if derived = FS_none then removeFromList i p else setStatus i derived p)
      in if derived = FS_accepted then adjustCount 1 q else q)"

definition handleRemove :: "ident \<Rightarrow> friends_page \<Rightarrow> friends_page" where
  "handleRemove i p = adjustCount (- 1) (removeFromList i p)"

section \<open>The server's events\<close>

definition handleRequestReceived :: "public_user option \<Rightarrow> ident \<Rightarrow> friends_page \<Rightarrow> friends_page" where
  "handleRequestReceived profile requesterId p = (case profile of None \<Rightarrow> p
   | Some u \<Rightarrow> if listed requesterId (fp_friends p) then p
       else p\<lparr>fp_friends := fp_friends p @ [toFriendProfile u FS_incoming]\<rparr>)"

definition handleRequestAccepted :: "ident \<Rightarrow> friends_page \<Rightarrow> friends_page" where
  "handleRequestAccepted otherId p = p\<lparr>fp_friends := withStatus otherId FS_accepted (fp_friends p)\<rparr>"

text \<open>The count is also fetched again then, which is not modelled: no server code sends this event.\<close>

definition handleRelationshipRemoved :: "ident \<Rightarrow> friends_page \<Rightarrow> friends_page" where
  "handleRelationshipRemoved otherId = removeFromList otherId"

text \<open>The count's own listener of an acceptance.\<close>

definition countAccepted :: "friends_page \<Rightarrow> friends_page" where
  "countAccepted = adjustCount 1"

text \<open>A request the caller sent from somewhere else on the page.\<close>

definition handleRequestSent :: "public_user option \<Rightarrow> ident \<Rightarrow> friends_page \<Rightarrow> friends_page" where
  "handleRequestSent profile i p = (case profile of None \<Rightarrow> p
   | Some u \<Rightarrow> p\<lparr>fp_friends := (if listed i (fp_friends p) then withStatus i FS_outgoing (fp_friends p)
         else fp_friends p @ [toFriendProfile u FS_outgoing]),
       fp_focused := map_option (\<lambda>f. if fr_id f = i then f\<lparr>fr_status := FS_outgoing\<rparr> else f) (fp_focused p)\<rparr>)"

text \<open>The answer of the poll numbered \<open>n\<close>; only the latest one is applied.\<close>

definition refreshPresence :: "nat \<Rightarrow> nat \<Rightarrow> (ident \<times> bool) list \<Rightarrow> friends_page \<Rightarrow> friends_page" where
  "refreshPresence n latest presence p = (if n \<noteq> latest then p
     else p\<lparr>fp_friends := map (\<lambda>f. case map_of presence (fr_id f) of None \<Rightarrow> f
        | Some online \<Rightarrow> if fr_online f \<noteq> online then f\<lparr>fr_online := online\<rparr> else f) (fp_friends p)\<rparr>)"

text \<open>The emissions to the room of the user \<open>me\<close>, as the page and the count hear them.\<close>

definition hearEmission :: "(ident \<Rightarrow> public_user option) \<Rightarrow> ident \<Rightarrow> emission \<Rightarrow> friends_page \<Rightarrow> friends_page" where
  "hearEmission profileOf me e p =
     (if em_room e \<noteq> userRoom me then p
      else if em_event e = ''friends:request-received'' then
        (case em_payload e of P_text i \<Rightarrow> handleRequestReceived (profileOf i) i p | _ \<Rightarrow> p)
      else if em_event e = ''friends:request-accepted'' then
        (case em_payload e of P_relationship r \<Rightarrow> countAccepted (handleRequestAccepted (ur_requesterId r) p) | _ \<Rightarrow> p)
      else if em_event e = ''friends:relationship-removed'' then
        (case em_payload e of P_text i \<Rightarrow> handleRelationshipRemoved i p | _ \<Rightarrow> p)
      else p)"

text \<open>What the page becomes while the world goes from \<open>w\<close> to \<open>w'\<close>.\<close>

definition hears :: "(ident \<Rightarrow> public_user option) \<Rightarrow> ident \<Rightarrow> world \<Rightarrow> world \<Rightarrow> friends_page \<Rightarrow> friends_page" where
  "hears profileOf me w w' = fold (hearEmission profileOf me) (drop (length (outbox w)) (outbox w'))"

section \<open>Grouping\<close>

lemma addToPair_wire:
  "addToPair me (relationshipWire k r) p =
     (if ur_requesterId r = me then (Some (ur_status r), snd p) else (fst p, Some (ur_status r)))"
  by (simp add: addToPair_def relationshipWire_def)

lemma otherOf_wire:
  "otherOf me (relationshipWire k r) = (if ur_requesterId r = me then ur_addresseeId r else ur_requesterId r)"
  by (simp add: otherOf_def relationshipWire_def)

lemma stances_snoc:
  "stanceIn (rows @ [r]) a b = (case stanceIn rows a b of Some s \<Rightarrow> Some s
     | None \<Rightarrow> if rowOf a b r then Some (ur_status r) else None)"
  by (induction rows) (auto simp: stanceIn_Cons stanceIn_def rowOf_def)

text \<open>The caller's rows: each has the caller at exactly one end.\<close>

definition rowsOf :: "ident \<Rightarrow> relationship_row list \<Rightarrow> bool" where
  "rowsOf me rows \<longleftrightarrow> relTable rows \<and> (\<forall>r \<in> set rows. ur_requesterId r = me \<or> ur_addresseeId r = me)"

lemma rowsOf_snoc:
  "rowsOf me (rows @ [r]) \<Longrightarrow> rowsOf me rows \<and> stanceIn rows (ur_requesterId r) (ur_addresseeId r) = None \<and>
     ur_requesterId r \<noteq> ur_addresseeId r \<and> (ur_requesterId r = me \<or> ur_addresseeId r = me)"
  by (auto simp: rowsOf_def relTable_def stanceIn_None_iff relKey_def)

definition pairIn :: "relationship_row list \<Rightarrow> ident \<Rightarrow> ident \<Rightarrow> relationship_pair" where
  "pairIn rows me b = (stanceIn rows me b, stanceIn rows b me)"

lemma pair_snoc:
  assumes "rowsOf me (rows @ [r])" and "b \<noteq> me"
  shows "pairIn (rows @ [r]) me b =
    (if otherOf me (relationshipWire k r) = b then addToPair me (relationshipWire k r) (pairIn rows me b) else pairIn rows me b)"
  using rowsOf_snoc [OF assms(1)] assms(2)
  by (auto simp: pairIn_def otherOf_wire addToPair_wire stances_snoc rowOf_def split: option.split)

lemma groups_are_pairs:
  assumes "rowsOf me rows"
  shows "distinct (map fst (groupRelationshipsByOtherUser (map (relationshipWire k) rows) me)) \<and>
    map_of (groupRelationshipsByOtherUser (map (relationshipWire k) rows) me) me = None \<and>
    (\<forall>b. b \<noteq> me \<longrightarrow> map_of (groupRelationshipsByOtherUser (map (relationshipWire k) rows) me) b =
       (if pairIn rows me b = (None, None) then None else Some (pairIn rows me b)))"
  using assms
proof (induction rows rule: rev_induct)
  case Nil
  then show ?case by (simp add: groupRelationshipsByOtherUser_def pairIn_def stanceIn_def)
next
  case (snoc r rows)
  let ?g = "groupRelationshipsByOtherUser (map (relationshipWire k) rows) me" and ?r = "relationshipWire k r"
  note prev = snoc.IH [OF conjunct1 [OF rowsOf_snoc [OF snoc.prems]]]
  have step: "groupRelationshipsByOtherUser (map (relationshipWire k) (rows @ [r])) me = groupStep me ?r ?g"
    by (simp add: groupRelationshipsByOtherUser_def)
  have other: "otherOf me ?r \<noteq> me" using rowsOf_snoc [OF snoc.prems] by (auto simp: otherOf_wire)
  have entry: "(case map_of ?g (otherOf me ?r) of None \<Rightarrow> (None, None) | Some p \<Rightarrow> p) = pairIn rows me (otherOf me ?r)"
    using prev other by (auto split: option.split)
  have added: "addToPair me ?r p \<noteq> (None, None)" for p by (simp add: addToPair_wire)
  have d: "distinct (map fst (groupStep me ?r ?g))"
    using prev by (simp add: groupStep_def distinct_update)
  have m: "map_of (groupStep me ?r ?g) = (map_of ?g)(otherOf me ?r \<mapsto> addToPair me ?r (pairIn rows me (otherOf me ?r)))"
    unfolding groupStep_def Let_def entry by (rule update_conv')
  show ?case unfolding step using d m prev other added pair_snoc [OF snoc.prems, of _ k] by auto
qed

lemma split_is_pair:
  assumes "rowsOf me rows" and "\<forall>r \<in> set rows. otherOf me (relationshipWire k r) = b" and "b \<noteq> me"
  shows "splitRelationshipPair (map (relationshipWire k) rows) me = pairIn rows me b"
  using assms
proof (induction rows rule: rev_induct)
  case Nil
  then show ?case by (simp add: splitRelationshipPair_def pairIn_def stanceIn_def)
next
  case (snoc r rows)
  then show ?case using rowsOf_snoc [OF snoc.prems(1)] pair_snoc [OF snoc.prems(1,3), of k]
    by (simp add: splitRelationshipPair_def)
qed

section \<open>What the server answers\<close>

definition maskStance :: "relationship_status option \<Rightarrow> relationship_status option" where
  "maskStance t = (if t = Some BLOCKED then Some ACCEPTED else t)"

text \<open>The status the caller \<open>a\<close> is to see of \<open>b\<close>: the own stance, and the other one without its block.\<close>

definition viewOf :: "stances \<Rightarrow> friendship_status" where
  "viewOf s = deriveFriendshipStatus (fst s) (maskStance (snd s))"

lemma stanceIn_masked:
  "a \<noteq> b \<Longrightarrow> pairIn (maskCounterpartBlocks rows a) a b = (stanceIn rows a b, maskStance (stanceIn rows b a))"
  unfolding pairIn_def
  by (induction rows) (auto simp: maskCounterpartBlocks_def stanceIn_Cons stanceIn_def rowOf_def maskStance_def)

lemma relTable_masked: "relTable rows \<Longrightarrow> relTable (maskCounterpartBlocks rows a)"
  unfolding maskCounterpartBlocks_def by (rule relTable_update)

lemma stanceIn_filter:
  assumes "\<And>r. rowOf a b r \<Longrightarrow> P r"
  shows "stanceIn (filter P rows) a b = stanceIn rows a b"
proof (induction rows)
  case (Cons r rows)
  then show ?case using assms [of r] by (cases "rowOf a b r") (auto simp: stanceIn_Cons)
qed simp

lemma set_masked: "r \<in> set (maskCounterpartBlocks rows a) \<Longrightarrow>
    \<exists>r' \<in> set rows. ur_requesterId r = ur_requesterId r' \<and> ur_addresseeId r = ur_addresseeId r'"
  by (auto simp: maskCounterpartBlocks_def split: if_splits)

lemma pair_answer:
  assumes "a \<noteq> b" and "relTable (relationships w)"
  shows "\<exists>rows. rel_findById b a w = (Inr rows, w) \<and>
    splitRelationshipPair (map (relationshipWire k) rows) a = (stance w a b, maskStance (stance w b a))"
proof -
  let ?P = "\<lambda>r. ur_requesterId r = a \<and> ur_addresseeId r = b \<or> ur_requesterId r = b \<and> ur_addresseeId r = a"
  let ?rows = "maskCounterpartBlocks (filter ?P (relationships w)) a"
  have run: "rel_findById b a w = (Inr ?rows, w)"
    using assms(1) by (simp add: rel_findById_def andThen_run prisma_run ret_run)
  have "rowsOf a ?rows"
    using relTable_masked [OF relTable_filter [OF assms(2)]] by (auto simp: rowsOf_def dest: set_masked)
  moreover have "\<forall>r \<in> set ?rows. otherOf a (relationshipWire k r) = b"
    using assms(1) by (auto simp: otherOf_wire dest!: set_masked)
  ultimately have "splitRelationshipPair (map (relationshipWire k) ?rows) a = pairIn ?rows a b"
    using split_is_pair assms(1) by blast
  also have "\<dots> = (stance w a b, maskStance (stance w b a))"
    unfolding stanceIn_masked [OF assms(1)] stance_stanceIn
    using stanceIn_filter [of a b ?P "relationships w"] stanceIn_filter [of b a ?P "relationships w"] by (simp add: rowOf_def)
  finally show ?thesis using run by blast
qed

lemma all_answer:
  assumes "relTable (relationships w)"
  shows "\<exists>rows. rel_findAll a w = (Inr rows, w) \<and> rowsOf a rows \<and>
    (\<forall>b. b \<noteq> a \<longrightarrow> pairIn rows a b = (stance w a b, maskStance (stance w b a)))"
proof -
  let ?P = "\<lambda>r. ur_requesterId r = a \<or> ur_addresseeId r = a"
  let ?rows = "maskCounterpartBlocks (filter ?P (relationships w)) a"
  have run: "rel_findAll a w = (Inr ?rows, w)"
    by (simp add: rel_findAll_def andThen_run prisma_run ret_run)
  moreover have "rowsOf a ?rows"
    using relTable_masked [OF relTable_filter [OF assms]] by (auto simp: rowsOf_def dest: set_masked)
  moreover have "pairIn ?rows a b = (stance w a b, maskStance (stance w b a))" if "b \<noteq> a" for b
    unfolding stanceIn_masked [OF that [symmetric]] stance_stanceIn
    using stanceIn_filter [of a b ?P "relationships w"] stanceIn_filter [of b a ?P "relationships w"] by (simp add: rowOf_def)
  ultimately show ?thesis by blast
qed

text \<open>The count of an association list is the cardinality of the keys it counts.\<close>

lemma length_filter_card:
  assumes "distinct (map fst al)"
  shows "length (filter (\<lambda>(x, v). P v) al) = card {x. \<exists>v. map_of al x = Some v \<and> P v}"
proof -
  have "{x. \<exists>v. map_of al x = Some v \<and> P v} = fst ` set (filter (\<lambda>(x, v). P v) al)"
    using assms by (force simp: map_of_eq_Some_iff)
  moreover have "distinct (map fst (filter (\<lambda>(x, v). P v) al))" using assms by (rule distinct_map_filterI)
  ultimately show ?thesis using distinct_card [of "map fst (filter (\<lambda>(x, v). P v) al)"] by simp
qed

lemma viewOf_none [simp]: "viewOf (None, t) = FS_none"
  by (simp add: viewOf_def deriveFriendshipStatus_def)

lemma statusOfPair_view: "statusOfPair (fst s, maskStance (snd s)) = viewOf s"
  by (simp add: statusOfPair_def viewOf_def)

text \<open>The four stances one may have.\<close>

lemma stance_cases:
  fixes t :: "relationship_status option"
  obtains "t = None" | "t = Some PENDING_APPROVAL" | "t = Some ACCEPTED" | "t = Some BLOCKED"
  by (cases t) (use relationship_status.exhaust in blast)+

lemmas view_defs = viewOf_def deriveFriendshipStatus_def maskStance_def

lemma view_mutual:
  assumes "m \<noteq> Some BLOCKED" and "t \<noteq> Some BLOCKED"
  shows "(viewOf (m, t) = FS_incoming \<longleftrightarrow> viewOf (t, m) = FS_outgoing) \<and> (viewOf (m, t) = FS_accepted \<longleftrightarrow> viewOf (t, m) = FS_accepted)"
  using assms by (cases m rule: stance_cases; cases t rule: stance_cases) (simp_all add: view_defs)

text \<open>The browser derives the same status of a pair from the caller's whole list and from the rows of that
  pair alone, and it is the status of the pair's two stances with the other one's block hidden; the friend
  count is the number of users so accepted; and one side's pending request is the other side's, whichever of
  the two asks, unless a block hides it.\<close>

lemma friend_status_is_the_pair:
  assumes "relTable (relationships w)"
  shows "\<exists>rows. rel_findAll a w = (Inr rows, w) \<and>
    (\<forall>b. b \<noteq> a \<longrightarrow>
       (case map_of (groupRelationshipsByOtherUser (map (relationshipWire k) rows) a) b of
          None \<Rightarrow> stance w a b = None \<and> stance w b a = None
        | Some p \<Rightarrow> statusOfPair p = viewOf (stances w a b)) \<and>
       (\<exists>own. rel_findById b a w = (Inr own, w) \<and>
          statusOfPair (splitRelationshipPair (map (relationshipWire k) own) a) = viewOf (stances w a b)) \<and>
       (stance w a b \<noteq> Some BLOCKED \<and> stance w b a \<noteq> Some BLOCKED \<longrightarrow>
          (viewOf (stances w a b) = FS_incoming \<longleftrightarrow> viewOf (stances w b a) = FS_outgoing) \<and>
          (viewOf (stances w a b) = FS_accepted \<longleftrightarrow> viewOf (stances w b a) = FS_accepted))) \<and>
    getAcceptedFriendCount (map (relationshipWire k) rows) a = int (card {b. b \<noteq> a \<and> viewOf (stances w a b) = FS_accepted})"
proof -
  obtain rows where run: "rel_findAll a w = (Inr rows, w)" and rows: "rowsOf a rows"
    and pair: "\<And>b. b \<noteq> a \<Longrightarrow> pairIn rows a b = (stance w a b, maskStance (stance w b a))"
    using all_answer [OF assms] by blast
  let ?g = "groupRelationshipsByOtherUser (map (relationshipWire k) rows) a"
  note g = groups_are_pairs [OF rows, of k]
  have m: "map_of ?g b = (if (stance w a b, maskStance (stance w b a)) = (None, None) then None
      else Some (stance w a b, maskStance (stance w b a)))" if "b \<noteq> a" for b
    using g pair that by simp
  have view: "statusOfPair (stance w a b, maskStance (stance w b a)) = viewOf (stances w a b)" for b
    using statusOfPair_view [of "stances w a b"] by (simp add: stances_def)
  have "{x. \<exists>v. map_of ?g x = Some v \<and> statusOfPair v = FS_accepted} = {b. b \<noteq> a \<and> viewOf (stances w a b) = FS_accepted}"
  proof (intro set_eqI iffI CollectI; elim CollectE)
    fix x assume "\<exists>v. map_of ?g x = Some v \<and> statusOfPair v = FS_accepted"
    then show "x \<noteq> a \<and> viewOf (stances w a x) = FS_accepted"
      using g m [of x] view [of x] by (cases "x = a") (auto split: if_splits)
  next
    fix x assume "x \<noteq> a \<and> viewOf (stances w a x) = FS_accepted"
    then show "\<exists>v. map_of ?g x = Some v \<and> statusOfPair v = FS_accepted"
      using m [of x] view [of x] by (auto simp: stances_def)
  qed
  then have count: "getAcceptedFriendCount (map (relationshipWire k) rows) a =
      int (card {b. b \<noteq> a \<and> viewOf (stances w a b) = FS_accepted})"
    using length_filter_card [of ?g "\<lambda>p. statusOfPair p = FS_accepted"] g by (simp add: getAcceptedFriendCount_def)
  have groups: "case map_of ?g b of None \<Rightarrow> stance w a b = None \<and> stance w b a = None
      | Some p \<Rightarrow> statusOfPair p = viewOf (stances w a b)" if "b \<noteq> a" for b
    using m [OF that] view [of b] by (auto simp: maskStance_def split: if_splits)
  have single: "\<exists>own. rel_findById b a w = (Inr own, w) \<and>
      statusOfPair (splitRelationshipPair (map (relationshipWire k) own) a) = viewOf (stances w a b)" if "b \<noteq> a" for b
    using pair_answer [OF that [symmetric] assms, of k] view [of b] by metis
  have mutual: "stance w a b \<noteq> Some BLOCKED \<and> stance w b a \<noteq> Some BLOCKED \<longrightarrow>
      (viewOf (stances w a b) = FS_incoming \<longleftrightarrow> viewOf (stances w b a) = FS_outgoing) \<and>
      (viewOf (stances w a b) = FS_accepted \<longleftrightarrow> viewOf (stances w b a) = FS_accepted)" for b
    using view_mutual by (simp add: stances_def)
  show ?thesis
    by (rule exI [of _ rows], intro conjI [OF run] conjI [OF _ count] allI impI conjI [OF groups] conjI [OF single]) (assumption | erule mutual [THEN mp])+
qed

lemma friend_status_is_the_pair_sample:
  "\<exists>rows. rel_findAll ''a'' (friendsWorld BLOCKED) = (Inr rows, friendsWorld BLOCKED) \<and>
     getAcceptedFriendCount (map (relationshipWire sampleColumns) rows) ''a'' = 1"
proof -
  have t: "relTable (relationships (friendsWorld BLOCKED))" using friendsWorld_facts [of BLOCKED] by blast
  have "{b. b \<noteq> ''a'' \<and> viewOf (stances (friendsWorld BLOCKED) ''a'' b) = FS_accepted} = {''b''}"
    by (auto simp: friendsWorld_def stances_def stance_def viewOf_def deriveFriendshipStatus_def maskStance_def)
  then show ?thesis using friend_status_is_the_pair [OF t, of "''a''" sampleColumns] by auto
qed

section \<open>What the page shows\<close>

definition statusIn :: "friend_profile list \<Rightarrow> ident \<Rightarrow> friendship_status" where
  "statusIn fs b = (case List.find (\<lambda>f. fr_id f = b) fs of None \<Rightarrow> FS_none | Some f \<Rightarrow> fr_status f)"

text \<open>The page of \<open>a\<close> shows of \<open>b\<close> what the server's rows say: it lists \<open>b\<close> exactly when they say anything.\<close>

definition pageShows :: "friends_page \<Rightarrow> world \<Rightarrow> ident \<Rightarrow> ident \<Rightarrow> bool" where
  "pageShows p w a b \<longleftrightarrow> statusIn (fp_friends p) b = viewOf (stances w a b) \<and>
     (listed b (fp_friends p) \<longleftrightarrow> viewOf (stances w a b) \<noteq> FS_none)"

lemma status_listed: "listed b fs = (List.find (\<lambda>f. fr_id f = b) fs \<noteq> None)"
  by (induction fs) (simp_all add: listed_def)

lemma find_withStatus:
  "List.find (\<lambda>f. fr_id f = b) (withStatus i st fs) =
     map_option (\<lambda>f. if b = i then f\<lparr>fr_status := st\<rparr> else f) (List.find (\<lambda>f. fr_id f = b) fs)"
  by (induction fs) (auto simp: withStatus_def)

lemma status_withStatus [simp]:
  "statusIn (withStatus i st fs) b = (if b = i \<and> listed i fs then st else statusIn fs b)"
  "listed b (withStatus i st fs) = listed b fs"
  by (auto simp: statusIn_def find_withStatus status_listed split: option.splits)

lemma status_snoc [simp]:
  "statusIn (fs @ [f]) b = (if listed b fs then statusIn fs b else if fr_id f = b then fr_status f else FS_none)"
  "listed b (fs @ [f]) = (listed b fs \<or> fr_id f = b)"
  by (induction fs) (auto simp: statusIn_def listed_def)

lemma status_removed [simp]:
  "statusIn (filter (\<lambda>f. fr_id f \<noteq> i) fs) b = (if b = i then FS_none else statusIn fs b)"
  "listed b (filter (\<lambda>f. fr_id f \<noteq> i) fs) = (b \<noteq> i \<and> listed b fs)"
  by (induction fs) (auto simp: statusIn_def listed_def)

lemma status_unlisted: "\<not> listed b fs \<Longrightarrow> statusIn fs b = FS_none"
  by (auto simp: statusIn_def status_listed)

text \<open>The user is on the page: in the list or as the focused profile.\<close>

definition onPage :: "ident \<Rightarrow> friends_page \<Rightarrow> bool" where
  "onPage b p \<longleftrightarrow> listed b (fp_friends p) \<or> map_option fr_id (fp_focused p) = Some b"

lemma status_set [simp]:
  "onPage b p \<Longrightarrow> statusIn (fp_friends (setStatus b st p)) b = st"
  "onPage b p \<Longrightarrow> listed b (fp_friends (setStatus b st p))"
  by (auto simp: setStatus_def onPage_def split: option.splits)

lemma friends_removed [simp]: "fp_friends (removeFromList b p) = filter (\<lambda>f. fr_id f \<noteq> b) (fp_friends p)"
  by (simp add: removeFromList_def)

lemma friends_adjusted [simp]: "fp_friends (adjustCount d p) = fp_friends p"
  by (simp add: adjustCount_def)

lemma pageShows_set: "onPage b p \<Longrightarrow> viewOf (stances w a b) = st \<Longrightarrow> st \<noteq> FS_none \<Longrightarrow> pageShows (setStatus b st p) w a b"
  by (simp add: pageShows_def)

lemma pageShows_removed: "viewOf (stances w a b) = FS_none \<Longrightarrow> pageShows (removeFromList b p) w a b"
  by (simp add: pageShows_def)

section \<open>Steps of the automaton as the two sides see them\<close>

definition settled :: "stances \<Rightarrow> int" where
  "settled s = (if viewOf s = FS_accepted then 1 else 0)"

text \<open>What the caller's own step does to the caller's view.\<close>

lemma own_steps:
  assumes "soundPair s"
  shows "viewOf s = FS_none \<Longrightarrow> requestFriend s = Some s' \<Longrightarrow>
      viewOf s' = (if snd s = Some BLOCKED then FS_none else FS_outgoing)"
    and "viewOf s = FS_incoming \<Longrightarrow> setStance ACCEPTED s = Some s' \<Longrightarrow> viewOf s' = FS_accepted"
    and "setStance BLOCKED s = Some s' \<Longrightarrow> viewOf s' = FS_blocked"
    and "viewOf s \<noteq> FS_blocked \<Longrightarrow> viewOf (dropStances s) = FS_none"
proof -
  obtain m t where s: "s = (m, t)" by (cases s)
  show "viewOf s = FS_none \<Longrightarrow> requestFriend s = Some s' \<Longrightarrow>
      viewOf s' = (if snd s = Some BLOCKED then FS_none else FS_outgoing)"
    using assms unfolding s
    by (cases m rule: stance_cases; cases t rule: stance_cases) (auto simp: view_defs soundPair_iff)
  show "viewOf s = FS_incoming \<Longrightarrow> setStance ACCEPTED s = Some s' \<Longrightarrow> viewOf s' = FS_accepted"
    unfolding s by (cases m rule: stance_cases; cases t rule: stance_cases) (auto simp: view_defs)
  show "setStance BLOCKED s = Some s' \<Longrightarrow> viewOf s' = FS_blocked"
    unfolding s by (cases m) (auto simp: view_defs split: if_splits)
  show "viewOf s \<noteq> FS_blocked \<Longrightarrow> viewOf (dropStances s) = FS_none"
    unfolding s by (cases m rule: stance_cases; cases t rule: stance_cases) (auto simp: view_defs dropStances_def Let_def)
qed

text \<open>What the other user's step from \<open>(theirs, mine)\<close> does to the caller's view.\<close>

abbreviation flipped :: "stances \<Rightarrow> stances" where
  "flipped s \<equiv> (snd s, fst s)"

lemma their_steps:
  assumes "soundPair s"
  shows "requestFriend s = Some s' \<Longrightarrow> viewOf (flipped s') =
      (if snd s = Some BLOCKED then FS_blocked else if viewOf (flipped s) = FS_none then FS_incoming else viewOf (flipped s))"
    and "fst s = Some PENDING_APPROVAL \<Longrightarrow> setStance ACCEPTED s = Some s' \<Longrightarrow> snd s \<noteq> Some BLOCKED \<Longrightarrow>
      viewOf (flipped s) = FS_outgoing \<and> viewOf (flipped s') = FS_accepted"
    and "fst s = Some PENDING_APPROVAL \<Longrightarrow> setStance ACCEPTED s = Some s' \<Longrightarrow> snd s = Some BLOCKED \<Longrightarrow>
      viewOf (flipped s') = FS_blocked"
    and "fst s = Some BLOCKED \<Longrightarrow> setStance ACCEPTED s = Some s' \<Longrightarrow> viewOf (flipped s') = viewOf (flipped s)"
    and "setStance BLOCKED s = Some s' \<Longrightarrow> viewOf (flipped s') = viewOf (flipped s) \<longleftrightarrow> viewOf (flipped s) \<noteq> FS_outgoing"
    and "viewOf (flipped (dropStances s)) = viewOf (flipped s) \<longleftrightarrow> viewOf (flipped s) = FS_none \<or> viewOf (flipped s) = FS_blocked"
proof -
  obtain m t where s: "s = (m, t)" by (cases s)
  show "requestFriend s = Some s' \<Longrightarrow> viewOf (flipped s') =
      (if snd s = Some BLOCKED then FS_blocked else if viewOf (flipped s) = FS_none then FS_incoming else viewOf (flipped s))"
    using assms unfolding s
    by (cases m rule: stance_cases; cases t rule: stance_cases) (auto simp: view_defs soundPair_iff)
  show "fst s = Some PENDING_APPROVAL \<Longrightarrow> setStance ACCEPTED s = Some s' \<Longrightarrow> snd s \<noteq> Some BLOCKED \<Longrightarrow>
      viewOf (flipped s) = FS_outgoing \<and> viewOf (flipped s') = FS_accepted"
    using assms unfolding s
    by (cases m rule: stance_cases; cases t rule: stance_cases) (auto simp: view_defs soundPair_iff)
  show "fst s = Some PENDING_APPROVAL \<Longrightarrow> setStance ACCEPTED s = Some s' \<Longrightarrow> snd s = Some BLOCKED \<Longrightarrow>
      viewOf (flipped s') = FS_blocked"
    unfolding s by (cases m rule: stance_cases) (auto simp: view_defs)
  show "fst s = Some BLOCKED \<Longrightarrow> setStance ACCEPTED s = Some s' \<Longrightarrow> viewOf (flipped s') = viewOf (flipped s)"
    using assms unfolding s
    by (cases t rule: stance_cases) (auto simp: view_defs soundPair_iff split: if_splits)
  show "setStance BLOCKED s = Some s' \<Longrightarrow> viewOf (flipped s') = viewOf (flipped s) \<longleftrightarrow> viewOf (flipped s) \<noteq> FS_outgoing"
    using assms unfolding s
    by (cases m rule: stance_cases; cases t rule: stance_cases) (auto simp: view_defs soundPair_iff)
  show "viewOf (flipped (dropStances s)) = viewOf (flipped s) \<longleftrightarrow> viewOf (flipped s) = FS_none \<or> viewOf (flipped s) = FS_blocked"
    using assms unfolding s
    by (cases m rule: stance_cases; cases t rule: stance_cases) (auto simp: view_defs soundPair_iff dropStances_def Let_def)
qed

section \<open>What the other user is told\<close>

text \<open>The notification and the event of an announcement can be made: both users are there, the id is new.\<close>

definition announceable :: "world \<Rightarrow> ident \<Rightarrow> ident \<Rightarrow> bool" where
  "announceable w addressee requester \<longleftrightarrow> (\<exists>u \<in> set (users w). u_id u = requester \<and> u_status u = ACTIVE) \<and>
     registered w addressee \<and> (\<forall>n \<in> set (notifications w). n_id n \<noteq> uuids w 0)"

definition told :: "ident \<Rightarrow> string \<Rightarrow> payload \<Rightarrow> world \<Rightarrow> world \<Rightarrow> bool" where
  "told b event payload w v \<longleftrightarrow> (\<exists>x y. outbox v = outbox w @ [x, y] \<and> em_room x = userRoom b \<and>
     em_event x = ''notification:new'' \<and> em_room y = userRoom b \<and> em_event y = event \<and> em_payload y = payload)"

lemma announce_told:
  assumes "announceable w b a"
  shows "told b event payload w (snd (announce b a m event payload w))"
proof -
  have "List.find (\<lambda>u. u_id u = a \<and> u_status u = ACTIVE) (users w) \<noteq> None"
    using assms by (auto simp: announceable_def find_None_iff_all)
  then obtain u where u: "List.find (\<lambda>u. u_id u = a \<and> u_status u = ACTIVE) (users w) = Some u" by blast
  have "list_ex (\<lambda>u. u_id u = b) (users w)" "\<not> list_ex (\<lambda>n. n_id n = uuids w 0) (notifications w)"
    using assms by (auto simp: announceable_def registered_def list_ex_iff)
  then show ?thesis
    by (simp add: told_def announce_def catching_run user_findById_def notification_create_def emitToUser_def
        broadcast_def run_simps u)
qed

definition sameButRelationships :: "world \<Rightarrow> world \<Rightarrow> bool" where
  "sameButRelationships w v \<longleftrightarrow> (\<exists>rs. v = w\<lparr>relationships := rs\<rparr>)"

lemma sameButRelationships_simps:
  assumes "sameButRelationships w v"
  shows "outbox v = outbox w" "announceable v a b = announceable w a b" "told a e pl v x = told a e pl w x"
  using assms by (auto simp: sameButRelationships_def announceable_def registered_def told_def)

lemma same_refl [simp]: "sameButRelationships w w"
  by (auto simp: sameButRelationships_def intro: exI [of _ "relationships w"])

lemma same_write [simp]: "sameButRelationships w (w\<lparr>relationships := rs\<rparr>)"
  by (auto simp: sameButRelationships_def)

lemma same_update [simp]: "sameButRelationships w (relationships_update f w)"
  unfolding sameButRelationships_def by (cases w) auto

lemma same_trans: "sameButRelationships u v \<Longrightarrow> sameButRelationships v w \<Longrightarrow> sameButRelationships u w"
  by (auto simp: sameButRelationships_def)

lemma createRelationship_same: "createRelationship a b st w = (r, v) \<Longrightarrow> sameButRelationships w v"
  by (auto simp: createRelationship_run split: if_splits)

lemma createTx_same: "createTx b a w = (Inr x, v) \<Longrightarrow> sameButRelationships w v"
  by (auto simp: createTx_run andThen_run whenever_run ret_run split: if_splits prod.splits sum.splits
      dest!: createRelationship_same intro: same_trans)

lemma updateTx_same: "updateTx b st a w = (Inr x, v) \<Longrightarrow> sameButRelationships w v"
  by (auto simp: updateTx_run andThen_run prisma_run ret_run split: option.splits if_splits prod.splits sum.splits
      dest: createRelationship_same)

lemma createTx_blocked: "createTx b a w = (Inr x, v) \<Longrightarrow> x = (stance w b a = Some BLOCKED)"
  by (auto simp: createTx_run andThen_run whenever_run ret_run split: if_splits prod.splits sum.splits)

lemma updateTx_read: "updateTx b st a w = (Inr (c, row), v) \<Longrightarrow> c = stance w a b"
  by (auto simp: updateTx_run andThen_run prisma_run ret_run split: option.splits if_splits prod.splits sum.splits)

lemma update_row: "updateTx b ACCEPTED a w = (Inr (Some PENDING_APPROVAL, row), v) \<Longrightarrow> ur_requesterId row = a"
  by (auto simp: updateTx_run andThen_run prisma_run ret_run rowOf_def find_Some_iff split: option.splits if_splits prod.splits sum.splits)

lemma create_told:
  assumes "rel_create (\<lambda>w. w) b a w = (Inr r, v)" and "a \<noteq> b" and "announceable w b a"
  shows "if stance w b a = Some BLOCKED then outbox v = outbox w else told b ''friends:request-received'' (P_text a) w v"
proof -
  obtain x u where x: "createTx b a w = (Inr x, u)"
    and v: "v = snd (whenever (\<not> x) (announce b a '' wants to be your friend!'' ''friends:request-received'' (P_text a)) u)"
    using assms(1) user_findById_state [of b None w]
    by (auto simp: rel_create_run [OF assms(2)] andThen_run ret_run split: prod.splits sum.splits)
  note s = createTx_same [OF x]
  show ?thesis
    using announce_told [of u b a "''friends:request-received''" "P_text a" "'' wants to be your friend!''"] assms(3) v
      createTx_blocked [OF x] sameButRelationships_simps [OF s] by (auto simp: whenever_run ret_run)
qed

lemma update_told:
  assumes "rel_update b st a w = (Inr r, v)" and "a \<noteq> b" and "announceable w b a"
  shows "if stance w a b = Some PENDING_APPROVAL \<and> st = ACCEPTED
    then \<exists>row. ur_requesterId row = a \<and> told b ''friends:request-accepted'' (P_relationship row) w v
    else outbox v = outbox w"
proof -
  obtain c row u where x: "updateTx b st a w = (Inr (c, row), u)"
    and v: "v = snd (whenever (c = Some PENDING_APPROVAL \<and> st = ACCEPTED)
      (announce b a '' is now your friend!'' ''friends:request-accepted'' (P_relationship row)) u)"
    using assms(1,2) by (auto simp: rel_update_def andThen_run throwIfAllEqual_pair transaction_run ret_run
        split: prod.splits sum.splits)
  note s = updateTx_same [OF x]
  show ?thesis
    using announce_told [of u b a "''friends:request-accepted''" "P_relationship row" "'' is now your friend!''"] assms(3) v
      updateTx_read [OF x] update_row [of b a w row u] x sameButRelationships_simps [OF s] by (auto simp: whenever_run ret_run)
qed

lemma remove_silent: "a \<noteq> b \<Longrightarrow> rel_remove b a w = (Inr (), v) \<Longrightarrow> outbox v = outbox w"
  by (auto simp: rel_remove_def andThen_run throwIfAllEqual_pair transaction_run prisma_run)

lemma hears_nothing: "outbox v = outbox w \<Longrightarrow> hears profileOf a w v p = p"
  by (simp add: hears_def)

lemma hears_told:
  "told a ''friends:request-received'' (P_text b) w v \<Longrightarrow> hears profileOf a w v p = handleRequestReceived (profileOf b) b p"
  "told a ''friends:request-accepted'' (P_relationship row) w v \<Longrightarrow>
     hears profileOf a w v p = countAccepted (handleRequestAccepted (ur_requesterId row) p)"
  by (auto simp: told_def hears_def hearEmission_def)

section \<open>The page follows the pair\<close>

lemma stances_flip: "stances w a b = flipped (stances w b a)"
  by (simp add: stances_def)

lemma own_update:
  assumes "relSound w" and "a \<noteq> b" and "rel_update b st a w = (Inr row, w')"
  shows "soundPair (stances w a b)" and "setStance st (stances w a b) = Some (stances w' a b)" and "relTable (relationships w')"
proof -
  show "soundPair (stances w a b)" using assms(1,2) by (simp add: relSound_def)
  show "setStance st (stances w a b) = Some (stances w' a b)" "relTable (relationships w')"
    using rel_update_cases [OF assms(2,3)] assms(1) by (auto simp: relSound_def stepTo_def)
qed

lemma own_request:
  assumes "relSound w" and "a \<noteq> b" and "rel_create (\<lambda>w. w) b a w = (Inr r, w')"
  shows "soundPair (stances w a b)" and "requestFriend (stances w a b) = Some (stances w' a b)"
  using assms rel_create_cases [OF assms(2,3)] by (auto simp: relSound_def stepTo_def)

lemma own_remove:
  assumes "relSound w" and "a \<noteq> b" and "rel_remove b a w = (Inr (), w')"
  shows "soundPair (stances w a b)" and "stances w' a b = dropStances (stances w a b)"
  using assms rel_remove_step [OF assms(2), of w] by (auto simp: relSound_def stepTo_def)

lemma count_adjusted [simp]: "fp_count p = Some n \<Longrightarrow> fp_count (adjustCount d p) = Some (n + d)"
  by (simp add: adjustCount_def)

lemma count_kept [simp]:
  "fp_count (setStatus i st p) = fp_count p" "fp_count (removeFromList i p) = fp_count p"
  by (simp_all add: setStatus_def removeFromList_def split: option.split)

lemma pageShows_adjusted [simp]: "pageShows (adjustCount d p) w a b = pageShows p w a b"
  by (simp add: pageShows_def)

text \<open>The page and its count after an action of the caller's own.\<close>

definition keepsUp :: "friends_page \<Rightarrow> world \<Rightarrow> friends_page \<Rightarrow> world \<Rightarrow> ident \<Rightarrow> ident \<Rightarrow> bool" where
  "keepsUp p w q v a b \<longleftrightarrow> pageShows q v a b \<and>
     (\<forall>n. fp_count p = Some n \<longrightarrow> fp_count q = Some (n + settled (stances v a b) - settled (stances w a b)))"

lemma own_accept:
  assumes "relSound w" "a \<noteq> b" "onPage b p" "viewOf (stances w a b) = FS_incoming" "rel_update b ACCEPTED a w = (Inr row, w')"
  shows "keepsUp p w (handleAccept b p) w' a b"
  using assms(3,4) own_steps(2) [OF own_update(1) [OF assms(1,2,5)] assms(4) own_update(2) [OF assms(1,2,5)]]
  by (simp add: keepsUp_def handleAccept_def pageShows_set settled_def)

lemma own_block:
  assumes "relSound w" "a \<noteq> b" "onPage b p" "rel_update b BLOCKED a w = (Inr row, w')"
  shows "keepsUp p w (handleBlock b (viewOf (stances w a b)) p) w' a b"
  using own_steps(3) [OF own_update(1,2) [OF assms(1,2,4)]] assms(3)
  by (simp add: keepsUp_def handleBlock_def pageShows_set settled_def Let_def)

lemma own_unblock:
  assumes "relSound w" "a \<noteq> b" "onPage b p" "viewOf (stances w a b) = FS_blocked" "rel_update b ACCEPTED a w = (Inr row, w')"
    and "rel_findById b a w' = (Inr own, w')"
  shows "keepsUp p w (handleUnblock b (map (relationshipWire k) own) a p) w' a b"
proof -
  have "statusOfPair (splitRelationshipPair (map (relationshipWire k) own) a) = viewOf (stances w' a b)"
    using pair_answer [OF assms(2) own_update(3) [OF assms(1,2,5)], of k] assms(6)
      statusOfPair_view [of "stances w' a b"] by (auto simp: stances_def)
  then show ?thesis using assms(3,4)
    by (simp add: keepsUp_def handleUnblock_def Let_def pageShows_set pageShows_removed settled_def)
qed

lemma own_drop:
  assumes "relSound w" "a \<noteq> b" "viewOf (stances w a b) \<noteq> FS_blocked" "rel_remove b a w = (Inr (), w')"
  shows "viewOf (stances w a b) = FS_accepted \<Longrightarrow> keepsUp p w (handleRemove b p) w' a b"
    "viewOf (stances w a b) = FS_incoming \<Longrightarrow> keepsUp p w (handleDecline b p) w' a b"
    "viewOf (stances w a b) = FS_outgoing \<Longrightarrow> keepsUp p w (handleCancelRequest b p) w' a b"
proof -
  have "viewOf (stances w' a b) = FS_none"
    using own_steps(4) [OF own_remove(1) [OF assms(1,2,4)] assms(3)] own_remove(2) [OF assms(1,2,4)] by simp
  then show "viewOf (stances w a b) = FS_accepted \<Longrightarrow> keepsUp p w (handleRemove b p) w' a b"
    "viewOf (stances w a b) = FS_incoming \<Longrightarrow> keepsUp p w (handleDecline b p) w' a b"
    "viewOf (stances w a b) = FS_outgoing \<Longrightarrow> keepsUp p w (handleCancelRequest b p) w' a b"
    by (simp_all add: keepsUp_def handleRemove_def handleDecline_def handleCancelRequest_def pageShows_removed settled_def)
qed

lemma own_add:
  assumes "relSound w" "a \<noteq> b" "onPage b p" "viewOf (stances w a b) = FS_none" "rel_create (\<lambda>w. w) b a w = (Inr r, w')"
  shows "pageShows (handleAddFriend b p) w' a b \<longleftrightarrow> stance w b a \<noteq> Some BLOCKED"
  using own_steps(1) [OF own_request(1) [OF assms(1,2,5)] assms(4) own_request(2) [OF assms(1,2,5)]] assms(3)
  by (simp add: handleAddFriend_def pageShows_def stances_def)

text \<open>The page after an action of the other user, as far as it is told of it.\<close>

lemma their_request:
  assumes "relSound w" "a \<noteq> b" "pageShows p w a b" "announceable w a b" "profileOf b = Some u" "pu_id u = b"
    and "rel_create (\<lambda>w. w) a b w = (Inr r, w')"
  shows "pageShows (hears profileOf a w w' p) w' a b"
proof -
  have view: "viewOf (stances w' a b) = (if stance w a b = Some BLOCKED then FS_blocked
      else if viewOf (stances w a b) = FS_none then FS_incoming else viewOf (stances w a b))"
    using their_steps(1) [OF own_request(1,2) [OF assms(1) assms(2) [symmetric] assms(7)]]
    by (simp add: stances_flip [of _ a b]) (simp add: stances_def)
  show ?thesis
  proof (cases "stance w a b = Some BLOCKED")
    case True
    then have "viewOf (stances w a b) = FS_blocked" by (simp add: stances_def view_defs)
    then show ?thesis using True view assms(3) create_told [OF assms(7) assms(2) [symmetric] assms(4)]
      by (simp add: hears_nothing pageShows_def)
  next
    case False
    then have "hears profileOf a w w' p = handleRequestReceived (Some u) b p"
      using create_told [OF assms(7) assms(2) [symmetric] assms(4)] assms(5) by (simp add: hears_told)
    then show ?thesis using False view assms(3,6)
      by (auto simp: pageShows_def handleRequestReceived_def toFriendProfile_def Let_def)
  qed
qed

lemma their_accept:
  assumes "relSound w" "a \<noteq> b" "pageShows p w a b" "announceable w a b" "stance w b a = Some PENDING_APPROVAL"
    and "rel_update a ACCEPTED b w = (Inr row, w')"
  shows "pageShows (hears profileOf a w w' p) w' a b \<longleftrightarrow> stance w a b \<noteq> Some BLOCKED"
proof -
  have h: "hears profileOf a w w' p = countAccepted (handleRequestAccepted b p)"
    using update_told [OF assms(6) assms(2) [symmetric] assms(4)] assms(5) by (auto simp: hears_told)
  note st = own_update(1,2) [OF assms(1) assms(2) [symmetric] assms(6)]
  show ?thesis
  proof (cases "stance w a b = Some BLOCKED")
    case True
    then have "viewOf (stances w' a b) = FS_blocked" "viewOf (stances w a b) = FS_blocked"
      using their_steps(3) [OF st(1) _ st(2)] assms(5) by (simp_all add: stances_def view_defs)
    then show ?thesis using True assms(3) by (auto simp: h countAccepted_def handleRequestAccepted_def pageShows_def)
  next
    case False
    then have "viewOf (stances w a b) = FS_outgoing \<and> viewOf (stances w' a b) = FS_accepted"
      using their_steps(2) [OF st(1) _ st(2)] assms(5) by (simp add: stances_def)
    then show ?thesis using False assms(3) by (auto simp: h countAccepted_def handleRequestAccepted_def pageShows_def)
  qed
qed

lemma silent_step:
  assumes "pageShows p w a b" and "outbox w' = outbox w"
  shows "pageShows (hears profileOf a w w' p) w' a b \<longleftrightarrow> viewOf (stances w' a b) = viewOf (stances w a b)"
  using assms by (auto simp: hears_nothing pageShows_def)

lemma their_unblock:
  assumes "relSound w" "a \<noteq> b" "pageShows p w a b" "announceable w a b" "stance w b a = Some BLOCKED"
    and "rel_update a ACCEPTED b w = (Inr row, w')"
  shows "pageShows (hears profileOf a w w' p) w' a b"
  using update_told [OF assms(6) assms(2) [symmetric] assms(4)] assms(5)
    their_steps(4) [OF own_update(1) [OF assms(1) assms(2) [symmetric] assms(6)] _ own_update(2) [OF assms(1) assms(2) [symmetric] assms(6)]]
  by (simp add: silent_step [OF assms(3)] stances_def)

lemma their_block:
  assumes "relSound w" "a \<noteq> b" "pageShows p w a b" "announceable w a b" "rel_update a BLOCKED b w = (Inr row, w')"
  shows "pageShows (hears profileOf a w w' p) w' a b \<longleftrightarrow> viewOf (stances w a b) \<noteq> FS_outgoing"
  using update_told [OF assms(5) assms(2) [symmetric] assms(4)]
    their_steps(5) [OF own_update(1,2) [OF assms(1) assms(2) [symmetric] assms(5)]]
  by (simp add: silent_step [OF assms(3)] stances_def)

lemma their_remove:
  assumes "relSound w" "a \<noteq> b" "pageShows p w a b" "rel_remove a b w = (Inr (), w')"
  shows "pageShows (hears profileOf a w w' p) w' a b \<longleftrightarrow>
    viewOf (stances w a b) = FS_none \<or> viewOf (stances w a b) = FS_blocked"
  using remove_silent [OF assms(2) [symmetric] assms(4)] own_remove [OF assms(1) assms(2) [symmetric] assms(4)]
    their_steps(6) [of "stances w b a"]
  by (simp add: silent_step [OF assms(3)] stances_flip [of _ a b])

text \<open>C36 The friends page follows the server. After each of the caller's own actions the page lists the user with
  the status the server's rows now give, and the count has moved as the number of accepted friends has; the
  one exception is a request to somebody who has blocked the caller, which the page shows and the server does
  not keep. After an action of the other user the page, told what the server broadcasts, is right again after
  a request, an unblocking, and an acceptance unless the caller had blocked them; it is wrong after they
  blocked a caller whose request was pending, and after every removal of a shown relationship, of which the
  server tells nobody.\<close>

theorem friends_page_follows_the_pair:
  assumes "relSound w" and "a \<noteq> b" and "onPage b p" and "pageShows p w a b"
    and "announceable w a b" and "profileOf b = Some u" and "pu_id u = b"
  shows "(\<forall>r w'. viewOf (stances w a b) = FS_none \<and> rel_create (\<lambda>w. w) b a w = (Inr r, w') \<longrightarrow>
      (pageShows (handleAddFriend b p) w' a b \<longleftrightarrow> stance w b a \<noteq> Some BLOCKED)) \<and>
    (\<forall>r w'. viewOf (stances w a b) = FS_incoming \<and> rel_update b ACCEPTED a w = (Inr r, w') \<longrightarrow>
      keepsUp p w (handleAccept b p) w' a b) \<and>
    (\<forall>r w'. rel_update b BLOCKED a w = (Inr r, w') \<longrightarrow>
      keepsUp p w (handleBlock b (viewOf (stances w a b)) p) w' a b) \<and>
    (\<forall>r w' own. viewOf (stances w a b) = FS_blocked \<and> rel_update b ACCEPTED a w = (Inr r, w') \<and>
      rel_findById b a w' = (Inr own, w') \<longrightarrow>
      keepsUp p w (handleUnblock b (map (relationshipWire k) own) a p) w' a b) \<and>
    (\<forall>w'. rel_remove b a w = (Inr (), w') \<longrightarrow>
      (viewOf (stances w a b) = FS_accepted \<longrightarrow> keepsUp p w (handleRemove b p) w' a b) \<and>
      (viewOf (stances w a b) = FS_incoming \<longrightarrow> keepsUp p w (handleDecline b p) w' a b) \<and>
      (viewOf (stances w a b) = FS_outgoing \<longrightarrow> keepsUp p w (handleCancelRequest b p) w' a b)) \<and>
    (\<forall>r w'. rel_create (\<lambda>w. w) a b w = (Inr r, w') \<longrightarrow> pageShows (hears profileOf a w w' p) w' a b) \<and>
    (\<forall>r w'. stance w b a = Some PENDING_APPROVAL \<and> rel_update a ACCEPTED b w = (Inr r, w') \<longrightarrow>
      (pageShows (hears profileOf a w w' p) w' a b \<longleftrightarrow> stance w a b \<noteq> Some BLOCKED)) \<and>
    (\<forall>r w'. stance w b a = Some BLOCKED \<and> rel_update a ACCEPTED b w = (Inr r, w') \<longrightarrow>
      pageShows (hears profileOf a w w' p) w' a b) \<and>
    (\<forall>r w'. rel_update a BLOCKED b w = (Inr r, w') \<longrightarrow>
      (pageShows (hears profileOf a w w' p) w' a b \<longleftrightarrow> viewOf (stances w a b) \<noteq> FS_outgoing)) \<and>
    (\<forall>w'. rel_remove a b w = (Inr (), w') \<longrightarrow>
      (pageShows (hears profileOf a w w' p) w' a b \<longleftrightarrow>
         viewOf (stances w a b) = FS_none \<or> viewOf (stances w a b) = FS_blocked))"
proof (intro conjI allI impI; (elim conjE)?)
  fix r w' assume "viewOf (stances w a b) = FS_none" "rel_create (\<lambda>w. w) b a w = (Inr r, w')"
  then show "pageShows (handleAddFriend b p) w' a b \<longleftrightarrow> stance w b a \<noteq> Some BLOCKED"
    using own_add assms(1-3) by blast
next
  fix r w' assume "viewOf (stances w a b) = FS_incoming" "rel_update b ACCEPTED a w = (Inr r, w')"
  then show "keepsUp p w (handleAccept b p) w' a b" using own_accept assms(1-3) by blast
next
  fix r w' assume "rel_update b BLOCKED a w = (Inr r, w')"
  then show "keepsUp p w (handleBlock b (viewOf (stances w a b)) p) w' a b" using own_block assms(1-3) by blast
next
  fix r w' own assume "viewOf (stances w a b) = FS_blocked" "rel_update b ACCEPTED a w = (Inr r, w')"
    "rel_findById b a w' = (Inr own, w')"
  then show "keepsUp p w (handleUnblock b (map (relationshipWire k) own) a p) w' a b" using own_unblock assms(1-3) by blast
next
  fix w' assume "rel_remove b a w = (Inr (), w')" "viewOf (stances w a b) = FS_accepted"
  then show "keepsUp p w (handleRemove b p) w' a b" using own_drop(1) assms(1,2) by simp
next
  fix w' assume "rel_remove b a w = (Inr (), w')" "viewOf (stances w a b) = FS_incoming"
  then show "keepsUp p w (handleDecline b p) w' a b" using own_drop(2) assms(1,2) by simp
next
  fix w' assume "rel_remove b a w = (Inr (), w')" "viewOf (stances w a b) = FS_outgoing"
  then show "keepsUp p w (handleCancelRequest b p) w' a b" using own_drop(3) assms(1,2) by simp
next
  fix r w' assume "rel_create (\<lambda>w. w) a b w = (Inr r, w')"
  then show "pageShows (hears profileOf a w w' p) w' a b" using their_request assms(1,2,4-7) by blast
next
  fix r w' assume "stance w b a = Some PENDING_APPROVAL" "rel_update a ACCEPTED b w = (Inr r, w')"
  then show "pageShows (hears profileOf a w w' p) w' a b \<longleftrightarrow> stance w a b \<noteq> Some BLOCKED"
    using their_accept assms(1,2,4,5) by blast
next
  fix r w' assume "stance w b a = Some BLOCKED" "rel_update a ACCEPTED b w = (Inr r, w')"
  then show "pageShows (hears profileOf a w w' p) w' a b" using their_unblock assms(1,2,4,5) by blast
next
  fix r w' assume "rel_update a BLOCKED b w = (Inr r, w')"
  then show "pageShows (hears profileOf a w w' p) w' a b \<longleftrightarrow> viewOf (stances w a b) \<noteq> FS_outgoing"
    using their_block assms(1,2,4,5) by blast
next
  fix w' assume "rel_remove a b w = (Inr (), w')"
  then show "pageShows (hears profileOf a w w' p) w' a b \<longleftrightarrow>
      viewOf (stances w a b) = FS_none \<or> viewOf (stances w a b) = FS_blocked"
    using their_remove assms(1,2,4) by blast
qed

definition sampleFriend :: public_user where
  "sampleFriend = \<lparr>pu_id = ''b'', pu_username = ''bob'', pu_firstName = None, pu_lastName = None, pu_avatarUrl = None,
     pu_campus = None, pu_online = False\<rparr>"

text \<open>The friend of the sample world removes the friendship, and the page goes on showing it.\<close>

lemma friends_page_follows_the_pair_witness:
  "\<exists>w'. rel_remove ''a'' ''b'' (friendsWorld ACCEPTED) = (Inr (), w') \<and>
     \<not> pageShows (hears (\<lambda>_. Some sampleFriend) ''a'' (friendsWorld ACCEPTED) w'
         \<lparr>fp_friends = [toFriendProfile sampleFriend FS_accepted], fp_focused = None, fp_selected = None, fp_count = Some 1\<rparr>)
         w' ''a'' ''b''"
proof -
  let ?w = "friendsWorld ACCEPTED" and ?p = "\<lparr>fp_friends = [toFriendProfile sampleFriend FS_accepted],
      fp_focused = None, fp_selected = None, fp_count = Some 1\<rparr>"
  have s: "relSound ?w"
    by (auto simp: relSound_def friendsWorld_def relTable_def relKey_def stances_def stance_def soundPair_iff)
  have view: "viewOf (stances ?w ''a'' ''b'') = FS_accepted"
    by (simp add: friendsWorld_def stances_def stance_def view_defs)
  have id: "fr_id (toFriendProfile sampleFriend FS_accepted) = ''b''" "fr_status (toFriendProfile sampleFriend FS_accepted) = FS_accepted"
    by (simp_all add: toFriendProfile_def sampleFriend_def Let_def)
  have p: "onPage ''b'' ?p" "pageShows ?p ?w ''a'' ''b''"
    by (simp_all add: onPage_def pageShows_def listed_def statusIn_def view id)
  have n: "announceable ?w ''a'' ''b''"
    using friendsWorld_facts [of ACCEPTED] by (auto simp: announceable_def friendsWorld_def emptyWorld_def)
  obtain w' where w': "rel_remove ''a'' ''b'' ?w = (Inr (), w')"
    using rel_remove_step [of "''b''" "''a''" ?w] friendsWorld_facts(1) [of ACCEPTED] by auto
  then have "\<not> pageShows (hears (\<lambda>_. Some sampleFriend) ''a'' ?w w' ?p) w' ''a'' ''b''"
    using friends_page_follows_the_pair [OF s _ p n, of "\<lambda>_. Some sampleFriend" sampleFriend sampleColumns] view
    by (simp add: sampleFriend_def)
  with w' show ?thesis by blast
qed

end
