(* ===== verification/RealtimeSocket.thy ===== *)
theory RealtimeSocket
  imports Gateway BrowserApi
begin

text \<open>
  The browser's one socket (\<open>frontend/src/lib/realtimeSocket.ts\<close>): a ticket is issued for each attempt, the
  socket connects with it, and timers retry a lost connection and rotate a long one. The state is the
  module's variables and what socket.io-client's socket does with them; an event is what the page, the
  network or a timer does next. socket.io-client is relied on for this: a socket connects, or reports a
  connection error, only after \<open>connect()\<close> and before the next \<open>disconnect()\<close>, and \<open>disconnect\<close> is
  reported only of a connected socket.
\<close>

section \<open>State\<close>

text \<open>An attempt waits for its ticket, and remembers the generation it began in, or for the connection.\<close>

datatype connect_attempt = Issuing nat | Waiting

record rt_socket =
  rs_created :: bool
  rs_connected :: bool
  rs_opening :: bool
  rs_ticket :: "string option"
  rs_attempt :: "connect_attempt option"
  rs_reconnectTimer :: "nat option"
  rs_lifetimeTimer :: bool
  rs_desired :: bool
  rs_generation :: nat
  rs_attempts :: nat
  rs_openedIn :: nat

text \<open>\<open>rs_openedIn\<close> is no variable of the module: the generation whose ticket the socket was opened with.\<close>

definition rt_start :: rt_socket where
  "rt_start = \<lparr>rs_created = False, rs_connected = False, rs_opening = False, rs_ticket = None, rs_attempt = None,
     rs_reconnectTimer = None, rs_lifetimeTimer = False, rs_desired = False, rs_generation = 0, rs_attempts = 0,
     rs_openedIn = 0\<rparr>"

definition connectionAttemptTimeoutMs :: nat where "connectionAttemptTimeoutMs = 10000"
definition proactiveSocketRotationMs :: nat where "proactiveSocketRotationMs = 14 * 60000 + 50000"
definition maximumReconnectDelayMs :: nat where "maximumReconnectDelayMs = 30000"

section \<open>Operations\<close>

definition reconnectDelay :: "nat \<Rightarrow> nat" where
  "reconnectDelay attempts = min maximumReconnectDelayMs (1000 * 2 ^ min attempts 5)"

definition scheduleReconnect :: "rt_socket \<Rightarrow> rt_socket" where
  "scheduleReconnect s =
     (if \<not> rs_desired s \<or> rs_reconnectTimer s \<noteq> None \<or> rs_connected s then s
      else s\<lparr>rs_attempts := rs_attempts s + 1, rs_reconnectTimer := Some (reconnectDelay (rs_attempts s))\<rparr>)"

definition clearReconnectTimer :: "rt_socket \<Rightarrow> rt_socket" where
  "clearReconnectTimer s = s\<lparr>rs_reconnectTimer := None\<rparr>"

definition clearLifetimeTimer :: "rt_socket \<Rightarrow> rt_socket" where
  "clearLifetimeTimer s = s\<lparr>rs_lifetimeTimer := False\<rparr>"

definition ensureConnected :: "rt_socket \<Rightarrow> rt_socket" where
  "ensureConnected s =
     (if \<not> rs_desired s \<or> \<not> rs_created s \<or> rs_connected s then s
      else if rs_attempt s \<noteq> None then s
      else (clearReconnectTimer s)\<lparr>rs_attempt := Some (Issuing (rs_generation s))\<rparr>)"

text \<open>The handler of the socket's \<open>disconnect\<close> event, and \<open>socket.disconnect()\<close>.\<close>

definition onDisconnect :: "rt_socket \<Rightarrow> rt_socket" where
  "onDisconnect s = scheduleReconnect (clearLifetimeTimer s)"

definition closeSocket :: "rt_socket \<Rightarrow> rt_socket" where
  "closeSocket s = (if rs_connected s then onDisconnect (s\<lparr>rs_connected := False, rs_opening := False\<rparr>)
     else s\<lparr>rs_opening := False\<rparr>)"

definition getRealtimeSocket :: "rt_socket \<Rightarrow> rt_socket" where
  "getRealtimeSocket s = ensureConnected (s\<lparr>rs_created := True, rs_desired := True\<rparr>)"

definition resetRealtimeSocket :: "rt_socket \<Rightarrow> rt_socket" where
  "resetRealtimeSocket s =
     (let t = clearLifetimeTimer (clearReconnectTimer
        (s\<lparr>rs_generation := rs_generation s + 1, rs_desired := True\<rparr>))
      in if rs_created s then ensureConnected (closeSocket t) else t)"

definition disconnectRealtimeSocket :: "rt_socket \<Rightarrow> rt_socket" where
  "disconnectRealtimeSocket s =
     (let t = clearLifetimeTimer (clearReconnectTimer
        (s\<lparr>rs_generation := rs_generation s + 1, rs_desired := False\<rparr>))
      in if rs_created s then closeSocket (t\<lparr>rs_ticket := None\<rparr>) else t)"

text \<open>The last part of an attempt, however it ended.\<close>

definition attemptEnds :: "rt_socket \<Rightarrow> rt_socket" where
  "attemptEnds s =
     (let t = s\<lparr>rs_attempt := None\<rparr>
      in if rs_desired t \<and> rs_created t \<and> \<not> rs_connected t \<and> rs_reconnectTimer t = None then scheduleReconnect t else t)"

definition attemptFails :: "rt_socket \<Rightarrow> rt_socket" where
  "attemptFails s = attemptEnds (scheduleReconnect s)"

definition onTicket :: "nat \<Rightarrow> string \<Rightarrow> rt_socket \<Rightarrow> rt_socket" where
  "onTicket attemptGeneration ticket s =
     (if \<not> rs_desired s \<or> rs_generation s \<noteq> attemptGeneration \<or> \<not> rs_created s then attemptEnds s
      else s\<lparr>rs_ticket := Some ticket, rs_attempt := Some Waiting, rs_opening := True,
        rs_openedIn := rs_generation s\<rparr>)"

definition onConnect :: "rt_socket \<Rightarrow> rt_socket" where
  "onConnect s = attemptEnds (s\<lparr>rs_connected := True, rs_opening := False, rs_attempts := 0, rs_ticket := None,
     rs_lifetimeTimer := True\<rparr>)"

definition onConnectError :: "rt_socket \<Rightarrow> rt_socket" where
  "onConnectError s = attemptFails (scheduleReconnect (s\<lparr>rs_opening := False\<rparr>))"

definition onTimeout :: "rt_socket \<Rightarrow> rt_socket" where
  "onTimeout s = attemptFails (closeSocket s)"

definition rotateSocket :: "rt_socket \<Rightarrow> rt_socket" where
  "rotateSocket s =
     (if \<not> rs_desired s \<or> \<not> rs_connected s then s
      else ensureConnected (closeSocket (s\<lparr>rs_generation := rs_generation s + 1\<rparr>)))"

section \<open>The ticket\<close>

text \<open>The authentication service's answer; 43 characters of the URL-safe alphabet, valid for 60 seconds.\<close>

definition issueTicket :: "response option \<Rightarrow> string option" where
  "issueTicket answer = (case answer of None \<Rightarrow> None
   | Some r \<Rightarrow> if \<not> responseOk (rp_status r) then None
       else do { v \<leftarrow> rp_body r; record_of v; t \<leftarrow> stringAt v ''ticket'';
         if webSocketTicketPattern t \<and> property v ''expiresIn'' = Some (JNum 60) then Some t else None })"

section \<open>Events\<close>

datatype rt_event =
    Page_asks | Session_resets | Session_ends
  | Ticket_answers "response option" | Connects | Connect_fails | Times_out | Drops
  | Retry_fires | Rotation_fires

text \<open>What happens when an event comes; \<open>None\<close> when it cannot come in this state.\<close>

fun rt_step :: "rt_event \<Rightarrow> rt_socket \<Rightarrow> rt_socket option" where
  "rt_step Page_asks s = Some (getRealtimeSocket s)"
| "rt_step Session_resets s = Some (resetRealtimeSocket s)"
| "rt_step Session_ends s = Some (disconnectRealtimeSocket s)"
| "rt_step (Ticket_answers answer) s = (case rs_attempt s of
     Some (Issuing g) \<Rightarrow> Some (case issueTicket answer of None \<Rightarrow> attemptFails s | Some t \<Rightarrow> onTicket g t s)
   | _ \<Rightarrow> None)"
| "rt_step Connects s = (if rs_opening s then Some (onConnect s) else None)"
| "rt_step Connect_fails s = (if rs_opening s then Some (onConnectError s) else None)"
| "rt_step Times_out s = (if rs_attempt s = Some Waiting then Some (onTimeout s) else None)"
| "rt_step Drops s = (if rs_connected s then Some (onDisconnect (s\<lparr>rs_connected := False\<rparr>)) else None)"
| "rt_step Retry_fires s = (if rs_reconnectTimer s \<noteq> None then Some (ensureConnected (clearReconnectTimer s)) else None)"
| "rt_step Rotation_fires s = (if rs_lifetimeTimer s then Some (rotateSocket s) else None)"

fun rt_run :: "rt_event list \<Rightarrow> rt_socket \<Rightarrow> rt_socket option" where
  "rt_run [] s = Some s"
| "rt_run (e # es) s = (case rt_step e s of None \<Rightarrow> None | Some t \<Rightarrow> rt_run es t)"

inductive rt_reachable :: "rt_socket \<Rightarrow> bool" where
  rt_begin: "rt_reachable rt_start"
| rt_next: "rt_reachable s \<Longrightarrow> rt_step e s = Some t \<Longrightarrow> rt_reachable t"

section \<open>The invariant\<close>

text \<open>
  An open or opening socket is wanted and presents a ticket of the present generation; a timer runs only
  while nothing else does, for one to thirty seconds; and a wanted socket that is not connected has an
  attempt or a timer.
\<close>

definition rt_inv :: "rt_socket \<Rightarrow> bool" where
  "rt_inv s \<longleftrightarrow>
     (rs_opening s \<longrightarrow> rs_attempt s = Some Waiting \<and> \<not> rs_connected s \<and> rs_desired s \<and> rs_created s \<and>
        rs_openedIn s = rs_generation s) \<and>
     (rs_connected s \<longrightarrow> rs_attempt s = None \<and> rs_reconnectTimer s = None \<and> rs_desired s \<and> rs_created s \<and>
        rs_openedIn s = rs_generation s) \<and>
     (rs_lifetimeTimer s \<longleftrightarrow> rs_connected s) \<and>
     (rs_attempt s \<noteq> None \<longrightarrow> rs_created s) \<and>
     (case rs_reconnectTimer s of None \<Rightarrow> True | Some d \<Rightarrow> rs_attempt s = None \<and> rs_desired s \<and> rs_created s \<and>
        0 < rs_attempts s \<and> d = reconnectDelay (rs_attempts s - 1)) \<and>
     (rs_desired s \<and> rs_created s \<and> \<not> rs_connected s \<longrightarrow> rs_attempt s \<noteq> None \<or> rs_reconnectTimer s \<noteq> None)"

lemmas rt_defs = scheduleReconnect_def clearReconnectTimer_def clearLifetimeTimer_def ensureConnected_def
  onDisconnect_def closeSocket_def getRealtimeSocket_def resetRealtimeSocket_def disconnectRealtimeSocket_def
  attemptEnds_def attemptFails_def onTicket_def onConnect_def onConnectError_def onTimeout_def rotateSocket_def

lemma rt_inv_start: "rt_inv rt_start"
  by (simp add: rt_inv_def rt_start_def)

lemma rt_inv_orders:
  assumes "rt_inv s"
  shows "rt_inv (getRealtimeSocket s)" "rt_inv (resetRealtimeSocket s)" "rt_inv (disconnectRealtimeSocket s)"
  using assms by (auto simp: rt_inv_def rt_defs Let_def split: option.splits)

lemma rt_inv_ticket:
  assumes "rt_inv s" "rs_attempt s = Some (Issuing g)"
  shows "rt_inv (attemptFails s)" "rt_inv (onTicket g t s)"
  using assms by (auto simp: rt_inv_def rt_defs Let_def split: option.splits)

lemma rt_inv_opening:
  assumes "rt_inv s" "rs_opening s"
  shows "rt_inv (onConnect s)" "rt_inv (onConnectError s)"
  using assms by (auto simp: rt_inv_def rt_defs Let_def split: option.splits)

lemma rt_inv_timeout: "rt_inv s \<Longrightarrow> rs_attempt s = Some Waiting \<Longrightarrow> rt_inv (onTimeout s)"
  by (cases "rs_reconnectTimer s"; cases "rs_desired s") (auto simp: rt_inv_def rt_defs Let_def)

lemma rt_inv_dropped: "rt_inv s \<Longrightarrow> rs_connected s \<Longrightarrow> rt_inv (onDisconnect (s\<lparr>rs_connected := False\<rparr>))"
  by (simp add: rt_inv_def rt_defs)

lemma rt_inv_retry: "rt_inv s \<Longrightarrow> rs_reconnectTimer s \<noteq> None \<Longrightarrow> rt_inv (ensureConnected (clearReconnectTimer s))"
  by (cases "rs_connected s") (auto simp: rt_inv_def rt_defs)

lemma rt_inv_rotated: "rt_inv s \<Longrightarrow> rs_lifetimeTimer s \<Longrightarrow> rt_inv (rotateSocket s)"
  by (simp add: rt_inv_def rt_defs)

lemmas rt_inv_rest = rt_inv_timeout rt_inv_dropped rt_inv_retry rt_inv_rotated

lemma rt_inv_step:
  assumes inv: "rt_inv s" and step: "rt_step e s = Some t"
  shows "rt_inv t"
proof (cases e)
  case (Ticket_answers answer)
  then obtain g where "rs_attempt s = Some (Issuing g)"
      "t = (case issueTicket answer of None \<Rightarrow> attemptFails s | Some x \<Rightarrow> onTicket g x s)"
    using step by (auto split: option.splits connect_attempt.splits)
  then show ?thesis using rt_inv_ticket [OF inv] by (simp split: option.split)
qed (use step rt_inv_orders [OF inv] rt_inv_opening [OF inv] rt_inv_rest [OF inv] in \<open>simp_all split: if_splits\<close>)

lemma rt_reachable_inv: "rt_reachable s \<Longrightarrow> rt_inv s"
  by (induction rule: rt_reachable.induct) (auto intro: rt_inv_start rt_inv_step)

lemma reconnectDelay_bounds: "1000 \<le> reconnectDelay n \<and> reconnectDelay n \<le> 30000"
  by (simp add: reconnectDelay_def maximumReconnectDelayMs_def min_def)

section \<open>Recovery\<close>

text \<open>The events that connect the socket again when the servers answer.\<close>

definition goodTicket :: "response option" where
  "goodTicket = Some \<lparr>rp_status = 200, rp_isJson = True,
     rp_body = Some (JObj [(''ticket'', JStr (replicate 43 (CHR ''A''))), (''expiresIn'', JNum 60)])\<rparr>"

lemma goodTicket_issued: "issueTicket goodTicket = Some (replicate 43 (CHR ''A''))"
  by (simp add: issueTicket_def goodTicket_def responseOk_def record_of_def field_defs webSocketTicketPattern_def
      list_all_iff set_replicate_conv_if ticketChar_def between_def)

definition recovery :: "rt_socket \<Rightarrow> rt_event list" where
  "recovery s = (if rs_connected s then []
     else case rs_attempt s of
       None \<Rightarrow> [Retry_fires, Ticket_answers goodTicket, Connects]
     | Some Waiting \<Rightarrow> if rs_opening s then [Connects] else [Times_out, Retry_fires, Ticket_answers goodTicket, Connects]
     | Some (Issuing g) \<Rightarrow> if g = rs_generation s then [Ticket_answers goodTicket, Connects]
         else [Ticket_answers goodTicket, Retry_fires, Ticket_answers goodTicket, Connects])"

lemma recovers:
  assumes "rt_inv s" "rs_desired s" "rs_created s"
  shows "\<exists>t. rt_run (recovery s) s = Some t \<and> rs_connected t"
  using assms by (cases "rs_attempt s")
    (auto simp: recovery_def rt_inv_def rt_defs Let_def goodTicket_issued split: option.splits connect_attempt.splits)

section \<open>The property\<close>

text \<open>C35 In every state the socket can reach: it opens and stays open only while wanted and only with a ticket
  asked for after the last reset, rotation or sign-out; a retry waits for 1, 2, 4, 8, 16 and then 30 seconds,
  counted from the last connection; and while it is wanted it is connected, being connected or about to be
  retried, at most four events of well-behaved servers away from a connection.\<close>

theorem realtime_socket_recovers:
  assumes "rt_reachable s"
  shows "(rs_opening s \<or> rs_connected s \<longrightarrow> rs_desired s \<and> rs_openedIn s = rs_generation s) \<and>
    (\<forall>d. rs_reconnectTimer s = Some d \<longrightarrow> 1000 \<le> d \<and> d \<le> 30000 \<and>
       d = min 30000 (1000 * 2 ^ min (rs_attempts s - 1) 5)) \<and>
    (rs_desired s \<and> rs_created s \<longrightarrow> rs_connected s \<or> rs_attempt s \<noteq> None \<or> rs_reconnectTimer s \<noteq> None) \<and>
    (rs_desired s \<and> rs_created s \<longrightarrow> length (recovery s) \<le> 4 \<and>
       (\<exists>t. rt_run (recovery s) s = Some t \<and> rs_connected t))"
proof -
  have inv: "rt_inv s" by (rule rt_reachable_inv [OF assms])
  moreover have "\<forall>d. rs_reconnectTimer s = Some d \<longrightarrow> 1000 \<le> d \<and> d \<le> 30000 \<and>
       d = min 30000 (1000 * 2 ^ min (rs_attempts s - 1) 5)"
    using inv reconnectDelay_bounds [of "rs_attempts s - 1"]
    by (auto simp: rt_inv_def reconnectDelay_def maximumReconnectDelayMs_def split: option.splits)
  moreover have "length (recovery s) \<le> 4" by (simp add: recovery_def split: option.split connect_attempt.split)
  ultimately show ?thesis using recovers [OF inv] by (auto simp: rt_inv_def)
qed

text \<open>A reset while the socket was opening: it is retried after the timeout of the old attempt.\<close>

lemma realtime_socket_recovers_witness:
  "\<exists>s t. rt_run [Page_asks, Ticket_answers goodTicket, Session_resets] rt_start = Some s \<and>
     length (recovery s) = 4 \<and> rt_run (recovery s) s = Some t \<and> rs_connected t"
proof -
  define s where "s = resetRealtimeSocket (onTicket 0 (replicate 43 (CHR ''A'')) (getRealtimeSocket rt_start))"
  have run: "rt_step Page_asks rt_start = Some (getRealtimeSocket rt_start)"
    "rt_step (Ticket_answers goodTicket) (getRealtimeSocket rt_start) =
       Some (onTicket 0 (replicate 43 (CHR ''A'')) (getRealtimeSocket rt_start))"
    "rt_step Session_resets (onTicket 0 (replicate 43 (CHR ''A'')) (getRealtimeSocket rt_start)) = Some s"
    by (simp_all add: s_def goodTicket_issued rt_defs rt_start_def)
  have "rt_reachable s" using run by (meson rt_begin rt_next)
  moreover have "rs_desired s" "rs_created s" "length (recovery s) = 4"
    by (simp_all add: s_def rt_defs rt_start_def recovery_def)
  ultimately show ?thesis using realtime_socket_recovers [of s] run by auto
qed

end
