(* ===== verification/BrowserSession.thy ===== *)
theory BrowserSession
  imports RealtimeSocket JsText
begin

text \<open>
  The session of the browser: the memory-only access token of \<open>frontend/src/lib/auth.ts\<close>, the resource of
  \<open>authState.ts\<close> that the routes ask, and \<open>bearerFetch\<close> of \<open>apiClient.ts\<close>, which refreshes the token on a 401
  and sends again. One state holds the variables of the three modules, the calls in progress and the socket
  of RealtimeSocket, which a change of session resets or disconnects. The continuations of a settled promise
  run before the next event, so the settlement of a refresh is one step. \<open>Date.parse\<close> and
  \<open>decodeURIComponent\<close> are parameters.
\<close>

section \<open>Sessions and the answers that carry them\<close>

record auth_user =
  au_id :: ident
  au_email :: string
  au_emailVerified :: bool
  au_username :: string
  au_firstName :: "string option"
  au_lastName :: "string option"
  au_avatarUrl :: "string option"
  au_campus :: "string option"

record auth_session =
  as_accessToken :: string
  as_expiresIn :: rat
  as_user :: auth_user
  as_csrfToken :: string
  as_idleExpiresAt :: string
  as_absoluteExpiresAt :: string

datatype auth_error = Auth_request_error int string | Auth_error string

definition parseAuthUser :: "json \<Rightarrow> auth_user option" where
  "parseAuthUser v = do {
     record_of v;
     i \<leftarrow> stringAt v ''id''; email \<leftarrow> stringAt v ''email''; verified \<leftarrow> booleanAt v ''emailVerified'';
     name \<leftarrow> stringAt v ''username''; first \<leftarrow> nullableAt v ''firstName''; lst \<leftarrow> nullableAt v ''lastName'';
     avatar \<leftarrow> nullableAt v ''avatarUrl''; campus \<leftarrow> nullableAt v ''campus'';
     Some \<lparr>au_id = i, au_email = email, au_emailVerified = verified, au_username = name, au_firstName = first,
       au_lastName = lst, au_avatarUrl = avatar, au_campus = campus\<rparr>}"

definition parseAuthSession :: "json \<Rightarrow> auth_session option" where
  "parseAuthSession v = do {
     record_of v;
     user \<leftarrow> Option.bind (property v ''user'') parseAuthUser;
     access \<leftarrow> stringAt v ''accessToken'';
     kind \<leftarrow> stringAt v ''tokenType'';
     expires \<leftarrow> numberAt v ''expiresIn''; csrf \<leftarrow> stringAt v ''csrfToken'';
     idle \<leftarrow> stringAt v ''idleExpiresAt''; absolute \<leftarrow> stringAt v ''absoluteExpiresAt'';
     if kind = ''Bearer'' then Some \<lparr>as_accessToken = access, as_expiresIn = expires, as_user = user,
       as_csrfToken = csrf, as_idleExpiresAt = idle, as_absoluteExpiresAt = absolute\<rparr> else None}"

text \<open>The message of a failed answer; a body announced as JSON that is none makes the reading itself fail.\<close>

definition authErrorMessage :: "response \<Rightarrow> auth_error + string" where
  "authErrorMessage r =
     (let fallback = ''Authentication request failed ('' @ showDecimal (nat (rp_status r)) @ '')'' in
      if \<not> rp_isJson r then Inr fallback
      else case rp_body r of None \<Rightarrow> Inl (Auth_error ''SyntaxError'')
       | Some v \<Rightarrow> Inr (case stringAt v ''message'' of Some m \<Rightarrow> if m \<noteq> [] then m else fallback | None \<Rightarrow> fallback))"

definition parseSessionResponse :: "response \<Rightarrow> auth_error + auth_session" where
  "parseSessionResponse r =
     (if \<not> responseOk (rp_status r) then Inl (case authErrorMessage r of Inl e \<Rightarrow> e
        | Inr m \<Rightarrow> Auth_request_error (rp_status r) m)
      else case rp_body r of None \<Rightarrow> Inl (Auth_error ''SyntaxError'')
       | Some v \<Rightarrow> (case parseAuthSession v of
           None \<Rightarrow> Inl (Auth_error ''Authentication service returned invalid credentials'') | Some s \<Rightarrow> Inr s))"

text \<open>\<open>document.cookie\<close>, and a cookie of it; \<open>decode\<close> is \<open>decodeURIComponent\<close>, undefined where it throws.\<close>

definition csrfCookieName :: string where "csrfCookieName = ''tr_csrf''"

fun findCookie :: "string \<Rightarrow> string list \<Rightarrow> string option" where
  "findCookie name [] = None"
| "findCookie name (part # parts) =
     (if CHR ''='' \<notin> set part \<or> trim (takeWhile (\<lambda>c. c \<noteq> CHR ''='') part) \<noteq> name then findCookie name parts
      else Some (trim (drop 1 (dropWhile (\<lambda>c. c \<noteq> CHR ''='') part))))"

definition readCookie :: "(string \<Rightarrow> string option) \<Rightarrow> string \<Rightarrow> string \<Rightarrow> string option" where
  "readCookie decode name cookies = Option.bind (findCookie name (splitOn (CHR '';'') cookies)) decode"

section \<open>State\<close>

datatype auth_state = Authenticated auth_session | Anonymous | Unavailable auth_error

text \<open>A call of \<open>bearerFetch\<close>: what it waits for, or the status or error it ended with.\<close>

datatype fetch_call =
    Needs_session
  | Sent_first string
  | Needs_refresh
  | Sent_again string
  | Call_done int
  | Call_failed auth_error

record page =
  pg_current :: "auth_session option"
  pg_refreshing :: bool
  pg_cookies :: string
  pg_state :: "auth_state option"
  pg_checkedAt :: int
  pg_inFlight :: bool
  pg_pending :: "nat list"
  pg_revision :: nat
  pg_now :: int
  pg_calls :: "fetch_call list"
  pg_socket :: rt_socket
  pg_asked :: bool
  pg_requests :: nat
  pg_answers :: nat

text \<open>
  The last three are no variables of the code: whether a component asked for the socket since the last order
  of the session, and how many refresh requests were sent and answered. \<open>pg_pending\<close> holds the revision each
  pending \<open>resolve\<close> began in.
\<close>

record page_env =
  pe_decode :: "string \<Rightarrow> string option"
  pe_date :: "string \<Rightarrow> int option"

definition sessionCacheTtlMs :: int where "sessionCacheTtlMs = 30000"

definition page_start :: "string \<Rightarrow> int \<Rightarrow> page" where
  "page_start cookies now = \<lparr>pg_current = None, pg_refreshing = False, pg_cookies = cookies, pg_state = None,
     pg_checkedAt = 0, pg_inFlight = False, pg_pending = [], pg_revision = 0, pg_now = now, pg_calls = [],
     pg_socket = rt_start, pg_asked = False, pg_requests = 0, pg_answers = 0\<rparr>"

section \<open>Publishing a session\<close>

definition socketReset :: "page \<Rightarrow> page" where
  "socketReset p = p\<lparr>pg_socket := resetRealtimeSocket (pg_socket p), pg_asked := False\<rparr>"

definition socketDisconnect :: "page \<Rightarrow> page" where
  "socketDisconnect p = p\<lparr>pg_socket := disconnectRealtimeSocket (pg_socket p), pg_asked := False\<rparr>"

definition stateFor :: "auth_session option \<Rightarrow> auth_state" where
  "stateFor s = (case s of Some session \<Rightarrow> Authenticated session | None \<Rightarrow> Anonymous)"

definition applySession :: "auth_session option \<Rightarrow> page \<Rightarrow> page" where
  "applySession s p =
     (let q = p\<lparr>pg_state := Some (stateFor s), pg_checkedAt := pg_now p\<rparr> in
      case s of None \<Rightarrow> socketDisconnect q
      | Some session \<Rightarrow> (case pg_state p of
          Some (Authenticated previous) \<Rightarrow> if au_id (as_user previous) \<noteq> au_id (as_user session) then socketReset q else q
        | _ \<Rightarrow> socketReset q))"

text \<open>From \<open>auth.ts\<close>, whose listener is the resource, and from the resource itself, which does not listen then.\<close>

definition publishAuthSession :: "auth_session option \<Rightarrow> page \<Rightarrow> page" where
  "publishAuthSession s p = applySession s (p\<lparr>pg_current := s\<rparr>)"

definition publishSession :: "auth_session option \<Rightarrow> page \<Rightarrow> page" where
  "publishSession s p = p\<lparr>pg_current := s\<rparr>"

section \<open>Refreshing\<close>

definition csrfToken :: "page_env \<Rightarrow> page \<Rightarrow> string option" where
  "csrfToken env p =
     (case (case pg_current p of Some s \<Rightarrow> Some (as_csrfToken s)
            | None \<Rightarrow> readCookie (pe_decode env) csrfCookieName (pg_cookies p)) of
        Some t \<Rightarrow> if t = [] then None else Some t | None \<Rightarrow> None)"

text \<open>The state after \<open>refreshSession\<close>, and whether its promise waits for the answer; else it holds \<open>null\<close>.\<close>

definition refreshSession :: "page_env \<Rightarrow> page \<Rightarrow> page \<times> bool" where
  "refreshSession env p =
     (if pg_refreshing p then (p, True)
      else case csrfToken env p of None \<Rightarrow> (publishAuthSession None p, False)
       | Some t \<Rightarrow> (p\<lparr>pg_refreshing := True, pg_requests := pg_requests p + 1\<rparr>, True))"

type_synonym outcome = "auth_error + auth_session option"

definition refreshOutcome :: "response option \<Rightarrow> outcome" where
  "refreshOutcome answer = (case answer of None \<Rightarrow> Inl (Auth_error ''TypeError'')
   | Some r \<Rightarrow> if rp_status r = 401 then Inr None
       else (case parseSessionResponse r of Inl e \<Rightarrow> Inl e | Inr s \<Rightarrow> Inr (Some s)))"

definition stateOf :: "outcome \<Rightarrow> auth_state" where
  "stateOf x = (case x of Inl e \<Rightarrow> Unavailable e | Inr s \<Rightarrow> stateFor s)"

text \<open>The continuation of a \<open>resolve\<close> begun in revision \<open>r\<close>.\<close>

definition continueResolve :: "outcome \<Rightarrow> nat \<Rightarrow> page \<Rightarrow> page" where
  "continueResolve x r p = (if r \<noteq> pg_revision p then p else p\<lparr>pg_state := Some (stateOf x), pg_checkedAt := pg_now p\<rparr>)"

definition sessionMissing :: auth_error where
  "sessionMissing = Auth_request_error 401 ''An active session is required''"

definition resumeCall :: "outcome \<Rightarrow> fetch_call \<Rightarrow> fetch_call" where
  "resumeCall x c = (case c of
     Needs_session \<Rightarrow> (case x of Inl e \<Rightarrow> Call_failed e | Inr None \<Rightarrow> Call_failed sessionMissing
       | Inr (Some s) \<Rightarrow> Sent_first (as_accessToken s))
   | Needs_refresh \<Rightarrow> (case x of Inl e \<Rightarrow> Call_failed e | Inr None \<Rightarrow> Call_done 401
       | Inr (Some s) \<Rightarrow> Sent_again (as_accessToken s))
   | _ \<Rightarrow> c)"

definition settleRefresh :: "response option \<Rightarrow> page \<Rightarrow> page" where
  "settleRefresh answer p =
     (let x = refreshOutcome answer;
          q = publishAuthSession (case x of Inl e \<Rightarrow> None | Inr s \<Rightarrow> s) p;
          r = fold (continueResolve x) (pg_pending p) (q\<lparr>pg_refreshing := False, pg_answers := pg_answers q + 1\<rparr>)
      in r\<lparr>pg_pending := [], pg_inFlight := False, pg_calls := map (resumeCall x) (pg_calls r)\<rparr>)"

section \<open>The resource\<close>

definition hasFreshState :: "page_env \<Rightarrow> page \<Rightarrow> bool" where
  "hasFreshState env p = (case pg_state p of None \<Rightarrow> False
   | Some st \<Rightarrow> pg_now p - pg_checkedAt p < sessionCacheTtlMs \<and>
       (case st of Authenticated s \<Rightarrow> (case pe_date env (as_idleExpiresAt s) of None \<Rightarrow> False | Some t \<Rightarrow> pg_now p < t)
        | _ \<Rightarrow> True))"

definition resolveState :: "page_env \<Rightarrow> page \<Rightarrow> page" where
  "resolveState env p =
     (if hasFreshState env p \<or> pg_inFlight p then p
      else case refreshSession env p of
        (q, True) \<Rightarrow> q\<lparr>pg_pending := pg_pending q @ [pg_revision p], pg_inFlight := True\<rparr>
      | (q, False) \<Rightarrow> continueResolve (Inr None) (pg_revision p) q)"

definition setAuthenticated :: "auth_session \<Rightarrow> page \<Rightarrow> page" where
  "setAuthenticated s p = socketReset (publishSession (Some s)
     (p\<lparr>pg_revision := pg_revision p + 1, pg_state := Some (Authenticated s), pg_checkedAt := pg_now p\<rparr>))"

definition setAnonymous :: "page \<Rightarrow> page" where
  "setAnonymous p = socketDisconnect (publishSession None
     (p\<lparr>pg_revision := pg_revision p + 1, pg_state := Some Anonymous, pg_checkedAt := pg_now p\<rparr>))"

definition invalidateSession :: "page \<Rightarrow> page" where
  "invalidateSession p = socketReset (publishSession None
     (p\<lparr>pg_revision := pg_revision p + 1, pg_state := None, pg_checkedAt := 0, pg_inFlight := False\<rparr>))"

section \<open>Signing in and out\<close>

text \<open>\<open>login\<close> and \<open>register\<close> at their answer: a valid one is published; the form then sets it.\<close>

definition authRequest :: "response option \<Rightarrow> page \<Rightarrow> page" where
  "authRequest answer p = (case answer of None \<Rightarrow> p
   | Some r \<Rightarrow> (case parseSessionResponse r of Inl e \<Rightarrow> p | Inr s \<Rightarrow> publishAuthSession (Some s) p))"

definition logoutToken :: "page_env \<Rightarrow> string option \<Rightarrow> page \<Rightarrow> string option" where
  "logoutToken env given p =
     (case given of Some t \<Rightarrow> if t = [] then None else Some t | None \<Rightarrow> csrfToken env p)"

text \<open>\<open>logout\<close>: without a token at once, else at the answer of the service.\<close>

definition logout :: "page_env \<Rightarrow> string option \<Rightarrow> response option \<Rightarrow> page \<Rightarrow> page" where
  "logout env given answer p = (case logoutToken env given p of None \<Rightarrow> publishAuthSession None p
   | Some t \<Rightarrow> (case answer of None \<Rightarrow> p
      | Some r \<Rightarrow> if rp_status r = 401 \<or> rp_status r = 204 then publishAuthSession None p else p))"

section \<open>bearerFetch\<close>

definition bearerFetch :: "page_env \<Rightarrow> page \<Rightarrow> page" where
  "bearerFetch env p = (case pg_current p of
     Some s \<Rightarrow> p\<lparr>pg_calls := pg_calls p @ [Sent_first (as_accessToken s)]\<rparr>
   | None \<Rightarrow> (case refreshSession env p of
       (q, True) \<Rightarrow> q\<lparr>pg_calls := pg_calls q @ [Needs_session]\<rparr>
     | (q, False) \<Rightarrow> q\<lparr>pg_calls := pg_calls q @ [Call_failed sessionMissing]\<rparr>))"

definition setCall :: "nat \<Rightarrow> fetch_call \<Rightarrow> page \<Rightarrow> page" where
  "setCall i c p = p\<lparr>pg_calls := (pg_calls p)[i := c]\<rparr>"

definition refreshAfterUnauthorized :: "page_env \<Rightarrow> nat \<Rightarrow> string \<Rightarrow> page \<Rightarrow> page" where
  "refreshAfterUnauthorized env i rejected p =
     (let renew = (case refreshSession env p of (q, True) \<Rightarrow> setCall i Needs_refresh q
                   | (q, False) \<Rightarrow> setCall i (Call_done 401) q)
      in case pg_current p of
        Some s \<Rightarrow> if as_accessToken s \<noteq> rejected then setCall i (Sent_again (as_accessToken s)) p else renew
      | None \<Rightarrow> renew)"

text \<open>The server's answer to the call \<open>i\<close>, \<open>None\<close> when the network fails.\<close>

definition callAnswered :: "page_env \<Rightarrow> nat \<Rightarrow> int option \<Rightarrow> page \<Rightarrow> page" where
  "callAnswered env i status p =
     (if length (pg_calls p) \<le> i then p
      else case (pg_calls p ! i, status) of
        (Sent_first t, Some n) \<Rightarrow> if n \<noteq> 401 then setCall i (Call_done n) p else refreshAfterUnauthorized env i t p
      | (Sent_again t, Some n) \<Rightarrow> setCall i (Call_done n) p
      | (Sent_first t, None) \<Rightarrow> setCall i (Call_failed (Auth_error ''TypeError'')) p
      | (Sent_again t, None) \<Rightarrow> setCall i (Call_failed (Auth_error ''TypeError'')) p
      | _ \<Rightarrow> p)"

section \<open>Events\<close>

datatype page_event =
    Route_resolves | Refresh_answered "response option" | Auth_answered "response option"
  | Form_authenticates auth_session | Signs_out | Logout_answered "string option" "response option" | Invalidates
  | Fetches | Fetch_answered nat "int option" | Component_asks | Socket_event rt_event
  | Cookies_change string | Time_passes nat

text \<open>An order of the session to the socket is no event of its own.\<close>

fun ofSocket :: "rt_event \<Rightarrow> bool" where
  "ofSocket Page_asks = False"
| "ofSocket Session_resets = False"
| "ofSocket Session_ends = False"
| "ofSocket e = True"

fun page_step :: "page_env \<Rightarrow> page_event \<Rightarrow> page \<Rightarrow> page" where
  "page_step env Route_resolves p = resolveState env p"
| "page_step env (Refresh_answered answer) p = (if pg_refreshing p then settleRefresh answer p else p)"
| "page_step env (Auth_answered answer) p = authRequest answer p"
| "page_step env (Form_authenticates s) p = setAuthenticated s p"
| "page_step env Signs_out p = setAnonymous p"
| "page_step env (Logout_answered given answer) p = logout env given answer p"
| "page_step env Invalidates p = invalidateSession p"
| "page_step env Fetches p = bearerFetch env p"
| "page_step env (Fetch_answered i status) p = callAnswered env i status p"
| "page_step env Component_asks p = p\<lparr>pg_socket := getRealtimeSocket (pg_socket p), pg_asked := True\<rparr>"
| "page_step env (Socket_event e) p = (if ofSocket e
     then (case rt_step e (pg_socket p) of None \<Rightarrow> p | Some s \<Rightarrow> p\<lparr>pg_socket := s\<rparr>) else p)"
| "page_step env (Cookies_change cookies) p = p\<lparr>pg_cookies := cookies\<rparr>"
| "page_step env (Time_passes d) p = p\<lparr>pg_now := pg_now p + int d\<rparr>"

inductive page_reachable :: "page_env \<Rightarrow> page \<Rightarrow> bool" for env where
  page_begin: "page_reachable env (page_start cookies now)"
| page_next: "page_reachable env p \<Longrightarrow> page_reachable env (page_step env e p)"

section \<open>The socket's part\<close>

lemma rt_desired_orders [simp]:
  "rs_desired (resetRealtimeSocket s)" "\<not> rs_desired (disconnectRealtimeSocket s)" "rs_desired (getRealtimeSocket s)"
  by (simp_all add: rt_defs Let_def)

lemma rt_desired_step: "ofSocket e \<Longrightarrow> rt_step e s = Some t \<Longrightarrow> rs_desired t = rs_desired s"
  by (cases e) (auto simp: rt_defs Let_def split: option.splits connect_attempt.splits if_splits)

section \<open>The invariant\<close>

definition waiting :: "fetch_call \<Rightarrow> bool" where
  "waiting c \<longleftrightarrow> c = Needs_session \<or> c = Needs_refresh"

definition agrees :: "page \<Rightarrow> bool" where
  "agrees p \<longleftrightarrow> (\<forall>s. pg_current p = Some s \<longleftrightarrow> pg_state p = Some (Authenticated s))"

fun signedIn :: "auth_state option \<Rightarrow> bool" where
  "signedIn (Some (Authenticated s)) = True"
| "signedIn _ = False"

definition socketFollows :: "page \<Rightarrow> bool" where
  "socketFollows p \<longleftrightarrow> rt_inv (pg_socket p) \<and>
     (signedIn (pg_state p) \<longrightarrow> rs_desired (pg_socket p)) \<and>
     (pg_state p \<noteq> None \<and> \<not> signedIn (pg_state p) \<longrightarrow> \<not> rs_desired (pg_socket p) \<or> pg_asked p)"

definition oneRefresh :: "page \<Rightarrow> bool" where
  "oneRefresh p \<longleftrightarrow> pg_requests p = pg_answers p + (if pg_refreshing p then 1 else 0)"

definition nobodyWaitsInVain :: "page \<Rightarrow> bool" where
  "nobodyWaitsInVain p \<longleftrightarrow> (pg_inFlight p \<longrightarrow> pg_pending p \<noteq> []) \<and> (pg_pending p \<noteq> [] \<longrightarrow> pg_refreshing p) \<and>
     (\<forall>c \<in> set (pg_calls p). waiting c \<longrightarrow> pg_refreshing p)"

definition page_inv :: "page \<Rightarrow> bool" where
  "page_inv p \<longleftrightarrow> agrees p \<and> socketFollows p \<and> oneRefresh p \<and> nobodyWaitsInVain p"

lemmas page_inv_defs = page_inv_def agrees_def socketFollows_def oneRefresh_def nobodyWaitsInVain_def

lemma page_inv_start: "page_inv (page_start cookies now)"
  by (simp add: page_inv_defs page_start_def rt_inv_start)

lemmas socket_orders = socketReset_def socketDisconnect_def rt_inv_orders

lemma page_inv_applied:
  "page_inv p \<Longrightarrow> page_inv (publishAuthSession s p)"
  by (cases s; cases "pg_state p")
    (auto simp: page_inv_defs publishAuthSession_def applySession_def stateFor_def socket_orders Let_def
      split: auth_state.splits)

lemma published:
  "pg_refreshing (publishAuthSession s p) = pg_refreshing p" "pg_requests (publishAuthSession s p) = pg_requests p"
  "pg_answers (publishAuthSession s p) = pg_answers p" "pg_pending (publishAuthSession s p) = pg_pending p"
  "pg_inFlight (publishAuthSession s p) = pg_inFlight p" "pg_calls (publishAuthSession s p) = pg_calls p"
  "pg_revision (publishAuthSession s p) = pg_revision p" "pg_now (publishAuthSession s p) = pg_now p"
  "pg_state (publishAuthSession s p) = Some (stateFor s)" "pg_current (publishAuthSession s p) = s"
  by (cases s; cases "pg_state p";
      auto simp: publishAuthSession_def applySession_def socketReset_def socketDisconnect_def Let_def
        split: auth_state.splits)+

lemma page_inv_orders:
  assumes "page_inv p"
  shows "page_inv (setAuthenticated s p)" "page_inv (setAnonymous p)" "page_inv (invalidateSession p)"
  using assms by (auto simp: page_inv_defs setAuthenticated_def setAnonymous_def invalidateSession_def
      publishSession_def socket_orders)

lemma page_inv_refresh: "page_inv p \<Longrightarrow> page_inv (fst (refreshSession env p))"
  using page_inv_applied [of p None]
  by (auto simp: refreshSession_def page_inv_defs split: option.splits)

lemma refresh_waits: "refreshSession env p = (q, True) \<Longrightarrow> pg_refreshing q"
  by (auto simp: refreshSession_def split: if_splits option.splits)

lemma page_inv_waiter:
  "page_inv q \<Longrightarrow> pg_refreshing q \<Longrightarrow> page_inv (q\<lparr>pg_pending := pg_pending q @ [r], pg_inFlight := True\<rparr>)"
  "page_inv q \<Longrightarrow> pg_refreshing q \<or> \<not> waiting c \<Longrightarrow> page_inv (q\<lparr>pg_calls := pg_calls q @ [c]\<rparr>)"
  "page_inv q \<Longrightarrow> pg_refreshing q \<or> \<not> waiting c \<Longrightarrow> page_inv (setCall i c q)"
  by (auto simp: page_inv_defs setCall_def dest: set_update_subset_insert [THEN subsetD])

lemma page_inv_anonymous:
  assumes "refreshSession env p = (q, False)" and "page_inv p"
  shows "page_inv (continueResolve (Inr None) r q)"
proof -
  have q: "q = publishAuthSession None p" using assms(1) by (simp add: refreshSession_def split: if_splits option.splits)
  then have "continueResolve (Inr None) r q = q \<or> continueResolve (Inr None) r q = q\<lparr>pg_state := pg_state q, pg_checkedAt := pg_now q\<rparr>"
    by (simp add: continueResolve_def stateOf_def published)
  moreover have inv: "page_inv q" unfolding q by (rule page_inv_applied [OF assms(2)])
  moreover have "page_inv (q\<lparr>pg_state := pg_state q, pg_checkedAt := pg_now q\<rparr>)" using inv by (simp add: page_inv_defs)
  ultimately show ?thesis by metis
qed

lemma page_inv_resolve: "page_inv p \<Longrightarrow> page_inv (resolveState env p)"
  using page_inv_refresh [of p env] refresh_waits [of env p] page_inv_anonymous [of env p]
  by (auto simp: resolveState_def intro!: page_inv_waiter split: prod.splits bool.splits)

lemma page_inv_fetch: "page_inv p \<Longrightarrow> page_inv (bearerFetch env p)"
  using page_inv_refresh [of p env] refresh_waits [of env p]
  by (auto simp: bearerFetch_def waiting_def intro!: page_inv_waiter split: prod.splits bool.splits option.splits)

lemma page_inv_again: "page_inv p \<Longrightarrow> page_inv (refreshAfterUnauthorized env i t p)"
  using page_inv_refresh [of p env] refresh_waits [of env p]
  by (auto simp: refreshAfterUnauthorized_def Let_def waiting_def intro!: page_inv_waiter
      split: prod.splits bool.splits option.splits)

lemma page_inv_answered: "page_inv p \<Longrightarrow> page_inv (callAnswered env i status p)"
  by (auto simp: callAnswered_def waiting_def intro!: page_inv_waiter page_inv_again
      split: fetch_call.splits option.splits)

text \<open>The settlement: the continuations only repeat what was published, or mark the service as unavailable.\<close>

lemma fold_continue:
  "pg_state (fold (continueResolve x) rs p) = pg_state p \<or> pg_state (fold (continueResolve x) rs p) = Some (stateOf x)"
proof (induction rs arbitrary: p)
  case (Cons r rs)
  show ?case using Cons.IH [of "continueResolve x r p"] by (auto simp: continueResolve_def split: if_splits)
qed simp

lemma fold_continue_keeps [simp]:
  "pg_current (fold (continueResolve x) rs p) = pg_current p" "pg_socket (fold (continueResolve x) rs p) = pg_socket p"
  "pg_asked (fold (continueResolve x) rs p) = pg_asked p" "pg_refreshing (fold (continueResolve x) rs p) = pg_refreshing p"
  "pg_requests (fold (continueResolve x) rs p) = pg_requests p" "pg_answers (fold (continueResolve x) rs p) = pg_answers p"
  "pg_calls (fold (continueResolve x) rs p) = pg_calls p" "pg_revision (fold (continueResolve x) rs p) = pg_revision p"
  by (induction rs arbitrary: p) (simp_all add: continueResolve_def)

lemma resumed: "\<not> waiting (resumeCall x c)"
  by (auto simp: waiting_def resumeCall_def split: fetch_call.splits sum.splits option.splits)

lemma page_inv_settle:
  assumes inv: "page_inv p" and r: "pg_refreshing p"
  shows "page_inv (settleRefresh answer p)"
proof -
  let ?x = "refreshOutcome answer" and ?s = "case refreshOutcome answer of Inl e \<Rightarrow> None | Inr s \<Rightarrow> s"
  let ?q = "publishAuthSession ?s p"
  have q: "page_inv ?q" by (rule page_inv_applied [OF inv])
  have st: "pg_state (settleRefresh answer p) = Some (stateFor ?s) \<or> pg_state (settleRefresh answer p) = Some (stateOf ?x)"
    using fold_continue [of ?x "pg_pending p" "?q\<lparr>pg_refreshing := False, pg_answers := pg_answers ?q + 1\<rparr>"]
    by (auto simp: settleRefresh_def Let_def published)
  have cur: "pg_current (settleRefresh answer p) = ?s"
    by (simp add: settleRefresh_def Let_def published)
  have "agrees (settleRefresh answer p)" using st cur
    by (cases ?x; cases ?s) (auto simp: agrees_def stateOf_def stateFor_def)
  moreover have "pg_socket (settleRefresh answer p) = pg_socket ?q" "pg_asked (settleRefresh answer p) = pg_asked ?q"
    by (simp_all add: settleRefresh_def Let_def)
  then have "socketFollows (settleRefresh answer p)" using st q
    by (cases ?x; cases ?s) (auto simp: page_inv_def socketFollows_def published stateOf_def stateFor_def)
  moreover have "oneRefresh (settleRefresh answer p)" "nobodyWaitsInVain (settleRefresh answer p)"
    using q r by (auto simp: settleRefresh_def Let_def page_inv_defs published resumed)
  ultimately show ?thesis by (simp add: page_inv_def)
qed

lemma page_inv_socket:
  "page_inv p \<Longrightarrow> ofSocket e \<Longrightarrow> rt_step e (pg_socket p) = Some s \<Longrightarrow> page_inv (p\<lparr>pg_socket := s\<rparr>)"
  using rt_inv_step [of "pg_socket p" e s] rt_desired_step [of e "pg_socket p" s]
  by (auto simp: page_inv_defs split: option.splits auth_state.splits)

lemma page_inv_asked: "page_inv p \<Longrightarrow> page_inv (p\<lparr>pg_socket := getRealtimeSocket (pg_socket p), pg_asked := True\<rparr>)"
  by (simp add: page_inv_defs rt_inv_orders)

lemma page_inv_rest:
  assumes "page_inv p"
  shows "page_inv (authRequest answer p)" "page_inv (logout env given answer p)"
    "page_inv (p\<lparr>pg_cookies := cookies\<rparr>)" "page_inv (p\<lparr>pg_now := now\<rparr>)"
proof -
  show "page_inv (authRequest answer p)"
    by (simp add: authRequest_def assms page_inv_applied split: option.split sum.split)
  show "page_inv (logout env given answer p)"
    by (simp add: logout_def assms page_inv_applied split: option.split)
qed (use assms in \<open>simp_all add: page_inv_defs\<close>)

lemma page_inv_step: "page_inv p \<Longrightarrow> page_inv (page_step env e p)"
  by (cases e) (auto simp: page_inv_resolve page_inv_settle page_inv_orders page_inv_fetch page_inv_answered
      page_inv_asked page_inv_rest page_inv_socket split: option.splits)

lemma page_reachable_inv: "page_reachable env p \<Longrightarrow> page_inv p"
  by (induction rule: page_reachable.induct) (auto intro: page_inv_start page_inv_step)

section \<open>Calls\<close>

text \<open>How far a call is; it is sent in the ranks 1 and 3.\<close>

fun callRank :: "fetch_call \<Rightarrow> nat" where
  "callRank Needs_session = 0"
| "callRank (Sent_first t) = 1"
| "callRank Needs_refresh = 2"
| "callRank (Sent_again t) = 3"
| "callRank (Call_done n) = 4"
| "callRank (Call_failed e) = 4"

definition advances :: "fetch_call list \<Rightarrow> fetch_call list \<Rightarrow> bool" where
  "advances cs ds \<longleftrightarrow> length cs \<le> length ds \<and> (\<forall>i < length cs. cs ! i = ds ! i \<or> callRank (cs ! i) < callRank (ds ! i))"

lemma advances_refl [simp]: "advances cs cs"
  by (simp add: advances_def)

lemma advances_new [simp]: "advances cs (cs @ [c])"
  by (simp add: advances_def nth_append)

lemma advances_map: "(\<And>c. f c = c \<or> callRank c < callRank (f c)) \<Longrightarrow> advances cs (map f cs)"
  by (auto simp: advances_def) metis

lemma advances_set: "callRank (cs ! i) < callRank c \<Longrightarrow> advances cs (cs[i := c])"
  by (cases "i < length cs") (simp_all add: advances_def nth_list_update)

lemma kept_calls [simp]:
  "pg_calls (fst (refreshSession env p)) = pg_calls p" "pg_calls (continueResolve x r p) = pg_calls p"
  "pg_calls (setAuthenticated s p) = pg_calls p" "pg_calls (setAnonymous p) = pg_calls p"
  "pg_calls (invalidateSession p) = pg_calls p" "pg_calls (authRequest answer p) = pg_calls p"
  "pg_calls (logout env given answer p) = pg_calls p"
  by (simp_all add: refreshSession_def continueResolve_def setAuthenticated_def setAnonymous_def invalidateSession_def
      socketReset_def socketDisconnect_def publishSession_def authRequest_def logout_def published
      split: option.splits sum.splits)

lemma kept_refresh: "refreshSession env p = (q, b) \<Longrightarrow> pg_calls q = pg_calls p"
  using kept_calls(1) [of env p] by simp

lemma kept_resolve [simp]: "pg_calls (resolveState env p) = pg_calls p"
  by (auto simp: resolveState_def kept_refresh split: prod.splits bool.splits)

lemma advances_settle: "advances (pg_calls p) (pg_calls (settleRefresh answer p))"
  unfolding settleRefresh_def Let_def
  by (simp add: published) (rule advances_map, auto simp: resumeCall_def split: fetch_call.splits sum.splits option.splits)

lemma advances_fetch: "advances (pg_calls p) (pg_calls (bearerFetch env p))"
  by (auto simp: bearerFetch_def dest: kept_refresh split: prod.splits bool.splits option.splits)

lemma advances_answered: "advances (pg_calls p) (pg_calls (callAnswered env i status p))"
  by (auto simp: callAnswered_def refreshAfterUnauthorized_def setCall_def Let_def
      intro!: advances_set dest!: kept_refresh split: fetch_call.splits option.splits prod.splits bool.splits)

lemma advances_step: "advances (pg_calls p) (pg_calls (page_step env e p))"
  by (cases e) (auto simp: advances_settle advances_fetch advances_answered split: option.splits)

section \<open>The cache of the routes\<close>

text \<open>An answer from the cache is at most 30 seconds old, and no session is answered past its idle expiry.\<close>

lemma fresh_answers:
  assumes "hasFreshState env p"
  shows "resolveState env p = p" and "\<exists>st. pg_state p = Some st \<and> pg_now p < pg_checkedAt p + 30000 \<and>
    (\<forall>s. st = Authenticated s \<longrightarrow> (\<exists>t. pe_date env (as_idleExpiresAt s) = Some t \<and> pg_now p < t))"
  using assms by (auto simp: resolveState_def hasFreshState_def sessionCacheTtlMs_def split: option.splits auth_state.splits)

section \<open>A refresh answered after the user signed out\<close>

definition sampleAuthUser :: auth_user where
  "sampleAuthUser = \<lparr>au_id = ''u1'', au_email = ''m'', au_emailVerified = True, au_username = ''eve'', au_firstName = None,
     au_lastName = None, au_avatarUrl = None, au_campus = None\<rparr>"

definition sampleSession :: "string \<Rightarrow> auth_session" where
  "sampleSession token = \<lparr>as_accessToken = token, as_expiresIn = 300, as_user = sampleAuthUser, as_csrfToken = ''c'',
     as_idleExpiresAt = ''later'', as_absoluteExpiresAt = ''later''\<rparr>"

definition sampleAnswer :: "string \<Rightarrow> response" where
  "sampleAnswer token = \<lparr>rp_status = 200, rp_isJson = True, rp_body = Some (JObj
     [(''accessToken'', JStr token), (''tokenType'', JStr ''Bearer''), (''expiresIn'', JNum 300), (''csrfToken'', JStr ''c''),
      (''idleExpiresAt'', JStr ''later''), (''absoluteExpiresAt'', JStr ''later''),
      (''user'', JObj [(''id'', JStr ''u1''), (''email'', JStr ''m''), (''emailVerified'', JBool True),
         (''username'', JStr ''eve''), (''firstName'', JNull), (''lastName'', JNull), (''avatarUrl'', JNull),
         (''campus'', JNull)])])\<rparr>"

lemma sample_parsed: "parseSessionResponse (sampleAnswer t) = Inr (sampleSession t)"
  by (simp add: parseSessionResponse_def sampleAnswer_def responseOk_def parseAuthSession_def parseAuthUser_def
      record_of_def field_defs sampleSession_def sampleAuthUser_def)

definition sampleEnv :: page_env where
  "sampleEnv = \<lparr>pe_decode = Some, pe_date = (\<lambda>_. Some 1000000)\<rparr>"

definition signedOutWhileRefreshing :: page where
  "signedOutWhileRefreshing = fold (page_step sampleEnv)
     [Form_authenticates (sampleSession ''t1''), Fetches, Fetch_answered 0 (Some 401), Signs_out] (page_start [] 5)"

lemma reachable_fold: "page_reachable env p \<Longrightarrow> page_reachable env (fold (page_step env) es p)"
  by (induction es arbitrary: p) (auto intro: page_next)

lemma signed_out_state:
  "pg_state signedOutWhileRefreshing = Some Anonymous" "pg_current signedOutWhileRefreshing = None"
  "pg_refreshing signedOutWhileRefreshing" "pg_calls signedOutWhileRefreshing = [Needs_refresh]"
  "pg_pending signedOutWhileRefreshing = []"
  by (simp_all add: signedOutWhileRefreshing_def page_start_def setAuthenticated_def setAnonymous_def publishSession_def
      socketReset_def socketDisconnect_def bearerFetch_def callAnswered_def refreshAfterUnauthorized_def refreshSession_def
      csrfToken_def setCall_def sampleSession_def)

lemma refresh_survives_sign_out:
  defines "p \<equiv> page_step sampleEnv (Refresh_answered (Some (sampleAnswer ''t2''))) signedOutWhileRefreshing"
  shows "page_reachable sampleEnv p" "pg_state p = Some (Authenticated (sampleSession ''t2''))"
    "rs_desired (pg_socket p)" "pg_calls p = [Sent_again ''t2'']"
proof -
  show "page_reachable sampleEnv p"
    unfolding p_def signedOutWhileRefreshing_def by (intro page_next reachable_fold page_begin)
  then have "page_inv p" by (rule page_reachable_inv)
  moreover show st: "pg_state p = Some (Authenticated (sampleSession ''t2''))"
    by (simp add: p_def signed_out_state settleRefresh_def refreshOutcome_def sample_parsed published stateFor_def Let_def)
      (simp add: sampleAnswer_def published stateFor_def)
  ultimately show "rs_desired (pg_socket p)" by (simp add: page_inv_def socketFollows_def)
  show "pg_calls p = [Sent_again ''t2'']"
    by (simp add: p_def signed_out_state settleRefresh_def refreshOutcome_def sample_parsed published resumeCall_def Let_def)
      (simp add: sampleAnswer_def sampleSession_def)
qed

section \<open>The property\<close>

text \<open>C34 In every state the page can reach, the routes see the same session as the calls; at most one refresh
  is unanswered, and whoever waits for it is answered with it; the socket is wanted exactly as the session
  says, unless a component asked for it since; and every event leaves each call as it is or takes it further,
  so a call is sent at most twice, the second time with a session taken after its refusal.\<close>

theorem session_stays_consistent:
  assumes "page_reachable env p"
  shows "(\<forall>s. pg_current p = Some s \<longleftrightarrow> pg_state p = Some (Authenticated s)) \<and>
    pg_requests p = pg_answers p + (if pg_refreshing p then 1 else 0) \<and>
    (pg_inFlight p \<or> pg_pending p \<noteq> [] \<or> (\<exists>c \<in> set (pg_calls p). waiting c) \<longrightarrow> pg_refreshing p) \<and>
    (\<forall>answer. let q = settleRefresh answer p in
       \<not> pg_inFlight q \<and> pg_pending q = [] \<and> (\<forall>c \<in> set (pg_calls q). \<not> waiting c)) \<and>
    (signedIn (pg_state p) \<longrightarrow> rs_desired (pg_socket p)) \<and>
    (pg_state p \<noteq> None \<and> \<not> signedIn (pg_state p) \<and> \<not> pg_asked p \<longrightarrow>
       \<not> rs_desired (pg_socket p) \<and> \<not> rs_connected (pg_socket p)) \<and>
    (\<forall>e. advances (pg_calls p) (pg_calls (page_step env e p)))"
  using page_reachable_inv [OF assms]
  by (auto simp: page_inv_defs advances_step Let_def settleRefresh_def resumed rt_inv_def)

lemma session_stays_consistent_witness:
  "pg_current (page_step sampleEnv (Refresh_answered None) signedOutWhileRefreshing) = None \<and>
   \<not> rs_connected (pg_socket signedOutWhileRefreshing)"
proof -
  have r: "page_reachable sampleEnv signedOutWhileRefreshing"
    unfolding signedOutWhileRefreshing_def by (intro reachable_fold page_begin)
  have "pg_asked signedOutWhileRefreshing = False"
    by (simp add: signedOutWhileRefreshing_def setAnonymous_def socketDisconnect_def)
  then have "\<not> rs_connected (pg_socket signedOutWhileRefreshing)"
    using session_stays_consistent [OF r] by (simp add: signed_out_state)
  then show ?thesis
    by (simp add: signed_out_state settleRefresh_def refreshOutcome_def published Let_def)
qed

end
