(* ===== verification/KanbanPage.thy ===== *)
theory KanbanPage
  imports TaskBoard Wire
begin

text \<open>
  The kanban page of the browser: \<open>routes/_authenticated/$projectId/kanban.tsx\<close> (the tasks, the drawer
  and the calls in flight), \<open>components/kanban/KanbanBoard.tsx\<close> (the drag gesture) and
  \<open>components/drawers/kanban/KanbanCardDrawer.tsx\<close> (the form). A handler up to its \<open>await\<close> is a function of
  the page that puts a call in \<open>kb_calls\<close>; the rest of it is the \<open>settle\<close> function of that call, which
  keeps what the handler's closure has. The tasks change by the actions of \<open>TaskBoard\<close> only. A card's
  dates are the instants they name, read by the parameter \<open>instant\<close>; its rank is the whole number the
  server sends. Layout is rationals. The projectId of a mounted page is fixed.
\<close>

section \<open>Tasks of responses\<close>

definition cardOf :: "(string \<Rightarrow> millis) \<Rightarrow> wire_task \<Rightarrow> client_task" where
  "cardOf instant t = \<lparr>ct_row = \<lparr>t_id = wt_id t, t_projectId = wt_projectId t, t_title = wt_title t,
       t_status = wt_status t, t_categoryId = wt_categoryId t, t_rank = \<lfloor>wt_rank t\<rfloor>, t_priority = wt_priority t,
       t_startAt = map_option instant (wt_startAt t), t_endAt = map_option instant (wt_endAt t),
       t_description = wt_description t, t_notes = wt_notes t, t_onCalendar = wt_onCalendar t\<rparr>,
     ct_assignees = wt_assignees t\<rparr>"

text \<open>A whole task as the \<open>Partial<Task>\<close> of an update.\<close>

definition wholeTask :: "(string \<Rightarrow> millis) \<Rightarrow> wire_task \<Rightarrow> task_changes" where
  "wholeTask instant t = \<lparr>tch_id = Some (wt_id t), tch_projectId = Some (wt_projectId t),
     tch_title = Some (wt_title t), tch_status = Some (wt_status t), tch_categoryId = Some (wt_categoryId t),
     tch_rank = Some \<lfloor>wt_rank t\<rfloor>, tch_priority = Some (wt_priority t),
     tch_startAt = Some (map_option instant (wt_startAt t)), tch_endAt = Some (map_option instant (wt_endAt t)),
     tch_description = Some (wt_description t), tch_notes = Some (wt_notes t),
     tch_onCalendar = Some (wt_onCalendar t), tch_assignees = Some (wt_assignees t)\<rparr>"

text \<open>The picker's members: the user of each membership.\<close>

definition membersOf :: "wire_member list \<Rightarrow> user_ref list" where
  "membersOf = map (\<lambda>m. \<lparr>ref_id = wu_id (wm_user m), ref_username = wu_username (wm_user m),
     ref_avatarUrl = wu_avatarUrl (wm_user m)\<rparr>)"

section \<open>The drawer's form\<close>

record task_draft =
  td_title :: string
  td_categoryId :: "ident option"
  td_status :: task_status
  td_priority :: task_priority
  td_assigneeIds :: "ident list"
  td_notes :: string

definition buildInitialDraft :: "client_task option \<Rightarrow> user_ref list \<Rightarrow> task_status \<Rightarrow> task_draft" where
  "buildInitialDraft task people initialStatus = (case task of
     None \<Rightarrow> \<lparr>td_title = [], td_categoryId = None, td_status = initialStatus, td_priority = MEDIUM,
       td_assigneeIds = [], td_notes = []\<rparr>
   | Some old \<Rightarrow> (let t = ct_row old in
       \<lparr>td_title = t_title t, td_categoryId = t_categoryId t, td_status = t_status t, td_priority = t_priority t,
         td_assigneeIds = map ref_id (filter (\<lambda>a. list_ex (\<lambda>m. ref_id m = ref_id a) people) (ct_assignees old)),
         td_notes = (case t_notes t of None \<Rightarrow> [] | Some n \<Rightarrow> n)\<rparr>))"

text \<open>\<open>session\<close> keys the form, so a form belongs to the opening it was mounted for.\<close>

record card_form =
  cf_initial :: task_draft
  cf_draft :: task_draft
  cf_showErrors :: bool
  cf_submitting :: bool

definition mountForm :: "task_draft \<Rightarrow> card_form" where
  "mountForm d = \<lparr>cf_initial = d, cf_draft = d, cf_showErrors = False, cf_submitting = False\<rparr>"

fun findIndex :: "('a \<Rightarrow> bool) \<Rightarrow> 'a list \<Rightarrow> int" where
  "findIndex P [] = -1"
| "findIndex P (x # xs) = (if P x then 0 else if findIndex P xs = -1 then -1 else findIndex P xs + 1)"

definition PRIORITY_ORDER :: "task_priority list" where
  "PRIORITY_ORDER = [HIGH, MEDIUM, LOW]"

definition handlePriorityKeyDown :: "string \<Rightarrow> task_draft \<Rightarrow> task_draft" where
  "handlePriorityKeyDown key draft =
     (let step = (if key \<in> {''ArrowRight'', ''ArrowDown''} then 1
                  else if key \<in> {''ArrowLeft'', ''ArrowUp''} then -1 else (0::int));
          current_index = findIndex (\<lambda>p. p = td_priority draft) PRIORITY_ORDER;
          n = int (length PRIORITY_ORDER) in
      if step = 0 then draft
      else draft\<lparr>td_priority := PRIORITY_ORDER ! nat ((current_index + step + n) mod n)\<rparr>)"

definition toggleMember :: "ident \<Rightarrow> task_draft \<Rightarrow> task_draft" where
  "toggleMember i draft = draft\<lparr>td_assigneeIds :=
     (if i \<in> set (td_assigneeIds draft) then filter (\<lambda>j. j \<noteq> i) (td_assigneeIds draft)
      else td_assigneeIds draft @ [i])\<rparr>"

datatype draft_edit =
    Type_title string
  | Select_status task_status
  | Select_category string
  | Press_key string
  | Pick_priority task_priority
  | Toggle_member ident
  | Type_notes string

fun editDraft :: "draft_edit \<Rightarrow> task_draft \<Rightarrow> task_draft" where
  "editDraft (Type_title s) draft = draft\<lparr>td_title := s\<rparr>"
| "editDraft (Select_status s) draft = draft\<lparr>td_status := s\<rparr>"
| "editDraft (Select_category v) draft = draft\<lparr>td_categoryId := (if v = [] then None else Some v)\<rparr>"
| "editDraft (Press_key k) draft = handlePriorityKeyDown k draft"
| "editDraft (Pick_priority p) draft = draft\<lparr>td_priority := p\<rparr>"
| "editDraft (Toggle_member i) draft = toggleMember i draft"
| "editDraft (Type_notes s) draft = draft\<lparr>td_notes := s\<rparr>"

section \<open>The page\<close>

datatype drawer_target = Drawer_create task_status | Drawer_edit ident

record drawer_state =
  dw_target :: drawer_target
  dw_isOpen :: bool
  dw_session :: nat

type_synonym drop_place = "task_status \<times> int"

text \<open>
  A handler waiting at its \<open>await\<close>, with the values of its closure: \<open>createTask\<close> and \<open>updateTask\<close> of the
  drawer with the session of the form that waits for them, \<open>updateTask\<close> of a drop with where the gesture
  started, \<open>deleteTask\<close> with the card it removed, and the reload after a conflict, for a form or not.
\<close>

datatype kanban_call =
    Creating create_task_body nat
  | Saving ident update_task_body nat
  | Moving ident task_status int drop_place
  | Deleting client_task
  | Reloading "nat option"

datatype toast = Toast_error string | Toast_success string

record kanban_page =
  kb_projectId :: ident
  kb_members :: "user_ref list"
  kb_tasks :: "client_task list"
  kb_drawer :: drawer_state
  kb_form :: card_form
  kb_openedFromUrl :: "ident option"
  kb_activeTask :: "ident option"
  kb_dragOrigin :: "drop_place option"
  kb_calls :: "kanban_call list"
  kb_toasts :: "toast list"

definition mountPage :: "(string \<Rightarrow> millis) \<Rightarrow> ident \<Rightarrow> wire_task list \<Rightarrow> wire_member list \<Rightarrow> kanban_page" where
  "mountPage instant p loaded people =
     \<lparr>kb_projectId = p, kb_members = membersOf people, kb_tasks = map (cardOf instant) loaded,
      kb_drawer = \<lparr>dw_target = Drawer_create TODO, dw_isOpen = False, dw_session = 0\<rparr>,
      kb_form = mountForm (buildInitialDraft None (membersOf people) TODO), kb_openedFromUrl = None,
      kb_activeTask = None, kb_dragOrigin = None, kb_calls = [], kb_toasts = []\<rparr>"

definition dispatchTask :: "tasks_action \<Rightarrow> kanban_page \<Rightarrow> kanban_page" where
  "dispatchTask a page = page\<lparr>kb_tasks := tasksReducer (kb_tasks page) a\<rparr>"

definition showToast :: "toast \<Rightarrow> kanban_page \<Rightarrow> kanban_page" where
  "showToast t page = page\<lparr>kb_toasts := kb_toasts page @ [t]\<rparr>"

definition calling :: "kanban_call \<Rightarrow> kanban_page \<Rightarrow> kanban_page" where
  "calling c page = page\<lparr>kb_calls := kb_calls page @ [c]\<rparr>"

definition taskAt :: "kanban_page \<Rightarrow> ident \<Rightarrow> client_task option" where
  "taskAt page i = List.find (\<lambda>t. ct_id t = i) (kb_tasks page)"

text \<open>The task and the preset status the drawer is given.\<close>

fun editing_task :: "kanban_page \<Rightarrow> drawer_target \<Rightarrow> client_task option" where
  "editing_task page (Drawer_edit i) = taskAt page i"
| "editing_task page (Drawer_create s) = None"

fun initialStatus :: "drawer_target \<Rightarrow> task_status" where
  "initialStatus (Drawer_create s) = s"
| "initialStatus (Drawer_edit i) = TODO"

text \<open>Opening bumps the session, which mounts the form anew.\<close>

definition openDrawer :: "drawer_target \<Rightarrow> kanban_page \<Rightarrow> kanban_page" where
  "openDrawer goal page = page\<lparr>
     kb_drawer := \<lparr>dw_target = goal, dw_isOpen = True, dw_session = dw_session (kb_drawer page) + 1\<rparr>,
     kb_form := mountForm (buildInitialDraft (editing_task page goal) (kb_members page) (initialStatus goal))\<rparr>"

definition closeDrawer :: "kanban_page \<Rightarrow> kanban_page" where
  "closeDrawer page = page\<lparr>kb_drawer := (kb_drawer page)\<lparr>dw_isOpen := False\<rparr>\<rparr>"

text \<open>\<open>?task=\<close>: the drawer opens on a card of this board; the router drops the parameter.\<close>

definition taskIdFromUrl :: "ident \<Rightarrow> kanban_page \<Rightarrow> kanban_page" where
  "taskIdFromUrl i page =
     (if i = [] \<or> kb_openedFromUrl page = Some i then page
      else (let marked = page\<lparr>kb_openedFromUrl := Some i\<rparr> in
        if list_ex (\<lambda>t. ct_id t = i) (kb_tasks page) then openDrawer (Drawer_edit i) marked else marked))"

section \<open>Live board\<close>

definition handleTaskCreated :: "(string \<Rightarrow> millis) \<Rightarrow> json \<Rightarrow> kanban_page \<Rightarrow> kanban_page" where
  "handleTaskCreated instant payload page = (case parseTask payload of
     None \<Rightarrow> page
   | Some task \<Rightarrow> if wt_projectId task \<noteq> kb_projectId page then page
       else dispatchTask (Task_created (cardOf instant task)) page)"

text \<open>\<open>isRecord(payload)\<close>, a string \<open>taskId\<close> and the page's \<open>projectId\<close>.\<close>

definition ownTaskId :: "kanban_page \<Rightarrow> json \<Rightarrow> ident option" where
  "ownTaskId page payload = (if isRecord payload \<and> property payload ''projectId'' = Some (JStr (kb_projectId page))
     then stringAt payload ''taskId'' else None)"

definition handleTaskUpdated :: "(string \<Rightarrow> millis) \<Rightarrow> json \<Rightarrow> kanban_page \<Rightarrow> kanban_page" where
  "handleTaskUpdated instant payload page = (case ownTaskId page payload of
     None \<Rightarrow> page
   | Some taskId \<Rightarrow> (case Option.bind (property payload ''changes'') parseTask of
         None \<Rightarrow> page
       | Some changes \<Rightarrow> dispatchTask (Task_updated taskId (wholeTask instant changes)) page))"

definition handleTaskMoved :: "json \<Rightarrow> kanban_page \<Rightarrow> kanban_page" where
  "handleTaskMoved payload page = (case ownTaskId page payload of
     None \<Rightarrow> page
   | Some taskId \<Rightarrow> (case (memberAt taskStatuses payload ''toStatus'', numberAt payload ''toIndex'') of
         (Some toStatus, Some toIndex) \<Rightarrow> dispatchTask (Task_moved taskId toStatus \<lfloor>toIndex\<rfloor>) page
       | _ \<Rightarrow> page))"

definition handleTaskDeleted :: "json \<Rightarrow> kanban_page \<Rightarrow> kanban_page" where
  "handleTaskDeleted payload page = (case ownTaskId page payload of
     None \<Rightarrow> page
   | Some taskId \<Rightarrow>
       (let gone = dispatchTask (Task_deleted taskId) page in
        if dw_target (kb_drawer gone) = Drawer_edit taskId then closeDrawer gone else gone))"

definition hearTask :: "(string \<Rightarrow> millis) \<Rightarrow> string \<Rightarrow> json \<Rightarrow> kanban_page \<Rightarrow> kanban_page" where
  "hearTask instant event payload page =
     (if event = ''task:created'' then handleTaskCreated instant payload page
      else if event = ''task:updated'' then handleTaskUpdated instant payload page
      else if event = ''task:moved'' then handleTaskMoved payload page
      else if event = ''task:deleted'' then handleTaskDeleted payload page
      else page)"

section \<open>Drag and drop\<close>

definition STATUS_ORDER :: "task_status list" where
  "STATUS_ORDER = [TODO, IN_PROGRESS, REVIEW, COMPLETED]"

record drag_rect =
  dr_top :: rat
  dr_height :: rat

definition isPastMidpoint :: "drag_rect option \<Rightarrow> drag_rect \<Rightarrow> bool" where
  "isPastMidpoint active_rect over_rect = (case active_rect of
     None \<Rightarrow> False
   | Some r \<Rightarrow> dr_top r + dr_height r / 2 > dr_top over_rect + dr_height over_rect / 2)"

definition columnIndexOf :: "client_task list \<Rightarrow> ident \<Rightarrow> task_status \<Rightarrow> int" where
  "columnIndexOf ts i status = findIndex (\<lambda>t. ct_id t = i) (selectColumnTasks ts status)"

text \<open>The column without the dragged card.\<close>

definition columnBeside :: "client_task list \<Rightarrow> ident \<Rightarrow> task_status \<Rightarrow> client_task list" where
  "columnBeside ts active status = filter (\<lambda>t. ct_id t \<noteq> active) (selectColumnTasks ts status)"

definition resolveDropTarget :: "client_task list \<Rightarrow> ident \<Rightarrow> string \<Rightarrow> bool \<Rightarrow> drop_place option" where
  "resolveDropTarget ts active over insert_after =
     (case List.find (\<lambda>s. nameIn taskStatuses s = over) STATUS_ORDER of
        Some over_status \<Rightarrow> Some (over_status, int (length (columnBeside ts active over_status)))
      | None \<Rightarrow> (case List.find (\<lambda>t. ct_id t = over) ts of
          None \<Rightarrow> None
        | Some over_task \<Rightarrow>
            if over = active then Some (ct_status over_task, columnIndexOf ts active (ct_status over_task))
            else (let over_index = findIndex (\<lambda>t. ct_id t = ct_id over_task)
                       (columnBeside ts active (ct_status over_task)) in
              Some (ct_status over_task, if insert_after then over_index + 1 else over_index))))"

text \<open>A dnd-kit event: the dragged id and its rectangle, and the droppable under it.\<close>

record drag =
  dg_active :: ident
  dg_rect :: "drag_rect option"
  dg_over :: "(string \<times> drag_rect) option"

definition dropTarget :: "kanban_page \<Rightarrow> drag \<Rightarrow> drop_place option" where
  "dropTarget page d = Option.bind (dg_over d) (\<lambda>(over, over_rect).
     resolveDropTarget (kb_tasks page) (dg_active d) over (isPastMidpoint (dg_rect d) over_rect))"

definition handleDragStart :: "ident \<Rightarrow> kanban_page \<Rightarrow> kanban_page" where
  "handleDragStart i page = page\<lparr>kb_activeTask := Some i,
     kb_dragOrigin := (case taskAt page i of None \<Rightarrow> None
       | Some t \<Rightarrow> Some (ct_status t, columnIndexOf (kb_tasks page) i (ct_status t)))\<rparr>"

definition handlePreviewMove :: "ident \<Rightarrow> task_status \<Rightarrow> int \<Rightarrow> kanban_page \<Rightarrow> kanban_page" where
  "handlePreviewMove i toStatus toIndex page = dispatchTask (Task_moved i toStatus toIndex) page"

definition restoreOrigin :: "ident \<Rightarrow> drop_place option \<Rightarrow> kanban_page \<Rightarrow> kanban_page" where
  "restoreOrigin i origin page = (case origin of None \<Rightarrow> page
     | Some (status, index) \<Rightarrow> handlePreviewMove i status index page)"

text \<open>The gesture is over: no active card and no origin.\<close>

definition gestureEnded :: "kanban_page \<Rightarrow> kanban_page" where
  "gestureEnded page = page\<lparr>kb_activeTask := None, kb_dragOrigin := None\<rparr>"

definition handleDragCancel :: "ident \<Rightarrow> kanban_page \<Rightarrow> kanban_page" where
  "handleDragCancel i page = restoreOrigin i (kb_dragOrigin page) (gestureEnded page)"

definition handleDragOver :: "drag \<Rightarrow> kanban_page \<Rightarrow> kanban_page" where
  "handleDragOver d page =
     (if map_option fst (dg_over d) \<in> {None, Some (dg_active d)} then page
      else case (taskAt page (dg_active d), dropTarget page d) of
        (Some dragged, Some (status, index)) \<Rightarrow>
          if status \<noteq> ct_status dragged then handlePreviewMove (ct_id dragged) status index page else page
      | _ \<Rightarrow> page)"

definition handleMoveTask :: "ident \<Rightarrow> task_status \<Rightarrow> int \<Rightarrow> drop_place \<Rightarrow> kanban_page \<Rightarrow> kanban_page" where
  "handleMoveTask i toStatus toIndex from page =
     calling (Moving i toStatus toIndex from) (dispatchTask (Task_moved i toStatus toIndex) page)"

definition handleDragEnd :: "drag \<Rightarrow> kanban_page \<Rightarrow> kanban_page" where
  "handleDragEnd d page = (let origin = kb_dragOrigin page; i = dg_active d in
     case (taskAt page i, dropTarget page d, origin) of
       (Some dragged, Some goal, Some from) \<Rightarrow>
         if goal = from then gestureEnded page
         else handleMoveTask i (fst goal) (snd goal) from (gestureEnded page)
     | _ \<Rightarrow> restoreOrigin i origin (gestureEnded page))"

section \<open>Requests and their answers\<close>

definition noUpdates :: update_task_body where
  "noUpdates = \<lparr>utb_title = None, utb_categoryId = None, utb_status = None, utb_priority = None, utb_rank = None,
     utb_startAt = None, utb_endAt = None, utb_description = None, utb_notes = None, utb_onCalendar = None,
     utb_assigneeIds = None\<rparr>"

text \<open>What a waiting handler has asked of the API; a reload reads the route's data again.\<close>

fun requestsOf :: "ident \<Rightarrow> kanban_call \<Rightarrow> api_request list" where
  "requestsOf p (Creating body s) = [fst (createTask p body)]"
| "requestsOf p (Saving i updates s) = [fst (updateTask p i updates)]"
| "requestsOf p (Moving i status index from) =
     [fst (updateTask p i (noUpdates\<lparr>utb_status := Some status, utb_rank := Some index\<rparr>))]"
| "requestsOf p (Deleting old) = [fst (deleteTask p (ct_id old))]"
| "requestsOf p (Reloading s) = [fst (listTasks p), fst (listTaskCategories p), fst (getMembers p)]"

text \<open>The page's \<open>errorMessage\<close>: all the errors of the API modules are \<open>Error\<close>s, so the fallback is unused.\<close>

fun errorText :: "browser_error \<Rightarrow> string \<Rightarrow> string" where
  "errorText (Api_error status m) fallback = m"
| "errorText (Js_error m) fallback = m"

fun isConflict :: "browser_error \<Rightarrow> bool" where
  "isConflict (Api_error status m) \<longleftrightarrow> status = 409"
| "isConflict (Js_error m) \<longleftrightarrow> False"

definition settleMove :: "ident \<Rightarrow> drop_place \<Rightarrow> browser_error + wire_task \<Rightarrow> kanban_page \<Rightarrow> kanban_page" where
  "settleMove i from result page = (case result of
     Inr task \<Rightarrow> page
   | Inl e \<Rightarrow> if isConflict e
       then calling (Reloading None) (showToast (Toast_error ''Board changed while you were dragging, reloading'') page)
       else dispatchTask (Task_moved i (fst from) (snd from))
         (showToast (Toast_error (errorText e ''Failed to move task'')) page))"

definition handleDeleteTask :: "ident \<Rightarrow> kanban_page \<Rightarrow> kanban_page" where
  "handleDeleteTask i page = (case taskAt page i of
     None \<Rightarrow> page
   | Some old \<Rightarrow>
       (let gone = dispatchTask (Task_deleted i) page in
        calling (Deleting old)
          (if dw_target (kb_drawer page) = Drawer_edit i then closeDrawer gone else gone)))"

definition settleDelete :: "client_task \<Rightarrow> browser_error + unit \<Rightarrow> kanban_page \<Rightarrow> kanban_page" where
  "settleDelete old result page = (case result of
     Inr _ \<Rightarrow> showToast (Toast_success ''Task deleted'') page
   | Inl e \<Rightarrow> dispatchTask (Task_moved (ct_id old) (ct_status old) (ct_rank old))
       (dispatchTask (Task_created old)
         (showToast (Toast_error (errorText e ''Failed to delete task'')) page)))"

text \<open>Two assignee lists as sets; the first one's ids are looked up in the second's.\<close>

definition sameAssignees :: "ident list \<Rightarrow> ident list \<Rightarrow> bool" where
  "sameAssignees current previous \<longleftrightarrow>
     length current = length previous \<and> list_all (\<lambda>i. i \<in> set previous) current"

definition setIfChanged :: "'a \<Rightarrow> 'a \<Rightarrow> 'a option" where
  "setIfChanged current previous = (if current \<noteq> previous then Some current else None)"

definition updatesOf :: "task_draft \<Rightarrow> ident \<Rightarrow> task_draft \<Rightarrow> update_task_body" where
  "updatesOf draft categoryId initial = noUpdates\<lparr>
     utb_title := setIfChanged (td_title draft) (td_title initial),
     utb_status := setIfChanged (td_status draft) (td_status initial),
     utb_priority := setIfChanged (td_priority draft) (td_priority initial),
     utb_notes := setIfChanged (td_notes draft) (td_notes initial),
     utb_categoryId := (if Some categoryId \<noteq> td_categoryId initial then Some categoryId else None),
     utb_assigneeIds := (if \<not> sameAssignees (td_assigneeIds draft) (td_assigneeIds initial)
       then Some (td_assigneeIds draft) else None)\<rparr>"

definition createBody :: "kanban_page \<Rightarrow> task_draft \<Rightarrow> ident \<Rightarrow> create_task_body" where
  "createBody page draft categoryId =
     \<lparr>ctb_title = td_title draft, ctb_categoryId = categoryId, ctb_status = td_status draft,
      ctb_priority = td_priority draft,
      ctb_rank = int (length (selectColumnTasks (kb_tasks page) (td_status draft))),
      ctb_startAt = None, ctb_endAt = None, ctb_description = None,
      ctb_notes = (if td_notes draft = [] then None else Some (td_notes draft)),
      ctb_onCalendar = False, ctb_assigneeIds = Some (td_assigneeIds draft)\<rparr>"

text \<open>\<open>handleSubmitDrawer\<close> up to its \<open>await\<close>. It waits exactly when it has put a call.\<close>

definition handleSubmitDrawer :: "task_draft \<Rightarrow> task_draft \<Rightarrow> kanban_page \<Rightarrow> kanban_page" where
  "handleSubmitDrawer draft initial page = (case td_categoryId draft of
     None \<Rightarrow> page
   | Some categoryId \<Rightarrow> (let session = dw_session (kb_drawer page) in case dw_target (kb_drawer page) of
         Drawer_create _ \<Rightarrow> calling (Creating (createBody page draft categoryId) session) page
       | Drawer_edit i \<Rightarrow> (let updates = updatesOf draft categoryId initial in
           if updates = noUpdates then closeDrawer page else calling (Saving i updates session) page)))"

definition setSubmitting :: "bool \<Rightarrow> kanban_page \<Rightarrow> kanban_page" where
  "setSubmitting b page = page\<lparr>kb_form := (kb_form page)\<lparr>cf_submitting := b\<rparr>\<rparr>"

text \<open>The \<open>finally\<close> of the form that waits; a form of another session is gone.\<close>

definition submitEnded :: "nat \<Rightarrow> kanban_page \<Rightarrow> kanban_page" where
  "submitEnded session page = (if dw_session (kb_drawer page) = session then setSubmitting False page else page)"

definition handleSubmit :: "kanban_page \<Rightarrow> kanban_page" where
  "handleSubmit page = (let form = kb_form page; draft = cf_draft form in
     if cf_submitting form then page
     else if trim (td_title draft) = [] \<or> td_categoryId draft = None
     then page\<lparr>kb_form := form\<lparr>cf_showErrors := True\<rparr>\<rparr>
     else (let sent = handleSubmitDrawer (draft\<lparr>td_title := trim (td_title draft)\<rparr>) (cf_initial form)
                        (setSubmitting True page) in
       if kb_calls sent = kb_calls page then setSubmitting False sent else sent))"

definition settleCreate :: "(string \<Rightarrow> millis) \<Rightarrow> nat \<Rightarrow> browser_error + wire_task \<Rightarrow> kanban_page \<Rightarrow> kanban_page" where
  "settleCreate instant session result page = submitEnded session (case result of
     Inl e \<Rightarrow> showToast (Toast_error (errorText e ''Failed to create task'')) page
   | Inr created \<Rightarrow> closeDrawer (showToast (Toast_success ''Task created'')
       (dispatchTask (Task_created (cardOf instant created)) page)))"

definition noChanges :: task_changes where
  "noChanges = \<lparr>tch_id = None, tch_projectId = None, tch_title = None, tch_status = None, tch_categoryId = None,
     tch_rank = None, tch_priority = None, tch_startAt = None, tch_endAt = None, tch_description = None,
     tch_notes = None, tch_onCalendar = None, tch_assignees = None\<rparr>"

definition savedFields :: "wire_task \<Rightarrow> task_changes" where
  "savedFields updated = noChanges\<lparr>tch_title := Some (wt_title updated),
     tch_categoryId := Some (wt_categoryId updated), tch_priority := Some (wt_priority updated),
     tch_notes := Some (wt_notes updated), tch_assignees := Some (wt_assignees updated)\<rparr>"

definition settleSave :: "ident \<Rightarrow> update_task_body \<Rightarrow> nat \<Rightarrow> browser_error + wire_task \<Rightarrow> kanban_page \<Rightarrow> kanban_page" where
  "settleSave i updates session result page = (case result of
     Inr updated \<Rightarrow>
       (let shown = dispatchTask (Task_updated i (savedFields updated)) page;
            placed_page = (if utb_status updates \<noteq> None
              then dispatchTask (Task_moved i (wt_status updated) \<lfloor>wt_rank updated\<rfloor>) shown else shown) in
        submitEnded session (closeDrawer (showToast (Toast_success ''Changes saved'') placed_page)))
   | Inl e \<Rightarrow> if isConflict e
       then calling (Reloading (Some session))
         (showToast (Toast_error ''Task changed while you were editing, reloading'') page)
       else submitEnded session (showToast (Toast_error (errorText e ''Failed to save changes'')) page))"

text \<open>The loader has new data; a failed reload only shows a toast. Then the handler goes on.\<close>

definition settleReload :: "(string \<Rightarrow> millis) \<Rightarrow> nat option \<Rightarrow> browser_error + wire_task list \<times> wire_member list \<Rightarrow>
    kanban_page \<Rightarrow> kanban_page" where
  "settleReload instant waiter result page =
     (let reloaded = (case result of
        Inl e \<Rightarrow> showToast (Toast_error (''Your change was saved, but the page may show stale data. '' @
          ''Refresh to see it.'')) page
      | Inr (loaded, people) \<Rightarrow> dispatchTask (Tasks_loaded (map (cardOf instant) loaded))
          (page\<lparr>kb_members := membersOf people\<rparr>)) in
      case waiter of None \<Rightarrow> reloaded | Some session \<Rightarrow> submitEnded session (closeDrawer reloaded))"

section \<open>The page as a machine\<close>

datatype kanban_answer =
    Refused browser_error
  | Answered_task wire_task
  | Answered_nothing
  | Answered_data "wire_task list" "wire_member list"

fun settle :: "(string \<Rightarrow> millis) \<Rightarrow> kanban_call \<Rightarrow> kanban_answer \<Rightarrow> kanban_page \<Rightarrow> kanban_page" where
  "settle instant (Creating body s) (Answered_task t) page = settleCreate instant s (Inr t) page"
| "settle instant (Creating body s) (Refused e) page = settleCreate instant s (Inl e) page"
| "settle instant (Saving i u s) (Answered_task t) page = settleSave i u s (Inr t) page"
| "settle instant (Saving i u s) (Refused e) page = settleSave i u s (Inl e) page"
| "settle instant (Moving i st k from) (Answered_task t) page = settleMove i from (Inr t) page"
| "settle instant (Moving i st k from) (Refused e) page = settleMove i from (Inl e) page"
| "settle instant (Deleting old) Answered_nothing page = settleDelete old (Inr ()) page"
| "settle instant (Deleting old) (Refused e) page = settleDelete old (Inl e) page"
| "settle instant (Reloading s) (Answered_data ts ms) page = settleReload instant s (Inr (ts, ms)) page"
| "settle instant (Reloading s) (Refused e) page = settleReload instant s (Inl e) page"
| "settle instant c a page = calling c page"

datatype kanban_event =
    Hears string json
  | Grabs ident
  | Drags drag
  | Drops drag
  | Lets_go ident
  | Opens drawer_target
  | Closes
  | Url_task ident
  | Deletes ident
  | Edits draft_edit
  | Submits
  | Settles nat kanban_answer

definition answerCall :: "(string \<Rightarrow> millis) \<Rightarrow> nat \<Rightarrow> kanban_answer \<Rightarrow> kanban_page \<Rightarrow> kanban_page" where
  "answerCall instant n a page = (if n < length (kb_calls page)
     then settle instant (kb_calls page ! n) a
       (page\<lparr>kb_calls := take n (kb_calls page) @ drop (Suc n) (kb_calls page)\<rparr>)
     else page)"

fun kanbanStep :: "(string \<Rightarrow> millis) \<Rightarrow> kanban_event \<Rightarrow> kanban_page \<Rightarrow> kanban_page" where
  "kanbanStep instant (Hears event payload) page = hearTask instant event payload page"
| "kanbanStep instant (Grabs i) page = handleDragStart i page"
| "kanbanStep instant (Drags d) page = handleDragOver d page"
| "kanbanStep instant (Drops d) page = handleDragEnd d page"
| "kanbanStep instant (Lets_go i) page = handleDragCancel i page"
| "kanbanStep instant (Opens goal) page = openDrawer goal page"
| "kanbanStep instant Closes page = closeDrawer page"
| "kanbanStep instant (Url_task i) page = taskIdFromUrl i page"
| "kanbanStep instant (Deletes i) page = handleDeleteTask i page"
| "kanbanStep instant (Edits e) page =
     page\<lparr>kb_form := (kb_form page)\<lparr>cf_draft := editDraft e (cf_draft (kb_form page))\<rparr>\<rparr>"
| "kanbanStep instant Submits page = handleSubmit page"
| "kanbanStep instant (Settles n a) page = answerCall instant n a page"

section \<open>Moves of one card\<close>

text \<open>A card but for its place; moves keep the list of them.\<close>

definition unplaced :: "client_task \<Rightarrow> client_task" where
  "unplaced t = t\<lparr>ct_row := (ct_row t)\<lparr>t_status := TODO, t_rank := 0\<rparr>\<rparr>"

lemma unplaced_moved: "unplaced (movedTask s moved st k t) = unplaced t"
  by (simp add: movedTask_def unplaced_def split: option.split prod.split)

lemma unplaced_move: "map unplaced (tasksReducer s (Task_moved i st k)) = map unplaced s"
  by (simp add: moveInBoard_map unplaced_moved split: option.split)

lemma unplaced_id: "unplaced t = unplaced t' \<Longrightarrow> ct_id t = ct_id t'"
proof -
  assume "unplaced t = unplaced t'"
  then have "ct_id (unplaced t) = ct_id (unplaced t')" by simp
  then show ?thesis by (simp add: unplaced_def)
qed

lemma unplaced_eq:
  assumes "unplaced t = unplaced t'" and "ct_status t = ct_status t'" and "ct_rank t = ct_rank t'"
  shows "t = t'"
  using assms by (cases t, cases t', cases "ct_row t", cases "ct_row t'") (simp add: unplaced_def)

text \<open>The board and the rest of the cards determine the page's list.\<close>

lemma same_list:
  assumes "clientInv p s" and "clientInv p s'" and "map unplaced s = map unplaced s'"
    and "boardOf (rows s) p = boardOf (rows s') p"
  shows "s = s'"
proof (rule nth_equalityI)
  show len: "length s = length s'" using assms(3) map_eq_imp_length_eq by blast
  fix n assume n: "n < length s"
  let ?b = "boardOf (rows s) p"
  note i = clientInvD [OF assms(1)] and j = clientInvD [OF assms(2), folded assms(4)]
  have u: "unplaced (s ! n) = unplaced (s' ! n)" using assms(3) n len by (metis nth_map)
  have pl: "placed ?b (ct_row (s ! n))" "placed ?b (ct_row (s' ! n))" using i(4) j(4) n len by auto
  have "(ct_rank (s' ! n), ct_id (s ! n)) \<in> set (slots (?b (ct_status (s' ! n))))"
    using placed_slot [OF pl(2)] unplaced_id [OF u] by (simp add: slot_def)
  from placed_unique [OF i(3) pl(1) this] show "s ! n = s' ! n" by (elim conjE) (rule unplaced_eq [OF u])
qed

lemma move_keeps:
  assumes "clientInv p s"
  shows "clientInv p (tasksReducer s (Task_moved i st k))"
  using assms client_move(1) [OF assms, of i st k]
  by (cases "i \<in> set (map ct_id s)") (auto split: option.split simp: find_None_iff_all dest!: find_SomeD)

lemma boardRemove_move: "boardRemove i (boardMove st x i b) = boardRemove i b"
  by (auto simp: boardMove_def boardRemove_def boardInsert_def fun_eq_iff without_insertAt without_id)

lemma moved_ids: "map ct_id (tasksReducer s (Task_moved i st k)) = map ct_id s"
proof -
  have ids: "map ct_id xs = map ct_id (map unplaced xs)" for xs by (simp add: unplaced_def)
  show ?thesis by (subst (1 2) ids) (simp only: unplaced_move)
qed

text \<open>Only the last move of a card counts.\<close>

lemma moves_overwrite:
  assumes "clientInv p s" and "i \<in> set (map ct_id s)"
  shows "tasksReducer (tasksReducer s (Task_moved i st' k')) (Task_moved i st k) =
     tasksReducer s (Task_moved i st k)"
proof -
  let ?m = "tasksReducer s (Task_moved i st' k')"
  have m: "clientInv p ?m" "i \<in> set (map ct_id ?m)"
    using assms by (simp_all only: move_keeps moved_ids)
  have "boardMove st (Some k) i (boardMove st' (Some k') i b) = boardMove st (Some k) i b" for b
    by (subst (1 3) boardMove_def) (simp add: boardRemove_move)
  then have "boardOf (rows (tasksReducer ?m (Task_moved i st k))) p =
      boardOf (rows (tasksReducer s (Task_moved i st k))) p"
    by (simp only: client_move(2) [OF m] client_move(2) [OF assms])
  moreover have "map unplaced (tasksReducer ?m (Task_moved i st k)) =
      map unplaced (tasksReducer s (Task_moved i st k))" by (simp only: unplaced_move)
  ultimately show ?thesis by (intro same_list [OF client_move(1) [OF m] client_move(1) [OF assms]])
qed

lemma findIndex_split:
  "j \<in> set xs \<Longrightarrow> \<exists>ys zs. xs = ys @ j # zs \<and> j \<notin> set ys \<and> findIndex (\<lambda>x. x = j) xs = int (length ys)"
proof (induction xs)
  case (Cons a xs)
  show ?case
  proof (cases "a = j")
    case True
    then show ?thesis by (intro exI [of _ "[]"] exI [of _ xs]) simp
  next
    case False
    then obtain ys zs where "xs = ys @ j # zs" "j \<notin> set ys" "findIndex (\<lambda>x. x = j) xs = int (length ys)"
      using Cons by auto
    then show ?thesis using False by (intro exI [of _ "a # ys"] exI [of _ zs]) simp
  qed
qed simp

lemma findIndex_map: "findIndex P (map f xs) = findIndex (\<lambda>x. P (f x)) xs"
  by (induction xs) simp_all

lemma columnBeside_ids:
  "clientInv p s \<Longrightarrow> map ct_id (columnBeside s i st) = without i (boardOf (rows s) p st)"
  by (simp add: columnBeside_def without_def filter_map comp_def flip: clientInvD(5))

lemma columnIndexOf_board:
  "clientInv p s \<Longrightarrow> columnIndexOf s i st = findIndex (\<lambda>x. x = i) (boardOf (rows s) p st)"
  by (simp add: columnIndexOf_def findIndex_map flip: clientInvD(5))

text \<open>A card's own place: the index of its column, and its rank.\<close>

lemma home_place:
  assumes "clientInv p s" and "t \<in> set s"
  obtains ys zs where "boardOf (rows s) p (ct_status t) = ys @ ct_id t # zs" "ct_id t \<notin> set (ys @ zs)"
    "columnIndexOf s (ct_id t) (ct_status t) = int (length ys)" "ct_rank t = int (length ys)"
proof -
  let ?b = "boardOf (rows s) p (ct_status t)"
  note inv = clientInvD [OF assms(1)]
  obtain k where k: "k < length ?b" "?b ! k = ct_id t" "ct_rank t = int k"
    using inv(4) assms(2) unfolding placed_def by blast
  then have "ct_id t \<in> set ?b" by (metis nth_mem)
  from findIndex_split [OF this] obtain ys zs where
    s: "?b = ys @ ct_id t # zs" "ct_id t \<notin> set ys" "findIndex (\<lambda>x. x = ct_id t) ?b = int (length ys)" by blast
  have d: "distinct ?b" using inv(3) by (simp add: boardOn_def)
  have "k = length ys" 
    using nth_eq_iff_index_eq [OF d k(1), of "length ys"] k(2) s(1) by simp
  then show thesis using that [of ys zs] s d k columnIndexOf_board [OF assms(1)] by simp
qed

lemma insertAt_middle: "i \<notin> set (ys @ zs) \<Longrightarrow>
  insertAt (clampIndex (Some (int (length ys))) (length (without i (ys @ i # zs)))) i (without i (ys @ i # zs)) =
    ys @ i # zs"
  by (simp add: without_middle clampIndex_def insertAt_def)

lemma home_move:
  assumes "clientInv p s" and "t \<in> set s"
  shows "tasksReducer s (Task_moved (ct_id t) (ct_status t) (columnIndexOf s (ct_id t) (ct_status t))) = s"
    and "columnIndexOf s (ct_id t) (ct_status t) = ct_rank t"
proof -
  let ?i = "ct_id t" and ?st = "ct_status t" and ?b = "boardOf (rows s) p"
  obtain ys zs where h: "?b ?st = ys @ ?i # zs" "?i \<notin> set (ys @ zs)"
    "columnIndexOf s ?i ?st = int (length ys)" "ct_rank t = int (length ys)"
    using home_place [OF assms] .
  show "columnIndexOf s ?i ?st = ct_rank t" using h by simp
  have "?i \<notin> set (?b st)" if "st \<noteq> ?st" for st
    using clientInvD(3) [OF assms(1)] h(1) that unfolding boardOn_def by (metis in_set_conv_decomp)
  then have "boardMove ?st (Some (int (length ys))) ?i ?b = ?b"
    using insertAt_middle [OF h(2)] by (auto simp: boardMove_def boardInsert_def boardRemove_def h(1) fun_eq_iff without_id)
  then show "tasksReducer s (Task_moved ?i ?st (columnIndexOf s ?i ?st)) = s"
    using client_move(2) [OF assms(1), of ?i ?st] assms(2) unfolding h(3)
    by (intro same_list [OF move_keeps [OF assms(1)] assms(1) unplaced_move]) (simp del: tasksReducer.simps)
qed

section \<open>A gesture\<close>

declare tasksReducer.simps [simp del]

text \<open>What the previews of a drag of \<open>i\<close> can make of the tasks.\<close>

definition previewOf :: "ident \<Rightarrow> client_task list \<Rightarrow> client_task list \<Rightarrow> bool" where
  "previewOf i s s' \<longleftrightarrow> s' = s \<or> (\<exists>st k. s' = tasksReducer s (Task_moved i st k))"

lemma previewOf_move:
  assumes "clientInv p s" and "i \<in> set (map ct_id s)" and "previewOf i s s'"
  shows "tasksReducer s' (Task_moved i st k) = tasksReducer s (Task_moved i st k)"
  using assms(3) moves_overwrite [OF assms(1,2)] unfolding previewOf_def by metis

lemma previewOf_keeps:
  assumes "clientInv p s" and "previewOf i s s'"
  shows "clientInv p s'" "map ct_id s' = map ct_id s"
  using assms move_keeps [OF assms(1)] moved_ids unfolding previewOf_def by metis+

lemma taskAt_id: "taskAt page i = Some t \<Longrightarrow> ct_id t = i \<and> t \<in> set (kb_tasks page)"
  by (auto simp: taskAt_def dest: find_SomeD)

lemma taskAt_ex: "i \<in> set (map ct_id (kb_tasks page)) \<Longrightarrow> \<exists>t. taskAt page i = Some t"
  by (cases "taskAt page i") (auto simp: taskAt_def find_None_iff_all)

lemma handleDragOver_run:
  assumes "dg_active d = i"
  shows "\<exists>s'. handleDragOver d page = page\<lparr>kb_tasks := s'\<rparr> \<and>
     (s' = kb_tasks page \<or> (\<exists>st k. s' = tasksReducer (kb_tasks page) (Task_moved i st k)))"
proof -
  have "handleDragOver d page = page \<or> (\<exists>st k. handleDragOver d page = dispatchTask (Task_moved i st k) page)"
  proof (cases "taskAt page i")
    case (Some t)
    then show ?thesis
      using assms taskAt_id [OF Some] by (auto simp: handleDragOver_def handlePreviewMove_def split: option.split)
  qed (simp add: handleDragOver_def assms split: option.split)
  then show ?thesis
  proof (elim disjE exE)
    assume "handleDragOver d page = page"
    then show ?thesis by (intro exI [of _ "kb_tasks page"]) simp
  qed (auto simp: dispatchTask_def)
qed

text \<open>The page after \<open>i\<close> has been grabbed and dragged over \<open>ds\<close>.\<close>

definition holding :: "ident \<Rightarrow> drag list \<Rightarrow> kanban_page \<Rightarrow> kanban_page" where
  "holding i ds page = fold handleDragOver ds (handleDragStart i page)"

lemma drags_preview:
  assumes "clientInv p (kb_tasks page)" and "i \<in> set (map ct_id (kb_tasks page))"
    and "\<forall>d\<in>set ds. dg_active d = i"
  shows "\<exists>s'. fold handleDragOver ds page = page\<lparr>kb_tasks := s'\<rparr> \<and>
     previewOf i (kb_tasks page) s'"
  using assms(3)
proof (induction ds rule: rev_induct)
  case Nil
  show ?case by (intro exI [of _ "kb_tasks page"]) (simp add: previewOf_def)
next
  case (snoc d ds)
  then obtain s where s: "fold handleDragOver ds page = page\<lparr>kb_tasks := s\<rparr>"
    "previewOf i (kb_tasks page) s" by auto
  obtain s' where r: "handleDragOver d (page\<lparr>kb_tasks := s\<rparr>) = page\<lparr>kb_tasks := s'\<rparr>"
    "s' = s \<or> (\<exists>st k. s' = tasksReducer s (Task_moved i st k))"
    using handleDragOver_run [of d i "page\<lparr>kb_tasks := s\<rparr>"] snoc.prems by auto
  have "previewOf i (kb_tasks page) s'"
    using r(2) s(2) previewOf_move [OF assms(1,2) s(2)] unfolding previewOf_def by metis
  then show ?case using s r by (intro exI [of _ s']) simp
qed

lemma holding_preview:
  assumes "clientInv p (kb_tasks page)" and "taskAt page i = Some t" and "\<forall>d\<in>set ds. dg_active d = i"
  shows "\<exists>s'. previewOf i (kb_tasks page) s' \<and> holding i ds page =
     page\<lparr>kb_activeTask := Some i,
       kb_dragOrigin := Some (ct_status t, columnIndexOf (kb_tasks page) i (ct_status t)), kb_tasks := s'\<rparr>"
proof -
  let ?q = "handleDragStart i page"
  have "i \<in> set (map ct_id (kb_tasks page))" using taskAt_id [OF assms(2)] by auto
  then show ?thesis
    using drags_preview [of p ?q i ds] assms by (auto simp: holding_def handleDragStart_def)
qed

text \<open>Beside the dragged card, a preview changes no column.\<close>

lemma previewOf_beside:
  assumes "clientInv p s" and "i \<in> set (map ct_id s)" and "previewOf i s s'"
  shows "map ct_id (columnBeside s' i st) = map ct_id (columnBeside s i st)"
proof -
  have "boardRemove i (boardOf (rows s') p) = boardRemove i (boardOf (rows s) p)"
    using assms(3) client_move(2) [OF assms(1,2)] boardRemove_move unfolding previewOf_def by metis
  then show ?thesis
    by (simp add: columnBeside_ids [OF assms(1)] columnBeside_ids [OF previewOf_keeps(1) [OF assms(1,3)]]
        boardRemove_def fun_eq_iff)
qed

section \<open>Where a drop lands\<close>

lemma move_column:
  assumes "clientInv p s" and "i \<in> set (map ct_id s)"
  shows "map ct_id (selectColumnTasks (tasksReducer s (Task_moved i st k)) st) =
     insertAt (clampIndex (Some k) (length (columnBeside s i st))) i (map ct_id (columnBeside s i st))"
proof -
  have l: "length (columnBeside s i st) = length (without i (boardOf (rows s) p st))"
    using columnBeside_ids [OF assms(1), of i st] by (metis length_map)
  have "map ct_id (selectColumnTasks (tasksReducer s (Task_moved i st k)) st) =
      boardMove st (Some k) i (boardOf (rows s) p) st"
    using clientInvD(5) [OF client_move(1) [OF assms]] client_move(2) [OF assms] by simp
  then show ?thesis
    by (simp add: l columnBeside_ids [OF assms(1)] boardMove_def boardInsert_def boardRemove_def)
qed

lemma card_beside:
  assumes "clientInv p s" and "t \<in> set s" and "ct_id t \<noteq> i"
  obtains ys zs where "map ct_id (columnBeside s i (ct_status t)) = ys @ ct_id t # zs"
    "findIndex (\<lambda>u. ct_id u = ct_id t) (columnBeside s i (ct_status t)) = int (length ys)"
proof -
  have "t \<in> set (columnBeside s i (ct_status t))"
    using assms(2,3) by (simp add: columnBeside_def selectColumn_set)
  then have "ct_id t \<in> set (map ct_id (columnBeside s i (ct_status t)))" by simp
  from findIndex_split [OF this] show thesis using that by (auto simp: findIndex_map)
qed

text \<open>How a column reads after \<open>i\<close> has been dropped on \<open>over\<close>: on the column itself, on the card's own
  place, or on another card, before or after it. \<open>col\<close> is the column without \<open>i\<close>.\<close>

definition landed :: "ident \<Rightarrow> task_status \<Rightarrow> string \<Rightarrow> bool \<Rightarrow> ident list \<Rightarrow> ident list \<Rightarrow> ident list \<Rightarrow> bool" where
  "landed i st over insert_after before col now \<longleftrightarrow>
     (over = nameIn taskStatuses st \<and> now = col @ [i]) \<or> (over = i \<and> now = before) \<or>
     (\<exists>ys zs. col = ys @ over # zs \<and> now = (if insert_after then ys @ over # i # zs else ys @ i # over # zs))"

lemma insertAt_append: "insertAt (length xs) x (xs @ ys) = xs @ x # ys"
  by (simp add: insertAt_def)

lemma drop_lands:
  assumes "clientInv p s" and "i \<in> set (map ct_id s)" and "resolveDropTarget s i over after = Some (st, k)"
  shows "0 \<le> k" and "k \<le> int (length (columnBeside s i st))"
    and "landed i st over after (map ct_id (selectColumnTasks s st)) (map ct_id (columnBeside s i st))
      (map ct_id (selectColumnTasks (tasksReducer s (Task_moved i st k)) st))"
proof -
  let ?col = "map ct_id (columnBeside s i st)"
  let ?now = "map ct_id (selectColumnTasks (tasksReducer s (Task_moved i st k)) st)"
  note now = move_column [OF assms(1,2), of st k]
  consider (column) "over = nameIn taskStatuses st" "k = int (length (columnBeside s i st))"
    | (own) t where "t \<in> set s" "ct_id t = i" "over = i" "st = ct_status t" "k = columnIndexOf s i st"
    | (other) t where "t \<in> set s" "ct_id t = over" "over \<noteq> i" "st = ct_status t"
        "k = findIndex (\<lambda>u. ct_id u = over) (columnBeside s i st) + (if after then 1 else 0)"
  proof -
    show thesis
    proof (cases "List.find (\<lambda>s. nameIn taskStatuses s = over) STATUS_ORDER")
      case (Some s')
      then show ?thesis using assms(3) column by (auto simp: resolveDropTarget_def dest: find_SomeD)
    next
      case None
      then obtain t where t: "List.find (\<lambda>t. ct_id t = over) s = Some t"
        using assms(3) by (auto simp: resolveDropTarget_def split: option.splits)
      from find_SomeD [OF t] have m: "t \<in> set s" "ct_id t = over" by auto
      show ?thesis
        using assms(3) None t m own [of t] other [of t]
        by (auto simp: resolveDropTarget_def Let_def split: if_splits)
    qed
  qed
  then have "0 \<le> k \<and> k \<le> int (length (columnBeside s i st)) \<and>
    landed i st over after (map ct_id (selectColumnTasks s st)) ?col ?now"
  proof cases
    case column
    then show ?thesis using now insertAt_append [of ?col i "[]"] by (simp add: landed_def clampIndex_def)
  next
    case (own t)
    obtain ys zs where h: "boardOf (rows s) p st = ys @ i # zs" "i \<notin> set (ys @ zs)"
      "columnIndexOf s i st = int (length ys)" using home_place [OF assms(1) own(1)] own(2,4) by metis
    have "length (columnBeside s i st) = length (ys @ zs)"
      using columnBeside_ids [OF assms(1), of i st] h(1,2) without_middle [of i ys zs] by (metis length_map)
    then show ?thesis using home_move(1) [OF assms(1) own(1)] own h by (auto simp: landed_def)
  next
    case (other t)
    obtain ys zs where c: "?col = ys @ over # zs"
      "findIndex (\<lambda>u. ct_id u = over) (columnBeside s i st) = int (length ys)"
      using card_beside [OF assms(1) other(1), of i] other(2,3,4) by metis
    have l: "length (columnBeside s i st) = length ys + Suc (length zs)" using arg_cong [OF c(1), of length] by simp
    have a: "insertAt (length ys) i (ys @ over # zs) = ys @ i # over # zs"
      "insertAt (Suc (length ys)) i (ys @ over # zs) = ys @ over # i # zs"
      using insertAt_append [of ys i "over # zs"] insertAt_append [of "ys @ [over]" i zs] by simp_all
    show ?thesis
      using now other(5) c l a by (auto simp: landed_def clampIndex_def nat_add_distrib)
  qed
  then show "0 \<le> k" "k \<le> int (length (columnBeside s i st))"
    "landed i st over after (map ct_id (selectColumnTasks s st)) ?col ?now" by simp_all
qed

section \<open>A drag is one move or none\<close>

lemma gestureEnded_simps [simp]:
  "kb_tasks (gestureEnded page) = kb_tasks page" "kb_calls (gestureEnded page) = kb_calls page"
  "kb_projectId (gestureEnded page) = kb_projectId page"
  by (simp_all add: gestureEnded_def)

lemma dispatchTask_simps [simp]:
  "kb_tasks (dispatchTask a page) = tasksReducer (kb_tasks page) a" "kb_calls (dispatchTask a page) = kb_calls page"
  "kb_drawer (dispatchTask a page) = kb_drawer page" "kb_projectId (dispatchTask a page) = kb_projectId page"
  "kb_form (dispatchTask a page) = kb_form page"
  by (simp_all add: dispatchTask_def)

lemma callingToast_simps [simp]:
  "kb_tasks (calling c page) = kb_tasks page" "kb_calls (calling c page) = kb_calls page @ [c]"
  "kb_drawer (calling c page) = kb_drawer page" "kb_form (calling c page) = kb_form page"
  "kb_tasks (showToast t page) = kb_tasks page" "kb_calls (showToast t page) = kb_calls page"
  "kb_drawer (showToast t page) = kb_drawer page" "kb_form (showToast t page) = kb_form page"
  by (simp_all add: calling_def showToast_def)

lemma restoreOrigin_home:
  assumes "clientInv p s" and "t \<in> set s" and "ct_id t = i" and "previewOf i s (kb_tasks page)"
  shows "kb_tasks (restoreOrigin i (Some (ct_status t, columnIndexOf s i (ct_status t))) page) = s"
    and "kb_calls (restoreOrigin i (Some (ct_status t, columnIndexOf s i (ct_status t))) page) = kb_calls page"
proof -
  have "i \<in> set (map ct_id s)" using assms(2,3) by auto
  then show "kb_tasks (restoreOrigin i (Some (ct_status t, columnIndexOf s i (ct_status t))) page) = s"
    using previewOf_move [OF assms(1) _ assms(4)] home_move(1) [OF assms(1,2)] assms(3)
    by (simp add: restoreOrigin_def handlePreviewMove_def)
qed (simp add: restoreOrigin_def handlePreviewMove_def)

lemma holding_facts:
  assumes "clientInv p (kb_tasks page)" and "taskAt page i = Some t" and "\<forall>d\<in>set ds. dg_active d = i"
  shows "previewOf i (kb_tasks page) (kb_tasks (holding i ds page))" "kb_calls (holding i ds page) = kb_calls page"
    "kb_dragOrigin (holding i ds page) = Some (ct_status t, ct_rank t)"
  using holding_preview [OF assms] home_move(2) [OF assms(1)] taskAt_id [OF assms(2)] by auto

lemma dropped_outside:
  assumes "dropTarget page d = None"
  shows "handleDragEnd d page = restoreOrigin (dg_active d) (kb_dragOrigin page) (gestureEnded page)"
  by (simp add: handleDragEnd_def Let_def assms split: option.split)

lemma dropped_on:
  assumes "dropTarget page d = Some (st, k)" and "taskAt page (dg_active d) = Some t" and "kb_dragOrigin page = Some from"
  shows "handleDragEnd d page = (if (st, k) = from then gestureEnded page
     else handleMoveTask (dg_active d) st k from (gestureEnded page))"
  by (simp add: handleDragEnd_def Let_def assms)

lemma drag_restored:
  assumes "clientInv p (kb_tasks page)" and "taskAt page i = Some t" and "\<forall>d\<in>set ds. dg_active d = i"
    and "page' = restoreOrigin i (kb_dragOrigin (holding i ds page)) (gestureEnded (holding i ds page))"
  shows "kb_tasks page' = kb_tasks page" "kb_calls page' = kb_calls page"
proof -
  note h = holding_facts [OF assms(1-3)] and t = taskAt_id [OF assms(2)]
  have "columnIndexOf (kb_tasks page) i (ct_status t) = ct_rank t" using home_move(2) [OF assms(1)] t by auto
  then show "kb_tasks page' = kb_tasks page" "kb_calls page' = kb_calls page"
    using restoreOrigin_home [OF assms(1), of t i "gestureEnded (holding i ds page)"] t h by (simp_all add: assms(4))
qed

text \<open>A drop of \<open>i\<close>, held with \<open>held\<close>, on the place \<open>(st, k)\<close>: the one move it makes and sends, where the
  card lands, and what a refusal undoes.\<close>

definition movedOnce :: "kanban_page \<Rightarrow> kanban_page \<Rightarrow> drag \<Rightarrow> ident \<Rightarrow> drop_place \<Rightarrow> task_status \<Rightarrow> int \<Rightarrow> bool" where
  "movedOnce page held d i home st k \<longleftrightarrow> (let dropped = handleDragEnd d held in
     kb_calls dropped = kb_calls page @ [Moving i st k home] \<and>
     kb_tasks dropped = tasksReducer (kb_tasks page) (Task_moved i st k) \<and>
     0 \<le> k \<and> k \<le> int (length (columnBeside (kb_tasks page) i st)) \<and>
     (\<exists>over r. dg_over d = Some (over, r) \<and>
        landed i st over (isPastMidpoint (dg_rect d) r) (map ct_id (selectColumnTasks (kb_tasks held) st))
          (map ct_id (columnBeside (kb_tasks page) i st)) (map ct_id (selectColumnTasks (kb_tasks dropped) st))) \<and>
     (\<forall>e. isConflict e \<or> kb_tasks (settleMove i home (Inl e) dropped) = kb_tasks page))"

lemma drag_moved:
  assumes "clientInv p (kb_tasks page)" and "taskAt page i = Some t" and "\<forall>e\<in>set (d # ds). dg_active e = i"
    and "held = holding i ds page" and "dropTarget held d = Some (st, k)" and "(st, k) \<noteq> (ct_status t, ct_rank t)"
  shows "movedOnce page held d i (ct_status t, ct_rank t) st k"
proof -
  let ?s = "kb_tasks page" and ?s' = "kb_tasks held"
  have ds: "\<forall>e\<in>set ds. dg_active e = i" and d: "dg_active d = i" using assms(3) by simp_all
  have i: "i \<in> set (map ct_id ?s)" and t: "ct_id t = i" "t \<in> set ?s" using taskAt_id [OF assms(2)] by auto
  note h = holding_facts [OF assms(1,2) ds, folded assms(4)]
  note inv = previewOf_keeps [OF assms(1) h(1)] and move = previewOf_move [OF assms(1) i h(1)]
  have i': "i \<in> set (map ct_id ?s')" using i inv(2) by simp
  then obtain t' where "taskAt held i = Some t'" using taskAt_ex by blast
  then have e: "handleDragEnd d held = handleMoveTask i st k (ct_status t, ct_rank t) (gestureEnded held)"
    using dropped_on [OF assms(5), of t'] h(3) d assms(6) by auto
  have moved: "kb_tasks (handleDragEnd d held) = tasksReducer ?s (Task_moved i st k)"
    "kb_calls (handleDragEnd d held) = kb_calls page @ [Moving i st k (ct_status t, ct_rank t)]"
    by (simp_all add: e handleMoveTask_def move h(2))
  obtain over r where o: "dg_over d = Some (over, r)"
    "resolveDropTarget ?s' i over (isPastMidpoint (dg_rect d) r) = Some (st, k)"
    using assms(5) d by (auto simp: dropTarget_def bind_eq_Some_conv)
  have same: "map ct_id (columnBeside ?s' i st) = map ct_id (columnBeside ?s i st)"
    by (rule previewOf_beside [OF assms(1) i h(1)])
  then have len: "length (columnBeside ?s' i st) = length (columnBeside ?s i st)" by (metis length_map)
  note l = drop_lands [OF inv(1) i' o(2), unfolded move same len]
  have "kb_tasks (settleMove i (ct_status t, ct_rank t) (Inl e) (handleDragEnd d held)) = ?s" if "\<not> isConflict e" for e
    using that moves_overwrite [OF assms(1) i] home_move [OF assms(1) t(2)] t(1) by (simp add: settleMove_def moved)
  then show ?thesis using l o(1) by (auto simp: movedOnce_def Let_def moved)
qed


text \<open>A board of three cards, and the three moves of a drag of its first card: over another column, back
  over the third card, and dropped on the upper half of the second.\<close>

definition samplePage :: kanban_page where
  "samplePage = (mountPage (\<lambda>s. 0) ''p'' [] [])\<lparr>
     kb_tasks := [sampleCard ''a'' TODO 0, sampleCard ''b'' TODO 1, sampleCard ''c'' TODO 2]\<rparr>"

definition overAt :: "string \<Rightarrow> rat \<Rightarrow> drag" where
  "overAt over y = \<lparr>dg_active = ''a'', dg_rect = Some \<lparr>dr_top = 0, dr_height = 10\<rparr>,
     dg_over = Some (over, \<lparr>dr_top = y, dr_height = 10\<rparr>)\<rparr>"

lemma samplePage_inv: "clientInv ''p'' (kb_tasks samplePage)"
  by (auto simp: clientInv_def samplePage_def sampleCard_def rows_def ranksDense_def dense_def
      columnOf_def inColumn_def)

lemma samplePage_at: "taskAt samplePage ''a'' = Some (sampleCard ''a'' TODO 0)"
  by (simp add: taskAt_def samplePage_def sampleCard_def)


text \<open>The third case: the card has left its place, is back in its column at another place, and is dropped
  on the place it had. Nothing is sent, and the board shows an order the server does not have.\<close>

lemmas evaluate = handleDragOver_def handleDragStart_def handleDragEnd_def handlePreviewMove_def gestureEnded_def
  dispatchTask_def taskAt_def dropTarget_def resolveDropTarget_def columnBeside_def columnIndexOf_def
  selectColumnTasks_def isPastMidpoint_def STATUS_ORDER_def nameIn_def taskStatuses_def tasksReducer.simps
  moveInBoard_def positions_def

definition pageWith :: "client_task list \<Rightarrow> kanban_page" where
  "pageWith ts = samplePage\<lparr>kb_activeTask := Some ''a'', kb_dragOrigin := Some (TODO, 0), kb_tasks := ts\<rparr>"

lemma sample_drag:
  "handleDragStart ''a'' samplePage =
     pageWith [sampleCard ''a'' TODO 0, sampleCard ''b'' TODO 1, sampleCard ''c'' TODO 2]"
  "handleDragOver (overAt ''IN_PROGRESS'' 5)
     (pageWith [sampleCard ''a'' TODO 0, sampleCard ''b'' TODO 1, sampleCard ''c'' TODO 2]) =
   pageWith [sampleCard ''a'' IN_PROGRESS 0, sampleCard ''b'' TODO 0, sampleCard ''c'' TODO 1]"
  "handleDragOver (overAt ''c'' 5)
     (pageWith [sampleCard ''a'' IN_PROGRESS 0, sampleCard ''b'' TODO 0, sampleCard ''c'' TODO 1]) =
   pageWith [sampleCard ''a'' TODO 1, sampleCard ''b'' TODO 0, sampleCard ''c'' TODO 2]"
  by (simp_all add: pageWith_def samplePage_def overAt_def sampleCard_def evaluate)

lemma drop_on_origin_keeps_preview:
  "let dropped = handleDragEnd (overAt ''b'' 5) (holding ''a'' [overAt ''IN_PROGRESS'' 5, overAt ''c'' 5] samplePage)
   in kb_calls dropped = [] \<and> map ct_id (selectColumnTasks (kb_tasks dropped) TODO) = [''b'', ''a'', ''c'']"
proof -
  have "dropTarget (pageWith [sampleCard ''a'' TODO 1, sampleCard ''b'' TODO 0, sampleCard ''c'' TODO 2])
      (overAt ''b'' 5) = Some (TODO, 0)"
    by (simp add: pageWith_def samplePage_def overAt_def sampleCard_def evaluate)
  moreover have "dg_active (overAt ''b'' 5) = ''a''" by (simp add: overAt_def)
  ultimately show ?thesis
    using dropped_on [of "pageWith [sampleCard ''a'' TODO 1, sampleCard ''b'' TODO 0, sampleCard ''c'' TODO 2]"
        "overAt ''b'' 5" TODO 0 "sampleCard ''a'' TODO 1" "(TODO, 0)"]
    by (simp add: holding_def sample_drag)
      (simp add: pageWith_def samplePage_def mountPage_def taskAt_def sampleCard_def selectColumnTasks_def)
qed

text \<open>A delete the server refuses: the card is back where it was.\<close>

lemma refused_delete_restores:
  assumes "clientInv p (kb_tasks page)" and "taskAt page i = Some t"
  shows "boardOf (rows (kb_tasks (settleDelete t (Inl e) (handleDeleteTask i page)))) p =
    boardOf (rows (kb_tasks page)) p"
proof -
  have t: "t \<in> set (kb_tasks page)" "ct_id t = i" using taskAt_id [OF assms(2)] by auto
  have "kb_tasks (closeDrawer q) = kb_tasks q" for q by (simp add: closeDrawer_def)
  then show ?thesis
    using failed_delete_rollback [OF assms(1) t(1)] t(2)
    by (simp add: settleDelete_def handleDeleteTask_def assms(2) Let_def)
qed

section \<open>The server's events\<close>

text \<open>The payloads of the task events as JSON.\<close>

definition taskEventJson :: "columns \<Rightarrow> payload \<Rightarrow> json option" where
  "taskEventJson k payload = (case payload of
     P_task tv \<Rightarrow> Some (taskJson k tv)
   | P_taskUpdated i q tv \<Rightarrow>
       Some (JObj [(''taskId'', JStr i), (''projectId'', JStr q), (''changes'', taskJson k tv)])
   | P_taskMoved i q st n \<Rightarrow> Some (JObj [(''taskId'', JStr i), (''projectId'', JStr q),
       (''toStatus'', named taskStatuses st), (''toIndex'', jint n)])
   | P_taskDeleted i q \<Rightarrow> Some (JObj [(''taskId'', JStr i), (''projectId'', JStr q)])
   | _ \<Rightarrow> None)"

text \<open>The emission of \<open>tasks.service.ts\<close> that tells of a board event, in the world \<open>w\<close> after it: the
  task it carries is a row of \<open>w\<close>.\<close>

definition tells :: "ident \<Rightarrow> world \<Rightarrow> board_event \<Rightarrow> string \<Rightarrow> payload \<Rightarrow> bool" where
  "tells p w e name payload \<longleftrightarrow> (case e of
     Inserted st n i \<Rightarrow> (\<exists>tv. name = ''task:created'' \<and> payload = P_task tv \<and> t_id (tv_task tv) = i \<and>
       t_projectId (tv_task tv) = p \<and> t_status (tv_task tv) = st \<and> t_rank (tv_task tv) = n)
   | Moved st n i \<Rightarrow> name = ''task:moved'' \<and> payload = P_taskMoved i p st n
   | Removed i \<Rightarrow> name = ''task:deleted'' \<and> payload = P_taskDeleted i p
   | Edited i \<Rightarrow> (\<exists>tv. name = ''task:updated'' \<and> payload = P_taskUpdated i p tv \<and> tv_task tv \<in> set (tasks w) \<and>
       t_id (tv_task tv) = i \<and> t_projectId (tv_task tv) = p))"

lemma ownTaskId_json [simp]:
  "ownTaskId page (JObj ((''taskId'', JStr i) # (''projectId'', JStr q) # fs)) =
     (if q = kb_projectId page then Some i else None)"
  by (simp add: ownTaskId_def stringAt_def)

lemma hear_told:
  assumes "taskEventJson k payload = Some v"
  shows "tells p w (Inserted st n i) name payload \<Longrightarrow> \<exists>c. ct_id c = i \<and> t_projectId (ct_row c) = p \<and>
      ct_status c = st \<and> ct_rank c = n \<and>
      hearTask d name v page = (if p = kb_projectId page then dispatchTask (Task_created c) page else page)"
    and "tells p w (Moved st n i) name payload \<Longrightarrow>
      hearTask d name v page = (if p = kb_projectId page then dispatchTask (Task_moved i st n) page else page)"
    and "tells p w (Removed i) name payload \<Longrightarrow>
      hearTask d name v page = (if p = kb_projectId page then
        (let gone = dispatchTask (Task_deleted i) page in
         if dw_target (kb_drawer gone) = Drawer_edit i then closeDrawer gone else gone) else page)"
    and "tells p w (Edited i) name payload \<Longrightarrow> \<exists>c t. tch_id c = Some i \<and> tch_projectId c = Some p \<and>
      t \<in> set (tasks w) \<and> t_id t = i \<and> t_projectId t = p \<and> tch_status c = Some (t_status t) \<and>
      tch_rank c = Some (t_rank t) \<and>
      hearTask d name v page = (if p = kb_projectId page then dispatchTask (Task_updated i c) page else page)"
proof -
  show "\<exists>c. ct_id c = i \<and> t_projectId (ct_row c) = p \<and> ct_status c = st \<and> ct_rank c = n \<and>
      hearTask d name v page = (if p = kb_projectId page then dispatchTask (Task_created c) page else page)"
    if t: "tells p w (Inserted st n i) name payload"
  proof -
    obtain tv where tv: "name = ''task:created''" "payload = P_task tv" "t_id (tv_task tv) = i"
      "t_projectId (tv_task tv) = p" "t_status (tv_task tv) = st" "t_rank (tv_task tv) = n"
      using t by (auto simp: tells_def)
    then have v: "v = taskJson k tv" using assms by (simp add: taskEventJson_def)
    show ?thesis using tv
      by (intro exI [of _ "cardOf d (taskWire k tv)"])
        (auto simp: hearTask_def handleTaskCreated_def v cardOf_def taskWire_def Let_def)
  qed
  show "hearTask d name v page = (if p = kb_projectId page then dispatchTask (Task_moved i st n) page else page)"
    if "tells p w (Moved st n i) name payload"
    using that assms by (auto simp: tells_def taskEventJson_def hearTask_def handleTaskMoved_def field_defs)
  show "hearTask d name v page = (if p = kb_projectId page then
        (let gone = dispatchTask (Task_deleted i) page in
         if dw_target (kb_drawer gone) = Drawer_edit i then closeDrawer gone else gone) else page)"
    if "tells p w (Removed i) name payload"
    using that assms by (auto simp: tells_def taskEventJson_def hearTask_def handleTaskDeleted_def Let_def)
  show "\<exists>c t. tch_id c = Some i \<and> tch_projectId c = Some p \<and>
      t \<in> set (tasks w) \<and> t_id t = i \<and> t_projectId t = p \<and> tch_status c = Some (t_status t) \<and>
      tch_rank c = Some (t_rank t) \<and>
      hearTask d name v page = (if p = kb_projectId page then dispatchTask (Task_updated i c) page else page)"
    if t: "tells p w (Edited i) name payload"
  proof -
    obtain tv where tv: "name = ''task:updated''" "payload = P_taskUpdated i p tv" "tv_task tv \<in> set (tasks w)"
      "t_id (tv_task tv) = i" "t_projectId (tv_task tv) = p" using t by (auto simp: tells_def)
    then have v: "v = JObj [(''taskId'', JStr i), (''projectId'', JStr p), (''changes'', taskJson k tv)]"
      using assms by (simp add: taskEventJson_def)
    show ?thesis using tv
      by (intro exI [of _ "wholeTask d (taskWire k tv)"] exI [of _ "tv_task tv"])
        (auto simp: hearTask_def handleTaskUpdated_def v wholeTask_def taskWire_def Let_def)
  qed
qed

text \<open>A browser's card and a server's row on the same board have the same place.\<close>

lemma same_place:
  assumes "clientInv p s" and "ranksDense ts" and "boardOf (rows s) p = boardOf ts p"
    and "c \<in> set s" and "t \<in> set ts" and "t_projectId t = p" and "ct_id c = t_id t"
  shows "ct_status c = t_status t" "ct_rank c = t_rank t"
proof -
  note inv = clientInvD [OF assms(1)]
  have "(t_rank t, ct_id c) \<in> set (slots (boardOf (rows s) p (t_status t)))"
    using placed_slot [OF dense_placed [OF assms(2,5,6)]] assms(3,7) by (simp add: slot_def)
  from placed_unique [OF inv(3) _ this] inv(4) assms(4)
  show "ct_status c = t_status t" "ct_rank c = t_rank t" by auto
qed

lemma told_step:
  assumes "serverStep p w e w'" and "ranksDense (tasks w)" and "appends (boardOf (tasks w) p) e"
    and "tells p w' e name payload" and "taskEventJson k payload = Some v"
    and "clientInv p (kb_tasks page)" and "boardOf (rows (kb_tasks page)) p = boardOf (tasks w) p"
    and "kb_projectId page = p"
  shows "clientStep p (kb_tasks page) e (kb_tasks (hearTask d name v page))"
proof -
  let ?s = "kb_tasks page"
  note heard = hear_told [OF assms(5), where page = page and d = d]
  note nb = serverStep_newBoard [OF assms(1,2), unfolded newBoard_def]
  have posed: "wellPosed (boardOf (rows ?s) p) e" using serverStep_posed [OF assms(1)] assms(7) by simp
  show ?thesis
  proof (cases e)
    case (Inserted st n i)
    obtain c where c: "ct_id c = i" "t_projectId (ct_row c) = p" "ct_status c = st" "ct_rank c = n"
      "hearTask d name v page = dispatchTask (Task_created c) page"
      using heard(1) assms(4) by (force simp: Inserted assms(8))
    have "n = int (length (map ct_id (selectColumnTasks ?s st)))"
      using assms(3) unfolding clientInvD(5) [OF assms(6)] by (simp add: Inserted assms(7))
    moreover have "i \<notin> set (map ct_id ?s)"
      using posed onBoard_client [OF assms(6), of i] by (simp add: Inserted)
    ultimately show ?thesis
      using clientStep.created [of c ?s p] c by (simp add: Inserted)
  next
    case (Moved st n i)
    then show ?thesis
      using posed onBoard_client [OF assms(6), of i] heard(2) [of p w' st n i name] assms(4,8)
      by (simp add: clientStep.moved)
  next
    case (Removed i)
    have "kb_tasks (hearTask d name v page) = tasksReducer ?s (Task_deleted i)"
      using heard(3) [of p w' i name] assms(4,8) by (simp add: Removed Let_def closeDrawer_def)
    then show ?thesis by (simp add: Removed clientStep.deleted)
  next
    case (Edited i)
    obtain c t where c: "tch_id c = Some i" "tch_projectId c = Some p" "t \<in> set (tasks w')" "t_id t = i"
      "t_projectId t = p" "tch_status c = Some (t_status t)" "tch_rank c = Some (t_rank t)"
      "hearTask d name v page = dispatchTask (Task_updated i c) page"
      using heard(4) assms(4) by (force simp: Edited assms(8))
    have "boardOf (rows ?s) p = boardOf (tasks w') p" using nb assms(7) by (simp add: Edited)
    from same_place [OF assms(6) _ this _ c(3,5)] nb
    show ?thesis using c by (auto simp: Edited intro!: clientStep.edited)
  qed
qed



section \<open>Submitting\<close>

lemma distinct_toggle: "distinct (td_assigneeIds d) \<Longrightarrow> distinct (td_assigneeIds (toggleMember i d))"
  by (simp add: toggleMember_def)

lemma sameAssignees_iff:
  assumes "distinct xs" and "distinct ys"
  shows "sameAssignees xs ys \<longleftrightarrow> set xs = set ys"
proof
  assume s: "sameAssignees xs ys"
  then have "set xs \<subseteq> set ys" "card (set xs) = card (set ys)"
    using assms by (auto simp: sameAssignees_def list_all_iff distinct_card)
  then show "set xs = set ys" by (intro card_subset_eq) simp_all
next
  assume s: "set xs = set ys"
  then have "length xs = length ys" using assms by (metis distinct_card)
  then show "sameAssignees xs ys" using s by (simp add: sameAssignees_def list_all_iff)
qed

text \<open>Two drafts with the same fields, their assignees compared as sets.\<close>

definition sameDraft :: "task_draft \<Rightarrow> task_draft \<Rightarrow> bool" where
  "sameDraft a b \<longleftrightarrow> td_title a = td_title b \<and> td_categoryId a = td_categoryId b \<and> td_status a = td_status b \<and>
     td_priority a = td_priority b \<and> td_notes a = td_notes b \<and> set (td_assigneeIds a) = set (td_assigneeIds b)"

text \<open>The body as the server's DTO reads it.\<close>

definition patchOf :: "(string \<Rightarrow> millis) \<Rightarrow> update_task_body \<Rightarrow> update_task_dto" where
  "patchOf instant b = \<lparr>utd_title = utb_title b, utd_categoryId = utb_categoryId b, utd_status = utb_status b,
     utd_priority = utb_priority b, utd_rank = utb_rank b, utd_startAt = map_option instant (utb_startAt b),
     utd_endAt = map_option instant (utb_endAt b), utd_description = utb_description b, utd_notes = utb_notes b,
     utd_onCalendar = utb_onCalendar b, utd_assigneeIds = utb_assigneeIds b\<rparr>"

text \<open>\<open>row'\<close> is \<open>row\<close> with the fields in which the saved draft \<open>d\<close> differs from the opened draft \<open>a\<close>.\<close>

definition mergedRow :: "task_draft \<Rightarrow> task_draft \<Rightarrow> task_row \<Rightarrow> task_row \<Rightarrow> bool" where
  "mergedRow a d row row' \<longleftrightarrow> row' = row\<lparr>
     t_title := (if td_title d = td_title a then t_title row else td_title d),
     t_categoryId := (if td_categoryId d = td_categoryId a then t_categoryId row else td_categoryId d),
     t_priority := (if td_priority d = td_priority a then t_priority row else td_priority d),
     t_notes := (if td_notes d = td_notes a then t_notes row else Some (td_notes d))\<rparr>"

lemma updates_merge:
  assumes "td_categoryId d = Some c"
  shows "mergedRow a d row (applyTaskFields (patchOf instant (updatesOf d c a)) row)"
  using assms
  by (auto simp: mergedRow_def applyTaskFields_def patchOf_def updatesOf_def noUpdates_def setIfChanged_def
      orElse_def orKeep_def)

lemma updates_none:
  assumes "td_categoryId d = Some c" and "distinct (td_assigneeIds d)" and "distinct (td_assigneeIds a)"
  shows "updatesOf d c a = noUpdates \<longleftrightarrow> sameDraft d a"
  using assms sameAssignees_iff [OF assms(2,3)]
  by (auto simp: updatesOf_def noUpdates_def setIfChanged_def sameDraft_def)

lemma submit_run:
  assumes "\<not> cf_submitting (kb_form page)" and "trim (td_title (cf_draft (kb_form page))) \<noteq> []"
    and "td_categoryId (cf_draft (kb_form page)) = Some c" and "dw_target (kb_drawer page) = Drawer_edit i"
    and "d = (cf_draft (kb_form page))\<lparr>td_title := trim (td_title (cf_draft (kb_form page)))\<rparr>"
    and "u = updatesOf d c (cf_initial (kb_form page))"
  shows "handleSubmit page = (if u = noUpdates then setSubmitting False (closeDrawer (setSubmitting True page))
     else calling (Saving i u (dw_session (kb_drawer page))) (setSubmitting True page))"
  using assms
  by (simp add: handleSubmit_def handleSubmitDrawer_def Let_def calling_def setSubmitting_def closeDrawer_def)


text \<open>The first page of the sample, its drawer open on a card of category \<open>x\<close> whose title has been typed anew.\<close>

definition sampleForm :: kanban_page where
  "sampleForm = kanbanStep (\<lambda>s. 0) (Edits (Type_title '' New ''))
     (kanbanStep (\<lambda>s. 0) (Edits (Select_category ''x'')) (kanbanStep (\<lambda>s. 0) (Opens (Drawer_edit ''a'')) samplePage))"

lemma trim_sample: "trim '' New '' = ''New''"
  by (simp add: trim_def trimEnd_def trimStart_def isWs_def)

lemma sampleForm_simps:
  "kb_form sampleForm = \<lparr>cf_initial = buildInitialDraft (Some (sampleCard ''a'' TODO 0)) [] TODO,
     cf_draft = (buildInitialDraft (Some (sampleCard ''a'' TODO 0)) [] TODO)\<lparr>td_categoryId := Some ''x'', td_title := '' New ''\<rparr>,
     cf_showErrors = False, cf_submitting = False\<rparr>"
  "kb_drawer sampleForm = \<lparr>dw_target = Drawer_edit ''a'', dw_isOpen = True, dw_session = 1\<rparr>"
  "kb_calls sampleForm = []"
  using samplePage_at by (simp_all add: sampleForm_def openDrawer_def mountForm_def samplePage_def mountPage_def membersOf_def)


section \<open>One request for each opening of the drawer\<close>

text \<open>The sessions of the forms that wait for an answer.\<close>

fun formOfCall :: "kanban_call \<Rightarrow> nat list" where
  "formOfCall (Creating body s) = [s]"
| "formOfCall (Saving i u s) = [s]"
| "formOfCall (Reloading (Some s)) = [s]"
| "formOfCall c = []"

definition waitingForms :: "kanban_call list \<Rightarrow> nat list" where
  "waitingForms calls = concat (map formOfCall calls)"

lemma waitingForms_append [simp]:
  "waitingForms [] = []" "waitingForms (cs @ ds) = waitingForms cs @ waitingForms ds"
  "waitingForms (c # cs) = formOfCall c @ waitingForms cs"
  by (simp_all add: waitingForms_def)

definition oneRequestEach :: "kanban_page \<Rightarrow> bool" where
  "oneRequestEach page \<longleftrightarrow> distinct (waitingForms (kb_calls page)) \<and>
     (\<forall>s\<in>set (waitingForms (kb_calls page)). s \<le> dw_session (kb_drawer page)) \<and>
     (cf_submitting (kb_form page) \<longleftrightarrow> dw_session (kb_drawer page) \<in> set (waitingForms (kb_calls page)))"

text \<open>What \<open>oneRequestEach\<close> looks at.\<close>

definition waits :: "kanban_page \<Rightarrow> nat list \<times> nat \<times> bool" where
  "waits page = (waitingForms (kb_calls page), dw_session (kb_drawer page), cf_submitting (kb_form page))"

lemma waits_cong: "waits page' = waits page \<Longrightarrow> oneRequestEach page' = oneRequestEach page"
  by (simp add: waits_def oneRequestEach_def)

lemma waits_simps [simp]:
  "waits (dispatchTask a page) = waits page" "waits (showToast t page) = waits page"
  "waits (closeDrawer page) = waits page" "waits (gestureEnded page) = waits page"
  "waits (restoreOrigin i origin page) = waits page" "waits (page\<lparr>kb_openedFromUrl := u\<rparr>) = waits page"
  "waits (page\<lparr>kb_members := ms\<rparr>) = waits page"
  "formOfCall c = [] \<Longrightarrow> waits (calling c page) = waits page"
  by (simp_all add: waits_def dispatchTask_def showToast_def closeDrawer_def gestureEnded_def calling_def
      restoreOrigin_def handlePreviewMove_def split: option.split)

lemma waits_hear [simp]: "waits (hearTask d name v page) = waits page"
  by (simp add: hearTask_def handleTaskCreated_def handleTaskUpdated_def handleTaskMoved_def handleTaskDeleted_def
      Let_def split: option.split)

lemma waits_gesture [simp]:
  "waits (handleDragStart i page) = waits page" "waits (handleDragOver d page) = waits page"
  "waits (handleDragEnd d page) = waits page" "waits (handleDragCancel i page) = waits page"
  "waits (handleDeleteTask i page) = waits page"
proof -
  show "waits (handleDragStart i page) = waits page" by (simp add: handleDragStart_def waits_def)
  show "waits (handleDragOver d page) = waits page"
    by (simp add: handleDragOver_def handlePreviewMove_def split: option.split)
  show "waits (handleDragEnd d page) = waits page"
    by (simp add: handleDragEnd_def handleMoveTask_def Let_def split: option.split)
  show "waits (handleDragCancel i page) = waits page" by (simp add: handleDragCancel_def)
  show "waits (handleDeleteTask i page) = waits page"
    by (simp add: handleDeleteTask_def Let_def split: option.split)
qed

lemma opened_one: "oneRequestEach page \<Longrightarrow> oneRequestEach (openDrawer g page)"
  by (auto simp: oneRequestEach_def openDrawer_def mountForm_def)

lemma edited_one:
  "oneRequestEach page \<Longrightarrow> oneRequestEach (page\<lparr>kb_form := (kb_form page)\<lparr>cf_draft := d\<rparr>\<rparr>)"
  by (simp add: oneRequestEach_def)

lemma submitted_one:
  assumes "oneRequestEach page"
  shows "oneRequestEach (handleSubmit page)"
proof -
  have sent: "oneRequestEach (calling c (setSubmitting True page))"
    if "\<not> cf_submitting (kb_form page)" "formOfCall c = [dw_session (kb_drawer page)]" for c
    using assms that by (auto simp: oneRequestEach_def calling_def setSubmitting_def)
  have errs: "oneRequestEach (page\<lparr>kb_form := (kb_form page)\<lparr>cf_showErrors := True\<rparr>\<rparr>)"
    using assms by (simp add: oneRequestEach_def)
  have none: "oneRequestEach (setSubmitting False (closeDrawer (setSubmitting True page)))"
    "oneRequestEach (setSubmitting False (setSubmitting True page))"
    if "\<not> cf_submitting (kb_form page)"
    using assms that by (simp_all add: oneRequestEach_def closeDrawer_def setSubmitting_def)
  have d: "kb_drawer (setSubmitting b q) = kb_drawer q" "kb_calls (setSubmitting b q) = kb_calls q"
    "kb_calls (closeDrawer q) = kb_calls q" for b q
    by (simp_all add: setSubmitting_def closeDrawer_def)
  show ?thesis
    using assms sent errs none
    by (auto simp: handleSubmit_def handleSubmitDrawer_def Let_def d split: option.split drawer_target.split)
qed

lemma ended_one:
  assumes "oneRequestEach (calling c page)" and "formOfCall c = [s]" and "waits page' = waits page"
  shows "oneRequestEach (submitEnded s page')"
  using assms unfolding waits_def
  by (auto simp: oneRequestEach_def submitEnded_def setSubmitting_def)

lemma reloading_one:
  assumes "oneRequestEach (calling c page)" and "formOfCall c = formOfCall c'" and "waits page' = waits page"
  shows "oneRequestEach (calling c' page')"
  using assms unfolding waits_def
  by (auto simp: oneRequestEach_def)

lemma quiet_one:
  assumes "oneRequestEach (calling c page)" and "formOfCall c = []" and "waits page' = waits page"
  shows "oneRequestEach page'"
  using assms waits_cong [of "calling c page" page] waits_cong [of page' page] by simp

lemma settled_one: "oneRequestEach (calling c page) \<Longrightarrow> oneRequestEach (settle instant c a page)"
proof (induction instant c a page rule: settle.induct)
qed (auto simp: settleCreate_def settleSave_def settleMove_def settleDelete_def settleReload_def Let_def
    split: option.split prod.split intro: ended_one reloading_one quiet_one)

lemma answered_one:
  assumes "oneRequestEach page"
  shows "oneRequestEach (answerCall instant n a page)"
proof (cases "n < length (kb_calls page)")
  case True
  let ?rest = "page\<lparr>kb_calls := take n (kb_calls page) @ drop (Suc n) (kb_calls page)\<rparr>"
  have split: "waitingForms (kb_calls page) =
      waitingForms (take n (kb_calls page)) @ formOfCall (kb_calls page ! n) @ waitingForms (drop (Suc n) (kb_calls page))"
    by (subst id_take_nth_drop [OF True]) simp
  have "oneRequestEach (calling (kb_calls page ! n) ?rest)"
    using assms by (auto simp: oneRequestEach_def calling_def split)
  from settled_one [OF this] show ?thesis by (simp add: answerCall_def True)
qed (simp add: answerCall_def assms)

lemma waits_one: "oneRequestEach page \<Longrightarrow> waits page' = waits page \<Longrightarrow> oneRequestEach page'"
  using waits_cong by blast

lemma step_one: "oneRequestEach page \<Longrightarrow> oneRequestEach (kanbanStep instant e page)"
proof (cases e)
  case (Url_task i)
  assume "oneRequestEach page"
  moreover have "oneRequestEach (page\<lparr>kb_openedFromUrl := Some i\<rparr>)"
    by (rule waits_one [OF \<open>oneRequestEach page\<close>]) simp
  ultimately show ?thesis by (simp add: Url_task taskIdFromUrl_def Let_def opened_one)
qed (auto intro: opened_one edited_one submitted_one answered_one waits_one)

lemma mounted_one: "oneRequestEach (mountPage instant p loaded people)"
  by (simp add: oneRequestEach_def mountPage_def mountForm_def)

lemma run_one: "oneRequestEach page \<Longrightarrow> oneRequestEach (fold (kanbanStep instant) es page)"
  by (induction es arbitrary: page) (simp_all add: step_one)

text \<open>C40 Whatever the user, the server and the other browsers do, and in whatever order the answers arrive, an
  opening of the drawer never has two requests under way, so a double click cannot create two tasks; and
  the form's buttons are locked exactly while its own request is unanswered, never by the request of
  an opening before it.\<close>

theorem each_form_waits_for_one_request:
  "distinct (waitingForms (kb_calls (fold (kanbanStep instant) es (mountPage instant p loaded people)))) \<and>
   (cf_submitting (kb_form (fold (kanbanStep instant) es (mountPage instant p loaded people))) \<longleftrightarrow>
     dw_session (kb_drawer (fold (kanbanStep instant) es (mountPage instant p loaded people))) \<in>
       set (waitingForms (kb_calls (fold (kanbanStep instant) es (mountPage instant p loaded people)))))"
  using run_one [OF mounted_one] by (simp add: oneRequestEach_def)

text \<open>The answer of a save closes whichever drawer is open: a save under way, the drawer closed by its X and
  opened on another card, and the answer shuts that one too.\<close>

lemma late_save_closes_another_drawer:
  "let opened = kanbanStep (\<lambda>s. 0) (Opens (Drawer_edit ''b'')) (kanbanStep (\<lambda>s. 0) Closes (handleSubmit sampleForm))
   in dw_isOpen (kb_drawer opened) \<and> (\<exists>u. kb_calls opened = [Saving ''a'' u 1] \<and>
     (\<forall>t. \<not> dw_isOpen (kb_drawer (answerCall (\<lambda>s. 0) 0 (Answered_task t) opened))))"
proof -
  obtain u where u: "kb_calls (handleSubmit sampleForm) = [Saving ''a'' u 1]"
    "kb_drawer (handleSubmit sampleForm) = \<lparr>dw_target = Drawer_edit ''a'', dw_isOpen = True, dw_session = 1\<rparr>"
    using submit_run [of sampleForm "''x''" "''a''" _ _] 
      updates_none [of "(cf_draft (kb_form sampleForm))\<lparr>td_title := ''New''\<rparr>" "''x''" "cf_initial (kb_form sampleForm)"]
    by (simp add: sampleForm_simps trim_sample buildInitialDraft_def sampleCard_def sameDraft_def calling_def setSubmitting_def)
  then show ?thesis
    by (simp add: Let_def openDrawer_def closeDrawer_def answerCall_def settleSave_def submitEnded_def)
qed

end
