(* ===== verification/Spec2Isabelle.thy ===== *)
theory Spec2Isabelle
  imports TaskBoard Coordinator Members ProjectLife Relationships Chat LiveSync Calendar SearchPage PublicApi
    Controllers FriendView BrowserSession KanbanPage
begin

text \<open>
  A verification library for tomato: a project workspace with a NestJS backend (\<open>src/backend\<close>), a React
  browser client (\<open>src/frontend\<close>) and a Go authentication service (\<open>src/auth\<close>). The model covers the
  TypeScript of the first two.

  The parts and how they interact. The browser calls the backend by HTTP under \<open>/api\<close> and is told of
  changes over socket.io. A request passes the rate limit, the readiness and authentication guards, the
  parameter and body checks, and reaches a controller, which calls one service in the name of the user
  the authentication service confirmed. Services read and write the PostgreSQL tables through Prisma,
  partly in transactions, partly under the in-process locks of \<open>FieldLockManager\<close>, and broadcast each
  change to the room of its project or user. Database login and internal token come from Vault and are
  renewed while the process runs. Machines use the routes below \<open>/api/public/v1\<close> with a project token.

  How code becomes a model. The state of the backend is the record \<open>world\<close> (Schema): the tables as lists
  of rows, the leases, sockets, session tables, broadcasts, the clock and the supply of ids. An
  asynchronous method is an action \<open>'s \<Rightarrow> (exn + 'a) \<times> 's\<close> (Prelude); \<open>throw\<close>,
  \<open>try/catch\<close>, \<open>Promise.all\<close> and \<open>transaction\<close> are combinators. What other requests do while a
  method waits for a lock (\<open>wait\<close>) or between two of its queries (\<open>gap\<close>) is a function on the world
  given as an argument; the theorems hold for all of them, or name what they must not do.

  The theories, in the order they build on each other:
  \<^item> Prelude, Tables, JsNumber, JsText, Json: errors, actions and their invariant rules (\<open>keeps_rules\<close>,
    \<open>run_simps\<close>); the locale \<open>table\<close> (what a database table promises), interpreted on every table, and
    \<open>capped\<close> on the tables with a maximum; doubles, text and JSON as JavaScript has them.
  \<^item> Schema, Realtime, Access: \<open>prisma/schema.prisma\<close> and Prisma's calls; rooms, broadcasts and
    notifications (\<open>realtime.service.ts\<close>, \<open>notifications.service.ts\<close>); membership
    (\<open>assertMembership\<close>) and the locale \<open>access_guard\<close>.
  \<^item> Tasks, TaskRanks, TaskStore, TaskBoard: \<open>tasks.service.ts\<close>; the board as lists in rank order; the
    locales \<open>board_store\<close>, \<open>board_source\<close>, \<open>board_sink\<close>, \<open>board_pair\<close>, interpreted on the server's
    transactions and on \<open>frontend/src/lib/tasksReducer.ts\<close>: a browser told the events shows the server's
    board.
  \<^item> Coordinator, FieldLocks, Gateway: the queues and leases of \<open>field-lock-manager.ts\<close>, and
    \<open>realtime.gateway.ts\<close>.
  \<^item> Projects, ProjectLife, Members, Progress: \<open>projects.service.ts\<close> with its seeds, cascades and
    progress; \<open>project-members.service.ts\<close>; \<open>evaluationChecklistProgress.ts\<close>.
  \<^item> Users, Relationships: \<open>users.service.ts\<close>, \<open>user-relationships.service.ts\<close> and the two-stance
    automaton the latter refines.
  \<^item> Checklist, Discovery, LiveSync: \<open>evaluation-checklist-items\<close>, \<open>discovery-blocks\<close>,
    \<open>discovery-block-items\<close>; the locale \<open>live_list\<close> of \<open>useLiveItemSync\<close>, interpreted on both pages.
  \<^item> Chat, Calendar, Search, SearchPage: \<open>chat.service.ts\<close> and the chat page's paging and dots;
    \<open>calendar-events\<close>, \<open>calendar-categories\<close>; \<open>search.service.ts\<close> (locale \<open>like_operator\<close>) and
    \<open>searchPageParams.ts\<close>.
  \<^item> RateLimit, PublicApi: the write limiter and the guard, controllers and management of project tokens.
  \<^item> Vault, Http, Routes, Controllers: \<open>vault-runtime.service.ts\<close>, \<open>vault.client.ts\<close>,
    \<open>prisma.service.ts\<close>; \<open>auth.guard.ts\<close>, \<open>websocket-admission.service.ts\<close>, statuses of errors and
    checks of uploads; the routes of all controllers, their handlers and the way of one request
    (\<open>dispatch\<close>).
  \<^item> Json, BrowserApi, BrowserCalls, Wire: JSON values and how the browser picks fields from them;
    \<open>apiClient.ts\<close> and the parsers of the API modules of \<open>frontend/src/lib\<close>; the calls of these modules;
    the JSON the server writes for each reply, and every call against \<open>dispatch\<close>.
  \<^item> RealtimeSocket, BrowserSession: \<open>realtimeSocket.ts\<close>; the session of \<open>auth.ts\<close> and \<open>authState.ts\<close> with
    \<open>bearerFetch\<close> of \<open>apiClient.ts\<close>. Events come from the page, the network and the timers.
  \<^item> FriendView: the friends page (\<open>friendsApi.ts\<close>, \<open>friendProfile.ts\<close>, \<open>friendCountState.ts\<close>,
    \<open>useFriendsRealtime.ts\<close>, \<open>routes/_authenticated/friends.tsx\<close>) against the friendship service.
  \<^item> KanbanPage: the kanban page, its drawer and its drag gesture (\<open>kanban.tsx\<close>, \<open>KanbanBoard.tsx\<close>,
    \<open>KanbanCardDrawer.tsx\<close>) on the reducer of TaskBoard and the JSON of Wire. A handler that awaits a call is
    split into a step before it and a step with the answer.

  What the lemmas show. Each theory proves the functional behaviour of its operations on success and on
  every error path, and the invariants they keep under interference: dense ranks, one lease per key, at
  most five sockets a session, rows without dangling references, caps, statuses in step with their items.
  Refinements relate detailed operations to an abstract machine (board, pair automaton, live list,
  sliding window). The root theory holds the properties that span components: what an outsider and a
  caller without credentials get from any route.

  Bounds and fuel. Rounding a rational to a double searches the exponent with 1100 doublings, more than
  the 1074 of the smallest double. Loops over pages take the number of steps as an argument; the theorem
  on chat history proves a number that is enough. All other recursion is structural.

  Parameters. Of libraries and services only documented behaviour is assumed, as arguments: answers of the
  authentication service and of Vault with their delays, verdicts of the throttler, the UUID test and
  class-validator (\<open>en_validate\<close>), the database's text order and \<open>ILIKE\<close>, the snapshots a search reads,
  the object store, and what interferes while a method waits; the columns the rows leave out and ISO dates
  (\<open>columns\<close>), the browser's reading of dates.

  Not modelled: the Go service with its tables and the origin check of its WebSocket policy; start-up and
  environment validation; calls to the object store; seeds and operation scripts; React rendering and
  styling, and the event handlers of the pages but the friends, chat and kanban pages; nginx, Docker and Vault
  configuration. These are other languages, declarations without state, or effects on the screen that no
  type of HOL represents without inventing a browser.
\<close>


definition answersFor :: "ident \<Rightarrow> string \<Rightarrow> string \<Rightarrow> fetch_result" where
  "answersFor u token body = Fetch_response 200 (Some (\<lambda>field.
     if field = ''active'' then J_bool True else if field = ''assuranceLevel'' then J_int 1
     else if field = ''sub'' then J_string u else J_string ''x''))"

definition quietEnv :: "(string, string, string) env" where
  "quietEnv = \<lparr>en_auth = answersFor ''eve'', en_keys = (\<lambda>_ _. Fetch_failed), en_tokens = (\<lambda>_ _ _. None),
     en_withinRate = (\<lambda>_. True), en_isUUID = (\<lambda>i. length i = 36), en_validate = (\<lambda>_ _. Inr In_nothing),
     en_wait = (\<lambda>w. w), en_gap = (\<lambda>w. w), en_rank = (\<lambda>_. 0), en_ilike = (\<lambda>_ _. False), en_touched = (\<lambda>_. 0),
     en_snap = (\<lambda>w _. w), en_put = (\<lambda>_. ret ()), en_del = (\<lambda>_. ret ()), en_fetch = (\<lambda>k. ret k),
     en_ping = True, en_storagePing = True\<rparr>"

definition eveRequest :: "string http_request" where
  "eveRequest = \<lparr>rq_verb = GET, rq_path = [''projects'', replicate 36 (CHR ''p''), ''tasks''],
     rq_authorization = H_one ''Bearer abc'', rq_apiKey = H_absent, rq_fieldLockToken = H_absent, rq_body = []\<rparr>"

definition startState :: api where
  "startState = \<lparr>api_world = emptyWorld, api_limiter = \<lparr>tokenWindows = [], lastPrunedAt = 0\<rparr>\<rparr>"


lemma eve_resolves:
  "resolve (rq_verb eveRequest) (rq_path eveRequest) =
     Some (InProject (replicate 36 (CHR ''p'')) (Tasks All), [replicate 36 (CHR ''p'')])"
  by (simp add: resolve_defs eveRequest_def)

lemma eve_user: "\<exists>u. auth_canActivate (internalFetch vaultUp (en_auth quietEnv)) False False (rq_authorization eveRequest) =
     Inr (Some u) \<and> ru_id u = ''eve''"
  by (simp add: auth_canActivate_def internalFetch_def getInternalToken_def vaultUp_eq given_def quietEnv_def
      eveRequest_def firstHeaderValue_def readBearerToken_def hasPrefix_def introspectUser_def answersFor_def
      responseOk_def userOf_def stringOf_def)



text \<open>C31 A request to a route that is not public is answered with an error status and changes nothing when
  Vault has not delivered the credentials, or when the authentication service confirms neither an access
  token nor an API key of the request.\<close>

theorem no_service_without_credentials:
  assumes "resolve (rq_verb r) (rq_path r) = Some (e, ids)" and "\<not> isPublic e"
    and "\<not> isReady v \<or>
      (\<forall>u. auth_canActivate (internalFetch v (en_auth env)) False False (rq_authorization r) \<noteq> Inr (Some u)) \<and>
      noToken env v r"
  shows "\<exists>x. dispatch env v r s = (Inl x, s) \<and> 400 \<le> fst (respond (rq_verb r) (Some e) (Inl x))"
proof (cases "en_withinRate env r \<and> isReady v")
  case False
  then show ?thesis using assms(1,2)
    by (auto simp: dispatch_def andThen_run ensure_run outcome_def readiness_canActivate_def respond_def httpStatus_error)
next
  case True
  then have none: "\<forall>u. auth_canActivate (internalFetch v (en_auth env)) False False (rq_authorization r) \<noteq> Inr (Some u)"
    and key: "noToken env v r" using assms(3) by auto
  have run: "dispatch env v r s = andThen (outcome (auth_canActivate (internalFetch v (en_auth env)) False (isMachine e)
         (rq_authorization r))) (\<lambda>user.
       case e of
         Machine p me \<Rightarrow> serveMachine env (internalFetch v (en_keys env)) ids r p me
       | MachineToken \<Rightarrow> andThen (public_introspect (internalFetch v (en_keys env)) (en_isUUID env) (rq_apiKey r))
           (\<lambda>x. ret (R_token x))
       | _ \<Rightarrow> onWorld (andThen (pipes env ids e (rq_body r)) (\<lambda>i.
           handler env v (firstHeaderValue (rq_fieldLockToken r)) user e i))) s"
    using True assms(1,2) by (simp add: dispatch_def andThen_run ensure_run outcome_def readiness_canActivate_def)
  have "\<exists>x. dispatch env v r s = (Inl x, s)"
  proof (cases "isMachine e")
    case True
    obtain x where "public_introspect (internalFetch v (en_keys env)) (en_isUUID env) (rq_apiKey r) s = (Inl x, s)"
      using self_denied [OF key] by blast
    then show ?thesis using True machine_denied [OF key, of ids]
      by (cases e) (simp_all add: run andThen_run outcome_def auth_canActivate_def)
  next
    case False
    obtain x where "auth_canActivate (internalFetch v (en_auth env)) False False (rq_authorization r) = Inl x"
      using none auth_never_anonymous by (metis not_Some_eq obj_sumE)
    then show ?thesis using False by (auto simp: run andThen_run outcome_def)
  qed
  then show ?thesis by (auto simp: respond_def httpStatus_error)
qed

definition bareRequest :: "string http_request" where
  "bareRequest = eveRequest\<lparr>rq_authorization := H_absent\<rparr>"

lemma no_service_without_credentials_witness:
  "\<exists>x. dispatch quietEnv vaultUp bareRequest startState = (Inl x, startState) \<and>
     400 \<le> fst (respond GET (Some (InProject (replicate 36 (CHR ''p'')) (Tasks All))) (Inl x))"
proof -
  have "resolve (rq_verb bareRequest) (rq_path bareRequest) =
      Some (InProject (replicate 36 (CHR ''p'')) (Tasks All), [replicate 36 (CHR ''p'')])"
    using eve_resolves by (simp add: bareRequest_def)
  moreover have "\<forall>u. auth_canActivate auth False False (rq_authorization bareRequest) \<noteq> Inr (Some u)" for auth
    by (simp add: bareRequest_def auth_canActivate_def firstHeaderValue_def readBearerToken_def)
  moreover have "noToken quietEnv vaultUp bareRequest"
    by (simp add: bareRequest_def eveRequest_def noToken_def firstHeaderValue_def)
  moreover have "rq_verb bareRequest = GET" by (simp add: bareRequest_def eveRequest_def)
  ultimately show ?thesis
    using no_service_without_credentials [of bareRequest _ _ vaultUp quietEnv startState] by fastforce
qed

end
